(* ===== verification/Prelude.thy ===== *)
theory Prelude
  imports Complex_Main "HOL-Library.AList" "HOL-Library.Char_ord" "HOL-Library.List_Lexorder"
begin

text \<open>
  What every component shares: the errors of a throwing operation as a sum type and its
  sequencing, JavaScript's insertion-ordered \<open>Map\<close> and \<open>Set\<close>, JavaScript numbers and
  JSON values, the string helpers (\<open>trim\<close>, \<open>length\<close>), SQL tables as lists of rows, and the
  lemma collections the component proofs use. A \<open>Map\<close> is an association list whose keys keep
  their first insertion position (\<open>AList.update\<close> rewrites in place or appends), a \<open>Set\<close> is a
  list without repetitions in insertion order. Strings are lists of code units below 256, so
  \<open>sort\<close> on strings is the code-unit order of \<open>Array.prototype.sort\<close>.
\<close>

named_theorems frame \<comment> \<open>which parts of a state an operation leaves alone\<close>
named_theorems keys \<comment> \<open>the keys of a map after an update\<close>
named_theorems bind_inv \<comment> \<open>inversion of a sequence of fallible steps\<close>

section \<open>Errors as values\<close>

text \<open>
  An operation that may throw returns \<open>Inl\<close> of the error or \<open>Inr\<close> of its result.
  \<open>Conflict\<close> carries the \<open>code\<close> field of the module's conflict error class, \<open>Invalid\<close>
  the label or message head of a plain \<open>Error\<close>, and \<open>SqlConstraint\<close> is a statement that
  SQLite aborts because of a table constraint.
\<close>

datatype 'c err = Conflict 'c | Invalid string | SqlConstraint

definition bindE :: "'e + 'a \<Rightarrow> ('a \<Rightarrow> 'e + 'b) \<Rightarrow> 'e + 'b" where
  "bindE m f = (case m of Inl e \<Rightarrow> Inl e | Inr a \<Rightarrow> f a)"

definition throwIf :: "bool \<Rightarrow> 'e \<Rightarrow> 'e + 'b \<Rightarrow> 'e + 'b" where
  "throwIf c e m = (if c then Inl e else m)"

lemma bindE_simps [simp]: "bindE (Inl e) f = Inl e" "bindE (Inr a) f = f a"
  by (simp_all add: bindE_def)

lemma bindE_Inr [bind_inv]: "bindE m f = Inr b \<longleftrightarrow> (\<exists>a. m = Inr a \<and> f a = Inr b)"
  by (cases m) simp_all

lemma bindE_Inl [bind_inv]:
  "bindE m f = Inl e \<longleftrightarrow> m = Inl e \<or> (\<exists>a. m = Inr a \<and> f a = Inl e)"
  by (cases m) auto

lemma throwIf_Inr [bind_inv]: "throwIf c e m = Inr b \<longleftrightarrow> \<not> c \<and> m = Inr b"
  by (simp add: throwIf_def)

lemma throwIf_Inl [bind_inv]: "throwIf c e m = Inl e' \<longleftrightarrow> (c \<and> e = e') \<or> (\<not> c \<and> m = Inl e')"
  by (auto simp: throwIf_def)

lemma throwIf_simps [simp]: "throwIf True e m = Inl e" "throwIf False e m = m"
  by (simp_all add: throwIf_def)

lemma bindE_cong [fundef_cong]:
  "m = m' \<Longrightarrow> (\<And>a. m' = Inr a \<Longrightarrow> f a = f' a) \<Longrightarrow> bindE m f = bindE m' f'"
  by (cases m') simp_all

text \<open>Evaluation: a continuation is only rewritten once its argument is a value.\<close>

lemma bindE_weak_cong: "m = m' \<Longrightarrow> bindE m f = bindE m' f"
  by simp

section \<open>Insertion-ordered maps and sets\<close>

type_synonym ('k, 'v) jsmap = "('k \<times> 'v) list"
type_synonym 'a jsset = "'a list"

abbreviation map_keys :: "('k, 'v) jsmap \<Rightarrow> 'k list" where
  "map_keys m \<equiv> map fst m"

definition map_has :: "('k, 'v) jsmap \<Rightarrow> 'k \<Rightarrow> bool" where
  "map_has m k \<longleftrightarrow> map_of m k \<noteq> None"

definition set_add :: "'a \<Rightarrow> 'a jsset \<Rightarrow> 'a jsset" where
  "set_add x xs = (if x \<in> set xs then xs else xs @ [x])"

definition set_del :: "'a \<Rightarrow> 'a jsset \<Rightarrow> 'a jsset" where
  "set_del x xs = filter (\<lambda>y. y \<noteq> x) xs"

definition sorted_set :: "string list \<Rightarrow> string list" where
  "sorted_set xs = sort (remdups xs)"

lemma set_set_add [simp]: "set (set_add x xs) = insert x (set xs)"
  by (auto simp: set_add_def)

lemma distinct_set_add [simp]: "distinct xs \<Longrightarrow> distinct (set_add x xs)"
  by (simp add: set_add_def)

lemma set_set_del [simp]: "set (set_del x xs) = set xs - {x}"
  by (auto simp: set_del_def)

lemma set_sorted_set [simp]: "set (sorted_set xs) = set xs"
  by (simp add: sorted_set_def)

lemma sorted_sorted_set [simp]: "sorted (sorted_set xs)" "distinct (sorted_set xs)"
  by (simp_all add: sorted_set_def)

lemma map_of_update [simp]:
  "map_of (AList.update k v m) k' = (if k' = k then Some v else map_of m k')"
  by (simp add: AList.update_conv')

lemma map_keys_update [keys]:
  "map_keys (AList.update k v m) = (if k \<in> set (map_keys m) then map_keys m else map_keys m @ [k])"
  by (rule AList.update_keys)

lemma map_keys_update_mem [simp]:
  "map_of m k = Some v' \<Longrightarrow> map_keys (AList.update k v m) = map_keys m"
  by (auto simp: AList.update_keys dest!: map_of_SomeD intro: rev_image_eqI)

lemma map_has_iff: "map_has m k \<longleftrightarrow> k \<in> set (map_keys m)"
  by (simp add: map_has_def map_of_eq_None_iff)

lemma map_of_key: "k \<in> set (map_keys m) \<Longrightarrow> \<exists>v. map_of m k = Some v"
  by (metis map_of_eq_None_iff not_None_eq list.set_map)

section \<open>Loops that keep a property\<close>

lemma fold_inv:
  "(\<And>x s. x \<in> set xs \<Longrightarrow> P s \<Longrightarrow> P (f x s)) \<Longrightarrow> P s \<Longrightarrow> P (fold f xs s)"
  by (induction xs arbitrary: s) simp_all

lemma fold_rel:
  assumes "\<And>s. R s s" and "\<And>s t u. R s t \<Longrightarrow> R t u \<Longrightarrow> R s u"
    and "\<And>x s. x \<in> set xs \<Longrightarrow> R s (f x s)"
  shows "R s (fold f xs s)"
  by (rule fold_inv) (use assms in blast)+

lemma length_filter_all: "length xs \<le> length (filter P xs) \<longleftrightarrow> (\<forall>x \<in> set xs. P x)"
proof (induction xs)
  case (Cons x xs)
  have "\<not> Suc (length xs) \<le> length (filter P xs)" using length_filter_le [of P xs] by linarith
  with Cons.IH show ?case by simp
qed simp

text \<open>A loop over distinct keys whose body only touches what belongs to its key.\<close>

lemma fold_pointwise:
  assumes "distinct ns" and "\<And>n s m. m \<noteq> n \<Longrightarrow> view (f n s) m = view s m"
    and "\<And>n s. n \<in> set ns \<Longrightarrow> view s n = b n \<Longrightarrow> view (f n s) n = g n"
    and "\<And>n. n \<in> set ns \<Longrightarrow> view s n = b n"
  shows "view (fold f ns s) m = (if m \<in> set ns then g m else view s m)"
  using assms(1,3,4)
proof (induction ns arbitrary: s)
  case (Cons n ns)
  have "view (f n s) k = b k" if "k \<in> set ns" for k
    using Cons.prems that assms(2) [of k n s] by auto
  with Cons have "view (fold f ns (f n s)) m = (if m \<in> set ns then g m else view (f n s) m)" by auto
  moreover have "view (f n s) n = g n" using Cons.prems by simp
  ultimately show ?case using Cons.prems(1) assms(2) [of m n s] by auto
qed simp

end
