(* ===== verification/Js_Values.thy ===== *)
theory Js_Values
  imports Prelude
begin

text \<open>
  The JavaScript values the code inspects. A number is a rational (every finite double is one)
  or one of the three special doubles; a value of type \<open>unknown\<close> is a \<open>js\<close> term, an object
  being the list of its own enumerable properties in insertion order. \<open>===\<close> on two arrays or
  two objects compares references, and the values compared by this program come from different
  documents, so it is false there.
\<close>

datatype jsnum = Fin rat | PosInf | NegInf | NaN

definition num_is_integer :: "jsnum \<Rightarrow> bool" where
  "num_is_integer n = (case n of Fin q \<Rightarrow> snd (quotient_of q) = 1 | _ \<Rightarrow> False)"

definition num_is_finite :: "jsnum \<Rightarrow> bool" where
  "num_is_finite n = (case n of Fin q \<Rightarrow> True | _ \<Rightarrow> False)"

definition num_int :: "jsnum \<Rightarrow> int" where
  "num_int n = (case n of Fin q \<Rightarrow> fst (quotient_of q) | _ \<Rightarrow> 0)"

definition max_safe_integer :: int where
  "max_safe_integer = 9007199254740991"

definition is_safe_integer :: "jsnum \<Rightarrow> bool" where
  "is_safe_integer n \<longleftrightarrow> num_is_integer n \<and> \<bar>num_int n\<bar> \<le> max_safe_integer"

abbreviation num_of_int :: "int \<Rightarrow> jsnum" where
  "num_of_int i \<equiv> Fin (of_int i)"

fun num_less :: "jsnum \<Rightarrow> jsnum \<Rightarrow> bool" where
  "num_less (Fin a) (Fin b) = (a < b)"
| "num_less NaN _ = False"
| "num_less _ NaN = False"
| "num_less PosInf _ = False"
| "num_less _ PosInf = True"
| "num_less _ NegInf = False"
| "num_less NegInf _ = True"

fun num_eq :: "jsnum \<Rightarrow> jsnum \<Rightarrow> bool" where
  "num_eq (Fin a) (Fin b) = (a = b)"
| "num_eq NaN _ = False"
| "num_eq _ NaN = False"
| "num_eq a b = (a = b)"

definition num_le :: "jsnum \<Rightarrow> jsnum \<Rightarrow> bool" where
  "num_le a b \<longleftrightarrow> num_less a b \<or> num_eq a b"

lemma quotient_of_of_int [simp]: "quotient_of (of_int i) = (i, 1)"
  by (metis Fract_of_int_quotient quotient_of_Fract normalize_denom_pos split_conv
      Rat.of_int_rat coprime_1_right normalize_stable zero_less_one)

lemma num_int_of_int [simp]: "num_int (num_of_int i) = i" "num_is_integer (num_of_int i)"
  by (simp_all add: num_int_def num_is_integer_def)

lemma is_safe_integer_of_int [simp]:
  "is_safe_integer (num_of_int i) \<longleftrightarrow> \<bar>i\<bar> \<le> max_safe_integer"
  by (simp add: is_safe_integer_def)

lemma num_is_integerE:
  assumes "num_is_integer n" obtains i where "n = num_of_int i"
proof (cases n)
  case (Fin q)
  with assms have "snd (quotient_of q) = 1" by (simp add: num_is_integer_def)
  then have "q = of_int (fst (quotient_of q))"
    by (metis div_by_1 of_int_1 prod.collapse quotient_of_div)
  with Fin that show ?thesis by blast
qed (use assms in \<open>simp_all add: num_is_integer_def\<close>)

section \<open>JSON-like values\<close>

datatype js =
    JUndef
  | JNull
  | JBool bool
  | JNum jsnum
  | JStr string
  | JArr "js list"
  | JObj "(string \<times> js) list"

fun js_truthy :: "js \<Rightarrow> bool" where
  "js_truthy JUndef = False"
| "js_truthy JNull = False"
| "js_truthy (JBool b) = b"
| "js_truthy (JNum n) = (\<not> num_eq n (Fin 0) \<and> n \<noteq> NaN)"
| "js_truthy (JStr s) = (s \<noteq> [])"
| "js_truthy (JArr _) = True"
| "js_truthy (JObj _) = True"

fun js_strict_eq :: "js \<Rightarrow> js \<Rightarrow> bool" where
  "js_strict_eq JUndef JUndef = True"
| "js_strict_eq JNull JNull = True"
| "js_strict_eq (JBool a) (JBool b) = (a = b)"
| "js_strict_eq (JNum a) (JNum b) = num_eq a b"
| "js_strict_eq (JStr a) (JStr b) = (a = b)"
| "js_strict_eq _ _ = False"

definition js_nullish :: "js \<Rightarrow> js \<Rightarrow> js" where
  "js_nullish a b = (if a = JUndef \<or> a = JNull then b else a)"

definition js_or :: "js \<Rightarrow> js \<Rightarrow> js" where
  "js_or a b = (if js_truthy a then a else b)"

definition obj_get :: "(string \<times> js) list \<Rightarrow> string \<Rightarrow> js" where
  "obj_get fields k = (case map_of fields k of None \<Rightarrow> JUndef | Some v \<Rightarrow> v)"

definition opt_get :: "(string \<times> js) list option \<Rightarrow> string \<Rightarrow> js" where
  "opt_get config k = (case config of None \<Rightarrow> JUndef | Some fields \<Rightarrow> obj_get fields k)"

definition js_is_integer :: "js \<Rightarrow> bool" where
  "js_is_integer v = (case v of JNum n \<Rightarrow> num_is_integer n | _ \<Rightarrow> False)"

fun js_is_array :: "js \<Rightarrow> bool" where
  "js_is_array (JArr _) = True"
| "js_is_array _ = False"

section \<open>Strings\<close>

definition js_space :: "char \<Rightarrow> bool" where
  "js_space c \<longleftrightarrow> (let n = of_char c :: nat in (9 \<le> n \<and> n \<le> 13) \<or> n = 32 \<or> n = 160)"

definition js_trim :: "string \<Rightarrow> string" where
  "js_trim s = rev (dropWhile js_space (rev (dropWhile js_space s)))"

lemma length_js_trim: "length (js_trim s) \<le> length s"
proof -
  have "length (js_trim s) \<le> length (dropWhile js_space s)"
    by (simp add: js_trim_def) (metis length_dropWhile_le length_rev)
  also have "\<dots> \<le> length s" by (rule length_dropWhile_le)
  finally show ?thesis .
qed

end
