(* ===== verification/Json.thy ===== *)
theory Json
  imports Js_Values "HOL-Library.Multiset" "HOL-Library.Product_Lexorder"
begin

text \<open>
  The parts of JSON the persistence layer relies on: \<open>JSON.stringify\<close> on the values of
  \<open>Js_Values\<close>, the UTF-8 length that \<open>Buffer.byteLength\<close> gives, and the canonical encoding that
  several modules define in the same words (\<open>canonicalize\<close>, \<open>encodeCanonicalJson\<close>). Printing a
  number in shortest decimal form is the parameter \<open>num_str\<close>, as in \<open>Number.prototype.toString\<close>.
\<close>

section \<open>JSON.stringify\<close>

definition hex_digit :: "nat \<Rightarrow> char" where
  "hex_digit n = (if n < 10 then char_of (48 + n) else char_of (87 + n))"

definition json_escape :: "char \<Rightarrow> string" where
  "json_escape c =
     (let n = of_char c :: nat in
      if n = 34 then [CHR 0x5C, CHR 0x22]
      else if n = 92 then [CHR 0x5C, CHR 0x5C]
      else if n = 8 then [CHR 0x5C, CHR ''b'']
      else if n = 9 then [CHR 0x5C, CHR ''t'']
      else if n = 10 then [CHR 0x5C, CHR ''n'']
      else if n = 12 then [CHR 0x5C, CHR ''f'']
      else if n = 13 then [CHR 0x5C, CHR ''r'']
      else if n < 32 then [CHR 0x5C, CHR ''u'', CHR ''0'', CHR ''0'', hex_digit (n div 16), hex_digit (n mod 16)]
      else [c])"

definition json_quote :: "string \<Rightarrow> string" where
  "json_quote s = [CHR 0x22] @ concat (map json_escape s) @ [CHR 0x22]"

fun join :: "string \<Rightarrow> string list \<Rightarrow> string" where
  "join sep [] = []"
| "join sep [s] = s"
| "join sep (s # t # ts) = s @ sep @ join sep (t # ts)"

text \<open>\<open>None\<close> is \<open>undefined\<close>: such a member is left out of an object and is \<open>null\<close> in an array.\<close>

fun json_stringify :: "(jsnum \<Rightarrow> string) \<Rightarrow> js \<Rightarrow> string option" where
  "json_stringify num_str JUndef = None"
| "json_stringify num_str JNull = Some ''null''"
| "json_stringify num_str (JBool b) = Some (if b then ''true'' else ''false'')"
| "json_stringify num_str (JNum n) = Some (if num_is_finite n then num_str n else ''null'')"
| "json_stringify num_str (JStr s) = Some (json_quote s)"
| "json_stringify num_str (JArr vs) =
     Some (''['' @ join '','' (map (\<lambda>v. case json_stringify num_str v of None \<Rightarrow> ''null'' | Some t \<Rightarrow> t) vs) @ '']'')"
| "json_stringify num_str (JObj kvs) =
     Some (''{'' @ join '','' (concat (map (\<lambda>(k, v). case json_stringify num_str v of
             None \<Rightarrow> [] | Some t \<Rightarrow> [json_quote k @ '':'' @ t]) kvs)) @ ''}'')"

definition utf8_length :: "string \<Rightarrow> nat" where
  "utf8_length s = sum_list (map (\<lambda>c. if of_char c < (128 :: nat) then 1 else 2) s)"

lemma utf8_length_le: "utf8_length s \<le> 2 * length s"
  by (induction s) (simp_all add: utf8_length_def)

lemma utf8_length_ge: "length s \<le> utf8_length s"
  by (induction s) (simp_all add: utf8_length_def)

section \<open>Canonical encoding\<close>

text \<open>\<open>Number\<close> of a string of digits.\<close>

fun decimal :: "int \<Rightarrow> string \<Rightarrow> int" where
  "decimal acc [] = acc"
| "decimal acc (c # cs) = decimal (10 * acc + (of_char c - 48)) cs"

definition digits :: "string \<Rightarrow> bool" where
  "digits s \<longleftrightarrow> s \<noteq> [] \<and> list_all (\<lambda>c. CHR ''0'' \<le> c \<and> c \<le> CHR ''9'') s"

text \<open>
  Members are assigned in the order of the sorted keys, undefined ones dropped; the engine enumerates
  the array indices among the keys first, in numeric order, and the other keys in the order of
  assignment. An object has each key once (\<open>js_distinct\<close>), so both are one stable sort.
\<close>

definition array_index :: "string \<Rightarrow> bool" where
  "array_index k \<longleftrightarrow> digits k \<and> (k = ''0'' \<or> hd k \<noteq> CHR ''0'') \<and> decimal 0 k < 4294967295"

definition prop_order :: "string \<Rightarrow> int \<times> int \<times> string" where
  "prop_order k = (if array_index k then (0, decimal 0 k, k) else (1, 0, k))"

lemma prop_order_inj [simp]: "prop_order k = prop_order l \<longleftrightarrow> k = l"
  by (auto simp: prop_order_def)

definition member_order :: "string \<times> 'v \<Rightarrow> int \<times> int \<times> string" where
  "member_order p = prop_order (fst p)"

fun canonicalize :: "js \<Rightarrow> js" where
  "canonicalize (JArr vs) = JArr (map canonicalize vs)"
| "canonicalize (JObj kvs) =
     JObj (map (\<lambda>(k, v). (k, canonicalize v)) (filter (\<lambda>(k, v). v \<noteq> JUndef) (sort_key member_order kvs)))"
| "canonicalize v = v"

definition encodeCanonicalJson :: "(jsnum \<Rightarrow> string) \<Rightarrow> js \<Rightarrow> string \<Rightarrow> int \<Rightarrow> 'c err + string" where
  "encodeCanonicalJson num_str v what maximumBytes =
     (case json_stringify num_str v of
        None \<Rightarrow> Inl (Invalid what)
      | Some raw \<Rightarrow>
          throwIf (maximumBytes < int (utf8_length raw)) (Invalid what)
            (let canonical = (case json_stringify num_str (canonicalize v) of None \<Rightarrow> [] | Some t \<Rightarrow> t)
             in throwIf (maximumBytes < int (utf8_length canonical)) (Invalid what) (Inr canonical)))"

section \<open>Canonical values\<close>

fun js_distinct :: "js \<Rightarrow> bool" where
  "js_distinct (JArr vs) = (\<forall>v \<in> set vs. js_distinct v)"
| "js_distinct (JObj kvs) = (distinct (map fst kvs) \<and> (\<forall>kv \<in> set kvs. js_distinct (snd kv)))"
| "js_distinct v = True"

text \<open>Equal up to the order of the members of objects.\<close>

inductive js_same :: "js \<Rightarrow> js \<Rightarrow> bool" where
  same_leaf: "js_same v v"
| same_arr: "list_all2 js_same vs ws \<Longrightarrow> js_same (JArr vs) (JArr ws)"
| same_obj: "mset kvs = mset kws \<Longrightarrow> list_all2 (\<lambda>p q. fst p = fst q \<and> js_same (snd p) (snd q)) kws ls
    \<Longrightarrow> js_same (JObj kvs) (JObj ls)"

inductive_cases same_undef_left: "js_same JUndef v"
inductive_cases same_undef_right: "js_same v JUndef"

lemma insort_key_all2:
  assumes "list_all2 (\<lambda>p q. fst p = fst q \<and> R (snd p) (snd q)) xs ys" and "fst p = fst q \<and> R (snd p) (snd q)"
  shows "list_all2 (\<lambda>p q. fst p = fst q \<and> R (snd p) (snd q)) (insort_key member_order p xs) (insort_key member_order q ys)"
  using assms by (induction rule: list_all2_induct) (auto simp: member_order_def)

lemma sort_key_all2:
  "list_all2 (\<lambda>p q. fst p = fst q \<and> R (snd p) (snd q)) xs ys \<Longrightarrow>
   list_all2 (\<lambda>p q. fst p = fst q \<and> R (snd p) (snd q)) (sort_key member_order xs) (sort_key member_order ys)"
  by (induction rule: list_all2_induct) (auto intro: insort_key_all2)

lemma sort_key_mset:
  fixes xs ys :: "(string \<times> js) list"
  assumes "mset xs = mset ys" and "distinct (map fst xs)"
  shows "sort_key member_order xs = sort_key member_order ys"
  using assms by (intro sort_key_inj_key_eq) (auto simp: distinct_map inj_on_def member_order_def)

lemma filter_all2:
  "list_all2 R xs ys \<Longrightarrow> (\<And>x y. R x y \<Longrightarrow> P x = Q y) \<Longrightarrow> list_all2 R (filter P xs) (filter Q ys)"
  by (induction rule: list_all2_induct) auto

lemma map_all2_eq: "list_all2 (\<lambda>x y. f x = g y) xs ys \<Longrightarrow> map f xs = map g ys"
  by (induction rule: list_all2_induct) auto

lemma js_same_undef: "js_same v w \<Longrightarrow> v = JUndef \<longleftrightarrow> w = JUndef"
  by (auto elim: same_undef_left same_undef_right)

lemma canonicalize_same: "js_same v w \<Longrightarrow> js_distinct v \<Longrightarrow> canonicalize v = canonicalize w"
proof (induction rule: js_same.induct)
  case (same_arr vs ws)
  have "list_all2 (\<lambda>v w. canonicalize v = canonicalize w) vs ws"
    using same_arr by (auto simp: list_all2_conv_all_nth)
  then show ?case by (simp add: map_all2_eq)
next
  case (same_obj kvs kws ls)
  let ?R = "\<lambda>p q. fst p = fst q \<and> (js_same (snd p) (snd q) \<and> canonicalize (snd p) = canonicalize (snd q))"
  from same_obj.prems have d: "distinct (map fst kvs)" by simp
  have sub: "\<forall>p \<in> set kws. js_distinct (snd p)"
    using same_obj.prems mset_eq_setD [OF same_obj.hyps(1)] by simp
  then have "list_all2 ?R kws ls"
    using same_obj.IH by (auto simp: list_all2_conv_all_nth)
  then have "list_all2 ?R (sort_key member_order kws) (sort_key member_order ls)"
    by (rule sort_key_all2 [where R = "\<lambda>v w. js_same v w \<and> canonicalize v = canonicalize w"])
  then have "list_all2 ?R (filter (\<lambda>(k, v). v \<noteq> JUndef) (sort_key member_order kws)) (filter (\<lambda>(k, v). v \<noteq> JUndef) (sort_key member_order ls))"
    by (rule filter_all2) (auto dest: js_same_undef)
  then have "map (\<lambda>(k, v). (k, canonicalize v)) (filter (\<lambda>(k, v). v \<noteq> JUndef) (sort_key member_order kws))
      = map (\<lambda>(k, v). (k, canonicalize v)) (filter (\<lambda>(k, v). v \<noteq> JUndef) (sort_key member_order ls))"
    by (intro map_all2_eq) (auto elim: list_all2_mono)
  then show ?case using sort_key_mset [OF same_obj.hyps(1) d] by simp
qed simp

text \<open>Canonical values are fixed: a stored document encodes to itself.\<close>

lemma canonicalize_undef [simp]: "canonicalize v = JUndef \<longleftrightarrow> v = JUndef"
  by (cases v) auto

lemma canonicalize_idem [simp]: "canonicalize (canonicalize v) = canonicalize v"
proof (induction v rule: canonicalize.induct)
  case (2 kvs)
  let ?c = "map (\<lambda>(k, v). (k, canonicalize v)) (filter (\<lambda>(k, v). v \<noteq> JUndef) (sort_key member_order kvs))"
  have "map member_order ?c = map member_order (filter (\<lambda>(k, v). v \<noteq> JUndef) (sort_key member_order kvs))"
    by (auto simp: member_order_def)
  moreover have "sorted (map member_order (filter (\<lambda>(k, v). v \<noteq> JUndef) (sort_key member_order kvs)))"
    by (rule sorted_filter) simp
  ultimately have "sorted (map member_order ?c)" by (simp only:)
  then have "sort_key member_order ?c = ?c" by (rule sort_key_id_if_sorted)
  moreover have "filter (\<lambda>(k, v). v \<noteq> JUndef) ?c = ?c" by (auto simp: filter_id_conv)
  moreover have "map (\<lambda>(k, v). (k, canonicalize v)) ?c = ?c" using 2 by (auto simp: filter_id_conv)
  ultimately show ?case by simp
qed (auto simp: comp_def)

end
