(* ===== verification/Sql_Store.thy ===== *)
theory Sql_Store
  imports Json
begin

text \<open>
  What the persistence modules share: SQL tables as lists of rows, and the argument checks that
  most modules repeat. A statement that violates a table constraint aborts with
  \<open>SqlConstraint\<close>; a throwing transaction is rolled back, so an error carries no new store. A
  table's constraints (\<open>CHECK\<close>, primary key, unique indexes) are one predicate on its rows.
\<close>

section \<open>Statements\<close>

definition sql_insert :: "('r list \<Rightarrow> bool) \<Rightarrow> 'r \<Rightarrow> 'r list \<Rightarrow> 'c err + 'r list" where
  "sql_insert ok row rows = (if ok (rows @ [row]) then Inr (rows @ [row]) else Inl SqlConstraint)"

text \<open>The rows that satisfy the \<open>WHERE\<close> clause, rewritten in place.\<close>

definition rewritten :: "('r \<Rightarrow> bool) \<Rightarrow> ('r \<Rightarrow> 'r) \<Rightarrow> 'r list \<Rightarrow> 'r list" where
  "rewritten P f rows = map (\<lambda>r. if P r then f r else r) rows"

text \<open>An update returns the table and \<open>changes\<close>, the number of rows it matched.\<close>

definition sql_update :: "('r list \<Rightarrow> bool) \<Rightarrow> ('r \<Rightarrow> bool) \<Rightarrow> ('r \<Rightarrow> 'r) \<Rightarrow> 'r list \<Rightarrow> 'c err + ('r list \<times> nat)" where
  "sql_update ok P f rows =
     (let rows' = rewritten P f rows
      in if ok rows' then Inr (rows', length (filter P rows)) else Inl SqlConstraint)"

definition sql_delete :: "('r \<Rightarrow> bool) \<Rightarrow> 'r list \<Rightarrow> 'r list \<times> nat" where
  "sql_delete P rows = (filter (\<lambda>r. \<not> P r) rows, length (filter P rows))"

text \<open>A unique index over the rows that satisfy its \<open>WHERE\<close> clause.\<close>

definition unique_on :: "('r \<Rightarrow> bool) \<Rightarrow> ('r \<Rightarrow> 'k) \<Rightarrow> 'r list \<Rightarrow> bool" where
  "unique_on P key rows \<longleftrightarrow> distinct (map key (filter P rows))"

lemma unique_on_eq: "unique_on P key rows \<Longrightarrow> r \<in> set rows \<Longrightarrow> s \<in> set rows \<Longrightarrow> P r \<Longrightarrow> P s \<Longrightarrow> key r = key s \<Longrightarrow> r = s"
  by (auto simp: unique_on_def distinct_map inj_on_def)

lemma unique_on_Nil [simp]: "unique_on P key []"
  by (simp add: unique_on_def)

lemma unique_on_insert:
  "unique_on P key (rows @ [row]) \<longleftrightarrow> unique_on P key rows \<and> (P row \<longrightarrow> (\<forall>r \<in> set rows. P r \<longrightarrow> key r \<noteq> key row))"
  by (cases "P row") (simp_all add: unique_on_def image_iff, metis)

lemma unique_on_update:
  assumes "unique_on P key rows" and "\<And>r. r \<in> set rows \<Longrightarrow> Q r \<Longrightarrow> key (f r) = key r"
    and "\<And>r. r \<in> set rows \<Longrightarrow> Q r \<Longrightarrow> P (f r) \<Longrightarrow> P r"
  shows "unique_on P key (rewritten Q f rows)"
  using assms unfolding rewritten_def
proof (induction rows)
  case (Cons a rows)
  let ?g = "\<lambda>r. if Q r then f r else r"
  have IH: "unique_on P key (map ?g rows)" using Cons by (auto simp: unique_on_def split: if_splits)
  have same: "key (?g r) = key r" "P (?g r) \<Longrightarrow> P r" if "r \<in> set (a # rows)" for r
    using Cons.prems(2,3) [of r] that by (cases "Q r"; auto)+
  have "key (?g a) \<notin> key ` set (filter P (map ?g rows))" if "P (?g a)"
  proof
    assume "key (?g a) \<in> key ` set (filter P (map ?g rows))"
    then obtain r where r: "r \<in> set rows" "P (?g r)" "key (?g a) = key (?g r)" by auto
    with same [of a] same [of r] that have "P a" "P r" "key a = key r" by auto
    with r(1) Cons.prems(1) show False by (auto simp: unique_on_def)
  qed
  with IH show ?case by (simp add: unique_on_def)
qed simp

lemma unique_on_filter: "unique_on P key rows \<Longrightarrow> unique_on P key (filter Q rows)"
  by (induction rows) (auto simp: unique_on_def)

lemma find_update:
  "(\<And>r. r \<in> set rows \<Longrightarrow> P r \<Longrightarrow> K (f r) = K r) \<Longrightarrow>
   find K (rewritten P f rows) = map_option (\<lambda>r. if P r then f r else r) (find K rows)"
  unfolding rewritten_def by (induction rows) auto

lemma find_append: "find P (xs @ ys) = (case find P xs of None \<Rightarrow> find P ys | Some x \<Rightarrow> Some x)"
  by (induction xs) auto

lemma find_filter: "find P (filter Q xs) = find (\<lambda>x. Q x \<and> P x) xs"
  by (induction xs) auto

lemma find_SomeD: "find P xs = Some x \<Longrightarrow> x \<in> set xs \<and> P x"
  by (auto simp: find_Some_iff)

lemma find_NoneD: "find P xs = None \<Longrightarrow> x \<in> set xs \<Longrightarrow> \<not> P x"
  by (auto simp: find_None_iff)

lemma sql_insert_Inr [bind_inv]: "sql_insert ok row rows = Inr rows' \<longleftrightarrow> rows' = rows @ [row] \<and> ok rows'"
  by (auto simp: sql_insert_def)

lemma sql_update_Inr [bind_inv]:
  "sql_update ok P f rows = Inr (rows', n) \<longleftrightarrow>
     rows' = rewritten P f rows \<and> ok rows' \<and> n = length (filter P rows)"
  by (auto simp: sql_update_def Let_def)

lemma filter_single: "distinct xs \<Longrightarrow> x \<in> set xs \<Longrightarrow> filter (\<lambda>y. y = x) xs = [x]"
  by (induction xs) (auto simp: filter_empty_conv)

text \<open>A lookup that a unique key makes unambiguous.\<close>

lemma filter_unique:
  assumes "unique_on (\<lambda>_. True) key rows" and "r \<in> set rows" and "Q r" and "\<And>s. Q s \<Longrightarrow> key s = key r"
  shows "filter Q rows = [r]"
proof -
  have "filter Q rows = filter (\<lambda>s. s = r) rows"
  proof (rule filter_cong)
    fix s assume s: "s \<in> set rows"
    show "Q s \<longleftrightarrow> s = r"
    proof
      assume "Q s"
      with assms(4) have "key s = key r" .
      with unique_on_eq [OF assms(1) s assms(2)] show "s = r" by simp
    qed (use assms(3) in simp)
  qed simp
  moreover have "distinct rows" using assms(1) by (simp add: unique_on_def distinct_map)
  ultimately show ?thesis using assms(2) by (simp add: filter_single)
qed

text \<open>A rewrite that only matches the row of one key.\<close>

lemma rewritten_single:
  assumes "unique_on (\<lambda>_. True) key (rewritten P f rows)" and "find K (rewritten P f rows) = Some a"
    and "\<And>r. K r \<Longrightarrow> key r = k" and "\<And>r. P r \<Longrightarrow> key (f r) = k" and "r \<in> set rows" and "P r"
  shows "f r = a"
proof (rule unique_on_eq [OF assms(1)])
  show "f r \<in> set (rewritten P f rows)" using assms(5,6) by (auto simp: rewritten_def intro: rev_image_eqI)
  show "a \<in> set (rewritten P f rows)" "key (f r) = key a"
    using find_SomeD [OF assms(2)] assms(3) [of a] assms(4) [OF assms(6)] by simp_all
qed simp_all

text \<open>An update that only matches rows with the key of one row rewrites that row.\<close>

lemma rewritten_unique:
  assumes "unique_on (\<lambda>_. True) key rows" and "r \<in> set rows" and "\<And>s. P s \<Longrightarrow> key s = key r" and "length (filter P rows) = 1"
  shows "P r \<and> rewritten P f rows = rewritten (\<lambda>s. s = r) (\<lambda>_. f r) rows"
proof -
  have uni: "s = r" if "s \<in> set rows" "P s" for s
    using unique_on_eq [OF assms(1) that(1) assms(2)] assms(3) [OF that(2)] by simp
  from assms(4) have "filter P rows \<noteq> []" by (intro notI) simp
  then obtain s where "s \<in> set rows" "P s" unfolding filter_empty_conv by blast
  with uni have Pr: "P r" by blast
  have "(if P s then f s else s) = (if s = r then f r else s)" if "s \<in> set rows" for s
    using uni [OF that] Pr by (cases "P s") auto
  with Pr show ?thesis by (simp add: rewritten_def)
qed

section \<open>The environment\<close>

text \<open>
  Functions of the platform that are parameters: number printing, SHA-256 in hexadecimal, and
  \<open>JSON.parse\<close> on a string.
\<close>

record js_env =
  env_num_str :: "jsnum \<Rightarrow> string"
  env_sha256 :: "string \<Rightarrow> string"
  env_json_parse :: "string \<Rightarrow> js option"

section \<open>Argument checks\<close>

definition assertBoundedString :: "js \<Rightarrow> string \<Rightarrow> nat \<Rightarrow> 'c err + string" where
  "assertBoundedString v what maximum =
     (case v of
        JStr s \<Rightarrow> (let normalized = js_trim s
                  in throwIf (normalized = [] \<or> maximum < length normalized) (Invalid what) (Inr normalized))
      | _ \<Rightarrow> Inl (Invalid what))"

definition assertContentString :: "js \<Rightarrow> string \<Rightarrow> nat \<Rightarrow> 'c err + string" where
  "assertContentString v what maximum =
     (case v of
        JStr s \<Rightarrow> throwIf (js_trim s = [] \<or> maximum < length s) (Invalid what) (Inr s)
      | _ \<Rightarrow> Inl (Invalid what))"

definition assertNonNegativeSafeInteger :: "js \<Rightarrow> string \<Rightarrow> 'c err + int" where
  "assertNonNegativeSafeInteger v what =
     (case v of
        JNum n \<Rightarrow> throwIf (\<not> is_safe_integer n \<or> num_int n < 0) (Invalid what) (Inr (num_int n))
      | _ \<Rightarrow> Inl (Invalid what))"

definition assertPositiveSafeInteger :: "js \<Rightarrow> string \<Rightarrow> 'c err + int" where
  "assertPositiveSafeInteger v what =
     bindE (assertNonNegativeSafeInteger v what) (\<lambda>i. throwIf (i < 1) (Invalid what) (Inr i))"

abbreviation js_int :: "int \<Rightarrow> js" where
  "js_int i \<equiv> JNum (num_of_int i)"

text \<open>An optional argument that is checked when it is given.\<close>

definition optE :: "('a \<Rightarrow> 'e + 'b) \<Rightarrow> 'a option \<Rightarrow> 'e + 'b option" where
  "optE f a = (case a of None \<Rightarrow> Inr None | Some x \<Rightarrow> bindE (f x) (\<lambda>b. Inr (Some b)))"

fun mapE :: "('a \<Rightarrow> 'e + 'b) \<Rightarrow> 'a list \<Rightarrow> 'e + 'b list" where
  "mapE f [] = Inr []"
| "mapE f (x # xs) = bindE (f x) (\<lambda>y. bindE (mapE f xs) (\<lambda>ys. Inr (y # ys)))"

definition assertOptionalExpectedVersion :: "jsnum option \<Rightarrow> 'c err + int option" where
  "assertOptionalExpectedVersion v = optE (\<lambda>n. assertPositiveSafeInteger (JNum n) ''expected_version'') v"

definition assertIncrementableVersion :: "int \<Rightarrow> string \<Rightarrow> 'c err + int" where
  "assertIncrementableVersion v what = assertPositiveSafeInteger (js_int (v + 1)) what"

text \<open>\<open>value ?? Date.now()\<close>: the clock is an argument of every operation that reads it.\<close>

definition assertNow :: "jsnum option \<Rightarrow> int \<Rightarrow> 'c err + int" where
  "assertNow v clock =
     assertNonNegativeSafeInteger (case v of None \<Rightarrow> js_int clock | Some n \<Rightarrow> JNum n) ''now''"

definition assertMutationTime :: "int \<Rightarrow> int \<Rightarrow> 'c err + unit" where
  "assertMutationTime now updatedAt = throwIf (now < updatedAt) (Invalid ''now'') (Inr ())"

definition checkedDeadline :: "int \<Rightarrow> int \<Rightarrow> string \<Rightarrow> 'c err + int" where
  "checkedDeadline now ttl what =
     throwIf (\<not> is_safe_integer (num_of_int (now + ttl))) (Invalid what) (Inr (now + ttl))"

lemma assertNonNegative_int:
  "assertNonNegativeSafeInteger (js_int i) what = (if 0 \<le> i \<and> i \<le> max_safe_integer then Inr i else Inl (Invalid what))"
  by (auto simp: assertNonNegativeSafeInteger_def throwIf_def max_safe_integer_def)

lemma assertPositive_int:
  "assertPositiveSafeInteger (js_int i) what = (if 1 \<le> i \<and> i \<le> max_safe_integer then Inr i else Inl (Invalid what))"
  by (auto simp: assertPositiveSafeInteger_def throwIf_def assertNonNegative_int)

lemma assertNonNegative_Inr [bind_inv]:
  "assertNonNegativeSafeInteger v what = Inr i \<longleftrightarrow> v = js_int i \<and> 0 \<le> i \<and> i \<le> max_safe_integer"
proof
  assume a: "assertNonNegativeSafeInteger v what = Inr i"
  then obtain n where "v = JNum n" "is_safe_integer n" "num_int n = i" "0 \<le> i"
    by (auto simp: assertNonNegativeSafeInteger_def throwIf_def split: js.splits if_splits)
  then show "v = js_int i \<and> 0 \<le> i \<and> i \<le> max_safe_integer"
    by (auto simp: is_safe_integer_def elim: num_is_integerE)
qed (auto simp: assertNonNegative_int)

lemma assertPositive_Inr [bind_inv]:
  "assertPositiveSafeInteger v what = Inr i \<longleftrightarrow> v = js_int i \<and> 1 \<le> i \<and> i \<le> max_safe_integer"
  by (auto simp: assertPositiveSafeInteger_def bind_inv)

text \<open>The successor of an integer, as the simplifier writes it.\<close>

lemma assertPositive_succ [bind_inv]:
  "assertPositiveSafeInteger (JNum (Fin (of_int i + 1))) what = Inr j \<longleftrightarrow> j = i + 1 \<and> 0 \<le> i \<and> i + 1 \<le> max_safe_integer"
  using assertPositive_int [of "i + 1" what] by (auto split: if_splits)

lemma js_trim_idem [simp]: "js_trim (js_trim s) = js_trim s"
proof -
  let ?d = "dropWhile js_space s"
  have "dropWhile js_space (rev (dropWhile js_space (rev ?d))) = rev (dropWhile js_space (rev ?d))"
  proof (cases "dropWhile js_space (rev ?d)")
    case (Cons c cs)
    have "hd (rev (c # cs)) = hd ?d"
    proof -
      obtain us where "rev ?d = us @ c # cs" by (metis Cons takeWhile_dropWhile_id)
      then have "?d = rev (c # cs) @ rev us" by (metis rev_append rev_rev_ident)
      then show ?thesis by (metis hd_append2 list.distinct(1) rev_is_Nil_conv)
    qed
    moreover have "?d \<noteq> []" using Cons by (metis dropWhile.simps(1) list.distinct(1) rev.simps(1))
    then have "\<not> js_space (hd ?d)" by (rule hd_dropWhile)
    ultimately show ?thesis using Cons by (cases "rev (c # cs)") auto
  qed (simp only: rev.simps dropWhile.simps)
  then show ?thesis by (simp add: js_trim_def dropWhile_idem)
qed

lemma assertBounded_Inr [bind_inv]:
  "assertBoundedString (JStr s) what m = Inr t \<longleftrightarrow> t = js_trim s \<and> t \<noteq> [] \<and> length t \<le> m"
  by (auto simp: assertBoundedString_def throwIf_def Let_def)

definition bounded_id :: "nat \<Rightarrow> string \<Rightarrow> bool" where
  "bounded_id m s \<longleftrightarrow> js_trim s = s \<and> s \<noteq> [] \<and> length s \<le> m"

lemma assertBounded_bounded: "assertBoundedString v what m = Inr t \<Longrightarrow> bounded_id m t"
  by (cases v) (auto simp: assertBoundedString_def throwIf_def Let_def bounded_id_def split: if_splits)

lemma assertBounded_id [simp]: "bounded_id m s \<Longrightarrow> assertBoundedString (JStr s) what m = Inr s"
  by (simp add: bounded_id_def assertBoundedString_def throwIf_def Let_def)

lemma optE_Inr [bind_inv]: "optE f a = Inr b \<longleftrightarrow> (a = None \<and> b = None) \<or> (\<exists>x y. a = Some x \<and> f x = Inr y \<and> b = Some y)"
  by (auto simp: optE_def bind_inv split: option.splits)

lemma mapE_Inr: "mapE f xs = Inr ys \<longleftrightarrow> list_all2 (\<lambda>x y. f x = Inr y) xs ys"
  by (induction xs arbitrary: ys) (auto simp: bind_inv list_all2_Cons1)

lemma mapE_mem: "mapE f xs = Inr ys \<Longrightarrow> x \<in> set xs \<Longrightarrow> \<exists>y \<in> set ys. f x = Inr y"
  by (induction xs arbitrary: ys) (auto simp: bind_inv)

lemma mapE_all: "(\<And>x. x \<in> set xs \<Longrightarrow> f x = Inr (g x)) \<Longrightarrow> mapE f xs = Inr (map g xs)"
  by (induction xs) auto

end
