(* ===== verification/Telemetry_Redaction.thy ===== *)
theory Telemetry_Redaction
  imports Sql_Store
begin

text \<open>
  \<open>atms_protocol/src/telemetry-redaction.ts\<close>: the redaction every stored document passes. A
  regular expression is a matcher that lists its matches at the start of a string in the order
  in which backtracking finds them, so its first element is the match JavaScript takes. Each of
  the six patterns keeps a part before and a part after what it hides.
\<close>

section \<open>Regular expressions\<close>

type_synonym matcher = "string \<Rightarrow> (string \<times> string) list"

definition re_eps :: matcher where
  "re_eps s = [([], s)]"

fun re_char :: "(char \<Rightarrow> bool) \<Rightarrow> matcher" where
  "re_char P [] = []"
| "re_char P (c # cs) = (if P c then [([c], cs)] else [])"

text \<open>A greedy star of a character class: the longest run first.\<close>

fun re_star :: "(char \<Rightarrow> bool) \<Rightarrow> matcher" where
  "re_star P [] = [([], [])]"
| "re_star P (c # cs) = (if P c then map (\<lambda>(m, r). (c # m, r)) (re_star P cs) else []) @ [([], c # cs)]"

definition re_seq :: "matcher \<Rightarrow> matcher \<Rightarrow> matcher" where
  "re_seq a b s = concat (map (\<lambda>(m, r). map (\<lambda>(m', r'). (m @ m', r')) (b r)) (a s))"

definition re_alt :: "matcher \<Rightarrow> matcher \<Rightarrow> matcher" where
  "re_alt a b s = a s @ b s"

definition re_opt :: "matcher \<Rightarrow> matcher" where
  "re_opt a s = a s @ [([], s)]"

definition re_plus :: "(char \<Rightarrow> bool) \<Rightarrow> matcher" where
  "re_plus P = re_seq (re_char P) (re_star P)"

definition re_at_least :: "nat \<Rightarrow> (char \<Rightarrow> bool) \<Rightarrow> matcher" where
  "re_at_least n P s = filter (\<lambda>(m, r). n \<le> length m) (re_star P s)"

definition code :: "char \<Rightarrow> nat" where
  "code c = of_char c"

definition to_lower_ascii :: "char \<Rightarrow> char" where
  "to_lower_ascii c = (if 65 \<le> code c \<and> code c \<le> 90 then char_of (code c + 32) else c)"

definition letter :: "char \<Rightarrow> bool" where
  "letter c \<longleftrightarrow> (65 \<le> code c \<and> code c \<le> 90) \<or> (97 \<le> code c \<and> code c \<le> 122)"

definition digit :: "char \<Rightarrow> bool" where
  "digit c \<longleftrightarrow> 48 \<le> code c \<and> code c \<le> 57"

definition word_char :: "char \<Rightarrow> bool" where
  "word_char c \<longleftrightarrow> letter c \<or> digit c \<or> c = CHR ''_''"

text \<open>A literal under the flag \<open>i\<close>, and without it.\<close>

fun re_lit_i :: "string \<Rightarrow> matcher" where
  "re_lit_i [] = re_eps"
| "re_lit_i (c # cs) = re_seq (re_char (\<lambda>x. to_lower_ascii x = to_lower_ascii c)) (re_lit_i cs)"

fun re_lit :: "string \<Rightarrow> matcher" where
  "re_lit [] = re_eps"
| "re_lit (c # cs) = re_seq (re_char (\<lambda>x. x = c)) (re_lit cs)"

fun re_any :: "matcher list \<Rightarrow> matcher" where
  "re_any [] = (\<lambda>s. [])"
| "re_any (m # ms) = re_alt m (re_any ms)"

section \<open>The patterns\<close>

definition REDACTED :: string where
  "REDACTED = ''***REDACTED***''"

text \<open>A pattern: what \<open>$1\<close> keeps, what is hidden, what the last group keeps.\<close>

record pattern =
  starts_word :: bool
  keep_before :: matcher
  hidden :: matcher
  keep_after :: matcher
  ends_word :: bool

definition quote :: char where
  "quote = CHR 0x22"

definition apos :: char where
  "apos = CHR 0x27"

definition api_key :: matcher where
  "api_key = re_seq (re_lit_i ''api'') (re_seq (re_opt (re_char (\<lambda>c. c = CHR ''_'' \<or> c = CHR ''-''))) (re_lit_i ''key''))"

definition json_field_pattern :: pattern where
  "json_field_pattern = \<lparr>starts_word = False,
     keep_before = re_seq (re_char (\<lambda>c. c = quote)) (re_seq (re_star (\<lambda>c. c \<noteq> quote))
       (re_seq (re_any [api_key, re_lit_i ''token'', re_lit_i ''secret'', re_lit_i ''password'', re_lit_i ''credential'',
                        re_lit_i ''authorization'', re_lit_i ''auth''])
       (re_seq (re_char (\<lambda>c. c = quote)) (re_seq (re_star js_space) (re_seq (re_lit '':'')
         (re_seq (re_star js_space) (re_char (\<lambda>c. c = quote)))))))),
     hidden = re_plus (\<lambda>c. c \<noteq> quote),
     keep_after = re_char (\<lambda>c. c = quote), ends_word = False\<rparr>"

definition assignment_pattern :: pattern where
  "assignment_pattern = \<lparr>starts_word = False,
     keep_before = re_seq (re_any [api_key, re_lit_i ''token'', re_lit_i ''secret'', re_lit_i ''password'']) (re_lit ''=''),
     hidden = re_plus (\<lambda>c. c \<noteq> CHR ''&'' \<and> \<not> js_space c \<and> c \<noteq> apos \<and> c \<noteq> quote),
     keep_after = re_eps, ends_word = False\<rparr>"

definition authorization_pattern :: pattern where
  "authorization_pattern = \<lparr>starts_word = False,
     keep_before = re_seq (re_lit_i ''Authorization:'') (re_seq (re_star js_space)
       (re_seq (re_any [re_lit_i ''Bearer'', re_lit_i ''token'']) (re_plus js_space))),
     hidden = re_plus (\<lambda>c. \<not> js_space c \<and> c \<noteq> apos \<and> c \<noteq> quote),
     keep_after = re_eps, ends_word = False\<rparr>"

definition bearer_pattern :: pattern where
  "bearer_pattern = \<lparr>starts_word = False,
     keep_before = re_seq (re_lit_i ''Bearer'') (re_plus js_space),
     hidden = re_at_least 8 (\<lambda>c. letter c \<or> digit c \<or> c \<in> set ''._~+/-''),
     keep_after = re_eps, ends_word = False\<rparr>"

definition url_pattern :: pattern where
  "url_pattern = \<lparr>starts_word = False,
     keep_before = re_seq (re_char letter) (re_seq (re_star (\<lambda>c. letter c \<or> digit c \<or> c \<in> set ''+.-''))
       (re_seq (re_lit ''://'') (re_seq (re_plus (\<lambda>c. c \<noteq> CHR '':'' \<and> \<not> js_space c \<and> c \<noteq> CHR ''/'' \<and> c \<noteq> CHR ''@''))
         (re_lit '':'')))),
     hidden = re_plus (\<lambda>c. c \<noteq> CHR ''@'' \<and> \<not> js_space c \<and> c \<noteq> CHR ''/''),
     keep_after = re_lit ''@'', ends_word = False\<rparr>"

definition sk_pattern :: pattern where
  "sk_pattern = \<lparr>starts_word = True, keep_before = re_eps,
     hidden = re_seq (re_lit ''sk-'') (re_at_least 12 (\<lambda>c. letter c \<or> digit c \<or> c = CHR ''_'' \<or> c = CHR ''-'')),
     keep_after = re_eps, ends_word = True\<rparr>"

definition SECRET_TEXT_PATTERNS :: "pattern list" where
  "SECRET_TEXT_PATTERNS = [json_field_pattern, assignment_pattern, authorization_pattern, bearer_pattern, url_pattern, sk_pattern]"

definition word_at :: "char option \<Rightarrow> bool" where
  "word_at c = (case c of None \<Rightarrow> False | Some x \<Rightarrow> word_char x)"

definition hd_opt :: "string \<Rightarrow> char option" where
  "hd_opt s = (case s of [] \<Rightarrow> None | c # cs \<Rightarrow> Some c)"

text \<open>
  The first match at a position: what is kept before, what is hidden, what is kept after, the
  rest. \<open>\b\<close> holds where exactly one of the two neighbours is a word character.
\<close>

definition pattern_matches :: "pattern \<Rightarrow> char option \<Rightarrow> string \<Rightarrow> (string \<times> string \<times> string \<times> string) list" where
  "pattern_matches p prev s =
     (if starts_word p \<and> word_at prev = word_at (hd_opt s) then []
      else concat (map (\<lambda>(a, r1). concat (map (\<lambda>(b, r2). concat (map (\<lambda>(c, r3).
             let final = (if a @ b @ c = [] then prev else Some (last (a @ b @ c)))
             in if ends_word p \<and> word_at final = word_at (hd_opt r3) then [] else [(a, b, c, r3)])
             (keep_after p r2))) (hidden p r1))) (keep_before p s)))"

text \<open>
  \<open>replace\<close> with the flag \<open>g\<close>: the first match at each position, and after a match the scan goes
  on behind it. Every pattern consumes something; the fuel is the length of the text.
\<close>

fun replace_all :: "nat \<Rightarrow> pattern \<Rightarrow> char option \<Rightarrow> string \<Rightarrow> string" where
  "replace_all 0 p prev s = s"
| "replace_all (Suc n) p prev s =
     (case pattern_matches p prev s of
        (a, b, c, r) # _ \<Rightarrow> a @ REDACTED @ c @ replace_all n p (Some (last (a @ b @ c))) r
      | [] \<Rightarrow> (case s of [] \<Rightarrow> [] | x # xs \<Rightarrow> x # replace_all n p (Some x) xs))"

definition redactText :: "string \<Rightarrow> string" where
  "redactText s =
     (let redacted = fold (\<lambda>p t. replace_all (Suc (length t)) p None t) SECRET_TEXT_PATTERNS s
      in if 4000 < length redacted then take 4000 redacted @ ''...'' else redacted)"

section \<open>Values\<close>

definition ends_with :: "string \<Rightarrow> string \<Rightarrow> bool" where
  "ends_with s t \<longleftrightarrow> length t \<le> length s \<and> drop (length s - length t) s = t"

definition isSecretKey :: "string \<Rightarrow> bool" where
  "isSecretKey key =
     (let normalized = map to_lower_ascii (filter (\<lambda>c. letter c \<or> digit c) key)
      in normalized = ''apikey'' \<or> ends_with normalized ''apikey'' \<or> ends_with normalized ''token''
         \<or> normalized = ''secret'' \<or> ends_with normalized ''clientsecret'' \<or> normalized = ''password''
         \<or> normalized = ''credential'' \<or> normalized = ''authorization'' \<or> normalized = ''auth'')"

lemma size_in_array: "v \<in> set (take n vs) \<Longrightarrow> size v < Suc (size_list size vs)"
  by (meson in_set_takeD less_Suc_eq_le size_list_estimation' order_refl)

lemma size_in_object: "(k, v) \<in> set (take n kvs) \<Longrightarrow> size v < Suc (size_list (size_prod (\<lambda>_. 0) size) kvs)"
proof -
  assume "(k, v) \<in> set (take n kvs)"
  then have "(k, v) \<in> set kvs" by (rule in_set_takeD)
  then have "size_prod (\<lambda>_. 0) size (k, v) \<le> size_list (size_prod (\<lambda>_. 0) size) kvs"
    by (rule size_list_estimation') simp
  then show ?thesis by simp
qed

function redactTelemetry :: "nat \<Rightarrow> js \<Rightarrow> js" where
  "redactTelemetry depth v =
     (if 8 < depth then JStr ''[truncated]''
      else case v of
             JStr s \<Rightarrow> JStr (redactText s)
           | JArr vs \<Rightarrow> JArr (map (redactTelemetry (Suc depth)) (take 100 vs))
           | JObj kvs \<Rightarrow> JObj (map (\<lambda>(k, w). (k, if isSecretKey k then JStr REDACTED else redactTelemetry (Suc depth) w))
                              (take 100 kvs))
           | _ \<Rightarrow> v)"
  by pat_completeness auto
termination redactTelemetry
  by (relation "measure (\<lambda>(depth, v). size v)") (auto dest: size_in_array size_in_object)

declare redactTelemetry.simps [simp del]

lemma redactTelemetry_shape:
  "redactTelemetry d (JStr s) = (if 8 < d then JStr ''[truncated]'' else JStr (redactText s))"
  "redactTelemetry d (JNum n) = (if 8 < d then JStr ''[truncated]'' else JNum n)"
  "redactTelemetry d (JArr vs) = (if 8 < d then JStr ''[truncated]'' else JArr (map (redactTelemetry (Suc d)) (take 100 vs)))"
  "redactTelemetry d (JObj kvs) = (if 8 < d then JStr ''[truncated]''
     else JObj (map (\<lambda>(k, w). (k, if isSecretKey k then JStr REDACTED else redactTelemetry (Suc d) w)) (take 100 kvs)))"
  by (simp_all add: redactTelemetry.simps)

section \<open>The properties\<close>

text \<open>What a document looks like after redaction, for at most \<open>n\<close> levels of nesting.\<close>

fun redacted_within :: "nat \<Rightarrow> js \<Rightarrow> bool" where
  "redacted_within n (JStr s) = (length s \<le> 4003)"
| "redacted_within (Suc n) (JArr vs) = (length vs \<le> 100 \<and> list_all (redacted_within n) vs)"
| "redacted_within (Suc n) (JObj kvs) =
     (length kvs \<le> 100 \<and> list_all (\<lambda>(k, v). (isSecretKey k \<longrightarrow> v = JStr REDACTED) \<and> redacted_within n v) kvs)"
| "redacted_within 0 (JArr vs) = False"
| "redacted_within 0 (JObj kvs) = False"
| "redacted_within n v = True"

lemma redactText_length: "length (redactText s) \<le> 4003"
  by (simp add: redactText_def Let_def)

lemma length_REDACTED [simp]: "length REDACTED = 14"
  by (simp add: REDACTED_def)

lemma redacted_REDACTED [simp]: "redacted_within n (JStr REDACTED)"
  by simp

lemma redactTelemetry_within: "depth \<le> 9 \<Longrightarrow> redacted_within (9 - depth) (redactTelemetry depth v)"
proof (induction depth v rule: redactTelemetry.induct)
  case (1 depth v)
  show ?case
  proof (cases "8 < depth")
    case True
    then show ?thesis by (simp add: redactTelemetry.simps)
  next
    case False
    then have d: "9 - depth = Suc (9 - Suc depth)" "Suc depth \<le> 9" by simp_all
    show ?thesis
    proof (cases v)
      case (JArr vs)
      with 1(1) False d show ?thesis
        by (auto simp: redactTelemetry.simps [of depth] list_all_iff)
    next
      case (JObj kvs)
      with 1(2) False d show ?thesis
        by (auto simp: redactTelemetry.simps [of depth] list_all_iff)
    qed (use False d in \<open>simp_all add: redactTelemetry.simps [of depth] redactText_length\<close>)
  qed
qed

text \<open>C12. Whatever value is redacted, the result hides every field whose key names a secret at
  every depth, holds no text above 4003 characters and no container above 100 members, and nests
  at most nine levels.\<close>

theorem redaction_hides_secrets: "redacted_within 9 (redactTelemetry 0 v)"
  using redactTelemetry_within [of 0 v] by simp

end
