(* ===== verification/Machines.thy ===== *)
theory Machines
  imports Prelude
begin

text \<open>
  The contracts several components share, as locales. A component is a set of initial states,
  a step relation and an invariant (\<open>transition_system\<close>); a table of rows with a status whose
  final values are never left (\<open>absorbing_system\<close>); and a table of rows guarded by a version
  that every write advances (\<open>versioned_store\<close>). What follows from a contract is proved once
  here and used by every component through its interpretation.
\<close>

inductive reach :: "('s \<Rightarrow> bool) \<Rightarrow> ('s \<Rightarrow> 's \<Rightarrow> bool) \<Rightarrow> 's \<Rightarrow> bool" for init step where
  reach_init: "init s \<Longrightarrow> reach init step s"
| reach_step: "reach init step s \<Longrightarrow> step s t \<Longrightarrow> reach init step t"

locale transition_system =
  fixes init :: "'s \<Rightarrow> bool"
    and step :: "'s \<Rightarrow> 's \<Rightarrow> bool"
    and inv :: "'s \<Rightarrow> bool"
  assumes inv_init: "init s \<Longrightarrow> inv s"
    and inv_step: "step s t \<Longrightarrow> inv s \<Longrightarrow> inv t"
begin

lemma reach_inv: "reach init step s \<Longrightarrow> inv s"
  by (induction rule: reach.induct) (auto intro: inv_init inv_step)

lemma steps_inv: "step\<^sup>*\<^sup>* s t \<Longrightarrow> inv s \<Longrightarrow> inv t"
  by (induction rule: rtranclp_induct) (auto intro: inv_step)

end

text \<open>
  A table of rows that are never removed and that only change along a preorder. The two contracts
  after it are instances: the order of a status and of a version.
\<close>

locale row_system = transition_system init step inv
  for init :: "'s \<Rightarrow> bool" and step :: "'s \<Rightarrow> 's \<Rightarrow> bool" and inv :: "'s \<Rightarrow> bool" +
  fixes row :: "'s \<Rightarrow> 'k \<Rightarrow> 'r option"
    and evolves :: "'r \<Rightarrow> 'r \<Rightarrow> bool"
  assumes evolves_refl: "evolves r r"
    and evolves_trans: "evolves r r' \<Longrightarrow> evolves r' r'' \<Longrightarrow> evolves r r''"
    and row_step: "step s t \<Longrightarrow> inv s \<Longrightarrow> row s k = Some r \<Longrightarrow> \<exists>r'. row t k = Some r' \<and> evolves r r'"
begin

lemma row_steps: "step\<^sup>*\<^sup>* s t \<Longrightarrow> inv s \<Longrightarrow> row s k = Some r \<Longrightarrow> \<exists>r'. row t k = Some r' \<and> evolves r r'"
proof (induction rule: rtranclp_induct)
  case base
  then show ?case by (blast intro: evolves_refl)
next
  case (step t u)
  then obtain r' where r': "row t k = Some r'" "evolves r r'" by blast
  from step.prems(1) step.hyps(1) have "inv t" by (blast intro: steps_inv)
  with step.hyps(2) r' obtain r'' where "row u k = Some r''" "evolves r' r''" by (blast dest: row_step)
  with r' show ?case by (blast intro: evolves_trans)
qed

end

locale absorbing_system = transition_system init step inv
  for init :: "'s \<Rightarrow> bool" and step :: "'s \<Rightarrow> 's \<Rightarrow> bool" and inv :: "'s \<Rightarrow> bool" +
  fixes status :: "'s \<Rightarrow> 'k \<Rightarrow> 'st option"
    and final :: "'st \<Rightarrow> bool"
    and rank :: "'st \<Rightarrow> nat"
  assumes status_step: "step s t \<Longrightarrow> inv s \<Longrightarrow> status s k = Some x \<Longrightarrow> \<exists>y. status t k = Some y \<and> rank x \<le> rank y"
    and final_step: "step s t \<Longrightarrow> inv s \<Longrightarrow> status s k = Some x \<Longrightarrow> final x \<Longrightarrow> status t k = Some x"

sublocale absorbing_system \<subseteq> statuses: row_system init step inv status "\<lambda>x y. rank x \<le> rank y \<and> (final x \<longrightarrow> y = x)"
proof unfold_locales
  fix s t k x
  assume a: "step s t" "inv s" "status s k = Some x"
  from status_step [OF this] obtain y where y: "status t k = Some y" "rank x \<le> rank y" by blast
  moreover have "final x \<longrightarrow> y = x" using final_step [OF a] y(1) by auto
  ultimately show "\<exists>y. status t k = Some y \<and> rank x \<le> rank y \<and> (final x \<longrightarrow> y = x)" by blast
qed auto

context absorbing_system begin

lemma final_steps: "step\<^sup>*\<^sup>* s t \<Longrightarrow> inv s \<Longrightarrow> status s k = Some x \<Longrightarrow> final x \<Longrightarrow> status t k = Some x"
  by (drule (2) statuses.row_steps) auto

lemma rank_steps: "step\<^sup>*\<^sup>* s t \<Longrightarrow> inv s \<Longrightarrow> status s k = Some x \<Longrightarrow> \<exists>y. status t k = Some y \<and> rank x \<le> rank y"
  by (drule (2) statuses.row_steps) auto

end

locale versioned_store = transition_system init step inv
  for init :: "'s \<Rightarrow> bool" and step :: "'s \<Rightarrow> 's \<Rightarrow> bool" and inv :: "'s \<Rightarrow> bool" +
  fixes row :: "'s \<Rightarrow> 'k \<Rightarrow> 'r option"
    and version :: "'r \<Rightarrow> int"
  assumes version_step: "step s t \<Longrightarrow> inv s \<Longrightarrow> row s k = Some r \<Longrightarrow>
      \<exists>r'. row t k = Some r' \<and> (r' = r \<or> version r < version r')"

sublocale versioned_store \<subseteq> versions: row_system init step inv row "\<lambda>r r'. r' = r \<or> version r < version r'"
  by unfold_locales (use version_step in auto)

context versioned_store begin

text \<open>Same version, same row: no write in between went unnoticed.\<close>

lemma same_version_same_row:
  assumes "step\<^sup>*\<^sup>* s t" and "inv s" and "row s k = Some r" and "row t k = Some r'" and "version r' = version r"
  shows "r' = r"
  using versions.row_steps [OF assms(1-3)] assms(4,5) by auto

end

text \<open>
  A store that is a family of independent machines: every step is a step of the abstract machine
  of one key and leaves the abstract state of every other key as it is.
\<close>

locale refinement = transition_system init step inv
  for init :: "'s \<Rightarrow> bool" and step :: "'s \<Rightarrow> 's \<Rightarrow> bool" and inv :: "'s \<Rightarrow> bool" +
  fixes phase :: "'s \<Rightarrow> 'k \<Rightarrow> 'a"
    and spec :: "'a \<Rightarrow> 'a \<Rightarrow> bool"
  assumes refines: "step s t \<Longrightarrow> inv s \<Longrightarrow> \<exists>k. spec (phase s k) (phase t k) \<and> (\<forall>j. j \<noteq> k \<longrightarrow> phase t j = phase s j)"
begin

lemma phase_step: "step s t \<Longrightarrow> inv s \<Longrightarrow> phase t k = phase s k \<or> spec (phase s k) (phase t k)"
  using refines [of s t] by metis

lemma phase_steps: "step\<^sup>*\<^sup>* s t \<Longrightarrow> inv s \<Longrightarrow> spec\<^sup>*\<^sup>* (phase s k) (phase t k)"
proof (induction rule: rtranclp_induct)
  case (step t u)
  from step.prems step.hyps(1) have "inv t" by (blast intro: steps_inv)
  with step.hyps(2) have "phase u k = phase t k \<or> spec (phase t k) (phase u k)" by (rule phase_step)
  with step.IH step.prems show ?case by auto
qed simp

end

end
