(* ===== verification/Dag_Actors.thy ===== *)
theory Dag_Actors
  imports Telemetry_Redaction Machines "HOL-Library.Product_Lexorder"
begin

text \<open>
  \<open>persistence/dag-actors.ts\<close>: the durable identity of an actor and the commands sent to it. A
  database is a record with one list of rows per table; \<open>lease_db\<close> and others extend it. The
  constraints are those of the migrations 20 and 23 in \<open>persistence/db.ts\<close>. A record read from a
  row is the row itself, once its JSON columns have parsed.
\<close>

datatype actor_conflict =
    Actor_identity_conflict
  | Actor_version_conflict
  | Actor_generation_conflict
  | Command_identity_conflict
  | Command_generation_conflict
  | Command_status_conflict

datatype command_status = Pending | Delivered | Claimed | Acknowledged | Failed | Cancelled

record actor_row =
  ac_run_id :: string
  ac_actor_id :: string
  ac_node_id :: string
  ac_role :: string
  ac_generation :: int
  ac_attempt :: int
  ac_version :: int
  ac_session_id :: "string option"
  ac_model_profile_json :: string
  ac_surface_id :: string
  ac_workspace_ref :: "string option"
  ac_checkpoint_ref :: "string option"
  ac_created_at :: int
  ac_updated_at :: int

record command_row =
  cm_command_id :: string
  cm_run_id :: string
  cm_actor_id :: string
  cm_round_id :: string
  cm_target_generation :: int
  cm_status :: command_status
  cm_idempotency_key :: string
  cm_payload_digest :: string
  cm_payload_json :: string
  cm_claimed_generation :: "int option"
  cm_created_at :: int
  cm_delivered_at :: "int option"
  cm_claimed_at :: "int option"
  cm_completed_at :: "int option"
  cm_failure_json :: "string option"

text \<open>\<open>db_runs\<close> holds the ids and statuses of the table \<open>dag_runs\<close>, which other modules write.\<close>

record actor_db =
  db_runs :: "(string \<times> string) list"
  db_actors :: "actor_row list"
  db_commands :: "command_row list"

section \<open>Constraints\<close>

definition actor_key :: "actor_row \<Rightarrow> string \<times> string" where
  "actor_key r = (ac_run_id r, ac_actor_id r)"

definition actor_check :: "actor_row \<Rightarrow> bool" where
  "actor_check r \<longleftrightarrow> 1 \<le> ac_generation r \<and> 1 \<le> ac_attempt r \<and> 1 \<le> ac_version r
     \<and> 0 \<le> ac_created_at r \<and> 0 \<le> ac_updated_at r"

definition actors_ok :: "actor_row list \<Rightarrow> bool" where
  "actors_ok rows \<longleftrightarrow> list_all actor_check rows
     \<and> unique_on (\<lambda>_. True) actor_key rows
     \<and> unique_on (\<lambda>_. True) (\<lambda>r. (ac_run_id r, ac_node_id r)) rows
     \<and> unique_on (\<lambda>_. True) (\<lambda>r. (ac_run_id r, ac_surface_id r)) rows"

definition opt_ge :: "int option \<Rightarrow> int \<Rightarrow> bool" where
  "opt_ge v low \<longleftrightarrow> (case v of None \<Rightarrow> True | Some i \<Rightarrow> low \<le> i)"

definition command_check :: "command_row \<Rightarrow> bool" where
  "command_check r \<longleftrightarrow>
     1 \<le> cm_target_generation r \<and> length (cm_payload_digest r) = 64
     \<and> opt_ge (cm_claimed_generation r) 1 \<and> 0 \<le> cm_created_at r
     \<and> opt_ge (cm_delivered_at r) (cm_created_at r) \<and> opt_ge (cm_claimed_at r) (cm_created_at r)
     \<and> opt_ge (cm_completed_at r) (cm_created_at r)
     \<and> (case cm_status r of
          Pending \<Rightarrow> cm_delivered_at r = None \<and> cm_claimed_generation r = None \<and> cm_claimed_at r = None
                     \<and> cm_completed_at r = None \<and> cm_failure_json r = None
        | Delivered \<Rightarrow> cm_delivered_at r \<noteq> None \<and> cm_claimed_generation r = None \<and> cm_claimed_at r = None
                     \<and> cm_completed_at r = None \<and> cm_failure_json r = None
        | Claimed \<Rightarrow> cm_claimed_generation r \<noteq> None \<and> cm_claimed_at r \<noteq> None
                     \<and> cm_completed_at r = None \<and> cm_failure_json r = None
        | Acknowledged \<Rightarrow> cm_claimed_generation r \<noteq> None \<and> cm_claimed_at r \<noteq> None
                     \<and> cm_completed_at r \<noteq> None \<and> cm_failure_json r = None
        | Failed \<Rightarrow> cm_claimed_generation r \<noteq> None \<and> cm_claimed_at r \<noteq> None
                     \<and> cm_completed_at r \<noteq> None \<and> cm_failure_json r \<noteq> None
        | Cancelled \<Rightarrow> cm_claimed_generation r = None \<and> cm_claimed_at r = None
                     \<and> cm_completed_at r \<noteq> None \<and> cm_failure_json r \<noteq> None)"

definition commands_ok :: "command_row list \<Rightarrow> bool" where
  "commands_ok rows \<longleftrightarrow> list_all command_check rows
     \<and> unique_on (\<lambda>_. True) cm_command_id rows
     \<and> unique_on (\<lambda>_. True) (\<lambda>r. (cm_run_id r, cm_actor_id r, cm_idempotency_key r)) rows"

section \<open>Arguments and documents\<close>

text \<open>An argument of type \<open>string | null | undefined\<close>.\<close>

datatype 'a patch = Absent | Clear | Put 'a

definition assertIdentifier :: "string \<Rightarrow> string \<Rightarrow> 'c err + string" where
  "assertIdentifier v what =
     (let normalized = js_trim v
      in throwIf (normalized = [] \<or> 256 < length normalized) (Invalid what) (Inr normalized))"

definition assertOptionalReference :: "string patch \<Rightarrow> string \<Rightarrow> 'c err + string patch" where
  "assertOptionalReference v what =
     (case v of
        Absent \<Rightarrow> Inr Absent
      | Clear \<Rightarrow> Inr Clear
      | Put s \<Rightarrow> (let normalized = js_trim s
                 in throwIf (normalized = [] \<or> 2048 < length normalized) (Invalid what) (Inr (Put normalized))))"

definition positiveSafeInteger :: "jsnum \<Rightarrow> string \<Rightarrow> 'c err + int" where
  "positiveSafeInteger v what =
     throwIf (\<not> is_safe_integer v \<or> num_int v < 1) (Invalid what) (Inr (num_int v))"

definition MAX_DAG_ACTOR_DOCUMENT_BYTES :: int where
  "MAX_DAG_ACTOR_DOCUMENT_BYTES = 256 * 1024"

definition encodeBoundedDocument :: "js_env \<Rightarrow> js \<Rightarrow> string \<Rightarrow> 'c err + (string \<times> string)" where
  "encodeBoundedDocument env v what =
     (case json_stringify (env_num_str env) v of
        None \<Rightarrow> Inl (Invalid what)
      | Some raw \<Rightarrow>
          throwIf (MAX_DAG_ACTOR_DOCUMENT_BYTES < int (utf8_length raw)) (Invalid what)
            (let redacted = canonicalize (redactTelemetry 0 v);
                 json = (case json_stringify (env_num_str env) redacted of None \<Rightarrow> [] | Some t \<Rightarrow> t)
             in throwIf (MAX_DAG_ACTOR_DOCUMENT_BYTES < int (utf8_length json)) (Invalid what)
                  (Inr (json, env_sha256 env json))))"

section \<open>Reading\<close>

definition actorFromRow :: "js_env \<Rightarrow> actor_row \<Rightarrow> 'c err + actor_row" where
  "actorFromRow env r =
     (case env_json_parse env (ac_model_profile_json r) of
        Some (JObj _) \<Rightarrow> Inr r | _ \<Rightarrow> Inl (Invalid ''model_profile''))"

definition commandFromRow :: "js_env \<Rightarrow> command_row \<Rightarrow> 'c err + command_row" where
  "commandFromRow env r =
     throwIf (env_json_parse env (cm_payload_json r) = None) (Invalid ''payload_json'')
       (case cm_failure_json r of
          None \<Rightarrow> Inr r
        | Some f \<Rightarrow> throwIf (env_json_parse env f = None) (Invalid ''failure_json'') (Inr r))"

definition getActorRow :: "('m) actor_db_scheme \<Rightarrow> string \<Rightarrow> string \<Rightarrow> actor_row option" where
  "getActorRow db runId actorId = find (\<lambda>r. ac_run_id r = runId \<and> ac_actor_id r = actorId) (db_actors db)"

definition getCommandRow :: "('m) actor_db_scheme \<Rightarrow> string \<Rightarrow> command_row option" where
  "getCommandRow db commandId = find (\<lambda>r. cm_command_id r = commandId) (db_commands db)"

definition getDagActor :: "js_env \<Rightarrow> ('m) actor_db_scheme \<Rightarrow> string \<Rightarrow> string \<Rightarrow> 'c err + actor_row option" where
  "getDagActor env db runId actorId = optE (actorFromRow env) (getActorRow db runId actorId)"

definition getDagActorByNode :: "js_env \<Rightarrow> ('m) actor_db_scheme \<Rightarrow> string \<Rightarrow> string \<Rightarrow> 'c err + actor_row option" where
  "getDagActorByNode env db runId nodeId =
     optE (actorFromRow env) (find (\<lambda>r. ac_run_id r = runId \<and> ac_node_id r = nodeId) (db_actors db))"

definition listDagActors :: "js_env \<Rightarrow> ('m) actor_db_scheme \<Rightarrow> string \<Rightarrow> 'c err + actor_row list" where
  "listDagActors env db runId =
     mapE (actorFromRow env) (sort_key ac_actor_id (filter (\<lambda>r. ac_run_id r = runId) (db_actors db)))"

definition requireActor :: "js_env \<Rightarrow> ('m) actor_db_scheme \<Rightarrow> string \<Rightarrow> string \<Rightarrow> 'c err + actor_row" where
  "requireActor env db runId actorId =
     bindE (getDagActor env db runId actorId)
       (\<lambda>a. case a of None \<Rightarrow> Inl (Invalid ''unknown actor'') | Some r \<Rightarrow> Inr r)"

definition getDagActorCommand :: "js_env \<Rightarrow> ('m) actor_db_scheme \<Rightarrow> string \<Rightarrow> 'c err + command_row option" where
  "getDagActorCommand env db commandId = optE (commandFromRow env) (getCommandRow db commandId)"

definition requireCommand :: "js_env \<Rightarrow> ('m) actor_db_scheme \<Rightarrow> string \<Rightarrow> 'c err + command_row" where
  "requireCommand env db commandId =
     bindE (getDagActorCommand env db commandId)
       (\<lambda>c. case c of None \<Rightarrow> Inl (Invalid ''unknown command'') | Some r \<Rightarrow> Inr r)"

section \<open>Actors\<close>

record register_actor_input =
  ra_run_id :: string
  ra_actor_id :: string
  ra_node_id :: string
  ra_role :: string
  ra_model_profile :: "js option"
  ra_surface_id :: string
  ra_session_id :: "string patch"
  ra_workspace_ref :: "string patch"
  ra_checkpoint_ref :: "string patch"

text \<open>\<open>value ?? null\<close> as a column.\<close>

definition patch_column :: "'a patch \<Rightarrow> 'a option" where
  "patch_column p = (case p of Put a \<Rightarrow> Some a | _ \<Rightarrow> None)"

text \<open>\<open>CASE WHEN value !== undefined THEN value ELSE column END\<close>.\<close>

definition patch_over :: "'a patch \<Rightarrow> 'a option \<Rightarrow> 'a option" where
  "patch_over p old = (case p of Absent \<Rightarrow> old | Clear \<Rightarrow> None | Put a \<Rightarrow> Some a)"

definition registerDagActor :: "js_env \<Rightarrow> int \<Rightarrow> register_actor_input \<Rightarrow> ('m) actor_db_scheme
    \<Rightarrow> actor_conflict err + (('m) actor_db_scheme \<times> actor_row \<times> bool)" where
  "registerDagActor env clock input db =
     bindE (assertIdentifier (ra_run_id input) ''run_id'') (\<lambda>runId.
     bindE (assertIdentifier (ra_actor_id input) ''actor_id'') (\<lambda>actorId.
     bindE (assertIdentifier (ra_node_id input) ''node_id'') (\<lambda>nodeId.
     bindE (assertIdentifier (ra_role input) ''role'') (\<lambda>role.
     bindE (assertIdentifier (ra_surface_id input) ''surface_id'') (\<lambda>surfaceId.
     bindE (assertOptionalReference (ra_session_id input) ''session_id'') (\<lambda>sessionId.
     bindE (assertOptionalReference (ra_workspace_ref input) ''workspace_ref'') (\<lambda>workspaceRef.
     bindE (assertOptionalReference (ra_checkpoint_ref input) ''checkpoint_ref'') (\<lambda>checkpointRef.
     bindE (encodeBoundedDocument env (case ra_model_profile input of None \<Rightarrow> JObj [] | Some m \<Rightarrow> m) ''model_profile'')
      (\<lambda>(profileJson, profileDigest).
     (case getActorRow db runId actorId of
        Some existing \<Rightarrow>
          throwIf (ac_node_id existing \<noteq> nodeId \<or> ac_role existing \<noteq> role \<or> ac_surface_id existing \<noteq> surfaceId)
            (Conflict Actor_identity_conflict)
            (bindE (actorFromRow env existing) (\<lambda>a. Inr (db, a, False)))
      | None \<Rightarrow>
          throwIf (find (\<lambda>(r, s). r = runId) (db_runs db) = None) (Invalid ''unknown run'')
          (throwIf (find (\<lambda>r. ac_run_id r = runId \<and> ac_node_id r = nodeId) (db_actors db) \<noteq> None)
            (Conflict Actor_identity_conflict)
          (throwIf (find (\<lambda>r. ac_run_id r = runId \<and> ac_surface_id r = surfaceId) (db_actors db) \<noteq> None)
            (Conflict Actor_identity_conflict)
          (let row = \<lparr>ac_run_id = runId, ac_actor_id = actorId, ac_node_id = nodeId, ac_role = role,
                 ac_generation = 1, ac_attempt = 1, ac_version = 1, ac_session_id = patch_column sessionId,
                 ac_model_profile_json = profileJson, ac_surface_id = surfaceId,
                 ac_workspace_ref = patch_column workspaceRef, ac_checkpoint_ref = patch_column checkpointRef,
                 ac_created_at = clock, ac_updated_at = clock\<rparr>
           in bindE (sql_insert actors_ok row (db_actors db)) (\<lambda>rows.
                let db' = db\<lparr>db_actors := rows\<rparr>
                in bindE (requireActor env db' runId actorId) (\<lambda>a. Inr (db', a, True))))))))))))))))"

record actor_patch =
  ap_run_id :: string
  ap_actor_id :: string
  ap_expected_version :: jsnum
  ap_session_id :: "string patch"
  ap_attempt :: "jsnum option"
  ap_model_profile :: "js option"
  ap_workspace_ref :: "string patch"
  ap_checkpoint_ref :: "string patch"

definition updateDagActorBinding :: "js_env \<Rightarrow> int \<Rightarrow> actor_patch \<Rightarrow> ('m) actor_db_scheme
    \<Rightarrow> actor_conflict err + (('m) actor_db_scheme \<times> actor_row)" where
  "updateDagActorBinding env clock input db =
     bindE (assertIdentifier (ap_run_id input) ''run_id'') (\<lambda>runId.
     bindE (assertIdentifier (ap_actor_id input) ''actor_id'') (\<lambda>actorId.
     bindE (positiveSafeInteger (ap_expected_version input) ''expected_version'') (\<lambda>expectedVersion.
     throwIf (ap_session_id input = Absent \<and> ap_attempt input = None \<and> ap_model_profile input = None
              \<and> ap_workspace_ref input = Absent \<and> ap_checkpoint_ref input = Absent) (Invalid ''binding'')
     (bindE (assertOptionalReference (ap_session_id input) ''session_id'') (\<lambda>sessionId.
     bindE (optE (\<lambda>n. positiveSafeInteger n ''attempt'') (ap_attempt input)) (\<lambda>attempt.
     bindE (assertOptionalReference (ap_workspace_ref input) ''workspace_ref'') (\<lambda>workspaceRef.
     bindE (assertOptionalReference (ap_checkpoint_ref input) ''checkpoint_ref'') (\<lambda>checkpointRef.
     bindE (optE (\<lambda>m. encodeBoundedDocument env m ''model_profile'') (ap_model_profile input)) (\<lambda>modelProfile.
     bindE (requireActor env db runId actorId) (\<lambda>current.
     throwIf (ac_version current \<noteq> expectedVersion) (Conflict Actor_version_conflict)
     (bindE (sql_update actors_ok
        (\<lambda>r. ac_run_id r = runId \<and> ac_actor_id r = actorId \<and> ac_version r = expectedVersion)
        (\<lambda>r. r\<lparr>ac_session_id := patch_over sessionId (ac_session_id r),
               ac_attempt := (case attempt of None \<Rightarrow> ac_attempt r | Some a \<Rightarrow> a),
               ac_model_profile_json := (case modelProfile of None \<Rightarrow> ac_model_profile_json r | Some (j, d) \<Rightarrow> j),
               ac_workspace_ref := patch_over workspaceRef (ac_workspace_ref r),
               ac_checkpoint_ref := patch_over checkpointRef (ac_checkpoint_ref r),
               ac_version := ac_version r + 1,
               ac_updated_at := clock\<rparr>) (db_actors db)) (\<lambda>(rows, changes).
     throwIf (changes \<noteq> 1) (Conflict Actor_version_conflict)
       (let db' = db\<lparr>db_actors := rows\<rparr>
        in bindE (requireActor env db' runId actorId) (\<lambda>a. Inr (db', a)))))))))))))))"

record advance_input =
  ag_run_id :: string
  ag_actor_id :: string
  ag_expected_generation :: jsnum
  ag_expected_version :: jsnum
  ag_session_id :: "string patch"
  ag_attempt :: "jsnum option"
  ag_checkpoint_ref :: "string patch"

definition advanceDagActorGeneration :: "js_env \<Rightarrow> int \<Rightarrow> advance_input \<Rightarrow> ('m) actor_db_scheme
    \<Rightarrow> actor_conflict err + (('m) actor_db_scheme \<times> actor_row)" where
  "advanceDagActorGeneration env clock input db =
     bindE (assertIdentifier (ag_run_id input) ''run_id'') (\<lambda>runId.
     bindE (assertIdentifier (ag_actor_id input) ''actor_id'') (\<lambda>actorId.
     bindE (positiveSafeInteger (ag_expected_generation input) ''expected_generation'') (\<lambda>expectedGeneration.
     bindE (positiveSafeInteger (ag_expected_version input) ''expected_version'') (\<lambda>expectedVersion.
     bindE (assertOptionalReference (ag_session_id input) ''session_id'') (\<lambda>sessionId.
     bindE (optE (\<lambda>n. positiveSafeInteger n ''attempt'') (ag_attempt input)) (\<lambda>requestedAttempt.
     bindE (assertOptionalReference (ag_checkpoint_ref input) ''checkpoint_ref'') (\<lambda>checkpointRef.
     bindE (requireActor env db runId actorId) (\<lambda>current.
     throwIf (ac_generation current \<noteq> expectedGeneration) (Conflict Actor_generation_conflict)
     (throwIf (ac_version current \<noteq> expectedVersion) (Conflict Actor_version_conflict)
     (bindE (case requestedAttempt of Some a \<Rightarrow> Inr a
             | None \<Rightarrow> positiveSafeInteger (num_of_int (ac_attempt current + 1)) ''attempt'') (\<lambda>attempt.
     bindE (sql_update actors_ok
        (\<lambda>r. ac_run_id r = runId \<and> ac_actor_id r = actorId
             \<and> ac_generation r = expectedGeneration \<and> ac_version r = expectedVersion)
        (\<lambda>r. r\<lparr>ac_generation := ac_generation r + 1, ac_attempt := attempt, ac_version := ac_version r + 1,
               ac_session_id := patch_column sessionId,
               ac_checkpoint_ref := patch_over checkpointRef (ac_checkpoint_ref r),
               ac_updated_at := clock\<rparr>) (db_actors db)) (\<lambda>(rows, changes).
     throwIf (changes \<noteq> 1) (Conflict Actor_generation_conflict)
       (let db' = db\<lparr>db_actors := rows\<rparr>
        in bindE (requireActor env db' runId actorId) (\<lambda>a. Inr (db', a)))))))))))))))"

section \<open>Commands\<close>

record create_command_input =
  cc_command_id :: string
  cc_run_id :: string
  cc_actor_id :: string
  cc_round_id :: string
  cc_idempotency_key :: string
  cc_payload :: js
  cc_target_generation :: "jsnum option"

record 'm command_result =
  cr_db :: 'm
  cr_command :: command_row
  cr_changed :: bool
  cr_deduplicated :: bool

definition command_done :: "'m \<Rightarrow> command_row \<Rightarrow> bool \<Rightarrow> bool \<Rightarrow> 'm command_result" where
  "command_done db c changed deduplicated =
     \<lparr>cr_db = db, cr_command = c, cr_changed = changed, cr_deduplicated = deduplicated\<rparr>"

definition createDagActorCommand :: "js_env \<Rightarrow> int \<Rightarrow> create_command_input \<Rightarrow> ('m) actor_db_scheme
    \<Rightarrow> actor_conflict err + ('m) actor_db_scheme command_result" where
  "createDagActorCommand env clock input db =
     bindE (assertIdentifier (cc_command_id input) ''command_id'') (\<lambda>commandId.
     bindE (assertIdentifier (cc_run_id input) ''run_id'') (\<lambda>runId.
     bindE (assertIdentifier (cc_actor_id input) ''actor_id'') (\<lambda>actorId.
     bindE (assertIdentifier (cc_round_id input) ''round_id'') (\<lambda>roundId.
     bindE (assertIdentifier (cc_idempotency_key input) ''idempotency_key'') (\<lambda>key.
     bindE (encodeBoundedDocument env (cc_payload input) ''command payload'') (\<lambda>(json, digest).
     bindE (requireActor env db runId actorId) (\<lambda>actor.
     bindE (case cc_target_generation input of None \<Rightarrow> Inr (ac_generation actor)
            | Some n \<Rightarrow> positiveSafeInteger n ''target_generation'') (\<lambda>targetGeneration.
     throwIf (targetGeneration \<noteq> ac_generation actor) (Conflict Command_generation_conflict)
     (case getCommandRow db commandId of
        Some byId \<Rightarrow>
          throwIf (\<not> (cm_run_id byId = runId \<and> cm_actor_id byId = actorId \<and> cm_round_id byId = roundId
                     \<and> cm_target_generation byId = targetGeneration \<and> cm_idempotency_key byId = key
                     \<and> cm_payload_digest byId = digest \<and> cm_payload_json byId = json))
            (Conflict Command_identity_conflict)
            (bindE (commandFromRow env byId) (\<lambda>c. Inr (command_done db c False True)))
      | None \<Rightarrow>
     (case find (\<lambda>r. cm_run_id r = runId \<and> cm_actor_id r = actorId \<and> cm_idempotency_key r = key) (db_commands db) of
        Some byKey \<Rightarrow>
          throwIf (\<not> (cm_round_id byKey = roundId \<and> cm_target_generation byKey = targetGeneration
                     \<and> cm_payload_digest byKey = digest \<and> cm_payload_json byKey = json))
            (Conflict Command_identity_conflict)
            (bindE (commandFromRow env byKey) (\<lambda>c. Inr (command_done db c False True)))
      | None \<Rightarrow>
          (let row = \<lparr>cm_command_id = commandId, cm_run_id = runId, cm_actor_id = actorId, cm_round_id = roundId,
                 cm_target_generation = targetGeneration, cm_status = Pending, cm_idempotency_key = key,
                 cm_payload_digest = digest, cm_payload_json = json, cm_claimed_generation = None,
                 cm_created_at = clock, cm_delivered_at = None, cm_claimed_at = None, cm_completed_at = None,
                 cm_failure_json = None\<rparr>
           in bindE (sql_insert commands_ok row (db_commands db)) (\<lambda>rows.
                let db' = db\<lparr>db_commands := rows\<rparr>
                in bindE (requireCommand env db' commandId) (\<lambda>c. Inr (command_done db' c True False))))))))))))))"

record list_commands_input =
  lc_run_id :: string
  lc_actor_id :: "string option"
  lc_round_id :: "string option"
  lc_status :: "command_status option"
  lc_limit :: "jsnum option"

definition MAX_DAG_ACTOR_COMMAND_LIMIT :: int where
  "MAX_DAG_ACTOR_COMMAND_LIMIT = 500"

definition DEFAULT_DAG_ACTOR_COMMAND_LIMIT :: int where
  "DEFAULT_DAG_ACTOR_COMMAND_LIMIT = 100"

definition opt_matches :: "'a option \<Rightarrow> 'a \<Rightarrow> bool" where
  "opt_matches a b \<longleftrightarrow> (case a of None \<Rightarrow> True | Some x \<Rightarrow> x = b)"

definition listDagActorCommands :: "js_env \<Rightarrow> list_commands_input \<Rightarrow> ('m) actor_db_scheme
    \<Rightarrow> actor_conflict err + command_row list" where
  "listDagActorCommands env input db =
     bindE (assertIdentifier (lc_run_id input) ''run_id'') (\<lambda>runId.
     bindE (optE (\<lambda>a. assertIdentifier a ''actor_id'') (lc_actor_id input)) (\<lambda>actorId.
     bindE (optE (\<lambda>r. assertIdentifier r ''round_id'') (lc_round_id input)) (\<lambda>roundId.
     let requestedLimit = (case lc_limit input of None \<Rightarrow> num_of_int DEFAULT_DAG_ACTOR_COMMAND_LIMIT | Some n \<Rightarrow> n)
     in throwIf (\<not> is_safe_integer requestedLimit \<or> num_int requestedLimit < 1) (Invalid ''limit'')
       (mapE (commandFromRow env)
         (take (nat (min (num_int requestedLimit) MAX_DAG_ACTOR_COMMAND_LIMIT))
           (sort_key (\<lambda>r. (cm_created_at r, cm_command_id r))
             (filter (\<lambda>r. cm_run_id r = runId \<and> opt_matches actorId (cm_actor_id r)
                \<and> opt_matches roundId (cm_round_id r) \<and> opt_matches (lc_status input) (cm_status r)) (db_commands db))))))))"

definition markDagActorCommandDelivered :: "js_env \<Rightarrow> int \<Rightarrow> string \<Rightarrow> ('m) actor_db_scheme
    \<Rightarrow> actor_conflict err + ('m) actor_db_scheme command_result" where
  "markDagActorCommandDelivered env clock rawCommandId db =
     bindE (assertIdentifier rawCommandId ''command_id'') (\<lambda>commandId.
     bindE (requireCommand env db commandId) (\<lambda>current.
     if cm_status current = Delivered then Inr (command_done db current False True)
     else throwIf (cm_status current \<noteq> Pending) (Conflict Command_status_conflict)
     (bindE (sql_update commands_ok (\<lambda>r. cm_command_id r = commandId \<and> cm_status r = Pending)
        (\<lambda>r. r\<lparr>cm_status := Delivered, cm_delivered_at := Some clock\<rparr>) (db_commands db)) (\<lambda>(rows, changes).
     throwIf (changes \<noteq> 1) (Conflict Command_status_conflict)
       (let db' = db\<lparr>db_commands := rows\<rparr>
        in bindE (requireCommand env db' commandId) (\<lambda>c. Inr (command_done db' c True False)))))))"

text \<open>
  Delivery awaits the callback between two transactions: \<open>meanwhile\<close> is what other transactions
  did to the database during the wait, \<open>sent\<close> whether the callback's answer was not \<open>false\<close>.
\<close>

definition deliverDagActorCommand :: "js_env \<Rightarrow> int \<Rightarrow> string \<Rightarrow> (command_row \<Rightarrow> bool)
    \<Rightarrow> (('m) actor_db_scheme \<Rightarrow> ('m) actor_db_scheme) \<Rightarrow> ('m) actor_db_scheme
    \<Rightarrow> actor_conflict err + (('m) actor_db_scheme command_result \<times> bool)" where
  "deliverDagActorCommand env clock rawCommandId sent meanwhile db =
     bindE (assertIdentifier rawCommandId ''command_id'') (\<lambda>commandId.
     bindE (requireCommand env db commandId) (\<lambda>current.
     if cm_status current = Delivered then Inr (command_done db current False True, True)
     else throwIf (cm_status current \<noteq> Pending) (Conflict Command_status_conflict)
      (let db' = meanwhile db
       in if \<not> sent current
          then bindE (requireCommand env db' commandId) (\<lambda>c. Inr (command_done db' c False False, False))
          else bindE (markDagActorCommandDelivered env clock commandId db') (\<lambda>r. Inr (r, True)))))"

record cancel_commands_input =
  cu_run_id :: string
  cu_actor_id :: "string option"
  cu_completed_at :: "jsnum option"
  cu_reason :: "js option"

definition unclaimed :: "string \<Rightarrow> string option \<Rightarrow> command_row \<Rightarrow> bool" where
  "unclaimed runId actorId r \<longleftrightarrow>
     cm_run_id r = runId \<and> opt_matches actorId (cm_actor_id r) \<and> (cm_status r = Pending \<or> cm_status r = Delivered)"

definition cancelUnclaimedDagActorCommands :: "js_env \<Rightarrow> int \<Rightarrow> cancel_commands_input \<Rightarrow> ('m) actor_db_scheme
    \<Rightarrow> actor_conflict err + (('m) actor_db_scheme \<times> command_row list)" where
  "cancelUnclaimedDagActorCommands env clock input db =
     bindE (assertIdentifier (cu_run_id input) ''run_id'') (\<lambda>runId.
     bindE (optE (\<lambda>a. assertIdentifier a ''actor_id'') (cu_actor_id input)) (\<lambda>actorId.
     let completedAt = (case cu_completed_at input of None \<Rightarrow> num_of_int clock | Some n \<Rightarrow> n)
     in throwIf (\<not> is_safe_integer completedAt \<or> num_int completedAt < 0) (Invalid ''completed_at'')
     (bindE (encodeBoundedDocument env
               (js_nullish (case cu_reason input of None \<Rightarrow> JUndef | Some r \<Rightarrow> r)
                  (JObj [(''message'', JStr ''command cancelled'')]))
               ''command cancellation reason'') (\<lambda>(reasonJson, digest).
      let candidates = sort_key (\<lambda>r. (cm_created_at r, cm_command_id r)) (filter (unclaimed runId actorId) (db_commands db))
      in if candidates = [] then Inr (db, [])
         else throwIf (list_ex (\<lambda>r. num_int completedAt < cm_created_at r) candidates) (Invalid ''completed_at'')
         (bindE (sql_update commands_ok (unclaimed runId actorId)
            (\<lambda>r. r\<lparr>cm_status := Cancelled, cm_completed_at := Some (num_int completedAt),
                   cm_failure_json := Some reasonJson\<rparr>) (db_commands db)) (\<lambda>(rows, changes).
          throwIf (changes \<noteq> length candidates) (Conflict Command_status_conflict)
            (let db' = db\<lparr>db_commands := rows\<rparr>
             in bindE (mapE (\<lambda>c. requireCommand env db' (cm_command_id c)) candidates) (\<lambda>cs. Inr (db', cs)))))))))"

record claim_input =
  cl_command_id :: string
  cl_run_id :: string
  cl_actor_id :: string
  cl_generation :: jsnum

definition claimDagActorCommand :: "js_env \<Rightarrow> int \<Rightarrow> claim_input \<Rightarrow> ('m) actor_db_scheme
    \<Rightarrow> actor_conflict err + ('m) actor_db_scheme command_result" where
  "claimDagActorCommand env clock input db =
     bindE (assertIdentifier (cl_command_id input) ''command_id'') (\<lambda>commandId.
     bindE (assertIdentifier (cl_run_id input) ''run_id'') (\<lambda>runId.
     bindE (assertIdentifier (cl_actor_id input) ''actor_id'') (\<lambda>actorId.
     bindE (positiveSafeInteger (cl_generation input) ''generation'') (\<lambda>generation.
     bindE (requireActor env db runId actorId) (\<lambda>actor.
     throwIf (ac_generation actor \<noteq> generation) (Conflict Command_generation_conflict)
     (bindE (requireCommand env db commandId) (\<lambda>current.
     throwIf (cm_run_id current \<noteq> runId \<or> cm_actor_id current \<noteq> actorId) (Conflict Command_identity_conflict)
     (throwIf (cm_target_generation current \<noteq> generation) (Conflict Command_generation_conflict)
     (if cm_status current = Claimed \<and> cm_claimed_generation current = Some generation
      then Inr (command_done db current False True)
      else throwIf (cm_status current \<noteq> Pending \<and> cm_status current \<noteq> Delivered) (Conflict Command_status_conflict)
      (bindE (sql_update commands_ok
         (\<lambda>r. cm_command_id r = commandId \<and> cm_run_id r = runId \<and> cm_actor_id r = actorId
              \<and> cm_target_generation r = generation \<and> (cm_status r = Pending \<or> cm_status r = Delivered))
         (\<lambda>r. r\<lparr>cm_status := Claimed,
                cm_delivered_at := (case cm_delivered_at r of None \<Rightarrow> Some clock | Some t \<Rightarrow> Some t),
                cm_claimed_generation := Some generation, cm_claimed_at := Some clock\<rparr>) (db_commands db))
       (\<lambda>(rows, changes).
      throwIf (changes \<noteq> 1) (Conflict Command_status_conflict)
        (let db' = db\<lparr>db_commands := rows\<rparr>
         in bindE (requireCommand env db' commandId) (\<lambda>c. Inr (command_done db' c True False))))))))))))))"

text \<open>The two statuses that \<open>completeCommand\<close> may set.\<close>

datatype completion = Ack | Fail js

definition completion_status :: "completion \<Rightarrow> command_status" where
  "completion_status k = (case k of Ack \<Rightarrow> Acknowledged | Fail _ \<Rightarrow> Failed)"

definition completeCommand :: "js_env \<Rightarrow> int \<Rightarrow> string \<Rightarrow> jsnum \<Rightarrow> completion \<Rightarrow> ('m) actor_db_scheme
    \<Rightarrow> actor_conflict err + ('m) actor_db_scheme command_result" where
  "completeCommand env clock rawCommandId rawGeneration k db =
     bindE (assertIdentifier rawCommandId ''command_id'') (\<lambda>commandId.
     bindE (positiveSafeInteger rawGeneration ''generation'') (\<lambda>generation.
     bindE (case k of Ack \<Rightarrow> Inr None
            | Fail failure \<Rightarrow> bindE (encodeBoundedDocument env
                 (js_nullish failure (JObj [(''message'', JStr ''command failed'')])) ''command failure'')
                 (\<lambda>(j, d). Inr (Some j))) (\<lambda>failureJson.
     bindE (requireCommand env db commandId) (\<lambda>current.
     if cm_status current = completion_status k \<and> cm_claimed_generation current = Some generation
     then Inr (command_done db current False True)
     else throwIf (cm_status current \<noteq> Claimed \<or> cm_claimed_generation current \<noteq> Some generation)
       (Conflict (if cm_claimed_generation current \<noteq> None \<and> cm_claimed_generation current \<noteq> Some generation
                  then Command_generation_conflict else Command_status_conflict))
     (bindE (sql_update commands_ok
        (\<lambda>r. cm_command_id r = commandId \<and> cm_status r = Claimed \<and> cm_claimed_generation r = Some generation)
        (\<lambda>r. r\<lparr>cm_status := completion_status k, cm_completed_at := Some clock, cm_failure_json := failureJson\<rparr>)
        (db_commands db)) (\<lambda>(rows, changes).
     throwIf (changes \<noteq> 1) (Conflict Command_status_conflict)
       (let db' = db\<lparr>db_commands := rows\<rparr>
        in bindE (requireCommand env db' commandId) (\<lambda>c. Inr (command_done db' c True False)))))))))"

definition acknowledgeDagActorCommand :: "js_env \<Rightarrow> int \<Rightarrow> string \<Rightarrow> jsnum \<Rightarrow> ('m) actor_db_scheme
    \<Rightarrow> actor_conflict err + ('m) actor_db_scheme command_result" where
  "acknowledgeDagActorCommand env clock commandId generation db = completeCommand env clock commandId generation Ack db"

definition failDagActorCommand :: "js_env \<Rightarrow> int \<Rightarrow> string \<Rightarrow> jsnum \<Rightarrow> js \<Rightarrow> ('m) actor_db_scheme
    \<Rightarrow> actor_conflict err + ('m) actor_db_scheme command_result" where
  "failDagActorCommand env clock commandId generation failure db =
     completeCommand env clock commandId generation (Fail failure) db"

end
