(* ===== verification/Run_Rounds.thy ===== *)
theory Run_Rounds
  imports Dag_Actors
begin

text \<open>
  \<open>persistence/dag-run-rounds.ts\<close>: the rounds of a run. A run has at most one current round, active or waiting
  for a command; the next round opens when the waiting one completes. The constraints are those of
  migration 23 in \<open>persistence/db.ts\<close>.
\<close>

datatype round_status = Round_active | Round_waiting | Round_completed | Round_cancelled | Round_failed

datatype round_conflict =
    Initial_round_conflict
  | Round_not_found
  | Round_identity_conflict
  | Round_status_conflict
  | Current_round_conflict

record round_row =
  rr_run_id :: string
  rr_round_id :: string
  rr_ordinal :: int
  rr_status :: round_status
  rr_targets_json :: string
  rr_await_node_id :: "string option"
  rr_opened_at :: int
  rr_closed_at :: "int option"
  rr_expires_at :: "int option"

record round_db = actor_db +
  db_rounds :: "round_row list"

section \<open>Constraints\<close>

definition round_current :: "round_row \<Rightarrow> bool" where
  "round_current r \<longleftrightarrow> rr_status r = Round_active \<or> rr_status r = Round_waiting"

definition round_key :: "round_row \<Rightarrow> string \<times> string" where
  "round_key r = (rr_run_id r, rr_round_id r)"

definition round_check :: "round_row \<Rightarrow> bool" where
  "round_check r \<longleftrightarrow> 1 \<le> rr_ordinal r \<and> 0 \<le> rr_opened_at r
     \<and> (case rr_closed_at r of None \<Rightarrow> True | Some t \<Rightarrow> rr_opened_at r \<le> t)
     \<and> (case rr_expires_at r of None \<Rightarrow> True | Some t \<Rightarrow> rr_opened_at r \<le> t)
     \<and> (case rr_status r of
          Round_active \<Rightarrow> rr_await_node_id r = None \<and> rr_closed_at r = None
        | Round_waiting \<Rightarrow> rr_await_node_id r \<noteq> None \<and> rr_closed_at r \<noteq> None
        | _ \<Rightarrow> rr_closed_at r \<noteq> None)"

definition rounds_ok :: "round_row list \<Rightarrow> bool" where
  "rounds_ok rows \<longleftrightarrow> list_all round_check rows
     \<and> unique_on (\<lambda>_. True) round_key rows
     \<and> unique_on (\<lambda>_. True) (\<lambda>r. (rr_run_id r, rr_ordinal r)) rows
     \<and> unique_on round_current rr_run_id rows"

section \<open>Rows and arguments\<close>

definition assertTimestamp :: "jsnum \<Rightarrow> string \<Rightarrow> 'c err + int" where
  "assertTimestamp v what = throwIf (\<not> is_safe_integer v \<or> num_int v < 0) (Invalid what) (Inr (num_int v))"

text \<open>\<open>value ?? Date.now()\<close>.\<close>

definition or_clock :: "jsnum option \<Rightarrow> int \<Rightarrow> jsnum" where
  "or_clock v clock = (case v of None \<Rightarrow> num_of_int clock | Some t \<Rightarrow> t)"

definition normalizeTargetActorIds :: "string list \<Rightarrow> 'c err + string list" where
  "normalizeTargetActorIds vs = bindE (mapE (\<lambda>v. assertIdentifier v ''target_actor_id'') vs) (\<lambda>ids. Inr (sort (remdups ids)))"

definition encodeTargets :: "js_env \<Rightarrow> string list \<Rightarrow> string" where
  "encodeTargets env ids = (case json_stringify (env_num_str env) (JArr (map JStr ids)) of None \<Rightarrow> [] | Some t \<Rightarrow> t)"

fun js_strings :: "js list \<Rightarrow> string list option" where
  "js_strings [] = Some []"
| "js_strings (JStr s # vs) = map_option ((#) s) (js_strings vs)"
| "js_strings (_ # vs) = None"

type_synonym dag_round = "round_row \<times> string list"

definition roundFromRow :: "js_env \<Rightarrow> round_row \<Rightarrow> round_conflict err + dag_round" where
  "roundFromRow env r =
     (case env_json_parse env (rr_targets_json r) of
        Some (JArr vs) \<Rightarrow> (case js_strings vs of None \<Rightarrow> Inl (Invalid ''target_actor_ids_json'') | Some ids \<Rightarrow> Inr (r, ids))
      | _ \<Rightarrow> Inl (Invalid ''target_actor_ids_json''))"

definition getRoundRow :: "('m) round_db_scheme \<Rightarrow> string \<Rightarrow> string \<Rightarrow> round_row option" where
  "getRoundRow db runId roundId = find (\<lambda>r. rr_run_id r = runId \<and> rr_round_id r = roundId) (db_rounds db)"

definition requireRound :: "js_env \<Rightarrow> ('m) round_db_scheme \<Rightarrow> string \<Rightarrow> string \<Rightarrow> round_conflict err + dag_round" where
  "requireRound env db runId roundId =
     (case getRoundRow db runId roundId of None \<Rightarrow> Inl (Conflict Round_not_found) | Some r \<Rightarrow> roundFromRow env r)"

section \<open>Reads\<close>

definition getDagRunRound :: "js_env \<Rightarrow> string \<Rightarrow> string \<Rightarrow> ('m) round_db_scheme \<Rightarrow> round_conflict err + dag_round option" where
  "getDagRunRound env rawRun rawRound db =
     bindE (assertIdentifier rawRun ''run_id'') (\<lambda>runId.
     bindE (assertIdentifier rawRound ''round_id'') (\<lambda>roundId.
     optE (roundFromRow env) (getRoundRow db runId roundId)))"

definition currentRoundRow :: "('m) round_db_scheme \<Rightarrow> string \<Rightarrow> round_row option" where
  "currentRoundRow db runId = find (\<lambda>r. rr_run_id r = runId \<and> round_current r) (db_rounds db)"

definition getCurrentDagRunRound :: "js_env \<Rightarrow> string \<Rightarrow> ('m) round_db_scheme \<Rightarrow> round_conflict err + dag_round option" where
  "getCurrentDagRunRound env rawRun db =
     bindE (assertIdentifier rawRun ''run_id'') (\<lambda>runId. optE (roundFromRow env) (currentRoundRow db runId))"

definition listDagRunRounds :: "js_env \<Rightarrow> string \<Rightarrow> ('m) round_db_scheme \<Rightarrow> round_conflict err + dag_round list" where
  "listDagRunRounds env rawRun db =
     bindE (assertIdentifier rawRun ''run_id'') (\<lambda>runId.
     mapE (roundFromRow env)
       (sort_key (\<lambda>r. (rr_ordinal r, rr_round_id r)) (filter (\<lambda>r. rr_run_id r = runId) (db_rounds db))))"

definition assertExpectedCurrentRound :: "js_env \<Rightarrow> ('m) round_db_scheme \<Rightarrow> string \<Rightarrow> string \<Rightarrow> round_conflict err + dag_round" where
  "assertExpectedCurrentRound env db runId roundId =
     bindE (requireRound env db runId roundId) (\<lambda>requested.
     bindE (getCurrentDagRunRound env runId db) (\<lambda>current.
     throwIf (case current of None \<Rightarrow> True | Some c \<Rightarrow> rr_round_id (fst c) \<noteq> roundId) (Conflict Current_round_conflict)
       (Inr requested)))"

section \<open>Writes\<close>

record initial_round_input =
  ir_run_id :: string
  ir_round_id :: string
  ir_targets :: "string list"
  ir_status :: "round_status option"
  ir_await_node_id :: "string option"
  ir_opened_at :: "jsnum option"
  ir_closed_at :: "jsnum option"
  ir_expires_at :: "jsnum option"

definition createInitialDagRunRound :: "js_env \<Rightarrow> int \<Rightarrow> initial_round_input \<Rightarrow> ('m) round_db_scheme
    \<Rightarrow> round_conflict err + (('m) round_db_scheme \<times> dag_round)" where
  "createInitialDagRunRound env clock input db =
     bindE (assertIdentifier (ir_run_id input) ''run_id'') (\<lambda>runId.
     bindE (assertIdentifier (ir_round_id input) ''round_id'') (\<lambda>roundId.
     bindE (normalizeTargetActorIds (ir_targets input)) (\<lambda>targets.
     let status = (case ir_status input of None \<Rightarrow> Round_active | Some s \<Rightarrow> s) in
     bindE (optE (\<lambda>v. assertIdentifier v ''await_node_id'') (ir_await_node_id input)) (\<lambda>awaitNodeId.
     bindE (assertTimestamp (or_clock (ir_opened_at input) clock) ''opened_at'') (\<lambda>openedAt.
     bindE (optE (\<lambda>v. assertTimestamp v ''closed_at'') (ir_closed_at input)) (\<lambda>closedAt.
     bindE (optE (\<lambda>v. assertTimestamp v ''expires_at'') (ir_expires_at input)) (\<lambda>expiresAt.
     throwIf (case expiresAt of None \<Rightarrow> False | Some t \<Rightarrow> t < openedAt) (Invalid ''expires_at'')
     (throwIf (case closedAt of None \<Rightarrow> False | Some t \<Rightarrow> t < openedAt) (Invalid ''closed_at'')
     (throwIf (status = Round_active \<and> (awaitNodeId \<noteq> None \<or> closedAt \<noteq> None)) (Invalid ''active'')
     (throwIf (status = Round_waiting \<and> (awaitNodeId = None \<or> closedAt = None)) (Invalid ''waiting'')
     (throwIf (status \<in> {Round_completed, Round_cancelled, Round_failed} \<and> closedAt = None) (Invalid ''closed_at'')
     (throwIf (\<not> list_ex (\<lambda>(r, _). r = runId) (db_runs db)) (Invalid ''run'')
     (throwIf (list_ex (\<lambda>r. rr_run_id r = runId) (db_rounds db)) (Conflict Initial_round_conflict)
     (bindE (sql_insert rounds_ok
        \<lparr>rr_run_id = runId, rr_round_id = roundId, rr_ordinal = 1, rr_status = status,
         rr_targets_json = encodeTargets env targets, rr_await_node_id = awaitNodeId, rr_opened_at = openedAt,
         rr_closed_at = closedAt, rr_expires_at = expiresAt\<rparr> (db_rounds db)) (\<lambda>rows.
      let db' = db\<lparr>db_rounds := rows\<rparr>
      in bindE (requireRound env db' runId roundId) (\<lambda>r. Inr (db', r)))))))))))))))))"

record waiting_input =
  wi_run_id :: string
  wi_round_id :: string
  wi_await_node_id :: string
  wi_closed_at :: "jsnum option"
  wi_expires_at :: "jsnum option"

definition transitionDagRunRoundToWaiting :: "js_env \<Rightarrow> int \<Rightarrow> waiting_input \<Rightarrow> ('m) round_db_scheme
    \<Rightarrow> round_conflict err + (('m) round_db_scheme \<times> dag_round)" where
  "transitionDagRunRoundToWaiting env clock input db =
     bindE (assertIdentifier (wi_run_id input) ''run_id'') (\<lambda>runId.
     bindE (assertIdentifier (wi_round_id input) ''round_id'') (\<lambda>roundId.
     bindE (assertIdentifier (wi_await_node_id input) ''await_node_id'') (\<lambda>awaitNodeId.
     bindE (assertTimestamp (or_clock (wi_closed_at input) clock) ''closed_at'') (\<lambda>closedAt.
     bindE (optE (\<lambda>v. assertTimestamp v ''expires_at'') (wi_expires_at input)) (\<lambda>expiresAt.
     bindE (assertExpectedCurrentRound env db runId roundId) (\<lambda>(current, _).
     throwIf (rr_status current \<noteq> Round_active) (Conflict Round_status_conflict)
     (throwIf (closedAt < rr_opened_at current) (Invalid ''closed_at'')
     (throwIf (case expiresAt of None \<Rightarrow> False | Some t \<Rightarrow> t < closedAt) (Invalid ''expires_at'')
     (bindE (sql_update rounds_ok
        (\<lambda>r. rr_run_id r = runId \<and> rr_round_id r = roundId \<and> rr_status r = Round_active \<and> rr_closed_at r = None)
        (\<lambda>r. r\<lparr>rr_status := Round_waiting, rr_await_node_id := Some awaitNodeId, rr_closed_at := Some closedAt,
               rr_expires_at := expiresAt\<rparr>) (db_rounds db)) (\<lambda>(rows, changes).
     throwIf (changes \<noteq> 1) (Conflict Round_status_conflict)
       (let db' = db\<lparr>db_rounds := rows\<rparr>
        in bindE (requireRound env db' runId roundId) (\<lambda>r. Inr (db', r)))))))))))))"

record next_round_input =
  nr_run_id :: string
  nr_expected_round_id :: string
  nr_round_id :: string
  nr_targets :: "string list"
  nr_opened_at :: "jsnum option"
  nr_expires_at :: "jsnum option"

definition openNextDagRunRound :: "js_env \<Rightarrow> int \<Rightarrow> next_round_input \<Rightarrow> ('m) round_db_scheme
    \<Rightarrow> round_conflict err + (('m) round_db_scheme \<times> dag_round)" where
  "openNextDagRunRound env clock input db =
     bindE (assertIdentifier (nr_run_id input) ''run_id'') (\<lambda>runId.
     bindE (assertIdentifier (nr_expected_round_id input) ''expected_round_id'') (\<lambda>currentRoundId.
     bindE (assertIdentifier (nr_round_id input) ''round_id'') (\<lambda>nextRoundId.
     bindE (normalizeTargetActorIds (nr_targets input)) (\<lambda>targets.
     bindE (assertTimestamp (or_clock (nr_opened_at input) clock) ''opened_at'') (\<lambda>openedAt.
     bindE (optE (\<lambda>v. assertTimestamp v ''expires_at'') (nr_expires_at input)) (\<lambda>expiresAt.
     bindE (assertExpectedCurrentRound env db runId currentRoundId) (\<lambda>(current, _).
     throwIf (rr_status current \<noteq> Round_waiting) (Conflict Round_status_conflict)
     (throwIf (openedAt < (case rr_closed_at current of None \<Rightarrow> rr_opened_at current | Some t \<Rightarrow> t)) (Invalid ''opened_at'')
     (throwIf (case expiresAt of None \<Rightarrow> False | Some t \<Rightarrow> t < openedAt) (Invalid ''expires_at'')
     (throwIf (getRoundRow db runId nextRoundId \<noteq> None) (Conflict Round_identity_conflict)
     (bindE (sql_update rounds_ok
        (\<lambda>r. rr_run_id r = runId \<and> rr_round_id r = currentRoundId \<and> rr_status r = Round_waiting)
        (\<lambda>r. r\<lparr>rr_status := Round_completed\<rparr>) (db_rounds db)) (\<lambda>(rows, changes).
     throwIf (changes \<noteq> 1) (Conflict Round_status_conflict)
     (bindE (sql_insert rounds_ok
        \<lparr>rr_run_id = runId, rr_round_id = nextRoundId, rr_ordinal = rr_ordinal current + 1, rr_status = Round_active,
         rr_targets_json = encodeTargets env targets, rr_await_node_id = None, rr_opened_at = openedAt,
         rr_closed_at = None, rr_expires_at = expiresAt\<rparr> rows) (\<lambda>rows'.
      let db' = db\<lparr>db_rounds := rows'\<rparr>
      in bindE (requireRound env db' runId nextRoundId) (\<lambda>r. Inr (db', r))))))))))))))))"

record terminal_round_input =
  tr_run_id :: string
  tr_round_id :: string
  tr_status :: round_status
  tr_closed_at :: "jsnum option"

text \<open>The type of the argument \<open>status\<close> admits three values only (\<open>round_ended\<close>).\<close>

definition round_ended :: "round_status \<Rightarrow> bool" where
  "round_ended s \<longleftrightarrow> s = Round_completed \<or> s = Round_cancelled \<or> s = Round_failed"

definition terminalizeCurrentDagRunRound :: "js_env \<Rightarrow> int \<Rightarrow> terminal_round_input \<Rightarrow> ('m) round_db_scheme
    \<Rightarrow> round_conflict err + (('m) round_db_scheme \<times> dag_round)" where
  "terminalizeCurrentDagRunRound env clock input db =
     bindE (assertIdentifier (tr_run_id input) ''run_id'') (\<lambda>runId.
     bindE (assertIdentifier (tr_round_id input) ''round_id'') (\<lambda>roundId.
     bindE (assertTimestamp (or_clock (tr_closed_at input) clock) ''closed_at'') (\<lambda>closedAt.
     bindE (assertExpectedCurrentRound env db runId roundId) (\<lambda>(current, _).
     throwIf (rr_status current \<noteq> Round_active \<and> rr_status current \<noteq> Round_waiting) (Conflict Round_status_conflict)
     (throwIf (closedAt < rr_opened_at current) (Invalid ''closed_at'')
     (bindE (sql_update rounds_ok
        (\<lambda>r. rr_run_id r = runId \<and> rr_round_id r = roundId \<and> (rr_status r = Round_active \<or> rr_status r = Round_waiting))
        (\<lambda>r. r\<lparr>rr_status := tr_status input,
               rr_closed_at := (case rr_closed_at r of None \<Rightarrow> Some closedAt | Some t \<Rightarrow> Some t)\<rparr>) (db_rounds db))
        (\<lambda>(rows, changes).
     throwIf (changes \<noteq> 1) (Conflict Round_status_conflict)
       (let db' = db\<lparr>db_rounds := rows\<rparr>
        in bindE (requireRound env db' runId roundId) (\<lambda>r. Inr (db', r))))))))))"

end
