(* ===== verification/Interventions.thy ===== *)
theory Interventions
  imports Run_Rounds
begin

text \<open>
  \<open>persistence/dag-actor-interventions.ts\<close>: operator interventions on an actor (interrupt, cancel, retry,
  reassign, fork from a checkpoint), the worker or node that a reassigned actor must avoid, and
  snapshots of the surface of a superseded generation. The constraints are those of the migrations 26
  and 27 in \<open>persistence/db.ts\<close>.
\<close>

datatype intervention_operation = Op_interrupt | Op_cancel | Op_retry | Op_reassign | Op_checkpoint_fork

datatype intervention_status = Iv_queued | Iv_applying | Iv_applied | Iv_failed

datatype intervention_conflict =
    Intervention_identity_conflict
  | Intervention_in_progress
  | Intervention_generation_conflict
  | Intervention_version_conflict
  | Intervention_status_conflict
  | Snapshot_identity_conflict

datatype target_kind = Worker_target | Node_target

record intervention_row =
  iv_intervention_id :: string
  iv_run_id :: string
  iv_actor_id :: string
  iv_operation :: intervention_operation
  iv_status :: intervention_status
  iv_idempotency_key :: string
  iv_payload_digest :: string
  iv_payload_json :: string
  iv_expected_generation :: int
  iv_expected_version :: int
  iv_checkpoint_version :: "int option"
  iv_from_generation :: "int option"
  iv_to_generation :: "int option"
  iv_resulting_version :: "int option"
  iv_created_at :: int
  iv_started_at :: "int option"
  iv_completed_at :: "int option"
  iv_failure_json :: "string option"

record snapshot_row =
  sn_run_id :: string
  sn_actor_id :: string
  sn_generation :: int
  sn_node_id :: string
  sn_surface_id :: string
  sn_document_id :: string
  sn_node_revision :: int
  sn_document_revision :: int
  sn_surface_revision :: int
  sn_activity_state :: string
  sn_visibility_state :: string
  sn_last_event_id :: "string option"
  sn_sha256 :: string
  sn_json :: string
  sn_superseded_by :: int
  sn_intervention_id :: string
  sn_created_at :: int

record exclusion_row =
  ex_run_id :: string
  ex_actor_id :: string
  ex_node_id :: string
  ex_target_type :: target_kind
  ex_target_id :: string
  ex_intervention_id :: string
  ex_created_at :: int

record intervention_db = actor_db +
  db_interventions :: "intervention_row list"
  db_exclusions :: "exclusion_row list"
  db_snapshots :: "snapshot_row list"

section \<open>Constraints\<close>

definition sql_id :: "nat \<Rightarrow> string \<Rightarrow> bool" where
  "sql_id maximum s \<longleftrightarrow> 1 \<le> length s \<and> length s \<le> maximum"

definition hex_digest :: "string \<Rightarrow> bool" where
  "hex_digest s \<longleftrightarrow> length s = 64
     \<and> list_all (\<lambda>c. (CHR ''0'' \<le> c \<and> c \<le> CHR ''9'') \<or> (CHR ''a'' \<le> c \<and> c \<le> CHR ''f'')) s"

definition sql_document :: "nat \<Rightarrow> string \<Rightarrow> bool" where
  "sql_document maximum s \<longleftrightarrow> 2 \<le> length s \<and> length s \<le> maximum"

definition intervention_active :: "intervention_row \<Rightarrow> bool" where
  "intervention_active r \<longleftrightarrow> iv_status r = Iv_queued \<or> iv_status r = Iv_applying"

definition intervention_check :: "intervention_row \<Rightarrow> bool" where
  "intervention_check r \<longleftrightarrow>
     sql_id 256 (iv_intervention_id r) \<and> sql_id 256 (iv_run_id r) \<and> sql_id 256 (iv_actor_id r)
     \<and> sql_id 256 (iv_idempotency_key r) \<and> hex_digest (iv_payload_digest r) \<and> sql_document 65536 (iv_payload_json r)
     \<and> 1 \<le> iv_expected_generation r \<and> 1 \<le> iv_expected_version r
     \<and> opt_ge (iv_checkpoint_version r) 1 \<and> opt_ge (iv_from_generation r) 1 \<and> opt_ge (iv_to_generation r) 1
     \<and> opt_ge (iv_resulting_version r) 1 \<and> 0 \<le> iv_created_at r
     \<and> opt_ge (iv_started_at r) (iv_created_at r) \<and> opt_ge (iv_completed_at r) (iv_created_at r)
     \<and> (case iv_failure_json r of None \<Rightarrow> True | Some f \<Rightarrow> sql_document 65536 f)
     \<and> (iv_operation r = Op_checkpoint_fork \<longleftrightarrow> iv_checkpoint_version r \<noteq> None)
     \<and> (case iv_to_generation r of None \<Rightarrow> True
        | Some t \<Rightarrow> (case iv_from_generation r of None \<Rightarrow> False | Some f \<Rightarrow> t = f + 1))
     \<and> (case iv_status r of
          Iv_queued \<Rightarrow> iv_started_at r = None \<and> iv_completed_at r = None \<and> iv_failure_json r = None
            \<and> iv_from_generation r = None \<and> iv_to_generation r = None \<and> iv_resulting_version r = None
        | Iv_applying \<Rightarrow> iv_started_at r \<noteq> None \<and> iv_completed_at r = None \<and> iv_failure_json r = None
            \<and> iv_to_generation r = None \<and> iv_resulting_version r = None
        | Iv_applied \<Rightarrow> iv_started_at r \<noteq> None \<and> iv_completed_at r \<noteq> None \<and> iv_failure_json r = None
            \<and> iv_from_generation r \<noteq> None \<and> iv_to_generation r \<noteq> None \<and> iv_resulting_version r \<noteq> None
        | Iv_failed \<Rightarrow> iv_completed_at r \<noteq> None \<and> iv_failure_json r \<noteq> None
            \<and> iv_to_generation r = None \<and> iv_resulting_version r = None)"

definition intervention_key :: "intervention_row \<Rightarrow> string \<times> string \<times> string" where
  "intervention_key r = (iv_run_id r, iv_actor_id r, iv_idempotency_key r)"

text \<open>The unique index over (id, run, actor) follows from the primary key.\<close>

definition interventions_ok :: "intervention_row list \<Rightarrow> bool" where
  "interventions_ok rows \<longleftrightarrow> list_all intervention_check rows
     \<and> unique_on (\<lambda>_. True) iv_intervention_id rows
     \<and> unique_on (\<lambda>_. True) intervention_key rows
     \<and> unique_on intervention_active (\<lambda>r. (iv_run_id r, iv_actor_id r)) rows"

definition snapshot_check :: "snapshot_row \<Rightarrow> bool" where
  "snapshot_check r \<longleftrightarrow>
     1 \<le> sn_generation r \<and> sql_id 256 (sn_node_id r) \<and> sql_id 512 (sn_surface_id r) \<and> sql_id 256 (sn_document_id r)
     \<and> 1 \<le> sn_node_revision r \<and> 1 \<le> sn_document_revision r \<and> 1 \<le> sn_surface_revision r
     \<and> sn_activity_state r \<in> {''started'', ''progress'', ''finding'', ''blocked'', ''completed'', ''failed''}
     \<and> sn_visibility_state r \<in> {''visible'', ''focused'', ''removed''}
     \<and> (case sn_last_event_id r of None \<Rightarrow> True | Some e \<Rightarrow> sql_id 256 e)
     \<and> hex_digest (sn_sha256 r) \<and> sql_document 262144 (sn_json r)
     \<and> sn_superseded_by r = sn_generation r + 1 \<and> sql_id 256 (sn_intervention_id r) \<and> 0 \<le> sn_created_at r"

definition snapshot_key :: "snapshot_row \<Rightarrow> string \<times> string \<times> int" where
  "snapshot_key r = (sn_run_id r, sn_actor_id r, sn_generation r)"

definition snapshots_ok :: "snapshot_row list \<Rightarrow> bool" where
  "snapshots_ok rows \<longleftrightarrow> list_all snapshot_check rows
     \<and> unique_on (\<lambda>_. True) snapshot_key rows \<and> unique_on (\<lambda>_. True) sn_intervention_id rows"

definition exclusion_check :: "exclusion_row \<Rightarrow> bool" where
  "exclusion_check r \<longleftrightarrow> sql_id 256 (ex_run_id r) \<and> sql_id 256 (ex_actor_id r) \<and> sql_id 256 (ex_node_id r)
     \<and> sql_id 256 (ex_target_id r) \<and> sql_id 256 (ex_intervention_id r) \<and> 0 \<le> ex_created_at r"

definition exclusion_key :: "exclusion_row \<Rightarrow> string \<times> string" where
  "exclusion_key r = (ex_run_id r, ex_node_id r)"

definition exclusions_ok :: "exclusion_row list \<Rightarrow> bool" where
  "exclusions_ok rows \<longleftrightarrow> list_all exclusion_check rows
     \<and> unique_on (\<lambda>_. True) exclusion_key rows \<and> unique_on (\<lambda>_. True) ex_intervention_id rows"

section \<open>Arguments and documents\<close>

definition control_char :: "char \<Rightarrow> bool" where
  "control_char c \<longleftrightarrow> code c < 32 \<or> code c = 127"

definition assertPrintable :: "nat \<Rightarrow> string \<Rightarrow> string \<Rightarrow> 'c err + string" where
  "assertPrintable maxLength v what =
     (let normalized = js_trim v
      in throwIf (normalized = [] \<or> maxLength < length normalized \<or> list_ex control_char normalized) (Invalid what)
           (Inr normalized))"

text \<open>\<open>replace(/\s+/g, " ")\<close>: every run of white space becomes one blank.\<close>

fun squeeze_spaces :: "bool \<Rightarrow> string \<Rightarrow> string" where
  "squeeze_spaces inside [] = []"
| "squeeze_spaces inside (c # cs) =
     (if js_space c then (if inside then [] else [CHR '' '']) @ squeeze_spaces True cs
      else c # squeeze_spaces False cs)"

definition normalizeInstruction :: "string option \<Rightarrow> 'c err + string option" where
  "normalizeInstruction value =
     optE (\<lambda>v. let normalized = js_trim (squeeze_spaces False v)
               in throwIf (normalized = [] \<or> 4096 < length normalized) (Invalid ''instruction'') (Inr normalized)) value"

definition encodeBounded :: "js_env \<Rightarrow> js \<Rightarrow> string \<Rightarrow> int \<Rightarrow> 'c err + (string \<times> string)" where
  "encodeBounded env v what maxBytes =
     (case json_stringify (env_num_str env) (canonicalize (redactTelemetry 0 v)) of
        None \<Rightarrow> Inl (Invalid what)
      | Some json \<Rightarrow>
          throwIf (json = [] \<or> maxBytes < int (utf8_length json)) (Invalid what) (Inr (json, env_sha256 env json)))"

section \<open>Reading\<close>

record dag_intervention =
  di_row :: intervention_row
  di_instruction :: "string option"
  di_failure :: "js option"

definition payload_instruction :: "js \<Rightarrow> string option" where
  "payload_instruction payload =
     (case payload of
        JObj kvs \<Rightarrow> (case map_of kvs ''instruction'' of Some (JStr s) \<Rightarrow> Some s | _ \<Rightarrow> None)
      | _ \<Rightarrow> None)"

text \<open>Reading a member of \<open>null\<close> throws.\<close>

definition interventionFromRow :: "js_env \<Rightarrow> intervention_row \<Rightarrow> intervention_conflict err + dag_intervention" where
  "interventionFromRow env r =
     (case env_json_parse env (iv_payload_json r) of
        None \<Rightarrow> Inl (Invalid ''payload_json'')
      | Some payload \<Rightarrow> throwIf (payload = JNull) (Invalid ''payload_json'')
          (bindE (case iv_failure_json r of
                    None \<Rightarrow> Inr None
                  | Some f \<Rightarrow> (case env_json_parse env f of None \<Rightarrow> Inl (Invalid ''failure_json'') | Some v \<Rightarrow> Inr (Some v)))
             (\<lambda>failure. Inr \<lparr>di_row = r, di_instruction = payload_instruction payload, di_failure = failure\<rparr>)))"

definition snapshotFromRow :: "js_env \<Rightarrow> snapshot_row \<Rightarrow> intervention_conflict err + (snapshot_row \<times> js)" where
  "snapshotFromRow env r =
     (case env_json_parse env (sn_json r) of None \<Rightarrow> Inl (Invalid ''node_snapshot_json'') | Some v \<Rightarrow> Inr (r, v))"

definition interventionRowById :: "('m) intervention_db_scheme \<Rightarrow> string \<Rightarrow> intervention_row option" where
  "interventionRowById db interventionId = find (\<lambda>r. iv_intervention_id r = interventionId) (db_interventions db)"

definition interventionRowByKey :: "('m) intervention_db_scheme \<Rightarrow> string \<Rightarrow> string \<Rightarrow> string \<Rightarrow> intervention_row option" where
  "interventionRowByKey db runId actorId key =
     find (\<lambda>r. iv_run_id r = runId \<and> iv_actor_id r = actorId \<and> iv_idempotency_key r = key) (db_interventions db)"

text \<open>\<open>interventionFromRow(interventionRowById(id)!)\<close>.\<close>

definition reloadIntervention :: "js_env \<Rightarrow> ('m) intervention_db_scheme \<Rightarrow> string \<Rightarrow> intervention_conflict err + dag_intervention" where
  "reloadIntervention env db interventionId =
     (case interventionRowById db interventionId of
        None \<Rightarrow> Inl (Invalid ''intervention'') | Some r \<Rightarrow> interventionFromRow env r)"

definition getDagActorIntervention :: "js_env \<Rightarrow> string \<Rightarrow> ('m) intervention_db_scheme
    \<Rightarrow> intervention_conflict err + dag_intervention option" where
  "getDagActorIntervention env rawId db =
     bindE (assertPrintable 256 rawId ''intervention_id'') (\<lambda>interventionId.
     optE (interventionFromRow env) (interventionRowById db interventionId))"

definition findDagActorInterventionByKey :: "js_env \<Rightarrow> string \<Rightarrow> string \<Rightarrow> string \<Rightarrow> ('m) intervention_db_scheme
    \<Rightarrow> intervention_conflict err + dag_intervention option" where
  "findDagActorInterventionByKey env rawRun rawActor rawKey db =
     bindE (assertPrintable 256 rawRun ''run_id'') (\<lambda>runId.
     bindE (assertPrintable 256 rawActor ''actor_id'') (\<lambda>actorId.
     bindE (assertPrintable 256 rawKey ''idempotency_key'') (\<lambda>key.
     optE (interventionFromRow env) (interventionRowByKey db runId actorId key))))"

record list_interventions_input =
  li_run_id :: string
  li_actor_id :: "string option"
  li_status :: "intervention_status option"
  li_limit :: "jsnum option"

definition checkedLimit :: "jsnum option \<Rightarrow> int \<Rightarrow> int \<Rightarrow> 'c err + nat" where
  "checkedLimit value default_limit maximum =
     (let limit = (case value of None \<Rightarrow> num_of_int default_limit | Some n \<Rightarrow> n)
      in throwIf (\<not> is_safe_integer limit \<or> num_int limit < 1 \<or> maximum < num_int limit) (Invalid ''limit'')
           (Inr (nat (num_int limit))))"

definition listDagActorInterventions :: "js_env \<Rightarrow> list_interventions_input \<Rightarrow> ('m) intervention_db_scheme
    \<Rightarrow> intervention_conflict err + dag_intervention list" where
  "listDagActorInterventions env input db =
     bindE (assertPrintable 256 (li_run_id input) ''run_id'') (\<lambda>runId.
     bindE (optE (\<lambda>a. assertPrintable 256 a ''actor_id'') (li_actor_id input)) (\<lambda>actorId.
     bindE (checkedLimit (li_limit input) 100 500) (\<lambda>limit.
     mapE (interventionFromRow env)
       (take limit (rev (sort_key (\<lambda>r. (iv_created_at r, iv_intervention_id r))
         (filter (\<lambda>r. iv_run_id r = runId \<and> opt_matches actorId (iv_actor_id r) \<and> opt_matches (li_status input) (iv_status r))
            (db_interventions db))))))))"

section \<open>The life of an intervention\<close>

record create_intervention_input =
  ci_intervention_id :: string
  ci_run_id :: string
  ci_actor_id :: string
  ci_operation :: intervention_operation
  ci_instruction :: "string option"
  ci_expected_generation :: jsnum
  ci_expected_version :: jsnum
  ci_idempotency_key :: string
  ci_checkpoint_version :: "jsnum option"
  ci_created_at :: "jsnum option"

record 'm intervention_result =
  ir_db :: 'm
  ir_intervention :: dag_intervention
  ir_changed :: bool
  ir_deduplicated :: bool

definition intervention_done :: "'m \<Rightarrow> bool \<Rightarrow> dag_intervention \<Rightarrow> intervention_conflict err + 'm intervention_result" where
  "intervention_done db changed i = Inr \<lparr>ir_db = db, ir_intervention = i, ir_changed = changed, ir_deduplicated = \<not> changed\<rparr>"

text \<open>The row that a creation with these arguments inserts; \<open>sameIntervention\<close> compares its identity with a stored row.\<close>

definition sameIntervention :: "intervention_row \<Rightarrow> intervention_row \<Rightarrow> bool" where
  "sameIntervention row input \<longleftrightarrow>
     iv_intervention_id row = iv_intervention_id input
     \<and> iv_run_id row = iv_run_id input
     \<and> iv_actor_id row = iv_actor_id input
     \<and> iv_operation row = iv_operation input
     \<and> iv_idempotency_key row = iv_idempotency_key input
     \<and> iv_payload_digest row = iv_payload_digest input
     \<and> iv_expected_generation row = iv_expected_generation input
     \<and> iv_expected_version row = iv_expected_version input
     \<and> iv_checkpoint_version row = iv_checkpoint_version input"

text \<open>
  The checks before the transaction. \<open>DAG_ACTOR_INTERVENTION_OPERATIONS.includes\<close> holds for
  every value of the type.
\<close>

definition newIntervention :: "js_env \<Rightarrow> int \<Rightarrow> create_intervention_input \<Rightarrow> intervention_conflict err + intervention_row" where
  "newIntervention env clock input =
     bindE (assertPrintable 256 (ci_intervention_id input) ''intervention_id'') (\<lambda>interventionId.
     bindE (assertPrintable 256 (ci_run_id input) ''run_id'') (\<lambda>runId.
     bindE (assertPrintable 256 (ci_actor_id input) ''actor_id'') (\<lambda>actorId.
     bindE (normalizeInstruction (ci_instruction input)) (\<lambda>instruction.
     bindE (positiveSafeInteger (ci_expected_generation input) ''expected_actor_generation'') (\<lambda>expectedGeneration.
     bindE (positiveSafeInteger (ci_expected_version input) ''expected_actor_version'') (\<lambda>expectedVersion.
     bindE (assertPrintable 256 (ci_idempotency_key input) ''idempotency_key'') (\<lambda>key.
     bindE (optE (\<lambda>n. positiveSafeInteger n ''checkpoint_version'') (ci_checkpoint_version input)) (\<lambda>checkpointVersion.
     throwIf (if ci_operation input = Op_checkpoint_fork then checkpointVersion = None else checkpointVersion \<noteq> None)
       (Invalid ''checkpoint_version'')
     (bindE (assertTimestamp (or_clock (ci_created_at input) clock) ''created_at'') (\<lambda>createdAt.
     bindE (encodeBounded env
              (JObj (case instruction of None \<Rightarrow> [] | Some t \<Rightarrow> [(''instruction'', JStr t)])) ''intervention payload'' 65536)
      (\<lambda>(json, digest).
     Inr \<lparr>iv_intervention_id = interventionId, iv_run_id = runId, iv_actor_id = actorId,
          iv_operation = ci_operation input, iv_status = Iv_queued, iv_idempotency_key = key,
          iv_payload_digest = digest, iv_payload_json = json, iv_expected_generation = expectedGeneration,
          iv_expected_version = expectedVersion, iv_checkpoint_version = checkpointVersion,
          iv_from_generation = None, iv_to_generation = None, iv_resulting_version = None,
          iv_created_at = createdAt, iv_started_at = None, iv_completed_at = None, iv_failure_json = None\<rparr>)))))))))))"

definition createDagActorIntervention :: "js_env \<Rightarrow> int \<Rightarrow> create_intervention_input \<Rightarrow> ('m) intervention_db_scheme
    \<Rightarrow> intervention_conflict err + ('m) intervention_db_scheme intervention_result" where
  "createDagActorIntervention env clock input db =
     bindE (newIntervention env clock input) (\<lambda>row.
     case (case interventionRowById db (iv_intervention_id row) of
             Some byId \<Rightarrow> Some byId
           | None \<Rightarrow> interventionRowByKey db (iv_run_id row) (iv_actor_id row) (iv_idempotency_key row)) of
       Some existing \<Rightarrow>
         throwIf (\<not> sameIntervention existing row) (Conflict Intervention_identity_conflict)
           (bindE (interventionFromRow env existing) (\<lambda>i. intervention_done db False i))
     | None \<Rightarrow>
         bindE (requireActor env db (iv_run_id row) (iv_actor_id row)) (\<lambda>actor.
         throwIf (ac_generation actor \<noteq> iv_expected_generation row) (Conflict Intervention_generation_conflict)
         (throwIf (ac_version actor \<noteq> iv_expected_version row) (Conflict Intervention_version_conflict)
         (throwIf (list_ex (\<lambda>r. iv_run_id r = iv_run_id row \<and> iv_actor_id r = iv_actor_id row \<and> intervention_active r)
             (db_interventions db)) (Conflict Intervention_in_progress)
         (bindE (sql_insert interventions_ok row (db_interventions db)) (\<lambda>rows.
            let db' = db\<lparr>db_interventions := rows\<rparr>
            in bindE (reloadIntervention env db' (iv_intervention_id row)) (\<lambda>i. intervention_done db' True i)))))))"

text \<open>The row, or the error that names an unknown intervention.\<close>

definition requireIntervention :: "('m) intervention_db_scheme \<Rightarrow> string \<Rightarrow> intervention_conflict err + intervention_row" where
  "requireIntervention db interventionId =
     (case interventionRowById db interventionId of None \<Rightarrow> Inl (Invalid ''intervention_id'') | Some r \<Rightarrow> Inr r)"

text \<open>The end of an update: exactly one row has changed, and it is read again.\<close>

definition intervention_updated :: "js_env \<Rightarrow> string \<Rightarrow> (intervention_row \<Rightarrow> bool) \<Rightarrow> (intervention_row \<Rightarrow> intervention_row)
    \<Rightarrow> ('m) intervention_db_scheme \<Rightarrow> intervention_conflict err + ('m) intervention_db_scheme intervention_result" where
  "intervention_updated env interventionId P f db =
     bindE (sql_update interventions_ok (\<lambda>r. iv_intervention_id r = interventionId \<and> P r) f (db_interventions db))
      (\<lambda>(rows, changes).
     throwIf (changes \<noteq> 1) (Conflict Intervention_status_conflict)
       (let db' = db\<lparr>db_interventions := rows\<rparr>
        in bindE (reloadIntervention env db' interventionId) (\<lambda>i. intervention_done db' True i)))"

record applying_input =
  ay_intervention_id :: string
  ay_from_generation :: jsnum
  ay_started_at :: "jsnum option"

definition markDagActorInterventionApplying :: "js_env \<Rightarrow> int \<Rightarrow> applying_input \<Rightarrow> ('m) intervention_db_scheme
    \<Rightarrow> intervention_conflict err + ('m) intervention_db_scheme intervention_result" where
  "markDagActorInterventionApplying env clock input db =
     bindE (assertPrintable 256 (ay_intervention_id input) ''intervention_id'') (\<lambda>interventionId.
     bindE (positiveSafeInteger (ay_from_generation input) ''from_generation'') (\<lambda>fromGeneration.
     bindE (assertTimestamp (or_clock (ay_started_at input) clock) ''started_at'') (\<lambda>startedAt.
     bindE (requireIntervention db interventionId) (\<lambda>current.
     if iv_status current = Iv_applying \<and> iv_from_generation current = Some fromGeneration
     then bindE (interventionFromRow env current) (\<lambda>i. intervention_done db False i)
     else throwIf (iv_status current \<noteq> Iv_queued) (Conflict Intervention_status_conflict)
       (intervention_updated env interventionId (\<lambda>r. iv_status r = Iv_queued)
          (\<lambda>r. r\<lparr>iv_status := Iv_applying, iv_started_at := Some startedAt, iv_from_generation := Some fromGeneration\<rparr>) db)))))"

record complete_intervention_input =
  cp_intervention_id :: string
  cp_from_generation :: jsnum
  cp_to_generation :: jsnum
  cp_resulting_version :: jsnum
  cp_completed_at :: "jsnum option"

definition completeDagActorIntervention :: "js_env \<Rightarrow> int \<Rightarrow> complete_intervention_input \<Rightarrow> ('m) intervention_db_scheme
    \<Rightarrow> intervention_conflict err + ('m) intervention_db_scheme intervention_result" where
  "completeDagActorIntervention env clock input db =
     bindE (assertPrintable 256 (cp_intervention_id input) ''intervention_id'') (\<lambda>interventionId.
     bindE (positiveSafeInteger (cp_from_generation input) ''from_generation'') (\<lambda>fromGeneration.
     bindE (positiveSafeInteger (cp_to_generation input) ''to_generation'') (\<lambda>toGeneration.
     bindE (positiveSafeInteger (cp_resulting_version input) ''resulting_actor_version'') (\<lambda>resultingVersion.
     throwIf (toGeneration \<noteq> fromGeneration + 1) (Invalid ''to_generation'')
     (bindE (assertTimestamp (or_clock (cp_completed_at input) clock) ''completed_at'') (\<lambda>completedAt.
     bindE (requireIntervention db interventionId) (\<lambda>current.
     if iv_status current = Iv_applied \<and> iv_from_generation current = Some fromGeneration
        \<and> iv_to_generation current = Some toGeneration \<and> iv_resulting_version current = Some resultingVersion
     then bindE (interventionFromRow env current) (\<lambda>i. intervention_done db False i)
     else throwIf (iv_status current \<noteq> Iv_applying \<or> iv_from_generation current \<noteq> Some fromGeneration)
         (Conflict Intervention_status_conflict)
       (intervention_updated env interventionId (\<lambda>r. iv_status r = Iv_applying \<and> iv_from_generation r = Some fromGeneration)
          (\<lambda>r. r\<lparr>iv_status := Iv_applied, iv_to_generation := Some toGeneration,
                 iv_resulting_version := Some resultingVersion, iv_completed_at := Some completedAt\<rparr>) db))))))))"

record fail_intervention_input =
  fi_intervention_id :: string
  fi_failure :: js
  fi_completed_at :: "jsnum option"

definition failDagActorIntervention :: "js_env \<Rightarrow> int \<Rightarrow> fail_intervention_input \<Rightarrow> ('m) intervention_db_scheme
    \<Rightarrow> intervention_conflict err + ('m) intervention_db_scheme intervention_result" where
  "failDagActorIntervention env clock input db =
     bindE (assertPrintable 256 (fi_intervention_id input) ''intervention_id'') (\<lambda>interventionId.
     bindE (encodeBounded env (fi_failure input) ''intervention failure'' 65536) (\<lambda>(failure, digest).
     bindE (assertTimestamp (or_clock (fi_completed_at input) clock) ''completed_at'') (\<lambda>completedAt.
     bindE (requireIntervention db interventionId) (\<lambda>current.
     if iv_status current = Iv_failed
     then bindE (interventionFromRow env current) (\<lambda>i. intervention_done db False i)
     else throwIf (\<not> intervention_active current) (Conflict Intervention_status_conflict)
       (intervention_updated env interventionId intervention_active
          (\<lambda>r. r\<lparr>iv_status := Iv_failed, iv_completed_at := Some completedAt, iv_failure_json := Some failure\<rparr>) db)))))"

section \<open>Targets to avoid\<close>

record exclusion_input =
  xi_run_id :: string
  xi_actor_id :: string
  xi_node_id :: string
  xi_target_type :: target_kind
  xi_target_id :: string
  xi_intervention_id :: string
  xi_created_at :: "jsnum option"

text \<open>\<open>INSERT \<dots> ON CONFLICT (run_id, node_id) DO UPDATE\<close>.\<close>

definition upsertExclusion :: "exclusion_row \<Rightarrow> exclusion_row list \<Rightarrow> 'c err + exclusion_row list" where
  "upsertExclusion row rows =
     (if list_ex (\<lambda>r. exclusion_key r = exclusion_key row) rows
      then bindE (sql_update exclusions_ok (\<lambda>r. exclusion_key r = exclusion_key row) (\<lambda>_. row) rows) (\<lambda>(rows', n). Inr rows')
      else sql_insert exclusions_ok row rows)"

definition upsertDagActorDispatchExclusion :: "js_env \<Rightarrow> int \<Rightarrow> exclusion_input \<Rightarrow> ('m) intervention_db_scheme
    \<Rightarrow> intervention_conflict err + (('m) intervention_db_scheme \<times> exclusion_row)" where
  "upsertDagActorDispatchExclusion env clock input db =
     bindE (assertPrintable 256 (xi_run_id input) ''run_id'') (\<lambda>runId.
     bindE (assertPrintable 256 (xi_actor_id input) ''actor_id'') (\<lambda>actorId.
     bindE (assertPrintable 256 (xi_node_id input) ''node_id'') (\<lambda>nodeId.
     bindE (assertPrintable 256 (xi_target_id input) ''target_id'') (\<lambda>targetId.
     bindE (assertPrintable 256 (xi_intervention_id input) ''intervention_id'') (\<lambda>interventionId.
     bindE (assertTimestamp (or_clock (xi_created_at input) clock) ''created_at'') (\<lambda>createdAt.
     bindE (getDagActor env db runId actorId) (\<lambda>actor.
     throwIf (case actor of None \<Rightarrow> True | Some a \<Rightarrow> ac_node_id a \<noteq> nodeId) (Invalid ''dispatch identity'')
     (throwIf (case interventionRowById db interventionId of
                 None \<Rightarrow> True
               | Some i \<Rightarrow> iv_run_id i \<noteq> runId \<or> iv_actor_id i \<noteq> actorId \<or> iv_operation i \<noteq> Op_reassign
                   \<or> \<not> (iv_status i = Iv_queued \<or> iv_status i = Iv_applying \<or> iv_status i = Iv_applied))
        (Invalid ''reassign intervention'')
     (let row = \<lparr>ex_run_id = runId, ex_actor_id = actorId, ex_node_id = nodeId, ex_target_type = xi_target_type input,
            ex_target_id = targetId, ex_intervention_id = interventionId, ex_created_at = createdAt\<rparr>
      in bindE (upsertExclusion row (db_exclusions db)) (\<lambda>rows. Inr (db\<lparr>db_exclusions := rows\<rparr>, row)))))))))))"

definition clearDagActorDispatchExclusion :: "string \<Rightarrow> string \<Rightarrow> ('m) intervention_db_scheme
    \<Rightarrow> intervention_conflict err + (('m) intervention_db_scheme \<times> bool)" where
  "clearDagActorDispatchExclusion rawRun rawNode db =
     bindE (assertPrintable 256 rawRun ''run_id'') (\<lambda>runId.
     bindE (assertPrintable 256 rawNode ''node_id'') (\<lambda>nodeId.
     let (rows, changes) = sql_delete (\<lambda>r. ex_run_id r = runId \<and> ex_node_id r = nodeId) (db_exclusions db)
     in Inr (db\<lparr>db_exclusions := rows\<rparr>, 0 < changes)))"

definition listDagActorDispatchExclusions :: "('m) intervention_db_scheme \<Rightarrow> exclusion_row list" where
  "listDagActorDispatchExclusions db = sort_key (\<lambda>r. (ex_created_at r, ex_run_id r, ex_node_id r)) (db_exclusions db)"

section \<open>Snapshots of superseded generations\<close>

record snapshot_input =
  si_run_id :: string
  si_actor_id :: string
  si_generation :: jsnum
  si_node_id :: string
  si_surface_id :: string
  si_document_id :: string
  si_node_revision :: jsnum
  si_document_revision :: jsnum
  si_surface_revision :: jsnum
  si_activity_state :: string
  si_visibility_state :: string
  si_last_event_id :: "string option"
  si_node_snapshot :: js
  si_superseded_by :: jsnum
  si_intervention_id :: string
  si_created_at :: "jsnum option"

definition newSnapshot :: "js_env \<Rightarrow> int \<Rightarrow> snapshot_input \<Rightarrow> intervention_conflict err + snapshot_row" where
  "newSnapshot env clock input =
     bindE (assertPrintable 256 (si_run_id input) ''run_id'') (\<lambda>runId.
     bindE (assertPrintable 256 (si_actor_id input) ''actor_id'') (\<lambda>actorId.
     bindE (positiveSafeInteger (si_generation input) ''generation'') (\<lambda>generation.
     bindE (positiveSafeInteger (si_superseded_by input) ''superseded_by_generation'') (\<lambda>supersededBy.
     throwIf (supersededBy \<noteq> generation + 1) (Invalid ''superseded_by_generation'')
     (bindE (assertPrintable 256 (si_node_id input) ''node_id'') (\<lambda>nodeId.
     bindE (assertPrintable 512 (si_surface_id input) ''surface_id'') (\<lambda>surfaceId.
     bindE (assertPrintable 256 (si_document_id input) ''document_id'') (\<lambda>documentId.
     bindE (assertPrintable 256 (si_intervention_id input) ''intervention_id'') (\<lambda>interventionId.
     bindE (positiveSafeInteger (si_node_revision input) ''node_revision'') (\<lambda>nodeRevision.
     bindE (positiveSafeInteger (si_document_revision input) ''document_revision'') (\<lambda>documentRevision.
     bindE (positiveSafeInteger (si_surface_revision input) ''surface_revision'') (\<lambda>surfaceRevision.
     bindE (optE (\<lambda>e. assertPrintable 256 e ''last_event_id'') (si_last_event_id input)) (\<lambda>lastEventId.
     bindE (assertTimestamp (or_clock (si_created_at input) clock) ''created_at'') (\<lambda>createdAt.
     bindE (encodeBounded env (si_node_snapshot input) ''surface generation snapshot'' 262144) (\<lambda>(json, digest).
     Inr \<lparr>sn_run_id = runId, sn_actor_id = actorId, sn_generation = generation, sn_node_id = nodeId,
          sn_surface_id = surfaceId, sn_document_id = documentId, sn_node_revision = nodeRevision,
          sn_document_revision = documentRevision, sn_surface_revision = surfaceRevision,
          sn_activity_state = si_activity_state input, sn_visibility_state = si_visibility_state input,
          sn_last_event_id = lastEventId, sn_sha256 = digest, sn_json = json, sn_superseded_by = supersededBy,
          sn_intervention_id = interventionId, sn_created_at = createdAt\<rparr>)))))))))))))))"

definition getSnapshotRow :: "('m) intervention_db_scheme \<Rightarrow> string \<Rightarrow> string \<Rightarrow> int \<Rightarrow> snapshot_row option" where
  "getSnapshotRow db runId actorId generation =
     find (\<lambda>r. sn_run_id r = runId \<and> sn_actor_id r = actorId \<and> sn_generation r = generation) (db_snapshots db)"

text \<open>The foreign keys of the row: an actor, and an intervention on that actor.\<close>

definition snapshot_refs :: "('m) intervention_db_scheme \<Rightarrow> snapshot_row \<Rightarrow> bool" where
  "snapshot_refs db r \<longleftrightarrow> getActorRow db (sn_run_id r) (sn_actor_id r) \<noteq> None
     \<and> list_ex (\<lambda>i. iv_intervention_id i = sn_intervention_id r \<and> iv_run_id i = sn_run_id r \<and> iv_actor_id i = sn_actor_id r)
         (db_interventions db)"

definition createDagSurfaceGenerationSnapshot :: "js_env \<Rightarrow> int \<Rightarrow> snapshot_input \<Rightarrow> ('m) intervention_db_scheme
    \<Rightarrow> intervention_conflict err + (('m) intervention_db_scheme \<times> (snapshot_row \<times> js) \<times> bool)" where
  "createDagSurfaceGenerationSnapshot env clock input db =
     bindE (newSnapshot env clock input) (\<lambda>row.
     case getSnapshotRow db (sn_run_id row) (sn_actor_id row) (sn_generation row) of
       Some existing \<Rightarrow>
         throwIf (existing\<lparr>sn_created_at := sn_created_at row\<rparr> \<noteq> row) (Conflict Snapshot_identity_conflict)
           (bindE (snapshotFromRow env existing) (\<lambda>s. Inr (db, s, False)))
     | None \<Rightarrow>
         throwIf (\<not> snapshot_refs db row) SqlConstraint
         (bindE (sql_insert snapshots_ok row (db_snapshots db)) (\<lambda>rows.
            let db' = db\<lparr>db_snapshots := rows\<rparr>
            in bindE (case getSnapshotRow db' (sn_run_id row) (sn_actor_id row) (sn_generation row) of
                        None \<Rightarrow> Inl (Invalid ''snapshot'') | Some r \<Rightarrow> snapshotFromRow env r)
                 (\<lambda>s. Inr (db', s, True)))))"

record list_snapshots_input =
  ls_run_id :: string
  ls_actor_id :: string
  ls_limit :: "jsnum option"

definition listDagSurfaceGenerationSnapshots :: "js_env \<Rightarrow> list_snapshots_input \<Rightarrow> ('m) intervention_db_scheme
    \<Rightarrow> intervention_conflict err + (snapshot_row \<times> js) list" where
  "listDagSurfaceGenerationSnapshots env input db =
     bindE (checkedLimit (ls_limit input) 20 100) (\<lambda>limit.
     bindE (assertPrintable 256 (ls_run_id input) ''run_id'') (\<lambda>runId.
     bindE (assertPrintable 256 (ls_actor_id input) ''actor_id'') (\<lambda>actorId.
     mapE (snapshotFromRow env)
       (take limit (rev (sort_key sn_generation
         (filter (\<lambda>r. sn_run_id r = runId \<and> sn_actor_id r = actorId) (db_snapshots db))))))))"

end
