(* ===== verification/Broker_Mutations.thy ===== *)
theory Broker_Mutations
  imports Interventions
begin

text \<open>
  \<open>persistence/credential-broker-mutations.ts\<close>: the durable record of every call of a credential broker
  that changes something at a provider. An attempt is prepared before anything is sent, dispatched when it
  is handed to the provider, and ends completed, cancelled, failed before its dispatch or reconciled with
  what the provider reports; every change of an attempt appends an event to a log. The constraints are
  those of migration 37 in \<open>persistence/db.ts\<close>; its triggers keep the identity of an attempt and the log
  from being rewritten, which no statement of the module tries. The time is an argument, as the text
  \<open>nowIso\<close> gives.
\<close>

datatype mutation_state =
    Mu_prepared
  | Mu_dispatched
  | Mu_completed
  | Mu_failed_pre_dispatch
  | Mu_cancelled
  | Mu_cancel_requested
  | Mu_indeterminate
  | Mu_reconciled

datatype resolution = Rs_completed | Rs_absent | Rs_failed

datatype broker_conflict = Broker_collision | Broker_transition | Broker_conflict | Broker_terminal

record attempt_row =
  mt_request_id :: string
  mt_idempotency_key :: string
  mt_digest :: string
  mt_target :: string
  mt_source_type :: string
  mt_source_id :: string
  mt_run_id :: string
  mt_node_id :: string
  mt_session_id :: string
  mt_round_id :: string
  mt_actor_id :: "string option"
  mt_generation :: "jsnum option"
  mt_lease_generation :: "jsnum option"
  mt_command_id :: "string option"
  mt_gateway_attempt :: "jsnum option"
  mt_credential_ref :: string
  mt_broker :: string
  mt_action :: string
  mt_state :: mutation_state
  mt_request_json :: string
  mt_provider_json :: "string option"
  mt_result_json :: "string option"
  mt_error :: "string option"
  mt_resolution :: "resolution option"
  mt_created_at :: string
  mt_updated_at :: string

record mutation_event =
  me_sequence :: int
  me_request_id :: string
  me_digest :: string
  me_state :: mutation_state
  me_detail_json :: string
  me_created_at :: string

record broker_db =
  db_attempts :: "attempt_row list"
  db_events :: "mutation_event list"

text \<open>A request is a JavaScript object; an attempt as the module returns it is its row with the decoded documents.\<close>

type_synonym broker_request = "(string \<times> js) list"

record mutation_attempt =
  ma_row :: attempt_row
  ma_request :: broker_request
  ma_provider_state :: "js option"
  ma_result :: "js option"

definition MAX_REQUEST_BYTES :: int where
  "MAX_REQUEST_BYTES = 2200000"

definition MAX_PROVIDER_STATE_BYTES :: int where
  "MAX_PROVIDER_STATE_BYTES = 128 * 1024"

definition MAX_RESULT_BYTES :: int where
  "MAX_RESULT_BYTES = 256 * 1024"

section \<open>Constraints\<close>

definition unresolved_state :: "mutation_state \<Rightarrow> bool" where
  "unresolved_state s \<longleftrightarrow> s = Mu_prepared \<or> s = Mu_dispatched \<or> s = Mu_cancel_requested \<or> s = Mu_indeterminate"

definition sql_opt :: "('a \<Rightarrow> bool) \<Rightarrow> 'a option \<Rightarrow> bool" where
  "sql_opt P v = (case v of None \<Rightarrow> True | Some x \<Rightarrow> P x)"

definition sql_between :: "int \<Rightarrow> int \<Rightarrow> string \<Rightarrow> bool" where
  "sql_between low high s \<longleftrightarrow> low \<le> int (length s) \<and> int (length s) \<le> high"

definition attempt_check :: "attempt_row \<Rightarrow> bool" where
  "attempt_check r \<longleftrightarrow>
     sql_id 256 (mt_request_id r) \<and> sql_id 256 (mt_idempotency_key r) \<and> hex_digest (mt_digest r) \<and> sql_id 1024 (mt_target r)
     \<and> (mt_source_type r = ''worker_actor'' \<or> mt_source_type r = ''manager_gateway'') \<and> sql_id 256 (mt_source_id r)
     \<and> sql_id 256 (mt_run_id r) \<and> sql_id 256 (mt_node_id r) \<and> sql_id 256 (mt_session_id r) \<and> sql_id 256 (mt_round_id r)
     \<and> sql_opt (sql_id 256) (mt_actor_id r)
     \<and> sql_opt (num_le (num_of_int 1)) (mt_generation r) \<and> sql_opt (num_le (num_of_int 1)) (mt_lease_generation r)
     \<and> sql_opt (sql_id 256) (mt_command_id r) \<and> sql_opt (num_le (num_of_int 1)) (mt_gateway_attempt r)
     \<and> sql_id 256 (mt_credential_ref r) \<and> sql_id 128 (mt_broker r) \<and> sql_id 128 (mt_action r)
     \<and> sql_between 2 2200000 (mt_request_json r) \<and> sql_opt (sql_between 2 131072) (mt_provider_json r)
     \<and> sql_opt (sql_between 1 262144) (mt_result_json r) \<and> sql_opt (sql_between 1 1000) (mt_error r)
     \<and> (mt_source_type r = ''worker_actor'' \<and> mt_actor_id r \<noteq> None \<and> mt_generation r \<noteq> None
          \<and> mt_lease_generation r \<noteq> None \<and> mt_gateway_attempt r = None
        \<or> mt_source_type r = ''manager_gateway'' \<and> mt_actor_id r = None \<and> mt_generation r = None
          \<and> mt_lease_generation r = None \<and> mt_command_id r = None \<and> mt_gateway_attempt r \<noteq> None)
     \<and> (mt_state r = Mu_reconciled \<longleftrightarrow> mt_resolution r \<noteq> None)"

definition idempotency_index :: "attempt_row \<Rightarrow> string \<times> string \<times> string \<times> string" where
  "idempotency_index r = (mt_credential_ref r, mt_broker r, mt_action r, mt_idempotency_key r)"

definition target_index :: "attempt_row \<Rightarrow> string \<times> string \<times> string" where
  "target_index r = (mt_credential_ref r, mt_broker r, mt_target r)"

definition unresolved :: "attempt_row \<Rightarrow> bool" where
  "unresolved r \<longleftrightarrow> unresolved_state (mt_state r)"

definition attempts_ok :: "attempt_row list \<Rightarrow> bool" where
  "attempts_ok rows \<longleftrightarrow> list_all attempt_check rows
     \<and> unique_on (\<lambda>_. True) mt_request_id rows
     \<and> unique_on (\<lambda>_. True) idempotency_index rows
     \<and> unique_on unresolved target_index rows"

text \<open>An event refers to an attempt; its sequence number is the next one of the table.\<close>

definition events_ok :: "attempt_row list \<Rightarrow> mutation_event list \<Rightarrow> bool" where
  "events_ok attempts events \<longleftrightarrow> unique_on (\<lambda>_. True) me_sequence events
     \<and> list_all (\<lambda>e. hex_digest (me_digest e) \<and> sql_between 2 32768 (me_detail_json e)
          \<and> list_ex (\<lambda>r. mt_request_id r = me_request_id e) attempts) events"

definition next_sequence :: "mutation_event list \<Rightarrow> int" where
  "next_sequence events = fold max (map me_sequence events) 0 + 1"

section \<open>Documents\<close>

definition boundedJson :: "js_env \<Rightarrow> js \<Rightarrow> int \<Rightarrow> string \<Rightarrow> 'c err + string" where
  "boundedJson env v maxBytes what =
     (case json_stringify (env_num_str env) v of
        None \<Rightarrow> Inl (Invalid what)
      | Some encoded \<Rightarrow> throwIf (maxBytes < int (utf8_length encoded)) (Invalid what) (Inr encoded))"

definition boundedError :: "string option \<Rightarrow> string option" where
  "boundedError v =
     (case v of
        None \<Rightarrow> None
      | Some s \<Rightarrow> (if s = [] then None else Some (take 1000 (map (\<lambda>c. if control_char c then CHR '' '' else c) s))))"

definition parseJsonRow :: "js_env \<Rightarrow> string \<Rightarrow> 'c err + js" where
  "parseJsonRow env text = (case env_json_parse env text of None \<Rightarrow> Inl (Invalid ''JSON'') | Some v \<Rightarrow> Inr v)"

definition request_matches :: "broker_request \<Rightarrow> attempt_row \<Rightarrow> bool" where
  "request_matches request row \<longleftrightarrow>
     obj_get request ''request_id'' = JStr (mt_request_id row)
     \<and> obj_get request ''idempotency_key'' = JStr (mt_idempotency_key row)
     \<and> obj_get request ''transport_kind'' = JStr (mt_source_type row)
     \<and> obj_get request ''run_id'' = JStr (mt_run_id row)
     \<and> obj_get request ''node_id'' = JStr (mt_node_id row)
     \<and> obj_get request ''session_id'' = JStr (mt_session_id row)
     \<and> obj_get request ''round_id'' = JStr (mt_round_id row)
     \<and> obj_get request ''credential_ref'' = JStr (mt_credential_ref row)
     \<and> obj_get request ''broker'' = JStr (mt_broker row)
     \<and> obj_get request ''action'' = JStr (mt_action row)"

definition decodeRow :: "js_env \<Rightarrow> attempt_row \<Rightarrow> 'c err + mutation_attempt" where
  "decodeRow env row =
     bindE (parseJsonRow env (mt_request_json row)) (\<lambda>parsed.
     case parsed of
       JObj request \<Rightarrow>
         throwIf (\<not> request_matches request row) (Invalid ''persisted attempt'')
         (bindE (optE (parseJsonRow env) (mt_provider_json row)) (\<lambda>providerState.
          bindE (optE (parseJsonRow env) (mt_result_json row)) (\<lambda>result.
          Inr \<lparr>ma_row = row, ma_request = request, ma_provider_state = providerState, ma_result = result\<rparr>)))
     | _ \<Rightarrow> Inl (Invalid ''persisted attempt''))"

section \<open>Reads\<close>

definition rowByRequestId :: "('m) broker_db_scheme \<Rightarrow> string \<Rightarrow> attempt_row option" where
  "rowByRequestId db requestId = find (\<lambda>r. mt_request_id r = requestId) (db_attempts db)"

definition getCredentialBrokerMutationAttempt :: "js_env \<Rightarrow> string \<Rightarrow> ('m) broker_db_scheme \<Rightarrow> broker_conflict err + mutation_attempt option" where
  "getCredentialBrokerMutationAttempt env requestId db = optE (decodeRow env) (rowByRequestId db requestId)"

text \<open>\<open>Math.max(1, Math.min(256, Math.floor(limit)))\<close>; a limit that is not a number is refused by the statement.\<close>

definition clamped_limit :: "jsnum \<Rightarrow> nat option" where
  "clamped_limit limit =
     (case limit of
        Fin q \<Rightarrow> Some (nat (max 1 (min 256 (floor q))))
      | PosInf \<Rightarrow> Some 256
      | NegInf \<Rightarrow> Some 1
      | NaN \<Rightarrow> None)"

definition attempt_order :: "attempt_row \<Rightarrow> string \<times> string" where
  "attempt_order r = (mt_created_at r, mt_request_id r)"

definition listUnresolvedCredentialBrokerMutations :: "js_env \<Rightarrow> jsnum option \<Rightarrow> ('m) broker_db_scheme
    \<Rightarrow> broker_conflict err + mutation_attempt list" where
  "listUnresolvedCredentialBrokerMutations env limit db =
     (case clamped_limit (case limit of None \<Rightarrow> num_of_int 64 | Some n \<Rightarrow> n) of
        None \<Rightarrow> Inl (Invalid ''limit'')
      | Some bound \<Rightarrow> mapE (decodeRow env) (take bound (sort_key attempt_order (filter unresolved (db_attempts db)))))"

record gateway_fence =
  gf_run_id :: string
  gf_node_id :: string
  gf_session_id :: string
  gf_round_id :: string
  gf_gateway_attempt :: jsnum

definition completed_row :: "attempt_row \<Rightarrow> bool" where
  "completed_row r \<longleftrightarrow> mt_state r = Mu_completed \<or> mt_state r = Mu_reconciled \<and> mt_resolution r = Some Rs_completed"

definition gateway_row :: "gateway_fence \<Rightarrow> attempt_row \<Rightarrow> bool" where
  "gateway_row fence r \<longleftrightarrow> mt_source_type r = ''manager_gateway'' \<and> mt_run_id r = gf_run_id fence \<and> mt_node_id r = gf_node_id fence
     \<and> mt_session_id r = gf_session_id fence \<and> mt_round_id r = gf_round_id fence
     \<and> sql_opt (num_eq (gf_gateway_attempt fence)) (mt_gateway_attempt r) \<and> mt_gateway_attempt r \<noteq> None"

definition findCompletedManagerGatewayMutation :: "js_env \<Rightarrow> gateway_fence \<Rightarrow> ('m) broker_db_scheme
    \<Rightarrow> broker_conflict err + mutation_attempt option" where
  "findCompletedManagerGatewayMutation env fence db =
     optE (decodeRow env) (find (\<lambda>_. True) (rev (sort_key (\<lambda>r. (mt_updated_at r, mt_request_id r))
       (filter (\<lambda>r. gateway_row fence r \<and> completed_row r) (db_attempts db)))))"

section \<open>Preparation\<close>

record prepare_input =
  pi_request :: broker_request
  pi_digest :: string
  pi_target :: string
  pi_source_id :: string

datatype prepare_status = Pr_created | Pr_duplicate | Pr_blocked

text \<open>
  Values bound to a statement. An \<open>undefined\<close> or null column is NULL, which a required text refuses; a number
  that is not one is bound as NULL; a boolean, an object or an array is refused. The request's types
  exclude a number in a text column and a text in a number column.
\<close>

definition bind_text :: "js \<Rightarrow> 'c err + string" where
  "bind_text v = (case v of JStr s \<Rightarrow> Inr s | _ \<Rightarrow> Inl SqlConstraint)"

definition bind_opt_text :: "js \<Rightarrow> 'c err + string option" where
  "bind_opt_text v = (case v of JUndef \<Rightarrow> Inr None | JNull \<Rightarrow> Inr None | JStr s \<Rightarrow> Inr (Some s) | _ \<Rightarrow> Inl SqlConstraint)"

definition bind_opt_num :: "js \<Rightarrow> 'c err + jsnum option" where
  "bind_opt_num v =
     (case v of
        JUndef \<Rightarrow> Inr None
      | JNull \<Rightarrow> Inr None
      | JNum n \<Rightarrow> Inr (if n = NaN then None else Some n)
      | _ \<Rightarrow> Inl SqlConstraint)"

definition newAttemptRow :: "string \<Rightarrow> string \<Rightarrow> prepare_input \<Rightarrow> 'c err + attempt_row" where
  "newAttemptRow now requestJson input =
     (let text = (\<lambda>k. bind_text (obj_get (pi_request input) k))
      in bindE (text ''request_id'') (\<lambda>requestId.
         bindE (text ''idempotency_key'') (\<lambda>key.
         bindE (text ''transport_kind'') (\<lambda>sourceType.
         bindE (text ''run_id'') (\<lambda>runId.
         bindE (text ''node_id'') (\<lambda>nodeId.
         bindE (text ''session_id'') (\<lambda>sessionId.
         bindE (text ''round_id'') (\<lambda>roundId.
         bindE (bind_opt_text (obj_get (pi_request input) ''actor_id'')) (\<lambda>actorId.
         bindE (bind_opt_num (obj_get (pi_request input) ''generation'')) (\<lambda>generation.
         bindE (bind_opt_num (obj_get (pi_request input) ''lease_generation'')) (\<lambda>leaseGeneration.
         bindE (bind_opt_text (obj_get (pi_request input) ''command_id'')) (\<lambda>commandId.
         bindE (bind_opt_num (obj_get (pi_request input) ''gateway_attempt'')) (\<lambda>gatewayAttempt.
         bindE (text ''credential_ref'') (\<lambda>credentialRef.
         bindE (text ''broker'') (\<lambda>broker.
         bindE (text ''action'') (\<lambda>action.
         Inr \<lparr>mt_request_id = requestId, mt_idempotency_key = key, mt_digest = pi_digest input, mt_target = pi_target input,
              mt_source_type = sourceType, mt_source_id = pi_source_id input, mt_run_id = runId, mt_node_id = nodeId,
              mt_session_id = sessionId, mt_round_id = roundId, mt_actor_id = actorId, mt_generation = generation,
              mt_lease_generation = leaseGeneration, mt_command_id = commandId, mt_gateway_attempt = gatewayAttempt,
              mt_credential_ref = credentialRef, mt_broker = broker, mt_action = action, mt_state = Mu_prepared,
              mt_request_json = requestJson, mt_provider_json = None, mt_result_json = None, mt_error = None,
              mt_resolution = None, mt_created_at = now, mt_updated_at = now\<rparr>))))))))))))))))"

definition appendEvent :: "js_env \<Rightarrow> string \<Rightarrow> string \<Rightarrow> string \<Rightarrow> mutation_state \<Rightarrow> js \<Rightarrow> ('m) broker_db_scheme
    \<Rightarrow> broker_conflict err + ('m) broker_db_scheme" where
  "appendEvent env now requestId digest s detail db =
     bindE (boundedJson env detail (32 * 1024) ''event'') (\<lambda>json.
     bindE (sql_insert (events_ok (db_attempts db))
        \<lparr>me_sequence = next_sequence (db_events db), me_request_id = requestId, me_digest = digest, me_state = s,
         me_detail_json = json, me_created_at = now\<rparr> (db_events db)) (\<lambda>events.
     Inr (db\<lparr>db_events := events\<rparr>)))"

definition readAttempt :: "js_env \<Rightarrow> string \<Rightarrow> ('m) broker_db_scheme \<Rightarrow> broker_conflict err + mutation_attempt" where
  "readAttempt env requestId db =
     (case rowByRequestId db requestId of None \<Rightarrow> Inl (Invalid ''attempt'') | Some row \<Rightarrow> decodeRow env row)"

text \<open>\<open>WHERE column = ?\<close> for a column that is never NULL.\<close>

definition same_text :: "js \<Rightarrow> string \<Rightarrow> bool" where
  "same_text v s \<longleftrightarrow> v = JStr s"

definition rowByIdempotency :: "('m) broker_db_scheme \<Rightarrow> broker_request \<Rightarrow> attempt_row option" where
  "rowByIdempotency db request =
     find (\<lambda>r. same_text (obj_get request ''credential_ref'') (mt_credential_ref r) \<and> same_text (obj_get request ''broker'') (mt_broker r)
         \<and> same_text (obj_get request ''action'') (mt_action r) \<and> same_text (obj_get request ''idempotency_key'') (mt_idempotency_key r))
       (db_attempts db)"

definition unresolvedTarget :: "('m) broker_db_scheme \<Rightarrow> broker_request \<Rightarrow> string \<Rightarrow> attempt_row option" where
  "unresolvedTarget db request target =
     find (\<lambda>_. True) (sort_key attempt_order (filter (\<lambda>r. same_text (obj_get request ''credential_ref'') (mt_credential_ref r)
         \<and> same_text (obj_get request ''broker'') (mt_broker r) \<and> mt_target r = target \<and> unresolved r) (db_attempts db)))"

definition prepareCredentialBrokerMutation :: "js_env \<Rightarrow> string \<Rightarrow> prepare_input \<Rightarrow> ('m) broker_db_scheme
    \<Rightarrow> broker_conflict err + (('m) broker_db_scheme \<times> prepare_status \<times> mutation_attempt)" where
  "prepareCredentialBrokerMutation env now input db =
     throwIf (\<not> hex_digest (pi_digest input)) (Invalid ''request_digest'')
     (throwIf (pi_target input = [] \<or> 1024 < length (pi_target input)) (Invalid ''semantic_target'')
     (throwIf (pi_source_id input = [] \<or> 256 < length (pi_source_id input)) (Invalid ''source_id'')
     (bindE (boundedJson env (JObj (pi_request input)) MAX_REQUEST_BYTES ''request'') (\<lambda>requestJson.
      bindE (bind_text (obj_get (pi_request input) ''request_id'')) (\<lambda>requestId.
      case (case rowByRequestId db requestId of Some r \<Rightarrow> Some r | None \<Rightarrow> rowByIdempotency db (pi_request input)) of
        Some existing \<Rightarrow>
          throwIf (mt_request_id existing \<noteq> requestId
              \<or> mt_digest existing \<noteq> pi_digest input
              \<or> \<not> same_text (obj_get (pi_request input) ''idempotency_key'') (mt_idempotency_key existing))
            (Conflict Broker_collision)
            (bindE (decodeRow env existing) (\<lambda>attempt. Inr (db, Pr_duplicate, attempt)))
      | None \<Rightarrow> (case unresolvedTarget db (pi_request input) (pi_target input) of
            Some blocking \<Rightarrow> bindE (decodeRow env blocking) (\<lambda>attempt. Inr (db, Pr_blocked, attempt))
          | None \<Rightarrow>
              bindE (newAttemptRow now requestJson input) (\<lambda>row.
              bindE (sql_insert attempts_ok row (db_attempts db)) (\<lambda>rows.
              bindE (appendEvent env now requestId (pi_digest input) Mu_prepared
                  (JObj [(''source_type'', obj_get (pi_request input) ''transport_kind''), (''semantic_target'', JStr (pi_target input))])
                  (db\<lparr>db_attempts := rows\<rparr>)) (\<lambda>db'.
              bindE (readAttempt env requestId db') (\<lambda>attempt. Inr (db', Pr_created, attempt)))))))))))"

section \<open>Transitions\<close>

record transition_options =
  ox_result :: js
  ox_error :: "string option"
  ox_resolution :: "resolution option"

text \<open>No caller passes the \<open>detail\<close> of the event; an absent result is \<open>undefined\<close>.\<close>

fun resolution_text :: "resolution \<Rightarrow> string" where
  "resolution_text Rs_completed = ''completed''"
| "resolution_text Rs_absent = ''absent''"
| "resolution_text Rs_failed = ''failed''"

definition event_detail :: "resolution option \<Rightarrow> js" where
  "event_detail r = JObj (case r of None \<Rightarrow> [] | Some x \<Rightarrow> [(''resolution'', JStr (resolution_text x))])"

definition or_else :: "'a option \<Rightarrow> 'a option \<Rightarrow> 'a option" where
  "or_else a b = (case a of None \<Rightarrow> b | Some x \<Rightarrow> Some x)"

definition transition :: "js_env \<Rightarrow> string \<Rightarrow> string \<Rightarrow> mutation_state list \<Rightarrow> mutation_state \<Rightarrow> transition_options
    \<Rightarrow> ('m) broker_db_scheme \<Rightarrow> broker_conflict err + (('m) broker_db_scheme \<times> mutation_attempt)" where
  "transition env now requestId from to options db =
     (case rowByRequestId db requestId of
        None \<Rightarrow> Inl (Invalid ''unknown attempt'')
      | Some existing \<Rightarrow>
          if mt_state existing \<notin> set from
          then (if mt_state existing = to then bindE (decodeRow env existing) (\<lambda>a. Inr (db, a)) else Inl (Conflict Broker_transition))
          else
            bindE (if ox_result options = JUndef then Inr (mt_result_json existing)
                   else bindE (boundedJson env (ox_result options) MAX_RESULT_BYTES ''result'') (\<lambda>json. Inr (Some json))) (\<lambda>resultJson.
            bindE (sql_update attempts_ok (\<lambda>r. mt_request_id r = requestId \<and> mt_state r \<in> set from)
                (\<lambda>r. r\<lparr>mt_state := to, mt_result_json := resultJson,
                       mt_error := or_else (boundedError (ox_error options)) (mt_error existing),
                       mt_resolution := or_else (ox_resolution options) (mt_resolution existing), mt_updated_at := now\<rparr>)
                (db_attempts db)) (\<lambda>(rows, changes).
            throwIf (changes \<noteq> 1) (Conflict Broker_conflict)
            (bindE (appendEvent env now requestId (mt_digest existing) to (event_detail (ox_resolution options)) (db\<lparr>db_attempts := rows\<rparr>)) (\<lambda>db'.
             bindE (readAttempt env requestId db') (\<lambda>a. Inr (db', a)))))))"

definition no_options :: transition_options where
  "no_options = \<lparr>ox_result = JUndef, ox_error = None, ox_resolution = None\<rparr>"

definition dispatchCredentialBrokerMutation :: "js_env \<Rightarrow> string \<Rightarrow> string \<Rightarrow> ('m) broker_db_scheme
    \<Rightarrow> broker_conflict err + (('m) broker_db_scheme \<times> mutation_attempt)" where
  "dispatchCredentialBrokerMutation env now requestId = transition env now requestId [Mu_prepared] Mu_dispatched no_options"

definition completeCredentialBrokerMutation :: "js_env \<Rightarrow> string \<Rightarrow> string \<Rightarrow> js \<Rightarrow> ('m) broker_db_scheme
    \<Rightarrow> broker_conflict err + (('m) broker_db_scheme \<times> mutation_attempt)" where
  "completeCredentialBrokerMutation env now requestId result =
     transition env now requestId [Mu_dispatched] Mu_completed (no_options\<lparr>ox_result := result\<rparr>)"

definition failCredentialBrokerMutationBeforeDispatch :: "js_env \<Rightarrow> string \<Rightarrow> string \<Rightarrow> string \<Rightarrow> ('m) broker_db_scheme
    \<Rightarrow> broker_conflict err + (('m) broker_db_scheme \<times> mutation_attempt)" where
  "failCredentialBrokerMutationBeforeDispatch env now requestId error =
     transition env now requestId [Mu_prepared] Mu_failed_pre_dispatch (no_options\<lparr>ox_error := Some error\<rparr>)"

definition cancelCredentialBrokerMutationAttempt :: "js_env \<Rightarrow> string \<Rightarrow> string \<Rightarrow> string \<Rightarrow> ('m) broker_db_scheme
    \<Rightarrow> broker_conflict err + (('m) broker_db_scheme \<times> mutation_attempt)" where
  "cancelCredentialBrokerMutationAttempt env now requestId reason db =
     bindE (getCredentialBrokerMutationAttempt env requestId db) (\<lambda>found.
     case found of
       None \<Rightarrow> Inl (Invalid ''unknown attempt'')
     | Some existing \<Rightarrow>
         if mt_state (ma_row existing) = Mu_prepared
         then transition env now requestId [Mu_prepared] Mu_cancelled (no_options\<lparr>ox_error := Some reason\<rparr>) db
         else if mt_state (ma_row existing) = Mu_dispatched
         then transition env now requestId [Mu_dispatched] Mu_cancel_requested (no_options\<lparr>ox_error := Some reason\<rparr>) db
         else Inr (db, existing))"

definition markCredentialBrokerMutationIndeterminate :: "js_env \<Rightarrow> string \<Rightarrow> string \<Rightarrow> string \<Rightarrow> ('m) broker_db_scheme
    \<Rightarrow> broker_conflict err + (('m) broker_db_scheme \<times> mutation_attempt)" where
  "markCredentialBrokerMutationIndeterminate env now requestId error =
     transition env now requestId [Mu_dispatched, Mu_cancel_requested] Mu_indeterminate (no_options\<lparr>ox_error := Some error\<rparr>)"

definition reconcileCredentialBrokerMutation :: "js_env \<Rightarrow> string \<Rightarrow> string \<Rightarrow> resolution \<Rightarrow> js \<Rightarrow> string option
    \<Rightarrow> ('m) broker_db_scheme \<Rightarrow> broker_conflict err + (('m) broker_db_scheme \<times> mutation_attempt)" where
  "reconcileCredentialBrokerMutation env now requestId resolution result error =
     transition env now requestId [Mu_dispatched, Mu_cancel_requested, Mu_indeterminate] Mu_reconciled
       \<lparr>ox_result = result, ox_error = error, ox_resolution = Some resolution\<rparr>"

section \<open>Checkpoints\<close>

text \<open>Array indices come first among the keys of an object; \<open>{...value}\<close> of an array or a string has one member per index.\<close>

definition key_order :: "string \<Rightarrow> int \<times> int" where
  "key_order k = (if array_index k then (0, decimal 0 k) else (1, 0))"

fun member_put :: "string \<Rightarrow> js \<Rightarrow> (string \<times> js) list \<Rightarrow> (string \<times> js) list" where
  "member_put k v [] = [(k, v)]"
| "member_put k v ((l, w) # kvs) = (if l = k then (k, v) # kvs else (l, w) # member_put k v kvs)"

definition obj_assign :: "(string \<times> js) list \<Rightarrow> (string \<times> js) list \<Rightarrow> (string \<times> js) list" where
  "obj_assign target source = sort_key (\<lambda>(k, v). key_order k) (fold (\<lambda>(k, v). member_put k v) source target)"

definition own_members :: "js_env \<Rightarrow> js \<Rightarrow> (string \<times> js) list" where
  "own_members env v =
     (let indexed = (\<lambda>vs. map (\<lambda>i. (env_num_str env (num_of_int (int i)), vs ! i)) [0..<length vs])
      in case v of
           JObj kvs \<Rightarrow> kvs
         | JArr vs \<Rightarrow> indexed vs
         | JStr s \<Rightarrow> indexed (map (\<lambda>c. JStr [c]) s)
         | _ \<Rightarrow> [])"

definition checkpointCredentialBrokerMutation :: "js_env \<Rightarrow> string \<Rightarrow> string \<Rightarrow> (string \<times> js) list \<Rightarrow> ('m) broker_db_scheme
    \<Rightarrow> broker_conflict err + (('m) broker_db_scheme \<times> mutation_attempt)" where
  "checkpointCredentialBrokerMutation env now requestId patch db =
     (case rowByRequestId db requestId of
        None \<Rightarrow> Inl (Invalid ''unknown attempt'')
      | Some existing \<Rightarrow>
          throwIf (\<not> unresolved existing) (Conflict Broker_terminal)
          (bindE (case mt_provider_json existing of None \<Rightarrow> Inr (JObj []) | Some text \<Rightarrow> parseJsonRow env text) (\<lambda>current.
           bindE (boundedJson env (JObj (obj_assign (own_members env current) patch)) MAX_PROVIDER_STATE_BYTES ''provider_state'') (\<lambda>json.
           bindE (sql_update attempts_ok (\<lambda>r. mt_request_id r = requestId \<and> mt_state r = mt_state existing)
               (\<lambda>r. r\<lparr>mt_provider_json := Some json, mt_updated_at := now\<rparr>) (db_attempts db)) (\<lambda>(rows, changes).
           throwIf (changes \<noteq> 1) (Conflict Broker_conflict)
           (bindE (appendEvent env now requestId (mt_digest existing) (mt_state existing)
               (JObj [(''checkpoint_fields'', JArr (map JStr (sort (map fst patch))))]) (db\<lparr>db_attempts := rows\<rparr>)) (\<lambda>db'.
            bindE (readAttempt env requestId db') (\<lambda>a. Inr (db', a)))))))))"

section \<open>The store as a transition system\<close>

text \<open>What the other modules may do to the store: the exported operations, whole transactions each.\<close>

datatype broker_op =
    Op_prepare prepare_input
  | Op_dispatch string
  | Op_complete string js
  | Op_fail_before string string
  | Op_cancel string string
  | Op_indeterminate string string
  | Op_reconcile string resolution js "string option"
  | Op_checkpoint string "(string \<times> js) list"

definition attempt_only :: "'e + ('s \<times> mutation_attempt) \<Rightarrow> 'e + 's" where
  "attempt_only r = bindE r (\<lambda>(s, a). Inr s)"

fun run_op :: "js_env \<Rightarrow> string \<Rightarrow> broker_op \<Rightarrow> ('m) broker_db_scheme \<Rightarrow> broker_conflict err + ('m) broker_db_scheme" where
  "run_op env now (Op_prepare input) db = bindE (prepareCredentialBrokerMutation env now input db) (\<lambda>(db', s, a). Inr db')"
| "run_op env now (Op_dispatch r) db = attempt_only (dispatchCredentialBrokerMutation env now r db)"
| "run_op env now (Op_complete r v) db = attempt_only (completeCredentialBrokerMutation env now r v db)"
| "run_op env now (Op_fail_before r e) db = attempt_only (failCredentialBrokerMutationBeforeDispatch env now r e db)"
| "run_op env now (Op_cancel r e) db = attempt_only (cancelCredentialBrokerMutationAttempt env now r e db)"
| "run_op env now (Op_indeterminate r e) db = attempt_only (markCredentialBrokerMutationIndeterminate env now r e db)"
| "run_op env now (Op_reconcile r x v e) db = attempt_only (reconcileCredentialBrokerMutation env now r x v e db)"
| "run_op env now (Op_checkpoint r p) db = attempt_only (checkpointCredentialBrokerMutation env now r p db)"

definition broker_init :: "('m) broker_db_scheme \<Rightarrow> bool" where
  "broker_init db \<longleftrightarrow> db_attempts db = [] \<and> db_events db = []"

definition broker_step :: "js_env \<Rightarrow> ('m) broker_db_scheme \<Rightarrow> ('m) broker_db_scheme \<Rightarrow> bool" where
  "broker_step env db db' \<longleftrightarrow> (\<exists>now op. run_op env now op db = Inr db')"

end
