(* ===== verification/Effects.thy ===== *)
theory Effects
  imports Prelude
begin

text \<open>
  Operations that run several transactions, or change what the process keeps in memory, before they may
  throw: a state goes in and comes out in every case, next to the error or the result. A transaction that
  throws leaves its state as it was.
\<close>

type_synonym ('s, 'e, 'a) eff = "'s \<Rightarrow> 's \<times> ('e + 'a)"

definition retS :: "'a \<Rightarrow> ('s, 'e, 'a) eff" where
  "retS a s = (s, Inr a)"

definition raiseS :: "'e \<Rightarrow> ('s, 'e, 'a) eff" where
  "raiseS e s = (s, Inl e)"

definition thenS :: "('s, 'e, 'a) eff \<Rightarrow> ('a \<Rightarrow> ('s, 'e, 'b) eff) \<Rightarrow> ('s, 'e, 'b) eff" where
  "thenS m f s = (case m s of (s', Inl e) \<Rightarrow> (s', Inl e) | (s', Inr a) \<Rightarrow> f a s')"

definition readS :: "('s \<Rightarrow> 'e + 'a) \<Rightarrow> ('s, 'e, 'a) eff" where
  "readS r s = (s, r s)"

definition transactS :: "('s \<Rightarrow> 'e + ('s \<times> 'a)) \<Rightarrow> ('s, 'e, 'a) eff" where
  "transactS t s = (case t s of Inl e \<Rightarrow> (s, Inl e) | Inr (s', a) \<Rightarrow> (s', Inr a))"

definition catchS :: "('s, 'e, 'a) eff \<Rightarrow> ('e \<Rightarrow> ('s, 'f, 'a) eff) \<Rightarrow> ('s, 'f, 'a) eff" where
  "catchS m h s = (case m s of (s', Inl e) \<Rightarrow> h e s' | (s', Inr a) \<Rightarrow> (s', Inr a))"

text \<open>The operation on every element in turn, until one throws.\<close>

fun eachS :: "('a \<Rightarrow> ('s, 'e, 'b) eff) \<Rightarrow> 'a list \<Rightarrow> ('s, 'e, 'b list) eff" where
  "eachS f [] = retS []"
| "eachS f (x # xs) = thenS (f x) (\<lambda>y. thenS (eachS f xs) (\<lambda>ys. retS (y # ys)))"

named_theorems eff_inv \<comment> \<open>inversion of an operation that returned\<close>

lemma retS_iff [eff_inv]: "retS a s = (t, r) \<longleftrightarrow> t = s \<and> r = Inr a"
  by (auto simp: retS_def)

lemma raiseS_iff [eff_inv]: "raiseS e s = (t, r) \<longleftrightarrow> t = s \<and> r = Inl e"
  by (auto simp: raiseS_def)

lemma thenS_Inr [eff_inv]: "thenS m f s = (u, Inr b) \<longleftrightarrow> (\<exists>t a. m s = (t, Inr a) \<and> f a t = (u, Inr b))"
  by (auto simp: thenS_def split: prod.split sum.split)

lemma readS_Inr [eff_inv]: "readS r s = (t, Inr a) \<longleftrightarrow> t = s \<and> r s = Inr a"
  by (auto simp: readS_def)

lemma transactS_Inr [eff_inv]: "transactS t s = (u, Inr a) \<longleftrightarrow> t s = Inr (u, a)"
  by (auto simp: transactS_def split: sum.split)

lemma catchS_Inr [eff_inv]: "catchS m h s = (u, Inr a) \<longleftrightarrow> m s = (u, Inr a) \<or> (\<exists>t e. m s = (t, Inl e) \<and> h e t = (u, Inr a))"
  by (auto simp: catchS_def split: prod.split sum.split)

lemma thenS_apply [simp]: "m s = (t, Inr a) \<Longrightarrow> thenS m f s = f a t" "m s = (t, Inl e) \<Longrightarrow> thenS m f s = (t, Inl e)"
  by (simp_all add: thenS_def)

lemma eff_apply [simp]: "readS r s = (s, r s)" "retS a s = (s, Inr a)" "raiseS e s = (s, Inl e)"
  by (simp_all add: readS_def retS_def raiseS_def)

lemma transactS_apply [simp]: "t s = Inr (s', a) \<Longrightarrow> transactS t s = (s', Inr a)" "t s = Inl e \<Longrightarrow> transactS t s = (s, Inl e)"
  by (simp_all add: transactS_def)

text \<open>What an operation may do to the state, whether it throws or not: a reflexive and transitive relation.\<close>

definition stays :: "('s \<Rightarrow> 's \<Rightarrow> bool) \<Rightarrow> ('s, 'e, 'a) eff \<Rightarrow> bool" where
  "stays R m \<longleftrightarrow> (\<forall>s. R\<^sup>*\<^sup>* s (fst (m s)))"

named_theorems stays_intro \<comment> \<open>operations that stay within a relation\<close>

lemma staysD: "stays R m \<Longrightarrow> m s = (t, r) \<Longrightarrow> R\<^sup>*\<^sup>* s t"
  by (metis stays_def fst_conv)

lemma stays_pure [stays_intro]: "stays R (retS a)" "stays R (raiseS e)" "stays R (readS r)"
  by (simp_all add: stays_def)

lemma stays_then [stays_intro]:
  assumes "stays R m" and "\<And>a. stays R (f a)"
  shows "stays R (thenS m f)"
  unfolding stays_def
proof
  fix s
  obtain t r where m: "m s = (t, r)" by (cases "m s")
  with assms(1) have "R\<^sup>*\<^sup>* s t" by (rule staysD)
  moreover have "R\<^sup>*\<^sup>* t (fst (f a t))" for a using assms(2) by (simp add: stays_def)
  ultimately show "R\<^sup>*\<^sup>* s (fst (thenS m f s))" using m by (cases r) (auto intro: rtranclp_trans)
qed

lemma stays_catch [stays_intro]:
  assumes "stays R m" and "\<And>e. stays R (h e)"
  shows "stays R (catchS m h)"
  unfolding stays_def
proof
  fix s
  obtain t r where m: "m s = (t, r)" by (cases "m s")
  with assms(1) have "R\<^sup>*\<^sup>* s t" by (rule staysD)
  moreover have "R\<^sup>*\<^sup>* t (fst (h e t))" for e using assms(2) by (simp add: stays_def)
  ultimately show "R\<^sup>*\<^sup>* s (fst (catchS m h s))" using m by (cases r) (auto simp: catchS_def intro: rtranclp_trans)
qed

lemma stays_transact [stays_intro]: "(\<And>s s' a. t s = Inr (s', a) \<Longrightarrow> R s s') \<Longrightarrow> stays R (transactS t)"
  by (auto simp: stays_def transactS_def split: sum.split)

lemma stays_each [stays_intro]: "(\<And>x. stays R (f x)) \<Longrightarrow> stays R (eachS f xs)"
  by (induction xs) (auto intro: stays_intro)

lemma stays_cases [stays_intro]:
  "(b \<Longrightarrow> stays R m) \<Longrightarrow> (\<not> b \<Longrightarrow> stays R m') \<Longrightarrow> stays R (if b then m else m')"
  "(v = None \<Longrightarrow> stays R n) \<Longrightarrow> (\<And>a. v = Some a \<Longrightarrow> stays R (f a)) \<Longrightarrow> stays R (case v of None \<Rightarrow> n | Some a \<Rightarrow> f a)"
  by (cases b; simp) (cases v; simp)

end
