(* ===== verification/Broker_Calls.thy ===== *)
theory Broker_Calls
  imports Broker_Mutations Effects
begin

text \<open>
  \<open>runtime/credential-broker.ts\<close>: a call of a credential broker. A call is checked, authorised and
  registered as in flight; a mutation is then prepared, dispatched, handed to the provider and completed,
  each in the durable record of \<open>Broker_Mutations\<close>, and whatever goes wrong is reconciled with the provider.
  An \<open>await\<close> lets other calls run: the functions of the provider take the state and return it as they
  leave it. The audit of credential uses is not part of the state.
\<close>

record in_flight =
  if_request_id :: string
  if_source_id :: string
  if_request :: broker_request
  if_mutation :: bool
  if_aborted :: "string option"

record call_state = broker_db +
  cs_in_flight :: "in_flight list"

type_synonym 'a call_eff = "(call_state, string, 'a) eff"

datatype reconciliation =
    Rc_completed js
  | Rc_absent "string option"
  | Rc_failed "string option"
  | Rc_indeterminate "string option"

text \<open>A registered action; its functions are the provider's.\<close>

record registered =
  rg_mutation :: bool
  rg_max_input :: int
  rg_handler :: "broker_request \<Rightarrow> string list \<Rightarrow> (string \<times> string) option \<Rightarrow> js call_eff"
  rg_target :: "broker_request \<Rightarrow> string + string"
  rg_reconcile :: "(mutation_attempt \<Rightarrow> string list \<Rightarrow> reconciliation call_eff) option"

text \<open>
  What a call finds around it: the registry, the credentials store, the active runs and the nodes of their
  workflows, the texts of errors, the order of \<open>localeCompare\<close>, and the record of successful actions.
\<close>

record broker_world =
  bw_env :: js_env
  bw_now :: "call_state \<Rightarrow> string"
  bw_registry :: "string \<Rightarrow> string \<Rightarrow> registered option"
  bw_secret :: "string \<Rightarrow> string + string list"
  bw_active_run :: "string \<Rightarrow> (string \<Rightarrow> js option) option"
  bw_error_text :: "broker_conflict err \<Rightarrow> string"
  bw_collation :: "string \<Rightarrow> string"
  bw_record_success :: "broker_request \<Rightarrow> js \<Rightarrow> call_state \<Rightarrow> string + unit"

datatype call_outcome = Oc_completed | Oc_failed | Oc_failed_pre_dispatch | Oc_cancelled | Oc_indeterminate | Oc_reconciled

record call_result =
  cr_request_id :: js
  cr_identity :: broker_request
  cr_ok :: bool
  cr_outcome :: call_outcome
  cr_digest :: "string option"
  cr_result :: js
  cr_error :: "string option"
  cr_reconciliation :: "resolution option"

definition dbS :: "broker_world \<Rightarrow> (call_state \<Rightarrow> broker_conflict err + (call_state \<times> 'a)) \<Rightarrow> 'a call_eff" where
  "dbS w t s = (case t s of Inl e \<Rightarrow> (s, Inl (bw_error_text w e)) | Inr (s', a) \<Rightarrow> (s', Inr a))"

text \<open>\<open>try\<close> of one stage: what follows the stage is outside of it.\<close>

definition tryS :: "('s, 'e, 'a) eff \<Rightarrow> ('e \<Rightarrow> ('s, 'f, 'b) eff) \<Rightarrow> ('a \<Rightarrow> ('s, 'f, 'b) eff) \<Rightarrow> ('s, 'f, 'b) eff" where
  "tryS m h k s = (case m s of (s', Inl e) \<Rightarrow> h e s' | (s', Inr a) \<Rightarrow> k a s')"

section \<open>Requests\<close>

definition name_char :: "char \<Rightarrow> bool" where
  "name_char c \<longleftrightarrow> (CHR ''A'' \<le> c \<and> c \<le> CHR ''Z'') \<or> (CHR ''a'' \<le> c \<and> c \<le> CHR ''z'') \<or> (CHR ''0'' \<le> c \<and> c \<le> CHR ''9'')"

text \<open>The pattern of broker and action names.\<close>

definition broker_name :: "js \<Rightarrow> bool" where
  "broker_name v =
     (case v of
        JStr (c # cs) \<Rightarrow> name_char c \<and> length cs \<le> 127
          \<and> list_all (\<lambda>d. name_char d \<or> d = CHR ''.'' \<or> d = CHR ''_'' \<or> d = CHR '':'' \<or> d = CHR ''-'') cs
      | _ \<Rightarrow> False)"

definition valid_text :: "js \<Rightarrow> bool" where
  "valid_text v = (case v of JStr s \<Rightarrow> js_trim s \<noteq> [] \<and> length s \<le> 256 | _ \<Rightarrow> False)"

definition valid_count :: "js \<Rightarrow> bool" where
  "valid_count v = (case v of JNum n \<Rightarrow> is_safe_integer n \<and> 1 \<le> num_int n | _ \<Rightarrow> False)"

definition contract_labels :: "string list" where
  "contract_labels = [''request_id'', ''idempotency_key'', ''run_id'', ''node_id'', ''session_id'', ''round_id'', ''credential_ref'']"

definition validateRequestContract :: "string \<Rightarrow> broker_request \<Rightarrow> string option" where
  "validateRequestContract expectedKind request =
     (case find (\<lambda>k. \<not> valid_text (obj_get request k)) contract_labels of
        Some k \<Rightarrow> Some (k @ '' is invalid'')
      | None \<Rightarrow>
          if obj_get request ''transport_kind'' \<noteq> JStr expectedKind then Some (''transport_kind must be '' @ expectedKind)
          else if expectedKind = ''worker_actor'' then
            (if \<not> (case obj_get request ''actor_id'' of JStr s \<Rightarrow> s \<noteq> [] \<and> length s \<le> 256 | _ \<Rightarrow> False)
             then Some ''worker broker actor_id is invalid''
             else if \<not> valid_count (obj_get request ''generation'') then Some ''worker broker generation is invalid''
             else if \<not> valid_count (obj_get request ''lease_generation'') then Some ''worker broker lease_generation is invalid''
             else if obj_get request ''gateway_attempt'' \<noteq> JUndef then Some ''worker broker cannot provide gateway_attempt''
             else if (case obj_get request ''input'' of JObj _ \<Rightarrow> False | _ \<Rightarrow> True) then Some ''credential broker input must be an object''
             else None)
          else
            (if \<not> valid_count (obj_get request ''gateway_attempt'') then Some ''manager broker gateway_attempt is invalid''
             else if obj_get request ''actor_id'' \<noteq> JUndef \<or> obj_get request ''generation'' \<noteq> JUndef
               \<or> obj_get request ''lease_generation'' \<noteq> JUndef \<or> obj_get request ''command_id'' \<noteq> JUndef
             then Some ''manager broker cannot provide Worker Actor fence fields''
             else if (case obj_get request ''input'' of JObj _ \<Rightarrow> False | _ \<Rightarrow> True) then Some ''credential broker input must be an object''
             else None))"

text \<open>\<open>canonicalize\<close> of this module sorts by \<open>localeCompare\<close>; \<open>Object.fromEntries\<close> puts array indices first.\<close>

fun locale_canonicalize :: "(string \<Rightarrow> string) \<Rightarrow> js \<Rightarrow> js" where
  "locale_canonicalize collation (JArr vs) = JArr (map (locale_canonicalize collation) vs)"
| "locale_canonicalize collation (JObj kvs) =
     JObj (sort_key (\<lambda>(k, v). key_order k) (map (\<lambda>(k, v). (k, locale_canonicalize collation v))
       (sort_key (\<lambda>(k, v). collation k) (filter (\<lambda>(k, v). v \<noteq> JUndef) kvs))))"
| "locale_canonicalize collation v = v"

definition brokerRequestDigest :: "broker_world \<Rightarrow> string \<Rightarrow> broker_request \<Rightarrow> string" where
  "brokerRequestDigest w sourceId request =
     env_sha256 (bw_env w)
       (case json_stringify (env_num_str (bw_env w)) (locale_canonicalize (bw_collation w)
          (JObj [(''version'', js_int 1), (''source_id'', JStr sourceId), (''request'', JObj request)])) of None \<Rightarrow> [] | Some t \<Rightarrow> t)"

definition boundedMessage :: "string \<Rightarrow> string" where
  "boundedMessage e = take 1000 (map (\<lambda>c. if control_char c then CHR '' '' else c) e)"

definition identity_of :: "broker_request \<Rightarrow> broker_request" where
  "identity_of request = filter (\<lambda>(k, v). k \<noteq> ''input'') request"

definition resultForFailure :: "broker_request \<Rightarrow> call_outcome \<Rightarrow> string \<Rightarrow> string option \<Rightarrow> resolution option \<Rightarrow> call_result" where
  "resultForFailure request outcome error digest reconciliation =
     \<lparr>cr_request_id = obj_get request ''request_id'', cr_identity = identity_of request, cr_ok = False, cr_outcome = outcome,
      cr_digest = digest, cr_result = JUndef, cr_error = Some error, cr_reconciliation = reconciliation\<rparr>"

definition resultForSuccess :: "broker_request \<Rightarrow> call_outcome \<Rightarrow> string \<Rightarrow> js \<Rightarrow> resolution option \<Rightarrow> call_result" where
  "resultForSuccess request outcome digest result reconciliation =
     \<lparr>cr_request_id = obj_get request ''request_id'', cr_identity = identity_of request, cr_ok = True, cr_outcome = outcome,
      cr_digest = Some digest, cr_result = result, cr_error = None, cr_reconciliation = reconciliation\<rparr>"

section \<open>Secrets and sizes\<close>

definition str_includes :: "string \<Rightarrow> string \<Rightarrow> bool" where
  "str_includes s t \<longleftrightarrow> list_ex (\<lambda>i. take (length t) (drop i s) = t) [0..<length s + 1]"

fun containsSecret :: "(jsnum \<Rightarrow> string) \<Rightarrow> string list \<Rightarrow> js \<Rightarrow> bool" where
  "containsSecret num_str secrets (JStr s) = list_ex (str_includes s) secrets"
| "containsSecret num_str secrets (JNum n) = (num_str n \<in> set secrets)"
| "containsSecret num_str secrets (JBool b) = ((if b then ''true'' else ''false'') \<in> set secrets)"
| "containsSecret num_str secrets (JArr vs) = list_ex (containsSecret num_str secrets) vs"
| "containsSecret num_str secrets (JObj kvs) =
     list_ex (\<lambda>(k, v). list_ex (str_includes k) secrets \<or> containsSecret num_str secrets v) kvs"
| "containsSecret num_str secrets v = False"

definition assertResultDoesNotRevealSecrets :: "broker_world \<Rightarrow> js \<Rightarrow> string list \<Rightarrow> string + unit" where
  "assertResultDoesNotRevealSecrets w result secrets =
     (if containsSecret (env_num_str (bw_env w)) secrets result then Inl ''Credential broker result reflected a secret value'' else Inr ())"

definition safeJsonSize :: "broker_world \<Rightarrow> js \<Rightarrow> string + int" where
  "safeJsonSize w v =
     (case json_stringify (env_num_str (bw_env w)) v of
        None \<Rightarrow> Inl ''Credential broker value is not JSON serializable''
      | Some t \<Rightarrow> Inr (int (utf8_length t)))"

definition assertSize :: "broker_world \<Rightarrow> js \<Rightarrow> int \<Rightarrow> string \<Rightarrow> string + unit" where
  "assertSize w v maximum message = bindE (safeJsonSize w v) (\<lambda>n. if maximum < n then Inl message else Inr ())"

definition hideSecrets :: "string \<Rightarrow> string list option \<Rightarrow> string \<Rightarrow> string" where
  "hideSecrets concealed secrets raw =
     (case secrets of
        None \<Rightarrow> raw
      | Some values \<Rightarrow> (if list_ex (str_includes raw) values then concealed else raw))"

definition invokeCredentialBroker :: "broker_world \<Rightarrow> string \<Rightarrow> string \<Rightarrow> broker_request \<Rightarrow> string list \<Rightarrow> (string \<times> string) option \<Rightarrow> js call_eff" where
  "invokeCredentialBroker w broker action request secrets mutation =
     (case bw_registry w broker action of
        None \<Rightarrow> raiseS (''Unsupported credential broker action: '' @ broker @ ''/'' @ action)
      | Some registered \<Rightarrow>
          thenS (readS (\<lambda>s. assertSize w (obj_get request ''input'') (rg_max_input registered)
              (''Credential broker input exceeds '' @ env_num_str (bw_env w) (num_of_int (rg_max_input registered)) @ '' bytes''))) (\<lambda>_.
          thenS (rg_handler registered request secrets mutation) (\<lambda>result.
          thenS (readS (\<lambda>s. assertResultDoesNotRevealSecrets w result secrets)) (\<lambda>_.
          thenS (readS (\<lambda>s. assertSize w result MAX_RESULT_BYTES ''Credential broker result exceeds 256 KiB'')) (\<lambda>_. retS result)))))"

section \<open>The registry\<close>

record registration_options =
  ro_max_input :: "jsnum option"
  ro_mutation :: "bool option"
  ro_target :: "(broker_request \<Rightarrow> string + string) option"
  ro_reconcile :: "(mutation_attempt \<Rightarrow> string list \<Rightarrow> reconciliation call_eff) option"

definition MAX_INPUT_BYTES :: int where
  "MAX_INPUT_BYTES = 64 * 1024"

definition MAX_CONFIGURED_INPUT_BYTES :: int where
  "MAX_CONFIGURED_INPUT_BYTES = 2 * 1024 * 1024"

text \<open>A reading action has no target function: what stands for it is never called.\<close>

definition registerCredentialBroker :: "string \<Rightarrow> string \<Rightarrow> (broker_request \<Rightarrow> string list \<Rightarrow> (string \<times> string) option \<Rightarrow> js call_eff)
    \<Rightarrow> registration_options \<Rightarrow> (string \<Rightarrow> string \<Rightarrow> registered option) \<Rightarrow> string + (string \<Rightarrow> string \<Rightarrow> registered option)" where
  "registerCredentialBroker broker action handler options registry =
     (let maxInputBytes = (case ro_max_input options of None \<Rightarrow> num_of_int MAX_INPUT_BYTES | Some n \<Rightarrow> n);
          mutation = (case ro_mutation options of None \<Rightarrow> False | Some b \<Rightarrow> b)
      in throwIf (\<not> broker_name (JStr broker)) ''Invalid credential broker name''
        (throwIf (\<not> broker_name (JStr action)) ''Invalid credential broker action''
        (throwIf (\<not> is_safe_integer maxInputBytes \<or> num_int maxInputBytes < 1 \<or> MAX_CONFIGURED_INPUT_BYTES < num_int maxInputBytes)
          ''Credential broker input limit is invalid''
        (throwIf (mutation \<and> (ro_target options = None \<or> ro_reconcile options = None))
          ''Credential broker mutation handlers require semanticTarget and reconcile contracts''
        (throwIf (\<not> mutation \<and> (ro_target options \<noteq> None \<or> ro_reconcile options \<noteq> None))
          ''Credential broker read handlers cannot declare mutation reconciliation contracts''
        (Inr (registry(broker := (registry broker)(action \<mapsto>
           \<lparr>rg_mutation = mutation, rg_max_input = num_int maxInputBytes, rg_handler = handler,
            rg_target = (case ro_target options of None \<Rightarrow> (\<lambda>_. Inl ''semanticTarget is not a function'') | Some f \<Rightarrow> f),
            rg_reconcile = ro_reconcile options\<rparr>)))))))))"

section \<open>Bindings\<close>

fun js_to_string :: "(jsnum \<Rightarrow> string) \<Rightarrow> js \<Rightarrow> string" where
  "js_to_string num_str JUndef = ''undefined''"
| "js_to_string num_str JNull = ''null''"
| "js_to_string num_str (JBool b) = (if b then ''true'' else ''false'')"
| "js_to_string num_str (JNum n) = num_str n"
| "js_to_string num_str (JStr s) = s"
| "js_to_string num_str (JArr vs) = join '','' (map (\<lambda>v. if v = JUndef \<or> v = JNull then [] else js_to_string num_str v) vs)"
| "js_to_string num_str (JObj kvs) = ''[object Object]''"

definition js_member :: "js \<Rightarrow> string \<Rightarrow> js" where
  "js_member v k = (case v of JObj kvs \<Rightarrow> obj_get kvs k | _ \<Rightarrow> JUndef)"

text \<open>One entry of a node's \<open>credentials\<close>: its broker policy for the reference, if it is one.\<close>

definition broker_policy :: "string \<Rightarrow> js \<Rightarrow> (string \<times> js) list option" where
  "broker_policy credentialRef raw =
     (case raw of
        JObj binding \<Rightarrow>
          (if obj_get binding ''credential_ref'' \<noteq> JStr credentialRef then None
           else (case obj_get binding ''inject'' of
                   JObj policy \<Rightarrow> (if obj_get policy ''mode'' = JStr ''manager_broker'' then Some policy else None)
                 | _ \<Rightarrow> None))
      | _ \<Rightarrow> None)"

fun first_policy :: "string \<Rightarrow> js list \<Rightarrow> (string \<times> js) list option" where
  "first_policy credentialRef [] = None"
| "first_policy credentialRef (raw # raws) =
     (case broker_policy credentialRef raw of Some p \<Rightarrow> Some p | None \<Rightarrow> first_policy credentialRef raws)"

text \<open>\<open>bw_active_run\<close> gives the \<open>extra\<close> of the nodes of an active run.\<close>

definition managerBrokerBinding :: "broker_world \<Rightarrow> string \<Rightarrow> string \<Rightarrow> string \<Rightarrow> string + (string \<times> string list)" where
  "managerBrokerBinding w runId nodeId credentialRef =
     (case bw_active_run w runId of
        None \<Rightarrow> Inl ''Credential broker run is not active''
      | Some nodes \<Rightarrow> (case nodes nodeId of
          None \<Rightarrow> Inl ''Credential broker node was not found''
        | Some extra \<Rightarrow> (case js_member (js_member extra ''agent_runtime'') ''credentials'' of
            JArr credentials \<Rightarrow> (case first_policy credentialRef credentials of
                None \<Rightarrow> Inl ''Credential broker reference is not declared on this node''
              | Some policy \<Rightarrow>
                  Inr (js_to_string (env_num_str (bw_env w)) (js_nullish (obj_get policy ''broker'') (JStr [])),
                       (case obj_get policy ''allowed_actions'' of
                          JArr entries \<Rightarrow> concat (map (\<lambda>v. case v of JStr s \<Rightarrow> [s] | _ \<Rightarrow> []) entries)
                        | _ \<Rightarrow> [])))
          | _ \<Rightarrow> Inl ''Credential broker is not declared on this node'')))"

section \<open>Reconciliation\<close>

definition readAttemptS :: "broker_world \<Rightarrow> string \<Rightarrow> mutation_attempt \<Rightarrow> mutation_attempt call_eff" where
  "readAttemptS w requestId otherwise =
     dbS w (\<lambda>s. bindE (getCredentialBrokerMutationAttempt (bw_env w) requestId s) (\<lambda>found.
       Inr (s, case found of None \<Rightarrow> otherwise | Some a \<Rightarrow> a)))"

definition markIndeterminateS :: "broker_world \<Rightarrow> string \<Rightarrow> string \<Rightarrow> mutation_attempt call_eff" where
  "markIndeterminateS w requestId error = dbS w (\<lambda>s. markCredentialBrokerMutationIndeterminate (bw_env w) (bw_now w s) requestId error s)"

definition reconcileS :: "broker_world \<Rightarrow> string \<Rightarrow> resolution \<Rightarrow> js \<Rightarrow> string option \<Rightarrow> mutation_attempt call_eff" where
  "reconcileS w requestId resolution result error =
     dbS w (\<lambda>s. reconcileCredentialBrokerMutation (bw_env w) (bw_now w s) requestId resolution result error s)"

definition failBeforeS :: "broker_world \<Rightarrow> string \<Rightarrow> string \<Rightarrow> mutation_attempt call_eff" where
  "failBeforeS w requestId error = dbS w (\<lambda>s. failCredentialBrokerMutationBeforeDispatch (bw_env w) (bw_now w s) requestId error s)"

definition cancelS :: "broker_world \<Rightarrow> string \<Rightarrow> string \<Rightarrow> mutation_attempt call_eff" where
  "cancelS w requestId reason = dbS w (\<lambda>s. cancelCredentialBrokerMutationAttempt (bw_env w) (bw_now w s) requestId reason s)"

abbreviation ma_id :: "mutation_attempt \<Rightarrow> string" where
  "ma_id a \<equiv> mt_request_id (ma_row a)"

abbreviation ma_state :: "mutation_attempt \<Rightarrow> mutation_state" where
  "ma_state a \<equiv> mt_state (ma_row a)"

definition running_state :: "mutation_state \<Rightarrow> bool" where
  "running_state s \<longleftrightarrow> s = Mu_dispatched \<or> s = Mu_cancel_requested"

definition applyReconciliation :: "broker_world \<Rightarrow> mutation_attempt \<Rightarrow> reconciliation \<Rightarrow> string list \<Rightarrow> mutation_attempt call_eff" where
  "applyReconciliation w attempt reconciliation secrets =
     (case reconciliation of
        Rc_indeterminate error \<Rightarrow>
          thenS (readAttemptS w (ma_id attempt) attempt) (\<lambda>current.
            if running_state (ma_state current)
            then markIndeterminateS w (ma_id current)
              (case error of None \<Rightarrow> ''Credential broker mutation outcome is indeterminate'' | Some e \<Rightarrow> e)
            else retS current)
      | Rc_completed result \<Rightarrow>
          thenS (readS (\<lambda>s. assertResultDoesNotRevealSecrets w result secrets)) (\<lambda>_.
          thenS (readS (\<lambda>s. assertSize w result MAX_RESULT_BYTES ''Credential broker reconciled result exceeds 256 KiB'')) (\<lambda>_.
          reconcileS w (ma_id attempt) Rs_completed result None))
      | Rc_absent error \<Rightarrow>
          reconcileS w (ma_id attempt) Rs_absent JUndef
            (or_else (mt_error (ma_row attempt)) (or_else error (Some ''Credential broker mutation reconciled as absent'')))
      | Rc_failed error \<Rightarrow>
          reconcileS w (ma_id attempt) Rs_failed JUndef
            (or_else (mt_error (ma_row attempt)) (or_else error (Some ''Credential broker mutation reconciled as failed''))))"

definition reconcileFailed :: "broker_world \<Rightarrow> mutation_attempt \<Rightarrow> string list option \<Rightarrow> string \<Rightarrow> mutation_attempt call_eff" where
  "reconcileFailed w attempt secrets error =
     (let message = hideSecrets ''Credential broker reconciliation failed without exposing provider details'' secrets (boundedMessage error)
      in thenS (readAttemptS w (ma_id attempt) attempt) (\<lambda>current.
           if running_state (ma_state current) then markIndeterminateS w (ma_id current) message else retS current))"

definition reconcilePersistedCredentialBrokerMutation :: "broker_world \<Rightarrow> mutation_attempt \<Rightarrow> mutation_attempt call_eff" where
  "reconcilePersistedCredentialBrokerMutation w attempt =
     (if ma_state attempt = Mu_prepared
      then failBeforeS w (ma_id attempt) ''Credential broker mutation was durably prepared but never dispatched''
      else if \<not> (running_state (ma_state attempt) \<or> ma_state attempt = Mu_indeterminate) then retS attempt
      else case Option.bind (bw_registry w (mt_broker (ma_row attempt)) (mt_action (ma_row attempt))) rg_reconcile of
             None \<Rightarrow>
               if running_state (ma_state attempt)
               then markIndeterminateS w (ma_id attempt) ''Credential broker mutation has no reconciliation handler''
               else retS attempt
           | Some reconcile \<Rightarrow>
               (case bw_secret w (mt_credential_ref (ma_row attempt)) of
                  Inl e \<Rightarrow> reconcileFailed w attempt None e
                | Inr secrets \<Rightarrow>
                    catchS (thenS (reconcile attempt secrets) (\<lambda>r. applyReconciliation w attempt r secrets))
                      (reconcileFailed w attempt (Some secrets))))"

record recovery_summary =
  sm_reconciled :: "string list"
  sm_unresolved :: "string list"
  sm_failed :: "(string \<times> string) list"

fun recoverEach :: "broker_world \<Rightarrow> mutation_attempt list \<Rightarrow> recovery_summary \<Rightarrow> recovery_summary call_eff" where
  "recoverEach w [] summary = retS summary"
| "recoverEach w (attempt # attempts) summary =
     tryS (reconcilePersistedCredentialBrokerMutation w attempt)
       (\<lambda>error. recoverEach w attempts (summary\<lparr>sm_failed := sm_failed summary @ [(ma_id attempt, boundedMessage error)]\<rparr>))
       (\<lambda>current. recoverEach w attempts
          (if ma_state current = Mu_reconciled \<or> ma_state current = Mu_failed_pre_dispatch
           then summary\<lparr>sm_reconciled := sm_reconciled summary @ [ma_id current]\<rparr>
           else summary\<lparr>sm_unresolved := sm_unresolved summary @ [ma_id current]\<rparr>))"

definition recoverCredentialBrokerMutations :: "broker_world \<Rightarrow> recovery_summary call_eff" where
  "recoverCredentialBrokerMutations w =
     thenS (dbS w (\<lambda>s. bindE (listUnresolvedCredentialBrokerMutations (bw_env w) None s) (\<lambda>rows. Inr (s, rows))))
       (\<lambda>rows. recoverEach w rows \<lparr>sm_reconciled = [], sm_unresolved = [], sm_failed = []\<rparr>)"

section \<open>Cancellation\<close>

definition abort_call :: "string \<Rightarrow> in_flight \<Rightarrow> in_flight" where
  "abort_call reason c = c\<lparr>if_aborted := (case if_aborted c of None \<Rightarrow> Some reason | Some r \<Rightarrow> Some r)\<rparr>"

definition abortOne :: "broker_world \<Rightarrow> (in_flight \<Rightarrow> bool) \<Rightarrow> string \<Rightarrow> in_flight \<Rightarrow> unit call_eff" where
  "abortOne w P reason c =
     (if \<not> P c \<or> if_aborted c \<noteq> None then retS ()
      else thenS
        (if if_mutation c
         then thenS (dbS w (\<lambda>s. bindE (getCredentialBrokerMutationAttempt (bw_env w) (if_request_id c) s) (\<lambda>found. Inr (s, found)))) (\<lambda>found.
           case found of
             None \<Rightarrow> retS ()
           | Some attempt \<Rightarrow> catchS (thenS (cancelS w (ma_id attempt) reason) (\<lambda>_. retS ())) (\<lambda>e. retS ()))
         else retS ())
        (\<lambda>_ s. (s\<lparr>cs_in_flight := map (\<lambda>d. if if_request_id d = if_request_id c then abort_call reason d else d) (cs_in_flight s)\<rparr>, Inr ())))"

definition abortInFlightWhere :: "broker_world \<Rightarrow> (in_flight \<Rightarrow> bool) \<Rightarrow> string \<Rightarrow> unit call_eff" where
  "abortInFlightWhere w P reason s = thenS (eachS (abortOne w P reason) (cs_in_flight s)) (\<lambda>_. retS ()) s"

definition fence_fields :: "string list" where
  "fence_fields = [''request_id'', ''idempotency_key'', ''run_id'', ''node_id'', ''session_id'', ''round_id'', ''actor_id'',
     ''generation'', ''lease_generation'', ''command_id'']"

definition sameCancellationFence :: "broker_request \<Rightarrow> broker_request \<Rightarrow> bool" where
  "sameCancellationFence request cancel \<longleftrightarrow>
     obj_get request ''transport_kind'' = JStr ''worker_actor'' \<and> obj_get cancel ''transport_kind'' = JStr ''worker_actor''
     \<and> list_all (\<lambda>k. js_strict_eq (obj_get request k) (obj_get cancel k)) fence_fields"

definition inFlightCall :: "call_state \<Rightarrow> js \<Rightarrow> in_flight option" where
  "inFlightCall s requestId = find (\<lambda>c. JStr (if_request_id c) = requestId) (cs_in_flight s)"

definition cancelCredentialBrokerCall :: "broker_world \<Rightarrow> string \<Rightarrow> broker_request \<Rightarrow> bool call_eff" where
  "cancelCredentialBrokerCall w workerId cancel s =
     (case inFlightCall s (obj_get cancel ''request_id'') of
        None \<Rightarrow> retS False s
      | Some call \<Rightarrow>
          if if_source_id call \<noteq> workerId \<or> \<not> sameCancellationFence (if_request call) cancel then retS False s
          else thenS (abortInFlightWhere w (\<lambda>c. if_request_id c = if_request_id call) ''Credential broker caller cancelled the Actor turn'')
            (\<lambda>_. retS True) s)"

datatype broker_event =
    Ev_run_cancelled string
  | Ev_run_failed string
  | Ev_run_completed string
  | Ev_intervention_applied string string
  | Ev_lease_released string string

fun onBrokerEvent :: "broker_world \<Rightarrow> broker_event \<Rightarrow> unit call_eff" where
  "onBrokerEvent w (Ev_run_cancelled run) = abortInFlightWhere w (\<lambda>c. obj_get (if_request c) ''run_id'' = JStr run) ''DAG run cancelled''"
| "onBrokerEvent w (Ev_run_failed run) = abortInFlightWhere w (\<lambda>c. obj_get (if_request c) ''run_id'' = JStr run) ''DAG run failed''"
| "onBrokerEvent w (Ev_run_completed run) = abortInFlightWhere w (\<lambda>c. obj_get (if_request c) ''run_id'' = JStr run) ''DAG run completed''"
| "onBrokerEvent w (Ev_intervention_applied run actor) =
     abortInFlightWhere w (\<lambda>c. obj_get (if_request c) ''run_id'' = JStr run \<and> obj_get (if_request c) ''actor_id'' = JStr actor)
       ''DAG Actor generation superseded''"
| "onBrokerEvent w (Ev_lease_released run actor) =
     abortInFlightWhere w (\<lambda>c. obj_get (if_request c) ''run_id'' = JStr run \<and> obj_get (if_request c) ''actor_id'' = JStr actor)
       ''DAG Actor lease released''"

section \<open>Calls\<close>

fun mutation_state_text :: "mutation_state \<Rightarrow> string" where
  "mutation_state_text Mu_prepared = ''prepared''"
| "mutation_state_text Mu_dispatched = ''dispatched''"
| "mutation_state_text Mu_completed = ''completed''"
| "mutation_state_text Mu_failed_pre_dispatch = ''failed_pre_dispatch''"
| "mutation_state_text Mu_cancelled = ''cancelled''"
| "mutation_state_text Mu_cancel_requested = ''cancel_requested''"
| "mutation_state_text Mu_indeterminate = ''indeterminate''"
| "mutation_state_text Mu_reconciled = ''reconciled''"

definition attemptFailureResult :: "mutation_attempt \<Rightarrow> string \<Rightarrow> call_result" where
  "attemptFailureResult attempt digest =
     (if ma_state attempt = Mu_completed
      then resultForFailure (ma_request attempt) Oc_reconciled ''Credential broker mutation completed after the caller authority was revoked''
        (Some digest) (Some Rs_completed)
      else if ma_state attempt = Mu_reconciled
      then resultForFailure (ma_request attempt) Oc_reconciled
        (case mt_error (ma_row attempt) of
           None \<Rightarrow> ''Credential broker mutation reconciled as '' @ (case mt_resolution (ma_row attempt) of None \<Rightarrow> [] | Some x \<Rightarrow> resolution_text x)
         | Some e \<Rightarrow> e) (Some digest) (mt_resolution (ma_row attempt))
      else resultForFailure (ma_request attempt)
        (if ma_state attempt = Mu_failed_pre_dispatch then Oc_failed_pre_dispatch
         else if ma_state attempt = Mu_cancelled then Oc_cancelled else Oc_indeterminate)
        (case mt_error (ma_row attempt) of None \<Rightarrow> ''Credential broker mutation is '' @ mutation_state_text (ma_state attempt) | Some e \<Rightarrow> e) (Some digest) None)"

definition aborted :: "call_state \<Rightarrow> js \<Rightarrow> string option" where
  "aborted s requestId = (case inFlightCall s requestId of None \<Rightarrow> None | Some c \<Rightarrow> if_aborted c)"

text \<open>\<open>ensureAuthority\<close> of a call; \<open>authority\<close> is the check its caller passes.\<close>

definition ensureAuthority :: "(broker_request \<Rightarrow> call_state \<Rightarrow> string + unit) \<Rightarrow> broker_request \<Rightarrow> call_state \<Rightarrow> string + unit" where
  "ensureAuthority authority request s =
     (case aborted s (obj_get request ''request_id'') of Some reason \<Rightarrow> Inl reason | None \<Rightarrow> authority request s)"

text \<open>
  The loop around a blocked preparation. \<open>Loop_running\<close> is a loop that is not finished after \<open>n\<close>
  reconciliations.
\<close>

datatype loop_outcome = Loop_prepared prepare_status mutation_attempt | Loop_answer call_result | Loop_running

definition completed_attempt :: "mutation_attempt \<Rightarrow> bool" where
  "completed_attempt a \<longleftrightarrow> ma_state a = Mu_completed \<or> ma_state a = Mu_reconciled \<and> mt_resolution (ma_row a) = Some Rs_completed"

definition safe_to_retry :: "mutation_attempt \<Rightarrow> bool" where
  "safe_to_retry a \<longleftrightarrow> ma_state a = Mu_failed_pre_dispatch \<or> ma_state a = Mu_cancelled
     \<or> ma_state a = Mu_reconciled \<and> mt_resolution (ma_row a) \<noteq> Some Rs_completed"

definition prepareS :: "broker_world \<Rightarrow> prepare_input \<Rightarrow> (prepare_status \<times> mutation_attempt) call_eff" where
  "prepareS w input = dbS w (\<lambda>s. prepareCredentialBrokerMutation (bw_env w) (bw_now w s) input s)"

definition owned_text :: "mutation_attempt \<Rightarrow> string" where
  "owned_text a = ''Credential broker semantic target is owned by unresolved request '' @ ma_id a"

definition blockedAnswer :: "prepare_input \<Rightarrow> mutation_attempt \<Rightarrow> call_result" where
  "blockedAnswer input blocker =
     (if completed_attempt blocker
      then resultForFailure (pi_request input) Oc_reconciled
        (''Credential broker semantic target was already completed by request '' @ ma_id blocker) (Some (pi_digest input)) (Some Rs_completed)
      else resultForFailure (pi_request input) Oc_indeterminate (owned_text blocker) (Some (pi_digest input)) None)"

definition ownedAnswer :: "prepare_input \<Rightarrow> mutation_attempt \<Rightarrow> call_result" where
  "ownedAnswer input a = resultForFailure (pi_request input) Oc_indeterminate (owned_text a) (Some (pi_digest input)) None"

fun prepareLoop :: "nat \<Rightarrow> broker_world \<Rightarrow> prepare_input \<Rightarrow> loop_outcome call_eff" where
  "prepareLoop n w input =
     thenS (prepareS w input) (\<lambda>(status, attempt).
       if status \<noteq> Pr_blocked then retS (Loop_prepared status attempt)
       else (case n of
          0 \<Rightarrow> retS Loop_running
        | Suc m \<Rightarrow>
            thenS (readS (\<lambda>s. Inr (inFlightCall s (JStr (ma_id attempt)) \<noteq> None))) (\<lambda>owned.
            if owned then retS (Loop_answer (ownedAnswer input attempt))
            else thenS (reconcilePersistedCredentialBrokerMutation w attempt) (\<lambda>blocker.
              if safe_to_retry blocker then prepareLoop m w input
              else retS (Loop_answer (blockedAnswer input blocker))))))"

declare prepareLoop.simps [simp del]

text \<open>The \<open>catch\<close> of a call, given what the call had set when it threw.\<close>

definition callFailed :: "broker_world \<Rightarrow> bool \<Rightarrow> broker_request \<Rightarrow> string \<Rightarrow> string list option \<Rightarrow> mutation_attempt option \<Rightarrow> string
    \<Rightarrow> call_result call_eff" where
  "callFailed w mutation request digest secrets attempt error =
     (let message = hideSecrets ''Credential broker call failed without exposing provider details'' secrets (boundedMessage error);
          requestId = obj_get request ''request_id''
      in if \<not> mutation
         then (\<lambda>s. retS (resultForFailure request (if aborted s requestId \<noteq> None then Oc_cancelled else Oc_failed) message (Some digest) None) s)
         else case attempt of
           None \<Rightarrow>
             (\<lambda>s. retS (resultForFailure request (if aborted s requestId \<noteq> None then Oc_cancelled else Oc_failed_pre_dispatch)
                message (Some digest) None) s)
         | Some a \<Rightarrow>
             thenS (readAttemptS w (ma_id a) a) (\<lambda>current.
             if ma_state current = Mu_prepared
             then thenS (\<lambda>s. (if aborted s requestId \<noteq> None then cancelS w (ma_id current) message else failBeforeS w (ma_id current) message) s)
               (\<lambda>terminal. retS (attemptFailureResult terminal digest))
             else
               thenS (if running_state (ma_state current) then thenS (markIndeterminateS w (ma_id current) message) (\<lambda>_. retS ()) else retS ()) (\<lambda>_.
               thenS (readAttemptS w (ma_id current) current) (\<lambda>latest.
               thenS (reconcilePersistedCredentialBrokerMutation w latest) (\<lambda>reconciled.
               retS (attemptFailureResult reconciled digest))))))"

definition stored_result :: "mutation_attempt \<Rightarrow> js" where
  "stored_result a = (case ma_result a of None \<Rightarrow> JUndef | Some v \<Rightarrow> v)"

definition recordSuccessS :: "broker_world \<Rightarrow> broker_request \<Rightarrow> js \<Rightarrow> unit call_eff" where
  "recordSuccessS w request result = readS (bw_record_success w request result)"

text \<open>A preparation that found the same request: its stored outcome is reported again.\<close>

definition duplicateCall :: "broker_world \<Rightarrow> (broker_request \<Rightarrow> call_state \<Rightarrow> string + unit) \<Rightarrow> broker_request \<Rightarrow> string \<Rightarrow> mutation_attempt
    \<Rightarrow> call_result call_eff" where
  "duplicateCall w authority request digest attempt =
     thenS (if unresolved (ma_row attempt) then reconcilePersistedCredentialBrokerMutation w attempt else retS attempt) (\<lambda>duplicate.
     if completed_attempt duplicate
     then thenS (readS (ensureAuthority authority request)) (\<lambda>_.
          thenS (recordSuccessS w request (stored_result duplicate)) (\<lambda>_.
          retS (resultForSuccess request (if ma_state duplicate = Mu_completed then Oc_completed else Oc_reconciled) digest
            (stored_result duplicate) (if ma_state duplicate = Mu_reconciled then Some Rs_completed else None))))
     else retS (attemptFailureResult duplicate digest))"

text \<open>The provider has returned: the result is recorded, also when the caller has lost its authority meanwhile.\<close>

definition revoked_text :: "string \<Rightarrow> string" where
  "revoked_text reason = ''Credential broker mutation completed after authority was revoked: '' @ boundedMessage reason"

definition completeCall :: "broker_world \<Rightarrow> (broker_request \<Rightarrow> call_state \<Rightarrow> string + unit) \<Rightarrow> broker_request \<Rightarrow> string \<Rightarrow> string list
    \<Rightarrow> mutation_attempt \<Rightarrow> js \<Rightarrow> call_result call_eff" where
  "completeCall w authority request digest secrets dispatched result s =
     (let failed = callFailed w True request digest (Some secrets)
      in case ensureAuthority authority request s of
           Inl revoked \<Rightarrow>
             tryS (reconcileS w (ma_id dispatched) Rs_completed result None) (failed (Some dispatched)) (\<lambda>_.
             retS (resultForFailure request Oc_reconciled (revoked_text revoked) (Some digest) (Some Rs_completed))) s
         | Inr _ \<Rightarrow>
             tryS (dbS w (\<lambda>s. completeCredentialBrokerMutation (bw_env w) (bw_now w s) (ma_id dispatched) result s)) (failed (Some dispatched))
               (\<lambda>completed. tryS (recordSuccessS w request result) (failed (Some completed)) (\<lambda>_.
                  retS (resultForSuccess request Oc_completed digest result None))) s)"

text \<open>A new attempt: dispatched, handed to the provider, completed.\<close>

definition dispatchedCall :: "broker_world \<Rightarrow> (broker_request \<Rightarrow> call_state \<Rightarrow> string + unit) \<Rightarrow> string \<Rightarrow> string \<Rightarrow> broker_request \<Rightarrow> string \<Rightarrow> string
    \<Rightarrow> string list \<Rightarrow> mutation_attempt \<Rightarrow> call_result call_eff" where
  "dispatchedCall w authority broker action request digest target secrets attempt =
     (let failed = callFailed w True request digest (Some secrets)
      in tryS (thenS (readS (ensureAuthority authority request)) (\<lambda>_.
                dbS w (\<lambda>s. dispatchCredentialBrokerMutation (bw_env w) (bw_now w s) (ma_id attempt) s)))
           (failed (Some attempt)) (\<lambda>dispatched.
         tryS (invokeCredentialBroker w broker action request secrets (Some (digest, target)))
           (failed (Some dispatched)) (completeCall w authority request digest secrets dispatched)))"

definition readCall :: "broker_world \<Rightarrow> (broker_request \<Rightarrow> call_state \<Rightarrow> string + unit) \<Rightarrow> string \<Rightarrow> string \<Rightarrow> broker_request \<Rightarrow> string
    \<Rightarrow> string list \<Rightarrow> call_result call_eff" where
  "readCall w authority broker action request digest secrets =
     tryS (thenS (invokeCredentialBroker w broker action request secrets None) (\<lambda>result.
           thenS (readS (ensureAuthority authority request)) (\<lambda>_.
           thenS (recordSuccessS w request result) (\<lambda>_. retS result))))
       (callFailed w False request digest (Some secrets) None)
       (\<lambda>result. retS (resultForSuccess request Oc_completed digest result None))"

text \<open>A mutation up to its preparation; \<open>None\<close> is a call that is not finished.\<close>

definition mutationCall :: "nat \<Rightarrow> broker_world \<Rightarrow> (broker_request \<Rightarrow> call_state \<Rightarrow> string + unit) \<Rightarrow> string \<Rightarrow> registered \<Rightarrow> string \<Rightarrow> string
    \<Rightarrow> broker_request \<Rightarrow> string \<Rightarrow> string list \<Rightarrow> call_result option call_eff" where
  "mutationCall n w authority sourceId registered broker action request digest secrets =
     (let failed = (\<lambda>attempt e. thenS (callFailed w True request digest (Some secrets) attempt e) (\<lambda>r. retS (Some r)));
          input = (\<lambda>target. \<lparr>pi_request = request, pi_digest = digest, pi_target = target, pi_source_id = sourceId\<rparr>)
      in tryS (thenS (readS (\<lambda>s. rg_target registered request)) (\<lambda>raw.
               thenS (prepareLoop n w (input (js_trim raw))) (\<lambda>out. retS (js_trim raw, out))))
           (failed None) (\<lambda>(target, out).
         case out of
           Loop_running \<Rightarrow> retS None
         | Loop_answer r \<Rightarrow> retS (Some r)
         | Loop_prepared status attempt \<Rightarrow>
             if status = Pr_duplicate
             then tryS (duplicateCall w authority request digest attempt) (failed (Some attempt)) (\<lambda>r. retS (Some r))
             else thenS (dispatchedCall w authority broker action request digest target secrets attempt) (\<lambda>r. retS (Some r))))"

text \<open>The checks before anything is done: authority, the binding of the workflow, the registry, the secret.\<close>

definition request_text :: "broker_request \<Rightarrow> string \<Rightarrow> string" where
  "request_text request k = (case obj_get request k of JStr t \<Rightarrow> t | _ \<Rightarrow> [])"

definition admitCall :: "broker_world \<Rightarrow> (broker_request \<Rightarrow> call_state \<Rightarrow> string + unit) \<Rightarrow> string \<Rightarrow> string \<Rightarrow> broker_request
    \<Rightarrow> registered option \<Rightarrow> (registered \<times> string list) call_eff" where
  "admitCall w authority broker action request registered =
     thenS (readS (ensureAuthority authority request)) (\<lambda>_.
     thenS (readS (\<lambda>s. managerBrokerBinding w (request_text request ''run_id'') (request_text request ''node_id'')
       (request_text request ''credential_ref''))) (\<lambda>(bound, allowed).
     if bound \<noteq> broker \<or> action \<notin> set allowed then raiseS ''Credential broker action is not permitted by the WorkflowSpec''
     else case registered of
       None \<Rightarrow> raiseS (''Unsupported credential broker action: '' @ broker @ ''/'' @ action)
     | Some g \<Rightarrow> thenS (readS (\<lambda>s. bw_secret w (request_text request ''credential_ref''))) (\<lambda>secrets. retS (g, secrets))))"

definition callBody :: "nat \<Rightarrow> broker_world \<Rightarrow> (broker_request \<Rightarrow> call_state \<Rightarrow> string + unit) \<Rightarrow> string \<Rightarrow> string \<Rightarrow> string
    \<Rightarrow> broker_request \<Rightarrow> string \<Rightarrow> call_result option call_eff" where
  "callBody n w authority sourceId broker action request digest =
     (let registered = bw_registry w broker action;
          mutation = (case registered of None \<Rightarrow> False | Some g \<Rightarrow> rg_mutation g)
      in tryS (admitCall w authority broker action request registered)
           (\<lambda>e. thenS (callFailed w mutation request digest None None e) (\<lambda>r. retS (Some r)))
           (\<lambda>(g, secrets).
             if rg_mutation g then mutationCall n w authority sourceId g broker action request digest secrets
             else thenS (readCall w authority broker action request digest secrets) (\<lambda>r. retS (Some r))))"

definition executeDeclaredCredentialBrokerCall :: "nat \<Rightarrow> broker_world \<Rightarrow> (broker_request \<Rightarrow> call_state \<Rightarrow> string + unit) \<Rightarrow> string \<Rightarrow> string
    \<Rightarrow> broker_request \<Rightarrow> call_result option call_eff" where
  "executeDeclaredCredentialBrokerCall n w authority sourceId expectedKind request s =
     (case validateRequestContract expectedKind request of
        Some e \<Rightarrow> retS (Some (resultForFailure request Oc_failed_pre_dispatch e None None)) s
      | None \<Rightarrow> (case (obj_get request ''broker'', obj_get request ''action'', obj_get request ''request_id'') of
          (JStr broker, JStr action, JStr requestId) \<Rightarrow>
            if \<not> broker_name (JStr broker) \<or> \<not> broker_name (JStr action)
            then retS (Some (resultForFailure request Oc_failed_pre_dispatch ''Credential broker or action is invalid'' None None)) s
            else if inFlightCall s (JStr requestId) \<noteq> None
            then retS (Some (resultForFailure request Oc_failed_pre_dispatch ''Credential broker request is already in flight'' None None)) s
            else
              (let digest = brokerRequestDigest w sourceId request;
                   call = \<lparr>if_request_id = requestId, if_source_id = sourceId, if_request = request,
                           if_mutation = (case bw_registry w broker action of None \<Rightarrow> False | Some g \<Rightarrow> rg_mutation g), if_aborted = None\<rparr>
               in case callBody n w authority sourceId broker action request digest (s\<lparr>cs_in_flight := cs_in_flight s @ [call]\<rparr>) of
                    (t, r) \<Rightarrow> (t\<lparr>cs_in_flight := filter (\<lambda>c. if_request_id c \<noteq> requestId) (cs_in_flight t)\<rparr>, r))
        | _ \<Rightarrow> retS (Some (resultForFailure request Oc_failed_pre_dispatch ''Credential broker or action is invalid'' None None)) s))"

text \<open>The two entries; the caller's authority check reads the active runs and is an argument here too.\<close>

definition executeCredentialBrokerCall :: "nat \<Rightarrow> broker_world \<Rightarrow> (string \<Rightarrow> broker_request \<Rightarrow> call_state \<Rightarrow> string + unit) \<Rightarrow> string
    \<Rightarrow> broker_request \<Rightarrow> call_result option call_eff" where
  "executeCredentialBrokerCall n w assertWorkerAuthority workerId request =
     executeDeclaredCredentialBrokerCall n w (assertWorkerAuthority workerId) workerId ''worker_actor'' request"

definition executeManagerCredentialBrokerCall :: "nat \<Rightarrow> broker_world \<Rightarrow> (broker_request \<Rightarrow> call_state \<Rightarrow> string + unit)
    \<Rightarrow> broker_request \<Rightarrow> call_result option call_eff" where
  "executeManagerCredentialBrokerCall n w assertManagerAuthority request =
     executeDeclaredCredentialBrokerCall n w assertManagerAuthority
       (''manager:'' @ js_to_string (env_num_str (bw_env w)) (obj_get request ''node_id'')) ''manager_gateway'' request"

end
