(* ===== verification/Broker_Mutations_Theorems.thy ===== *)
theory Broker_Mutations_Theorems
  imports Broker_Mutations Machines
begin

text \<open>
  What the record of broker mutations promises: the log tells the life of every attempt, a request is
  recorded once and never dispatched twice, and a target has one unresolved attempt. Every operation is
  either a read or one recorded change (\<open>recorded\<close>); the store refines one automaton per request.
\<close>

section \<open>Recorded changes\<close>

definition same_identity :: "attempt_row \<Rightarrow> attempt_row \<Rightarrow> bool" where
  "same_identity new old \<longleftrightarrow>
     new = old\<lparr>mt_state := mt_state new, mt_provider_json := mt_provider_json new, mt_result_json := mt_result_json new,
               mt_error := mt_error new, mt_resolution := mt_resolution new, mt_updated_at := mt_updated_at new\<rparr>"

lemma same_identity_keys:
  assumes "same_identity new old"
  shows "mt_request_id new = mt_request_id old" "mt_digest new = mt_digest old" "mt_idempotency_key new = mt_idempotency_key old"
    "idempotency_index new = idempotency_index old" "target_index new = target_index old" "mt_request_json new = mt_request_json old"
    "mt_credential_ref new = mt_credential_ref old" "mt_broker new = mt_broker old" "mt_action new = mt_action old" "mt_target new = mt_target old"
  by (subst assms [unfolded same_identity_def], simp add: idempotency_index_def target_index_def)+

lemma same_identity_refl [simp]: "same_identity r r"
  by (simp add: same_identity_def)

lemma same_identity_trans: "same_identity a b \<Longrightarrow> same_identity b c \<Longrightarrow> same_identity a c"
  unfolding same_identity_def by (cases a; cases b; cases c) simp

definition event_of :: "('m) broker_db_scheme \<Rightarrow> attempt_row \<Rightarrow> string \<Rightarrow> string \<Rightarrow> mutation_event" where
  "event_of db row detail now =
     \<lparr>me_sequence = next_sequence (db_events db), me_request_id = mt_request_id row, me_digest = mt_digest row,
      me_state = mt_state row, me_detail_json = detail, me_created_at = now\<rparr>"

definition store_ok :: "('m) broker_db_scheme \<Rightarrow> bool" where
  "store_ok db \<longleftrightarrow> attempts_ok (db_attempts db) \<and> events_ok (db_attempts db) (db_events db)"

text \<open>The row \<open>old\<close> becomes \<open>new\<close>, and the log says so.\<close>

definition recorded :: "('m) broker_db_scheme \<Rightarrow> attempt_row \<Rightarrow> attempt_row \<Rightarrow> ('m) broker_db_scheme \<Rightarrow> bool" where
  "recorded db old new db' \<longleftrightarrow> old \<in> set (db_attempts db) \<and> same_identity new old \<and> store_ok db'
     \<and> (\<exists>detail now. db' = db\<lparr>db_attempts := rewritten (\<lambda>r. r = old) (\<lambda>_. new) (db_attempts db),
                               db_events := db_events db @ [event_of db new detail now]\<rparr>)"

text \<open>A new row, and its first event.\<close>

definition admitted :: "('m) broker_db_scheme \<Rightarrow> attempt_row \<Rightarrow> ('m) broker_db_scheme \<Rightarrow> bool" where
  "admitted db row db' \<longleftrightarrow> mt_state row = Mu_prepared \<and> store_ok db'
     \<and> (\<exists>detail now. db' = db\<lparr>db_attempts := db_attempts db @ [row], db_events := db_events db @ [event_of db row detail now]\<rparr>)"

text \<open>The edges of the life cycle.\<close>

definition broker_edges :: "(mutation_state \<times> mutation_state) list" where
  "broker_edges =
     [(Mu_prepared, Mu_dispatched), (Mu_prepared, Mu_failed_pre_dispatch), (Mu_prepared, Mu_cancelled),
      (Mu_dispatched, Mu_completed), (Mu_dispatched, Mu_cancel_requested), (Mu_dispatched, Mu_indeterminate),
      (Mu_dispatched, Mu_reconciled), (Mu_cancel_requested, Mu_indeterminate), (Mu_cancel_requested, Mu_reconciled),
      (Mu_indeterminate, Mu_reconciled)]"

definition broker_edge :: "mutation_state \<Rightarrow> mutation_state \<Rightarrow> bool" where
  "broker_edge s t \<longleftrightarrow> (s, t) \<in> set broker_edges"

fun mutation_rank :: "mutation_state \<Rightarrow> nat" where
  "mutation_rank Mu_prepared = 0"
| "mutation_rank Mu_dispatched = 1"
| "mutation_rank Mu_cancel_requested = 2"
| "mutation_rank Mu_indeterminate = 3"
| "mutation_rank _ = 4"

lemma broker_edge_rank: "broker_edge s t \<Longrightarrow> mutation_rank s < mutation_rank t"
  by (auto simp: broker_edge_def broker_edges_def)

lemma broker_edge_unresolved: "broker_edge s t \<Longrightarrow> unresolved_state s"
  by (auto simp: broker_edge_def broker_edges_def unresolved_state_def)

section \<open>Inversion\<close>

named_theorems broker_defs \<comment> \<open>the wrappers of \<open>transition\<close>\<close>

lemmas [broker_defs] = dispatchCredentialBrokerMutation_def completeCredentialBrokerMutation_def
  failCredentialBrokerMutationBeforeDispatch_def markCredentialBrokerMutationIndeterminate_def reconcileCredentialBrokerMutation_def

lemma decodeRow_row:
  assumes "decodeRow env row = Inr a"
  shows "ma_row a = row \<and> request_matches (ma_request a) row"
proof (cases "env_json_parse env (mt_request_json row)")
  case None
  with assms show ?thesis by (simp add: decodeRow_def parseJsonRow_def)
next
  case (Some v)
  with assms show ?thesis by (cases v) (auto simp: decodeRow_def parseJsonRow_def bindE_Inr throwIf_Inr)
qed

lemma readAttempt_row: "readAttempt env requestId db = Inr a \<Longrightarrow> rowByRequestId db requestId = Some (ma_row a)"
  by (auto simp: readAttempt_def dest: decodeRow_row split: option.splits)

lemma rowByRequestId_Some: "rowByRequestId db requestId = Some r \<Longrightarrow> r \<in> set (db_attempts db) \<and> mt_request_id r = requestId"
  by (auto simp: rowByRequestId_def dest: find_SomeD)

lemma rowByRequestId_None: "rowByRequestId db requestId = None \<Longrightarrow> r \<in> set (db_attempts db) \<Longrightarrow> mt_request_id r \<noteq> requestId"
  by (auto simp: rowByRequestId_def dest: find_NoneD)

lemma rowByRequestId_mem:
  assumes "attempts_ok (db_attempts db)" and "r \<in> set (db_attempts db)"
  shows "rowByRequestId db (mt_request_id r) = Some r"
proof (cases "rowByRequestId db (mt_request_id r)")
  case None
  with assms(2) show ?thesis by (auto dest: rowByRequestId_None)
next
  case (Some s)
  have "unique_on (\<lambda>_. True) mt_request_id (db_attempts db)" using assms(1) by (simp add: attempts_ok_def)
  from unique_on_eq [OF this] rowByRequestId_Some [OF Some] assms(2) have "s = r" by simp
  with Some show ?thesis by simp
qed

lemma appendEvent_Inr:
  "appendEvent env now requestId digest s detail db = Inr db' \<Longrightarrow>
     \<exists>json. db' = db\<lparr>db_events := db_events db @ [\<lparr>me_sequence = next_sequence (db_events db), me_request_id = requestId, me_digest = digest,
              me_state = s, me_detail_json = json, me_created_at = now\<rparr>]\<rparr> \<and> events_ok (db_attempts db) (db_events db')"
  by (auto simp: appendEvent_def bind_inv)

text \<open>A guarded update of one attempt followed by its event.\<close>

lemma update_recorded:
  assumes ok: "attempts_ok (db_attempts db)" and row: "rowByRequestId db requestId = Some existing"
    and upd: "sql_update attempts_ok (\<lambda>r. mt_request_id r = requestId \<and> P r) f (db_attempts db) = Inr (rows, 1)"
    and same: "same_identity (f existing) existing"
    and ev: "appendEvent env now requestId (mt_digest existing) (mt_state (f existing)) detail (db\<lparr>db_attempts := rows\<rparr>) = Inr db'"
  shows "recorded db existing (f existing) db' \<and> rowByRequestId db' requestId = Some (f existing)"
proof -
  note ex = rowByRequestId_Some [OF row]
  from upd have u: "rows = rewritten (\<lambda>r. mt_request_id r = requestId \<and> P r) f (db_attempts db)" "attempts_ok rows"
      "length (filter (\<lambda>r. mt_request_id r = requestId \<and> P r) (db_attempts db)) = 1"
    by (auto simp: sql_update_Inr)
  have "unique_on (\<lambda>_. True) mt_request_id (db_attempts db)" using ok by (simp add: attempts_ok_def)
  from rewritten_unique [OF this conjunct1 [OF ex], where P = "\<lambda>r. mt_request_id r = requestId \<and> P r" and f = f] u ex
  have rows: "rows = rewritten (\<lambda>r. r = existing) (\<lambda>_. f existing) (db_attempts db)" by auto
  from appendEvent_Inr [OF ev] obtain json where
    db': "db' = db\<lparr>db_attempts := rows, db_events := db_events db @ [event_of db (f existing) json now]\<rparr>"
    and eok: "events_ok rows (db_events db')"
    using ex by (auto simp: event_of_def same_identity_keys [OF same])
  have "attempts_ok (db_attempts db')" using u(2) db' by simp
  moreover from this eok db' have "store_ok db'" by (simp add: store_ok_def)
  moreover have "f existing \<in> set (db_attempts db')" using ex by (auto simp: db' rows rewritten_def)
  ultimately show ?thesis
    using ex same rows db' rowByRequestId_mem [of db' "f existing"] by (auto simp: recorded_def same_identity_keys [OF same])
qed

lemma transition_cases:
  assumes ok: "attempts_ok (db_attempts db)" and t: "transition env now requestId from to options db = Inr (db', a)"
  obtains (stay) "rowByRequestId db requestId = Some (ma_row a)" "mt_state (ma_row a) = to" "to \<notin> set from" "db' = db"
  | (move) existing where "rowByRequestId db requestId = Some existing" "mt_state existing \<in> set from" "recorded db existing (ma_row a) db'"
      "rowByRequestId db' requestId = Some (ma_row a)" "mt_state (ma_row a) = to"
      "mt_error (ma_row a) = or_else (boundedError (ox_error options)) (mt_error existing)"
      "mt_resolution (ma_row a) = or_else (ox_resolution options) (mt_resolution existing)"
      "mt_provider_json (ma_row a) = mt_provider_json existing"
      "if ox_result options = JUndef then mt_result_json (ma_row a) = mt_result_json existing
       else \<exists>json. boundedJson env (ox_result options) MAX_RESULT_BYTES ''result'' = (Inr json :: broker_conflict err + string)
              \<and> mt_result_json (ma_row a) = Some json"
proof -
  from t obtain existing where row: "rowByRequestId db requestId = Some existing"
    by (auto simp: transition_def split: option.splits)
  show thesis
  proof (cases "mt_state existing \<in> set from")
    case False
    with t row have "decodeRow env existing = (Inr a :: broker_conflict err + mutation_attempt)" "db' = db" "mt_state existing = to"
      by (auto simp: transition_def bind_inv split: if_splits)
    with False row stay show thesis by (auto dest: decodeRow_row)
  next
    case True
    define json where "json = (if ox_result options = JUndef then Inr (mt_result_json existing)
        else bindE (boundedJson env (ox_result options) MAX_RESULT_BYTES ''result'') (\<lambda>json. Inr (Some json)) :: broker_conflict err + string option)"
    from row True obtain resultJson rows changes where
      j: "json = Inr resultJson"
      and u: "sql_update attempts_ok (\<lambda>r. mt_request_id r = requestId \<and> mt_state r \<in> set from)
                (\<lambda>r. r\<lparr>mt_state := to, mt_result_json := resultJson,
                       mt_error := or_else (boundedError (ox_error options)) (mt_error existing),
                       mt_resolution := or_else (ox_resolution options) (mt_resolution existing), mt_updated_at := now\<rparr>)
                (db_attempts db) = (Inr (rows, changes) :: broker_conflict err + _)" "changes = 1"
      and e: "appendEvent env now requestId (mt_digest existing) to (event_detail (ox_resolution options)) (db\<lparr>db_attempts := rows\<rparr>) = Inr db'"
      and r: "readAttempt env requestId db' = Inr a"
      using t [unfolded transition_def] by (auto simp: json_def [symmetric] bindE_Inr throwIf_Inr)
    let ?f = "\<lambda>r. r\<lparr>mt_state := to, mt_result_json := resultJson,
                       mt_error := or_else (boundedError (ox_error options)) (mt_error existing),
                       mt_resolution := or_else (ox_resolution options) (mt_resolution existing), mt_updated_at := now\<rparr>"
    have rec: "recorded db existing (?f existing) db' \<and> rowByRequestId db' requestId = Some (?f existing)"
      by (rule update_recorded [OF ok row u(1) [unfolded u(2)], of env now "event_detail (ox_resolution options)"])
        (use e in \<open>simp_all add: same_identity_def\<close>)
    with readAttempt_row [OF r] have "ma_row a = ?f existing" by simp
    moreover from j have "if ox_result options = JUndef then resultJson = mt_result_json existing
       else \<exists>json. boundedJson env (ox_result options) MAX_RESULT_BYTES ''result'' = (Inr json :: broker_conflict err + string) \<and> resultJson = Some json"
      by (auto simp: json_def bind_inv split: if_splits)
    ultimately show thesis using rec row True by (intro move [of existing]) simp_all
  qed
qed

lemma checkpoint_cases:
  assumes ok: "attempts_ok (db_attempts db)" and t: "checkpointCredentialBrokerMutation env now requestId patch db = Inr (db', a)"
  obtains existing where "rowByRequestId db requestId = Some existing" "unresolved existing" "recorded db existing (ma_row a) db'"
    "rowByRequestId db' requestId = Some (ma_row a)" "mt_state (ma_row a) = mt_state existing" "mt_resolution (ma_row a) = mt_resolution existing"
    "mt_result_json (ma_row a) = mt_result_json existing"
proof -
  from t obtain existing where row: "rowByRequestId db requestId = Some existing"
    by (auto simp: checkpointCredentialBrokerMutation_def split: option.splits)
  with t obtain json rows detail where un: "unresolved existing"
    and u: "sql_update attempts_ok (\<lambda>r. mt_request_id r = requestId \<and> mt_state r = mt_state existing)
        (\<lambda>r. r\<lparr>mt_provider_json := Some json, mt_updated_at := now\<rparr>) (db_attempts db) = (Inr (rows, 1) :: broker_conflict err + _)"
    and e: "appendEvent env now requestId (mt_digest existing) (mt_state existing) detail (db\<lparr>db_attempts := rows\<rparr>) = Inr db'"
    and r: "readAttempt env requestId db' = Inr a"
    unfolding checkpointCredentialBrokerMutation_def by (auto simp: bindE_Inr throwIf_Inr split: prod.splits)
  let ?f = "\<lambda>r. r\<lparr>mt_provider_json := Some json, mt_updated_at := now\<rparr>"
  have rec: "recorded db existing (?f existing) db' \<and> rowByRequestId db' requestId = Some (?f existing)"
    by (rule update_recorded [OF ok row u]) (use e in \<open>simp_all add: same_identity_def\<close>)
  with readAttempt_row [OF r] have "ma_row a = ?f existing" by simp
  with rec row un show thesis by (intro that [of existing]) simp_all
qed

lemma newAttemptRow_Inr:
  assumes "newAttemptRow now requestJson input = (Inr row :: 'a err + attempt_row)"
  shows "obj_get (pi_request input) ''request_id'' = JStr (mt_request_id row)
     \<and> obj_get (pi_request input) ''idempotency_key'' = JStr (mt_idempotency_key row)
     \<and> obj_get (pi_request input) ''credential_ref'' = JStr (mt_credential_ref row)
     \<and> obj_get (pi_request input) ''broker'' = JStr (mt_broker row)
     \<and> obj_get (pi_request input) ''action'' = JStr (mt_action row)
     \<and> mt_digest row = pi_digest input \<and> mt_target row = pi_target input
     \<and> mt_state row = Mu_prepared \<and> mt_resolution row = None"
proof -
  have bound: "bind_text v = (Inr s :: 'a err + string) \<longleftrightarrow> v = JStr s" for v s by (cases v) (auto simp: bind_text_def)
  from assms show ?thesis unfolding newAttemptRow_def Let_def bindE_Inr bound by auto
qed

definition requested :: "prepare_input \<Rightarrow> attempt_row \<Rightarrow> bool" where
  "requested input r \<longleftrightarrow> same_text (obj_get (pi_request input) ''request_id'') (mt_request_id r)
     \<or> same_text (obj_get (pi_request input) ''credential_ref'') (mt_credential_ref r)
       \<and> same_text (obj_get (pi_request input) ''broker'') (mt_broker r)
       \<and> same_text (obj_get (pi_request input) ''action'') (mt_action r)
       \<and> same_text (obj_get (pi_request input) ''idempotency_key'') (mt_idempotency_key r)"

definition blocks :: "prepare_input \<Rightarrow> attempt_row \<Rightarrow> bool" where
  "blocks input r \<longleftrightarrow> same_text (obj_get (pi_request input) ''credential_ref'') (mt_credential_ref r)
     \<and> same_text (obj_get (pi_request input) ''broker'') (mt_broker r) \<and> mt_target r = pi_target input \<and> unresolved r"

lemma find_True_None: "find (\<lambda>_. True) xs = None \<longleftrightarrow> xs = []"
  by (cases xs) auto

lemma find_True_Some: "find (\<lambda>_. True) xs = Some x \<Longrightarrow> x \<in> set xs"
  by (cases xs) auto

lemma unresolvedTarget_None: "unresolvedTarget db (pi_request input) (pi_target input) = None \<longleftrightarrow> \<not> (\<exists>r \<in> set (db_attempts db). blocks input r)"
proof -
  have "unresolvedTarget db (pi_request input) (pi_target input) = None \<longleftrightarrow> filter (blocks input) (db_attempts db) = []"
    unfolding unresolvedTarget_def find_True_None blocks_def by (simp flip: length_0_conv)
  then show ?thesis by (simp add: filter_empty_conv)
qed

lemma unresolvedTarget_Some: "unresolvedTarget db (pi_request input) (pi_target input) = Some r \<Longrightarrow> r \<in> set (db_attempts db) \<and> blocks input r"
  unfolding unresolvedTarget_def by (drule find_True_Some) (auto simp: blocks_def)

lemma existing_lookup:
  assumes "obj_get (pi_request input) ''request_id'' = JStr requestId"
  shows "(case rowByRequestId db requestId of Some r \<Rightarrow> Some r | None \<Rightarrow> rowByIdempotency db (pi_request input)) = None
      \<longleftrightarrow> \<not> (\<exists>r \<in> set (db_attempts db). requested input r)"
    and "(case rowByRequestId db requestId of Some r \<Rightarrow> Some r | None \<Rightarrow> rowByIdempotency db (pi_request input)) = Some r
      \<Longrightarrow> r \<in> set (db_attempts db) \<and> requested input r"
  by (auto simp: rowByRequestId_def rowByIdempotency_def requested_def same_text_def find_None_iff assms
      dest!: find_SomeD split: option.splits)

lemma prepare_cases:
  assumes "prepareCredentialBrokerMutation env now input db = Inr (db', s, a)"
  obtains (duplicate) "s = Pr_duplicate" "db' = db" "ma_row a \<in> set (db_attempts db)"
      "obj_get (pi_request input) ''request_id'' = JStr (mt_request_id (ma_row a))" "mt_digest (ma_row a) = pi_digest input"
  | (blocked) "s = Pr_blocked" "db' = db" "ma_row a \<in> set (db_attempts db)" "blocks input (ma_row a)" "\<not> (\<exists>r \<in> set (db_attempts db). requested input r)"
  | (created) "s = Pr_created" "admitted db (ma_row a) db'" "\<not> (\<exists>r \<in> set (db_attempts db). requested input r)"
      "\<not> (\<exists>r \<in> set (db_attempts db). blocks input r)" "obj_get (pi_request input) ''request_id'' = JStr (mt_request_id (ma_row a))"
      "mt_digest (ma_row a) = pi_digest input" "mt_target (ma_row a) = pi_target input" "requested input (ma_row a)" "blocks input (ma_row a)"
      "rowByRequestId db' (mt_request_id (ma_row a)) = Some (ma_row a)"
proof -
  obtain requestJson requestId where id: "obj_get (pi_request input) ''request_id'' = JStr requestId"
    and main: "(case (case rowByRequestId db requestId of Some r \<Rightarrow> Some r | None \<Rightarrow> rowByIdempotency db (pi_request input)) of
        Some existing \<Rightarrow>
          throwIf (mt_request_id existing \<noteq> requestId
              \<or> mt_digest existing \<noteq> pi_digest input
              \<or> \<not> same_text (obj_get (pi_request input) ''idempotency_key'') (mt_idempotency_key existing))
            (Conflict Broker_collision)
            (bindE (decodeRow env existing) (\<lambda>attempt. Inr (db, Pr_duplicate, attempt)))
      | None \<Rightarrow> (case unresolvedTarget db (pi_request input) (pi_target input) of
            Some blocking \<Rightarrow> bindE (decodeRow env blocking) (\<lambda>attempt. Inr (db, Pr_blocked, attempt))
          | None \<Rightarrow>
              bindE (newAttemptRow now requestJson input) (\<lambda>row.
              bindE (sql_insert attempts_ok row (db_attempts db)) (\<lambda>rows.
              bindE (appendEvent env now requestId (pi_digest input) Mu_prepared
                  (JObj [(''source_type'', obj_get (pi_request input) ''transport_kind''), (''semantic_target'', JStr (pi_target input))])
                  (db\<lparr>db_attempts := rows\<rparr>)) (\<lambda>db'.
              bindE (readAttempt env requestId db') (\<lambda>attempt. Inr (db', Pr_created, attempt))))))) = Inr (db', s, a)"
  proof -
    have bound: "bind_text v = (Inr s :: broker_conflict err + string) \<longleftrightarrow> v = JStr s" for v s by (cases v) (auto simp: bind_text_def)
    from assms [unfolded prepareCredentialBrokerMutation_def throwIf_Inr bindE_Inr bound] show thesis by (blast intro: that)
  qed
  show thesis
  proof (cases "case rowByRequestId db requestId of Some r \<Rightarrow> Some r | None \<Rightarrow> rowByIdempotency db (pi_request input)")
    case (Some existing)
    with main have "mt_request_id existing = requestId" "mt_digest existing = pi_digest input" "s = Pr_duplicate" "db' = db"
        "ma_row a = existing"
      by (auto simp: bindE_Inr throwIf_Inr dest: decodeRow_row)
    with existing_lookup(2) [OF id Some] id show thesis by (intro duplicate) simp_all
  next
    case None
    then have fresh: "\<not> (\<exists>r \<in> set (db_attempts db). requested input r)" using existing_lookup(1) [OF id, of db] by blast
    show thesis
    proof (cases "unresolvedTarget db (pi_request input) (pi_target input)")
      case (Some blocking)
      with main None have "s = Pr_blocked" "db' = db" "ma_row a = blocking" by (auto simp: bindE_Inr dest: decodeRow_row)
      with unresolvedTarget_Some [OF Some] fresh show thesis by (intro blocked) simp_all
    next
      case free: None
      from main [unfolded None free option.case bindE_Inr sql_insert_Inr] obtain row where
        row: "newAttemptRow now requestJson input = (Inr row :: broker_conflict err + attempt_row)" and ok: "attempts_ok (db_attempts db @ [row])"
        and ev: "appendEvent env now requestId (pi_digest input) Mu_prepared
                  (JObj [(''source_type'', obj_get (pi_request input) ''transport_kind''), (''semantic_target'', JStr (pi_target input))])
                  (db\<lparr>db_attempts := db_attempts db @ [row]\<rparr>) = Inr db'"
        and read: "readAttempt env requestId db' = Inr a" and s: "s = Pr_created"
        by auto
      note n = newAttemptRow_Inr [OF row]
      from appendEvent_Inr [OF ev] obtain json where
        db': "db' = db\<lparr>db_attempts := db_attempts db @ [row], db_events := db_events db @ [event_of db row json now]\<rparr>"
        and eok: "events_ok (db_attempts db @ [row]) (db_events db')"
        using n id by (auto simp: event_of_def)
      have "store_ok db'" using ok eok by (simp add: store_ok_def db')
      moreover have "rowByRequestId db' (mt_request_id row) = Some row" by (rule rowByRequestId_mem) (simp_all add: db' ok)
      moreover from this readAttempt_row [OF read] n id have "ma_row a = row" by simp
      moreover have "admitted db row db'" unfolding admitted_def using n calculation(1) db' by auto
      moreover have "requested input row" "blocks input row"
        using n by (simp_all add: requested_def blocks_def same_text_def unresolved_def unresolved_state_def)
      ultimately show thesis using fresh free n s by (intro created) (simp_all add: unresolvedTarget_None)
    qed
  qed
qed

section \<open>Every operation is a read or one recorded change\<close>

inductive broker_change :: "('m) broker_db_scheme \<Rightarrow> ('m) broker_db_scheme \<Rightarrow> bool" where
  change_none: "broker_change db db"
| change_admit: "admitted db row db' \<Longrightarrow> mt_resolution row = None \<Longrightarrow> broker_change db db'"
| change_move: "recorded db old new db' \<Longrightarrow> broker_edge (mt_state old) (mt_state new) \<Longrightarrow> broker_change db db'"
| change_checkpoint: "recorded db old new db' \<Longrightarrow> unresolved old \<Longrightarrow> mt_state new = mt_state old \<Longrightarrow> mt_resolution new = mt_resolution old \<Longrightarrow>
    mt_result_json new = mt_result_json old \<Longrightarrow> broker_change db db'"

inductive_cases broker_change_cases: "broker_change db db'"

lemma transition_change:
  assumes "attempts_ok (db_attempts db)" and "transition env now requestId from to options db = Inr (db', a)"
    and "\<And>s. s \<in> set from \<Longrightarrow> broker_edge s to"
  shows "broker_change db db'"
  using assms(1,2)
proof (cases rule: transition_cases)
  case stay
  then show ?thesis by (simp add: change_none)
next
  case (move existing)
  with assms(3) show ?thesis by (intro change_move) auto
qed

lemma wrapper_edges:
  "s \<in> set [Mu_prepared] \<Longrightarrow> broker_edge s Mu_dispatched"
  "s \<in> set [Mu_dispatched] \<Longrightarrow> broker_edge s Mu_completed"
  "s \<in> set [Mu_prepared] \<Longrightarrow> broker_edge s Mu_failed_pre_dispatch"
  "s \<in> set [Mu_prepared] \<Longrightarrow> broker_edge s Mu_cancelled"
  "s \<in> set [Mu_dispatched] \<Longrightarrow> broker_edge s Mu_cancel_requested"
  "s \<in> set [Mu_dispatched, Mu_cancel_requested] \<Longrightarrow> broker_edge s Mu_indeterminate"
  "s \<in> set [Mu_dispatched, Mu_cancel_requested, Mu_indeterminate] \<Longrightarrow> broker_edge s Mu_reconciled"
  by (auto simp: broker_edge_def broker_edges_def)

lemma wrapper_change:
  assumes "attempts_ok (db_attempts db)"
  shows "dispatchCredentialBrokerMutation env now r db = Inr (db', a) \<Longrightarrow> broker_change db db'"
    and "completeCredentialBrokerMutation env now r v db = Inr (db', a) \<Longrightarrow> broker_change db db'"
    and "failCredentialBrokerMutationBeforeDispatch env now r e db = Inr (db', a) \<Longrightarrow> broker_change db db'"
    and "markCredentialBrokerMutationIndeterminate env now r e db = Inr (db', a) \<Longrightarrow> broker_change db db'"
    and "reconcileCredentialBrokerMutation env now r x v oe db = Inr (db', a) \<Longrightarrow> broker_change db db'"
  unfolding broker_defs by (erule transition_change [OF assms], erule wrapper_edges)+

lemma cancel_change:
  assumes "attempts_ok (db_attempts db)" and "cancelCredentialBrokerMutationAttempt env now requestId reason db = Inr (db', a)"
  shows "broker_change db db'"
proof -
  from assms(2) obtain existing where "(if mt_state (ma_row existing) = Mu_prepared
         then transition env now requestId [Mu_prepared] Mu_cancelled (no_options\<lparr>ox_error := Some reason\<rparr>) db
         else if mt_state (ma_row existing) = Mu_dispatched
         then transition env now requestId [Mu_dispatched] Mu_cancel_requested (no_options\<lparr>ox_error := Some reason\<rparr>) db
         else Inr (db, existing)) = Inr (db', a)"
    by (auto simp: cancelCredentialBrokerMutationAttempt_def bindE_Inr split: option.splits)
  then show ?thesis
    by (auto split: if_splits intro: change_none transition_change [OF assms(1) _ wrapper_edges(4)] transition_change [OF assms(1) _ wrapper_edges(5)])
qed

lemma step_change:
  assumes "attempts_ok (db_attempts db)" and "broker_step env db db'"
  shows "broker_change db db'"
proof -
  from assms(2) obtain now op where run: "run_op env now op db = Inr db'" by (auto simp: broker_step_def)
  show ?thesis
  proof (cases op)
    case (Op_prepare input)
    with run obtain s a where "prepareCredentialBrokerMutation env now input db = Inr (db', s, a)" by (auto simp: bindE_Inr)
    then show ?thesis
    proof (cases rule: prepare_cases)
      case created
      then have "mt_state (ma_row a) \<noteq> Mu_reconciled" "attempt_check (ma_row a)"
        by (auto simp: admitted_def store_ok_def attempts_ok_def)
      then have "mt_resolution (ma_row a) = None" unfolding attempt_check_def by blast
      with created show ?thesis by (blast intro: change_admit)
    qed (simp_all add: change_none)
  next
    case (Op_cancel r e)
    with run cancel_change [OF assms(1)] show ?thesis by (auto simp: attempt_only_def bindE_Inr)
  next
    case (Op_checkpoint r p)
    with run obtain a where "checkpointCredentialBrokerMutation env now r p db = Inr (db', a)" by (auto simp: attempt_only_def bindE_Inr)
    with assms(1) show ?thesis by (cases rule: checkpoint_cases) (blast intro: change_checkpoint)
  qed (use run wrapper_change [OF assms(1)] in \<open>auto simp: attempt_only_def bindE_Inr\<close>)
qed

section \<open>The log\<close>

definition attempt_log :: "('m) broker_db_scheme \<Rightarrow> string \<Rightarrow> mutation_state list" where
  "attempt_log db requestId = map me_state (filter (\<lambda>e. me_request_id e = requestId) (db_events db))"

text \<open>A checkpoint repeats the state; every other event follows an edge.\<close>

definition log_edge :: "mutation_state \<Rightarrow> mutation_state \<Rightarrow> bool" where
  "log_edge s t \<longleftrightarrow> broker_edge s t \<or> s = t \<and> unresolved_state s"

definition lawful_log :: "mutation_state list \<Rightarrow> mutation_state \<Rightarrow> bool" where
  "lawful_log path s \<longleftrightarrow> path \<noteq> [] \<and> hd path = Mu_prepared \<and> last path = s \<and> successively log_edge path"

lemma lawful_log_snoc: "lawful_log path s \<Longrightarrow> log_edge s t \<Longrightarrow> lawful_log (path @ [t]) t"
  by (auto simp: lawful_log_def successively_append_iff)

text \<open>No state is entered again: the states of a log without its repetitions are distinct.\<close>

lemma ranks_sorted: "successively log_edge path \<Longrightarrow> sorted_wrt (\<lambda>s t. mutation_rank s < mutation_rank t) (remdups_adj path)"
proof -
  assume "successively log_edge path"
  then have "successively (\<lambda>s t. mutation_rank s < mutation_rank t) (remdups_adj path)"
  proof (induction path rule: remdups_adj.induct)
    case (3 s t path)
    show ?case
    proof (cases "s = t")
      case True
      with 3 show ?thesis by simp
    next
      case False
      with 3 have "mutation_rank s < mutation_rank t" by (auto simp: log_edge_def broker_edge_rank)
      moreover have "hd (remdups_adj (t # path)) = t" "remdups_adj (t # path) \<noteq> []" by simp_all
      moreover have "successively (\<lambda>s t. mutation_rank s < mutation_rank t) (remdups_adj (t # path))" using 3 False by simp
      moreover have "remdups_adj (s # t # path) = s # remdups_adj (t # path)" using False by simp
      ultimately show ?thesis by (simp only: successively_Cons) simp
    qed
  qed simp_all
  then show ?thesis by (simp add: successively_conv_sorted_wrt transp_def)
qed

lemma lawful_log_distinct: "lawful_log path s \<Longrightarrow> distinct (remdups_adj path)"
proof -
  assume "lawful_log path s"
  then have "sorted_wrt (\<lambda>s t. mutation_rank s < mutation_rank t) (remdups_adj path)" by (simp add: lawful_log_def ranks_sorted)
  then show ?thesis by (induction "remdups_adj path" arbitrary: path rule: list.induct) (auto simp: sorted_wrt_iff_nth_less distinct_conv_nth, metis less_irrefl nat_neq_iff)
qed

definition broker_inv :: "('m) broker_db_scheme \<Rightarrow> bool" where
  "broker_inv db \<longleftrightarrow> store_ok db
     \<and> (\<forall>r \<in> set (db_attempts db). lawful_log (attempt_log db (mt_request_id r)) (mt_state r))
     \<and> (\<forall>e \<in> set (db_events db). \<exists>r \<in> set (db_attempts db). mt_request_id r = me_request_id e \<and> mt_digest r = me_digest e)
     \<and> map me_sequence (db_events db) = map int [1..<Suc (length (db_events db))]"

lemma next_sequence_length:
  assumes "map me_sequence events = map int [1..<Suc (length events)]"
  shows "next_sequence events = int (length events) + 1"
proof -
  have "fold max (map int [1..<Suc n]) 0 = int n" for n by (induction n) auto
  with assms show ?thesis by (simp add: next_sequence_def)
qed

lemma attempt_log_append:
  "db_events db' = db_events db @ [e] \<Longrightarrow> attempt_log db' k = attempt_log db k @ (if me_request_id e = k then [me_state e] else [])"
  by (simp add: attempt_log_def)

lemma broker_inv_recorded:
  assumes inv: "broker_inv db" and rec: "recorded db old new db'" and edge: "log_edge (mt_state old) (mt_state new)"
  shows "broker_inv db'"
proof -
  from rec obtain detail now where db': "db_attempts db' = rewritten (\<lambda>r. r = old) (\<lambda>_. new) (db_attempts db)"
      "db_events db' = db_events db @ [event_of db new detail now]"
    and old: "old \<in> set (db_attempts db)" and same: "same_identity new old" and ok: "store_ok db'"
    by (auto simp: recorded_def)
  note keys = same_identity_keys [OF same]
  have uniq: "unique_on (\<lambda>_. True) mt_request_id (db_attempts db)" using inv by (simp add: broker_inv_def store_ok_def attempts_ok_def)
  note logs = attempt_log_append [OF db'(2)]
  have "lawful_log (attempt_log db' (mt_request_id r)) (mt_state r)" if r: "r \<in> set (db_attempts db')" for r
  proof (cases "r = new")
    case True
    have "lawful_log (attempt_log db (mt_request_id old)) (mt_state old)" using inv old by (simp add: broker_inv_def)
    from lawful_log_snoc [OF this edge] True show ?thesis by (simp add: logs event_of_def keys)
  next
    case False
    with r have mem: "r \<in> set (db_attempts db)" "r \<noteq> old" by (auto simp: db'(1) rewritten_def split: if_splits)
    with unique_on_eq [OF uniq mem(1) old] have "mt_request_id r \<noteq> mt_request_id old" by auto
    with mem(1) inv show ?thesis by (simp add: logs event_of_def keys broker_inv_def)
  qed
  moreover have "\<exists>r \<in> set (db_attempts db'). mt_request_id r = me_request_id e \<and> mt_digest r = me_digest e" if e: "e \<in> set (db_events db')" for e
  proof -
    have new: "new \<in> set (db_attempts db')" using old by (auto simp: db'(1) rewritten_def)
    consider "e = event_of db new detail now" | "e \<in> set (db_events db)" using e by (auto simp: db'(2))
    then show ?thesis
    proof cases
      case 1
      with new show ?thesis by (auto simp: event_of_def)
    next
      case 2
      with inv obtain r where r: "r \<in> set (db_attempts db)" "mt_request_id r = me_request_id e" "mt_digest r = me_digest e"
        by (auto simp: broker_inv_def)
      show ?thesis
      proof (cases "r = old")
        case True
        with r new keys show ?thesis by auto
      next
        case False
        with r(1) have "r \<in> set (db_attempts db')" by (force simp: db'(1) rewritten_def)
        with r show ?thesis by blast
      qed
    qed
  qed
  moreover have "map me_sequence (db_events db') = map int [1..<Suc (length (db_events db'))]"
    using inv next_sequence_length [of "db_events db"] by (simp add: broker_inv_def db'(2) event_of_def)
  ultimately show ?thesis using ok by (simp add: broker_inv_def)
qed

lemma admitted_fresh:
  assumes "admitted db row db'" and "r \<in> set (db_attempts db)"
  shows "mt_request_id r \<noteq> mt_request_id row"
proof -
  from assms(1) have "unique_on (\<lambda>_. True) mt_request_id (db_attempts db @ [row])" by (auto simp: admitted_def store_ok_def attempts_ok_def)
  with assms(2) show ?thesis by (simp add: unique_on_insert)
qed

lemma broker_inv_admitted:
  assumes inv: "broker_inv db" and adm: "admitted db row db'"
  shows "broker_inv db'"
proof -
  from adm obtain detail now where db': "db_attempts db' = db_attempts db @ [row]" "db_events db' = db_events db @ [event_of db row detail now]"
    and ok: "store_ok db'" and prepared: "mt_state row = Mu_prepared"
    by (auto simp: admitted_def)
  note fresh = admitted_fresh [OF adm]
  note logs = attempt_log_append [OF db'(2)]
  have "attempt_log db (mt_request_id row) = []"
    using inv fresh by (force simp: attempt_log_def broker_inv_def filter_empty_conv)
  then have "lawful_log (attempt_log db' (mt_request_id row)) (mt_state row)"
    by (simp add: logs event_of_def lawful_log_def prepared)
  moreover have "lawful_log (attempt_log db' (mt_request_id r)) (mt_state r)" if "r \<in> set (db_attempts db)" for r
    using that inv fresh [OF that] by (simp add: logs event_of_def broker_inv_def)
  moreover have "map me_sequence (db_events db') = map int [1..<Suc (length (db_events db'))]"
    using inv next_sequence_length [of "db_events db"] by (simp add: broker_inv_def db'(2) event_of_def)
  moreover have "\<exists>r \<in> set (db_attempts db'). mt_request_id r = me_request_id e \<and> mt_digest r = me_digest e" if "e \<in> set (db_events db')" for e
    using that inv by (auto simp: db' event_of_def broker_inv_def)
  ultimately show ?thesis using ok by (auto simp: broker_inv_def db'(1))
qed

lemma broker_inv_change: "broker_inv db \<Longrightarrow> broker_change db db' \<Longrightarrow> broker_inv db'"
  by (erule broker_change_cases)
    (auto intro: broker_inv_recorded broker_inv_admitted simp: log_edge_def unresolved_def)

lemma broker_inv_ok: "broker_inv db \<Longrightarrow> attempts_ok (db_attempts db)"
  by (simp add: broker_inv_def store_ok_def)

lemma broker_inv_init: "broker_init db \<Longrightarrow> broker_inv db"
  by (simp add: broker_init_def broker_inv_def store_ok_def attempts_ok_def events_ok_def)

section \<open>One automaton per request\<close>

definition mutation_phase :: "('m) broker_db_scheme \<Rightarrow> string \<Rightarrow> (mutation_state \<times> resolution option) option" where
  "mutation_phase db requestId = map_option (\<lambda>r. (mt_state r, mt_resolution r)) (rowByRequestId db requestId)"

definition mutation_spec :: "(mutation_state \<times> resolution option) option \<Rightarrow> (mutation_state \<times> resolution option) option \<Rightarrow> bool" where
  "mutation_spec p q \<longleftrightarrow>
     q = p
     \<or> p = None \<and> q = Some (Mu_prepared, None)
     \<or> (\<exists>s t x. p = Some (s, None) \<and> q = Some (t, x) \<and> broker_edge s t \<and> (t = Mu_reconciled \<longleftrightarrow> x \<noteq> None))"

lemma recorded_row:
  assumes ok: "attempts_ok (db_attempts db)" and rec: "recorded db old new db'"
  shows "rowByRequestId db' k = (if k = mt_request_id old then Some new else rowByRequestId db k)"
proof -
  from rec have db': "db_attempts db' = rewritten (\<lambda>r. r = old) (\<lambda>_. new) (db_attempts db)" and same: "same_identity new old"
    and old: "old \<in> set (db_attempts db)"
    by (auto simp: recorded_def)
  have "rowByRequestId db' k = map_option (\<lambda>r. if r = old then new else r) (rowByRequestId db k)"
    unfolding rowByRequestId_def db' by (rule find_update) (simp add: same_identity_keys [OF same])
  then show ?thesis using rowByRequestId_mem [OF ok old]
    by (cases "rowByRequestId db k") (auto dest: rowByRequestId_Some)
qed

lemma admitted_row:
  assumes "admitted db row db'"
  shows "rowByRequestId db' k = (if k = mt_request_id row then Some row else rowByRequestId db k)"
proof (cases "k = mt_request_id row")
  case True
  with assms show ?thesis by (auto simp: admitted_def store_ok_def intro!: rowByRequestId_mem)
next
  case False
  with assms show ?thesis by (auto simp: admitted_def rowByRequestId_def find_append split: option.splits)
qed

lemma mutation_resolution: "attempts_ok (db_attempts db) \<Longrightarrow> r \<in> set (db_attempts db) \<Longrightarrow> mt_state r = Mu_reconciled \<longleftrightarrow> mt_resolution r \<noteq> None"
  by (auto simp: attempts_ok_def list_all_iff attempt_check_def)

lemma change_refines:
  assumes inv: "broker_inv db" and change: "broker_change db db'"
  shows "\<exists>k. mutation_spec (mutation_phase db k) (mutation_phase db' k) \<and> (\<forall>j. j \<noteq> k \<longrightarrow> mutation_phase db' j = mutation_phase db j)"
  using change
proof cases
  case change_none
  then show ?thesis by (auto simp: mutation_spec_def)
next
  case (change_admit row)
  from change_admit have "mt_state row = Mu_prepared" by (simp add: admitted_def)
  moreover have "rowByRequestId db (mt_request_id row) = None"
  proof (cases "rowByRequestId db (mt_request_id row)")
    case (Some r)
    with rowByRequestId_Some [OF Some] admitted_fresh [OF change_admit(1)] show ?thesis by blast
  qed simp
  ultimately show ?thesis using change_admit
    by (intro exI [of _ "mt_request_id row"]) (simp add: mutation_phase_def admitted_row mutation_spec_def)
next
  case (change_move old new)
  note ok = broker_inv_ok [OF inv]
  have old: "old \<in> set (db_attempts db)" "rowByRequestId db (mt_request_id old) = Some old"
    using change_move ok by (auto simp: recorded_def intro: rowByRequestId_mem)
  have "new \<in> set (db_attempts db')" "attempts_ok (db_attempts db')" using change_move old by (auto simp: recorded_def rewritten_def store_ok_def)
  then have "mt_state new = Mu_reconciled \<longleftrightarrow> mt_resolution new \<noteq> None" by (auto dest: mutation_resolution)
  moreover have "mt_resolution old = None"
    using mutation_resolution [OF ok old(1)] change_move(2) by (auto simp: broker_edge_def broker_edges_def)
  ultimately show ?thesis using change_move old
    by (intro exI [of _ "mt_request_id old"]) (simp add: mutation_phase_def recorded_row [OF ok] mutation_spec_def)
next
  case (change_checkpoint old new)
  note ok = broker_inv_ok [OF inv]
  have "rowByRequestId db (mt_request_id old) = Some old" using change_checkpoint ok by (auto simp: recorded_def intro: rowByRequestId_mem)
  with change_checkpoint show ?thesis
    by (intro exI [of _ "mt_request_id old"]) (simp add: mutation_phase_def recorded_row [OF ok] mutation_spec_def)
qed

interpretation broker: refinement broker_init "broker_step env" broker_inv mutation_phase mutation_spec for env
proof unfold_locales
  fix s t :: "('m) broker_db_scheme"
  assume "broker_step env s t" and inv: "broker_inv s"
  with broker_inv_ok [OF inv] have change: "broker_change s t" by (blast intro: step_change)
  with inv show "broker_inv t" by (rule broker_inv_change)
  from inv change show "\<exists>k. mutation_spec (mutation_phase s k) (mutation_phase t k) \<and> (\<forall>j. j \<noteq> k \<longrightarrow> mutation_phase t j = mutation_phase s j)"
    by (rule change_refines)
qed (rule broker_inv_init)

text \<open>Rows are never lost, keep their identity, and stay as they are once resolved.\<close>

definition attempt_evolves :: "attempt_row \<Rightarrow> attempt_row \<Rightarrow> bool" where
  "attempt_evolves r r' \<longleftrightarrow> same_identity r' r \<and> mutation_rank (mt_state r) \<le> mutation_rank (mt_state r') \<and> (\<not> unresolved r \<longrightarrow> r' = r)"

lemma recorded_evolves:
  assumes "broker_inv db" and "recorded db old new db'" and "attempt_evolves old new" and row: "rowByRequestId db k = Some r"
  shows "\<exists>r'. rowByRequestId db' k = Some r' \<and> attempt_evolves r r'"
proof -
  note ok = broker_inv_ok [OF assms(1)]
  have "rowByRequestId db (mt_request_id old) = Some old" using assms(2) rowByRequestId_mem [OF ok] by (simp add: recorded_def)
  with row assms(3) show ?thesis unfolding recorded_row [OF ok assms(2)]
    by (cases "k = mt_request_id old") (simp_all add: attempt_evolves_def)
qed

lemma change_evolves:
  assumes inv: "broker_inv db" and change: "broker_change db db'" and row: "rowByRequestId db k = Some r"
  shows "\<exists>r'. rowByRequestId db' k = Some r' \<and> attempt_evolves r r'"
  using change
proof cases
  case change_none
  with row show ?thesis by (simp add: attempt_evolves_def)
next
  case (change_admit row')
  from rowByRequestId_Some [OF row] admitted_fresh [OF change_admit(1)] have "k \<noteq> mt_request_id row'" by blast
  with row show ?thesis by (simp add: admitted_row [OF change_admit(1)] attempt_evolves_def)
next
  case (change_move old new)
  then have "attempt_evolves old new"
    by (auto simp: attempt_evolves_def recorded_def unresolved_def dest: broker_edge_unresolved intro: less_imp_le broker_edge_rank)
  with inv change_move(1) show ?thesis using row by (rule recorded_evolves)
next
  case (change_checkpoint old new)
  then have "attempt_evolves old new" by (auto simp: attempt_evolves_def recorded_def)
  with inv change_checkpoint(1) show ?thesis using row by (rule recorded_evolves)
qed

interpretation attempts: row_system broker_init "broker_step env" broker_inv rowByRequestId attempt_evolves for env
proof unfold_locales
  fix s t :: "('m) broker_db_scheme" and k r
  assume step: "broker_step env s t" and inv: "broker_inv s" and row: "rowByRequestId s k = Some r"
  from step_change [OF broker_inv_ok [OF inv] step] have "broker_change s t" .
  with inv show "\<exists>r'. rowByRequestId t k = Some r' \<and> attempt_evolves r r'" using row by (rule change_evolves)
next
  fix r r' r''
  assume "attempt_evolves r r'" and "attempt_evolves r' r''"
  then show "attempt_evolves r r''"
    by (auto simp: attempt_evolves_def intro: same_identity_trans)
qed (simp add: attempt_evolves_def)

section \<open>Properties\<close>

text \<open>A concrete request of a worker, in a platform whose parser returns that request.\<close>

definition sample_request :: broker_request where
  "sample_request =
     [(''request_id'', JStr ''q1''), (''idempotency_key'', JStr ''k1''), (''transport_kind'', JStr ''worker_actor''),
      (''run_id'', JStr ''run''), (''node_id'', JStr ''n''), (''session_id'', JStr ''s''), (''round_id'', JStr ''r''),
      (''actor_id'', JStr ''a''), (''generation'', js_int 1), (''lease_generation'', js_int 1),
      (''credential_ref'', JStr ''c''), (''broker'', JStr ''github''), (''action'', JStr ''merge''), (''input'', JObj [])]"

definition sample_prepare :: prepare_input where
  "sample_prepare = \<lparr>pi_request = sample_request, pi_digest = replicate 64 CHR ''a'', pi_target = ''pr'', pi_source_id = ''w''\<rparr>"

definition sample_env :: js_env where
  "sample_env = \<lparr>env_num_str = (\<lambda>_. ''1''), env_sha256 = (\<lambda>_. replicate 64 CHR ''a''), env_json_parse = (\<lambda>_. Some (JObj sample_request))\<rparr>"

definition empty_broker :: broker_db where
  "empty_broker = \<lparr>db_attempts = [], db_events = []\<rparr>"

definition sample_row :: "mutation_state \<Rightarrow> string \<Rightarrow> attempt_row" where
  "sample_row s now =
     \<lparr>mt_request_id = ''q1'', mt_idempotency_key = ''k1'', mt_digest = replicate 64 CHR ''a'', mt_target = ''pr'',
      mt_source_type = ''worker_actor'', mt_source_id = ''w'', mt_run_id = ''run'', mt_node_id = ''n'', mt_session_id = ''s'',
      mt_round_id = ''r'', mt_actor_id = Some ''a'', mt_generation = Some (num_of_int 1), mt_lease_generation = Some (num_of_int 1),
      mt_command_id = None, mt_gateway_attempt = None, mt_credential_ref = ''c'', mt_broker = ''github'', mt_action = ''merge'',
      mt_state = s,
      mt_request_json = ''{\"request_id\":\"q1\",\"idempotency_key\":\"k1\",\"transport_kind\":\"worker_actor\",\"run_id\":\"run\",\"node_id\":\"n\",\"session_id\":\"s\",\"round_id\":\"r\",\"actor_id\":\"a\",\"generation\":1,\"lease_generation\":1,\"credential_ref\":\"c\",\"broker\":\"github\",\"action\":\"merge\",\"input\":{}}'',
      mt_provider_json = None, mt_result_json = None, mt_error = None, mt_resolution = None, mt_created_at = ''t1'', mt_updated_at = now\<rparr>"

definition sample_event :: "int \<Rightarrow> mutation_state \<Rightarrow> string \<Rightarrow> string \<Rightarrow> mutation_event" where
  "sample_event n s detail now =
     \<lparr>me_sequence = n, me_request_id = ''q1'', me_digest = replicate 64 CHR ''a'', me_state = s, me_detail_json = detail, me_created_at = now\<rparr>"

definition sample_prepared :: broker_db where
  "sample_prepared = \<lparr>db_attempts = [sample_row Mu_prepared ''t1''],
     db_events = [sample_event 1 Mu_prepared ''{\"source_type\":\"worker_actor\",\"semantic_target\":\"pr\"}'' ''t1'']\<rparr>"

definition sample_dispatched :: broker_db where
  "sample_dispatched = \<lparr>db_attempts = [sample_row Mu_dispatched ''t2''],
     db_events = db_events sample_prepared @ [sample_event 2 Mu_dispatched ''{}'' ''t2'']\<rparr>"

definition sample_attempt :: "mutation_state \<Rightarrow> string \<Rightarrow> mutation_attempt" where
  "sample_attempt s now = \<lparr>ma_row = sample_row s now, ma_request = sample_request, ma_provider_state = None, ma_result = None\<rparr>"

lemma sample_created:
  "prepareCredentialBrokerMutation sample_env ''t1'' sample_prepare empty_broker = Inr (sample_prepared, Pr_created, sample_attempt Mu_prepared ''t1'')"
  by code_simp

lemma sample_dispatch:
  "dispatchCredentialBrokerMutation sample_env ''t2'' ''q1'' sample_prepared = Inr (sample_dispatched, sample_attempt Mu_dispatched ''t2'')"
  by code_simp

lemma sample_reached:
  "reach broker_init (broker_step sample_env) empty_broker"
  "reach broker_init (broker_step sample_env) sample_prepared" "broker_step sample_env sample_prepared sample_dispatched"
proof -
  have "broker_init empty_broker" by (simp add: empty_broker_def broker_init_def)
  then show "reach broker_init (broker_step sample_env) empty_broker" by (rule reach_init)
  moreover have "run_op sample_env ''t1'' (Op_prepare sample_prepare) empty_broker = Inr sample_prepared" by (simp add: sample_created)
  then have "broker_step sample_env empty_broker sample_prepared" by (blast intro: broker_step_def [THEN iffD2])
  ultimately show "reach broker_init (broker_step sample_env) sample_prepared" by (rule reach_step)
  have "run_op sample_env ''t2'' (Op_dispatch ''q1'') sample_prepared = Inr sample_dispatched" by (simp add: attempt_only_def sample_dispatch)
  then show "broker_step sample_env sample_prepared sample_dispatched" by (blast intro: broker_step_def [THEN iffD2])
qed

lemma reach_broker_inv: "reach broker_init (broker_step env) db \<Longrightarrow> broker_inv db"
  by (rule broker.reach_inv)

text \<open>C31. The log tells the whole life of every attempt: it starts with the preparation, every event is an
  edge of the life cycle or a checkpoint, the last one is the state in the table, and no state is ever
  entered a second time. In particular an attempt is dispatched at most once.
\<close>

theorem broker_log_exact:
  assumes "reach broker_init (broker_step env) db" and "r \<in> set (db_attempts db)"
  shows "attempt_log db (mt_request_id r) \<noteq> [] \<and> hd (attempt_log db (mt_request_id r)) = Mu_prepared
    \<and> last (attempt_log db (mt_request_id r)) = mt_state r \<and> successively log_edge (attempt_log db (mt_request_id r))
    \<and> distinct (remdups_adj (attempt_log db (mt_request_id r)))"
proof -
  have "lawful_log (attempt_log db (mt_request_id r)) (mt_state r)"
    using reach_broker_inv [OF assms(1)] assms(2) by (simp add: broker_inv_def)
  with lawful_log_distinct [OF this] show ?thesis by (simp add: lawful_log_def)
qed

lemma broker_log_exact_witness:
  "attempt_log sample_dispatched ''q1'' = [Mu_prepared, Mu_dispatched] \<and> successively log_edge (attempt_log sample_dispatched ''q1'')"
proof -
  have r: "reach broker_init (broker_step sample_env) sample_dispatched" using sample_reached(2,3) by (rule reach_step)
  have "attempt_log sample_dispatched ''q1'' = [Mu_prepared, Mu_dispatched]"
    by (simp add: attempt_log_def sample_dispatched_def sample_prepared_def sample_event_def)
  with broker_log_exact [OF r, of "sample_row Mu_dispatched ''t2''"] show ?thesis
    by (simp add: sample_dispatched_def sample_row_def)
qed

text \<open>C32. Along any further operations an attempt keeps its identity and its place in the table, moves only
  as the abstract automaton of its request does (prepared, then along the edges; a resolution exactly
  when it is reconciled), and never changes again once it is resolved, whatever the other requests do.
\<close>

theorem broker_refines:
  assumes "reach broker_init (broker_step env) db" and "(broker_step env)\<^sup>*\<^sup>* db db'" and "rowByRequestId db k = Some r"
  shows "mutation_spec\<^sup>*\<^sup>* (mutation_phase db k) (mutation_phase db' k)
    \<and> (\<exists>r'. rowByRequestId db' k = Some r' \<and> same_identity r' r \<and> (\<not> unresolved r \<longrightarrow> r' = r))"
  using broker.phase_steps [OF assms(2) reach_broker_inv [OF assms(1)], of k]
    attempts.row_steps [OF assms(2) reach_broker_inv [OF assms(1)] assms(3)]
  by (auto simp: attempt_evolves_def)

lemma broker_refines_witness:
  "mutation_spec\<^sup>*\<^sup>* (Some (Mu_prepared, None)) (Some (Mu_dispatched, None))"
proof -
  have rows: "rowByRequestId sample_prepared ''q1'' = Some (sample_row Mu_prepared ''t1'')"
    "rowByRequestId sample_dispatched ''q1'' = Some (sample_row Mu_dispatched ''t2'')"
    by (simp_all add: rowByRequestId_def sample_prepared_def sample_dispatched_def sample_row_def)
  have "(broker_step sample_env)\<^sup>*\<^sup>* sample_prepared sample_dispatched" using sample_reached(3) by (rule r_into_rtranclp)
  from broker_refines [OF sample_reached(2) this rows(1)] show ?thesis by (simp add: mutation_phase_def rows sample_row_def)
qed

text \<open>
  A preparation that succeeds is a duplicate exactly when the request id or the idempotency key is
  known already, blocked exactly when it is new but its target has an unresolved attempt, and otherwise
  adds one prepared attempt and its event; in the other two cases nothing changes.
\<close>

theorem broker_prepare_decides:
  assumes "prepareCredentialBrokerMutation env now input db = Inr (db', s, a)"
  shows "s = (if \<exists>r \<in> set (db_attempts db). requested input r then Pr_duplicate
              else if \<exists>r \<in> set (db_attempts db). blocks input r then Pr_blocked else Pr_created)
    \<and> (if s = Pr_created
       then db_attempts db' = db_attempts db @ [ma_row a] \<and> mt_state (ma_row a) = Mu_prepared
         \<and> map me_state (db_events db') = map me_state (db_events db) @ [Mu_prepared]
       else db' = db \<and> ma_row a \<in> set (db_attempts db))"
  using assms
proof (cases rule: prepare_cases)
  case duplicate
  then have "requested input (ma_row a)" by (simp add: requested_def same_text_def)
  with duplicate show ?thesis by auto
next
  case blocked
  then show ?thesis by auto
next
  case created
  then have "mt_state (ma_row a) = Mu_prepared" by (simp add: admitted_def)
  with created show ?thesis by (auto simp: admitted_def event_of_def)
qed

lemma broker_prepare_decides_witness:
  "prepareCredentialBrokerMutation sample_env ''t1'' sample_prepare empty_broker = Inr (sample_prepared, Pr_created, sample_attempt Mu_prepared ''t1'')
     \<and> map me_state (db_events sample_prepared) = [Mu_prepared]"
  using sample_created broker_prepare_decides [OF sample_created] by (simp add: empty_broker_def)

text \<open>C33. A request is recorded once: after a preparation created its attempt and any further operations of
  anyone, preparing the same request id again, or the same idempotency key for the same credential, broker
  and action, adds nothing. When it succeeds it is a duplicate and returns an attempt of the same request
  id and the same digest; for the same request id that is the one attempt as it is now.
\<close>

theorem broker_request_recorded_once:
  assumes "reach broker_init (broker_step env) db" and "prepareCredentialBrokerMutation env now input db = Inr (db1, Pr_created, a)"
    and "(broker_step env)\<^sup>*\<^sup>* db1 db2" and "requested again (ma_row a)"
    and "prepareCredentialBrokerMutation env later again db2 = Inr (db3, s, b)"
  shows "s = Pr_duplicate \<and> db3 = db2 \<and> mt_digest (ma_row b) = pi_digest again
    \<and> obj_get (pi_request again) ''request_id'' = JStr (mt_request_id (ma_row b))
    \<and> (mt_request_id (ma_row b) = mt_request_id (ma_row a) \<longrightarrow>
        pi_digest again = pi_digest input \<and> rowByRequestId db2 (mt_request_id (ma_row a)) = Some (ma_row b) \<and> same_identity (ma_row b) (ma_row a))"
proof -
  have row: "rowByRequestId db1 (mt_request_id (ma_row a)) = Some (ma_row a)" "mt_digest (ma_row a) = pi_digest input"
    using assms(2) by (cases rule: prepare_cases; simp)+
  have "run_op env now (Op_prepare input) db = Inr db1" using assms(2) by simp
  then have "broker_step env db db1" by (blast intro: broker_step_def [THEN iffD2])
  with assms(1) have "reach broker_init (broker_step env) db1" by (rule reach_step)
  then have inv1: "broker_inv db1" by (rule reach_broker_inv)
  with assms(3) have inv2: "broker_inv db2" by (rule broker.steps_inv)
  from attempts.row_steps [OF assms(3) inv1 row(1)] obtain r where
    r: "rowByRequestId db2 (mt_request_id (ma_row a)) = Some r" "same_identity r (ma_row a)"
    by (auto simp: attempt_evolves_def)
  note keys = same_identity_keys [OF r(2)]
  have known: "r \<in> set (db_attempts db2)" "requested again r"
    using rowByRequestId_Some [OF r(1)] assms(4) by (simp_all add: requested_def keys)
  from assms(5) show ?thesis
  proof (cases rule: prepare_cases)
    case duplicate
    have "ma_row b = r" if "mt_request_id (ma_row b) = mt_request_id (ma_row a)"
      using that r(1) rowByRequestId_mem [OF broker_inv_ok [OF inv2] duplicate(3)] by simp
    with duplicate r row(2) show ?thesis by (auto simp: keys)
  qed (use known in blast)+
qed

lemma broker_request_recorded_once_witness:
  "prepareCredentialBrokerMutation sample_env ''t3'' sample_prepare sample_dispatched
       = Inr (sample_dispatched, Pr_duplicate, sample_attempt Mu_dispatched ''t2'')
     \<and> rowByRequestId sample_dispatched ''q1'' = Some (sample_row Mu_dispatched ''t2'')"
proof -
  have again: "prepareCredentialBrokerMutation sample_env ''t3'' sample_prepare sample_dispatched
      = Inr (sample_dispatched, Pr_duplicate, sample_attempt Mu_dispatched ''t2'')"
    by code_simp
  have "requested sample_prepare (ma_row (sample_attempt Mu_prepared ''t1''))" by code_simp
  moreover have "(broker_step sample_env)\<^sup>*\<^sup>* sample_prepared sample_dispatched" using sample_reached(3) by (rule r_into_rtranclp)
  ultimately show ?thesis
    using broker_request_recorded_once [OF sample_reached(1) sample_created _ _ again] again by (simp add: sample_attempt_def sample_row_def)
qed

end
