(* ===== verification/Broker_Calls_Theorems.thy ===== *)
theory Broker_Calls_Theorems
  imports Broker_Calls Broker_Mutations_Theorems
begin

text \<open>
  What a broker call promises, whatever other calls do while it waits: the provider is called for a
  mutation only when its attempt has just been recorded as dispatched by this very call and the caller is
  still authorised; a success is only reported for an attempt recorded as completed; recovery leaves no
  attempt that looks as if it was running.
\<close>

section \<open>Steps of calls\<close>

text \<open>What happens to the state while a call waits: operations on the record, and calls that come and go.\<close>

definition call_step :: "js_env \<Rightarrow> call_state \<Rightarrow> call_state \<Rightarrow> bool" where
  "call_step env s t \<longleftrightarrow> broker_step env s t \<or> (\<exists>calls. t = s\<lparr>cs_in_flight := calls\<rparr>)"

lemma in_flight_frame [simp]:
  "broker_inv (s\<lparr>cs_in_flight := c\<rparr>) = broker_inv s" "rowByRequestId (s\<lparr>cs_in_flight := c\<rparr>) k = rowByRequestId s k"
  by (simp_all add: broker_inv_def store_ok_def attempt_log_def rowByRequestId_def)

interpretation calls: row_system broker_init "call_step env" broker_inv rowByRequestId attempt_evolves for env
proof unfold_locales
  fix s t :: call_state
  assume "call_step env s t" and inv: "broker_inv s"
  then consider "broker_step env s t" | c where "t = s\<lparr>cs_in_flight := c\<rparr>" by (auto simp: call_step_def)
  note cases = this
  from cases show "broker_inv t" using inv by cases (auto intro: broker.inv_step)
  fix k r
  assume "rowByRequestId s k = Some r"
  with cases show "\<exists>r'. rowByRequestId t k = Some r' \<and> attempt_evolves r r'"
    using inv by cases (auto dest: attempts.row_step intro: attempts.evolves_refl)
qed (auto intro: broker_inv_init attempts.evolves_refl attempts.evolves_trans)

lemma call_step_refl: "call_step env s s"
  by (auto simp: call_step_def intro: exI [of _ "cs_in_flight s"])

lemma call_step_op: "run_op env now op s = Inr t \<Longrightarrow> call_step env s t"
  by (auto simp: call_step_def broker_step_def)

lemma call_step_ops:
  "markCredentialBrokerMutationIndeterminate env now r e s = Inr (t, a) \<Longrightarrow> call_step env s t"
  "reconcileCredentialBrokerMutation env now r x v oe s = Inr (t, a) \<Longrightarrow> call_step env s t"
  "failCredentialBrokerMutationBeforeDispatch env now r e s = Inr (t, a) \<Longrightarrow> call_step env s t"
  "cancelCredentialBrokerMutationAttempt env now r e s = Inr (t, a) \<Longrightarrow> call_step env s t"
  "dispatchCredentialBrokerMutation env now r s = Inr (t, a) \<Longrightarrow> call_step env s t"
  "completeCredentialBrokerMutation env now r v s = Inr (t, a) \<Longrightarrow> call_step env s t"
  "prepareCredentialBrokerMutation env now input s = Inr (t, st, a) \<Longrightarrow> call_step env s t"
  using call_step_op [of env now "Op_indeterminate r e" s t] call_step_op [of env now "Op_reconcile r x v oe" s t]
    call_step_op [of env now "Op_fail_before r e" s t] call_step_op [of env now "Op_cancel r e" s t]
    call_step_op [of env now "Op_dispatch r" s t] call_step_op [of env now "Op_complete r v" s t] call_step_op [of env now "Op_prepare input" s t]
  by (simp_all add: attempt_only_def)

lemma stays_dbS: "(\<And>s s' a. t s = Inr (s', a) \<Longrightarrow> call_step env s s') \<Longrightarrow> stays (call_step env) (dbS w t)"
  by (auto simp: stays_def dbS_def split: sum.split)

lemma stays_try [stays_intro]:
  assumes "stays R m" and "\<And>e. stays R (h e)" and "\<And>a. stays R (k a)"
  shows "stays R (tryS m h k)"
  unfolding stays_def
proof
  fix s
  obtain t r where m: "m s = (t, r)" by (cases "m s")
  with assms(1) have "R\<^sup>*\<^sup>* s t" by (rule staysD)
  moreover have "R\<^sup>*\<^sup>* t (fst (h e t))" "R\<^sup>*\<^sup>* t (fst (k a t))" for e a using assms(2,3) by (simp_all add: stays_def)
  ultimately show "R\<^sup>*\<^sup>* s (fst (tryS m h k s))" using m by (cases r) (auto simp: tryS_def intro: rtranclp_trans)
qed

abbreviation calm :: "broker_world \<Rightarrow> 'a call_eff \<Rightarrow> bool" where
  "calm w \<equiv> stays (call_step (bw_env w))"

lemma stays_ops [stays_intro]:
  "calm w (markIndeterminateS w r e)" "calm w (reconcileS w r x v oe)" "calm w (failBeforeS w r e)" "calm w (cancelS w r e)"
  "calm w (prepareS w input)" "calm w (readAttemptS w r a)"
  unfolding markIndeterminateS_def reconcileS_def failBeforeS_def cancelS_def prepareS_def readAttemptS_def
  by (rule stays_dbS; auto intro: call_step_ops simp: bindE_Inr call_step_refl)+

lemma stays_either [stays_intro]:
  "(\<And>e. v = Inl e \<Longrightarrow> stays R (f e)) \<Longrightarrow> (\<And>a. v = Inr a \<Longrightarrow> stays R (g a)) \<Longrightarrow> stays R (case v of Inl e \<Rightarrow> f e | Inr a \<Rightarrow> g a)"
  by (cases v) auto

text \<open>
  The provider's part: while a handler or a reconciliation is awaited, the record only changes through its
  operations.
\<close>

definition provider_ok :: "broker_world \<Rightarrow> bool" where
  "provider_ok w \<longleftrightarrow> (\<forall>broker action g. bw_registry w broker action = Some g \<longrightarrow>
     (\<forall>request secrets m. calm w (rg_handler g request secrets m))
     \<and> (\<forall>reconcile attempt secrets. rg_reconcile g = Some reconcile \<longrightarrow> calm w (reconcile attempt secrets)))"

lemma applyReconciliation_calm [stays_intro]: "calm w (applyReconciliation w a r secrets)"
  unfolding applyReconciliation_def by (cases r) (simp_all add: stays_intro)

lemma reconcileFailed_calm [stays_intro]: "calm w (reconcileFailed w a secrets e)"
  unfolding reconcileFailed_def Let_def by (intro stays_intro)

lemma reconcilePersisted_calm [stays_intro]:
  assumes "provider_ok w"
  shows "calm w (reconcilePersistedCredentialBrokerMutation w a)"
  unfolding reconcilePersistedCredentialBrokerMutation_def
proof (intro stays_intro)
  fix reconcile secrets
  assume "Option.bind (bw_registry w (mt_broker (ma_row a)) (mt_action (ma_row a))) rg_reconcile = Some reconcile"
  with assms show "calm w (reconcile a secrets)" by (auto simp: provider_ok_def bind_eq_Some_conv)
qed

lemma invoke_calm [stays_intro]: "provider_ok w \<Longrightarrow> calm w (invokeCredentialBroker w broker action request secrets m)"
  unfolding invokeCredentialBroker_def by (intro stays_intro) (auto simp: provider_ok_def)

lemma prepareLoop_calm [stays_intro]: "provider_ok w \<Longrightarrow> calm w (prepareLoop n w input)"
proof (induction n)
  case 0
  show ?case by (subst prepareLoop.simps) (auto intro!: stays_intro simp: split_beta)
next
  case (Suc n)
  then show ?case by (subst prepareLoop.simps) (auto intro!: stays_intro simp: split_beta)
qed

lemma abortOne_calm [stays_intro]: "calm w (abortOne w P reason c)"
proof -
  have "calm w (dbS w (\<lambda>s. bindE (getCredentialBrokerMutationAttempt (bw_env w) (if_request_id c) s) (\<lambda>found. Inr (s, found))))"
    by (rule stays_dbS) (auto simp: bindE_Inr call_step_refl)
  moreover have "calm w (\<lambda>s. (s\<lparr>cs_in_flight := f s\<rparr>, Inr b))" for f and b :: unit
    by (auto simp: stays_def call_step_def intro!: r_into_rtranclp)
  ultimately show ?thesis unfolding abortOne_def by (intro stays_intro) auto
qed

section \<open>Attempts as a call sees them\<close>

definition fresh :: "call_state \<Rightarrow> mutation_attempt \<Rightarrow> bool" where
  "fresh s a \<longleftrightarrow> rowByRequestId s (ma_id a) = Some (ma_row a)"

text \<open>The attempt of a request, at least as far as \<open>n\<close> in its life.\<close>

definition at_rank :: "call_state \<Rightarrow> string \<Rightarrow> nat \<Rightarrow> bool" where
  "at_rank s k n \<longleftrightarrow> (\<exists>r. rowByRequestId s k = Some r \<and> n \<le> mutation_rank (mt_state r))"

lemma calm_inv: "calm w m \<Longrightarrow> m s = (t, r) \<Longrightarrow> broker_inv s \<Longrightarrow> broker_inv t"
  by (metis staysD calls.steps_inv)

lemma calm_rank: "calm w m \<Longrightarrow> m s = (t, r) \<Longrightarrow> broker_inv s \<Longrightarrow> at_rank s k n \<Longrightarrow> at_rank t k n"
  unfolding at_rank_def by (metis staysD calls.row_steps attempt_evolves_def order_trans)

lemma rowByRequestId_id: "rowByRequestId s k = Some r \<Longrightarrow> mt_request_id r = k"
  by (simp add: rowByRequestId_Some)

lemma dbS_Inr [eff_inv]: "dbS w t s = (s', Inr a) \<longleftrightarrow> t s = Inr (s', a)"
  by (auto simp: dbS_def split: sum.split)

lemma tryS_Inr [eff_inv]: "tryS m h k s = (u, Inr b) \<longleftrightarrow> (\<exists>t a. m s = (t, Inr a) \<and> k a t = (u, Inr b)) \<or> (\<exists>t e. m s = (t, Inl e) \<and> h e t = (u, Inr b))"
  by (auto simp: tryS_def split: prod.split sum.split)

definition others_same :: "call_state \<Rightarrow> call_state \<Rightarrow> string \<Rightarrow> bool" where
  "others_same s t k \<longleftrightarrow> (\<forall>j. j \<noteq> k \<longrightarrow> rowByRequestId t j = rowByRequestId s j)"

lemma others_same_refl [simp]: "others_same s s k"
  by (simp add: others_same_def)

lemma transition_fresh:
  assumes "broker_inv s" and "transition env now k from to options s = Inr (t, a)"
  shows "fresh t a \<and> ma_id a = k \<and> ma_state a = to \<and> others_same s t k"
  using broker_inv_ok [OF assms(1)] assms(2)
proof (cases rule: transition_cases)
  case (move existing)
  then have "mt_request_id existing = k" "ma_id a = k" by (simp_all add: rowByRequestId_id)
  with move recorded_row [OF broker_inv_ok [OF assms(1)] move(3)] show ?thesis
    by (simp add: fresh_def others_same_def)
qed (auto simp: fresh_def dest: rowByRequestId_id)

lemma ops_fresh:
  assumes "broker_inv s"
  shows "markIndeterminateS w k e s = (t, Inr a) \<Longrightarrow> fresh t a \<and> ma_id a = k \<and> ma_state a = Mu_indeterminate \<and> others_same s t k"
    and "reconcileS w k x v oe s = (t, Inr a) \<Longrightarrow> fresh t a \<and> ma_id a = k \<and> ma_state a = Mu_reconciled \<and> others_same s t k"
    and "failBeforeS w k e s = (t, Inr a) \<Longrightarrow> fresh t a \<and> ma_id a = k \<and> ma_state a = Mu_failed_pre_dispatch \<and> others_same s t k"
  unfolding markIndeterminateS_def reconcileS_def failBeforeS_def eff_inv broker_defs by (erule transition_fresh [OF assms])+

lemma ops_error:
  "dbS w f s = (t, Inl e) \<Longrightarrow> t = s"
  by (auto simp: dbS_def split: sum.splits)

lemma getAttempt_Some:
  "getCredentialBrokerMutationAttempt env k s = Inr (Some a) \<Longrightarrow> rowByRequestId s k = Some (ma_row a)"
  "getCredentialBrokerMutationAttempt env k s = Inr None \<Longrightarrow> rowByRequestId s k = None"
  by (auto simp: getCredentialBrokerMutationAttempt_def optE_Inr dest: decodeRow_row)

lemma readAttemptS_fresh:
  assumes "readAttemptS w k other s = (t, Inr a)" and "rowByRequestId s k = Some r"
  shows "t = s \<and> ma_row a = r \<and> fresh s a \<and> ma_id a = k"
proof -
  from assms obtain found where f: "getCredentialBrokerMutationAttempt (bw_env w) k s = Inr found" "t = s"
      "a = (case found of None \<Rightarrow> other | Some a \<Rightarrow> a)"
    by (auto simp: readAttemptS_def eff_inv bindE_Inr)
  with assms(2) show ?thesis
    by (cases found) (auto simp: fresh_def dest: getAttempt_Some rowByRequestId_id)
qed

lemma rank_running: "\<not> running_state s \<Longrightarrow> 1 \<le> mutation_rank s \<Longrightarrow> 3 \<le> mutation_rank s"
  by (cases s) (simp_all add: running_state_def)

text \<open>What reconciliation returns: the attempt as it is recorded, neither prepared nor running.\<close>

definition settled_attempt :: "call_state \<Rightarrow> string \<Rightarrow> mutation_attempt \<Rightarrow> bool" where
  "settled_attempt t k a \<longleftrightarrow> fresh t a \<and> ma_id a = k \<and> 3 \<le> mutation_rank (ma_state a)"

lemma mark_if_running:
  assumes inv: "broker_inv s" and rank: "at_rank s k 1"
    and run: "thenS (readAttemptS w k a) (\<lambda>current. if running_state (ma_state current) then markIndeterminateS w (ma_id current) e else retS current) s
      = (t, Inr b)"
  shows "settled_attempt t k b \<and> others_same s t k"
proof -
  from rank obtain r where r: "rowByRequestId s k = Some r" "1 \<le> mutation_rank (mt_state r)" by (auto simp: at_rank_def)
  from run obtain u current where c: "readAttemptS w k a s = (u, Inr current)"
    and m: "(if running_state (ma_state current) then markIndeterminateS w (ma_id current) e else retS current) u = (t, Inr b)"
    by (auto simp: eff_inv)
  note read = readAttemptS_fresh [OF c r(1)]
  show ?thesis
  proof (cases "running_state (ma_state current)")
    case True
    with m read ops_fresh(1) [OF inv] show ?thesis by (auto simp: settled_attempt_def)
  next
    case False
    with read r(2) have "3 \<le> mutation_rank (ma_state current)" by (intro rank_running) auto
    with False m read show ?thesis by (auto simp: settled_attempt_def eff_inv)
  qed
qed

lemma applyReconciliation_settled:
  assumes "broker_inv s" and "at_rank s (ma_id a) 1" and "applyReconciliation w a r secrets s = (t, Inr b)"
  shows "settled_attempt t (ma_id a) b \<and> others_same s t (ma_id a)"
proof (cases r)
  case (Rc_indeterminate e)
  with assms(3) show ?thesis using mark_if_running [OF assms(1,2)] by (simp add: applyReconciliation_def)
next
  case (Rc_completed v)
  with assms(3) ops_fresh(2) [OF assms(1)] show ?thesis by (auto simp: applyReconciliation_def eff_inv settled_attempt_def)
qed (use assms(3) ops_fresh(2) [OF assms(1)] in \<open>auto simp: applyReconciliation_def settled_attempt_def\<close>)

lemma reconcileFailed_settled:
  "broker_inv s \<Longrightarrow> at_rank s (ma_id a) 1 \<Longrightarrow> reconcileFailed w a secrets e s = (t, Inr b) \<Longrightarrow>
     settled_attempt t (ma_id a) b \<and> others_same s t (ma_id a)"
  unfolding reconcileFailed_def Let_def by (rule mark_if_running)

lemma fresh_rank: "fresh s a \<Longrightarrow> at_rank s (ma_id a) (mutation_rank (ma_state a))"
  by (auto simp: fresh_def at_rank_def)

lemma at_rank_le: "at_rank s k m \<Longrightarrow> n \<le> m \<Longrightarrow> at_rank s k n"
  by (auto simp: at_rank_def)

lemma applyReconciliation_error: "applyReconciliation w a r secrets s = (t, Inl e) \<Longrightarrow> t = s"
proof -
  have read: "thenS (readS f) g s = (t, Inl e) \<Longrightarrow> (\<And>a. g a s = (t, Inl e) \<Longrightarrow> t = s) \<Longrightarrow> t = s" for f :: "call_state \<Rightarrow> string + unit" and g
    by (cases "f s") (auto simp: thenS_def)
  have mark: "thenS (readAttemptS w k a) (\<lambda>current. if running_state (ma_state current) then markIndeterminateS w (ma_id current) e' else retS current) s
      = (t, Inl e) \<Longrightarrow> t = s" for k e'
    by (auto simp: thenS_def readAttemptS_def dbS_def markIndeterminateS_def retS_def bindE_def split: prod.splits sum.splits if_splits)
  assume "applyReconciliation w a r secrets s = (t, Inl e)"
  then show "t = s"
  proof (cases r)
    case (Rc_completed v)
    assume "applyReconciliation w a r secrets s = (t, Inl e)"
    with Rc_completed show ?thesis by (auto simp: applyReconciliation_def reconcileS_def dest!: read dest: ops_error)
  qed (auto simp: applyReconciliation_def reconcileS_def dest: ops_error mark)
qed

text \<open>
  The attempt may have moved on since it was read (\<open>at_rank\<close>). What comes back is recorded, unless
  nothing happened.
\<close>

definition reconciled_as :: "call_state \<Rightarrow> mutation_attempt \<Rightarrow> call_state \<Rightarrow> mutation_attempt \<Rightarrow> bool" where
  "reconciled_as s a t b \<longleftrightarrow> settled_attempt t (ma_id a) b \<or> b = a \<and> t = s \<and> 3 \<le> mutation_rank (ma_state a)"

definition quiet_provider :: "broker_world \<Rightarrow> bool" where
  "quiet_provider w \<longleftrightarrow> (\<forall>broker action g reconcile attempt secrets s. bw_registry w broker action = Some g \<longrightarrow> rg_reconcile g = Some reconcile \<longrightarrow>
     db_attempts (fst (reconcile attempt secrets s)) = db_attempts s \<and> db_events (fst (reconcile attempt secrets s)) = db_events s)"

lemma quiet_others: "db_attempts t = db_attempts s \<Longrightarrow> others_same s t k"
  by (simp add: others_same_def rowByRequestId_def)

lemma others_same_trans: "others_same s t k \<Longrightarrow> others_same t u k \<Longrightarrow> others_same s u k"
  by (simp add: others_same_def)

lemma reconcilePersisted_result:
  assumes w: "provider_ok w" and inv: "broker_inv s" and rank: "at_rank s (ma_id a) (mutation_rank (ma_state a))"
    and run: "reconcilePersistedCredentialBrokerMutation w a s = (t, Inr b)"
  shows "reconciled_as s a t b \<and> (quiet_provider w \<longrightarrow> others_same s t (ma_id a))"
proof -
  have rank1: "at_rank s (ma_id a) 1" if "ma_state a \<noteq> Mu_prepared"
    using at_rank_le [OF rank, of 1] that by (cases "ma_state a") simp_all
  have quiet: ?thesis if "retS a s = (t, Inr b)" "ma_state a \<noteq> Mu_prepared" "\<not> running_state (ma_state a)"
    using that rank_running [of "ma_state a"] by (cases "ma_state a") (auto simp: eff_inv reconciled_as_def)
  consider (prepared) "ma_state a = Mu_prepared" | (other) "ma_state a \<noteq> Mu_prepared" "\<not> (running_state (ma_state a) \<or> ma_state a = Mu_indeterminate)"
    | (open_call) "ma_state a \<noteq> Mu_prepared" "running_state (ma_state a) \<or> ma_state a = Mu_indeterminate" by blast
  then show ?thesis
  proof cases
    case prepared
    with run ops_fresh(3) [OF inv] show ?thesis by (auto simp: reconcilePersistedCredentialBrokerMutation_def settled_attempt_def reconciled_as_def)
  next
    case other
    with run quiet show ?thesis by (simp add: reconcilePersistedCredentialBrokerMutation_def)
  next
    case open_call
    show ?thesis
    proof (cases "Option.bind (bw_registry w (mt_broker (ma_row a)) (mt_action (ma_row a))) rg_reconcile")
      case None
      with run open_call quiet ops_fresh(1) [OF inv] show ?thesis
        by (auto simp: reconcilePersistedCredentialBrokerMutation_def settled_attempt_def reconciled_as_def split: if_splits)
    next
      case (Some reconcile)
      then have calm: "calm w (reconcile a secrets)"
        and same: "quiet_provider w \<Longrightarrow> others_same s (fst (reconcile a secrets s)) k" for secrets k
        using w by (auto simp: provider_ok_def bind_eq_Some_conv quiet_provider_def intro!: quiet_others)
      show ?thesis
      proof (cases "bw_secret w (mt_credential_ref (ma_row a))")
        case (Inl e)
        with run open_call Some reconcileFailed_settled [OF inv rank1] show ?thesis
          by (simp add: reconcilePersistedCredentialBrokerMutation_def reconciled_as_def)
      next
        case (Inr secrets)
        let ?m = "thenS (reconcile a secrets) (\<lambda>r. applyReconciliation w a r secrets)"
        have calm_m: "calm w ?m" using calm by (intro stays_intro)
        from run open_call Some Inr have "catchS ?m (reconcileFailed w a (Some secrets)) s = (t, Inr b)"
          by (simp add: reconcilePersistedCredentialBrokerMutation_def)
        then consider u r where "reconcile a secrets s = (u, Inr r)" "applyReconciliation w a r secrets u = (t, Inr b)"
          | u e where "?m s = (u, Inl e)" "reconcileFailed w a (Some secrets) e u = (t, Inr b)"
          by (auto simp: eff_inv)
        then show ?thesis
        proof cases
          case 1
          have "settled_attempt t (ma_id a) b \<and> others_same u t (ma_id a)"
            by (rule applyReconciliation_settled [OF calm_inv [OF calm 1(1) inv] calm_rank [OF calm 1(1) inv rank1] 1(2)]) (use open_call in simp)
          with same [of secrets] 1(1) show ?thesis by (auto simp: reconciled_as_def intro: others_same_trans)
        next
          case 2
          have "u = fst (reconcile a secrets s)"
            using 2(1) by (auto simp: thenS_def split: prod.splits sum.splits dest: applyReconciliation_error)
          moreover have "settled_attempt t (ma_id a) b \<and> others_same u t (ma_id a)"
            by (rule reconcileFailed_settled [OF calm_inv [OF calm_m 2(1) inv] calm_rank [OF calm_m 2(1) inv rank1] 2(2)]) (use open_call in simp)
          ultimately show ?thesis using same [of secrets] by (auto simp: reconciled_as_def intro: others_same_trans)
        qed
      qed
    qed
  qed
qed

lemma reconcilePersisted_settled:
  assumes "provider_ok w" and "broker_inv s" and "fresh s a" and "reconcilePersistedCredentialBrokerMutation w a s = (t, Inr b)"
  shows "settled_attempt t (ma_id a) b"
  using reconcilePersisted_result [OF assms(1,2) fresh_rank [OF assms(3)] assms(4)] assms(3)
  by (auto simp: reconciled_as_def settled_attempt_def)

section \<open>Recovery\<close>

text \<open>What the summary says of a request, and what the record says of it in \<open>t\<close>.\<close>

definition accounted :: "call_state \<Rightarrow> recovery_summary \<Rightarrow> string \<Rightarrow> bool" where
  "accounted t summary k \<longleftrightarrow> k \<in> set (sm_reconciled summary) \<or> k \<in> set (sm_unresolved summary) \<or> k \<in> fst ` set (sm_failed summary)"

definition summary_true :: "call_state \<Rightarrow> recovery_summary \<Rightarrow> bool" where
  "summary_true t summary \<longleftrightarrow>
     (\<forall>k \<in> set (sm_reconciled summary). \<exists>r. rowByRequestId t k = Some r \<and> (mt_state r = Mu_reconciled \<or> mt_state r = Mu_failed_pre_dispatch))
     \<and> (\<forall>k \<in> set (sm_unresolved summary). at_rank t k 3)"

lemma resolved_stays:
  assumes "calm w m" and "m s = (t, r)" and "broker_inv s" and "rowByRequestId s k = Some row" and "\<not> unresolved row"
  shows "rowByRequestId t k = Some row"
  using calls.row_steps [OF staysD [OF assms(1,2)] assms(3,4)] assms(5) by (auto simp: attempt_evolves_def)

lemma summary_stays:
  assumes "calm w m" and "m s = (t, r)" and "broker_inv s" and "summary_true s summary"
  shows "summary_true t summary"
  unfolding summary_true_def
proof (intro conjI ballI)
  fix k
  assume "k \<in> set (sm_reconciled summary)"
  with assms(4) obtain row where row: "rowByRequestId s k = Some row" "mt_state row = Mu_reconciled \<or> mt_state row = Mu_failed_pre_dispatch"
    by (auto simp: summary_true_def)
  then have "\<not> unresolved row" by (auto simp: unresolved_def unresolved_state_def)
  from resolved_stays [OF assms(1-3) row(1) this] row(2)
  show "\<exists>r. rowByRequestId t k = Some r \<and> (mt_state r = Mu_reconciled \<or> mt_state r = Mu_failed_pre_dispatch)" by blast
next
  fix k
  assume "k \<in> set (sm_unresolved summary)"
  with assms(4) show "at_rank t k 3" by (auto simp: summary_true_def intro: calm_rank [OF assms(1-3)])
qed

lemma recoverEach_true:
  assumes "provider_ok w" and "broker_inv s" and "summary_true s summary"
    and "\<And>a. a \<in> set attempts \<Longrightarrow> unresolved (ma_row a) \<and> at_rank s (ma_id a) (mutation_rank (ma_state a))"
    and "recoverEach w attempts summary s = (t, Inr result)"
  shows "broker_inv t \<and> summary_true t result \<and> (\<forall>k. accounted t result k \<longleftrightarrow> accounted s summary k \<or> k \<in> ma_id ` set attempts)"
  using assms(2-)
proof (induction attempts arbitrary: s summary)
  case Nil
  then show ?case by (auto simp: eff_inv accounted_def)
next
  case (Cons a attempts)
  let ?m = "reconcilePersistedCredentialBrokerMutation w a"
  have calm: "calm w ?m" using assms(1) by (rule reconcilePersisted_calm)
  have tail: "unresolved (ma_row b) \<and> at_rank u (ma_id b) (mutation_rank (ma_state b))" if "?m s = (u, r)" "b \<in> set attempts" for u r b
    using Cons.prems(3) [of b] that(2) calm_rank [OF calm that(1) Cons.prems(1)] by auto
  from Cons.prems(4) consider (ok) u b where "?m s = (u, Inr b)" and "recoverEach w attempts
          (if ma_state b = Mu_reconciled \<or> ma_state b = Mu_failed_pre_dispatch
           then summary\<lparr>sm_reconciled := sm_reconciled summary @ [ma_id b]\<rparr>
           else summary\<lparr>sm_unresolved := sm_unresolved summary @ [ma_id b]\<rparr>) u = (t, Inr result)"
    | (err) u e where "?m s = (u, Inl e)" and "recoverEach w attempts (summary\<lparr>sm_failed := sm_failed summary @ [(ma_id a, boundedMessage e)]\<rparr>) u = (t, Inr result)"
    by (auto simp: eff_inv)
  then show ?case
  proof cases
    case ok
    have inv: "broker_inv u" by (rule calm_inv [OF calm ok(1) Cons.prems(1)])
    have true: "summary_true u summary" by (rule summary_stays [OF calm ok(1) Cons.prems(1,2)])
    have rank: "at_rank s (ma_id a) (mutation_rank (ma_state a))" and open_row: "unresolved (ma_row a)" using Cons.prems(3) [of a] by simp_all
    have rec: "reconciled_as s a u b" using reconcilePersisted_result [OF assms(1) Cons.prems(1) rank ok(1)] by simp
    then have id: "ma_id b = ma_id a" "at_rank u (ma_id b) 3"
      using rank by (auto simp: reconciled_as_def settled_attempt_def at_rank_def fresh_def)
    have new: "summary_true u (if ma_state b = Mu_reconciled \<or> ma_state b = Mu_failed_pre_dispatch
           then summary\<lparr>sm_reconciled := sm_reconciled summary @ [ma_id b]\<rparr>
           else summary\<lparr>sm_unresolved := sm_unresolved summary @ [ma_id b]\<rparr>)"
    proof (cases "ma_state b = Mu_reconciled \<or> ma_state b = Mu_failed_pre_dispatch")
      case True
      with rec open_row have "fresh u b" by (auto simp: reconciled_as_def settled_attempt_def unresolved_def unresolved_state_def)
      with True true show ?thesis by (auto simp: summary_true_def fresh_def)
    next
      case False
      with true id show ?thesis by (auto simp: summary_true_def)
    qed
    from Cons.IH [OF inv new tail [OF ok(1)] ok(2)] show ?thesis by (auto simp: accounted_def id)
  next
    case err
    have inv: "broker_inv u" by (rule calm_inv [OF calm err(1) Cons.prems(1)])
    have "summary_true u (summary\<lparr>sm_failed := sm_failed summary @ [(ma_id a, boundedMessage e)]\<rparr>)"
      using summary_stays [OF calm err(1) Cons.prems(1,2)] by (simp add: summary_true_def)
    from Cons.IH [OF inv this tail [OF err(1)] err(2)] show ?thesis by (auto simp: accounted_def)
  qed
qed

lemma mapE_rows: "mapE (decodeRow env) rows = Inr attempts \<Longrightarrow> map ma_row attempts = rows"
  by (induction rows arbitrary: attempts) (auto simp: bindE_Inr dest: decodeRow_row)

lemma listUnresolved_rows:
  assumes "listUnresolvedCredentialBrokerMutations env None s = Inr attempts" and "length (filter unresolved (db_attempts s)) \<le> 64"
  shows "ma_row ` set attempts = set (filter unresolved (db_attempts s))"
proof -
  have "map ma_row attempts = take 64 (sort_key attempt_order (filter unresolved (db_attempts s)))"
    using assms(1) by (auto simp: listUnresolvedCredentialBrokerMutations_def clamped_limit_def dest: mapE_rows)
  then have "map ma_row attempts = sort_key attempt_order (filter unresolved (db_attempts s))" using assms(2) by simp
  then have "set (map ma_row attempts) = set (sort_key attempt_order (filter unresolved (db_attempts s)))" by (rule arg_cong)
  then show ?thesis by simp
qed

lemma listUnresolved_subset:
  assumes "listUnresolvedCredentialBrokerMutations env None s = Inr attempts" and "a \<in> set attempts"
  shows "ma_row a \<in> set (db_attempts s) \<and> unresolved (ma_row a)"
proof -
  have "map ma_row attempts = take 64 (sort_key attempt_order (filter unresolved (db_attempts s)))"
    using assms(1) by (auto simp: listUnresolvedCredentialBrokerMutations_def clamped_limit_def dest: mapE_rows)
  with assms(2) have "ma_row a \<in> set (take 64 (sort_key attempt_order (filter unresolved (db_attempts s))))" by (metis image_eqI set_map)
  then have "ma_row a \<in> set (sort_key attempt_order (filter unresolved (db_attempts s)))" by (rule in_set_takeD)
  then show ?thesis by simp
qed

lemma recover_accounts:
  assumes w: "provider_ok w" and inv: "broker_inv s" and run: "recoverCredentialBrokerMutations w s = (t, Inr summary)"
    and few: "length (filter unresolved (db_attempts s)) \<le> 64" and r: "r \<in> set (db_attempts s)"
  shows "summary_true t summary \<and> (unresolved r \<longleftrightarrow> accounted t summary (mt_request_id r))
    \<and> (mt_request_id r \<in> fst ` set (sm_failed summary) \<or> at_rank t (mt_request_id r) 3)"
proof -
  note ok = broker_inv_ok [OF inv]
  from run obtain attempts where listed: "listUnresolvedCredentialBrokerMutations (bw_env w) None s = Inr attempts"
    and each: "recoverEach w attempts \<lparr>sm_reconciled = [], sm_unresolved = [], sm_failed = []\<rparr> s = (t, Inr summary)"
    by (auto simp: recoverCredentialBrokerMutations_def eff_inv bindE_Inr)
  have start: "unresolved (ma_row a) \<and> at_rank s (ma_id a) (mutation_rank (ma_state a))" if "a \<in> set attempts" for a
    using listUnresolved_subset [OF listed that] rowByRequestId_mem [OF ok] by (auto simp: at_rank_def)
  have none: "summary_true s \<lparr>sm_reconciled = [], sm_unresolved = [], sm_failed = []\<rparr>" by (simp add: summary_true_def)
  note summed = recoverEach_true [OF w inv none start each]
  have accounts: "accounted t summary (mt_request_id r) \<longleftrightarrow> mt_request_id r \<in> ma_id ` set attempts"
    using summed by (auto simp: accounted_def)
  also have "\<dots> \<longleftrightarrow> mt_request_id r \<in> mt_request_id ` set (filter unresolved (db_attempts s))"
    unfolding listUnresolved_rows [OF listed few, symmetric] image_image ..
  also have "\<dots> \<longleftrightarrow> unresolved r"
  proof
    assume "mt_request_id r \<in> mt_request_id ` set (filter unresolved (db_attempts s))"
    then obtain q where "q \<in> set (db_attempts s)" "unresolved q" "mt_request_id q = mt_request_id r" by auto
    with rowByRequestId_mem [OF ok r] rowByRequestId_mem [OF ok] show "unresolved r" by (metis option.inject)
  qed (use r in auto)
  finally have un: "accounted t summary (mt_request_id r) \<longleftrightarrow> unresolved r" .
  have "calm w (recoverEach w as sm)" for as sm
    by (induction as arbitrary: sm) (auto intro!: stays_intro reconcilePersisted_calm [OF w])
  note calm = this
  have "at_rank t (mt_request_id r) 3" if "\<not> unresolved r"
    using resolved_stays [OF calm each inv rowByRequestId_mem [OF ok r] that] that
    by (cases "mt_state r") (auto simp: at_rank_def unresolved_def unresolved_state_def)
  moreover have "at_rank t (mt_request_id r) 3" if "mt_request_id r \<in> set (sm_reconciled summary)"
    using summed that by (force simp: summary_true_def at_rank_def)
  moreover have "at_rank t (mt_request_id r) 3" if "mt_request_id r \<in> set (sm_unresolved summary)"
    using summed that by (force simp: summary_true_def)
  ultimately show ?thesis using summed un by (auto simp: accounted_def)
qed

section \<open>Preparation\<close>

lemma prepareS_Inr: "prepareS w input s = (t, Inr (st, a)) \<longleftrightarrow> prepareCredentialBrokerMutation (bw_env w) (bw_now w s) input s = Inr (t, st, a)"
  by (simp add: prepareS_def eff_inv)

lemma prepareS_fresh:
  assumes "broker_inv s" and "prepareS w input s = (t, Inr (st, a))"
  shows "fresh t a" "broker_inv t"
  using assms(2) [unfolded prepareS_Inr] calm_inv [OF stays_ops(5) assms(2,1)] rowByRequestId_mem [OF broker_inv_ok [OF assms(1)]]
  by (cases rule: prepare_cases; simp add: fresh_def)+

text \<open>One round of the loop.\<close>

lemma prepareLoop_step:
  assumes "prepareLoop n w input s = (t, Inr out)"
  obtains (prepared) st a where "prepareS w input s = (t, Inr (st, a))" "st \<noteq> Pr_blocked" "out = Loop_prepared st a"
  | (running) a where "prepareS w input s = (t, Inr (Pr_blocked, a))" "n = 0" "out = Loop_running"
  | (owned) a where "prepareS w input s = (t, Inr (Pr_blocked, a))"
      "out = Loop_answer (ownedAnswer input a)"
  | (again) m u v a b where "n = Suc m" "prepareS w input s = (u, Inr (Pr_blocked, a))"
      "reconcilePersistedCredentialBrokerMutation w a u = (v, Inr b)" "safe_to_retry b" "prepareLoop m w input v = (t, Inr out)"
  | (answer) m u a b where "n = Suc m" "prepareS w input s = (u, Inr (Pr_blocked, a))"
      "reconcilePersistedCredentialBrokerMutation w a u = (t, Inr b)" "out = Loop_answer (blockedAnswer input b)"
proof -
  from assms [unfolded prepareLoop.simps [of n]] obtain u st a where p: "prepareS w input s = (u, Inr (st, a))"
    and rest: "(if st \<noteq> Pr_blocked then retS (Loop_prepared st a)
       else (case n of
          0 \<Rightarrow> retS Loop_running
        | Suc m \<Rightarrow>
            thenS (readS (\<lambda>s. Inr (inFlightCall s (JStr (ma_id a)) \<noteq> None))) (\<lambda>owned.
            if owned then retS (Loop_answer (ownedAnswer input a))
            else thenS (reconcilePersistedCredentialBrokerMutation w a) (\<lambda>blocker.
              if safe_to_retry blocker then prepareLoop m w input
              else retS (Loop_answer (blockedAnswer input blocker)))))) u = (t, Inr out)"
    by (auto simp: eff_inv)
  show thesis
  proof (cases "st = Pr_blocked")
    case False
    with p rest show thesis by (intro prepared [of st a]) (auto simp: eff_inv)
  next
    case blocked: True
    show thesis
    proof (cases n)
      case 0
      with blocked p rest show thesis by (intro running [of a]) (auto simp: eff_inv)
    next
      case (Suc m)
      show thesis
      proof (cases "inFlightCall u (JStr (ma_id a)) \<noteq> None")
        case True
        with Suc blocked p rest show thesis by (intro owned [of a]) (auto simp: eff_inv)
      next
        case False
        with Suc blocked rest obtain v b where r: "reconcilePersistedCredentialBrokerMutation w a u = (v, Inr b)"
          and e: "(if safe_to_retry b then prepareLoop m w input
              else retS (Loop_answer (blockedAnswer input b))) v = (t, Inr out)"
          by (auto simp: eff_inv)
        show thesis
        proof (cases "safe_to_retry b")
          case True
          with Suc blocked p r e show thesis by (intro again [of m u a v b]) auto
        next
          case False
          with Suc blocked p r e show thesis by (intro answer [of m u a b]) (auto simp: eff_inv)
        qed
      qed
    qed
  qed
qed

lemma prepareLoop_prepared:
  assumes "provider_ok w" and "broker_inv s" and "prepareLoop n w input s = (t, Inr (Loop_prepared st a))"
  shows "\<exists>u. broker_inv u \<and> st \<noteq> Pr_blocked \<and> prepareCredentialBrokerMutation (bw_env w) (bw_now w u) input u = Inr (t, st, a)
    \<and> (call_step (bw_env w))\<^sup>*\<^sup>* s u"
  using assms(2,3)
proof (induction n arbitrary: s)
  case 0
  from 0(2) show ?case by (cases rule: prepareLoop_step) (use 0(1) in \<open>auto simp: prepareS_Inr\<close>)
next
  case (Suc n)
  from Suc.prems(2) show ?case
  proof (cases rule: prepareLoop_step)
    case (prepared st' a')
    with Suc.prems(1) show ?thesis by (auto simp: prepareS_Inr)
  next
    case (again m u v a' b)
    have "broker_inv u" by (rule calm_inv [OF stays_ops(5) again(2) Suc.prems(1)])
    then have "broker_inv v" by (rule calm_inv [OF reconcilePersisted_calm [OF assms(1)] again(3)])
    moreover have "(call_step (bw_env w))\<^sup>*\<^sup>* s v"
      using staysD [OF stays_ops(5) again(2)] staysD [OF reconcilePersisted_calm [OF assms(1)] again(3)] by (rule rtranclp_trans)
    ultimately show ?thesis using Suc.IH [of v] again(1,5) by (auto intro: rtranclp_trans)
  qed auto
qed

text \<open>A request that is on record already is never prepared again.\<close>

lemma prepareLoop_known:
  assumes "prepareLoop n w input s = (t, Inr (Loop_prepared st a))"
    and "obj_get (pi_request input) ''request_id'' = JStr k" and "rowByRequestId s k = Some r"
  shows "st = Pr_duplicate"
proof -
  have known: "r \<in> set (db_attempts s) \<and> requested input r"
    using rowByRequestId_Some [OF assms(3)] assms(2) by (simp add: requested_def same_text_def)
  have dup: "st' = Pr_duplicate" if "prepareS w input s = (t', Inr (st', a'))" for t' st' a'
    using that [unfolded prepareS_Inr] by (cases rule: prepare_cases) (use known in auto)
  from assms(1) show ?thesis by (cases rule: prepareLoop_step) (auto dest: dup)
qed

text \<open>More rounds change nothing once the loop has ended; with a quiet provider one is enough.\<close>

lemma thenS_mono:
  assumes "thenS m f s = (t, Inr b)" and "\<And>a u. f a u = (t, Inr b) \<Longrightarrow> g a u = (t, Inr b)"
  shows "thenS m g s = (t, Inr b)"
  using assms by (auto simp: thenS_def split: prod.splits sum.splits)

lemma prepareLoop_mono: "prepareLoop n w input s = (t, Inr out) \<Longrightarrow> out \<noteq> Loop_running \<Longrightarrow> prepareLoop (Suc n) w input s = (t, Inr out)"
proof (induction n arbitrary: s)
  case 0
  from 0(1) show ?case
  proof (cases rule: prepareLoop_step)
    case (prepared st a)
    then show ?thesis by (subst prepareLoop.simps) (simp add: thenS_def)
  next
    case (owned a)
    from 0(1) owned show ?thesis by (simp add: prepareLoop.simps [of 0] thenS_def retS_def)
  qed (use 0(2) in auto)
next
  case (Suc n)
  let ?k = "\<lambda>m owned a. if owned then retS (Loop_answer (ownedAnswer input a))
            else thenS (reconcilePersistedCredentialBrokerMutation w a) (\<lambda>blocker.
              if safe_to_retry blocker then prepareLoop m w input
              else retS (Loop_answer (blockedAnswer input blocker)))"
  have unfold: "prepareLoop (Suc m) w input s = thenS (prepareS w input) (\<lambda>(status, a).
       if status \<noteq> Pr_blocked then retS (Loop_prepared status a)
       else thenS (readS (\<lambda>s. Inr (inFlightCall s (JStr (ma_id a)) \<noteq> None))) (\<lambda>owned. ?k m owned a)) s" for m s
    by (simp add: prepareLoop.simps [of "Suc m"] cong: if_cong)
  have k: "?k (Suc n) owned a u = (t, Inr out)" if run: "?k n owned a u = (t, Inr out)" for owned a u
  proof (cases owned)
    case False
    with run have "thenS (reconcilePersistedCredentialBrokerMutation w a) (\<lambda>blocker. if safe_to_retry blocker then prepareLoop n w input
              else retS (Loop_answer (blockedAnswer input blocker))) u = (t, Inr out)" by simp
    then have "thenS (reconcilePersistedCredentialBrokerMutation w a) (\<lambda>blocker. if safe_to_retry blocker then prepareLoop (Suc n) w input
              else retS (Loop_answer (blockedAnswer input blocker))) u = (t, Inr out)"
      by (rule thenS_mono) (use Suc.IH [OF _ Suc.prems(2)] in \<open>auto split: if_splits\<close>)
    with False show ?thesis by simp
  qed (use run in simp)
  define body where "body = (\<lambda>m (status, a). if status \<noteq> Pr_blocked then retS (Loop_prepared status a)
       else thenS (readS (\<lambda>s. Inr (inFlightCall s (JStr (ma_id a)) \<noteq> None) :: string + bool)) (\<lambda>owned. ?k m owned a))"
  have body: "body (Suc n) p u = (t, Inr out)" if "body n p u = (t, Inr out)" for p u
  proof (cases p)
    case (Pair status a)
    show ?thesis
    proof (cases "status \<noteq> Pr_blocked")
      case False
      with that Pair have "thenS (readS (\<lambda>s. Inr (inFlightCall s (JStr (ma_id a)) \<noteq> None))) (\<lambda>owned. ?k n owned a) u = (t, Inr out)"
        by (simp add: body_def)
      then have "thenS (readS (\<lambda>s. Inr (inFlightCall s (JStr (ma_id a)) \<noteq> None))) (\<lambda>owned. ?k (Suc n) owned a) u = (t, Inr out)"
        by (rule thenS_mono) (rule k)
      with False Pair show ?thesis by (simp add: body_def)
    qed (use that Pair in \<open>simp add: body_def\<close>)
  qed
  have unfold': "prepareLoop (Suc m) w input s = thenS (prepareS w input) (body m) s" for m s
    unfolding body_def by (rule unfold)
  from Suc.prems(1) [unfolded unfold'] show ?case unfolding unfold' by (rule thenS_mono) (rule body)
qed

lemma prepareLoop_one_round:
  assumes w: "provider_ok w" "quiet_provider w" and inv: "broker_inv s"
    and run: "prepareLoop (Suc n) w input s = (t, Inr out)"
  shows "out \<noteq> Loop_running"
proof
  assume running: "out = Loop_running"
  from run running obtain m u v a b where again: "n = m" "prepareS w input s = (u, Inr (Pr_blocked, a))"
      "reconcilePersistedCredentialBrokerMutation w a u = (v, Inr b)" "safe_to_retry b" "prepareLoop m w input v = (t, Inr Loop_running)"
    by (cases rule: prepareLoop_step) auto
  have u: "fresh u a" "broker_inv u" "u = s" "blocks input (ma_row a)" "ma_row a \<in> set (db_attempts s)"
    using prepareS_fresh [OF inv again(2)] again(2) [unfolded prepareS_Inr] by (auto elim: prepare_cases)
  have settled_attempt: "settled_attempt v (ma_id a) b" by (rule reconcilePersisted_settled [OF w(1) u(2,1) again(3)])
  have others: "others_same u v (ma_id a)"
    using reconcilePersisted_result [OF w(1) u(2) fresh_rank [OF u(1)] again(3)] w(2) by simp
  have inv_v: "broker_inv v" by (rule calm_inv [OF reconcilePersisted_calm [OF w(1)] again(3) u(2)])
  have free: False if q: "q \<in> set (db_attempts v)" "blocks input q" for q
  proof (cases "mt_request_id q = ma_id a")
    case True
    with rowByRequestId_mem [OF broker_inv_ok [OF inv_v] q(1)] settled_attempt have "q = ma_row b" unfolding settled_attempt_def fresh_def by (metis option.inject)
    with q(2) again(4) show False by (auto simp: blocks_def unresolved_def unresolved_state_def safe_to_retry_def)
  next
    case False
    with rowByRequestId_mem [OF broker_inv_ok [OF inv_v] q(1)] others have "rowByRequestId u (mt_request_id q) = Some q"
      by (simp add: others_same_def)
    with u(3) have "q \<in> set (db_attempts s)" by (auto dest: rowByRequestId_Some)
    moreover have "unique_on unresolved target_index (db_attempts s)" using broker_inv_ok [OF inv] by (simp add: attempts_ok_def)
    ultimately have "q = ma_row a" using u(4,5) q(2)
      by (auto simp: blocks_def same_text_def target_index_def elim: unique_on_eq)
    with False show False by simp
  qed
  from again(5) show False
  proof (cases rule: prepareLoop_step)
    case (running c)
    from running(1) [unfolded prepareS_Inr] show ?thesis by (cases rule: prepare_cases) (use free in auto)
  next
    case (again m' u' v' c d)
    from again(2) [unfolded prepareS_Inr] show ?thesis by (cases rule: prepare_cases) (use free in auto)
  qed auto
qed

section \<open>The provider is called once, after the dispatch is on record\<close>

text \<open>The same world with a monitor: a handler called where the guard does not hold fails at once.\<close>

definition monitored :: "(call_state \<Rightarrow> bool) \<Rightarrow> broker_world \<Rightarrow> broker_world" where
  "monitored guard w =
     w\<lparr>bw_registry := (\<lambda>broker action. map_option (\<lambda>g. g\<lparr>rg_handler := (\<lambda>request secrets m s.
        if guard s then rg_handler g request secrets m s else (s, Inl ''handler called out of turn''))\<rparr>) (bw_registry w broker action))\<rparr>"

lemma monitored_fields [simp]:
  "bw_env (monitored guard w) = bw_env w" "bw_now (monitored guard w) = bw_now w" "bw_secret (monitored guard w) = bw_secret w"
  "bw_active_run (monitored guard w) = bw_active_run w" "bw_error_text (monitored guard w) = bw_error_text w"
  "bw_collation (monitored guard w) = bw_collation w" "bw_record_success (monitored guard w) = bw_record_success w"
  by (simp_all add: monitored_def)

lemma monitored_reconcile [simp]:
  "Option.bind (bw_registry (monitored guard w) broker action) rg_reconcile = Option.bind (bw_registry w broker action) rg_reconcile"
  by (cases "bw_registry w broker action") (simp_all add: monitored_def)

lemma monitored_base [simp]:
  "dbS (monitored guard w) = dbS w" "brokerRequestDigest (monitored guard w) = brokerRequestDigest w"
  "managerBrokerBinding (monitored guard w) = managerBrokerBinding w" "assertSize (monitored guard w) = assertSize w"
  "assertResultDoesNotRevealSecrets (monitored guard w) = assertResultDoesNotRevealSecrets w" "recordSuccessS (monitored guard w) = recordSuccessS w"
  unfolding fun_eq_iff dbS_def brokerRequestDigest_def managerBrokerBinding_def assertSize_def safeJsonSize_def
      assertResultDoesNotRevealSecrets_def recordSuccessS_def monitored_fields by (intro conjI allI refl)+

lemma monitored_ops [simp]:
  "readAttemptS (monitored guard w) = readAttemptS w" "markIndeterminateS (monitored guard w) = markIndeterminateS w"
  "reconcileS (monitored guard w) = reconcileS w" "failBeforeS (monitored guard w) = failBeforeS w" "cancelS (monitored guard w) = cancelS w"
  "prepareS (monitored guard w) = prepareS w"
  unfolding fun_eq_iff readAttemptS_def markIndeterminateS_def reconcileS_def failBeforeS_def cancelS_def prepareS_def
    monitored_fields monitored_base by (intro conjI allI refl)+

lemma monitored_reconciliation [simp]:
  "applyReconciliation (monitored guard w) = applyReconciliation w" "reconcileFailed (monitored guard w) = reconcileFailed w"
  unfolding fun_eq_iff applyReconciliation_def reconcileFailed_def monitored_ops monitored_base by (intro conjI allI refl)+

lemma monitored_persisted [simp]: "reconcilePersistedCredentialBrokerMutation (monitored guard w) = reconcilePersistedCredentialBrokerMutation w"
  unfolding fun_eq_iff reconcilePersistedCredentialBrokerMutation_def monitored_reconciliation monitored_ops monitored_reconcile
    monitored_fields by (intro allI refl)

lemma monitored_loop [simp]: "prepareLoop n (monitored guard w) input = prepareLoop n w input"
  by (induction n) (simp_all add: prepareLoop.simps cong: if_cong)

lemma monitored_failed [simp]: "callFailed (monitored guard w) = callFailed w"
  unfolding fun_eq_iff callFailed_def monitored_ops monitored_base monitored_persisted by (intro allI refl)

lemma monitored_stages [simp]: "duplicateCall (monitored guard w) = duplicateCall w" "completeCall (monitored guard w) = completeCall w"
  unfolding fun_eq_iff duplicateCall_def completeCall_def monitored_ops monitored_base monitored_persisted monitored_fields monitored_failed
  by (intro conjI allI refl)+

lemma tryS_cong:
  "(\<And>t a. m s = (t, Inr a) \<Longrightarrow> k a t = k' a t) \<Longrightarrow> tryS m h k s = tryS m h k' s"
  by (auto simp: tryS_def split: prod.split sum.split)

lemma monitored_invoke:
  assumes "guard s"
  shows "invokeCredentialBroker (monitored guard w) broker action request secrets m s = invokeCredentialBroker w broker action request secrets m s"
proof (cases "bw_registry w broker action")
  case None
  then show ?thesis by (simp add: invokeCredentialBroker_def monitored_def)
next
  case (Some g)
  then have "bw_registry (monitored guard w) broker action = Some (g\<lparr>rg_handler := (\<lambda>request secrets m s.
        if guard s then rg_handler g request secrets m s else (s, Inl ''handler called out of turn''))\<rparr>)"
    by (simp add: monitored_def)
  with Some assms show ?thesis
    by (simp add: invokeCredentialBroker_def thenS_def readS_def split: sum.split)
qed

text \<open>
  Where the handler of a call may run: in a state obtained by recording the dispatch of the call's
  attempt, prepared until then, in a state where the call was authorised and not cancelled; and only when
  the request was not on record at the start of the call.
\<close>

definition gate :: "broker_world \<Rightarrow> (broker_request \<Rightarrow> call_state \<Rightarrow> string + unit) \<Rightarrow> broker_request \<Rightarrow> string \<Rightarrow> string \<Rightarrow> call_state
    \<Rightarrow> call_state \<Rightarrow> bool" where
  "gate w authority request k digest start t \<longleftrightarrow> rowByRequestId start k = None
     \<and> (\<exists>u r d. ensureAuthority authority request u = Inr () \<and> rowByRequestId u k = Some r \<and> mt_state r = Mu_prepared \<and> mt_digest r = digest
          \<and> dispatchCredentialBrokerMutation (bw_env w) (bw_now w u) k u = Inr (t, d) \<and> ma_state d = Mu_dispatched)"

lemma monitored_dispatched:
  assumes inv: "broker_inv s" and fresh: "fresh s a" "ma_state a = Mu_prepared" "mt_digest (ma_row a) = digest"
    and start: "rowByRequestId start (ma_id a) = None"
  shows "dispatchedCall (monitored (gate w authority request (ma_id a) digest start) w) authority broker action request digest target secrets a s
     = dispatchedCall w authority broker action request digest target secrets a s"
  unfolding dispatchedCall_def Let_def monitored_failed monitored_stages monitored_fields monitored_base monitored_ops
proof (rule tryS_cong)
  fix t d
  assume "thenS (readS (ensureAuthority authority request))
            (\<lambda>_. dbS w (\<lambda>s. dispatchCredentialBrokerMutation (bw_env w) (bw_now w s) (ma_id a) s)) s = (t, Inr d)"
  then have run: "ensureAuthority authority request s = Inr ()" "dispatchCredentialBrokerMutation (bw_env w) (bw_now w s) (ma_id a) s = Inr (t, d)"
    by (auto simp: eff_inv)
  have "ma_state d = Mu_dispatched" using transition_fresh [OF inv run(2) [unfolded broker_defs]] by simp
  with run fresh start have "gate w authority request (ma_id a) digest start t"
    unfolding gate_def fresh_def by blast
  from monitored_invoke [where guard = "gate w authority request (ma_id a) digest start", OF this]
  show "tryS (invokeCredentialBroker (monitored (gate w authority request (ma_id a) digest start) w) broker action request secrets (Some (digest, target)))
          (callFailed w True request digest (Some secrets) (Some d)) (completeCall w authority request digest secrets d) t
      = tryS (invokeCredentialBroker w broker action request secrets (Some (digest, target)))
          (callFailed w True request digest (Some secrets) (Some d)) (completeCall w authority request digest secrets d) t"
    unfolding tryS_def by simp
qed

lemma created_row:
  assumes "prepareCredentialBrokerMutation env now input u = Inr (t, st, a)" and "st \<noteq> Pr_blocked" and "broker_inv u"
    and "obj_get (pi_request input) ''request_id'' = JStr k"
  shows "fresh t a \<and> ma_id a = k \<and> mt_digest (ma_row a) = pi_digest input \<and> (st \<noteq> Pr_duplicate \<longrightarrow> ma_state a = Mu_prepared)"
  using assms(1)
proof (cases rule: prepare_cases)
  case duplicate
  with assms(4) rowByRequestId_mem [OF broker_inv_ok [OF assms(3)] duplicate(3)] show ?thesis by (simp add: fresh_def)
next
  case blocked
  with assms(2) show ?thesis by simp
next
  case created
  with assms(4) show ?thesis by (simp add: fresh_def admitted_def)
qed

lemma monitored_mutation:
  assumes w: "provider_ok w" and inv: "broker_inv s" and id: "obj_get request ''request_id'' = JStr k"
    and start: "rowByRequestId start k = rowByRequestId s k"
  shows "mutationCall n (monitored (gate w authority request k digest start) w) authority sourceId g broker action request digest secrets s
     = mutationCall n w authority sourceId g broker action request digest secrets s"
  unfolding mutationCall_def Let_def monitored_failed monitored_stages monitored_loop
proof (rule tryS_cong)
  let ?input = "\<lambda>target. \<lparr>pi_request = request, pi_digest = digest, pi_target = target, pi_source_id = sourceId\<rparr>"
  fix t and p :: "string \<times> loop_outcome"
  assume "thenS (readS (\<lambda>s. rg_target g request)) (\<lambda>raw. thenS (prepareLoop n w (?input (js_trim raw))) (\<lambda>out. retS (js_trim raw, out))) s = (t, Inr p)"
  then obtain target out where p: "p = (target, out)" and loop: "prepareLoop n w (?input target) s = (t, Inr out)"
    by (auto simp: eff_inv)
  have same: "dispatchedCall (monitored (gate w authority request k digest start) w) authority broker action request digest target secrets a t
      = dispatchedCall w authority broker action request digest target secrets a t"
    if out: "out = Loop_prepared st a" "st \<noteq> Pr_duplicate" for st a
  proof -
    from prepareLoop_prepared [OF w inv loop [unfolded out(1)]] obtain u where
      u: "broker_inv u" "st \<noteq> Pr_blocked" "prepareCredentialBrokerMutation (bw_env w) (bw_now w u) (?input target) u = Inr (t, st, a)" by blast
    from created_row [OF u(3,2,1), of k] id out(2) have row: "fresh t a" "ma_id a = k" "mt_digest (ma_row a) = digest" "ma_state a = Mu_prepared" by auto
    have "prepareS w (?input target) u = (t, Inr (st, a))" using u(3) by (simp add: prepareS_Inr)
    from prepareS_fresh(2) [OF u(1) this] have inv': "broker_inv t" .
    have "rowByRequestId s k = None"
    proof (rule ccontr)
      assume "rowByRequestId s k \<noteq> None"
      then obtain r where "rowByRequestId s k = Some r" by blast
      with prepareLoop_known [OF loop [unfolded out(1)], of k r] id out(2) show False by simp
    qed
    with start row(2) have "rowByRequestId start (ma_id a) = None" by simp
    from monitored_dispatched [OF inv' row(1,4,3) this] row(2) show ?thesis by simp
  qed
  show "(case p of (target, out) \<Rightarrow> case out of
           Loop_running \<Rightarrow> retS None
         | Loop_answer r \<Rightarrow> retS (Some r)
         | Loop_prepared status attempt \<Rightarrow>
             if status = Pr_duplicate
             then tryS (duplicateCall w authority request digest attempt)
               (\<lambda>e. thenS (callFailed w True request digest (Some secrets) (Some attempt) e) (\<lambda>r. retS (Some r))) (\<lambda>r. retS (Some r))
             else thenS (dispatchedCall (monitored (gate w authority request k digest start) w) authority broker action request digest target secrets attempt)
               (\<lambda>r. retS (Some r))) t
     = (case p of (target, out) \<Rightarrow> case out of
           Loop_running \<Rightarrow> retS None
         | Loop_answer r \<Rightarrow> retS (Some r)
         | Loop_prepared status attempt \<Rightarrow>
             if status = Pr_duplicate
             then tryS (duplicateCall w authority request digest attempt)
               (\<lambda>e. thenS (callFailed w True request digest (Some secrets) (Some attempt) e) (\<lambda>r. retS (Some r))) (\<lambda>r. retS (Some r))
             else thenS (dispatchedCall w authority broker action request digest target secrets attempt) (\<lambda>r. retS (Some r))) t"
    using same p by (cases out) (simp_all add: thenS_def)
qed

lemma admitCall_state: "admitCall w authority broker action request registered s = (t, r) \<Longrightarrow> t = s"
  by (auto simp: admitCall_def thenS_def readS_def raiseS_def retS_def split: sum.splits prod.splits if_splits option.splits)

lemma admitCall_Inr: "admitCall w authority broker action request registered s = (t, Inr (g, secrets)) \<Longrightarrow> t = s \<and> registered = Some g"
  by (auto simp: admitCall_def eff_inv split: option.splits if_splits)

lemma monitored_body:
  assumes w: "provider_ok w" and inv: "broker_inv s" and id: "obj_get request ''request_id'' = JStr k"
    and start: "rowByRequestId start k = rowByRequestId s k" and g: "bw_registry w broker action = Some g" "rg_mutation g"
  shows "callBody n (monitored (gate w authority request k digest start) w) authority sourceId broker action request digest s
     = callBody n w authority sourceId broker action request digest s"
proof -
  let ?w = "monitored (gate w authority request k digest start) w"
  obtain g' where g': "bw_registry ?w broker action = Some g'" "rg_mutation g'" "rg_target g' = rg_target g"
    using g by (simp add: monitored_def)
  have same: "mutationCall n ?w authority sourceId g' broker action request digest secrets s
      = mutationCall n w authority sourceId g broker action request digest secrets s" for secrets
    using monitored_mutation [OF w inv id start] g'(3) by (simp add: mutationCall_def)
  have "admitCall ?w authority broker action request (Some g') s
      = (case admitCall w authority broker action request (Some g) s of (t, Inl e) \<Rightarrow> (t, Inl e) | (t, Inr (h, secrets)) \<Rightarrow> (t, Inr (g', secrets)))"
    by (simp add: admitCall_def thenS_def readS_def raiseS_def retS_def split: sum.split prod.split)
  moreover note admitCall_Inr [of w authority broker action request "Some g" s]
  ultimately show ?thesis using g g' same
    by (auto simp: callBody_def tryS_def split: sum.split prod.split)
qed

section \<open>A success is on record\<close>

lemma resultForFailure_ok [simp]: "\<not> cr_ok (resultForFailure request oc e d x)"
  by (simp add: resultForFailure_def)

lemma attemptFailureResult_ok [simp]: "\<not> cr_ok (attemptFailureResult a d)"
  by (simp add: attemptFailureResult_def)

lemma callFailed_ok: "callFailed w m request digest secrets a e s = (t, Inr r) \<Longrightarrow> \<not> cr_ok r"
  by (auto simp: callFailed_def Let_def eff_inv split: if_splits option.splits)

lemma steps_digest:
  assumes "(call_step env)\<^sup>*\<^sup>* s t" and "broker_inv s" and "fresh s a" and "rowByRequestId t (ma_id a) = Some r"
  shows "mt_digest r = mt_digest (ma_row a)"
proof -
  from calls.row_steps [OF assms(1,2)] assms(3) obtain r' where "rowByRequestId t (ma_id a) = Some r'" "same_identity r' (ma_row a)"
    by (auto simp: fresh_def attempt_evolves_def)
  with assms(4) show ?thesis by (simp add: same_identity_keys)
qed

lemma duplicate_success:
  assumes w: "provider_ok w" and inv: "broker_inv s" and fresh: "fresh s a"
    and run: "duplicateCall w authority request digest a s = (t, Inr r)" and ok: "cr_ok r"
  shows "\<exists>row. rowByRequestId t (ma_id a) = Some row \<and> completed_row row \<and> mt_digest row = mt_digest (ma_row a)"
proof -
  let ?m = "if unresolved (ma_row a) then reconcilePersistedCredentialBrokerMutation w a else retS a"
  from run obtain u b where m: "?m s = (u, Inr b)" and rest: "(if completed_attempt b
     then thenS (readS (ensureAuthority authority request)) (\<lambda>_.
          thenS (recordSuccessS w request (stored_result b)) (\<lambda>_.
          retS (resultForSuccess request (if ma_state b = Mu_completed then Oc_completed else Oc_reconciled) digest
            (stored_result b) (if ma_state b = Mu_reconciled then Some Rs_completed else None))))
     else retS (attemptFailureResult b digest)) u = (t, Inr r)"
    unfolding duplicateCall_def by (auto simp: eff_inv)
  from rest ok have finished: "completed_attempt b" "t = u" by (auto simp: eff_inv recordSuccessS_def split: if_splits)
  have "fresh u b \<and> ma_id b = ma_id a"
    using m fresh reconcilePersisted_settled [OF w inv fresh] by (auto simp: eff_inv settled_attempt_def split: if_splits)
  moreover have "calm w ?m" by (intro stays_intro reconcilePersisted_calm [OF w])
  from steps_digest [OF staysD [OF this m] inv fresh] have "mt_digest row = mt_digest (ma_row a)" if "rowByRequestId u (ma_id a) = Some row" for row
    using that by simp
  ultimately show ?thesis using finished by (auto simp: fresh_def completed_attempt_def completed_row_def)
qed

lemma completeCall_success:
  assumes "completeCall w authority request digest secrets d result s = (t, Inr r)" and "cr_ok r"
  shows "\<exists>c. completeCredentialBrokerMutation (bw_env w) (bw_now w s) (ma_id d) result s = Inr (t, c)"
proof (cases "ensureAuthority authority request s")
  case (Inl e)
  with assms show ?thesis by (auto simp: completeCall_def Let_def eff_inv dest: callFailed_ok)
next
  case (Inr u)
  with assms show ?thesis by (auto simp: completeCall_def Let_def eff_inv recordSuccessS_def dest: callFailed_ok)
qed

lemma dispatched_success:
  assumes w: "provider_ok w" and inv: "broker_inv s" and fresh: "fresh s a"
    and run: "dispatchedCall w authority broker action request digest target secrets a s = (t, Inr r)" and ok: "cr_ok r"
  shows "\<exists>row. rowByRequestId t (ma_id a) = Some row \<and> completed_row row \<and> mt_digest row = mt_digest (ma_row a)"
proof -
  note failed = callFailed_ok [of w True request digest "Some secrets"]
  from run ok obtain s1 d s2 result where
    d: "dispatchCredentialBrokerMutation (bw_env w) (bw_now w s) (ma_id a) s = Inr (s1, d)"
    and i: "invokeCredentialBroker w broker action request secrets (Some (digest, target)) s1 = (s2, Inr result)"
    and rest: "completeCall w authority request digest secrets d result s2 = (t, Inr r)"
    unfolding dispatchedCall_def Let_def by (auto simp: eff_inv dest: failed)
  have id: "ma_id d = ma_id a" using transition_fresh [OF inv d [unfolded broker_defs]] by simp
  from completeCall_success [OF rest ok] id obtain c where
    c: "completeCredentialBrokerMutation (bw_env w) (bw_now w s2) (ma_id a) result s2 = Inr (t, c)" by auto
  have "(call_step (bw_env w))\<^sup>*\<^sup>* s s1" using call_step_ops(5) [OF d] by (rule r_into_rtranclp)
  moreover have "(call_step (bw_env w))\<^sup>*\<^sup>* s1 s2" by (rule staysD [OF invoke_calm [OF w] i])
  moreover have "(call_step (bw_env w))\<^sup>*\<^sup>* s2 t" using call_step_ops(6) [OF c] by (rule r_into_rtranclp)
  ultimately have steps: "(call_step (bw_env w))\<^sup>*\<^sup>* s s2" "(call_step (bw_env w))\<^sup>*\<^sup>* s t" by (blast intro: rtranclp_trans)+
  from calls.steps_inv [OF steps(1) inv] have inv2: "broker_inv s2" .
  from transition_fresh [OF inv2 c [unfolded broker_defs]] have "fresh t c" "ma_id c = ma_id a" "ma_state c = Mu_completed" by blast+
  with steps_digest [OF steps(2) inv fresh] show ?thesis by (auto simp: fresh_def completed_row_def)
qed

lemma mutation_success:
  assumes w: "provider_ok w" and inv: "broker_inv s" and id: "obj_get request ''request_id'' = JStr k"
    and run: "mutationCall n w authority sourceId g broker action request digest secrets s = (t, Inr (Some r))" and ok: "cr_ok r"
  shows "\<exists>row. rowByRequestId t k = Some row \<and> completed_row row \<and> mt_digest row = digest"
proof -
  let ?input = "\<lambda>target. \<lparr>pi_request = request, pi_digest = digest, pi_target = target, pi_source_id = sourceId\<rparr>"
  let ?failed = "\<lambda>attempt e. thenS (callFailed w True request digest (Some secrets) attempt e) (\<lambda>r. retS (Some r))"
  have failed: "?failed a e u = (t, Inr (Some r)) \<Longrightarrow> False" for a e u using ok by (auto simp: eff_inv dest: callFailed_ok)
  from run obtain u target out where
    first: "thenS (readS (\<lambda>s. rg_target g request)) (\<lambda>raw. thenS (prepareLoop n w (?input (js_trim raw))) (\<lambda>out. retS (js_trim raw, out))) s
        = (u, Inr (target, out))"
    and rest: "(case out of
           Loop_running \<Rightarrow> retS None
         | Loop_answer r \<Rightarrow> retS (Some r)
         | Loop_prepared status attempt \<Rightarrow>
             if status = Pr_duplicate
             then tryS (duplicateCall w authority request digest attempt) (?failed (Some attempt)) (\<lambda>r. retS (Some r))
             else thenS (dispatchedCall w authority broker action request digest target secrets attempt) (\<lambda>r. retS (Some r))) u = (t, Inr (Some r))"
    unfolding mutationCall_def Let_def by (auto simp: tryS_Inr split: prod.splits dest: failed)
  from first have loop: "prepareLoop n w (?input target) s = (u, Inr out)" by (auto simp: eff_inv)
  show ?thesis
  proof (cases out)
    case (Loop_answer r')
    with rest have "r = r'" by (simp add: eff_inv)
    moreover from loop Loop_answer have "\<not> cr_ok r'"
    proof (induction n arbitrary: s)
      case 0
      from 0(1) show ?case by (cases rule: prepareLoop_step) (use 0(2) in \<open>auto simp: ownedAnswer_def\<close>)
    next
      case (Suc n)
      from Suc.prems(1) show ?case
        by (cases rule: prepareLoop_step) (use Suc in \<open>auto simp: ownedAnswer_def blockedAnswer_def\<close>)
    qed
    ultimately show ?thesis using ok by simp
  next
    case (Loop_prepared st a)
    from prepareLoop_prepared [OF w inv loop [unfolded Loop_prepared]] obtain v where
      v: "broker_inv v" "st \<noteq> Pr_blocked" "prepareCredentialBrokerMutation (bw_env w) (bw_now w v) (?input target) v = Inr (u, st, a)" by blast
    from created_row [OF v(3,2,1), of k] id have row: "fresh u a" "ma_id a = k" "mt_digest (ma_row a) = digest" by auto
    have "prepareS w (?input target) v = (u, Inr (st, a))" using v(3) by (simp add: prepareS_Inr)
    from prepareS_fresh(2) [OF v(1) this] have inv': "broker_inv u" .
    show ?thesis
    proof (cases "st = Pr_duplicate")
      case True
      with rest Loop_prepared failed have "duplicateCall w authority request digest a u = (t, Inr r)" by (auto simp: eff_inv)
      from duplicate_success [OF w inv' row(1) this ok] row show ?thesis by simp
    next
      case False
      with rest Loop_prepared have "dispatchedCall w authority broker action request digest target secrets a u = (t, Inr r)" by (auto simp: eff_inv)
      from dispatched_success [OF w inv' row(1) this ok] row show ?thesis by simp
    qed
  qed (use rest in \<open>simp add: eff_inv\<close>)
qed

text \<open>A call that is not finished is one whose loop is not.\<close>

lemma mutation_running:
  assumes "mutationCall n w authority sourceId g broker action request digest secrets s = (t, Inr r)"
  obtains (finished) "r \<noteq> None"
  | (running) u target where "prepareLoop n w \<lparr>pi_request = request, pi_digest = digest, pi_target = target, pi_source_id = sourceId\<rparr> s = (u, Inr Loop_running)"
proof -
  let ?input = "\<lambda>target. \<lparr>pi_request = request, pi_digest = digest, pi_target = target, pi_source_id = sourceId\<rparr>"
  let ?failed = "\<lambda>attempt e. thenS (callFailed w True request digest (Some secrets) attempt e) (\<lambda>r. retS (Some r))"
  have failed: "?failed a e u = (t, Inr r) \<Longrightarrow> r \<noteq> None" for a e u by (auto simp: eff_inv)
  from assms consider u e where "?failed None e u = (t, Inr r)"
    | u target out where "thenS (readS (\<lambda>s. rg_target g request)) (\<lambda>raw. thenS (prepareLoop n w (?input (js_trim raw))) (\<lambda>out. retS (js_trim raw, out))) s
        = (u, Inr (target, out))"
      "(case out of
           Loop_running \<Rightarrow> retS None
         | Loop_answer r \<Rightarrow> retS (Some r)
         | Loop_prepared status attempt \<Rightarrow>
             if status = Pr_duplicate
             then tryS (duplicateCall w authority request digest attempt) (?failed (Some attempt)) (\<lambda>r. retS (Some r))
             else thenS (dispatchedCall w authority broker action request digest target secrets attempt) (\<lambda>r. retS (Some r))) u = (t, Inr r)"
    unfolding mutationCall_def Let_def by (auto simp: tryS_Inr split: prod.splits)
  then show thesis
  proof cases
    case 1
    with failed finished show thesis by blast
  next
    case 2
    show thesis
    proof (cases out)
      case Loop_running
      with 2(1) running show thesis by (auto simp: eff_inv)
    next
      case (Loop_prepared st a)
      with 2(2) have "r \<noteq> None" by (auto simp: eff_inv split: if_splits)
      then show thesis by (rule finished)
    qed (use 2(2) finished in \<open>auto simp: eff_inv\<close>)
  qed
qed

text \<open>A call of a registered mutation that comes as far as its stages.\<close>

lemma body_stages:
  assumes "callBody n w authority sourceId broker action request digest s = (t, Inr r)"
    and "bw_registry w broker action = Some g" and "rg_mutation g"
  shows "(\<exists>a e. callFailed w True request digest None None e s = (t, Inr a) \<and> r = Some a)
    \<or> (\<exists>secrets. mutationCall n w authority sourceId g broker action request digest secrets s = (t, Inr r))"
proof -
  let ?admit = "admitCall w authority broker action request (Some g)"
  from assms consider u h secrets where "?admit s = (u, Inr (h, secrets))"
      "(if rg_mutation h then mutationCall n w authority sourceId h broker action request digest secrets
        else thenS (readCall w authority broker action request digest secrets) (\<lambda>r. retS (Some r))) u = (t, Inr r)"
    | u e where "?admit s = (u, Inl e)" "thenS (callFailed w True request digest None None e) (\<lambda>r. retS (Some r)) u = (t, Inr r)"
    by (auto simp: callBody_def tryS_Inr)
  then show ?thesis
  proof cases
    case 1
    with admitCall_Inr [OF 1(1)] assms(3) show ?thesis by auto
  next
    case 2
    with admitCall_state [OF 2(1)] show ?thesis by (auto simp: eff_inv)
  qed
qed

definition in_flight_of :: "broker_world \<Rightarrow> string \<Rightarrow> broker_request \<Rightarrow> string \<Rightarrow> string \<Rightarrow> string \<Rightarrow> in_flight" where
  "in_flight_of w sourceId request broker action requestId =
     \<lparr>if_request_id = requestId, if_source_id = sourceId, if_request = request,
      if_mutation = (case bw_registry w broker action of None \<Rightarrow> False | Some g \<Rightarrow> rg_mutation g), if_aborted = None\<rparr>"

lemma execute_stages:
  assumes "executeDeclaredCredentialBrokerCall n w authority sourceId kind request s = (t, Inr r)"
    and fields: "obj_get request ''broker'' = JStr broker" "obj_get request ''action'' = JStr action" "obj_get request ''request_id'' = JStr k"
  shows "(t = s \<and> (\<exists>a. r = Some a \<and> \<not> cr_ok a))
    \<or> (\<exists>u. callBody n w authority sourceId broker action request (brokerRequestDigest w sourceId request)
          (s\<lparr>cs_in_flight := cs_in_flight s @ [in_flight_of w sourceId request broker action k]\<rparr>) = (u, Inr r)
        \<and> t = u\<lparr>cs_in_flight := filter (\<lambda>c. if_request_id c \<noteq> k) (cs_in_flight u)\<rparr>)"
  using assms by (auto simp: executeDeclaredCredentialBrokerCall_def Let_def retS_def in_flight_of_def split: option.splits if_splits prod.splits)

lemma monitored_execute:
  assumes w: "provider_ok w" and inv: "broker_inv s"
    and fields: "obj_get request ''broker'' = JStr broker" "obj_get request ''action'' = JStr action" "obj_get request ''request_id'' = JStr k"
    and g: "bw_registry w broker action = Some g" "rg_mutation g"
  shows "executeDeclaredCredentialBrokerCall n (monitored (gate w authority request k (brokerRequestDigest w sourceId request) s) w) authority sourceId kind request s
     = executeDeclaredCredentialBrokerCall n w authority sourceId kind request s"
proof -
  let ?w = "monitored (gate w authority request k (brokerRequestDigest w sourceId request) s) w"
  let ?s = "s\<lparr>cs_in_flight := cs_in_flight s @ [in_flight_of w sourceId request broker action k]\<rparr>"
  have call: "in_flight_of ?w sourceId request broker action k = in_flight_of w sourceId request broker action k"
    using g by (simp add: in_flight_of_def monitored_def)
  have body: "callBody n ?w authority sourceId broker action request (brokerRequestDigest w sourceId request) ?s
      = callBody n w authority sourceId broker action request (brokerRequestDigest w sourceId request) ?s"
    by (rule monitored_body [OF w _ fields(3) _ g]) (simp_all add: inv)
  show ?thesis
    unfolding executeDeclaredCredentialBrokerCall_def Let_def fields prod.case js.case in_flight_of_def [symmetric] monitored_base call body ..
qed

section \<open>Properties\<close>

text \<open>
  A concrete world: one registered mutation whose handler succeeds at once and whose reconciliation finds
  nothing at the provider, declared on the only node.
\<close>

definition sample_action :: registered where
  "sample_action =
     \<lparr>rg_mutation = True, rg_max_input = 65536, rg_handler = (\<lambda>_ _ _. retS (JStr ''merged'')), rg_target = (\<lambda>_. Inr ''pr''),
      rg_reconcile = Some (\<lambda>_ _. retS (Rc_absent None))\<rparr>"

definition sample_node :: js where
  "sample_node = JObj [(''agent_runtime'', JObj [(''credentials'', JArr [JObj
     [(''credential_ref'', JStr ''c''), (''inject'', JObj [(''mode'', JStr ''manager_broker''), (''broker'', JStr ''github''),
        (''allowed_actions'', JArr [JStr ''merge''])])]])])]"

definition sample_world :: broker_world where
  "sample_world =
     \<lparr>bw_env = sample_env, bw_now = (\<lambda>_. ''t1''),
      bw_registry = (\<lambda>broker action. if broker = ''github'' \<and> action = ''merge'' then Some sample_action else None),
      bw_secret = (\<lambda>_. Inr [''token'']), bw_active_run = (\<lambda>_. Some (\<lambda>_. Some sample_node)), bw_error_text = (\<lambda>_. ''error''),
      bw_collation = (\<lambda>k. k), bw_record_success = (\<lambda>_ _ _. Inr ())\<rparr>"

definition always :: "broker_request \<Rightarrow> call_state \<Rightarrow> string + unit" where
  "always request s = Inr ()"

definition idle :: call_state where
  "idle = \<lparr>db_attempts = [], db_events = [], cs_in_flight = []\<rparr>"

definition interrupted :: call_state where
  "interrupted = \<lparr>db_attempts = db_attempts sample_dispatched, db_events = db_events sample_dispatched, cs_in_flight = []\<rparr>"

lemma sample_world_fields:
  "bw_env sample_world = sample_env" "bw_registry sample_world ''github'' ''merge'' = Some sample_action" "rg_mutation sample_action"
  "obj_get sample_request ''broker'' = JStr ''github''" "obj_get sample_request ''action'' = JStr ''merge''"
  "obj_get sample_request ''request_id'' = JStr ''q1''"
  by (simp_all add: sample_world_def sample_action_def sample_request_def obj_get_def)

lemma sample_provider: "provider_ok sample_world" "quiet_provider sample_world"
  by (auto simp: provider_ok_def quiet_provider_def sample_world_def sample_action_def stays_pure retS_def split: if_splits)

lemma sample_invariants: "broker_inv idle" "broker_inv interrupted"
proof -
  show "broker_inv idle" by (rule broker_inv_init) (simp add: broker_init_def idle_def)
  have "broker_inv sample_dispatched" by (rule broker.reach_inv [OF reach_step [OF sample_reached(2,3)]])
  then show "broker_inv interrupted" by (simp add: broker_inv_def store_ok_def attempt_log_def interrupted_def)
qed

text \<open>C34. The provider of a mutation is called at most once for a request, and only for a dispatch on record: when the handler is
  registered as one that mutates, a monitor
  that lets the handler of the call run only right after this call recorded the dispatch of its own,
  until then merely prepared attempt (of the digest of this very request), in a state where the caller was
  authorised and had not cancelled, and never when the request was on record before, does not change the
  call in any way, whatever other calls do to the record during its waits.
\<close>

theorem broker_provider_gated:
  assumes "provider_ok w" and "broker_inv s"
    and "obj_get request ''broker'' = JStr broker" and "obj_get request ''action'' = JStr action" and "obj_get request ''request_id'' = JStr k"
    and "bw_registry w broker action = Some g" and "rg_mutation g"
  shows "executeDeclaredCredentialBrokerCall n (monitored (gate w authority request k (brokerRequestDigest w sourceId request) s) w)
        authority sourceId kind request s
     = executeDeclaredCredentialBrokerCall n w authority sourceId kind request s"
  using assms by (rule monitored_execute)

lemma broker_provider_gated_witness:
  "executeDeclaredCredentialBrokerCall 1 (monitored (gate sample_world always sample_request ''q1'' (brokerRequestDigest sample_world ''w'' sample_request) idle)
      sample_world) always ''w'' ''worker_actor'' sample_request idle
   = executeDeclaredCredentialBrokerCall 1 sample_world always ''w'' ''worker_actor'' sample_request idle"
  by (rule broker_provider_gated [OF sample_provider(1) sample_invariants(1) sample_world_fields(4-6,2,3)])

text \<open>C35. A success is on record: when a call of a mutation reports success, for a new request or for a
  repeated one, the attempt of its request id is recorded as completed, or reconciled as completed, for the
  digest of this very request.
\<close>

theorem broker_success_recorded:
  assumes "provider_ok w" and "broker_inv s"
    and "obj_get request ''broker'' = JStr broker" and "obj_get request ''action'' = JStr action" and "obj_get request ''request_id'' = JStr k"
    and "bw_registry w broker action = Some g" and "rg_mutation g"
    and "executeDeclaredCredentialBrokerCall n w authority sourceId kind request s = (t, Inr (Some result))" and "cr_ok result"
  shows "\<exists>r. rowByRequestId t k = Some r \<and> completed_row r \<and> mt_digest r = brokerRequestDigest w sourceId request"
proof -
  let ?s = "s\<lparr>cs_in_flight := cs_in_flight s @ [in_flight_of w sourceId request broker action k]\<rparr>"
  from execute_stages [OF assms(8,3-5)] assms(9) obtain u where
    u: "callBody n w authority sourceId broker action request (brokerRequestDigest w sourceId request) ?s = (u, Inr (Some result))"
      "t = u\<lparr>cs_in_flight := filter (\<lambda>c. if_request_id c \<noteq> k) (cs_in_flight u)\<rparr>" by auto
  from body_stages [OF u(1) assms(6,7)] assms(9) obtain secrets where
    "mutationCall n w authority sourceId g broker action request (brokerRequestDigest w sourceId request) secrets ?s = (u, Inr (Some result))"
    by (auto dest: callFailed_ok)
  from mutation_success [OF assms(1) _ assms(5) this assms(9)] assms(2) u(2) show ?thesis by simp
qed

lemma broker_success_recorded_witness:
  "\<exists>t r. executeDeclaredCredentialBrokerCall 1 sample_world always ''w'' ''worker_actor'' sample_request idle
       = (t, Inr (Some (resultForSuccess sample_request Oc_completed (replicate 64 CHR ''a'') (JStr ''merged'') None)))
     \<and> rowByRequestId t ''q1'' = Some r \<and> completed_row r"
proof -
  let ?run = "executeDeclaredCredentialBrokerCall 1 sample_world always ''w'' ''worker_actor'' sample_request idle"
  have "snd ?run = Inr (Some (resultForSuccess sample_request Oc_completed (replicate 64 CHR ''a'') (JStr ''merged'') None))" by code_simp
  then have run: "?run = (fst ?run, Inr (Some (resultForSuccess sample_request Oc_completed (replicate 64 CHR ''a'') (JStr ''merged'') None)))"
    by (metis prod.collapse)
  have "cr_ok (resultForSuccess sample_request Oc_completed (replicate 64 CHR ''a'') (JStr ''merged'') None)" by (simp add: resultForSuccess_def)
  from broker_success_recorded [OF sample_provider(1) sample_invariants(1) sample_world_fields(4-6,2,3) run this] run show ?thesis by blast
qed

text \<open>C36. A call ends: when the reconciliations it waits for do not change the record themselves, one round
  of the loop around a blocked preparation is enough, so the call is never left running.
\<close>

theorem broker_call_finishes:
  assumes "provider_ok w" and "quiet_provider w" and "broker_inv s"
    and "obj_get request ''broker'' = JStr broker" and "obj_get request ''action'' = JStr action" and "obj_get request ''request_id'' = JStr k"
    and "executeDeclaredCredentialBrokerCall (Suc n) w authority sourceId kind request s = (t, Inr r)"
  shows "r \<noteq> None"
proof -
  let ?s = "s\<lparr>cs_in_flight := cs_in_flight s @ [in_flight_of w sourceId request broker action k]\<rparr>"
  have body: "callBody (Suc n) w authority sourceId broker action request (brokerRequestDigest w sourceId request) ?s = (u, Inr r) \<Longrightarrow> r \<noteq> None" for u
  proof -
    assume "callBody (Suc n) w authority sourceId broker action request (brokerRequestDigest w sourceId request) ?s = (u, Inr r)"
    then consider g secrets where
        "mutationCall (Suc n) w authority sourceId g broker action request (brokerRequestDigest w sourceId request) secrets ?s = (u, Inr r)"
      | "r \<noteq> None"
      unfolding callBody_def Let_def by (auto simp: eff_inv dest: admitCall_Inr split: if_splits)
    then show ?thesis
    proof cases
      case 1
      have "broker_inv ?s" using assms(3) by simp
      note one = prepareLoop_one_round [OF assms(1,2) this]
      from 1 one show ?thesis by (cases rule: mutation_running) (auto dest: one)
    qed
  qed
  from execute_stages [OF assms(7,4-6)] body show ?thesis by auto
qed

lemma broker_call_finishes_witness:
  "snd (executeDeclaredCredentialBrokerCall 1 sample_world always ''w'' ''worker_actor'' sample_request idle) \<noteq> Inr None"
proof
  let ?run = "executeDeclaredCredentialBrokerCall 1 sample_world always ''w'' ''worker_actor'' sample_request idle"
  assume "snd ?run = Inr None"
  then have "executeDeclaredCredentialBrokerCall (Suc 0) sample_world always ''w'' ''worker_actor'' sample_request idle = (fst ?run, Inr None)"
    by (metis One_nat_def prod.collapse)
  from broker_call_finishes [OF sample_provider sample_invariants(1) sample_world_fields(4-6) this] show False by simp
qed

text \<open>C37. After a restart: with at most 64 unresolved attempts on record, recovery accounts for exactly these,
  leaves no attempt prepared, dispatched or waiting for its cancellation (but for those whose own recovery
  threw, which it names), and calls an attempt reconciled only when it is recorded as reconciled or as
  failed before its dispatch.
\<close>

theorem broker_recovery_accounts:
  assumes "provider_ok w" and "broker_inv s" and "recoverCredentialBrokerMutations w s = (t, Inr summary)"
    and "length (filter unresolved (db_attempts s)) \<le> 64" and "r \<in> set (db_attempts s)"
  shows "(unresolved r \<longleftrightarrow> mt_request_id r \<in> set (sm_reconciled summary) \<union> set (sm_unresolved summary) \<union> fst ` set (sm_failed summary))
    \<and> (mt_request_id r \<notin> fst ` set (sm_failed summary) \<longrightarrow>
        (\<exists>r'. rowByRequestId t (mt_request_id r) = Some r' \<and> mt_state r' \<notin> {Mu_prepared, Mu_dispatched, Mu_cancel_requested}))
    \<and> (mt_request_id r \<in> set (sm_reconciled summary) \<longrightarrow>
        (\<exists>r'. rowByRequestId t (mt_request_id r) = Some r' \<and> mt_state r' \<in> {Mu_reconciled, Mu_failed_pre_dispatch}))"
proof -
  note facts = recover_accounts [OF assms]
  have "\<exists>r'. rowByRequestId t k = Some r' \<and> mt_state r' \<notin> {Mu_prepared, Mu_dispatched, Mu_cancel_requested}" if "at_rank t k 3" for k
    using that by (auto simp: at_rank_def)
  with facts show ?thesis unfolding accounted_def summary_true_def by fast
qed

lemma broker_recovery_accounts_witness:
  "\<exists>t. recoverCredentialBrokerMutations sample_world interrupted = (t, Inr \<lparr>sm_reconciled = [''q1''], sm_unresolved = [], sm_failed = []\<rparr>)
     \<and> (\<exists>r'. rowByRequestId t ''q1'' = Some r' \<and> mt_state r' \<in> {Mu_reconciled, Mu_failed_pre_dispatch})"
proof -
  let ?run = "recoverCredentialBrokerMutations sample_world interrupted"
  let ?r = "sample_row Mu_dispatched ''t2''"
  have "snd ?run = Inr \<lparr>sm_reconciled = [''q1''], sm_unresolved = [], sm_failed = []\<rparr>" by code_simp
  then have run: "?run = (fst ?run, Inr \<lparr>sm_reconciled = [''q1''], sm_unresolved = [], sm_failed = []\<rparr>)" by (metis prod.collapse)
  have "length (filter unresolved (db_attempts interrupted)) \<le> 64" "?r \<in> set (db_attempts interrupted)" "mt_request_id ?r = ''q1''"
    by (simp_all add: interrupted_def sample_dispatched_def sample_row_def)
  with broker_recovery_accounts [OF sample_provider(1) sample_invariants(2) run, of ?r] run show ?thesis by auto
qed

end
