(* ===== verification/Run_Triggers.thy ===== *)
theory Run_Triggers
  imports Sql_Store Effects
begin

text \<open>
  \<open>persistence/dag-run-admission.ts\<close>, \<open>persistence/dag-triggers.ts\<close> and \<open>runtime/dag-triggers.ts\<close>: the
  admission of runs under a workflow's concurrency policy, the stored interval and event triggers, and
  their dispatch. The schema of workflows makes the numbers of a trigger integers. A trigger's
  configuration is a flat record that its JSON text gives back, so a row holds it as it is. The
  reading of the clock is an argument.
\<close>

datatype overlap = Overlap_skip | Overlap_allow

datatype trigger_type = Trigger_interval | Trigger_event

record trigger_config =
  tc_type :: trigger_type
  tc_every_ms :: "int option"
  tc_event :: "string option"
  tc_overlap :: overlap
  tc_max :: int
  tc_enabled :: bool

record trigger_row =
  tg_key :: string
  tg_workflow_id :: string
  tg_trigger_id :: string
  tg_type :: trigger_type
  tg_config :: trigger_config
  tg_enabled :: bool
  tg_next_fire_at :: "int option"
  tg_updated_at :: int

record trigger_delivery_row =
  dl_key :: string
  dl_trigger_key :: string
  dl_fire_key :: string
  dl_status :: string
  dl_run_id :: "string option"
  dl_payload_json :: "string option"
  dl_created_at :: int
  dl_updated_at :: int

record admission_row =
  am_run_id :: string
  am_workflow_id :: string
  am_source :: string
  am_created_at :: int

text \<open>Of the runs, what admission reads.\<close>

record run_row =
  rn_run_id :: string
  rn_workflow_id :: string
  rn_status :: string

record trigger_db =
  db_workflow_ids :: "string list"
  db_triggers :: "trigger_row list"
  db_deliveries :: "trigger_delivery_row list"
  db_admissions :: "admission_row list"
  db_runs :: "run_row list"

record concurrency_policy =
  po_overlap :: overlap
  po_max :: int
  po_trigger_ids :: "string list"

datatype admission_conflict = Overlap_policy int | Max_concurrency int

section \<open>Constraints\<close>

definition triggers_ok :: "string list \<Rightarrow> trigger_row list \<Rightarrow> bool" where
  "triggers_ok workflows rows \<longleftrightarrow> unique_on (\<lambda>_. True) tg_key rows
     \<and> unique_on (\<lambda>_. True) (\<lambda>r. (tg_workflow_id r, tg_trigger_id r)) rows
     \<and> list_all (\<lambda>r. tg_workflow_id r \<in> set workflows) rows"

definition has_trigger :: "trigger_row list \<Rightarrow> string \<Rightarrow> bool" where
  "has_trigger triggers k \<longleftrightarrow> list_ex (\<lambda>r. tg_key r = k) triggers"

definition deliveries_ok :: "trigger_row list \<Rightarrow> trigger_delivery_row list \<Rightarrow> bool" where
  "deliveries_ok triggers rows \<longleftrightarrow> unique_on (\<lambda>_. True) dl_key rows
     \<and> unique_on (\<lambda>_. True) (\<lambda>r. (dl_trigger_key r, dl_fire_key r)) rows
     \<and> list_all (\<lambda>r. has_trigger triggers (dl_trigger_key r)) rows"

definition admissions_ok :: "admission_row list \<Rightarrow> bool" where
  "admissions_ok rows \<longleftrightarrow> unique_on (\<lambda>_. True) am_run_id rows"

section \<open>Admission\<close>

definition admission_order :: "(string \<Rightarrow> string) \<Rightarrow> (string \<times> trigger_config) list \<Rightarrow> (string \<times> trigger_config) list" where
  "admission_order collation triggers = sort_key (\<lambda>(k, c). collation k) (filter (\<lambda>(k, c). tc_enabled c) triggers)"

text \<open>\<open>collation\<close> is the order of \<open>localeCompare\<close>; the entries of an absent record are none.\<close>

definition deriveWorkflowConcurrencyPolicy :: "(string \<Rightarrow> string) \<Rightarrow> (string \<times> trigger_config) list option \<Rightarrow> concurrency_policy option" where
  "deriveWorkflowConcurrencyPolicy collation triggers =
     (let enabled = admission_order collation (case triggers of None \<Rightarrow> [] | Some ts \<Rightarrow> ts)
      in case enabled of
           [] \<Rightarrow> None
         | (k, c) # rest \<Rightarrow>
             Some \<lparr>po_overlap = (if list_ex (\<lambda>(_, d). tc_overlap d = Overlap_skip) enabled then Overlap_skip else Overlap_allow),
                   po_max = fold (\<lambda>(_, d) m. min m (tc_max d)) rest (tc_max c),
                   po_trigger_ids = map fst enabled\<rparr>)"

definition trigger_order :: "trigger_row \<Rightarrow> string \<times> string" where
  "trigger_order r = (tg_workflow_id r, tg_trigger_id r)"

definition listDagTriggers :: "('m) trigger_db_scheme \<Rightarrow> trigger_row list" where
  "listDagTriggers db = sort_key trigger_order (db_triggers db)"

definition loadWorkflowConcurrencyPolicy :: "(string \<Rightarrow> string) \<Rightarrow> string \<Rightarrow> ('m) trigger_db_scheme \<Rightarrow> concurrency_policy option" where
  "loadWorkflowConcurrencyPolicy collation workflowId db =
     deriveWorkflowConcurrencyPolicy collation
       (Some (map (\<lambda>r. (tg_trigger_id r, (tg_config r)\<lparr>tc_enabled := tg_enabled r \<and> tc_enabled (tg_config r)\<rparr>))
         (filter (\<lambda>r. tg_workflow_id r = workflowId) (listDagTriggers db))))"

definition superseded_admission :: "int \<Rightarrow> run_row list \<Rightarrow> admission_row \<Rightarrow> bool" where
  "superseded_admission now runs a \<longleftrightarrow> am_created_at a < now - 300000
     \<or> list_ex (\<lambda>r. rn_run_id r = am_run_id a
          \<or> am_source a = ''resume:command'' \<and> am_run_id a = ''resume:'' @ rn_run_id r \<and> rn_status r \<noteq> ''waiting'') runs"

definition active_run_count :: "string \<Rightarrow> ('m) trigger_db_scheme \<Rightarrow> int" where
  "active_run_count workflowId db = int (length (filter (\<lambda>r. rn_workflow_id r = workflowId \<and> rn_status r = ''active'') (db_runs db)))"

definition pending_admissions :: "string \<Rightarrow> ('m) trigger_db_scheme \<Rightarrow> int" where
  "pending_admissions workflowId db = int (length (filter (\<lambda>a. am_workflow_id a = workflowId) (db_admissions db)))"

record reserve_input =
  ri_run_id :: string
  ri_workflow_id :: string
  ri_source :: string
  ri_policy :: "concurrency_policy option"

text \<open>
  A refusal is thrown after the transaction: what was pruned stays pruned. A transaction that fails is
  rolled back.
\<close>

definition reserveWorkflowRun :: "int \<Rightarrow> reserve_input \<Rightarrow> (('m) trigger_db_scheme, admission_conflict err, bool) eff" where
  "reserveWorkflowRun now input db =
     (case ri_policy input of
        None \<Rightarrow> (db, Inr False)
      | Some policy \<Rightarrow>
          let pruned = db\<lparr>db_admissions := fst (sql_delete (superseded_admission now (db_runs db)) (db_admissions db))\<rparr>;
              activeCount = active_run_count (ri_workflow_id input) pruned + pending_admissions (ri_workflow_id input) pruned
          in if po_overlap policy = Overlap_skip \<and> 0 < activeCount then (pruned, Inl (Conflict (Overlap_policy activeCount)))
             else if po_max policy \<le> activeCount then (pruned, Inl (Conflict (Max_concurrency activeCount)))
             else (case sql_insert admissions_ok
                     \<lparr>am_run_id = ri_run_id input, am_workflow_id = ri_workflow_id input, am_source = ri_source input, am_created_at = now\<rparr>
                     (db_admissions pruned) of
                     Inl e \<Rightarrow> (db, Inl e)
                   | Inr rows \<Rightarrow> (pruned\<lparr>db_admissions := rows\<rparr>, Inr True)))"

definition releaseWorkflowRunReservation :: "string \<Rightarrow> ('m) trigger_db_scheme \<Rightarrow> ('m) trigger_db_scheme" where
  "releaseWorkflowRunReservation runId db = db\<lparr>db_admissions := fst (sql_delete (\<lambda>a. am_run_id a = runId) (db_admissions db))\<rparr>"

text \<open>
  How \<open>orchestration/change-orchestrator.ts\<close> uses a reservation: \<open>act\<close>, which creates or resumes the run,
  is done under it, and it is released whatever happens.
\<close>

definition underReservation :: "int \<Rightarrow> reserve_input \<Rightarrow> (('m) trigger_db_scheme, admission_conflict err, 'a) eff
    \<Rightarrow> (('m) trigger_db_scheme, admission_conflict err, 'a) eff" where
  "underReservation now input act =
     thenS (reserveWorkflowRun now input) (\<lambda>reserved db.
       case act db of (db', r) \<Rightarrow> (if reserved then releaseWorkflowRunReservation (ri_run_id input) db' else db', r))"

section \<open>Triggers\<close>

definition trigger_key :: "string \<Rightarrow> string \<Rightarrow> string" where
  "trigger_key workflowId triggerId = workflowId @ '':'' @ triggerId"

definition every :: "trigger_config \<Rightarrow> int" where
  "every c = (case tc_every_ms c of None \<Rightarrow> 1000 | Some n \<Rightarrow> n)"

text \<open>Deleting a trigger deletes its deliveries.\<close>

definition delete_triggers :: "(trigger_row \<Rightarrow> bool) \<Rightarrow> ('m) trigger_db_scheme \<Rightarrow> ('m) trigger_db_scheme" where
  "delete_triggers P db =
     (let triggers = fst (sql_delete P (db_triggers db))
      in db\<lparr>db_triggers := triggers, db_deliveries := fst (sql_delete (\<lambda>d. \<not> has_trigger triggers (dl_trigger_key d)) (db_deliveries db))\<rparr>)"

definition upsert_trigger :: "trigger_row \<Rightarrow> ('m) trigger_db_scheme \<Rightarrow> admission_conflict err + ('m) trigger_db_scheme" where
  "upsert_trigger row db =
     (if has_trigger (db_triggers db) (tg_key row)
      then bindE (sql_update (triggers_ok (db_workflow_ids db)) (\<lambda>r. tg_key r = tg_key row)
             (\<lambda>r. r\<lparr>tg_type := tg_type row, tg_config := tg_config row, tg_enabled := tg_enabled row,
                    tg_next_fire_at := tg_next_fire_at row, tg_updated_at := tg_updated_at row\<rparr>) (db_triggers db)) (\<lambda>(rows, _).
           Inr (db\<lparr>db_triggers := rows\<rparr>))
      else bindE (sql_insert (triggers_ok (db_workflow_ids db)) row (db_triggers db)) (\<lambda>rows. Inr (db\<lparr>db_triggers := rows\<rparr>)))"

definition syncTrigger :: "int \<Rightarrow> string \<Rightarrow> string \<times> trigger_config \<Rightarrow> ('m) trigger_db_scheme
    \<Rightarrow> admission_conflict err + ('m) trigger_db_scheme" where
  "syncTrigger now workflowId entry db =
     (case entry of (triggerId, config) \<Rightarrow>
        let key = trigger_key workflowId triggerId;
            existing = find (\<lambda>r. tg_key r = key) (db_triggers db);
            nextFireAt = (if tc_type config = Trigger_interval
                          then Some (case Option.bind existing tg_next_fire_at of None \<Rightarrow> now + every config | Some n \<Rightarrow> n) else None)
        in upsert_trigger \<lparr>tg_key = key, tg_workflow_id = workflowId, tg_trigger_id = triggerId, tg_type = tc_type config, tg_config = config,
             tg_enabled = tc_enabled config, tg_next_fire_at = nextFireAt, tg_updated_at = now\<rparr> db)"

fun syncEach :: "int \<Rightarrow> string \<Rightarrow> (string \<times> trigger_config) list \<Rightarrow> ('m) trigger_db_scheme
    \<Rightarrow> admission_conflict err + ('m) trigger_db_scheme" where
  "syncEach now workflowId [] db = Inr db"
| "syncEach now workflowId (entry # entries) db = bindE (syncTrigger now workflowId entry db) (syncEach now workflowId entries)"

definition syncDagTriggers :: "int \<Rightarrow> string \<Rightarrow> (string \<times> trigger_config) list \<Rightarrow> ('m) trigger_db_scheme
    \<Rightarrow> admission_conflict err + ('m) trigger_db_scheme" where
  "syncDagTriggers now workflowId triggers db =
     (if triggers = [] then Inr (delete_triggers (\<lambda>r. tg_workflow_id r = workflowId) db)
      else syncEach now workflowId triggers
        (delete_triggers (\<lambda>r. tg_workflow_id r = workflowId \<and> tg_trigger_id r \<notin> set (map fst triggers)) db))"

definition dueIntervalTriggers :: "int \<Rightarrow> ('m) trigger_db_scheme \<Rightarrow> trigger_row list" where
  "dueIntervalTriggers now db =
     sort_key (\<lambda>r. case tg_next_fire_at r of None \<Rightarrow> 0 | Some n \<Rightarrow> n)
       (filter (\<lambda>r. tg_enabled r \<and> tg_type r = Trigger_interval \<and> (case tg_next_fire_at r of None \<Rightarrow> False | Some n \<Rightarrow> n \<le> now)) (db_triggers db))"

definition eventTriggers :: "string \<Rightarrow> ('m) trigger_db_scheme \<Rightarrow> trigger_row list" where
  "eventTriggers eventName db =
     filter (\<lambda>r. tg_enabled r \<and> tc_type (tg_config r) = Trigger_event \<and> tc_event (tg_config r) = Some eventName) (listDagTriggers db)"

definition delivery_key :: "js_env \<Rightarrow> string \<Rightarrow> string \<Rightarrow> string" where
  "delivery_key env key fireKey = env_sha256 env (key @ [CHR 0x00] @ fireKey)"

text \<open>\<open>INSERT OR IGNORE\<close> passes over a duplicate key; a trigger that is gone makes it fail.\<close>

definition claimTriggerDelivery :: "js_env \<Rightarrow> int \<Rightarrow> trigger_row \<Rightarrow> string \<Rightarrow> js \<Rightarrow> ('m) trigger_db_scheme
    \<Rightarrow> admission_conflict err + (('m) trigger_db_scheme \<times> bool)" where
  "claimTriggerDelivery env now record fireKey payload db =
     (let key = delivery_key env (tg_key record) fireKey
      in if list_ex (\<lambda>d. dl_key d = key \<or> dl_trigger_key d = tg_key record \<and> dl_fire_key d = fireKey) (db_deliveries db)
         then Inr (db, False)
         else bindE (sql_insert (deliveries_ok (db_triggers db))
             \<lparr>dl_key = key, dl_trigger_key = tg_key record, dl_fire_key = fireKey, dl_status = ''claimed'', dl_run_id = None,
              dl_payload_json = json_stringify (env_num_str env) payload, dl_created_at = now, dl_updated_at = now\<rparr> (db_deliveries db)) (\<lambda>rows.
           Inr (db\<lparr>db_deliveries := rows\<rparr>, True)))"

definition set_next_fire :: "int \<Rightarrow> trigger_row \<Rightarrow> ('m) trigger_db_scheme \<Rightarrow> ('m) trigger_db_scheme" where
  "set_next_fire now record db =
     db\<lparr>db_triggers := rewritten (\<lambda>r. tg_key r = tg_key record)
          (\<lambda>r. r\<lparr>tg_next_fire_at := Some (now + every (tg_config record)), tg_updated_at := now\<rparr>) (db_triggers db)\<rparr>"

definition completeTriggerDelivery :: "js_env \<Rightarrow> int \<Rightarrow> trigger_row \<Rightarrow> string \<Rightarrow> string \<Rightarrow> ('m) trigger_db_scheme \<Rightarrow> ('m) trigger_db_scheme" where
  "completeTriggerDelivery env now record fireKey runId db =
     (let done = db\<lparr>db_deliveries := rewritten (\<lambda>d. dl_key d = delivery_key env (tg_key record) fireKey)
            (\<lambda>d. d\<lparr>dl_status := ''dispatched'', dl_run_id := Some runId, dl_updated_at := now\<rparr>) (db_deliveries db)\<rparr>
      in if tc_type (tg_config record) = Trigger_interval then set_next_fire now record done else done)"

definition releaseTriggerDelivery :: "js_env \<Rightarrow> int \<Rightarrow> trigger_row \<Rightarrow> string \<Rightarrow> string \<Rightarrow> ('m) trigger_db_scheme \<Rightarrow> ('m) trigger_db_scheme" where
  "releaseTriggerDelivery env now record fireKey reason db =
     db\<lparr>db_deliveries := rewritten (\<lambda>d. dl_key d = delivery_key env (tg_key record) fireKey)
          (\<lambda>d. d\<lparr>dl_status := take 256 (''failed:'' @ reason), dl_updated_at := now\<rparr>) (db_deliveries db)\<rparr>"

definition deferIntervalTrigger :: "int \<Rightarrow> trigger_row \<Rightarrow> ('m) trigger_db_scheme \<Rightarrow> ('m) trigger_db_scheme" where
  "deferIntervalTrigger now record db =
     (if tc_type (tg_config record) \<noteq> Trigger_interval then db else set_next_fire now record db)"

section \<open>Dispatch\<close>

text \<open>
  The orchestrator creates the run of a trigger; it is given the workflow, the prompt and the source of
  the run, and throws with a reason.
\<close>

type_synonym 'm orchestrator = "string \<Rightarrow> string \<Rightarrow> string \<Rightarrow> (('m) trigger_db_scheme, string, string) eff"

record 'm trigger_world =
  tw_env :: js_env
  tw_now :: "('m) trigger_db_scheme \<Rightarrow> int"
  tw_orchestrator :: "'m orchestrator option"

record dispatch_result =
  dr_dispatched :: bool
  dr_run_id :: "string option"
  dr_reason :: "string option"

definition not_dispatched :: "string \<Rightarrow> dispatch_result" where
  "not_dispatched reason = \<lparr>dr_dispatched = False, dr_run_id = None, dr_reason = Some reason\<rparr>"

definition updateS :: "('s \<Rightarrow> 's) \<Rightarrow> ('s, 'e, unit) eff" where
  "updateS f s = (f s, Inr ())"

fun type_text :: "trigger_type \<Rightarrow> string" where
  "type_text Trigger_interval = ''interval''"
| "type_text Trigger_event = ''event''"

definition trigger_prompt :: "js_env \<Rightarrow> trigger_row \<Rightarrow> string \<Rightarrow> js \<Rightarrow> string" where
  "trigger_prompt env record fireKey payload =
     (case json_stringify (env_num_str env)
        (JObj [(''trigger_id'', JStr (tg_trigger_id record)), (''trigger_type'', JStr (type_text (tc_type (tg_config record)))),
               (''fire_key'', JStr fireKey), (''payload'', payload)]) of None \<Rightarrow> [] | Some t \<Rightarrow> t)"

definition deferS :: "'m trigger_world \<Rightarrow> trigger_row \<Rightarrow> (('m) trigger_db_scheme, 'e, unit) eff" where
  "deferS w record = updateS (\<lambda>db. deferIntervalTrigger (tw_now w db) record db)"

definition runTrigger :: "'m trigger_world \<Rightarrow> 'm orchestrator \<Rightarrow> trigger_row \<Rightarrow> string \<Rightarrow> js
    \<Rightarrow> (('m) trigger_db_scheme, admission_conflict err, dispatch_result) eff" where
  "runTrigger w orchestrator record fireKey payload =
     catchS
       (thenS (orchestrator (tg_workflow_id record) (trigger_prompt (tw_env w) record fireKey payload) (''trigger:'' @ tg_key record)) (\<lambda>runId.
        thenS (updateS (\<lambda>db. completeTriggerDelivery (tw_env w) (tw_now w db) record fireKey runId db)) (\<lambda>_.
        retS \<lparr>dr_dispatched = True, dr_run_id = Some runId, dr_reason = None\<rparr>)))
       (\<lambda>reason.
        thenS (updateS (\<lambda>db. releaseTriggerDelivery (tw_env w) (tw_now w db) record fireKey reason db)) (\<lambda>_.
        thenS (deferS w record) (\<lambda>_. retS (not_dispatched reason))))"

definition dispatchTrigger :: "'m trigger_world \<Rightarrow> trigger_row \<Rightarrow> string \<Rightarrow> js
    \<Rightarrow> (('m) trigger_db_scheme, admission_conflict err, dispatch_result) eff" where
  "dispatchTrigger w record fireKey payload =
     (case tw_orchestrator w of
        None \<Rightarrow> retS (not_dispatched ''trigger dispatcher is not initialized'')
      | Some orchestrator \<Rightarrow>
          thenS (transactS (\<lambda>db. claimTriggerDelivery (tw_env w) (tw_now w db) record fireKey payload db)) (\<lambda>claimed.
          if \<not> claimed then thenS (deferS w record) (\<lambda>_. retS (not_dispatched ''duplicate''))
          else runTrigger w orchestrator record fireKey payload))"

text \<open>The part of the scheduler's tick that fires the due triggers.\<close>

definition fireAt :: "'m trigger_world \<Rightarrow> trigger_row \<Rightarrow> ('m) trigger_db_scheme \<Rightarrow> int" where
  "fireAt w record db = (case tg_next_fire_at record of None \<Rightarrow> tw_now w db | Some n \<Rightarrow> n)"

definition fireInterval :: "'m trigger_world \<Rightarrow> trigger_row \<Rightarrow> (('m) trigger_db_scheme, admission_conflict err, dispatch_result) eff" where
  "fireInterval w record db =
     dispatchTrigger w record (''interval:'' @ env_num_str (tw_env w) (num_of_int (fireAt w record db)))
       (JObj [(''scheduled_at'', js_int (fireAt w record db))]) db"

definition triggerTick :: "'m trigger_world \<Rightarrow> (('m) trigger_db_scheme, admission_conflict err, dispatch_result list) eff" where
  "triggerTick w db = eachS (fireInterval w) (dueIntervalTriggers (tw_now w db) db) db"

definition fireDagEventTrigger :: "'m trigger_world \<Rightarrow> string \<Rightarrow> string \<Rightarrow> js
    \<Rightarrow> (('m) trigger_db_scheme, admission_conflict err, (string \<times> dispatch_result) list) eff" where
  "fireDagEventTrigger w eventName idempotencyKey payload db =
     eachS (\<lambda>record. thenS (dispatchTrigger w record (''event:'' @ idempotencyKey) payload) (\<lambda>r. retS (tg_key record, r)))
       (eventTriggers eventName db) db"

end
