(* ===== verification/Run_Triggers_Theorems.thy ===== *)
theory Run_Triggers_Theorems
  imports Run_Triggers Machines
begin

text \<open>
  The theorems about run admission and triggers: however processes interleave, a workflow never has more
  active runs than its policy allows; a firing is dispatched once; a tick of the scheduler leaves no
  trigger due; and the stored triggers of a workflow are those of its definition.
\<close>

section \<open>The bound on active runs\<close>

text \<open>A reservation counts until its run exists, or the run it was to resume has left the waiting state.\<close>

definition holds_slot :: "run_row list \<Rightarrow> admission_row \<Rightarrow> bool" where
  "holds_slot runs a \<longleftrightarrow> \<not> superseded_admission (am_created_at a) runs a"

definition slots :: "string \<Rightarrow> ('m) trigger_db_scheme \<Rightarrow> int" where
  "slots w db = int (length (filter (\<lambda>a. am_workflow_id a = w \<and> holds_slot (db_runs db) a) (db_admissions db)))"

definition occupied :: "string \<Rightarrow> ('m) trigger_db_scheme \<Rightarrow> int" where
  "occupied w db = active_run_count w db + slots w db"

definition set_status :: "nat \<Rightarrow> string \<Rightarrow> ('m) trigger_db_scheme \<Rightarrow> ('m) trigger_db_scheme" where
  "set_status i status db = db\<lparr>db_runs := (db_runs db)[i := (db_runs db ! i)\<lparr>rn_status := status\<rparr>]\<rparr>"

text \<open>
  The steps of any number of processes on the runs and the reservations: a reservation under a policy of
  at most \<open>N\<close> runs, its release, the creation or the resumption of a run of the workflow while a
  reservation for it counts, those of runs of other workflows, and a run's leaving the active or the
  waiting state, whose pending resumption, if there is one, was reserved for its own workflow.
\<close>

inductive admission_step :: "string \<Rightarrow> int \<Rightarrow> ('m) trigger_db_scheme \<Rightarrow> ('m) trigger_db_scheme \<Rightarrow> bool" for w N where
  step_reserve: "(\<And>p. ri_policy input = Some p \<Longrightarrow> ri_workflow_id input = w \<Longrightarrow> po_max p \<le> N)
     \<Longrightarrow> admission_step w N db (fst (reserveWorkflowRun now input db))"
| step_release: "admission_step w N db (releaseWorkflowRunReservation runId db)"
| step_create: "rn_status run = ''active''
     \<Longrightarrow> (rn_workflow_id run = w \<Longrightarrow> \<exists>a \<in> set (db_admissions db). holds_slot (db_runs db) a \<and> am_run_id a = rn_run_id run \<and> am_workflow_id a = w)
     \<Longrightarrow> admission_step w N db (db\<lparr>db_runs := db_runs db @ [run]\<rparr>)"
| step_resume: "i < length (db_runs db) \<Longrightarrow> rn_status (db_runs db ! i) = ''waiting''
     \<Longrightarrow> (rn_workflow_id (db_runs db ! i) = w \<Longrightarrow> \<exists>a \<in> set (db_admissions db). holds_slot (db_runs db) a
           \<and> am_source a = ''resume:command'' \<and> am_run_id a = ''resume:'' @ rn_run_id (db_runs db ! i) \<and> am_workflow_id a = w)
     \<Longrightarrow> admission_step w N db (set_status i ''active'' db)"
| step_leave: "i < length (db_runs db) \<Longrightarrow> rn_status (db_runs db ! i) = ''active'' \<or> rn_status (db_runs db ! i) = ''waiting''
     \<Longrightarrow> status \<noteq> ''active''
     \<Longrightarrow> (\<forall>a \<in> set (db_admissions db). am_run_id a = ''resume:'' @ rn_run_id (db_runs db ! i) \<longrightarrow> am_workflow_id a = rn_workflow_id (db_runs db ! i))
     \<Longrightarrow> admission_step w N db (set_status i status db)"

lemma count_le: "(\<And>x. x \<in> set xs \<Longrightarrow> P x \<Longrightarrow> Q x) \<Longrightarrow> length (filter P xs) \<le> length (filter Q xs)"
  by (induction xs) (auto simp: le_SucI)

lemma count_less: "(\<And>x. x \<in> set xs \<Longrightarrow> P x \<Longrightarrow> Q x) \<Longrightarrow> y \<in> set xs \<Longrightarrow> Q y \<Longrightarrow> \<not> P y
    \<Longrightarrow> length (filter P xs) < length (filter Q xs)"
proof (induction xs)
  case (Cons x xs)
  have le: "length (filter P xs) \<le> length (filter Q xs)" using Cons.prems(1) by (intro count_le) simp
  show ?case
  proof (cases "y = x")
    case True
    with Cons.prems(3,4) le show ?thesis by simp
  next
    case False
    with Cons have "length (filter P xs) < length (filter Q xs)" by simp
    with Cons.prems(1) [of x] show ?thesis by simp
  qed
qed simp

lemma count_le_Suc: "distinct (map key xs) \<Longrightarrow> (\<And>x. x \<in> set xs \<Longrightarrow> P x \<Longrightarrow> Q x \<or> key x = k)
    \<Longrightarrow> length (filter P xs) \<le> Suc (length (filter Q xs))"
proof (induction xs)
  case (Cons x xs)
  show ?case
  proof (cases "key x = k")
    case True
    then have "Q y" if "y \<in> set xs" "P y" for y using Cons.prems(1) Cons.prems(2) [of y] that True by (auto simp: image_iff)
    then have "length (filter P xs) \<le> length (filter Q xs)" by (rule count_le)
    then show ?thesis by simp
  next
    case False
    have "length (filter P xs) \<le> Suc (length (filter Q xs))" using Cons by auto
    with Cons.prems(2) [of x] False show ?thesis by simp
  qed
qed simp

lemma count_update:
  assumes "i < length xs"
  shows "length (filter P (xs[i := y])) + (if P (xs ! i) then 1 else 0) = length (filter P xs) + (if P y then 1 else 0)"
proof -
  have "filter P xs = filter P (take i xs @ xs ! i # drop (Suc i) xs)" using assms by (simp add: id_take_nth_drop [symmetric])
  with assms show ?thesis by (simp add: upd_conv_take_nth_drop)
qed

lemma list_ex_update: "i < length xs \<Longrightarrow> list_ex P (xs[i := y]) \<longleftrightarrow> P y \<or> (\<exists>j < length xs. j \<noteq> i \<and> P (xs ! j))"
  by (auto simp: list_ex_length nth_list_update)

lemma list_ex_split: "i < length xs \<Longrightarrow> list_ex P xs \<longleftrightarrow> P (xs ! i) \<or> (\<exists>j < length xs. j \<noteq> i \<and> P (xs ! j))"
  by (auto simp: list_ex_length)

definition supersedes :: "run_row \<Rightarrow> admission_row \<Rightarrow> bool" where
  "supersedes r a \<longleftrightarrow> rn_run_id r = am_run_id a
     \<or> am_source a = ''resume:command'' \<and> am_run_id a = ''resume:'' @ rn_run_id r \<and> rn_status r \<noteq> ''waiting''"

lemma holds_slot_eq: "holds_slot runs a \<longleftrightarrow> \<not> list_ex (\<lambda>r. supersedes r a) runs"
  by (simp add: holds_slot_def superseded_admission_def supersedes_def)

lemma superseded_pruned: "\<not> superseded_admission now runs a \<Longrightarrow> holds_slot runs a"
  by (simp add: holds_slot_def superseded_admission_def)

lemma slots_mono:
  "db_admissions db' = db_admissions db \<Longrightarrow> (\<And>a. a \<in> set (db_admissions db) \<Longrightarrow> am_workflow_id a = w \<Longrightarrow> holds_slot (db_runs db') a \<Longrightarrow> holds_slot (db_runs db) a)
   \<Longrightarrow> slots w db' \<le> slots w db"
  by (auto simp: slots_def intro!: count_le)

lemma slots_less:
  "db_admissions db' = db_admissions db \<Longrightarrow> (\<And>a. a \<in> set (db_admissions db) \<Longrightarrow> am_workflow_id a = w \<Longrightarrow> holds_slot (db_runs db') a \<Longrightarrow> holds_slot (db_runs db) a)
   \<Longrightarrow> a \<in> set (db_admissions db) \<Longrightarrow> am_workflow_id a = w \<Longrightarrow> holds_slot (db_runs db) a \<Longrightarrow> \<not> holds_slot (db_runs db') a
   \<Longrightarrow> slots w db' + 1 \<le> slots w db"
  using count_less [of "db_admissions db" "\<lambda>a. am_workflow_id a = w \<and> holds_slot (db_runs db') a"
    "\<lambda>a. am_workflow_id a = w \<and> holds_slot (db_runs db) a" a]
  by (simp add: slots_def)

lemma active_set_status:
  "i < length (db_runs db) \<Longrightarrow> active_run_count w (set_status i s db) =
     active_run_count w db + (if rn_workflow_id (db_runs db ! i) = w \<and> s = ''active'' then 1 else 0)
       - (if rn_workflow_id (db_runs db ! i) = w \<and> rn_status (db_runs db ! i) = ''active'' then 1 else 0)"
  using count_update [of i "db_runs db" "\<lambda>r. rn_workflow_id r = w \<and> rn_status r = ''active''" "(db_runs db ! i)\<lparr>rn_status := s\<rparr>"]
  by (auto simp: active_run_count_def set_status_def split: if_splits)

lemma holds_set_status:
  assumes "i < length (db_runs db)"
  shows "holds_slot (db_runs (set_status i s db)) a \<longleftrightarrow> \<not> supersedes ((db_runs db ! i)\<lparr>rn_status := s\<rparr>) a
      \<and> \<not> (\<exists>j < length (db_runs db). j \<noteq> i \<and> supersedes (db_runs db ! j) a)"
    and "holds_slot (db_runs db) a \<longleftrightarrow> \<not> supersedes (db_runs db ! i) a
      \<and> \<not> (\<exists>j < length (db_runs db). j \<noteq> i \<and> supersedes (db_runs db ! j) a)"
  using assms by (auto simp: holds_slot_eq set_status_def list_ex_update list_ex_split)

lemma set_status_fields [simp]: "db_admissions (set_status i s db) = db_admissions db"
  by (simp add: set_status_def)

lemma resume_occupied:
  assumes i: "i < length (db_runs db)" and wait: "rn_status (db_runs db ! i) = ''waiting''"
    and held: "rn_workflow_id (db_runs db ! i) = w \<Longrightarrow> \<exists>a \<in> set (db_admissions db). holds_slot (db_runs db) a
        \<and> am_source a = ''resume:command'' \<and> am_run_id a = ''resume:'' @ rn_run_id (db_runs db ! i) \<and> am_workflow_id a = w"
  shows "occupied w (set_status i ''active'' db) \<le> occupied w db"
proof (cases "rn_workflow_id (db_runs db ! i) = w")
  case True
  then obtain a where a: "a \<in> set (db_admissions db)" "am_workflow_id a = w" "holds_slot (db_runs db) a" "am_source a = ''resume:command''"
      "am_run_id a = ''resume:'' @ rn_run_id (db_runs db ! i)"
    using held by blast
  have "slots w (set_status i ''active'' db) + 1 \<le> slots w db"
    by (rule slots_less [OF _ _ a(1-3)]) (use a(4,5) in \<open>auto simp: holds_set_status [OF i] supersedes_def wait\<close>)
  with i wait True show ?thesis by (simp add: occupied_def active_set_status)
next
  case False
  have "slots w (set_status i ''active'' db) \<le> slots w db"
    by (rule slots_mono) (auto simp: holds_set_status [OF i] supersedes_def wait)
  with i wait False show ?thesis by (simp add: occupied_def active_set_status)
qed

lemma leave_occupied:
  assumes ok: "admissions_ok (db_admissions db)" and i: "i < length (db_runs db)"
    and old: "rn_status (db_runs db ! i) = ''active'' \<or> rn_status (db_runs db ! i) = ''waiting''" and new: "status \<noteq> ''active''"
    and own: "\<forall>a \<in> set (db_admissions db). am_run_id a = ''resume:'' @ rn_run_id (db_runs db ! i) \<longrightarrow> am_workflow_id a = rn_workflow_id (db_runs db ! i)"
  shows "occupied w (set_status i status db) \<le> occupied w db"
proof (cases "rn_workflow_id (db_runs db ! i) = w \<and> rn_status (db_runs db ! i) = ''active''")
  case True
  have "holds_slot (db_runs db) a \<or> am_run_id a = ''resume:'' @ rn_run_id (db_runs db ! i)"
    if "holds_slot (db_runs (set_status i status db)) a" for a
    using that by (auto simp: holds_set_status [OF i] supersedes_def)
  then have "slots w (set_status i status db) \<le> slots w db + 1"
    using count_le_Suc [of am_run_id "db_admissions db" "\<lambda>a. am_workflow_id a = w \<and> holds_slot (db_runs (set_status i status db)) a"
      "\<lambda>a. am_workflow_id a = w \<and> holds_slot (db_runs db) a" "''resume:'' @ rn_run_id (db_runs db ! i)"] ok
    by (auto simp: slots_def admissions_ok_def unique_on_def)
  with True i new show ?thesis by (simp add: occupied_def active_set_status)
next
  case False
  have "slots w (set_status i status db) \<le> slots w db"
    by (rule slots_mono) (use False old own in \<open>auto simp: holds_set_status [OF i] supersedes_def\<close>)
  with False i new show ?thesis by (auto simp: occupied_def active_set_status)
qed

lemma create_occupied:
  assumes "rn_status run = ''active''"
    and "rn_workflow_id run = w \<Longrightarrow> \<exists>a \<in> set (db_admissions db). holds_slot (db_runs db) a \<and> am_run_id a = rn_run_id run \<and> am_workflow_id a = w"
  shows "occupied w (db\<lparr>db_runs := db_runs db @ [run]\<rparr>) \<le> occupied w db"
proof (cases "rn_workflow_id run = w")
  case True
  then obtain a where a: "a \<in> set (db_admissions db)" "am_workflow_id a = w" "holds_slot (db_runs db) a" "am_run_id a = rn_run_id run"
    using assms(2) by blast
  have "slots w (db\<lparr>db_runs := db_runs db @ [run]\<rparr>) + 1 \<le> slots w db"
    by (rule slots_less [OF _ _ a(1-3)]) (use a(4) in \<open>auto simp: holds_slot_eq supersedes_def\<close>)
  then show ?thesis using True assms(1) by (simp add: occupied_def active_run_count_def)
next
  case False
  have "slots w (db\<lparr>db_runs := db_runs db @ [run]\<rparr>) \<le> slots w db" by (rule slots_mono) (auto simp: holds_slot_eq)
  then show ?thesis using False by (simp add: occupied_def active_run_count_def)
qed

lemma removed_occupied:
  "occupied w (db\<lparr>db_admissions := filter P (db_admissions db)\<rparr>) \<le> occupied w db"
  by (auto simp: occupied_def active_run_count_def slots_def intro!: count_le)

lemma pruned_slots:
  assumes "\<And>a. a \<in> set (db_admissions db) \<Longrightarrow> holds_slot (db_runs db) a"
  shows "slots w db = pending_admissions w db"
  unfolding slots_def pending_admissions_def by (intro arg_cong [where f = int] arg_cong [where f = length] filter_cong) (auto simp: assms)

lemma reserve_occupied:
  assumes "\<And>p. ri_policy input = Some p \<Longrightarrow> ri_workflow_id input = w \<Longrightarrow> po_max p \<le> N"
    and "occupied w db \<le> N" and "admissions_ok (db_admissions db)" and "reserveWorkflowRun now input db = (db', r)"
  shows "occupied w db' \<le> N \<and> admissions_ok (db_admissions db')"
proof -
  let ?pruned = "db\<lparr>db_admissions := fst (sql_delete (superseded_admission now (db_runs db)) (db_admissions db))\<rparr>"
  let ?row = "\<lparr>am_run_id = ri_run_id input, am_workflow_id = ri_workflow_id input, am_source = ri_source input, am_created_at = now\<rparr>"
  have le: "occupied w ?pruned \<le> N" using order_trans [OF removed_occupied assms(2)] by (simp add: sql_delete_def)
  have ok: "admissions_ok (db_admissions ?pruned)" using assms(3) by (simp add: admissions_ok_def sql_delete_def unique_on_filter)
  have pend: "pending_admissions w ?pruned = slots w ?pruned"
    by (rule pruned_slots [symmetric]) (auto simp: sql_delete_def intro: superseded_pruned)
  consider "db' = db" | "db' = ?pruned" | p where "ri_policy input = Some p"
      "active_run_count (ri_workflow_id input) ?pruned + pending_admissions (ri_workflow_id input) ?pruned < po_max p"
      "db' = ?pruned\<lparr>db_admissions := db_admissions ?pruned @ [?row]\<rparr>" "admissions_ok (db_admissions ?pruned @ [?row])"
    using assms(4) by (auto simp: reserveWorkflowRun_def Let_def sql_insert_def split: option.splits if_splits)
  then show ?thesis
  proof cases
    case 3
    have "slots w db' \<le> slots w ?pruned + (if ri_workflow_id input = w then 1 else 0)" by (simp add: 3(3) slots_def)
    moreover have "active_run_count w db' = active_run_count w ?pruned" by (simp add: 3(3) active_run_count_def)
    ultimately have "occupied w db' \<le> occupied w ?pruned + (if ri_workflow_id input = w then 1 else 0)" by (simp add: occupied_def)
    moreover have "occupied w ?pruned + 1 \<le> N" if "ri_workflow_id input = w"
      using 3(2) assms(1) [OF 3(1) that] that pend by (simp add: occupied_def)
    ultimately show ?thesis using le 3(3,4) by (cases "ri_workflow_id input = w") simp_all
  qed (use le ok assms(2,3) in simp_all)
qed

lemma admission_step_occupied:
  assumes "admission_step w N db db'" and "occupied w db \<le> N" and "admissions_ok (db_admissions db)"
  shows "occupied w db' \<le> N \<and> admissions_ok (db_admissions db')"
  using assms
proof cases
  case (step_reserve input now)
  obtain db2 r where r: "reserveWorkflowRun now input db = (db2, r)" by fastforce
  from reserve_occupied [OF step_reserve(2) assms(2,3) r] step_reserve(1) r show ?thesis by simp
next
  case (step_release runId)
  then show ?thesis using assms(2,3) removed_occupied [where db = db and w = w]
    by (auto simp: releaseWorkflowRunReservation_def sql_delete_def admissions_ok_def intro: unique_on_filter order_trans)
next
  case (step_create run)
  then show ?thesis using create_occupied [of run w db] assms(2,3) by simp
next
  case (step_resume i)
  then show ?thesis using resume_occupied [of i db w] assms(2,3) by simp
next
  case (step_leave i status)
  then show ?thesis using leave_occupied [OF assms(3), of i status w] assms(2,3) by simp
qed

interpretation admissions: transition_system "\<lambda>db :: ('m) trigger_db_scheme. occupied w db \<le> N \<and> admissions_ok (db_admissions db)"
    "admission_step w N" "\<lambda>db. occupied w db \<le> N \<and> admissions_ok (db_admissions db)" for w N
  by unfold_locales (auto dest: admission_step_occupied)

lemma active_le_occupied: "active_run_count w db \<le> occupied w db"
  by (simp add: occupied_def slots_def)

text \<open>C38. However the processes interleave, a workflow whose runs are created and resumed under reservations of policies that allow at most N runs never has more than N active runs.\<close>

theorem active_runs_bounded:
  assumes "(admission_step w N)\<^sup>*\<^sup>* db db'" and "occupied w db \<le> N" and "admissions_ok (db_admissions db)"
  shows "active_run_count w db' \<le> N"
  using admissions.steps_inv [OF assms(1)] assms(2,3) active_le_occupied [of w db'] by force

text \<open>What the orchestrator does is a sequence of such steps, if what it does under the reservation is.\<close>

lemma under_reservation_steps:
  assumes "\<And>p. ri_policy input = Some p \<Longrightarrow> ri_workflow_id input = w \<Longrightarrow> po_max p \<le> N"
    and "\<And>db. ri_policy input = None \<or> (\<exists>a \<in> set (db_admissions db). am_run_id a = ri_run_id input \<and> am_workflow_id a = ri_workflow_id input)
      \<Longrightarrow> (admission_step w N)\<^sup>*\<^sup>* db (fst (act db))"
  shows "(admission_step w N)\<^sup>*\<^sup>* db (fst (underReservation now input act db))"
proof -
  obtain db1 r where r: "reserveWorkflowRun now input db = (db1, r)" by fastforce
  have "admission_step w N db (fst (reserveWorkflowRun now input db))" by (rule step_reserve) (rule assms(1))
  then have one: "(admission_step w N)\<^sup>*\<^sup>* db db1" using r by simp
  show ?thesis
  proof (cases r)
    case (Inl e)
    with one r show ?thesis by (simp add: underReservation_def)
  next
    case (Inr reserved)
    obtain db2 q where q: "act db1 = (db2, q)" by fastforce
    have "ri_policy input = None \<or> (\<exists>a \<in> set (db_admissions db1). am_run_id a = ri_run_id input \<and> am_workflow_id a = ri_workflow_id input)"
      using r Inr by (auto simp: reserveWorkflowRun_def Let_def sql_insert_def split: option.splits if_splits)
    from assms(2) [OF this] q one have two: "(admission_step w N)\<^sup>*\<^sup>* db db2" by (simp add: rtranclp_trans)
    have "admission_step w N db2 (releaseWorkflowRunReservation (ri_run_id input) db2)" by (rule step_release)
    with two have "(admission_step w N)\<^sup>*\<^sup>* db (releaseWorkflowRunReservation (ri_run_id input) db2)" by (rule rtranclp.rtrancl_into_rtrancl)
    with two Inr r q show ?thesis by (simp add: underReservation_def)
  qed
qed

section \<open>Firing once\<close>

text \<open>A delivery of the firing is stored.\<close>

definition delivered :: "js_env \<Rightarrow> trigger_row \<Rightarrow> string \<Rightarrow> ('m) trigger_db_scheme \<Rightarrow> bool" where
  "delivered env record fireKey db \<longleftrightarrow> list_ex (\<lambda>d. dl_key d = delivery_key env (tg_key record) fireKey
     \<or> dl_trigger_key d = tg_key record \<and> dl_fire_key d = fireKey) (db_deliveries db)"

text \<open>The creation of a run touches neither triggers nor deliveries.\<close>

definition keeps_triggers :: "'m orchestrator \<Rightarrow> bool" where
  "keeps_triggers orchestrator \<longleftrightarrow> (\<forall>workflow prompt source db.
     db_triggers (fst (orchestrator workflow prompt source db)) = db_triggers db
     \<and> db_deliveries (fst (orchestrator workflow prompt source db)) = db_deliveries db)"

text \<open>Deliveries of \<open>db\<close> are still there in \<open>db'\<close>, whatever their status.\<close>

definition delivery_ident :: "trigger_delivery_row \<Rightarrow> string \<times> string \<times> string" where
  "delivery_ident d = (dl_key d, dl_trigger_key d, dl_fire_key d)"

definition deliveries_persist :: "('m) trigger_db_scheme \<Rightarrow> ('m) trigger_db_scheme \<Rightarrow> bool" where
  "deliveries_persist db db' \<longleftrightarrow> delivery_ident ` set (db_deliveries db) \<subseteq> delivery_ident ` set (db_deliveries db')"

lemma delivered_ids: "delivered env record fireKey db \<longleftrightarrow> (\<exists>(k, t, f) \<in> delivery_ident ` set (db_deliveries db).
    k = delivery_key env (tg_key record) fireKey \<or> t = tg_key record \<and> f = fireKey)"
  by (simp only: delivered_def list_ex_iff bex_simps delivery_ident_def prod.case)

lemma bex_subset: "\<exists>x \<in> A. P x \<Longrightarrow> A \<subseteq> B \<Longrightarrow> \<exists>x \<in> B. P x"
  by blast

lemma delivered_persists: "delivered env record fireKey db \<Longrightarrow> deliveries_persist db db' \<Longrightarrow> delivered env record fireKey db'"
  unfolding delivered_ids deliveries_persist_def by (rule bex_subset)

lemma persist_trans: "deliveries_persist db db1 \<Longrightarrow> deliveries_persist db1 db2 \<Longrightarrow> deliveries_persist db db2"
  unfolding deliveries_persist_def by (rule subset_trans)

lemma map_rewritten: "(\<And>r. key (f r) = key r) \<Longrightarrow> map key (rewritten P f rows) = map key rows"
  by (simp add: rewritten_def)

lemma persist_ids: "map delivery_ident (db_deliveries db') = map delivery_ident (db_deliveries db) \<Longrightarrow> deliveries_persist db db'"
  unfolding deliveries_persist_def by (metis list.set_map order_refl)

lemma claim_duplicate: "delivered env record fireKey db \<Longrightarrow> claimTriggerDelivery env now record fireKey payload db = Inr (db, False)"
  unfolding claimTriggerDelivery_def delivered_def Let_def by (rule if_P)

lemma claim_fresh:
  assumes "\<not> delivered env record fireKey db" and "claimTriggerDelivery env now record fireKey payload db = Inr (db', c)"
  shows "c \<and> delivered env record fireKey db' \<and> deliveries_persist db db' \<and> db_triggers db' = db_triggers db"
proof -
  obtain row where row: "dl_trigger_key row = tg_key record" "dl_fire_key row = fireKey" "c"
      "db' = db\<lparr>db_deliveries := db_deliveries db @ [row]\<rparr>"
    using assms(2) unfolding claimTriggerDelivery_def Let_def if_not_P [OF assms(1) [unfolded delivered_def]]
    by (force simp: bindE_def sql_insert_def split: if_splits)
  then show ?thesis by (auto simp: delivered_def deliveries_persist_def)
qed

lemma set_next_fire_fields [simp]: "db_deliveries (set_next_fire now record db) = db_deliveries db"
  by (simp add: set_next_fire_def)

lemma delivery_ids:
  "map delivery_ident (db_deliveries (deferIntervalTrigger now record db)) = map delivery_ident (db_deliveries db)"
  "map delivery_ident (db_deliveries (completeTriggerDelivery env now record fireKey runId db)) = map delivery_ident (db_deliveries db)"
  "map delivery_ident (db_deliveries (releaseTriggerDelivery env now record fireKey reason db)) = map delivery_ident (db_deliveries db)"
  by (simp_all add: deferIntervalTrigger_def completeTriggerDelivery_def releaseTriggerDelivery_def Let_def map_rewritten delivery_ident_def)

lemma keeps_triggersD:
  "keeps_triggers orchestrator \<Longrightarrow> orchestrator workflow prompt source db = (db', r)
   \<Longrightarrow> db_triggers db' = db_triggers db \<and> db_deliveries db' = db_deliveries db"
  unfolding keeps_triggers_def by (metis fst_conv)

lemma runTrigger_ids:
  assumes "keeps_triggers orchestrator"
  shows "map delivery_ident (db_deliveries (fst (runTrigger w orchestrator record fireKey payload db))) = map delivery_ident (db_deliveries db)"
proof -
  obtain db1 r where o1: "orchestrator (tg_workflow_id record) (trigger_prompt (tw_env w) record fireKey payload) (''trigger:'' @ tg_key record) db = (db1, r)"
    by fastforce
  have "db_deliveries db1 = db_deliveries db" using keeps_triggersD [OF assms o1] by simp
  then show ?thesis using o1
    by (cases r) (simp_all add: runTrigger_def catchS_def thenS_def updateS_def retS_def deferS_def delivery_ids)
qed

lemma dispatch_delivers:
  assumes "tw_orchestrator w = Some orchestrator" and "keeps_triggers orchestrator"
    and "dispatchTrigger w record fireKey payload db = (db', Inr r)"
  shows "delivered (tw_env w) record fireKey db'"
proof (cases "delivered (tw_env w) record fireKey db")
  case True
  from assms(3) have "db' = deferIntervalTrigger (tw_now w db) record db"
    by (simp add: dispatchTrigger_def assms(1) thenS_def transactS_def claim_duplicate [OF True] deferS_def updateS_def retS_def)
  with delivered_persists [OF True persist_ids [OF delivery_ids(1)]] show ?thesis by simp
next
  case False
  from assms(3) obtain db1 c where c: "claimTriggerDelivery (tw_env w) (tw_now w db) record fireKey payload db = Inr (db1, c)"
    by (auto simp: dispatchTrigger_def assms(1) thenS_def transactS_def split: sum.splits)
  from claim_fresh [OF False c] have c1: "c" "delivered (tw_env w) record fireKey db1" by simp_all
  from assms(3) c c1(1) have "db' = fst (runTrigger w orchestrator record fireKey payload db1)"
    by (simp add: dispatchTrigger_def assms(1) thenS_def transactS_def)
  with delivered_persists [OF c1(2) persist_ids [OF runTrigger_ids [OF assms(2)]]] show ?thesis by simp
qed

text \<open>C39. A firing that was dispatched, with whatever outcome, is not dispatched again while its delivery is stored, that is until its trigger is deleted: a further dispatch under the same key asks the orchestrator for nothing and changes no delivery, run or reservation.\<close>

theorem trigger_fires_once:
  assumes "tw_orchestrator w = Some orchestrator" and "keeps_triggers orchestrator"
    and "dispatchTrigger w record fireKey payload db = (db1, Inr r)" and "deliveries_persist db1 db2"
    and "tw_orchestrator w' \<noteq> None" and "tw_env w' = tw_env w" and "tg_key record' = tg_key record"
  shows "dispatchTrigger w' record' fireKey payload' db2
    = (deferIntervalTrigger (tw_now w' db2) record' db2, Inr (not_dispatched ''duplicate''))"
proof -
  have "delivered (tw_env w) record fireKey db2" using dispatch_delivers [OF assms(1-3)] assms(4) by (rule delivered_persists)
  then have "delivered (tw_env w') record' fireKey db2" using assms(6,7) by (simp add: delivered_def)
  with assms(5) show ?thesis
    by (auto simp: dispatchTrigger_def thenS_def transactS_def claim_duplicate deferS_def updateS_def retS_def)
qed

section \<open>The tick of the scheduler\<close>

lemma complete_triggers:
  "tc_type (tg_config record) = Trigger_interval
   \<Longrightarrow> db_triggers (completeTriggerDelivery env now record fireKey runId db) = db_triggers (set_next_fire now record db)"
  by (simp add: completeTriggerDelivery_def Let_def set_next_fire_def)

definition next_fired :: "int \<Rightarrow> trigger_row \<Rightarrow> trigger_row list \<Rightarrow> trigger_row list" where
  "next_fired now record = rewritten (\<lambda>r. tg_key r = tg_key record)
     (\<lambda>r. r\<lparr>tg_next_fire_at := Some (now + every (tg_config record)), tg_updated_at := now\<rparr>)"

lemma set_next_fire_triggers: "db_triggers (set_next_fire now record db) = next_fired now record (db_triggers db)"
  by (simp add: set_next_fire_def next_fired_def)

lemma next_fired_keys: "map tg_key (next_fired now record ts) = map tg_key ts"
  by (simp add: next_fired_def rewritten_def)

lemma has_trigger_keys: "has_trigger ts k \<longleftrightarrow> k \<in> set (map tg_key ts)"
  by (auto simp: has_trigger_def list_ex_iff)

lemma deliveries_ok_ids:
  "deliveries_ok ts rows \<longleftrightarrow> distinct (map fst (map delivery_ident rows)) \<and> distinct (map snd (map delivery_ident rows))
     \<and> (\<forall>k \<in> set (map (fst \<circ> snd) (map delivery_ident rows)). k \<in> set (map tg_key ts))"
  by (simp add: deliveries_ok_def unique_on_def has_trigger_keys list_all_iff delivery_ident_def comp_def)

lemma deliveries_ok_same:
  "deliveries_ok ts rows \<Longrightarrow> map tg_key us = map tg_key ts \<Longrightarrow> map delivery_ident rows' = map delivery_ident rows \<Longrightarrow> deliveries_ok us rows'"
  unfolding deliveries_ok_ids by metis

lemma claim_succeeds:
  assumes "deliveries_ok (db_triggers db) (db_deliveries db)" and "has_trigger (db_triggers db) (tg_key record)" and "\<not> delivered env record fireKey db"
  shows "\<exists>db'. claimTriggerDelivery env now record fireKey payload db = Inr (db', True)
    \<and> db_triggers db' = db_triggers db \<and> deliveries_ok (db_triggers db) (db_deliveries db')"
  using assms unfolding claimTriggerDelivery_def delivered_def deliveries_ok_def Let_def
  by (auto simp: sql_insert_def bindE_def unique_on_insert list_ex_iff)

text \<open>One dispatch of an interval trigger answers, and moves the trigger past the clock.\<close>

lemma dispatch_interval:
  assumes "tw_orchestrator w = Some orchestrator" and keeps: "keeps_triggers orchestrator" and "tc_type (tg_config record) = Trigger_interval"
    and ok: "deliveries_ok (db_triggers db) (db_deliveries db)" and there: "has_trigger (db_triggers db) (tg_key record)" and clock: "\<And>db. now \<le> tw_now w db"
  shows "\<exists>db' r n. dispatchTrigger w record fireKey payload db = (db', Inr r) \<and> now \<le> n
    \<and> db_triggers db' = next_fired n record (db_triggers db) \<and> deliveries_ok (db_triggers db') (db_deliveries db')"
proof (cases "delivered (tw_env w) record fireKey db")
  case True
  then show ?thesis using assms(1,3) clock [of db] deliveries_ok_same [OF ok next_fired_keys refl]
    by (auto simp: dispatchTrigger_def thenS_def transactS_def claim_duplicate deferS_def updateS_def retS_def deferIntervalTrigger_def set_next_fire_triggers)
next
  case False
  from claim_succeeds [OF ok there False] obtain db1 where c: "claimTriggerDelivery (tw_env w) (tw_now w db) record fireKey payload db = Inr (db1, True)"
    "db_triggers db1 = db_triggers db" "deliveries_ok (db_triggers db) (db_deliveries db1)" by blast
  obtain db2 r where o1: "orchestrator (tg_workflow_id record) (trigger_prompt (tw_env w) record fireKey payload) (''trigger:'' @ tg_key record) db1 = (db2, r)"
    by fastforce
  have "db_triggers db2 = db_triggers db" "db_deliveries db2 = db_deliveries db1"
    using keeps_triggersD [OF keeps o1] c(2) by simp_all
  with c(3) have db2: "db_triggers db2 = db_triggers db" "deliveries_ok (db_triggers db) (db_deliveries db2)" by simp_all
  show ?thesis
  proof (cases r)
    case (Inr runId)
    let ?db' = "completeTriggerDelivery (tw_env w) (tw_now w db2) record fireKey runId db2"
    have "dispatchTrigger w record fireKey payload db = (?db', Inr \<lparr>dr_dispatched = True, dr_run_id = Some runId, dr_reason = None\<rparr>)"
      using o1 Inr c(1) by (simp add: dispatchTrigger_def assms(1) thenS_def transactS_def runTrigger_def catchS_def updateS_def retS_def)
    moreover have triggers: "db_triggers ?db' = next_fired (tw_now w db2) record (db_triggers db)"
      by (simp add: complete_triggers [OF assms(3)] set_next_fire_triggers db2(1))
    moreover have "deliveries_ok (db_triggers ?db') (db_deliveries ?db')"
      unfolding triggers by (rule deliveries_ok_same [OF db2(2) next_fired_keys]) (rule delivery_ids)
    ultimately show ?thesis using clock by blast
  next
    case (Inl reason)
    let ?db3 = "releaseTriggerDelivery (tw_env w) (tw_now w db2) record fireKey reason db2"
    let ?db' = "deferIntervalTrigger (tw_now w ?db3) record ?db3"
    have "dispatchTrigger w record fireKey payload db = (?db', Inr (not_dispatched reason))"
      using o1 Inl c(1) by (simp add: dispatchTrigger_def assms(1) thenS_def transactS_def runTrigger_def catchS_def updateS_def retS_def deferS_def)
    moreover have triggers: "db_triggers ?db' = next_fired (tw_now w ?db3) record (db_triggers db)"
      using assms(3) by (simp add: deferIntervalTrigger_def set_next_fire_triggers releaseTriggerDelivery_def db2(1))
    moreover have "deliveries_ok (db_triggers ?db') (db_deliveries ?db')"
      unfolding triggers by (rule deliveries_ok_same [OF db2(2) next_fired_keys]) (simp only: delivery_ids)
    ultimately show ?thesis using clock by blast
  qed
qed

text \<open>What a sequence of dispatches leaves: a fired trigger is past the clock, another is as it was.\<close>

definition moved_past :: "int \<Rightarrow> trigger_row list \<Rightarrow> trigger_row list \<Rightarrow> trigger_row list \<Rightarrow> bool" where
  "moved_past now fired before after \<longleftrightarrow> (\<forall>r \<in> set after.
     (\<exists>f \<in> set fired. tg_key f = tg_key r \<and> (\<exists>n. now \<le> n \<and> tg_next_fire_at r = Some (n + every (tg_config f))))
     \<or> r \<in> set before \<and> tg_key r \<notin> tg_key ` set fired)"

lemma moved_past_Cons:
  "now \<le> n \<Longrightarrow> moved_past now fired (next_fired n f before) after \<Longrightarrow> moved_past now (f # fired) before after"
  unfolding moved_past_def next_fired_def rewritten_def by (fastforce split: if_splits)

lemma fire_each:
  assumes "tw_orchestrator w = Some orchestrator" and "keeps_triggers orchestrator" and "\<And>db. now \<le> tw_now w db"
  shows "\<forall>f \<in> set fired. tc_type (tg_config f) = Trigger_interval \<Longrightarrow> deliveries_ok (db_triggers db) (db_deliveries db)
    \<Longrightarrow> \<forall>f \<in> set fired. has_trigger (db_triggers db) (tg_key f)
    \<Longrightarrow> \<exists>db' rs. eachS (fireInterval w) fired db = (db', Inr rs) \<and> length rs = length fired
      \<and> moved_past now fired (db_triggers db) (db_triggers db')"
proof (induction fired arbitrary: db)
  case Nil
  then show ?case by (simp add: retS_def moved_past_def)
next
  case (Cons f fired)
  from Cons.prems have f: "tc_type (tg_config f) = Trigger_interval" "has_trigger (db_triggers db) (tg_key f)" by simp_all
  obtain db1 r n where one: "fireInterval w f db = (db1, Inr r)" "now \<le> n" "db_triggers db1 = next_fired n f (db_triggers db)"
      "deliveries_ok (db_triggers db1) (db_deliveries db1)"
    using dispatch_interval [OF assms(1,2) f(1) Cons.prems(2) f(2) assms(3)] unfolding fireInterval_def by blast
  have "\<forall>g \<in> set fired. has_trigger (db_triggers db1) (tg_key g)"
    using Cons.prems(3) unfolding has_trigger_keys one(3) next_fired_keys by simp
  with Cons.IH [OF _ one(4)] Cons.prems(1) obtain db' rs where rest: "eachS (fireInterval w) fired db1 = (db', Inr rs)" "length rs = length fired"
      "moved_past now fired (db_triggers db1) (db_triggers db')"
    by auto
  have "moved_past now (f # fired) (db_triggers db) (db_triggers db')"
    using moved_past_Cons [OF one(2)] rest(3) one(3) by simp
  with one(1) rest(1,2) show ?case by (simp add: thenS_def retS_def)
qed

definition triggers_consistent :: "trigger_row list \<Rightarrow> bool" where
  "triggers_consistent rows \<longleftrightarrow> (\<forall>r \<in> set rows. tg_type r = tc_type (tg_config r) \<and> 0 < every (tg_config r))"

text \<open>C40. A tick of the scheduler answers for every due interval trigger, and leaves none due, whether its runs were created, refused or already delivered.\<close>

theorem tick_leaves_none_due:
  assumes "tw_orchestrator w = Some orchestrator" and "keeps_triggers orchestrator" and "\<And>d. tw_now w db \<le> tw_now w d"
    and "deliveries_ok (db_triggers db) (db_deliveries db)" and "triggers_consistent (db_triggers db)"
  shows "\<exists>db' rs. triggerTick w db = (db', Inr rs) \<and> length rs = length (dueIntervalTriggers (tw_now w db) db)
    \<and> dueIntervalTriggers (tw_now w db) db' = []"
proof -
  let ?now = "tw_now w db" and ?due = "dueIntervalTriggers (tw_now w db) db"
  have due: "f \<in> set ?due \<longleftrightarrow> f \<in> set (db_triggers db) \<and> tg_enabled f \<and> tg_type f = Trigger_interval
      \<and> (case tg_next_fire_at f of None \<Rightarrow> False | Some n \<Rightarrow> n \<le> ?now)" for f
    by (auto simp: dueIntervalTriggers_def)
  have "\<forall>f \<in> set ?due. tc_type (tg_config f) = Trigger_interval" using assms(5) due by (auto simp: triggers_consistent_def)
  moreover have "\<forall>f \<in> set ?due. has_trigger (db_triggers db) (tg_key f)" using due by (auto simp: has_trigger_def list_ex_iff)
  ultimately obtain db' rs where tick: "eachS (fireInterval w) ?due db = (db', Inr rs)" "length rs = length ?due"
      "moved_past ?now ?due (db_triggers db) (db_triggers db')"
    using fire_each [OF assms(1-3)] assms(4) by blast
  have "\<not> (tg_enabled r \<and> tg_type r = Trigger_interval \<and> (case tg_next_fire_at r of None \<Rightarrow> False | Some n \<Rightarrow> n \<le> ?now))"
    if r: "r \<in> set (db_triggers db')" for r
  proof -
    from tick(3) r consider f n where "f \<in> set ?due" "?now \<le> n" "tg_next_fire_at r = Some (n + every (tg_config f))"
      | "r \<in> set (db_triggers db)" "tg_key r \<notin> tg_key ` set ?due"
      unfolding moved_past_def by blast
    then show ?thesis
    proof cases
      case 1
      then have "0 < every (tg_config f)" using assms(5) due by (auto simp: triggers_consistent_def)
      with 1 show ?thesis by simp
    next
      case 2
      with due [of r] show ?thesis by blast
    qed
  qed
  then have "dueIntervalTriggers ?now db' = []" unfolding dueIntervalTriggers_def by (simp add: filter_empty_conv) 
  with tick(1,2) show ?thesis by (simp add: triggerTick_def)
qed

section \<open>Synchronization\<close>

text \<open>
  Identifiers of triggers hold no colon, so that the key of a stored trigger determines its workflow and
  its identifier.
\<close>

definition triggers_keyed :: "trigger_row list \<Rightarrow> bool" where
  "triggers_keyed rows \<longleftrightarrow> (\<forall>r \<in> set rows. tg_key r = trigger_key (tg_workflow_id r) (tg_trigger_id r) \<and> CHR '':'' \<notin> set (tg_trigger_id r))"

lemma split_once: "ys @ c # xs = us @ c # zs \<Longrightarrow> c \<notin> set ys \<Longrightarrow> c \<notin> set us \<Longrightarrow> ys = us \<and> xs = zs"
proof (induction ys arbitrary: us)
  case Nil
  then show ?case by (cases us) simp_all
next
  case (Cons y ys)
  then show ?case by (cases us) auto
qed

lemma append_colon:
  assumes "xs @ c # ys = zs @ c # us" and "c \<notin> set ys" and "c \<notin> set us"
  shows "xs = zs \<and> ys = us"
proof -
  have "rev ys @ c # rev xs = rev us @ c # rev zs" using arg_cong [OF assms(1), where f = rev] by simp
  from split_once [OF this] assms(2,3) show ?thesis by simp
qed

lemma set_rewritten: "r \<in> set (rewritten P f rows) \<longleftrightarrow> (\<exists>s \<in> set rows. P s \<and> r = f s) \<or> r \<in> set rows \<and> \<not> P r"
  unfolding rewritten_def by (induction rows) auto

lemma filter_rewritten: "(\<And>r. P r \<Longrightarrow> \<not> Q r \<and> \<not> Q (f r)) \<Longrightarrow> filter Q (rewritten P f rows) = filter Q rows"
  unfolding rewritten_def by (induction rows) auto

lemma trigger_key_inj:
  "trigger_key w t = trigger_key v u \<Longrightarrow> CHR '':'' \<notin> set t \<Longrightarrow> CHR '':'' \<notin> set u \<Longrightarrow> w = v \<and> t = u"
  using append_colon [of w "CHR '':''" t v u] by (simp add: trigger_key_def)

text \<open>What a stored trigger keeps of its entry.\<close>

definition row_of :: "string \<Rightarrow> string \<times> trigger_config \<Rightarrow> trigger_row \<Rightarrow> bool" where
  "row_of w entry r \<longleftrightarrow> tg_workflow_id r = w \<and> (tg_trigger_id r, tg_config r) = entry
     \<and> tg_type r = tc_type (snd entry) \<and> tg_enabled r = tc_enabled (snd entry)
     \<and> (tg_next_fire_at r = None \<longleftrightarrow> tc_type (snd entry) \<noteq> Trigger_interval)"

lemma syncTrigger_rows:
  assumes keyed: "triggers_keyed (db_triggers db)" and colon: "CHR '':'' \<notin> set t"
    and s: "syncTrigger now w (t, c) db = Inr db'"
  shows "triggers_keyed (db_triggers db') \<and> (\<exists>r \<in> set (db_triggers db'). row_of w (t, c) r)
    \<and> (\<forall>r \<in> set (db_triggers db'). row_of w (t, c) r \<or> r \<in> set (db_triggers db) \<and> \<not> (tg_workflow_id r = w \<and> tg_trigger_id r = t))
    \<and> (\<forall>r \<in> set (db_triggers db). \<not> (tg_workflow_id r = w \<and> tg_trigger_id r = t) \<longrightarrow> r \<in> set (db_triggers db'))
    \<and> filter (\<lambda>r. tg_workflow_id r \<noteq> w) (db_triggers db') = filter (\<lambda>r. tg_workflow_id r \<noteq> w) (db_triggers db)"
proof -
  let ?key = "trigger_key w t"
  have key: "tg_key r = ?key \<longleftrightarrow> tg_workflow_id r = w \<and> tg_trigger_id r = t" if "r \<in> set (db_triggers db)" for r
    using keyed that colon trigger_key_inj [of "tg_workflow_id r" "tg_trigger_id r" w t] by (auto simp: triggers_keyed_def)
  obtain n where n: "n = None \<longleftrightarrow> tc_type c \<noteq> Trigger_interval"
    and up: "upsert_trigger \<lparr>tg_key = ?key, tg_workflow_id = w, tg_trigger_id = t, tg_type = tc_type c, tg_config = c,
             tg_enabled = tc_enabled c, tg_next_fire_at = n, tg_updated_at = now\<rparr> db = Inr db'"
    using s by (auto simp: syncTrigger_def Let_def split: if_splits)
  let ?new = "\<lparr>tg_key = ?key, tg_workflow_id = w, tg_trigger_id = t, tg_type = tc_type c, tg_config = c,
             tg_enabled = tc_enabled c, tg_next_fire_at = n, tg_updated_at = now\<rparr>"
  let ?set = "\<lambda>r. r\<lparr>tg_type := tc_type c, tg_config := c, tg_enabled := tc_enabled c, tg_next_fire_at := n, tg_updated_at := now\<rparr>"
  have new: "row_of w (t, c) ?new" using n by (simp add: row_of_def)
  show ?thesis
  proof (cases "has_trigger (db_triggers db) ?key")
    case True
    let ?rows = "rewritten (\<lambda>r. tg_workflow_id r = w \<and> tg_trigger_id r = t) ?set (db_triggers db)"
    have "rewritten (\<lambda>r. tg_key r = ?key) ?set (db_triggers db) = ?rows" using key by (simp add: rewritten_def)
    with True up have rows: "db_triggers db' = ?rows" by (auto simp: upsert_trigger_def bind_inv)
    from True key obtain r where r: "r \<in> set (db_triggers db)" "tg_workflow_id r = w" "tg_trigger_id r = t" by (auto simp: has_trigger_def list_ex_iff)
    have set_row: "row_of w (t, c) (?set x)" if "tg_workflow_id x = w" "tg_trigger_id x = t" for x using n that by (simp add: row_of_def)
    have members: "x \<in> set ?rows \<longleftrightarrow> (\<exists>y \<in> set (db_triggers db). (tg_workflow_id y = w \<and> tg_trigger_id y = t) \<and> x = ?set y)
        \<or> x \<in> set (db_triggers db) \<and> \<not> (tg_workflow_id x = w \<and> tg_trigger_id x = t)" for x
      by (rule set_rewritten)
    have "?set r \<in> set ?rows" unfolding members using r by blast
    with set_row r have "\<exists>r \<in> set ?rows. row_of w (t, c) r" by blast
    moreover have "row_of w (t, c) x \<or> x \<in> set (db_triggers db) \<and> \<not> (tg_workflow_id x = w \<and> tg_trigger_id x = t)"
      if "x \<in> set ?rows" for x
      using that set_row unfolding members by blast
    moreover have "x \<in> set ?rows" if "x \<in> set (db_triggers db)" "\<not> (tg_workflow_id x = w \<and> tg_trigger_id x = t)" for x
      unfolding members using that by blast
    moreover have "filter (\<lambda>r. tg_workflow_id r \<noteq> w) ?rows = filter (\<lambda>r. tg_workflow_id r \<noteq> w) (db_triggers db)"
      by (rule filter_rewritten) simp
    moreover have "triggers_keyed ?rows" using keyed by (auto simp: triggers_keyed_def rewritten_def)
    ultimately show ?thesis unfolding rows by blast
  next
    case False
    with up have rows: "db_triggers db' = db_triggers db @ [?new]" by (auto simp: upsert_trigger_def bind_inv)
    moreover have "\<not> (tg_workflow_id r = w \<and> tg_trigger_id r = t)" if "r \<in> set (db_triggers db)" for r
      using False key [OF that] that by (auto simp: has_trigger_def list_ex_iff)
    moreover have "triggers_keyed (db_triggers db @ [?new])" using keyed colon by (auto simp: triggers_keyed_def)
    ultimately show ?thesis using new by auto
  qed
qed

lemma syncTrigger_returns:
  assumes keyed: "triggers_keyed (db_triggers db)" and colon: "CHR '':'' \<notin> set t"
    and ok: "triggers_ok (db_workflow_ids db) (db_triggers db)" and w: "w \<in> set (db_workflow_ids db)"
  shows "\<exists>db'. syncTrigger now w (t, c) db = Inr db' \<and> triggers_ok (db_workflow_ids db) (db_triggers db')
    \<and> db_workflow_ids db' = db_workflow_ids db"
proof -
  let ?key = "trigger_key w t"
  have key: "tg_key r = ?key \<longleftrightarrow> tg_workflow_id r = w \<and> tg_trigger_id r = t" if "r \<in> set (db_triggers db)" for r
    using keyed that colon trigger_key_inj [of "tg_workflow_id r" "tg_trigger_id r" w t] by (auto simp: triggers_keyed_def)
  obtain n where s: "syncTrigger now w (t, c) db = upsert_trigger \<lparr>tg_key = ?key, tg_workflow_id = w, tg_trigger_id = t,
      tg_type = tc_type c, tg_config = c, tg_enabled = tc_enabled c, tg_next_fire_at = n, tg_updated_at = now\<rparr> db"
    unfolding syncTrigger_def Let_def prod.case by blast
  show ?thesis
  proof (cases "has_trigger (db_triggers db) ?key")
    case True
    have "triggers_ok (db_workflow_ids db) (rewritten (\<lambda>r. tg_key r = ?key)
        (\<lambda>r. r\<lparr>tg_type := tc_type c, tg_config := c, tg_enabled := tc_enabled c, tg_next_fire_at := n, tg_updated_at := now\<rparr>) (db_triggers db))"
      using ok unfolding triggers_ok_def list_all_iff by (auto intro!: unique_on_update simp: set_rewritten)
    with True show ?thesis unfolding s by (simp add: upsert_trigger_def sql_update_def bindE_def Let_def)
  next
    case False
    then have "tg_key r \<noteq> ?key" "\<not> (tg_workflow_id r = w \<and> tg_trigger_id r = t)" if "r \<in> set (db_triggers db)" for r
      using key [OF that] that by (auto simp: has_trigger_def list_ex_iff)
    with ok w have "triggers_ok (db_workflow_ids db) (db_triggers db @ [\<lparr>tg_key = ?key, tg_workflow_id = w, tg_trigger_id = t,
      tg_type = tc_type c, tg_config = c, tg_enabled = tc_enabled c, tg_next_fire_at = n, tg_updated_at = now\<rparr>])"
      by (simp add: triggers_ok_def unique_on_insert)
    with False show ?thesis unfolding s by (simp add: upsert_trigger_def sql_insert_def bindE_def)
  qed
qed

lemma syncEach_returns:
  "triggers_keyed (db_triggers db) \<Longrightarrow> \<forall>(t, c) \<in> set entries. CHR '':'' \<notin> set t
   \<Longrightarrow> triggers_ok (db_workflow_ids db) (db_triggers db) \<Longrightarrow> w \<in> set (db_workflow_ids db) \<Longrightarrow> \<exists>db'. syncEach now w entries db = Inr db'"
proof (induction entries arbitrary: db)
  case (Cons entry entries)
  obtain t c where entry: "entry = (t, c)" by fastforce
  have colon: "CHR '':'' \<notin> set t" using Cons.prems(2) entry by auto
  from syncTrigger_returns [OF Cons.prems(1) colon Cons.prems(3,4)] obtain db1 where one: "syncTrigger now w (t, c) db = Inr db1"
      "triggers_ok (db_workflow_ids db1) (db_triggers db1)" "db_workflow_ids db1 = db_workflow_ids db"
    by metis
  have "triggers_keyed (db_triggers db1)" using syncTrigger_rows [OF Cons.prems(1) colon one(1)] by simp
  from Cons.IH [OF this _ one(2)] Cons.prems(2,4) one(3) obtain db' where "syncEach now w entries db1 = Inr db'" by auto
  then show ?case by (simp add: entry one(1) bindE_def)
qed simp

lemma syncEach_rows:
  "triggers_keyed (db_triggers db) \<Longrightarrow> \<forall>(t, c) \<in> set entries. CHR '':'' \<notin> set t \<Longrightarrow> distinct (map fst entries) \<Longrightarrow> syncEach now w entries db = Inr db'
   \<Longrightarrow> (\<forall>e \<in> set entries. \<exists>r \<in> set (db_triggers db'). row_of w e r)
     \<and> (\<forall>r \<in> set (db_triggers db'). (\<exists>e \<in> set entries. row_of w e r) \<or> r \<in> set (db_triggers db) \<and> \<not> (tg_workflow_id r = w \<and> tg_trigger_id r \<in> set (map fst entries)))
     \<and> (\<forall>r \<in> set (db_triggers db). \<not> (tg_workflow_id r = w \<and> tg_trigger_id r \<in> set (map fst entries)) \<longrightarrow> r \<in> set (db_triggers db'))
     \<and> filter (\<lambda>r. tg_workflow_id r \<noteq> w) (db_triggers db') = filter (\<lambda>r. tg_workflow_id r \<noteq> w) (db_triggers db)"
proof (induction entries arbitrary: db)
  case (Cons entry entries)
  obtain t c where entry: "entry = (t, c)" by fastforce
  from Cons.prems(4) obtain db1 where one: "syncTrigger now w (t, c) db = Inr db1" and rest: "syncEach now w entries db1 = Inr db'"
    by (auto simp: entry bind_inv)
  have colon: "CHR '':'' \<notin> set t" using Cons.prems(2) entry by auto
  note first = syncTrigger_rows [OF Cons.prems(1) colon one]
  have more: "\<forall>(t, c) \<in> set entries. CHR '':'' \<notin> set t" "distinct (map fst entries)" "t \<notin> set (map fst entries)"
    using Cons.prems(2,3) entry by auto
  note then_rows = Cons.IH [OF conjunct1 [OF first] more(1,2) rest]
  from first obtain r where r: "r \<in> set (db_triggers db1)" "row_of w (t, c) r" by blast
  with then_rows more(3) have "r \<in> set (db_triggers db')" by (auto simp: row_of_def)
  with r(2) then_rows have "\<forall>e \<in> set (entry # entries). \<exists>r \<in> set (db_triggers db'). row_of w e r" by (auto simp: entry)
  moreover have "(\<exists>e \<in> set (entry # entries). row_of w e r)
      \<or> r \<in> set (db_triggers db) \<and> \<not> (tg_workflow_id r = w \<and> tg_trigger_id r \<in> set (map fst (entry # entries)))"
    if "r \<in> set (db_triggers db')" for r
    using first then_rows that entry by auto
  moreover have "r \<in> set (db_triggers db')"
    if "r \<in> set (db_triggers db)" "\<not> (tg_workflow_id r = w \<and> tg_trigger_id r \<in> set (map fst (entry # entries)))" for r
    using first then_rows that entry by auto
  moreover have "filter (\<lambda>r. tg_workflow_id r \<noteq> w) (db_triggers db') = filter (\<lambda>r. tg_workflow_id r \<noteq> w) (db_triggers db)"
    using first then_rows by simp
  ultimately show ?case by blast
qed simp

text \<open>A synchronization returns, and after it the stored triggers of a workflow are those of its definition, each with its configuration, and those of other workflows are as they were.\<close>

lemma sync_exact:
  assumes "triggers_keyed (db_triggers db)" and "triggers_ok (db_workflow_ids db) (db_triggers db)" and "w \<in> set (db_workflow_ids db)"
    and "\<forall>(t, c) \<in> set triggers. CHR '':'' \<notin> set t" and "distinct (map fst triggers)"
  shows "\<exists>db'. syncDagTriggers now w triggers db = Inr db'
    \<and> (\<forall>e \<in> set triggers. \<exists>r \<in> set (db_triggers db'). row_of w e r)
    \<and> (\<forall>r \<in> set (db_triggers db'). tg_workflow_id r = w \<longrightarrow> (\<exists>e \<in> set triggers. row_of w e r))
    \<and> filter (\<lambda>r. tg_workflow_id r \<noteq> w) (db_triggers db') = filter (\<lambda>r. tg_workflow_id r \<noteq> w) (db_triggers db)"
proof (cases "triggers = []")
  case True
  then show ?thesis by (auto simp: syncDagTriggers_def delete_triggers_def sql_delete_def Let_def)
next
  case False
  let ?db = "delete_triggers (\<lambda>r. tg_workflow_id r = w \<and> tg_trigger_id r \<notin> set (map fst triggers)) db"
  have rows: "db_triggers ?db = filter (\<lambda>r. \<not> (tg_workflow_id r = w \<and> tg_trigger_id r \<notin> set (map fst triggers))) (db_triggers db)"
    and ids: "db_workflow_ids ?db = db_workflow_ids db"
    by (simp_all add: delete_triggers_def sql_delete_def Let_def)
  have keyed: "triggers_keyed (db_triggers ?db)" using assms(1) unfolding rows triggers_keyed_def by simp
  have "triggers_ok (db_workflow_ids ?db) (db_triggers ?db)"
    using assms(2) unfolding rows ids triggers_ok_def list_all_iff by (simp add: unique_on_filter)
  from syncEach_returns [OF keyed assms(4) this] assms(3) ids obtain db' where each: "syncEach now w triggers ?db = Inr db'" by auto
  note all = syncEach_rows [OF keyed assms(4,5) each]
  have same: "filter (\<lambda>r. tg_workflow_id r \<noteq> w) (db_triggers ?db) = filter (\<lambda>r. tg_workflow_id r \<noteq> w) (db_triggers db)"
    unfolding rows filter_filter by (rule filter_cong) auto
  have "syncDagTriggers now w triggers db = Inr db'" using each False by (simp add: syncDagTriggers_def)
  moreover have "\<exists>e \<in> set triggers. row_of w e r" if "r \<in> set (db_triggers db')" "tg_workflow_id r = w" for r
    using all that unfolding rows by auto
  ultimately show ?thesis using all same by auto
qed

section \<open>The policy\<close>

text \<open>
  The policy of a workflow skips overlaps if one enabled trigger does, and allows as many runs as the
  strictest enabled trigger.
\<close>

lemma fold_min: "fold (\<lambda>(_, d) m. min m (tc_max d)) rest (a :: int) = Min (insert a ((\<lambda>(_, d). tc_max d) ` set rest))"
proof (induction rest arbitrary: a)
  case (Cons x rest)
  obtain k d where x: "x = (k, d)" by fastforce
  have "Min (insert (min a (tc_max d)) S) = Min (insert a (insert (tc_max d) S))" if "finite S" for S
    using that by (cases "S = {}") (simp_all add: min.assoc)
  then show ?case using Cons [of "min a (tc_max d)"] by (simp add: x)
qed simp

lemma policy_strictest:
  assumes "deriveWorkflowConcurrencyPolicy collation triggers = Some p"
  shows "po_max p = Min ((\<lambda>(_, d). tc_max d) ` {(k, d) \<in> set (case triggers of None \<Rightarrow> [] | Some ts \<Rightarrow> ts). tc_enabled d})"
    and "po_overlap p = Overlap_skip \<longleftrightarrow> (\<exists>(k, d) \<in> set (case triggers of None \<Rightarrow> [] | Some ts \<Rightarrow> ts). tc_enabled d \<and> tc_overlap d = Overlap_skip)"
proof -
  let ?enabled = "admission_order collation (case triggers of None \<Rightarrow> [] | Some ts \<Rightarrow> ts)"
  have members: "{(k, d) \<in> set (case triggers of None \<Rightarrow> [] | Some ts \<Rightarrow> ts). tc_enabled d} = set ?enabled"
    by (auto simp: admission_order_def)
  from assms obtain k c rest where e: "?enabled = (k, c) # rest"
    and p: "p = \<lparr>po_overlap = (if list_ex (\<lambda>(_, d). tc_overlap d = Overlap_skip) ?enabled then Overlap_skip else Overlap_allow),
      po_max = fold (\<lambda>(_, d) m. min m (tc_max d)) rest (tc_max c), po_trigger_ids = map fst ?enabled\<rparr>"
    by (auto simp: deriveWorkflowConcurrencyPolicy_def Let_def split: list.splits)
  show "po_max p = Min ((\<lambda>(_, d). tc_max d) ` {(k, d) \<in> set (case triggers of None \<Rightarrow> [] | Some ts \<Rightarrow> ts). tc_enabled d})"
    unfolding members e p by (simp add: fold_min)
  have "po_overlap p = Overlap_skip \<longleftrightarrow> list_ex (\<lambda>(_, d). tc_overlap d = Overlap_skip) ?enabled" by (simp add: p)
  also have "\<dots> \<longleftrightarrow> (\<exists>(k, d) \<in> {(k, d) \<in> set (case triggers of None \<Rightarrow> [] | Some ts \<Rightarrow> ts). tc_enabled d}. tc_overlap d = Overlap_skip)"
    unfolding members list_ex_iff by (simp add: case_prod_unfold)
  also have "\<dots> \<longleftrightarrow> (\<exists>(k, d) \<in> set (case triggers of None \<Rightarrow> [] | Some ts \<Rightarrow> ts). tc_enabled d \<and> tc_overlap d = Overlap_skip)" by auto
  finally show "po_overlap p = Overlap_skip \<longleftrightarrow> (\<exists>(k, d) \<in> set (case triggers of None \<Rightarrow> [] | Some ts \<Rightarrow> ts). tc_enabled d \<and> tc_overlap d = Overlap_skip)" .
qed

section \<open>Runs to evaluate\<close>

definition trigger_env :: js_env where
  "trigger_env = \<lparr>env_num_str = (\<lambda>_. ''5''), env_sha256 = (\<lambda>text. text), env_json_parse = (\<lambda>_. None)\<rparr>"

definition interval_demo :: trigger_row where
  "interval_demo = \<lparr>tg_key = ''w:t'', tg_workflow_id = ''w'', tg_trigger_id = ''t'', tg_type = Trigger_interval,
     tg_config = \<lparr>tc_type = Trigger_interval, tc_every_ms = Some 1000, tc_event = None, tc_overlap = Overlap_skip, tc_max = 1, tc_enabled = True\<rparr>,
     tg_enabled = True, tg_next_fire_at = Some 5, tg_updated_at = 0\<rparr>"

definition trigger_demo :: trigger_db where
  "trigger_demo = \<lparr>db_workflow_ids = [''w''], db_triggers = [interval_demo], db_deliveries = [], db_admissions = [], db_runs = []\<rparr>"

definition demo_policy :: concurrency_policy where
  "demo_policy = \<lparr>po_overlap = Overlap_skip, po_max = 1, po_trigger_ids = [''t'']\<rparr>"

definition demo_orchestrator :: "unit orchestrator" where
  "demo_orchestrator workflow prompt source db =
     (db\<lparr>db_runs := db_runs db @ [\<lparr>rn_run_id = ''r'', rn_workflow_id = workflow, rn_status = ''active''\<rparr>]\<rparr>, Inr ''r'')"

definition demo_world :: "unit trigger_world" where
  "demo_world = \<lparr>tw_env = trigger_env, tw_now = (\<lambda>_. 10), tw_orchestrator = Some demo_orchestrator\<rparr>"

lemma demo_world_facts: "tw_orchestrator demo_world = Some demo_orchestrator" "keeps_triggers demo_orchestrator"
  by (simp_all add: demo_world_def keeps_triggers_def demo_orchestrator_def)

theorem active_runs_bounded_witness:
  "\<exists>db. (admission_step ''w'' 1)\<^sup>*\<^sup>* trigger_demo db \<and> active_run_count ''w'' db = 1 \<and> active_run_count ''w'' db \<le> 1"
proof -
  let ?in = "\<lparr>ri_run_id = ''r'', ri_workflow_id = ''w'', ri_source = ''manual'', ri_policy = Some demo_policy\<rparr>"
  let ?run = "\<lparr>rn_run_id = ''r'', rn_workflow_id = ''w'', rn_status = ''active''\<rparr>"
  let ?db1 = "fst (reserveWorkflowRun 10 ?in trigger_demo)"
  let ?db2 = "?db1\<lparr>db_runs := db_runs ?db1 @ [?run]\<rparr>"
  have one: "admission_step ''w'' 1 trigger_demo ?db1" by (rule step_reserve) (auto simp: demo_policy_def)
  have db1: "db_admissions ?db1 = [\<lparr>am_run_id = ''r'', am_workflow_id = ''w'', am_source = ''manual'', am_created_at = 10\<rparr>]" "db_runs ?db1 = []"
    by code_simp+
  have two: "admission_step ''w'' 1 ?db1 ?db2" by (rule step_create) (simp_all add: db1 holds_slot_eq)
  from one two have steps: "(admission_step ''w'' 1)\<^sup>*\<^sup>* trigger_demo ?db2" by (rule converse_rtranclp_into_rtranclp [OF _ r_into_rtranclp])
  have "occupied ''w'' trigger_demo \<le> 1" "admissions_ok (db_admissions trigger_demo)"
    by (simp_all add: trigger_demo_def occupied_def active_run_count_def slots_def admissions_ok_def)
  with steps have "active_run_count ''w'' ?db2 \<le> 1" by (rule active_runs_bounded)
  moreover have "active_run_count ''w'' ?db2 = 1" by (simp add: active_run_count_def db1)
  ultimately show ?thesis using steps by blast
qed

theorem trigger_fires_once_witness:
  "\<exists>db. dispatchTrigger demo_world interval_demo ''k'' JNull trigger_demo = (db, Inr \<lparr>dr_dispatched = True, dr_run_id = Some ''r'', dr_reason = None\<rparr>)
     \<and> snd (dispatchTrigger demo_world interval_demo ''k'' JNull db) = Inr (not_dispatched ''duplicate'')"
proof -
  let ?r = "\<lparr>dr_dispatched = True, dr_run_id = Some ''r'', dr_reason = None\<rparr>"
  obtain db where db: "dispatchTrigger demo_world interval_demo ''k'' JNull trigger_demo = (db, Inr ?r)"
  proof -
    have "snd (dispatchTrigger demo_world interval_demo ''k'' JNull trigger_demo) = Inr ?r" by code_simp
    with that show thesis by (metis prod.collapse)
  qed
  have "deliveries_persist db db" by (simp add: deliveries_persist_def)
  from trigger_fires_once [OF demo_world_facts db this _ refl refl] demo_world_facts(1) db show ?thesis by simp
qed

theorem tick_leaves_none_due_witness:
  "\<exists>db' rs. triggerTick demo_world trigger_demo = (db', Inr rs) \<and> length rs = 1 \<and> dueIntervalTriggers 10 db' = []"
proof -
  have ok: "deliveries_ok (db_triggers trigger_demo) (db_deliveries trigger_demo)" "triggers_consistent (db_triggers trigger_demo)"
    by (simp_all add: trigger_demo_def deliveries_ok_def triggers_consistent_def interval_demo_def every_def)
  have now: "tw_now demo_world d = 10" for d by (simp add: demo_world_def)
  have "length (dueIntervalTriggers 10 trigger_demo) = 1" by code_simp
  with tick_leaves_none_due [OF demo_world_facts _ ok] now show ?thesis by simp
qed

lemma sync_exact_witness:
  "\<exists>db'. syncDagTriggers 10 ''w'' [(''e'', (tg_config interval_demo)\<lparr>tc_type := Trigger_event\<rparr>)] trigger_demo = Inr db'
     \<and> (\<forall>r \<in> set (db_triggers db'). tg_workflow_id r = ''w'' \<longrightarrow> tg_trigger_id r = ''e'')"
proof -
  have "triggers_keyed (db_triggers trigger_demo)" "triggers_ok (db_workflow_ids trigger_demo) (db_triggers trigger_demo)" "''w'' \<in> set (db_workflow_ids trigger_demo)"
    by (simp_all add: trigger_demo_def triggers_keyed_def triggers_ok_def unique_on_def interval_demo_def trigger_key_def)
  from sync_exact [OF this, of "[(''e'', (tg_config interval_demo)\<lparr>tc_type := Trigger_event\<rparr>)]" 10] show ?thesis
    by (auto simp: row_of_def)
qed

end
