(* ===== verification/Graph.thy ===== *)
theory Graph
  imports Js_Values
begin

text \<open>
  The workflow graph of \<open>orchestration/graph.ts\<close>: edges, nodes, the graph and the parsed DAG
  the engine runs. A gateway configuration is kept as the JavaScript object it is, so that the
  code's defaults (\<open>??\<close>, \<open>||\<close>) and its checks on missing or ill-typed fields are visible in
  the definitions that read it.
\<close>

definition FAILURE_PORT_NAMES :: "string list" where
  "FAILURE_PORT_NAMES = [''failed'', ''failure'', ''rejected'', ''error'', ''blocked'', ''stale'']"

datatype terminal_outcome = OutSuccess | OutFailure | OutCancelled

record edge_retry_policy =
  max_retries :: "jsnum option"

record dag_edge =
  from_node :: string
  from_port :: string
  to_node :: string
  to_port :: string
  condition :: string
  label :: "string option"
  retry_policy :: "edge_retry_policy option"
  terminal_outcome :: "terminal_outcome option"

text \<open>A route's \<open>to\<close> is a string or an array of strings.\<close>

datatype route_to = To_One string | To_Many "string list"

record output_route =
  route_to :: route_to
  route_condition :: "string option"
  route_retry :: "edge_retry_policy option"

record dag_node =
  node_id :: string
  name :: string
  description :: string
  node_type :: string
  agent :: string
  after :: "string list"
  outputs :: "(string \<times> output_route) list"
  image :: "string option"
  container_group :: "string option"
  requires :: "string list option"
  gateway_config :: "(string \<times> js) list option"
  extra :: "(string \<times> js) list option"

record dag_graph =
  nodes :: "dag_node list"
  edges :: "dag_edge list"

record parsed_dag =
  meta :: js
  pgraph :: dag_graph
  loop_sources :: "string list"

definition find_node :: "dag_graph \<Rightarrow> string \<Rightarrow> dag_node option" where
  "find_node g n = find (\<lambda>nd. node_id nd = n) (nodes g)"

definition node_ids :: "dag_graph \<Rightarrow> string list" where
  "node_ids g = map node_id (nodes g)"

lemma find_node_SomeD: "find_node g n = Some nd \<Longrightarrow> nd \<in> set (nodes g) \<and> node_id nd = n"
  by (auto simp: find_node_def find_Some_iff)

lemma find_node_None: "find_node g n = None \<longleftrightarrow> n \<notin> set (node_ids g)"
  by (auto simp: find_node_def find_None_iff node_ids_def)

definition is_after_dep :: "dag_edge \<Rightarrow> bool" where
  "is_after_dep e \<longleftrightarrow> label e = Some ''after_dep''"

text \<open>The code units of \<open>A\<close> to \<open>Z\<close> under \<open>toLowerCase\<close>.\<close>

definition to_lower_char :: "char \<Rightarrow> char" where
  "to_lower_char c = (let n = of_char c :: nat in
     if (65 \<le> n \<and> n \<le> 90) \<or> (192 \<le> n \<and> n \<le> 222 \<and> n \<noteq> 215) then char_of (n + 32) else c)"

definition to_lower :: "string \<Rightarrow> string" where
  "to_lower s = map to_lower_char s"

end
