(* ===== verification/Dag_Engine.thy ===== *)
theory Dag_Engine
  imports Graph
begin

text \<open>
  The state machine of \<open>orchestration/dag-engine.ts\<close>: a run keeps one state per node, the
  satisfied structural dependencies and routed inputs of every node, and its mailboxes. Each
  exported function of the file is one definition here; the payload type \<open>'v\<close> is the code's
  \<open>unknown\<close>. The code mutates the run in place; the model returns the updated run. A function
  that throws returns \<open>Inl\<close> with the run as it was left at the throw.
\<close>

datatype NodeState =
    PENDING
  | READY
  | RUNNING
  | WAITING_FOR_APPROVAL
  | WAITING_FOR_COMMAND
  | COMPLETED
  | FAILED
  | CANCELLED
  | SKIPPED

record 'v dag_run =
  runId :: string
  graph :: dag_graph
  loopSources :: "string jsset"
  nodeStates :: "(string, NodeState) jsmap"
  handoffedNodes :: "string jsset"
  afterSatisfied :: "(string, string jsset) jsmap"
  inputSatisfied :: "(string, string jsset) jsmap"
  mailboxes :: "(string, (string, 'v list) jsmap) jsmap"

record transition_result =
  affectedNodes :: "string list"
  routedNodes :: "string list"
  terminalFailure :: "bool option"
  terminalOutcome :: "terminal_outcome option"

datatype engine_error =
    UnknownNode string
  | CannotStart string NodeState
  | EmptyRound

abbreviation state_of :: "'v dag_run \<Rightarrow> string \<Rightarrow> NodeState option" where
  "state_of run n \<equiv> map_of (nodeStates run) n"

definition set_state :: "string \<Rightarrow> NodeState \<Rightarrow> 'v dag_run \<Rightarrow> 'v dag_run" where
  "set_state n s run = run\<lparr>nodeStates := AList.update n s (nodeStates run)\<rparr>"

definition settled :: "NodeState \<Rightarrow> bool" where
  "settled s \<longleftrightarrow> s \<in> {COMPLETED, FAILED, CANCELLED, SKIPPED}"

definition state_settled :: "'v dag_run \<Rightarrow> string \<Rightarrow> bool" where
  "state_settled run n = (case state_of run n of None \<Rightarrow> False | Some s \<Rightarrow> settled s)"

text \<open>\<open>m.get(n)?.has(x)\<close> on a map of sets.\<close>

definition has_in :: "(string, string jsset) jsmap \<Rightarrow> string \<Rightarrow> string \<Rightarrow> bool" where
  "has_in m n x = (case map_of m n of None \<Rightarrow> False | Some xs \<Rightarrow> x \<in> set xs)"

text \<open>\<open>m.get(n)?.add(x)\<close>.\<close>

definition add_in :: "string \<Rightarrow> string \<Rightarrow> (string, string jsset) jsmap \<Rightarrow> (string, string jsset) jsmap" where
  "add_in n x m = (case map_of m n of None \<Rightarrow> m | Some xs \<Rightarrow> AList.update n (set_add x xs) m)"

definition isFailurePort :: "string \<Rightarrow> bool" where
  "isFailurePort port \<longleftrightarrow> to_lower port \<in> set FAILURE_PORT_NAMES"

definition edgeMatchesHandoff :: "dag_edge \<Rightarrow> string \<Rightarrow> bool" where
  "edgeMatchesHandoff e port =
     (if from_port e \<noteq> port then False
      else if condition e = ''always'' then True
      else if isFailurePort port then condition e = ''on_failure''
      else condition e \<noteq> ''on_failure'')"

definition incomingAfterDeps :: "dag_edge list \<Rightarrow> string \<Rightarrow> dag_edge list" where
  "incomingAfterDeps es n = filter (\<lambda>e. to_node e = n \<and> is_after_dep e) es"

definition incomingExplicitEdges :: "dag_edge list \<Rightarrow> string \<Rightarrow> dag_edge list" where
  "incomingExplicitEdges es n = filter (\<lambda>e. to_node e = n \<and> \<not> is_after_dep e) es"

definition incomingExplicitEdgesFrom :: "dag_edge list \<Rightarrow> string \<Rightarrow> string \<Rightarrow> dag_edge list" where
  "incomingExplicitEdgesFrom es n u = filter (\<lambda>e. from_node e = u) (incomingExplicitEdges es n)"

definition initialState :: "dag_graph \<Rightarrow> string \<Rightarrow> NodeState" where
  "initialState g n = (if incomingAfterDeps (edges g) n = [] then READY else PENDING)"

definition createDAGRun :: "parsed_dag \<Rightarrow> string \<Rightarrow> 'v dag_run" where
  "createDAGRun p rid =
     fold (\<lambda>nd run. run\<lparr>
             nodeStates := AList.update (node_id nd) (initialState (pgraph p) (node_id nd)) (nodeStates run),
             afterSatisfied := AList.update (node_id nd) [] (afterSatisfied run),
             inputSatisfied := AList.update (node_id nd) [] (inputSatisfied run),
             mailboxes := AList.update (node_id nd) [] (mailboxes run)\<rparr>)
       (nodes (pgraph p))
       \<lparr>runId = rid, graph = pgraph p, loopSources = remdups (loop_sources p), nodeStates = [],
        handoffedNodes = [], afterSatisfied = [], inputSatisfied = [], mailboxes = []\<rparr>"

text \<open>\<open>_ensureMailbox(run, n, port).push(v)\<close>: an unknown node throws.\<close>

definition pushMailbox :: "'v dag_run \<Rightarrow> string \<Rightarrow> string \<Rightarrow> 'v \<Rightarrow> (engine_error \<times> 'v dag_run) + 'v dag_run" where
  "pushMailbox run n port v =
     (case map_of (mailboxes run) n of
        None \<Rightarrow> Inl (UnknownNode n, run)
      | Some box \<Rightarrow>
          let values = (case map_of box port of None \<Rightarrow> [] | Some vs \<Rightarrow> vs)
          in Inr (run\<lparr>mailboxes := AList.update n (AList.update port (values @ [v]) box) (mailboxes run)\<rparr>))"

definition joinHasEnoughRoutedInputs :: "'v dag_run \<Rightarrow> string \<Rightarrow> dag_edge list \<Rightarrow> bool option" where
  "joinHasEnoughRoutedInputs run n deps =
     (case find_node (graph run) n of
        None \<Rightarrow> None
      | Some nd \<Rightarrow>
          if node_type nd \<noteq> ''join_gateway'' then None
          else
            let routedDependencies = remdups (map from_node
                  (filter (\<lambda>d. incomingExplicitEdgesFrom (edges (graph run)) n (from_node d) \<noteq> []) deps));
                routed = length (filter (has_in (inputSatisfied run) n) routedDependencies);
                mode = js_nullish (opt_get (gateway_config nd) ''mode'') (JStr ''all'')
            in if js_strict_eq mode (JStr ''all'')
               then Some (length routedDependencies \<le> routed
                          \<and> list_all (\<lambda>d. has_in (afterSatisfied run) n (from_node d)) deps)
               else Some (list_all (\<lambda>d. state_settled run (from_node d)) deps \<and> 0 < routed))"

definition explicitInputMissing :: "'v dag_run \<Rightarrow> string \<Rightarrow> dag_edge \<Rightarrow> bool" where
  "explicitInputMissing run n d \<longleftrightarrow>
     incomingExplicitEdgesFrom (edges (graph run)) n (from_node d) \<noteq> []
     \<and> \<not> has_in (inputSatisfied run) n (from_node d)"

definition tryPromote :: "'v dag_run \<Rightarrow> string \<Rightarrow> 'v dag_run" where
  "tryPromote run n =
     (if state_of run n \<noteq> Some PENDING then run
      else
        let deps = incomingAfterDeps (edges (graph run)) n
        in case joinHasEnoughRoutedInputs run n deps of
             Some ready \<Rightarrow> if ready then set_state n READY run else run
           | None \<Rightarrow>
               if \<not> list_all (\<lambda>d. has_in (afterSatisfied run) n (from_node d)) deps then run
               else if list_ex (explicitInputMissing run n) deps then run
               else set_state n READY run)"

definition predecessors :: "'v dag_run \<Rightarrow> string \<Rightarrow> string list" where
  "predecessors run n = remdups (map from_node (filter (\<lambda>e. to_node e = n) (edges (graph run))))"

definition hasAlternativePath :: "'v dag_run \<Rightarrow> string \<Rightarrow> string \<Rightarrow> bool" where
  "hasAlternativePath run n excludePred =
     list_ex (\<lambda>p. p \<noteq> excludePred
        \<and> state_of run p \<in> {Some COMPLETED, Some RUNNING, Some WAITING_FOR_COMMAND, Some PENDING, Some READY})
       (predecessors run n)"

definition failureRoute :: "'v dag_run \<Rightarrow> string \<Rightarrow> string \<Rightarrow> bool" where
  "failureRoute run u n =
     list_ex (\<lambda>c. from_node c = u \<and> to_node c = n \<and> \<not> is_after_dep c
        \<and> (condition c = ''on_failure'' \<or> condition c = ''always'')) (edges (graph run))"

text \<open>The guards of one iteration of \<open>_skipDependentNodes\<close>, in the code's order.\<close>

definition skipsTarget :: "'v dag_run \<Rightarrow> string \<Rightarrow> bool \<Rightarrow> dag_edge \<Rightarrow> bool" where
  "skipsTarget run u sourceWasSkipped e =
     (if from_node e \<noteq> u then False
      else if \<not> sourceWasSkipped \<and> condition e \<noteq> ''on_success'' then False
      else if to_node e = [] then False
      else if state_of run (to_node e) \<noteq> Some PENDING \<and> state_of run (to_node e) \<noteq> Some READY then False
      else if \<not> sourceWasSkipped
              \<and> (failureRoute run u (to_node e) \<or> has_in (inputSatisfied run) (to_node e) u) then False
      else if hasAlternativePath run (to_node e) u then False
      else True)"

section \<open>Skipping what can no longer run\<close>

text \<open>Nodes that a skip can still take: every recursive call of \<open>_skipDependentNodes\<close> uses one up.\<close>

definition open_nodes :: "'v dag_run \<Rightarrow> string set" where
  "open_nodes run = {k. state_of run k \<in> {Some PENDING, Some READY}}"

lemma finite_open_nodes [simp]: "finite (open_nodes run)"
proof (rule finite_subset)
  show "open_nodes run \<subseteq> dom (map_of (nodeStates run))" by (auto simp: open_nodes_def)
qed (simp add: finite_dom_map_of)

lemma state_of_set_state [simp]: "state_of (set_state n s run) k = (if k = n then Some s else state_of run k)"
  by (simp add: set_state_def)

lemma open_nodes_skip: "open_nodes (set_state n SKIPPED run) = open_nodes run - {n}"
  by (auto simp: open_nodes_def)

lemma skipsTarget_open: "skipsTarget run u sk e \<Longrightarrow> to_node e \<in> open_nodes run"
  by (auto simp: skipsTarget_def open_nodes_def split: if_splits)

lemma card_open_skip: "skipsTarget run u sk e \<Longrightarrow>
   card (open_nodes (set_state (to_node e) SKIPPED run)) < card (open_nodes run)"
  unfolding open_nodes_skip by (rule card_Diff1_less [OF finite_open_nodes skipsTarget_open])

text \<open>
  \<open>skipOver es run u sk\<close> is the loop of \<open>_skipDependentNodes(run, u, sk)\<close> with the edges \<open>es\<close>
  still to visit; the recursive call of the body starts over at the first edge.
\<close>

function skipOver :: "dag_edge list \<Rightarrow> 'v dag_run \<Rightarrow> string \<Rightarrow> bool \<Rightarrow> 'v dag_run" where
  "skipOver [] run u sk = run"
| "skipOver (e # es) run u sk =
     (if skipsTarget run u sk e
      then skipOver es (skipOver (edges (graph run)) (set_state (to_node e) SKIPPED run) (to_node e) True) u sk
      else skipOver es run u sk)"
  by pat_completeness auto

lemma skipOver_open_dom:
  "skipOver_dom (es, run, u, sk) \<Longrightarrow> card (open_nodes (skipOver es run u sk)) \<le> card (open_nodes run)"
proof (induction es run u sk rule: skipOver.pinduct)
  case (1 run u sk)
  then show ?case by (simp add: skipOver.psimps)
next
  case (2 e es run u sk)
  show ?case
  proof (cases "skipsTarget run u sk e")
    case True
    with 2 card_open_skip [OF True] show ?thesis
      by (simp add: skipOver.psimps)
  next
    case False
    with 2 show ?thesis by (simp add: skipOver.psimps)
  qed
qed

termination skipOver
proof (relation "measures [\<lambda>(es, run, u, sk). card (open_nodes run), \<lambda>(es, run, u, sk). length es]",
    goal_cases)
  case 1
  show ?case by simp
next
  case (2 e es run u sk)
  then show ?case using card_open_skip [OF 2] by simp
next
  case (3 e es run u sk)
  then show ?case using card_open_skip [OF 3(1)] skipOver_open_dom [OF 3(2)] by simp
next
  case (4 e es run u sk)
  then show ?case by simp
qed

definition skipDependentNodes :: "'v dag_run \<Rightarrow> string \<Rightarrow> bool \<Rightarrow> 'v dag_run" where
  "skipDependentNodes run u sourceWasSkipped = skipOver (edges (graph run)) run u sourceWasSkipped"

definition skipUntakenSatisfiedBranches :: "'v dag_run \<Rightarrow> string \<Rightarrow> 'v dag_run" where
  "skipUntakenSatisfiedBranches run n =
     (if state_of run n \<noteq> Some PENDING then run
      else
        let deps = incomingAfterDeps (edges (graph run)) n
        in if \<not> list_all (\<lambda>d. has_in (afterSatisfied run) n (from_node d)) deps then run
           else if list_ex (\<lambda>d. from_node d \<in> set (loopSources run)
                     \<and> state_of run (from_node d) = Some RUNNING \<and> explicitInputMissing run n d) deps then run
           else if list_ex (explicitInputMissing run n) deps
                then skipDependentNodes (set_state n SKIPPED run) n True
           else run)"

definition satisfyAfterDeps :: "'v dag_run \<Rightarrow> string \<Rightarrow> 'v dag_run \<times> string jsset" where
  "satisfyAfterDeps run u =
     fold (\<lambda>e (r, affected).
             if is_after_dep e \<and> from_node e = u
             then (r\<lparr>afterSatisfied := add_in (to_node e) u (afterSatisfied r)\<rparr>, set_add (to_node e) affected)
             else (r, affected))
       (edges (graph run)) (run, [])"

section \<open>Settling dormant nodes\<close>

definition pending_nodes :: "'v dag_run \<Rightarrow> string set" where
  "pending_nodes run = {k. state_of run k = Some PENDING}"

lemma finite_pending_nodes [simp]: "finite (pending_nodes run)"
proof (rule finite_subset)
  show "pending_nodes run \<subseteq> dom (map_of (nodeStates run))" by (auto simp: pending_nodes_def)
qed (simp add: finite_dom_map_of)

definition dependencies_settled :: "'v dag_run \<Rightarrow> string \<Rightarrow> bool" where
  "dependencies_settled run n \<longleftrightarrow>
     (let deps = incomingAfterDeps (edges (graph run)) n
      in deps \<noteq> [] \<and> list_all (\<lambda>d. state_settled run (from_node d)) deps)"

fun reconcilePass :: "string list \<Rightarrow> 'v dag_run \<times> string jsset \<times> bool \<Rightarrow> 'v dag_run \<times> string jsset \<times> bool" where
  "reconcilePass [] st = st"
| "reconcilePass (n # ns) (run, affected, changed) =
     (if state_of run n = Some PENDING \<and> dependencies_settled run n
      then let run' = tryPromote run n
           in reconcilePass ns
                (if state_of run' n = Some READY then run' else set_state n SKIPPED run',
                 set_add n affected, True)
      else reconcilePass ns (run, affected, changed))"

lemma tryPromote_cases: "tryPromote run n = run \<or> (state_of run n = Some PENDING \<and> tryPromote run n = set_state n READY run)"
  by (auto simp: tryPromote_def Let_def split: option.splits)

lemma reconcile_step_pending:
  "state_of run n = Some PENDING \<Longrightarrow> run' = tryPromote run n \<Longrightarrow>
   pending_nodes (if state_of run' n = Some READY then run' else set_state n SKIPPED run') = pending_nodes run - {n}"
  using tryPromote_cases [of run n] by (auto simp: pending_nodes_def split: if_splits)

lemma reconcilePass_pending:
  "reconcilePass ns (run, affected, changed) = (run', affected', changed') \<Longrightarrow>
   pending_nodes run' \<subseteq> pending_nodes run \<and> (changed' \<longrightarrow> changed \<or> pending_nodes run' \<subset> pending_nodes run)"
proof (induction ns arbitrary: run affected changed)
  case Nil
  then show ?case by simp
next
  case (Cons n ns)
  show ?case
  proof (cases "state_of run n = Some PENDING \<and> dependencies_settled run n")
    case True
    let ?r = "tryPromote run n"
    let ?r' = "if state_of ?r n = Some READY then ?r else set_state n SKIPPED ?r"
    from True have "pending_nodes ?r' = pending_nodes run - {n}"
      by (intro reconcile_step_pending) simp_all
    moreover from True have "n \<in> pending_nodes run" by (simp add: pending_nodes_def)
    moreover have "pending_nodes run' \<subseteq> pending_nodes ?r'"
      using Cons.IH [of ?r' "set_add n affected" True] Cons.prems True by (simp add: Let_def)
    ultimately show ?thesis by blast
  next
    case False
    with Cons.prems have "reconcilePass ns (run, affected, changed) = (run', affected', changed')" by auto
    then show ?thesis by (rule Cons.IH)
  qed
qed

function reconcileLoop :: "'v dag_run \<Rightarrow> string jsset \<Rightarrow> 'v dag_run \<times> string jsset" where
  "reconcileLoop run affected =
     (case reconcilePass (map_keys (nodeStates run)) (run, affected, False) of
        (run', affected', changed) \<Rightarrow>
          if changed then reconcileLoop run' affected' else (run', affected'))"
  by pat_completeness auto
termination
  by (relation "measure (\<lambda>(run, affected). card (pending_nodes run))")
    (auto dest!: reconcilePass_pending [OF sym] intro!: psubset_card_mono)

declare reconcileLoop.simps [simp del]

definition reconcileSettledPendingNodes :: "'v dag_run \<Rightarrow> 'v dag_run \<times> string jsset" where
  "reconcileSettledPendingNodes run = reconcileLoop run []"

section \<open>Resetting after a retry and after a failure\<close>

text \<open>
  \<open>pending.pop()\<close> takes the last element and \<open>pending.push\<close> appends: the model keeps the
  array reversed, so the head of the list is the next node popped. Each popped node is marked
  visited, and everything pushed is the target of an edge, so the loop stops.
\<close>

definition pushed_targets :: "(dag_edge \<Rightarrow> bool) \<Rightarrow> dag_edge list \<Rightarrow> string list" where
  "pushed_targets P es = rev (filter (\<lambda>t. t \<noteq> []) (map to_node (filter P es)))"

lemma set_pushed_targets: "set (pushed_targets P es) \<subseteq> to_node ` set es"
  by (auto simp: pushed_targets_def)

definition unvisited :: "dag_edge list \<Rightarrow> string list \<Rightarrow> string list \<Rightarrow> nat" where
  "unvisited es pending visited = card ((to_node ` set es \<union> set pending) - set visited)"

lemma unvisited_drop: "unvisited es pending visited \<le> unvisited es (n # pending) visited"
  unfolding unvisited_def by (rule card_mono) auto

lemma unvisited_visit:
  assumes "n \<notin> set visited" and "set new \<subseteq> to_node ` set es"
  shows "unvisited es (new @ pending) (n # visited) < unvisited es (n # pending) visited"
  unfolding unvisited_def using assms by (intro psubset_card_mono) auto

lemma unvisited_visit0:
  "n \<notin> set visited \<Longrightarrow> unvisited es pending (n # visited) < unvisited es (n # pending) visited"
  using unvisited_visit [of n visited "[]" es pending] by simp

definition resetSkippedNode :: "string \<Rightarrow> 'v dag_run \<Rightarrow> 'v dag_run" where
  "resetSkippedNode n run = run\<lparr>
     nodeStates := AList.update n PENDING (nodeStates run),
     handoffedNodes := set_del n (handoffedNodes run),
     inputSatisfied := AList.update n [] (inputSatisfied run),
     mailboxes := AList.update n [] (mailboxes run)\<rparr>"

lemma resetSkippedNode_graph [simp]: "graph (resetSkippedNode n run) = graph run"
  by (simp add: resetSkippedNode_def)

function resetSkippedLoop :: "dag_edge list \<Rightarrow> string list \<Rightarrow> string list \<Rightarrow> 'v dag_run \<Rightarrow> 'v dag_run" where
  "resetSkippedLoop es [] visited run = run"
| "resetSkippedLoop es (n # pending) visited run =
     (if n \<in> set visited then resetSkippedLoop es pending visited run
      else if state_of run n \<noteq> Some SKIPPED then resetSkippedLoop es pending (n # visited) run
      else resetSkippedLoop es (pushed_targets (\<lambda>e. from_node e = n) es @ pending) (n # visited)
             (resetSkippedNode n run))"
  by pat_completeness auto
termination
  by (relation "measures [\<lambda>(es, pending, visited, run). unvisited es pending visited,
                          \<lambda>(es, pending, visited, run). length pending]")
    (auto simp: unvisited_visit0 unvisited_visit set_pushed_targets
          simp: le_neq_implies_less [OF unvisited_drop])

definition resetSkippedSuccessDescendants :: "'v dag_run \<Rightarrow> string \<Rightarrow> 'v dag_run" where
  "resetSkippedSuccessDescendants run retriedNodeId =
     resetSkippedLoop (edges (graph run))
       (pushed_targets (\<lambda>e. from_node e = retriedNodeId \<and> condition e = ''on_success'') (edges (graph run)))
       [] run"

definition reconcileFailedDependencies :: "'v dag_run \<Rightarrow> 'v dag_run \<times> string list" where
  "reconcileFailedDependencies run =
     (let before = nodeStates run;
          run' = fold (\<lambda>(n, s) r. if s = FAILED then skipDependentNodes r n False else r) before run
      in (run', sort (map fst (filter (\<lambda>(n, s). s = SKIPPED \<and> map_of before n \<noteq> Some SKIPPED) (nodeStates run')))))"

section \<open>Loops\<close>

definition keep_latest :: "(string, 'v list) jsmap \<Rightarrow> (string, 'v list) jsmap" where
  "keep_latest box = map (\<lambda>(p, vs). (p, if 1 < length vs then [last vs] else vs)) box"

definition has_data :: "(string, 'v list) jsmap \<Rightarrow> bool" where
  "has_data box = list_ex (\<lambda>(p, vs). vs \<noteq> []) box"

definition wakeLoopSource :: "'v dag_run \<Rightarrow> string \<Rightarrow> 'v dag_run" where
  "wakeLoopSource run n =
     (if n \<notin> set (loopSources run) then run
      else if state_of run n \<noteq> Some RUNNING then run
      else case map_of (mailboxes run) n of
             None \<Rightarrow> run
           | Some box \<Rightarrow>
               if has_data box
               then run\<lparr>mailboxes := AList.update n (keep_latest box) (mailboxes run),
                        handoffedNodes := set_del n (handoffedNodes run),
                        nodeStates := AList.update n READY (nodeStates run)\<rparr>
               else run)"

definition isLoopGateway :: "'v dag_run \<Rightarrow> string \<Rightarrow> bool" where
  "isLoopGateway run n =
     (case find_node (graph run) n of
        None \<Rightarrow> False
      | Some nd \<Rightarrow> node_type nd = ''loop_gateway'' \<or> node_type nd = ''while_gateway'')"

text \<open>The latest value of every port that the loop gateway itself feeds survives the reset.\<close>

definition preservedMailbox :: "'v dag_run \<Rightarrow> string \<Rightarrow> string \<Rightarrow> (string, 'v list) jsmap" where
  "preservedMailbox run loopNodeId n =
     fold (\<lambda>e box.
             let values = (case map_of (mailboxes run) n of None \<Rightarrow> []
                           | Some prev \<Rightarrow> (case map_of prev (to_port e) of None \<Rightarrow> [] | Some vs \<Rightarrow> vs))
             in if values \<noteq> [] then AList.update (to_port e) [last values] box else box)
       (filter (\<lambda>e. from_node e = loopNodeId \<and> to_node e = n \<and> \<not> is_after_dep e) (edges (graph run))) []"

definition resetLoopBodyNode :: "string \<Rightarrow> string \<Rightarrow> 'v dag_run \<Rightarrow> 'v dag_run" where
  "resetLoopBodyNode loopNodeId n run =
     (let preserved = preservedMailbox run loopNodeId n
      in run\<lparr>
        nodeStates := AList.update n PENDING (nodeStates run),
        handoffedNodes := set_del n (handoffedNodes run),
        afterSatisfied := AList.update n
          (if has_in (afterSatisfied run) n loopNodeId then [loopNodeId] else []) (afterSatisfied run),
        inputSatisfied := AList.update n (if preserved \<noteq> [] then [loopNodeId] else []) (inputSatisfied run),
        mailboxes := AList.update n preserved (mailboxes run)\<rparr>)"

function resetLoopBodyLoop :: "dag_edge list \<Rightarrow> string \<Rightarrow> string list \<Rightarrow> string list \<Rightarrow> 'v dag_run \<Rightarrow> 'v dag_run" where
  "resetLoopBodyLoop es loopNodeId [] visited run = run"
| "resetLoopBodyLoop es loopNodeId (n # pending) visited run =
     (if n = loopNodeId \<or> n \<in> set visited then resetLoopBodyLoop es loopNodeId pending visited run
      else resetLoopBodyLoop es loopNodeId
             (pushed_targets (\<lambda>e. from_node e = n \<and> \<not> is_after_dep e \<and> to_node e \<noteq> loopNodeId) es @ pending)
             (n # visited) (resetLoopBodyNode loopNodeId n run))"
  by pat_completeness auto
termination
  by (relation "measures [\<lambda>(es, l, pending, visited, run). unvisited es pending visited,
                          \<lambda>(es, l, pending, visited, run). length pending]")
    (auto simp: unvisited_visit set_pushed_targets simp: le_neq_implies_less [OF unvisited_drop])

definition resetLoopBodyDescendants :: "'v dag_run \<Rightarrow> string \<Rightarrow> string \<Rightarrow> 'v dag_run" where
  "resetLoopBodyDescendants run loopNodeId entryNodeId =
     resetLoopBodyLoop (edges (graph run)) loopNodeId
       (pushed_targets (\<lambda>e. from_node e = entryNodeId \<and> \<not> is_after_dep e \<and> to_node e \<noteq> loopNodeId) (edges (graph run)))
       [] run"

text \<open>
  The code reads the receiver's mailbox before the reset and trims it afterwards. When the reset
  has replaced that mailbox, the trimmed object is no longer part of the run; the new mailbox
  holds one value per port, so trimming it instead changes nothing
  (\<open>keep_latest_preserved\<close> below).
\<close>

definition wakeLoopGatewayReceiver :: "'v dag_run \<Rightarrow> string \<Rightarrow> string \<Rightarrow> 'v dag_run" where
  "wakeLoopGatewayReceiver run fromNode n =
     (if \<not> isLoopGateway run fromNode then run
      else if state_of run n \<notin> {Some READY, Some COMPLETED, Some SKIPPED, Some FAILED} then run
      else case map_of (mailboxes run) n of
             None \<Rightarrow> run
           | Some box \<Rightarrow>
               if \<not> has_data box then run
               else
                 let wasReady = (state_of run n = Some READY);
                     run1 = (if wasReady then run else resetLoopBodyDescendants run fromNode n);
                     run2 = (case map_of (mailboxes run1) n of None \<Rightarrow> run1
                             | Some b \<Rightarrow> run1\<lparr>mailboxes := AList.update n (keep_latest b) (mailboxes run1)\<rparr>)
                 in if wasReady then run2
                    else run2\<lparr>handoffedNodes := set_del n (handoffedNodes run2),
                              nodeStates := AList.update n READY (nodeStates run2)\<rparr>)"

section \<open>Transitions\<close>

text \<open>
  \<open>deliver es u v\<close> is the loop that pushes the payload into the mailbox of every matched
  edge; \<open>advance ns\<close> promotes or skips every affected node in turn.
\<close>

fun deliver :: "dag_edge list \<Rightarrow> string \<Rightarrow> 'v \<Rightarrow> 'v dag_run \<Rightarrow> string jsset \<Rightarrow> string jsset
    \<Rightarrow> (engine_error \<times> 'v dag_run) + ('v dag_run \<times> string jsset \<times> string jsset)" where
  "deliver [] u v run affected receivers = Inr (run, affected, receivers)"
| "deliver (e # es) u v run affected receivers =
     bindE (pushMailbox run (to_node e) (to_port e) v)
       (\<lambda>r. deliver es u v (r\<lparr>inputSatisfied := add_in (to_node e) u (inputSatisfied r)\<rparr>)
              (set_add (to_node e) affected) (set_add (to_node e) receivers))"

definition advance :: "string list \<Rightarrow> 'v dag_run \<Rightarrow> 'v dag_run" where
  "advance ns run = fold (\<lambda>n r. skipUntakenSatisfiedBranches (tryPromote r n) n) ns run"

definition matchingDownstream :: "'v dag_run \<Rightarrow> string \<Rightarrow> string \<Rightarrow> dag_edge list" where
  "matchingDownstream run u port =
     filter (\<lambda>e. from_node e = u \<and> \<not> is_after_dep e \<and> to_node e \<noteq> [] \<and> edgeMatchesHandoff e port) (edges (graph run))"

definition matchingTerminalOutcome :: "'v dag_run \<Rightarrow> string \<Rightarrow> string \<Rightarrow> terminal_outcome option" where
  "matchingTerminalOutcome run u port =
     (case find (\<lambda>e. from_node e = u \<and> to_node e = [] \<and> edgeMatchesHandoff e port) (edges (graph run)) of
        None \<Rightarrow> None | Some e \<Rightarrow> terminal_outcome e)"

definition handoffFails :: "'v dag_run \<Rightarrow> string \<Rightarrow> string \<Rightarrow> bool" where
  "handoffFails run u port \<longleftrightarrow>
     matchingTerminalOutcome run u port = Some OutFailure
     \<or> (matchingTerminalOutcome run u port = None \<and> isFailurePort port \<and> matchingDownstream run u port = [])"

definition handoffSourceState :: "'v dag_run \<Rightarrow> string \<Rightarrow> string \<Rightarrow> NodeState" where
  "handoffSourceState run u port =
     (if handoffFails run u port then FAILED
      else if matchingTerminalOutcome run u port = Some OutCancelled then CANCELLED
      else if u \<in> set (loopSources run) then RUNNING
      else COMPLETED)"

definition handoff :: "'v dag_run \<Rightarrow> string \<Rightarrow> string \<Rightarrow> 'v
    \<Rightarrow> (engine_error \<times> 'v dag_run) + ('v dag_run \<times> transition_result)" where
  "handoff run fromNode port content =
     throwIf (\<not> map_has (nodeStates run) fromNode) (UnknownNode fromNode, run)
      (let failing = handoffFails run fromNode port;
           run1 = set_state fromNode (handoffSourceState run fromNode port)
                    (run\<lparr>handoffedNodes := set_add fromNode (handoffedNodes run)\<rparr>);
           (run2, affected0) = (if failing then (run1, []) else satisfyAfterDeps run1 fromNode)
       in bindE (deliver (matchingDownstream run fromNode port) fromNode content run2 affected0 [])
            (\<lambda>(run3, affected, receivers).
               let run4 = advance affected run3;
                   run5 = fold (\<lambda>n r. wakeLoopGatewayReceiver (wakeLoopSource r n) fromNode n) receivers run4;
                   run6 = (if failing then skipDependentNodes run5 fromNode False else run5);
                   (run7, settledNow) = reconcileSettledPendingNodes run6
               in Inr (run7,
                   \<lparr>affectedNodes = sort (fold set_add settledNow affected),
                    routedNodes = sort receivers,
                    terminalFailure = Some failing,
                    terminalOutcome = matchingTerminalOutcome run fromNode port\<rparr>)))"

definition failureRoutes :: "'v dag_run \<Rightarrow> string \<Rightarrow> dag_edge list" where
  "failureRoutes run u =
     filter (\<lambda>e. from_node e = u \<and> \<not> is_after_dep e \<and> to_node e \<noteq> []
        \<and> (condition e = ''on_failure'' \<or> condition e = ''always'')) (edges (graph run))"

definition failNode :: "'v dag_run \<Rightarrow> string \<Rightarrow> 'v
    \<Rightarrow> (engine_error \<times> 'v dag_run) + ('v dag_run \<times> transition_result)" where
  "failNode run n errorData =
     throwIf (\<not> map_has (nodeStates run) n) (UnknownNode n, run)
      (let (run2, affected0) = satisfyAfterDeps (set_state n FAILED run) n
       in bindE (deliver (failureRoutes run n) n errorData run2 affected0 [])
            (\<lambda>(run3, affected, receivers).
               let run4 = advance affected run3;
                   run5 = fold (\<lambda>m r. wakeLoopSource r m) receivers run4;
                   run6 = skipDependentNodes run5 n False;
                   (run7, settledNow) = reconcileSettledPendingNodes run6
               in Inr (run7,
                   \<lparr>affectedNodes = sort (fold set_add settledNow affected),
                    routedNodes = sort receivers,
                    terminalFailure = None,
                    terminalOutcome = None\<rparr>)))"

definition isRunTerminal :: "'v dag_run \<Rightarrow> bool" where
  "isRunTerminal run = list_all (\<lambda>(n, s).
     if s = READY then False
     else if s = WAITING_FOR_COMMAND \<or> s = WAITING_FOR_APPROVAL then False
     else if s = FAILED then True
     else if s = SKIPPED \<or> s = CANCELLED then True
     else if n \<in> set (loopSources run) \<and> s = RUNNING then True
     else if s = RUNNING \<or> s = PENDING then False
     else s = COMPLETED) (nodeStates run)"

section \<open>Rounds\<close>

record 'v carryover =
  co_fromNode :: string
  co_port :: string
  co_value :: 'v

record 'v command_input =
  ci_port :: string
  ci_value :: 'v

record 'v round_reset_input =
  resetNodeIds :: "string list"
  commandInputs :: "(string, 'v command_input) jsmap option"
  carryoverInputs :: "(string, 'v carryover list) jsmap option"

definition opt_map_get :: "('k, 'a) jsmap option \<Rightarrow> 'k \<Rightarrow> 'a option" where
  "opt_map_get m k = (case m of None \<Rightarrow> None | Some m' \<Rightarrow> map_of m' k)"

definition clearNode :: "string \<Rightarrow> 'v dag_run \<Rightarrow> 'v dag_run" where
  "clearNode n run = run\<lparr>
     nodeStates := AList.update n PENDING (nodeStates run),
     handoffedNodes := set_del n (handoffedNodes run),
     afterSatisfied := AList.update n [] (afterSatisfied run),
     inputSatisfied := AList.update n [] (inputSatisfied run),
     mailboxes := AList.update n [] (mailboxes run)\<rparr>"

definition applyCarryover :: "string \<Rightarrow> 'v carryover \<Rightarrow> 'v dag_run \<Rightarrow> 'v dag_run" where
  "applyCarryover n c run =
     (let box = (case map_of (mailboxes run) n of None \<Rightarrow> [] | Some b \<Rightarrow> b);
          values = (case map_of box (co_port c) of None \<Rightarrow> [] | Some vs \<Rightarrow> vs)
      in run\<lparr>mailboxes := AList.update n (AList.update (co_port c) (values @ [co_value c]) box) (mailboxes run),
             inputSatisfied := add_in n (co_fromNode c) (inputSatisfied run)\<rparr>)"

text \<open>A dependency outside the round counts when it handed off and did not end unsuccessfully.\<close>

definition dependencySupplied :: "'v dag_run \<Rightarrow> string list \<Rightarrow> dag_edge \<Rightarrow> bool" where
  "dependencySupplied before reset d \<longleftrightarrow>
     from_node d \<notin> set reset \<and> from_node d \<in> set (handoffedNodes before)
     \<and> state_of before (from_node d) \<noteq> Some FAILED
     \<and> state_of before (from_node d) \<noteq> Some CANCELLED
     \<and> state_of before (from_node d) \<noteq> Some SKIPPED"

definition refillNode :: "'v dag_run \<Rightarrow> string list \<Rightarrow> 'v round_reset_input \<Rightarrow> string \<Rightarrow> 'v dag_run \<Rightarrow> 'v dag_run" where
  "refillNode before reset input n run =
     (let run1 = fold (applyCarryover n)
                   (case opt_map_get (carryoverInputs input) n of None \<Rightarrow> [] | Some cs \<Rightarrow> cs) run;
          run2 = fold (\<lambda>d r. if dependencySupplied before reset d
                             then r\<lparr>afterSatisfied := add_in n (from_node d) (afterSatisfied r)\<rparr> else r)
                   (incomingAfterDeps (edges (graph run)) n) run1
      in case opt_map_get (commandInputs input) n of
           None \<Rightarrow> run2
         | Some c \<Rightarrow>
             let box = (case map_of (mailboxes run2) n of None \<Rightarrow> [] | Some b \<Rightarrow> b)
             in run2\<lparr>mailboxes := AList.update n (AList.update (ci_port c) [ci_value c] box) (mailboxes run2)\<rparr>)"

definition resetNodesForRound :: "'v dag_run \<Rightarrow> 'v round_reset_input
    \<Rightarrow> engine_error + ('v dag_run \<times> string list \<times> string list)" where
  "resetNodesForRound run input =
     (let resetNodes = sorted_set (resetNodeIds input)
      in throwIf (resetNodes = []) EmptyRound
       (case find (\<lambda>n. \<not> map_has (nodeStates run) n) resetNodes of
          Some n \<Rightarrow> Inl (UnknownNode n)
        | None \<Rightarrow>
            let run1 = fold clearNode resetNodes run;
                run2 = fold (refillNode run resetNodes input) resetNodes run1;
                run3 = fold (\<lambda>n r. tryPromote r n) resetNodes run2
            in Inr (run3, resetNodes, filter (\<lambda>n. state_of run3 n = Some READY) resetNodes)))"

definition getReadyNodes :: "'v dag_run \<Rightarrow> string list" where
  "getReadyNodes run = sort (map fst (filter (\<lambda>(n, s). s = READY) (nodeStates run)))"

definition getNodeState :: "'v dag_run \<Rightarrow> string \<Rightarrow> engine_error + NodeState" where
  "getNodeState run n = (case state_of run n of None \<Rightarrow> Inl (UnknownNode n) | Some s \<Rightarrow> Inr s)"

definition startNode :: "'v dag_run \<Rightarrow> string \<Rightarrow> engine_error + 'v dag_run" where
  "startNode run n =
     bindE (getNodeState run n)
       (\<lambda>s. throwIf (s \<noteq> READY) (CannotStart n s) (Inr (set_state n RUNNING run)))"

end
