(* ===== verification/Dag_Engine_Props.thy ===== *)
theory Dag_Engine_Props
  imports Dag_Engine Machines
begin

text \<open>
  The lemmas of the engine: what each operation leaves alone (\<open>frame\<close>), which state changes a
  transition can make (\<open>moves\<close>), the fixpoint that reconciliation reaches, and the absence of
  deadlock. The step relation of a run and its invariant interpret \<open>transition_system\<close>.
\<close>

section \<open>Frames\<close>

definition same_frame :: "'v dag_run \<Rightarrow> 'v dag_run \<Rightarrow> bool" where
  "same_frame run run' \<longleftrightarrow>
     runId run' = runId run \<and> graph run' = graph run \<and> loopSources run' = loopSources run
     \<and> map_keys (nodeStates run') = map_keys (nodeStates run)
     \<and> map_keys (afterSatisfied run') = map_keys (afterSatisfied run)
     \<and> map_keys (inputSatisfied run') = map_keys (inputSatisfied run)
     \<and> map_keys (mailboxes run') = map_keys (mailboxes run)"

lemma same_frame_refl [simp, intro]: "same_frame run run"
  by (simp add: same_frame_def)

lemma same_frame_trans [trans]: "same_frame a b \<Longrightarrow> same_frame b c \<Longrightarrow> same_frame a c"
  by (simp add: same_frame_def)

lemma same_frameD:
  "same_frame run run' \<Longrightarrow> graph run' = graph run"
  "same_frame run run' \<Longrightarrow> loopSources run' = loopSources run"
  by (simp_all add: same_frame_def)

lemma set_state_simps [simp]:
  "graph (set_state n s run) = graph run" "loopSources (set_state n s run) = loopSources run"
  "afterSatisfied (set_state n s run) = afterSatisfied run"
  "inputSatisfied (set_state n s run) = inputSatisfied run"
  "mailboxes (set_state n s run) = mailboxes run"
  "handoffedNodes (set_state n s run) = handoffedNodes run" "runId (set_state n s run) = runId run"
  by (simp_all add: set_state_def)

lemma set_state_frame: "state_of run n = Some s' \<Longrightarrow> same_frame run (set_state n s run)"
  by (simp add: same_frame_def set_state_def)

section \<open>Which states a transition can change\<close>

text \<open>
  Away from the node that hands off or fails, a transition promotes or skips pending nodes,
  skips ready ones and wakes running loop sources; \<open>moves\<close> says so for one node, and it is
  transitive, so each loop of a transition keeps it.
\<close>

definition may_move :: "bool \<Rightarrow> NodeState option \<Rightarrow> NodeState option \<Rightarrow> bool" where
  "may_move loopSource x y \<longleftrightarrow>
     y = x
     \<or> (x = Some PENDING \<and> (y = Some READY \<or> y = Some SKIPPED))
     \<or> (x = Some READY \<and> y = Some SKIPPED)
     \<or> (loopSource \<and> x = Some RUNNING \<and> (y = Some READY \<or> y = Some SKIPPED))"

lemma may_move_refl [simp, intro]: "may_move l x x"
  by (simp add: may_move_def)

lemma may_move_trans: "may_move l x y \<Longrightarrow> may_move l y z \<Longrightarrow> may_move l x z"
  by (auto simp: may_move_def)

lemma may_move_settled: "may_move l (Some s) y \<Longrightarrow> settled s \<Longrightarrow> y = Some s"
  by (auto simp: may_move_def settled_def)

definition moves :: "'v dag_run \<Rightarrow> 'v dag_run \<Rightarrow> bool" where
  "moves run run' \<longleftrightarrow> same_frame run run'
     \<and> (\<forall>n. may_move (n \<in> set (loopSources run)) (state_of run n) (state_of run' n))"

lemma moves_refl [simp, intro]: "moves run run"
  by (simp add: moves_def)

lemma moves_trans [trans]: "moves a b \<Longrightarrow> moves b c \<Longrightarrow> moves a c"
proof -
  assume ab: "moves a b" and bc: "moves b c"
  from ab have l: "loopSources b = loopSources a" by (simp add: moves_def same_frame_def)
  have "may_move (n \<in> set (loopSources a)) (state_of a n) (state_of c n)" for n
    using ab bc l by (auto simp: moves_def intro: may_move_trans [of _ _ "state_of b n"])
  then show "moves a c" using ab bc by (auto simp: moves_def intro: same_frame_trans)
qed

lemma moves_frame: "moves run run' \<Longrightarrow> same_frame run run'"
  by (simp add: moves_def)

lemma moves_settled: "moves run run' \<Longrightarrow> state_of run n = Some s \<Longrightarrow> settled s \<Longrightarrow> state_of run' n = Some s"
  unfolding moves_def by (metis may_move_settled)

lemma moves_set_state: "state_of run n = Some x \<Longrightarrow> may_move (n \<in> set (loopSources run)) (Some x) (Some s)
    \<Longrightarrow> moves run (set_state n s run)"
  by (auto simp: moves_def intro: set_state_frame)

lemma tryPromote_moves: "moves run (tryPromote run n)"
  using tryPromote_cases [of run n] by (auto simp: may_move_def intro!: moves_set_state [of _ _ PENDING])

lemma skipsTarget_moves: "skipsTarget run u sk e \<Longrightarrow> moves run (set_state (to_node e) SKIPPED run)"
  by (rule moves_set_state [where x = "the (state_of run (to_node e))"])
    (auto simp: skipsTarget_def may_move_def split: if_splits)

lemma skipOver_moves: "moves run (skipOver es run u sk)"
proof (induction es run u sk rule: skipOver.induct)
  case (2 e es run u sk)
  show ?case
  proof (cases "skipsTarget run u sk e")
    case True
    note skipsTarget_moves [OF True]
    also note "2.IH"(1) [OF True]
    also note "2.IH"(2) [OF True]
    finally show ?thesis using True by simp
  qed (use 2 in simp)
qed simp

lemma skipDependentNodes_moves: "moves run (skipDependentNodes run u sk)"
  by (simp add: skipDependentNodes_def skipOver_moves)

lemma skipUntaken_moves: "moves run (skipUntakenSatisfiedBranches run n)"
proof (cases "state_of run n = Some PENDING")
  case True
  then have "moves run (set_state n SKIPPED run)" by (rule moves_set_state) (simp add: may_move_def)
  also have "moves (set_state n SKIPPED run) (skipDependentNodes (set_state n SKIPPED run) n True)"
    by (rule skipDependentNodes_moves)
  finally show ?thesis by (simp add: skipUntakenSatisfiedBranches_def Let_def)
qed (simp add: skipUntakenSatisfiedBranches_def)

lemma reconcile_step_moves:
  assumes "state_of run n = Some PENDING"
  shows "moves run (if state_of (tryPromote run n) n = Some READY then tryPromote run n
                    else set_state n SKIPPED (tryPromote run n))"
proof (cases "tryPromote run n = run")
  case True
  with assms show ?thesis by (auto simp: may_move_def intro!: moves_set_state)
next
  case False
  with tryPromote_cases [of run n] tryPromote_moves [of run n] show ?thesis by auto
qed

lemma reconcilePass_moves: "moves run (fst (reconcilePass ns (run, affected, changed)))"
proof (induction ns arbitrary: run affected changed)
  case (Cons n ns)
  then show ?case by (auto simp: Let_def intro: moves_trans dest: reconcile_step_moves split: if_splits)
qed simp

lemma reconcileLoop_moves: "moves run (fst (reconcileLoop run affected))"
proof (induction run affected rule: reconcileLoop.induct)
  case (1 run affected)
  obtain run' affected' changed where p: "reconcilePass (map_keys (nodeStates run)) (run, affected, False) = (run', affected', changed)"
    by (cases "reconcilePass (map_keys (nodeStates run)) (run, affected, False)") auto
  then have "moves run run'" by (metis fst_conv reconcilePass_moves)
  moreover from 1 p have "changed \<Longrightarrow> moves run' (fst (reconcileLoop run' affected'))" by simp
  ultimately show ?case
    using p by (auto simp: reconcileLoop.simps [of run affected] intro: moves_trans)
qed

lemma reconcileSettledPendingNodes_moves: "moves run (fst (reconcileSettledPendingNodes run))"
  by (simp add: reconcileSettledPendingNodes_def reconcileLoop_moves)

lemma advance_moves: "moves run (advance ns run)"
proof (induction ns arbitrary: run)
  case (Cons n ns)
  have "moves run (tryPromote run n)" by (rule tryPromote_moves)
  also note skipUntaken_moves [of "tryPromote run n" n]
  also note Cons.IH [of "skipUntakenSatisfiedBranches (tryPromote run n) n"]
  finally show ?case by (simp add: advance_def)
qed (simp add: advance_def)

lemma map_keys_keep_latest [simp]: "map_keys (keep_latest box) = map_keys box"
  by (auto simp: keep_latest_def)

lemma wakeLoopSource_moves: "moves run (wakeLoopSource run n)"
  by (auto simp: wakeLoopSource_def moves_def same_frame_def may_move_def split: option.splits)

lemma wake_moves: "moves run (fold (\<lambda>n r. wakeLoopSource r n) ns run)"
  by (induction ns arbitrary: run) (auto intro: moves_trans wakeLoopSource_moves)

text \<open>Delivering content touches mailboxes and routed inputs only.\<close>

lemma map_keys_add_in [simp]: "map_keys (add_in n x m) = map_keys m"
  by (auto simp: add_in_def split: option.splits)

lemma pushMailbox_states:
  "pushMailbox run n p v = Inr run' \<Longrightarrow> same_frame run run' \<and> nodeStates run' = nodeStates run"
  by (auto simp: pushMailbox_def same_frame_def Let_def split: option.splits)

lemma deliver_states:
  "deliver es u v run a b = Inr (run', a', b') \<Longrightarrow> same_frame run run' \<and> nodeStates run' = nodeStates run"
proof (induction es arbitrary: run a b)
  case (Cons e es)
  then obtain r where r: "pushMailbox run (to_node e) (to_port e) v = Inr r"
    and d: "deliver es u v (r\<lparr>inputSatisfied := add_in (to_node e) u (inputSatisfied r)\<rparr>)
       (set_add (to_node e) a) (set_add (to_node e) b) = Inr (run', a', b')"
    by (auto simp: bind_inv)
  from pushMailbox_states [OF r] Cons.IH [OF d] show ?case by (auto simp: same_frame_def)
qed simp

lemma deliver_moves: "deliver es u v run a b = Inr (run', a', b') \<Longrightarrow> moves run run'"
  using deliver_states by (fastforce simp: moves_def)

lemma satisfyAfterDeps_states:
  "same_frame run (fst (satisfyAfterDeps run u)) \<and> nodeStates (fst (satisfyAfterDeps run u)) = nodeStates run"
proof -
  have "same_frame r0 (fst (fold (\<lambda>e (r, affected). if is_after_dep e \<and> from_node e = u
             then (r\<lparr>afterSatisfied := add_in (to_node e) u (afterSatisfied r)\<rparr>, set_add (to_node e) affected)
             else (r, affected)) es (r0, a)))
        \<and> nodeStates (fst (fold (\<lambda>e (r, affected). if is_after_dep e \<and> from_node e = u
             then (r\<lparr>afterSatisfied := add_in (to_node e) u (afterSatisfied r)\<rparr>, set_add (to_node e) affected)
             else (r, affected)) es (r0, a))) = nodeStates r0" for r0 :: "'a dag_run" and a es
  proof (induction es arbitrary: r0 a)
    case (Cons e es)
    have "same_frame r0 (r0\<lparr>afterSatisfied := add_in (to_node e) u (afterSatisfied r0)\<rparr>)"
      by (simp add: same_frame_def)
    with Cons.IH show ?case by (auto intro: same_frame_trans)
  qed simp
  then show ?thesis by (simp add: satisfyAfterDeps_def)
qed

lemma satisfyAfterDeps_moves: "moves run (fst (satisfyAfterDeps run u))"
  using satisfyAfterDeps_states [of run u] by (simp add: moves_def)

lemmas engine_frames [frame] =
  tryPromote_moves [THEN moves_frame] skipDependentNodes_moves [THEN moves_frame]
  skipUntaken_moves [THEN moves_frame] reconcileSettledPendingNodes_moves [THEN moves_frame]
  advance_moves [THEN moves_frame] wakeLoopSource_moves [THEN moves_frame]

section \<open>The fixpoint of reconciliation\<close>

definition reconciled :: "'v dag_run \<Rightarrow> bool" where
  "reconciled run \<longleftrightarrow> (\<forall>n. state_of run n = Some PENDING \<longrightarrow> \<not> dependencies_settled run n)"

lemma reconcilePass_changed: "snd (snd (reconcilePass ns (run, affected, True)))"
  by (induction ns arbitrary: run affected) (auto simp: Let_def)

lemma reconcilePass_unchanged:
  "reconcilePass ns (run, affected, False) = (run', affected', False) \<Longrightarrow>
   run' = run \<and> affected' = affected
   \<and> (\<forall>n \<in> set ns. state_of run n = Some PENDING \<longrightarrow> \<not> dependencies_settled run n)"
proof (induction ns arbitrary: affected)
  case (Cons n ns)
  have "\<not> (state_of run n = Some PENDING \<and> dependencies_settled run n)"
  proof
    assume "state_of run n = Some PENDING \<and> dependencies_settled run n"
    with Cons.prems obtain r a where "reconcilePass ns (r, a, True) = (run', affected', False)"
      by (auto simp: Let_def split: if_splits)
    with reconcilePass_changed [of ns r a] show False by simp
  qed
  with Cons show ?case by auto
qed simp

lemma state_of_key: "state_of run n = Some s \<Longrightarrow> n \<in> set (map_keys (nodeStates run))"
  by (force dest: map_of_SomeD)

lemma reconcileLoop_reconciled: "reconciled (fst (reconcileLoop run affected))"
proof (induction run affected rule: reconcileLoop.induct)
  case (1 run affected)
  obtain run' affected' changed where p: "reconcilePass (map_keys (nodeStates run)) (run, affected, False) = (run', affected', changed)"
    by (cases "reconcilePass (map_keys (nodeStates run)) (run, affected, False)") auto
  show ?case
  proof (cases changed)
    case True
    with 1 p show ?thesis by (simp add: reconcileLoop.simps [of run affected])
  next
    case False
    with p have u: "run' = run"
        "\<forall>n \<in> set (map_keys (nodeStates run)). state_of run n = Some PENDING \<longrightarrow> \<not> dependencies_settled run n"
      using reconcilePass_unchanged [of "map_keys (nodeStates run)" run affected run' affected'] by simp_all
    have "reconciled run"
      unfolding reconciled_def using u(2) state_of_key by blast
    with False p u(1) show ?thesis by (simp add: reconcileLoop.simps [of run affected])
  qed
qed

lemma reconcileSettledPendingNodes_reconciled: "reconciled (fst (reconcileSettledPendingNodes run))"
  by (simp add: reconcileSettledPendingNodes_def reconcileLoop_reconciled)

section \<open>The two transitions in stages\<close>

definition handoff_start :: "'v dag_run \<Rightarrow> string \<Rightarrow> string \<Rightarrow> 'v dag_run" where
  "handoff_start run u port =
     set_state u (handoffSourceState run u port) (run\<lparr>handoffedNodes := set_add u (handoffedNodes run)\<rparr>)"

lemma state_of_handoff_start [simp]:
  "state_of (handoff_start run u port) n = (if n = u then Some (handoffSourceState run u port) else state_of run n)"
  by (simp add: handoff_start_def set_state_def)

lemma graph_handoff_start [simp]: "graph (handoff_start run u port) = graph run"
    "loopSources (handoff_start run u port) = loopSources run"
  by (simp_all add: handoff_start_def)

lemma handoff_stages:
  assumes "handoff run u port v = Inr (run', res)"
  obtains run3 affected receivers run5 where
    "map_has (nodeStates run) u"
    "moves (handoff_start run u port) run3"
    "deliver (matchingDownstream run u port) u v
       (if handoffFails run u port then handoff_start run u port else fst (satisfyAfterDeps (handoff_start run u port) u))
       (if handoffFails run u port then [] else snd (satisfyAfterDeps (handoff_start run u port) u)) [] = Inr (run3, affected, receivers)"
    "run5 = fold (\<lambda>n r. wakeLoopGatewayReceiver (wakeLoopSource r n) u n) receivers (advance affected run3)"
    "moves run5 run'" "reconciled run'"
proof -
  let ?start = "handoff_start run u port"
  let ?run2 = "if handoffFails run u port then ?start else fst (satisfyAfterDeps ?start u)"
  let ?aff2 = "if handoffFails run u port then [] else snd (satisfyAfterDeps ?start u)"
  from assms obtain run3 affected receivers where known: "map_has (nodeStates run) u"
    and d: "deliver (matchingDownstream run u port) u v ?run2 ?aff2 [] = Inr (run3, affected, receivers)"
    and r: "run' = fst (reconcileSettledPendingNodes
       (if handoffFails run u port
        then skipDependentNodes (fold (\<lambda>n r. wakeLoopGatewayReceiver (wakeLoopSource r n) u n) receivers (advance affected run3)) u False
        else fold (\<lambda>n r. wakeLoopGatewayReceiver (wakeLoopSource r n) u n) receivers (advance affected run3)))"
    by (auto simp: handoff_def handoff_start_def bind_inv Let_def case_prod_beta split: if_splits)
  have "moves ?start ?run2" by (simp add: satisfyAfterDeps_moves)
  also have "moves ?run2 run3" using d by (rule deliver_moves)
  finally have m: "moves ?start run3" .
  let ?run5 = "fold (\<lambda>n r. wakeLoopGatewayReceiver (wakeLoopSource r n) u n) receivers (advance affected run3)"
  have "moves ?run5 (if handoffFails run u port then skipDependentNodes ?run5 u False else ?run5)"
    by (simp add: skipDependentNodes_moves)
  also note reconcileSettledPendingNodes_moves
  finally have "moves ?run5 run'" using r by simp
  moreover have "reconciled run'" unfolding r by (rule reconcileSettledPendingNodes_reconciled)
  ultimately show thesis using that known m d by blast
qed

lemma wakeLoopGatewayReceiver_plain: "\<not> isLoopGateway run u \<Longrightarrow> wakeLoopGatewayReceiver run u n = run"
  by (simp add: wakeLoopGatewayReceiver_def)

lemma isLoopGateway_frame: "same_frame run run' \<Longrightarrow> isLoopGateway run' u = isLoopGateway run u"
  by (simp add: isLoopGateway_def same_frame_def)

lemma wake_receivers_moves:
  "\<not> isLoopGateway run u \<Longrightarrow> moves run (fold (\<lambda>n r. wakeLoopGatewayReceiver (wakeLoopSource r n) u n) ns run)"
proof (induction ns arbitrary: run)
  case (Cons n ns)
  have m: "moves run (wakeLoopSource run n)" by (rule wakeLoopSource_moves)
  with Cons.prems have "\<not> isLoopGateway (wakeLoopSource run n) u"
    using isLoopGateway_frame [OF moves_frame [OF m], of u] by simp
  with Cons.IH [of "wakeLoopSource run n"] m show ?case
    by (auto simp: wakeLoopGatewayReceiver_plain intro: moves_trans)
qed simp

lemma handoff_moves:
  assumes "handoff run u port v = Inr (run', res)" and "\<not> isLoopGateway run u"
  shows "moves (handoff_start run u port) run'"
  using assms(1)
proof (rule handoff_stages)
  fix run3 affected receivers run5
  assume m: "moves (handoff_start run u port) run3"
    and r5: "run5 = fold (\<lambda>n r. wakeLoopGatewayReceiver (wakeLoopSource r n) u n) receivers (advance affected run3)"
    and m5: "moves run5 run'"
  note m
  also have m3: "moves run3 (advance affected run3)" by (rule advance_moves)
  finally have m4: "moves (handoff_start run u port) (advance affected run3)" .
  have "\<not> isLoopGateway (advance affected run3) u"
    using moves_frame [OF m4] assms(2) by (simp add: isLoopGateway_def same_frame_def)
  then have "moves (advance affected run3) run5" unfolding r5 by (rule wake_receivers_moves)
  with m4 m5 show ?thesis by (blast intro: moves_trans)
qed

lemma failNode_moves:
  assumes "failNode run u e = Inr (run', res)"
  shows "moves (set_state u FAILED run) run'" and "reconciled run'" and "map_has (nodeStates run) u"
proof -
  let ?start = "set_state u FAILED run"
  from assms obtain run3 affected receivers where known: "map_has (nodeStates run) u"
    and d: "deliver (failureRoutes run u) u e (fst (satisfyAfterDeps ?start u)) (snd (satisfyAfterDeps ?start u)) []
              = Inr (run3, affected, receivers)"
    and r: "run' = fst (reconcileSettledPendingNodes (skipDependentNodes
       (fold (\<lambda>m r. wakeLoopSource r m) receivers (advance affected run3)) u False))"
    by (auto simp: failNode_def bind_inv Let_def case_prod_beta)
  have "moves ?start (fst (satisfyAfterDeps ?start u))" by (rule satisfyAfterDeps_moves)
  also note deliver_moves [OF d]
  also note advance_moves [of run3 affected]
  also note wake_moves
  also note skipDependentNodes_moves
  also note reconcileSettledPendingNodes_moves
  finally show "moves ?start run'" unfolding r .
  show "reconciled run'" unfolding r by (rule reconcileSettledPendingNodes_reconciled)
  show "map_has (nodeStates run) u" by (rule known)
qed

section \<open>Mailboxes a loop gateway preserves\<close>

text \<open>A preserved mailbox holds one value per port, so trimming it changes nothing.\<close>

definition latest_only :: "(string, 'v list) jsmap \<Rightarrow> bool" where
  "latest_only box \<longleftrightarrow> (\<forall>(p, vs) \<in> set box. length vs \<le> 1)"

lemma keep_latest_id: "latest_only box \<Longrightarrow> keep_latest box = box"
  by (auto simp: latest_only_def keep_latest_def intro!: map_idI)

lemma latest_only_update: "latest_only box \<Longrightarrow> latest_only (AList.update p [v] box)"
  by (induction box) (auto simp: latest_only_def)

lemma keep_latest_preserved: "keep_latest (preservedMailbox run l n) = preservedMailbox run l n"
  unfolding preservedMailbox_def Let_def
  by (rule keep_latest_id, rule fold_inv [where P = latest_only])
    (simp_all add: latest_only_update latest_only_def [of "[]"])

section \<open>Well-formed runs\<close>

definition graph_closed :: "dag_graph \<Rightarrow> bool" where
  "graph_closed g \<longleftrightarrow> (\<forall>e \<in> set (edges g). from_node e \<in> set (node_ids g) \<and> (to_node e \<noteq> [] \<longrightarrow> to_node e \<in> set (node_ids g)))"

definition keys_ok :: "string set \<Rightarrow> (string, 'b) jsmap \<Rightarrow> bool" where
  "keys_ok S m \<longleftrightarrow> distinct (map_keys m) \<and> set (map_keys m) = S"

definition run_ok :: "'v dag_run \<Rightarrow> bool" where
  "run_ok run \<longleftrightarrow> graph_closed (graph run)
     \<and> keys_ok (set (node_ids (graph run))) (nodeStates run)
     \<and> keys_ok (set (node_ids (graph run))) (afterSatisfied run)
     \<and> keys_ok (set (node_ids (graph run))) (inputSatisfied run)
     \<and> keys_ok (set (node_ids (graph run))) (mailboxes run)"

lemma keys_ok_update [keys]: "keys_ok S m \<Longrightarrow> n \<in> S \<Longrightarrow> keys_ok S (AList.update n v m)"
  by (auto simp: keys_ok_def AList.update_keys)

lemma keys_ok_get: "keys_ok S m \<Longrightarrow> n \<in> S \<longleftrightarrow> (\<exists>v. map_of m n = Some v)"
  unfolding keys_ok_def by (metis map_of_key map_of_eq_None_iff option.distinct(1) list.set_map)

lemma keys_ok_mem: "keys_ok S m \<Longrightarrow> map_of m n = Some v \<Longrightarrow> n \<in> S"
  by (simp add: keys_ok_get)

lemma run_ok_frame: "same_frame run run' \<Longrightarrow> run_ok run \<Longrightarrow> run_ok run'"
  by (simp add: same_frame_def run_ok_def keys_ok_def)

lemma run_ok_moves: "moves run run' \<Longrightarrow> run_ok run \<Longrightarrow> run_ok run'"
  by (blast intro: run_ok_frame moves_frame)

lemma run_ok_state: "run_ok run \<Longrightarrow> n \<in> set (node_ids (graph run)) \<longleftrightarrow> (\<exists>s. state_of run n = Some s)"
  by (simp add: run_ok_def keys_ok_get)

lemma run_ok_known: "run_ok run \<Longrightarrow> map_has (nodeStates run) n \<longleftrightarrow> n \<in> set (node_ids (graph run))"
  using run_ok_state [of run n] by (simp add: map_has_def)

lemma run_ok_set_state [keys]:
  "run_ok run \<Longrightarrow> n \<in> set (node_ids (graph run)) \<Longrightarrow> run_ok (set_state n s run)"
  by (simp add: run_ok_def set_state_def keys_ok_update)

lemma run_ok_create: "graph_closed (pgraph p) \<Longrightarrow> run_ok (createDAGRun p rid :: 'v dag_run)"
proof -
  assume closed: "graph_closed (pgraph p)"
  let ?f = "\<lambda>nd run. run\<lparr>
             nodeStates := AList.update (node_id nd) (initialState (pgraph p) (node_id nd)) (nodeStates run),
             afterSatisfied := AList.update (node_id nd) [] (afterSatisfied run),
             inputSatisfied := AList.update (node_id nd) [] (inputSatisfied run),
             mailboxes := AList.update (node_id nd) [] (mailboxes run)\<rparr> :: 'v dag_run"
  have keys: "graph (fold ?f nds r) = graph r
      \<and> keys_ok (S \<union> node_id ` set nds) (nodeStates (fold ?f nds r))
      \<and> keys_ok (S \<union> node_id ` set nds) (afterSatisfied (fold ?f nds r))
      \<and> keys_ok (S \<union> node_id ` set nds) (inputSatisfied (fold ?f nds r))
      \<and> keys_ok (S \<union> node_id ` set nds) (mailboxes (fold ?f nds r))"
    if "keys_ok S (nodeStates r)" "keys_ok S (afterSatisfied r)" "keys_ok S (inputSatisfied r)" "keys_ok S (mailboxes r)"
    for nds S r
    using that
  proof (induction nds arbitrary: S r)
    case (Cons nd nds)
    have upd: "keys_ok (insert (node_id nd) S) (AList.update (node_id nd) v m)" if "keys_ok S m" for v and m :: "(string, 'b) jsmap"
      using that by (auto simp: keys_ok_def AList.update_keys)
    from Cons.prems have "keys_ok (insert (node_id nd) S) (nodeStates (?f nd r))"
      "keys_ok (insert (node_id nd) S) (afterSatisfied (?f nd r))"
      "keys_ok (insert (node_id nd) S) (inputSatisfied (?f nd r))"
      "keys_ok (insert (node_id nd) S) (mailboxes (?f nd r))"
      by (simp_all add: upd)
    from Cons.IH [OF this] show ?case by simp
  qed simp
  let ?r0 = "\<lparr>runId = rid, graph = pgraph p, loopSources = remdups (loop_sources p), nodeStates = [],
        handoffedNodes = [], afterSatisfied = [], inputSatisfied = [], mailboxes = []\<rparr> :: 'v dag_run"
  from keys [of "{}" ?r0 "nodes (pgraph p)"] closed show ?thesis
    by (simp add: createDAGRun_def run_ok_def keys_ok_def node_ids_def)
qed

lemma resetLoopBodyNode_ok:
  "run_ok run \<Longrightarrow> n \<in> set (node_ids (graph run)) \<Longrightarrow> run_ok (resetLoopBodyNode l n run) \<and> graph (resetLoopBodyNode l n run) = graph run"
  by (simp add: run_ok_def resetLoopBodyNode_def Let_def keys_ok_update)

lemma pushed_targets_known:
  "graph_closed g \<Longrightarrow> es = edges g \<Longrightarrow> set (pushed_targets P es) \<subseteq> set (node_ids g)"
  by (auto simp: pushed_targets_def graph_closed_def)

lemma resetLoopBodyLoop_ok:
  "run_ok run \<Longrightarrow> es = edges (graph run) \<Longrightarrow> set pending \<subseteq> set (node_ids (graph run)) \<Longrightarrow>
   run_ok (resetLoopBodyLoop es l pending visited run)
   \<and> graph (resetLoopBodyLoop es l pending visited run) = graph run"
proof (induction es l pending visited run rule: resetLoopBodyLoop.induct)
  case (2 es l n pending visited run)
  show ?case
  proof (cases "n = l \<or> n \<in> set visited")
    case False
    from "2.prems" have ok: "run_ok (resetLoopBodyNode l n run)" "graph (resetLoopBodyNode l n run) = graph run"
      by (simp_all add: resetLoopBodyNode_ok)
    moreover have "set (pushed_targets (\<lambda>e. from_node e = n \<and> \<not> is_after_dep e \<and> to_node e \<noteq> l) es) \<subseteq> set (node_ids (graph run))"
      using "2.prems" by (intro pushed_targets_known) (simp_all add: run_ok_def)
    ultimately show ?thesis using "2.IH"(2) [OF False] "2.prems" False by simp
  qed (use 2 in simp)
qed simp

lemma resetSkippedLoop_ok:
  "run_ok run \<Longrightarrow> es = edges (graph run) \<Longrightarrow> set pending \<subseteq> set (node_ids (graph run)) \<Longrightarrow>
   run_ok (resetSkippedLoop es pending visited run)"
proof (induction es pending visited run rule: resetSkippedLoop.induct)
  case (2 es n pending visited run)
  have "set (pushed_targets (\<lambda>e. from_node e = n) es) \<subseteq> set (node_ids (graph run))"
    using "2.prems" by (intro pushed_targets_known) (simp_all add: run_ok_def)
  moreover from "2.prems" have "run_ok (resetSkippedNode n run)"
    by (simp add: run_ok_def resetSkippedNode_def keys_ok_update)
  ultimately show ?case using 2 by simp
qed simp

lemma run_ok_mailboxes:
  "run_ok run \<Longrightarrow> map_of (mailboxes run) n = Some b \<Longrightarrow> run_ok (run\<lparr>mailboxes := AList.update n c (mailboxes run)\<rparr>)"
  by (simp add: run_ok_def) (blast intro: keys_ok_update keys_ok_mem)

lemma run_ok_handoffed [simp]: "run_ok (run\<lparr>handoffedNodes := h\<rparr>) = run_ok run"
  by (simp add: run_ok_def)

definition trim_mailbox :: "string \<Rightarrow> 'v dag_run \<Rightarrow> 'v dag_run" where
  "trim_mailbox n run = (case map_of (mailboxes run) n of None \<Rightarrow> run
     | Some b \<Rightarrow> run\<lparr>mailboxes := AList.update n (keep_latest b) (mailboxes run)\<rparr>)"

lemma trim_mailbox_ok: "run_ok run \<Longrightarrow> run_ok (trim_mailbox n run)"
  by (simp add: trim_mailbox_def run_ok_mailboxes split: option.splits)

lemma graph_trim_mailbox [simp]: "graph (trim_mailbox n run) = graph run"
  by (simp add: trim_mailbox_def split: option.splits)

lemma wakeLoopGatewayReceiver_cases:
  "wakeLoopGatewayReceiver run u n = run
   \<or> (state_of run n = Some READY \<and> wakeLoopGatewayReceiver run u n = trim_mailbox n run)
   \<or> (\<exists>s. state_of run n = Some s \<and> settled s \<and> wakeLoopGatewayReceiver run u n =
        set_state n READY (trim_mailbox n (resetLoopBodyDescendants run u n)
          \<lparr>handoffedNodes := set_del n (handoffedNodes (trim_mailbox n (resetLoopBodyDescendants run u n)))\<rparr>))"
  by (auto simp: wakeLoopGatewayReceiver_def trim_mailbox_def [symmetric] Let_def settled_def set_state_def
      split: option.splits)

lemma resetLoopBodyDescendants_ok:
  "run_ok run \<Longrightarrow> run_ok (resetLoopBodyDescendants run u n) \<and> graph (resetLoopBodyDescendants run u n) = graph run"
  unfolding resetLoopBodyDescendants_def
  by (intro resetLoopBodyLoop_ok pushed_targets_known) (simp_all add: run_ok_def)

lemma wakeLoopGatewayReceiver_ok:
  assumes "run_ok run"
  shows "run_ok (wakeLoopGatewayReceiver run u n) \<and> graph (wakeLoopGatewayReceiver run u n) = graph run"
  using wakeLoopGatewayReceiver_cases [of run u n]
proof (elim disjE exE conjE)
  fix s
  let ?r = "trim_mailbox n (resetLoopBodyDescendants run u n)"
  assume s: "state_of run n = Some s" and eq: "wakeLoopGatewayReceiver run u n =
      set_state n READY (?r\<lparr>handoffedNodes := set_del n (handoffedNodes ?r)\<rparr>)"
  from assms have "run_ok ?r \<and> graph ?r = graph run" by (simp add: resetLoopBodyDescendants_ok trim_mailbox_ok)
  with run_ok_state [OF assms, of n] s show ?thesis unfolding eq by (simp add: run_ok_set_state)
qed (simp_all add: assms trim_mailbox_ok)

lemma wake_receivers_ok:
  "run_ok run \<Longrightarrow> run_ok (fold (\<lambda>n r. wakeLoopGatewayReceiver (wakeLoopSource r n) u n) ns run)"
proof (induction ns arbitrary: run)
  case (Cons n ns)
  then have "run_ok (wakeLoopSource run n)" by (blast intro: run_ok_moves wakeLoopSource_moves)
  then have "run_ok (wakeLoopGatewayReceiver (wakeLoopSource run n) u n)"
    by (simp add: wakeLoopGatewayReceiver_ok)
  then show ?case using Cons.IH by simp
qed simp

lemma handoff_ok:
  assumes "handoff run u port v = Inr (run', res)" and ok: "run_ok run"
  shows "run_ok run'"
  using assms(1)
proof (rule handoff_stages)
  fix run3 affected receivers run5
  assume known: "map_has (nodeStates run) u"
    and m: "moves (handoff_start run u port) run3"
    and r5: "run5 = fold (\<lambda>n r. wakeLoopGatewayReceiver (wakeLoopSource r n) u n) receivers (advance affected run3)"
    and m5: "moves run5 run'"
  from known ok have "run_ok (handoff_start run u port)"
    unfolding handoff_start_def by (intro run_ok_set_state) (simp_all add: run_ok_known)
  then have "run_ok run3" using m by (rule run_ok_moves [rotated])
  then have "run_ok (advance affected run3)" by (rule run_ok_moves [OF advance_moves])
  then have "run_ok run5" unfolding r5 by (rule wake_receivers_ok)
  then show ?thesis using m5 by (rule run_ok_moves [rotated])
qed

lemma failNode_ok: "failNode run u e = Inr (run', res) \<Longrightarrow> run_ok run \<Longrightarrow> run_ok run'"
  by (metis failNode_moves(1,3) run_ok_known run_ok_moves run_ok_set_state)

lemma startNode_Inr: "startNode run n = Inr run' \<longleftrightarrow> state_of run n = Some READY \<and> run' = set_state n RUNNING run"
  by (auto simp: startNode_def getNodeState_def bind_inv split: option.splits)

lemma startNode_ok: "startNode run n = Inr run' \<Longrightarrow> run_ok run \<Longrightarrow> run_ok run'"
  unfolding startNode_Inr using run_ok_state by (blast intro: run_ok_set_state)

lemma clearNode_ok: "run_ok run \<Longrightarrow> n \<in> set (node_ids (graph run)) \<Longrightarrow> run_ok (clearNode n run) \<and> graph (clearNode n run) = graph run"
  by (simp add: run_ok_def clearNode_def keys_ok_update)

lemma fold_ok:
  assumes "\<And>x r. x \<in> set xs \<Longrightarrow> run_ok r \<Longrightarrow> graph r = g \<Longrightarrow> run_ok (f x r) \<and> graph (f x r) = g"
    and "run_ok run" and "graph run = g"
  shows "run_ok (fold f xs run) \<and> graph (fold f xs run) = g"
  using assms by (induction xs arbitrary: run) auto

lemma run_ok_add_in: "run_ok run \<Longrightarrow> run_ok (run\<lparr>afterSatisfied := add_in n x (afterSatisfied run)\<rparr>)"
  by (simp add: run_ok_def keys_ok_def)

lemma applyCarryover_ok:
  "run_ok run \<Longrightarrow> n \<in> set (node_ids (graph run)) \<Longrightarrow> run_ok (applyCarryover n c run) \<and> graph (applyCarryover n c run) = graph run"
  by (auto simp: run_ok_def applyCarryover_def Let_def keys_ok_update) (simp add: keys_ok_def)

lemma refillNode_ok:
  assumes "run_ok run" and known: "n \<in> set (node_ids (graph run))"
  shows "run_ok (refillNode before reset input n run) \<and> graph (refillNode before reset input n run) = graph run"
proof -
  define cs where "cs = (case opt_map_get (carryoverInputs input) n of None \<Rightarrow> [] | Some cs \<Rightarrow> cs)"
  define run1 where "run1 = fold (applyCarryover n) cs run"
  define run2 where "run2 = fold (\<lambda>d r. if dependencySupplied before reset d
       then r\<lparr>afterSatisfied := add_in n (from_node d) (afterSatisfied r)\<rparr> else r)
       (incomingAfterDeps (edges (graph run)) n) run1"
  have r1: "run_ok run1 \<and> graph run1 = graph run"
    unfolding run1_def using assms by (intro fold_ok) (auto simp: applyCarryover_ok)
  then have r2: "run_ok run2 \<and> graph run2 = graph run"
    unfolding run2_def by (intro fold_ok) (auto intro: run_ok_add_in)
  then have "run_ok (run2\<lparr>mailboxes := AList.update n v (mailboxes run2)\<rparr>)" for v
    using known by (auto simp: run_ok_def intro: keys_ok_update)
  with r2 show ?thesis
    unfolding refillNode_def cs_def [symmetric] run1_def [symmetric] Let_def
    by (simp add: run2_def [symmetric] split: option.splits)
qed

lemma tryPromote_ok: "run_ok run \<Longrightarrow> run_ok (tryPromote run n) \<and> graph (tryPromote run n) = graph run"
  using run_ok_moves [OF tryPromote_moves] same_frameD(1) [OF moves_frame [OF tryPromote_moves]] by blast

lemma resetNodesForRound_ok:
  assumes "resetNodesForRound run input = Inr (run', resetNodes, ready)" and ok: "run_ok run"
  shows "run_ok run'"
proof -
  let ?ns = "sorted_set (resetNodeIds input)"
  from assms(1) have known: "\<forall>n \<in> set ?ns. map_has (nodeStates run) n"
    and r: "run' = fold (\<lambda>n r. tryPromote r n) ?ns (fold (refillNode run ?ns input) ?ns (fold clearNode ?ns run))"
    by (auto simp: resetNodesForRound_def Let_def bind_inv find_None_iff split: option.splits)
  from known ok have ids: "\<forall>n \<in> set ?ns. n \<in> set (node_ids (graph run))" by (simp add: run_ok_known)
  have "run_ok (fold clearNode ?ns run) \<and> graph (fold clearNode ?ns run) = graph run"
    using ids ok by (intro fold_ok) (simp_all add: clearNode_ok)
  then have "run_ok (fold (refillNode run ?ns input) ?ns (fold clearNode ?ns run))
      \<and> graph (fold (refillNode run ?ns input) ?ns (fold clearNode ?ns run)) = graph run"
    using ids by (intro fold_ok) (simp_all add: refillNode_ok)
  then have "run_ok run' \<and> graph run' = graph run"
    unfolding r by (intro fold_ok) (simp_all add: tryPromote_ok)
  then show ?thesis ..
qed

lemma resetSkippedSuccessDescendants_ok: "run_ok run \<Longrightarrow> run_ok (resetSkippedSuccessDescendants run n)"
  unfolding resetSkippedSuccessDescendants_def
  by (intro resetSkippedLoop_ok pushed_targets_known) (simp_all add: run_ok_def)

lemma reconcileFailedDependencies_moves: "moves run (fst (reconcileFailedDependencies run))"
proof -
  have "moves r (fold (\<lambda>(n, s) r. if s = FAILED then skipDependentNodes r n False else r) xs r)"
    for xs and r :: "'a dag_run"
    by (rule fold_rel) (auto intro: moves_trans skipDependentNodes_moves)
  then show ?thesis by (simp add: reconcileFailedDependencies_def Let_def)
qed

section \<open>Runs as a transition system\<close>

inductive engine_step :: "'v dag_run \<Rightarrow> 'v dag_run \<Rightarrow> bool" where
  step_handoff: "handoff run u port v = Inr (run', res) \<Longrightarrow> engine_step run run'"
| step_fail: "failNode run u e = Inr (run', res) \<Longrightarrow> engine_step run run'"
| step_start: "startNode run n = Inr run' \<Longrightarrow> engine_step run run'"
| step_round: "resetNodesForRound run input = Inr (run', resetNodes, ready) \<Longrightarrow> engine_step run run'"
| step_retry: "engine_step run (resetSkippedSuccessDescendants run n)"
| step_reconcile: "engine_step run (fst (reconcileSettledPendingNodes run))"
| step_failed_deps: "engine_step run (fst (reconcileFailedDependencies run))"

inductive engine_init :: "'v dag_run \<Rightarrow> bool" where
  "graph_closed (pgraph p) \<Longrightarrow> engine_init (createDAGRun p rid)"

interpretation engine: transition_system "engine_init :: 'v dag_run \<Rightarrow> bool" engine_step run_ok
proof unfold_locales
  show "engine_init s \<Longrightarrow> run_ok s" for s :: "'v dag_run"
    by (auto elim!: engine_init.cases intro: run_ok_create)
  show "engine_step s t \<Longrightarrow> run_ok s \<Longrightarrow> run_ok t" for s t :: "'v dag_run"
    by (induction rule: engine_step.induct)
      (blast intro: handoff_ok failNode_ok startNode_ok resetNodesForRound_ok
        resetSkippedSuccessDescendants_ok run_ok_moves reconcileSettledPendingNodes_moves
        reconcileFailedDependencies_moves)+
qed

end
