(* ===== verification/Reachability.thy ===== *)
theory Reachability
  imports Prelude
begin

text \<open>
  Several loops of the program walk a graph with a worklist and a set of visited nodes: the
  resets of the engine, the reachability check of the validator. They process exactly the nodes
  that a path reaches from the worklist without touching what was visited before;
  \<open>avoiding\<close> is that set, and \<open>avoiding_visit\<close> the equation one iteration needs.
\<close>

definition avoiding :: "('a \<Rightarrow> 'a \<Rightarrow> bool) \<Rightarrow> 'a set \<Rightarrow> 'a set \<Rightarrow> 'a set" where
  "avoiding R V S = {y. \<exists>x \<in> S - V. (\<lambda>a b. R a b \<and> b \<notin> V)\<^sup>*\<^sup>* x y}"

lemma avoiding_empty [simp]: "avoiding R V {} = {}"
  by (simp add: avoiding_def)

lemma avoiding_union: "avoiding R V (S \<union> T) = avoiding R V S \<union> avoiding R V T"
  by (auto simp: avoiding_def)

lemma avoiding_visited [simp]: "n \<in> V \<Longrightarrow> avoiding R V (insert n S) = avoiding R V S"
  by (auto simp: avoiding_def)

lemma avoiding_disjoint: "avoiding R V S \<inter> V = {}"
proof -
  have "y \<notin> V" if "(\<lambda>a b. R a b \<and> b \<notin> V)\<^sup>*\<^sup>* x y" "x \<notin> V" for x y
    using that by (induction rule: rtranclp_induct) auto
  then show ?thesis by (auto simp: avoiding_def)
qed

lemma avoiding_start: "x \<in> S \<Longrightarrow> x \<notin> V \<Longrightarrow> x \<in> avoiding R V S"
  by (auto simp: avoiding_def)

lemma avoiding_next: "y \<in> avoiding R V S \<Longrightarrow> R y z \<Longrightarrow> z \<notin> V \<Longrightarrow> z \<in> avoiding R V S"
  by (auto simp: avoiding_def intro: rtranclp.rtrancl_into_rtrancl)

lemma avoiding_least:
  assumes "\<And>x. x \<in> S \<Longrightarrow> x \<notin> V \<Longrightarrow> x \<in> T" and "\<And>y z. y \<in> T \<Longrightarrow> R y z \<Longrightarrow> z \<notin> V \<Longrightarrow> z \<in> T"
  shows "avoiding R V S \<subseteq> T"
proof
  fix y assume "y \<in> avoiding R V S"
  then obtain x where x: "x \<in> S" "x \<notin> V" "(\<lambda>a b. R a b \<and> b \<notin> V)\<^sup>*\<^sup>* x y" by (auto simp: avoiding_def)
  from x(3) show "y \<in> T"
    by (induction rule: rtranclp_induct) (use assms x in blast)+
qed

lemma avoiding_antimono: "V \<subseteq> W \<Longrightarrow> avoiding R W S \<subseteq> avoiding R V S"
  by (rule avoiding_least) (auto intro: avoiding_start avoiding_next)

lemma avoiding_visit:
  assumes n: "n \<notin> V" and succ: "\<And>m. R n m \<Longrightarrow> m \<in> V \<or> m = n \<or> m \<in> N" "\<And>m. m \<in> N \<Longrightarrow> R n m"
  shows "avoiding R V (insert n S) = insert n (avoiding R (insert n V) (N \<union> S))"
proof
  show "avoiding R V (insert n S) \<subseteq> insert n (avoiding R (insert n V) (N \<union> S))"
  proof (rule avoiding_least)
    fix y z assume "y \<in> insert n (avoiding R (insert n V) (N \<union> S))" "R y z" "z \<notin> V"
    then show "z \<in> insert n (avoiding R (insert n V) (N \<union> S))"
      using succ(1) [of z] by (cases "z = n"; cases "y = n") (auto intro: avoiding_start avoiding_next)
  qed (auto intro: avoiding_start)
  have "avoiding R (insert n V) (N \<union> S) \<subseteq> avoiding R V (insert n S)"
  proof (rule avoiding_least)
    fix x assume "x \<in> N \<union> S" "x \<notin> insert n V"
    then show "x \<in> avoiding R V (insert n S)"
      using succ(2) [of x] n by (auto intro: avoiding_start avoiding_next [of n])
  qed (auto intro: avoiding_next)
  then show "insert n (avoiding R (insert n V) (N \<union> S)) \<subseteq> avoiding R V (insert n S)"
    using n by (auto intro: avoiding_start)
qed

lemma avoiding_leaf: "n \<notin> V \<Longrightarrow> (\<And>m. \<not> R n m) \<Longrightarrow> avoiding R V (insert n S) = insert n (avoiding R (insert n V) S)"
  using avoiding_visit [of n V R "{}" S] by simp

end
