(* ===== verification/Engine_Theorems.thy ===== *)
theory Engine_Theorems
  imports Dag_Engine_Props Reachability
begin

text \<open>
  What the engine promises its callers, over the lemmas of \<open>Dag_Engine_Props\<close>: the invariant of
  every reachable run, the exact effect of a handoff on its source and on the mailboxes
  downstream, the nodes a reset touches, the meaning of promotion and of termination, and the
  absence of a deadlock on a graph whose structural dependencies are acyclic.
\<close>

section \<open>The nodes a reset touches\<close>

definition body_edge :: "dag_edge list \<Rightarrow> string \<Rightarrow> string \<Rightarrow> string \<Rightarrow> bool" where
  "body_edge es l a b \<longleftrightarrow> b \<noteq> [] \<and> b \<noteq> l \<and>
     list_ex (\<lambda>e. from_node e = a \<and> \<not> is_after_dep e \<and> to_node e = b) es"

lemma set_pushed_body:
  "set (pushed_targets (\<lambda>e. from_node e = n \<and> \<not> is_after_dep e \<and> to_node e \<noteq> l) es) = {m. body_edge es l n m}"
  by (auto simp: pushed_targets_def body_edge_def list_ex_iff)

lemma resetLoopBodyLoop_states:
  "state_of (resetLoopBodyLoop es l pending visited run) k =
     (if k \<in> avoiding (body_edge es l) (insert l (set visited)) (set pending) then Some PENDING else state_of run k)"
proof (induction es l pending visited run rule: resetLoopBodyLoop.induct)
  case (2 es l n pending visited run)
  let ?V = "insert l (set visited)"
  show ?case
  proof (cases "n = l \<or> n \<in> set visited")
    case True
    then have "n \<in> ?V" by auto
    with True 2 show ?thesis by simp
  next
    case False
    let ?N = "{m. body_edge es l n m}"
    have "avoiding (body_edge es l) ?V (insert n (set pending))
        = insert n (avoiding (body_edge es l) (insert n ?V) (?N \<union> set pending))"
      using False by (intro avoiding_visit) auto
    with 2(2) [OF False] False avoiding_disjoint [of "body_edge es l" "insert n ?V"] show ?thesis
      by (auto simp: set_pushed_body resetLoopBodyNode_def Let_def insert_commute)
  qed
qed simp

lemma resetLoopBodyDescendants_states:
  "state_of (resetLoopBodyDescendants run l entry) k =
     (if k \<in> avoiding (body_edge (edges (graph run)) l) {l} {m. body_edge (edges (graph run)) l entry m}
      then Some PENDING else state_of run k)"
  by (simp add: resetLoopBodyDescendants_def resetLoopBodyLoop_states set_pushed_body)

definition skipped_edge :: "'v dag_run \<Rightarrow> string \<Rightarrow> string \<Rightarrow> bool" where
  "skipped_edge run a b \<longleftrightarrow> b \<noteq> [] \<and> state_of run a = Some SKIPPED \<and>
     list_ex (\<lambda>e. from_node e = a \<and> to_node e = b) (edges (graph run))"

lemma set_pushed_skipped:
  "state_of run n = Some SKIPPED \<Longrightarrow>
   set (pushed_targets (\<lambda>e. from_node e = n) (edges (graph run))) = {m. skipped_edge run n m}"
  by (auto simp: pushed_targets_def skipped_edge_def list_ex_iff)

lemma state_resetSkippedNode [simp]:
  "state_of (resetSkippedNode n run) k = (if k = n then Some PENDING else state_of run k)"
  by (simp add: resetSkippedNode_def)

lemma resetSkippedLoop_states:
  assumes "es = edges (graph run)" "graph run = graph run0" "\<forall>k. k \<notin> set visited \<longrightarrow> state_of run k = state_of run0 k"
  shows "state_of (resetSkippedLoop es pending visited run) k =
     (if k \<in> avoiding (skipped_edge run0) (set visited) (set pending) \<and> state_of run0 k = Some SKIPPED
      then Some PENDING else state_of run k)"
  using assms
proof (induction es pending visited run rule: resetSkippedLoop.induct)
  case (2 es n pending visited run)
  show ?case
  proof (cases "n \<in> set visited")
    case True
    with 2 show ?thesis by simp
  next
    case False
    note visited = False
    with "2.prems" have same: "state_of run n = state_of run0 n" by simp
    show ?thesis
    proof (cases "state_of run n = Some SKIPPED")
      case True
      let ?N = "{m. skipped_edge run0 n m}"
      have N: "set (pushed_targets (\<lambda>e. from_node e = n) (edges (graph run0))) = ?N"
        using set_pushed_skipped [of run0 n] True same "2.prems" by simp
      have "avoiding (skipped_edge run0) (set visited) (insert n (set pending))
          = insert n (avoiding (skipped_edge run0) (insert n (set visited)) (?N \<union> set pending))"
        using visited by (intro avoiding_visit) auto
      with "2.IH"(3) [OF visited] True same visited "2.prems"
        avoiding_disjoint [of "skipped_edge run0" "insert n (set visited)"] show ?thesis
        by (auto simp: N)
    next
      case False
      have "avoiding (skipped_edge run0) (set visited) (insert n (set pending))
          = insert n (avoiding (skipped_edge run0) (insert n (set visited)) (set pending))"
        using visited False same by (intro avoiding_leaf) (auto simp: skipped_edge_def)
      with "2.IH"(2) [OF visited] False same visited "2.prems" show ?thesis by auto
    qed
  qed
qed simp

lemma resetSkippedSuccessDescendants_states:
  "state_of (resetSkippedSuccessDescendants run n) k =
     (if state_of run k = Some SKIPPED
         \<and> k \<in> avoiding (skipped_edge run) {}
               {to_node e |e. e \<in> set (edges (graph run)) \<and> from_node e = n \<and> condition e = ''on_success'' \<and> to_node e \<noteq> []}
      then Some PENDING else state_of run k)"
proof -
  have "set (pushed_targets (\<lambda>e. from_node e = n \<and> condition e = ''on_success'') (edges (graph run)))
      = {to_node e |e. e \<in> set (edges (graph run)) \<and> from_node e = n \<and> condition e = ''on_success'' \<and> to_node e \<noteq> []}"
    by (auto simp: pushed_targets_def)
  then show ?thesis
    by (simp add: resetSkippedSuccessDescendants_def resetSkippedLoop_states [where ?run0.0 = run])
qed

section \<open>Operations that only change states\<close>

definition quiet :: "'v dag_run \<Rightarrow> 'v dag_run \<Rightarrow> bool" where
  "quiet run run' \<longleftrightarrow> run' = run\<lparr>nodeStates := nodeStates run'\<rparr>"

lemma quiet_refl [simp]: "quiet run run"
  by (simp add: quiet_def)

lemma quiet_trans [trans]: "quiet a b \<Longrightarrow> quiet b c \<Longrightarrow> quiet a c"
  by (cases a, cases b, cases c) (auto simp: quiet_def)

lemma quiet_set_state [simp]: "quiet run (set_state n s run)"
  by (simp add: quiet_def set_state_def)

lemma quietD:
  assumes "quiet run run'"
  shows "mailboxes run' = mailboxes run" "afterSatisfied run' = afterSatisfied run"
    "inputSatisfied run' = inputSatisfied run" "handoffedNodes run' = handoffedNodes run" "graph run' = graph run"
  using assms by (cases run; cases run'; simp add: quiet_def)+

lemma quiet_tryPromote [simp]: "quiet run (tryPromote run n)"
  using tryPromote_cases [of run n] by auto

lemma quiet_skipOver [simp]: "quiet run (skipOver es run u sk)"
proof (induction es run u sk rule: skipOver.induct)
  case (2 e es run u sk)
  show ?case
  proof (cases "skipsTarget run u sk e")
    case True
    have "quiet run (set_state (to_node e) SKIPPED run)" by simp
    also note "2.IH"(1) [OF True]
    also note "2.IH"(2) [OF True]
    finally show ?thesis using True by simp
  qed (use 2 in simp)
qed simp

lemma quiet_skipDependentNodes [simp]: "quiet run (skipDependentNodes run u sk)"
  by (simp add: skipDependentNodes_def)

lemma quiet_skipUntaken [simp]: "quiet run (skipUntakenSatisfiedBranches run n)"
  by (auto simp: skipUntakenSatisfiedBranches_def Let_def intro: quiet_trans [OF quiet_set_state quiet_skipDependentNodes])

lemma quiet_advance [simp]: "quiet run (advance ns run)"
  unfolding advance_def
  by (rule fold_rel [where R = quiet])
    (auto intro: quiet_trans quiet_trans [OF quiet_tryPromote quiet_skipUntaken])

lemma quiet_reconcilePass: "quiet run (fst (reconcilePass ns (run, affected, changed)))"
proof (induction ns arbitrary: run affected changed)
  case (Cons n ns)
  have "quiet run (if state_of (tryPromote run n) n = Some READY then tryPromote run n
                   else set_state n SKIPPED (tryPromote run n))"
    by (auto intro: quiet_trans [OF quiet_tryPromote quiet_set_state])
  with Cons show ?case by (auto simp: Let_def intro: quiet_trans quiet_trans [OF quiet_tryPromote] split: if_splits)
qed simp

lemma quiet_reconcileLoop: "quiet run (fst (reconcileLoop run affected))"
proof (induction run affected rule: reconcileLoop.induct)
  case (1 run affected)
  obtain run' affected' changed where p: "reconcilePass (map_keys (nodeStates run)) (run, affected, False) = (run', affected', changed)"
    by (cases "reconcilePass (map_keys (nodeStates run)) (run, affected, False)") auto
  then have "quiet run run'" by (metis fst_conv quiet_reconcilePass)
  moreover from 1 p have "changed \<Longrightarrow> quiet run' (fst (reconcileLoop run' affected'))" by simp
  ultimately show ?case using p by (auto simp: reconcileLoop.simps [of run affected] intro: quiet_trans)
qed

lemma quiet_reconcile [simp]: "quiet run (fst (reconcileSettledPendingNodes run))"
  by (simp add: reconcileSettledPendingNodes_def quiet_reconcileLoop)

section \<open>What a mailbox receives\<close>

definition inbox :: "'v dag_run \<Rightarrow> string \<Rightarrow> string \<Rightarrow> 'v list" where
  "inbox run n p = (case map_of (mailboxes run) n of None \<Rightarrow> []
     | Some box \<Rightarrow> (case map_of box p of None \<Rightarrow> [] | Some vs \<Rightarrow> vs))"

lemma inbox_same: "mailboxes run' = mailboxes run \<Longrightarrow> inbox run' n p = inbox run n p"
  by (simp add: inbox_def)

lemma pushMailbox_inbox:
  "pushMailbox run n p v = Inr run' \<Longrightarrow>
   inbox run' n' p' = inbox run n' p' @ (if n' = n \<and> p' = p then [v] else [])"
  by (cases "n' = n"; cases "p' = p") (auto simp: pushMailbox_def inbox_def Let_def split: option.splits)

definition edges_into :: "dag_edge list \<Rightarrow> string \<Rightarrow> string \<Rightarrow> nat" where
  "edges_into es n p = length (filter (\<lambda>e. to_node e = n \<and> to_port e = p) es)"

lemma deliver_inbox:
  "deliver es u v run a b = Inr (run', a', b') \<Longrightarrow> inbox run' n p = inbox run n p @ replicate (edges_into es n p) v"
proof (induction es arbitrary: run a b)
  case (Cons e es)
  then obtain r where r: "pushMailbox run (to_node e) (to_port e) v = Inr r"
    and d: "deliver es u v (r\<lparr>inputSatisfied := add_in (to_node e) u (inputSatisfied r)\<rparr>)
       (set_add (to_node e) a) (set_add (to_node e) b) = Inr (run', a', b')"
    by (auto simp: bind_inv)
  from Cons.IH [OF d] have "inbox run' n p = inbox r n p @ replicate (edges_into es n p) v"
    by (simp add: inbox_def)
  with pushMailbox_inbox [OF r, of n p] show ?case by (simp add: edges_into_def)
qed (simp add: edges_into_def)

lemma satisfyAfterDeps_mailboxes [simp]: "mailboxes (fst (satisfyAfterDeps run u)) = mailboxes run"
  unfolding satisfyAfterDeps_def by (rule fold_inv) auto

lemma wakeLoopSource_inbox: "n \<notin> set (loopSources run) \<Longrightarrow> inbox (wakeLoopSource run m) n p = inbox run n p"
  by (auto simp: wakeLoopSource_def inbox_def split: option.splits)

lemma wake_receivers_inbox:
  assumes "\<not> isLoopGateway run u" and "n \<notin> set (loopSources run)"
  shows "inbox (fold (\<lambda>m r. wakeLoopGatewayReceiver (wakeLoopSource r m) u m) ms run) n p = inbox run n p"
  using assms
proof (induction ms arbitrary: run)
  case (Cons m ms)
  have m: "same_frame run (wakeLoopSource run m)" by (rule moves_frame [OF wakeLoopSource_moves])
  then have "\<not> isLoopGateway (wakeLoopSource run m) u" "n \<notin> set (loopSources (wakeLoopSource run m))"
    using Cons.prems isLoopGateway_frame [OF m] by (simp_all add: same_frameD)
  with Cons show ?case by (simp add: wakeLoopGatewayReceiver_plain wakeLoopSource_inbox)
qed simp

lemma handoff_inbox:
  assumes h: "handoff run u port v = Inr (run', res)"
    and plain: "\<not> isLoopGateway run u" "n \<notin> set (loopSources run)"
  shows "inbox run' n p = inbox run n p @ replicate (edges_into (matchingDownstream run u port) n p) v"
proof -
  let ?start = "handoff_start run u port"
  let ?f = "handoffFails run u port"
  from h obtain run3 affected receivers where
    d: "deliver (matchingDownstream run u port) u v (if ?f then ?start else fst (satisfyAfterDeps ?start u))
       (if ?f then [] else snd (satisfyAfterDeps ?start u)) [] = Inr (run3, affected, receivers)"
    and r: "run' = fst (reconcileSettledPendingNodes (let run5 = fold (\<lambda>n r. wakeLoopGatewayReceiver (wakeLoopSource r n) u n) receivers (advance affected run3)
        in if ?f then skipDependentNodes run5 u False else run5))"
    by (auto simp: handoff_def handoff_start_def bind_inv Let_def case_prod_beta split: if_splits)
  let ?run4 = "advance affected run3"
  let ?run5 = "fold (\<lambda>n r. wakeLoopGatewayReceiver (wakeLoopSource r n) u n) receivers ?run4"
  have "moves (if ?f then ?start else fst (satisfyAfterDeps ?start u)) ?run4"
    by (rule moves_trans [OF deliver_moves [OF d] advance_moves])
  moreover have "moves ?start (if ?f then ?start else fst (satisfyAfterDeps ?start u))"
    by (simp add: satisfyAfterDeps_moves)
  ultimately have m: "same_frame ?start ?run4" by (blast intro: moves_frame moves_trans)
  then have "\<not> isLoopGateway ?run4 u" "n \<notin> set (loopSources ?run4)"
    using plain by (simp_all add: isLoopGateway_def same_frame_def)
  note wake = wake_receivers_inbox [OF this, of receivers p]
  have "quiet ?run5 run'"
    unfolding r Let_def by (auto intro: quiet_trans [OF quiet_skipDependentNodes quiet_reconcile])
  then have "inbox run' n p = inbox ?run5 n p" by (intro inbox_same) (rule quietD)
  also note wake
  also have "inbox ?run4 n p = inbox run3 n p" by (intro inbox_same quietD(1)) simp
  also note deliver_inbox [OF d]
  also have "inbox (if ?f then ?start else fst (satisfyAfterDeps ?start u)) n p = inbox run n p"
    by (intro inbox_same) (simp add: handoff_start_def)
  finally show ?thesis .
qed

section \<open>Known nodes never throw\<close>

lemma deliver_total:
  "run_ok run \<Longrightarrow> \<forall>e \<in> set es. to_node e \<in> set (node_ids (graph run)) \<Longrightarrow>
   \<exists>run' a' b'. deliver es u v run a b = Inr (run', a', b')"
proof (induction es arbitrary: run a b)
  case (Cons e es)
  then obtain box where box: "map_of (mailboxes run) (to_node e) = Some box"
    using keys_ok_get [of "set (node_ids (graph run))" "mailboxes run" "to_node e"] by (auto simp: run_ok_def)
  then obtain r where r: "pushMailbox run (to_node e) (to_port e) v = Inr r"
    by (simp add: pushMailbox_def Let_def)
  then have f: "same_frame run r" by (simp add: pushMailbox_states)
  then have "run_ok (r\<lparr>inputSatisfied := i\<rparr>)" if "map_keys i = map_keys (inputSatisfied r)" for i
    using run_ok_frame [OF f Cons.prems(1)] that by (simp add: run_ok_def keys_ok_def)
  moreover from f Cons.prems(2) have "\<forall>e \<in> set es. to_node e \<in> set (node_ids (graph r))"
    by (simp add: same_frameD(1))
  ultimately show ?case using Cons.IH r by simp
qed simp

lemma matchingDownstream_known: "run_ok run \<Longrightarrow> e \<in> set (matchingDownstream run u port) \<Longrightarrow> to_node e \<in> set (node_ids (graph run))"
  by (auto simp: matchingDownstream_def run_ok_def graph_closed_def)

lemma failureRoutes_known: "run_ok run \<Longrightarrow> e \<in> set (failureRoutes run u) \<Longrightarrow> to_node e \<in> set (node_ids (graph run))"
  by (auto simp: failureRoutes_def run_ok_def graph_closed_def)

lemma handoff_total:
  assumes ok: "run_ok run" and u: "u \<in> set (node_ids (graph run))"
  shows "\<exists>r. handoff run u port v = Inr r"
proof -
  let ?start = "handoff_start run u port"
  let ?f = "handoffFails run u port"
  let ?run2 = "if ?f then ?start else fst (satisfyAfterDeps ?start u)"
  have "run_ok ?start" using assms unfolding handoff_start_def by (intro run_ok_set_state) simp_all
  moreover have m: "moves ?start ?run2" by (simp add: satisfyAfterDeps_moves)
  ultimately have "run_ok ?run2" by (blast intro: run_ok_moves)
  moreover from m have "graph ?run2 = graph run" using same_frameD(1) [OF moves_frame [OF m]] by simp
  ultimately obtain run3 a b where "deliver (matchingDownstream run u port) u v ?run2
      (if ?f then [] else snd (satisfyAfterDeps ?start u)) [] = Inr (run3, a, b)"
    using deliver_total [of ?run2 "matchingDownstream run u port" u v] matchingDownstream_known [OF ok] by metis
  with u ok show ?thesis
    by (auto simp: handoff_def handoff_start_def [symmetric] run_ok_known Let_def case_prod_beta throwIf_def split: if_splits)
qed

lemma failNode_total:
  assumes ok: "run_ok run" and u: "u \<in> set (node_ids (graph run))"
  shows "\<exists>r. failNode run u v = Inr r"
proof -
  let ?start = "set_state u FAILED run"
  let ?run2 = "fst (satisfyAfterDeps ?start u)"
  have "run_ok ?start" using assms by (rule run_ok_set_state)
  then have "run_ok ?run2" by (rule run_ok_moves [OF satisfyAfterDeps_moves])
  moreover have "graph ?run2 = graph run"
    using same_frameD(1) [OF moves_frame [OF satisfyAfterDeps_moves [of ?start u]]] by simp
  ultimately obtain run3 a b where "deliver (failureRoutes run u) u v ?run2
      (snd (satisfyAfterDeps ?start u)) [] = Inr (run3, a, b)"
    using deliver_total [of ?run2 "failureRoutes run u" u v] failureRoutes_known [OF ok] by metis
  with u ok show ?thesis
    by (auto simp: failNode_def run_ok_known Let_def case_prod_beta throwIf_def split: if_splits)
qed

lemma wake_receiver_ok:
  assumes "run_ok run"
  shows "run_ok (wakeLoopGatewayReceiver (wakeLoopSource run n) u m)
    \<and> graph (wakeLoopGatewayReceiver (wakeLoopSource run n) u m) = graph run"
proof -
  have "run_ok (wakeLoopSource run n)" by (rule run_ok_moves [OF wakeLoopSource_moves assms])
  then show ?thesis
    using same_frameD(1) [OF moves_frame [OF wakeLoopSource_moves [of run n]]] by (simp add: wakeLoopGatewayReceiver_ok)
qed

lemma handoff_graph:
  assumes "handoff run u port v = Inr (run', res)" and "run_ok run"
  shows "graph run' = graph run"
  using assms(1)
proof (rule handoff_stages)
  fix run3 affected receivers run5
  assume known: "map_has (nodeStates run) u"
    and m: "moves (handoff_start run u port) run3"
    and r5: "run5 = fold (\<lambda>n r. wakeLoopGatewayReceiver (wakeLoopSource r n) u n) receivers (advance affected run3)"
    and m5: "moves run5 run'"
  from known assms(2) have "run_ok (handoff_start run u port)"
    unfolding handoff_start_def by (intro run_ok_set_state) (simp_all add: run_ok_known)
  with m have "run_ok (advance affected run3)" by (blast intro: run_ok_moves advance_moves)
  then have "run_ok run5 \<and> graph run5 = graph (advance affected run3)"
    unfolding r5 by (intro fold_ok) (simp_all add: wake_receiver_ok)
  moreover have "graph (advance affected run3) = graph run"
    using same_frameD(1) [OF moves_frame [OF moves_trans [OF m advance_moves]]] by simp
  ultimately show ?thesis using same_frameD(1) [OF moves_frame [OF m5]] by simp
qed

lemma failNode_graph: "failNode run u v = Inr (run', res) \<Longrightarrow> graph run' = graph run"
  using same_frameD(1) [OF moves_frame [OF failNode_moves(1)]] by fastforce

section \<open>Rounds\<close>

lemma clearNode_view [simp]:
  "state_of (clearNode n run) m = (if m = n then Some PENDING else state_of run m)"
  "inbox (clearNode n run) m p = (if m = n then [] else inbox run m p)"
  by (simp_all add: clearNode_def inbox_def)

lemma applyCarryover_view [simp]:
  "nodeStates (applyCarryover n c run) = nodeStates run"
  "inbox (applyCarryover n c run) m p =
     inbox run m p @ (if m = n \<and> p = co_port c then [co_value c] else [])"
  by (auto simp: applyCarryover_def inbox_def Let_def split: option.split)

lemma fold_carryover_view [simp]:
  "nodeStates (fold (applyCarryover n) cs run) = nodeStates run"
  "inbox (fold (applyCarryover n) cs run) m p =
     inbox run m p @ (if m = n then map co_value (filter (\<lambda>c. co_port c = p) cs) else [])"
  by (induction cs arbitrary: run) auto

lemma supply_view:
  "nodeStates (fold (\<lambda>d r. if Q d then r\<lparr>afterSatisfied := add_in n (from_node d) (afterSatisfied r)\<rparr> else r) ds run)
     = nodeStates run
   \<and> mailboxes (fold (\<lambda>d r. if Q d then r\<lparr>afterSatisfied := add_in n (from_node d) (afterSatisfied r)\<rparr> else r) ds run)
     = mailboxes run"
  by (rule fold_inv) auto

definition round_inbox :: "'v round_reset_input \<Rightarrow> string \<Rightarrow> string \<Rightarrow> 'v list" where
  "round_inbox input n p =
     (let carried = (case opt_map_get (carryoverInputs input) n of None \<Rightarrow> []
            | Some cs \<Rightarrow> map co_value (filter (\<lambda>c. co_port c = p) cs))
      in case opt_map_get (commandInputs input) n of None \<Rightarrow> carried
         | Some c \<Rightarrow> if ci_port c = p then [ci_value c] else carried)"

lemma refillNode_view:
  "nodeStates (refillNode before rs input n run) = nodeStates run"
  "m \<noteq> n \<Longrightarrow> inbox (refillNode before rs input n run) m p = inbox run m p"
  "inbox run n p = [] \<Longrightarrow> inbox (refillNode before rs input n run) n p = round_inbox input n p"
proof -
  define cs where "cs = (case opt_map_get (carryoverInputs input) n of None \<Rightarrow> [] | Some cs \<Rightarrow> cs)"
  define run2 where "run2 = fold (\<lambda>d r. if dependencySupplied before rs d
       then r\<lparr>afterSatisfied := add_in n (from_node d) (afterSatisfied r)\<rparr> else r)
       (incomingAfterDeps (edges (graph run)) n) (fold (applyCarryover n) cs run)"
  have r: "refillNode before rs input n run = (case opt_map_get (commandInputs input) n of
           None \<Rightarrow> run2
         | Some c \<Rightarrow>
             let box = (case map_of (mailboxes run2) n of None \<Rightarrow> [] | Some b \<Rightarrow> b)
             in run2\<lparr>mailboxes := AList.update n (AList.update (ci_port c) [ci_value c] box) (mailboxes run2)\<rparr>)"
    unfolding refillNode_def run2_def cs_def Let_def by (simp only:)
  have ns: "nodeStates run2 = nodeStates run" by (simp add: run2_def supply_view)
  have ib: "inbox run2 m p = inbox run m p @ (if m = n then map co_value (filter (\<lambda>c. co_port c = p) cs) else [])" for m p
    using inbox_same [of run2 "fold (applyCarryover n) cs run" m p] by (simp add: run2_def supply_view)
  have cmd: "inbox (run2\<lparr>mailboxes := AList.update n (AList.update q [v] (case map_of (mailboxes run2) n of None \<Rightarrow> [] | Some b \<Rightarrow> b)) (mailboxes run2)\<rparr>) m p
      = (if m = n \<and> p = q then [v] else inbox run2 m p)" for q v m p
    by (auto simp: inbox_def split: option.split)
  show "nodeStates (refillNode before rs input n run) = nodeStates run"
    by (simp add: r ns Let_def split: option.split)
  show "inbox (refillNode before rs input n run) m p = inbox run m p" if "m \<noteq> n"
    using that ib cmd by (simp add: r Let_def split: option.split)
  show "inbox (refillNode before rs input n run) n p = round_inbox input n p" if "inbox run n p = []"
    using that ib cmd by (auto simp: r round_inbox_def cs_def Let_def split: option.split)
qed

lemma resetNodesForRound_view:
  assumes "resetNodesForRound run input = Inr (run', rs, ready)"
  shows "rs = sorted_set (resetNodeIds input)" and "\<forall>n \<in> set rs. map_has (nodeStates run) n"
    and "state_of run' n = (if n \<in> set rs then (if n \<in> set ready then Some READY else Some PENDING) else state_of run n)"
    and "inbox run' n p = (if n \<in> set rs then round_inbox input n p else inbox run n p)"
proof -
  let ?ns = "sorted_set (resetNodeIds input)"
  let ?run1 = "fold clearNode ?ns run"
  let ?run2 = "fold (refillNode run ?ns input) ?ns ?run1"
  from assms show rs: "rs = ?ns" and known: "\<forall>n \<in> set rs. map_has (nodeStates run) n"
    by (auto simp: resetNodesForRound_def Let_def bind_inv find_None_iff split: option.splits)
  from assms have r: "run' = fold (\<lambda>n r. tryPromote r n) ?ns ?run2"
    and ready: "ready = filter (\<lambda>n. state_of run' n = Some READY) ?ns"
    by (auto simp: resetNodesForRound_def Let_def bind_inv split: option.splits)
  have s1: "state_of ?run1 n = (if n \<in> set ?ns then Some PENDING else state_of run n)" for n
    by (rule fold_pointwise [where view = state_of and b = "state_of run"]) simp_all
  have i1: "inbox ?run1 n p = (if n \<in> set ?ns then [] else inbox run n p)" for n
    by (rule fold_pointwise [where view = "\<lambda>r n. inbox r n p" and b = "\<lambda>n. inbox run n p"]) simp_all
  have s2: "nodeStates ?run2 = nodeStates ?run1"
    by (rule fold_inv) (simp_all add: refillNode_view)
  have i2: "inbox ?run2 n p = (if n \<in> set ?ns then round_inbox input n p else inbox ?run1 n p)" for n
    by (rule fold_pointwise [where view = "\<lambda>r n. inbox r n p" and b = "\<lambda>n. []"])
      (simp_all add: refillNode_view i1)
  have q: "quiet ?run2 run'" unfolding r by (rule fold_rel [where R = quiet]) (auto intro: quiet_trans)
  have s3: "state_of run' n = state_of ?run2 n \<or> (n \<in> set ?ns \<and> state_of run' n = Some READY)" for n
    unfolding r
  proof (rule fold_inv [where P = "\<lambda>s. state_of s n = state_of ?run2 n \<or> (n \<in> set ?ns \<and> state_of s n = Some READY)"])
    fix x s assume "x \<in> set ?ns" "state_of s n = state_of ?run2 n \<or> (n \<in> set ?ns \<and> state_of s n = Some READY)"
    then show "state_of (tryPromote s x) n = state_of ?run2 n \<or> (n \<in> set ?ns \<and> state_of (tryPromote s x) n = Some READY)"
      using tryPromote_cases [of s x] by (cases "n = x") auto
  qed simp
  show "state_of run' n = (if n \<in> set rs then (if n \<in> set ready then Some READY else Some PENDING) else state_of run n)"
    using s3 [of n] s2 s1 [of n] by (auto simp: rs ready)
  show "inbox run' n p = (if n \<in> set rs then round_inbox input n p else inbox run n p)"
    using inbox_same [OF quietD(1) [OF q], of n p] i2 [of n] i1 [of n] by (simp add: rs)
qed

section \<open>Liveness\<close>

definition active :: "'v dag_run \<Rightarrow> string \<Rightarrow> bool" where
  "active run n \<longleftrightarrow> state_of run n \<in> {Some READY, Some RUNNING, Some WAITING_FOR_APPROVAL, Some WAITING_FOR_COMMAND}"

definition after_ranked :: "dag_graph \<Rightarrow> (string \<Rightarrow> nat) \<Rightarrow> bool" where
  "after_ranked g rank \<longleftrightarrow> list_all (\<lambda>e. is_after_dep e \<longrightarrow> rank (from_node e) < rank (to_node e)) (edges g)"

lemma state_settled_iff: "state_settled run n \<longleftrightarrow> (\<exists>s. state_of run n = Some s \<and> settled s)"
  by (simp add: state_settled_def split: option.splits)

lemma reconciled_no_pending:
  assumes ok: "run_ok run" and rec: "reconciled run" and rank: "after_ranked (graph run) rank"
    and deps: "\<forall>n. state_of run n = Some PENDING \<longrightarrow> incomingAfterDeps (edges (graph run)) n \<noteq> []"
    and idle: "\<forall>n. \<not> active run n"
  shows "state_of run n \<noteq> Some PENDING"
proof (induction "rank n" arbitrary: n rule: less_induct)
  case less
  show ?case
  proof
    assume p: "state_of run n = Some PENDING"
    have "state_settled run (from_node d)" if d: "d \<in> set (incomingAfterDeps (edges (graph run)) n)" for d
    proof -
      from d rank have "rank (from_node d) < rank n"
        by (auto simp: incomingAfterDeps_def after_ranked_def list_all_iff)
      then have "state_of run (from_node d) \<noteq> Some PENDING" by (rule less)
      moreover obtain s where s: "state_of run (from_node d) = Some s"
        using d ok run_ok_state [OF ok, of "from_node d"] by (auto simp: incomingAfterDeps_def run_ok_def graph_closed_def)
      ultimately show ?thesis using idle [rule_format, of "from_node d"]
        by (cases s) (auto simp: active_def state_settled_iff settled_def)
    qed
    with deps p have "dependencies_settled run n"
      by (auto simp: dependencies_settled_def list_all_iff Let_def)
    with rec p show False by (simp add: reconciled_def)
  qed
qed

lemma idle_terminal:
  assumes ok: "run_ok run" and "\<forall>n. state_of run n \<noteq> Some PENDING" and "\<forall>n. \<not> active run n"
  shows "isRunTerminal run"
proof -
  have "state_of run n = Some s" if "(n, s) \<in> set (nodeStates run)" for n s
    using ok that by (simp add: run_ok_def keys_ok_def)
  with assms(2,3) show ?thesis
    unfolding isRunTerminal_def list_all_iff active_def
    by (smt (verit) NodeState.exhaust case_prodI2 insertCI)
qed

lemma no_deadlock:
  assumes "run_ok run" and "after_ranked (graph run) rank"
    and "handoff run u port v = Inr (run', res) \<or> failNode run u v = Inr (run', res)"
    and "\<forall>n. state_of run' n = Some PENDING \<longrightarrow> incomingAfterDeps (edges (graph run')) n \<noteq> []"
  shows "isRunTerminal run' \<or> (\<exists>n. active run' n)"
proof -
  have ok: "run_ok run'"
    using assms(3) by (elim disjE) (rule handoff_ok failNode_ok, assumption, rule assms(1))+
  have rec: "reconciled run'"
    using assms(3) by (elim disjE) (auto elim: handoff_stages dest: failNode_moves(2))
  have "graph run' = graph run"
    using assms(3) by (elim disjE) (simp_all add: handoff_graph [OF _ assms(1)] failNode_graph)
  with assms(2) have "after_ranked (graph run') rank" by simp
  with reconciled_no_pending [OF ok rec _ assms(4)] idle_terminal [OF ok] show ?thesis by blast
qed

section \<open>A small run\<close>

text \<open>Node \<open>a\<close> feeds \<open>b\<close> on success and \<open>c\<close> on failure; both depend on it.\<close>

definition demo_node :: "string \<Rightarrow> string \<Rightarrow> dag_node" where
  "demo_node n t = \<lparr>node_id = n, name = n, description = [], node_type = t, agent = [], after = [], outputs = [],
     image = None, container_group = None, requires = None, gateway_config = None, extra = None\<rparr>"

definition demo_edge :: "string \<Rightarrow> string \<Rightarrow> string \<Rightarrow> string \<Rightarrow> string option \<Rightarrow> dag_edge" where
  "demo_edge u p n c l = \<lparr>from_node = u, from_port = p, to_node = n, to_port = ''in'', condition = c, label = l,
     retry_policy = None, terminal_outcome = None\<rparr>"

definition demo_graph :: dag_graph where
  "demo_graph = \<lparr>nodes = [demo_node ''a'' ''agent'', demo_node ''b'' ''agent'', demo_node ''c'' ''agent''],
     edges = [demo_edge ''a'' ''out'' ''b'' ''on_success'' (Some ''after_dep''),
              demo_edge ''a'' ''out'' ''b'' ''on_success'' None,
              demo_edge ''a'' ''failed'' ''c'' ''on_failure'' None,
              demo_edge ''a'' ''failed'' ''c'' ''always'' (Some ''after_dep'')]\<rparr>"

definition demo_run :: "nat dag_run" where
  "demo_run = createDAGRun \<lparr>meta = JNull, pgraph = demo_graph, loop_sources = []\<rparr> ''r''"

definition demo_done :: "nat dag_run" where
  "demo_done = fst (projr (handoff demo_run ''a'' ''out'' 7))"

definition demo_failed :: "nat dag_run" where
  "demo_failed = fst (projr (failNode demo_run ''a'' 7))"

lemma demo_states:
  "nodeStates demo_done = [(''a'', COMPLETED), (''b'', READY), (''c'', SKIPPED)]"
  "nodeStates demo_failed = [(''a'', FAILED), (''b'', SKIPPED), (''c'', READY)]"
  by code_simp+

lemma demo_run_ok: "run_ok demo_run"
  by code_simp

lemma demo_loop_sources: "loopSources demo_run = []"
  by code_simp

lemma demo_plain: "\<not> isLoopGateway demo_run n"
  by (simp add: isLoopGateway_def find_node_def demo_run_def createDAGRun_def demo_graph_def demo_node_def)

lemma demo_handoff: "handoff demo_run ''a'' ''out'' 7 = Inr (demo_done, snd (projr (handoff demo_run ''a'' ''out'' 7)))"
proof -
  have "isl (handoff demo_run ''a'' ''out'' 7) = False" by code_simp
  then show ?thesis by (simp add: demo_done_def)
qed

lemma demo_failure: "failNode demo_run ''a'' 7 = Inr (demo_failed, snd (projr (failNode demo_run ''a'' 7)))"
proof -
  have "isl (failNode demo_run ''a'' 7) = False" by code_simp
  then show ?thesis by (simp add: demo_failed_def)
qed

section \<open>The properties\<close>

text \<open>C1. No deadlock: take a run whose graph has acyclic structural dependencies, and let a node
  hand off or fail. If every node still pending has a dependency, then afterwards either some
  node is ready, running or waiting for an answer, or the run is terminal.\<close>

theorem engine_no_deadlock:
  assumes "run_ok run" and "after_ranked (graph run) rank"
    and "handoff run u port v = Inr (run', res) \<or> failNode run u v = Inr (run', res)"
    and "\<forall>n. state_of run' n = Some PENDING \<longrightarrow> incomingAfterDeps (edges (graph run')) n \<noteq> []"
  shows "isRunTerminal run' \<or> (\<exists>n. active run' n)"
  using assms by (rule no_deadlock)

theorem engine_no_deadlock_witness: "isRunTerminal demo_done \<or> (\<exists>n. active demo_done n)"
proof (rule engine_no_deadlock)
  show "run_ok demo_run" by (rule demo_run_ok)
  show "after_ranked (graph demo_run) (\<lambda>n. if n = ''a'' then 0 else 1)" by code_simp
  show "handoff demo_run ''a'' ''out'' 7 = Inr (demo_done, snd (projr (handoff demo_run ''a'' ''out'' 7)))
      \<or> failNode demo_run ''a'' 7 = Inr (demo_done, snd (projr (handoff demo_run ''a'' ''out'' 7)))"
    using demo_handoff by simp
  show "\<forall>n. state_of demo_done n = Some PENDING \<longrightarrow> incomingAfterDeps (edges (graph demo_done)) n \<noteq> []"
    by (simp add: demo_states)
qed

text \<open>C2. Every run that the engine reaches from a fresh run of a closed graph keeps exactly one
  state, one set of satisfied dependencies, one set of routed inputs and one mailbox per node of
  its graph, whatever handoffs, failures, starts, retries, rounds and reconciliations happen.\<close>

theorem engine_reachable_ok: "reach engine_init engine_step run \<Longrightarrow> run_ok run"
  by (rule engine.reach_inv)

theorem engine_reachable_ok_witness: "run_ok demo_done"
proof (rule engine_reachable_ok)
  have "engine_init demo_run"
    unfolding demo_run_def by (rule engine_init.intros) code_simp
  then show "reach engine_init engine_step demo_done"
    by (blast intro: reach.intros step_handoff demo_handoff)
qed

text \<open>C3. A handoff by a node that is not a loop gateway gives the source the state its port asks
  for (failed on a failing port, cancelled on a cancelling terminal edge, running again for a
  loop source, completed otherwise), where a loop source that was to run again may have been woken or
  skipped by its own handoff; it promotes or skips other nodes only out of the states that
  allow it, never changes a node that has settled, and leaves no pending node whose
  dependencies have all settled.\<close>

theorem handoff_transition:
  assumes "handoff run u port v = Inr (run', res)" and "\<not> isLoopGateway run u"
  shows "(u \<notin> set (loopSources run) \<longrightarrow> state_of run' u = Some (handoffSourceState run u port))
    \<and> (u \<in> set (loopSources run) \<longrightarrow> (\<exists>s'. state_of run' u = Some s' \<and>
        (s' = handoffSourceState run u port \<or> (handoffSourceState run u port = RUNNING \<and> s' \<in> {READY, SKIPPED}))))
    \<and> (\<forall>n s. n \<noteq> u \<and> state_of run n = Some s \<longrightarrow>
        (\<exists>s'. state_of run' n = Some s' \<and> (s' = s \<or> (s = PENDING \<and> s' \<in> {READY, SKIPPED})
          \<or> (s = READY \<and> s' = SKIPPED) \<or> (s = RUNNING \<and> n \<in> set (loopSources run) \<and> s' \<in> {READY, SKIPPED}))))
    \<and> (\<forall>n. state_of run' n = Some PENDING \<longrightarrow> \<not> dependencies_settled run' n)"
proof (intro conjI impI allI)
  have m: "may_move (n \<in> set (loopSources run)) (state_of (handoff_start run u port) n) (state_of run' n)" for n
    using handoff_moves [OF assms] by (simp add: moves_def)
  show "state_of run' u = Some (handoffSourceState run u port)" if "u \<notin> set (loopSources run)"
    using m [of u] that by (auto simp: handoffSourceState_def settled_def dest: may_move_settled)
  show "\<exists>s'. state_of run' u = Some s' \<and>
        (s' = handoffSourceState run u port \<or> (handoffSourceState run u port = RUNNING \<and> s' \<in> {READY, SKIPPED}))"
    if "u \<in> set (loopSources run)"
    using m [of u] that by (auto simp: handoffSourceState_def may_move_def split: if_splits)
  show "\<exists>s'. state_of run' n = Some s' \<and> (s' = s \<or> (s = PENDING \<and> s' \<in> {READY, SKIPPED})
          \<or> (s = READY \<and> s' = SKIPPED) \<or> (s = RUNNING \<and> n \<in> set (loopSources run) \<and> s' \<in> {READY, SKIPPED}))"
    if "n \<noteq> u \<and> state_of run n = Some s" for n s
    using m [of n] that by (auto simp: may_move_def)
  show "\<not> dependencies_settled run' n" if "state_of run' n = Some PENDING" for n
    using handoff_stages [OF assms(1)] that unfolding reconciled_def by blast
qed

theorem handoff_transition_witness:
  "state_of demo_done ''a'' = Some (handoffSourceState demo_run ''a'' ''out'')"
  using handoff_transition [OF demo_handoff demo_plain] by (simp add: demo_loop_sources)

text \<open>A handoff by a node that is not a loop gateway appends its content to the mailbox of
  every node downstream, once for each edge from the source whose port and condition match, and
  touches no other mailbox: a port collects the values it was sent, in order. (The mailbox of a
  loop source, which keeps its latest value only, is the exception.)\<close>

theorem handoff_delivers:
  assumes "handoff run u port v = Inr (run', res)" and "\<not> isLoopGateway run u" and "n \<notin> set (loopSources run)"
  shows "inbox run' n p = inbox run n p @
    replicate (length (filter (\<lambda>e. from_node e = u \<and> \<not> is_after_dep e \<and> to_node e \<noteq> []
       \<and> edgeMatchesHandoff e port \<and> to_node e = n \<and> to_port e = p) (edges (graph run)))) v"
  using handoff_inbox [OF assms, of p] by (simp add: edges_into_def matchingDownstream_def conj_assoc)

theorem handoff_delivers_witness: "inbox demo_done ''b'' ''in'' = [7]"
proof -
  have "inbox demo_run ''b'' ''in'' @
    replicate (length (filter (\<lambda>e. from_node e = ''a'' \<and> \<not> is_after_dep e \<and> to_node e \<noteq> []
       \<and> edgeMatchesHandoff e ''out'' \<and> to_node e = ''b'' \<and> to_port e = ''in'') (edges (graph demo_run)))) 7 = [7]"
    by code_simp
  then show ?thesis
    using handoff_delivers [OF demo_handoff demo_plain, of "''b''" "''in''"] demo_loop_sources by simp
qed

text \<open>C4. A failing node ends \<open>FAILED\<close>, a node that had settled keeps its state, and no pending
  node is left whose dependencies have all settled.\<close>

theorem failNode_transition:
  assumes "failNode run u v = Inr (run', res)"
  shows "state_of run' u = Some FAILED
    \<and> (\<forall>n s. n \<noteq> u \<and> state_of run n = Some s \<and> settled s \<longrightarrow> state_of run' n = Some s)
    \<and> (\<forall>n. state_of run' n = Some PENDING \<longrightarrow> \<not> dependencies_settled run' n)"
  using moves_settled [OF failNode_moves(1) [OF assms]] failNode_moves(2) [OF assms]
  by (auto simp: settled_def reconciled_def)

theorem failNode_transition_witness: "state_of demo_failed ''a'' = Some FAILED"
  using failNode_transition [OF demo_failure] by simp

text \<open>C5. On a well-formed run a handoff and a failure of a known node always complete: the only
  error either can raise is the unknown node, before anything has changed.\<close>

theorem transitions_complete:
  assumes "run_ok run"
  shows "(if u \<in> set (node_ids (graph run))
          then (\<exists>r. handoff run u port v = Inr r) \<and> (\<exists>r. failNode run u v = Inr r)
          else handoff run u port v = Inl (UnknownNode u, run) \<and> failNode run u v = Inl (UnknownNode u, run))"
  using handoff_total [OF assms] failNode_total [OF assms] run_ok_known [OF assms]
  by (simp add: handoff_def failNode_def)

theorem transitions_complete_witness: "handoff demo_run ''zz'' ''out'' 7 = Inl (UnknownNode ''zz'', demo_run)"
proof -
  have "''zz'' \<notin> set (node_ids (graph demo_run))" by code_simp
  then show ?thesis using transitions_complete [OF demo_run_ok, of "''zz''" "''out''" 7] by simp
qed

text \<open>A pending node is promoted exactly when its inputs allow it: a join gateway in mode
  \<open>all\<close> when every dependency is satisfied and every dependency that has an explicit edge to it
  has routed an input, a join gateway in another mode when all its dependencies have settled and
  one routed an input, any other node when every dependency is satisfied and none of those with
  an explicit edge still owes its input.\<close>

theorem tryPromote_ready_iff:
  assumes "state_of run n = Some PENDING" and "find_node (graph run) n = Some nd"
  shows "state_of (tryPromote run n) n = Some READY \<longleftrightarrow>
    (let deps = incomingAfterDeps (edges (graph run)) n;
         routes = (\<lambda>d. incomingExplicitEdgesFrom (edges (graph run)) n (from_node d) \<noteq> []);
         satisfied = (\<lambda>d. has_in (afterSatisfied run) n (from_node d));
         routed = (\<lambda>d. has_in (inputSatisfied run) n (from_node d));
         mode = js_nullish (opt_get (gateway_config nd) ''mode'') (JStr ''all'')
     in if node_type nd = ''join_gateway'' \<and> \<not> js_strict_eq mode (JStr ''all'')
        then (\<forall>d \<in> set deps. state_settled run (from_node d)) \<and> (\<exists>d \<in> set deps. routes d \<and> routed d)
        else \<forall>d \<in> set deps. satisfied d \<and> (routes d \<longrightarrow> routed d))"
proof -
  let ?deps = "incomingAfterDeps (edges (graph run)) n"
  let ?routes = "\<lambda>d. incomingExplicitEdgesFrom (edges (graph run)) n (from_node d) \<noteq> []"
  let ?froms = "remdups (map from_node (filter ?routes ?deps))"
  have all: "length ?froms \<le> length (filter P ?froms) \<longleftrightarrow> (\<forall>d \<in> set ?deps. ?routes d \<longrightarrow> P (from_node d))" for P
    unfolding length_filter_all by auto
  have some: "0 < length (filter P ?froms) \<longleftrightarrow> (\<exists>d \<in> set ?deps. ?routes d \<and> P (from_node d))" for P
    by (auto simp: filter_empty_conv)
  have joined: "joinHasEnoughRoutedInputs run n ?deps =
      (if node_type nd \<noteq> ''join_gateway'' then None
       else if js_strict_eq (js_nullish (opt_get (gateway_config nd) ''mode'') (JStr ''all'')) (JStr ''all'')
       then Some ((\<forall>d \<in> set ?deps. ?routes d \<longrightarrow> has_in (inputSatisfied run) n (from_node d))
            \<and> (\<forall>d \<in> set ?deps. has_in (afterSatisfied run) n (from_node d)))
       else Some ((\<forall>d \<in> set ?deps. state_settled run (from_node d))
            \<and> (\<exists>d \<in> set ?deps. ?routes d \<and> has_in (inputSatisfied run) n (from_node d))))"
    unfolding joinHasEnoughRoutedInputs_def Let_def assms(2)
    by (simp only: option.case all some list_all_iff)
  have promote: "state_of (tryPromote run n) n = Some READY \<longleftrightarrow>
      (case joinHasEnoughRoutedInputs run n ?deps of Some ready \<Rightarrow> ready
       | None \<Rightarrow> list_all (\<lambda>d. has_in (afterSatisfied run) n (from_node d)) ?deps
                 \<and> \<not> list_ex (explicitInputMissing run n) ?deps)"
    using assms(1) by (simp add: tryPromote_def Let_def split: option.split)
  show ?thesis
    unfolding promote joined Let_def
    by (cases "node_type nd = ''join_gateway''")
      (auto simp: explicitInputMissing_def list_all_iff list_ex_iff)
qed

theorem tryPromote_ready_iff_witness: "state_of (tryPromote demo_run ''b'') ''b'' \<noteq> Some READY"
proof -
  have "state_of demo_run ''b'' = Some PENDING" "find_node (graph demo_run) ''b'' = Some (demo_node ''b'' ''agent'')"
    "node_type (demo_node ''b'' ''agent'') \<noteq> ''join_gateway''"
    "\<exists>d \<in> set (incomingAfterDeps (edges (graph demo_run)) ''b''). \<not> has_in (afterSatisfied demo_run) ''b'' (from_node d)"
    by code_simp+
  then show ?thesis using tryPromote_ready_iff [of demo_run "''b''"] by (simp add: Let_def) blast
qed

text \<open>Starting a node succeeds exactly when it is ready, and then makes it running and changes
  nothing else; every other case is the error the code throws.\<close>

theorem startNode_spec:
  "startNode run n =
     (case state_of run n of
        None \<Rightarrow> Inl (UnknownNode n)
      | Some s \<Rightarrow> if s = READY then Inr (run\<lparr>nodeStates := AList.update n RUNNING (nodeStates run)\<rparr>)
                  else Inl (CannotStart n s))"
  by (auto simp: startNode_def getNodeState_def set_state_def split: option.split)

text \<open>C7. Resetting the body of a loop makes pending exactly the nodes that a path of routed edges
  reaches from the entry node without passing the loop gateway, and changes no other node's
  state: the worklist computes reachability.\<close>

theorem resetLoopBody_exact:
  "state_of (resetLoopBodyDescendants run loop entry) n =
     (if n \<in> avoiding (body_edge (edges (graph run)) loop) {loop} {m. body_edge (edges (graph run)) loop entry m}
      then Some PENDING else state_of run n)"
  by (rule resetLoopBodyDescendants_states)

text \<open>Retrying a node makes pending again exactly the skipped nodes that a path of skipped
  nodes reaches from a success edge of the retried node; every other node keeps its state.\<close>

theorem resetSkipped_exact:
  "state_of (resetSkippedSuccessDescendants run n) k =
     (if state_of run k = Some SKIPPED
         \<and> k \<in> avoiding (skipped_edge run) {}
               {to_node e |e. e \<in> set (edges (graph run)) \<and> from_node e = n \<and> condition e = ''on_success'' \<and> to_node e \<noteq> []}
      then Some PENDING else state_of run k)"
  by (rule resetSkippedSuccessDescendants_states)

text \<open>A round reset that succeeds names its nodes sorted and without repetition, all of them
  nodes of the run; each ends ready (and is then reported) or pending, with a mailbox that holds
  exactly the carried-over values of each port, a command input replacing those of its port.
  Every other node keeps its state and its mailbox.\<close>

theorem resetNodesForRound_spec:
  assumes "resetNodesForRound run input = Inr (run', rs, ready)"
  shows "rs = sorted_set (resetNodeIds input) \<and> (\<forall>n \<in> set rs. map_has (nodeStates run) n)
    \<and> (\<forall>n. state_of run' n = (if n \<in> set rs then (if n \<in> set ready then Some READY else Some PENDING) else state_of run n))
    \<and> (\<forall>n p. inbox run' n p =
         (if n \<notin> set rs then inbox run n p
          else case opt_map_get (commandInputs input) n of
                 Some c \<Rightarrow> if ci_port c = p then [ci_value c] else
                   (case opt_map_get (carryoverInputs input) n of None \<Rightarrow> [] | Some cs \<Rightarrow> [co_value c. c \<leftarrow> cs, co_port c = p])
               | None \<Rightarrow> (case opt_map_get (carryoverInputs input) n of None \<Rightarrow> [] | Some cs \<Rightarrow> [co_value c. c \<leftarrow> cs, co_port c = p])))"
proof -
  have "map co_value (filter (\<lambda>c. co_port c = p) cs) = [co_value c. c \<leftarrow> cs, co_port c = p]" for p and cs :: "'a carryover list"
    by (induction cs) simp_all
  then show ?thesis
    using resetNodesForRound_view [OF assms] by (simp add: round_inbox_def Let_def split: option.split)
qed

definition demo_round :: "nat round_reset_input" where
  "demo_round = \<lparr>resetNodeIds = [''b''], commandInputs = None,
     carryoverInputs = Some [(''b'', [\<lparr>co_fromNode = ''a'', co_port = ''in'', co_value = 9\<rparr>])]\<rparr>"

theorem resetNodesForRound_spec_witness:
  "inbox (fst (projr (resetNodesForRound demo_done demo_round))) ''b'' ''in'' = [9]"
proof -
  have "isl (resetNodesForRound demo_done demo_round) = False"
    "fst (snd (projr (resetNodesForRound demo_done demo_round))) = [''b'']" by code_simp+
  then have "resetNodesForRound demo_done demo_round = Inr (fst (projr (resetNodesForRound demo_done demo_round)),
      [''b''], snd (snd (projr (resetNodesForRound demo_done demo_round))))"
    by (cases "resetNodesForRound demo_done demo_round") auto
  from resetNodesForRound_spec [OF this] show ?thesis
    by (simp add: demo_round_def opt_map_get_def)
qed

end
