(* ===== verification/Engine_Termination.thy ===== *)
theory Engine_Termination
  imports Engine_Theorems
begin

text \<open>
  Without loops a run comes to an end. A step is a start of a ready node, or a handoff or failure of
  a node that has not settled; the work that is left is a weight of each node's state that no
  step raises and every step lowers at the node it is about.
\<close>

inductive work_step :: "'v dag_run \<Rightarrow> 'v dag_run \<Rightarrow> bool" where
  work_start: "startNode run n = Inr run' \<Longrightarrow> work_step run run'"
| work_handoff: "state_of run n = Some s \<Longrightarrow> \<not> settled s \<Longrightarrow> handoff run n port v = Inr (run', res) \<Longrightarrow> work_step run run'"
| work_fail: "state_of run n = Some s \<Longrightarrow> \<not> settled s \<Longrightarrow> failNode run n v = Inr (run', res) \<Longrightarrow> work_step run run'"

fun state_weight :: "NodeState option \<Rightarrow> nat" where
  "state_weight None = 0"
| "state_weight (Some s) = (if s = PENDING then 3 else if s = READY then 2 else if settled s then 0 else 1)"

definition work_left :: "'v dag_run \<Rightarrow> nat" where
  "work_left run = (\<Sum>n \<in> set (node_ids (graph run)). state_weight (state_of run n))"

definition loop_free :: "'v dag_run \<Rightarrow> bool" where
  "loop_free run \<longleftrightarrow> run_ok run \<and> loopSources run = [] \<and> (\<forall>n. \<not> isLoopGateway run n)"

lemma loop_free_frame: "same_frame run run' \<Longrightarrow> loop_free run \<Longrightarrow> loop_free run'"
proof -
  assume f: "same_frame run run'" and l: "loop_free run"
  then have "run_ok run'" using run_ok_frame [OF f] by (simp add: loop_free_def)
  with l show ?thesis using isLoopGateway_frame [OF f] f by (simp add: loop_free_def same_frame_def)
qed

lemma may_move_weight: "may_move False x y \<Longrightarrow> state_weight y \<le> state_weight x"
  by (auto simp: may_move_def settled_def)

text \<open>A step about the node \<open>n\<close>: first its own state changes, then others move.\<close>

lemma work_decreases:
  assumes "loop_free run" and "state_of run n = Some s" and "state_weight (Some t) < state_weight (Some s)"
    and start: "same_frame run start" "\<And>m. state_of start m = (if m = n then Some t else state_of run m)" and "moves start run'"
  shows "loop_free run' \<and> work_left run' < work_left run"
proof -
  have frame: "same_frame run run'" using start(1) moves_frame [OF assms(6)] by (rule same_frame_trans)
  have l: "loopSources start = []" using start(1) assms(1) by (simp add: same_frame_def loop_free_def)
  have le: "state_weight (state_of run' m) \<le> state_weight (if m = n then Some t else state_of run m)" for m
    using assms(6) may_move_weight [of "state_of start m" "state_of run' m"] by (simp add: moves_def l start(2))
  have "n \<in> set (node_ids (graph run))" using assms(1,2) unfolding loop_free_def run_ok_def by (elim conjE) (rule keys_ok_mem)
  moreover have "state_weight (state_of run' n) < state_weight (state_of run n)" using le [of n] assms(2,3) by simp
  moreover have "state_weight (state_of run' m) \<le> state_weight (state_of run m)" for m
    using le [of m] calculation(2) by (cases "m = n") simp_all
  ultimately have "work_left run' < work_left run"
    unfolding work_left_def same_frameD(1) [OF frame] by (intro sum_strict_mono_ex1) auto
  with loop_free_frame [OF frame assms(1)] show ?thesis by simp
qed

lemma work_step_decreases:
  assumes "work_step run run'" and "loop_free run"
  shows "loop_free run' \<and> work_left run' < work_left run"
  using assms
proof (induction rule: work_step.induct)
  case (work_start run n run')
  then have "state_of run n = Some READY" and run': "run' = set_state n RUNNING run"
    by (auto simp: startNode_def getNodeState_def bind_inv split: option.splits if_splits)
  have "loop_free (set_state n RUNNING run) \<and> work_left (set_state n RUNNING run) < work_left run"
    using work_start(2) \<open>state_of run n = Some READY\<close> _ set_state_frame [OF \<open>state_of run n = Some READY\<close>]
    by (rule work_decreases [where t = RUNNING, OF _ _ _ _ _ moves_refl]) (simp_all add: settled_def set_state_def)
  with run' show ?case by simp
next
  case (work_handoff run n s port v run' res)
  then have "settled (handoffSourceState run n port)" by (auto simp: handoffSourceState_def settled_def loop_free_def)
  moreover have "same_frame run (handoff_start run n port)"
    using work_handoff(1) by (simp add: same_frame_def handoff_start_def set_state_def)
  moreover have "moves (handoff_start run n port) run'" using work_handoff by (intro handoff_moves) (auto simp: loop_free_def)
  ultimately show ?case using work_handoff
    by (intro work_decreases [where n = n and s = s and t = "handoffSourceState run n port"]) (auto simp: settled_def)
next
  case (work_fail run n s v run' res)
  show ?case
    using work_fail(4,1) _ set_state_frame [OF work_fail(1)] _ failNode_moves(1) [OF work_fail(3)]
    by (rule work_decreases [where t = FAILED]) (use work_fail(2) in \<open>auto simp: settled_def set_state_def\<close>)
qed

lemma work_steps_decrease: "(work_step ^^ k) run run' \<Longrightarrow> loop_free run \<Longrightarrow> loop_free run' \<and> k + work_left run' \<le> work_left run"
proof (induction k arbitrary: run')
  case (Suc k)
  then obtain r where "(work_step ^^ k) run r" "work_step r run'" by auto
  with Suc.IH [OF this(1) Suc.prems(2)] work_step_decreases [OF this(2)] show ?case by linarith
qed simp

lemma work_left_bound: "work_left run \<le> 3 * card (set (node_ids (graph run)))"
proof -
  have "state_weight x \<le> 3" for x by (cases x) auto
  then have "work_left run \<le> (\<Sum>n \<in> set (node_ids (graph run)). 3)" unfolding work_left_def by (intro sum_mono) auto
  then show ?thesis by simp
qed

text \<open>C6. Without loops every run ends: a sequence of starts, and of handoffs and failures of nodes that have not
  settled, is at most three times as long as the graph has nodes; so there is no infinite one.\<close>

theorem engine_terminates:
  assumes "run_ok run" and "loopSources run = []" and "\<forall>n. \<not> isLoopGateway run n" and "(work_step ^^ k) run run'"
  shows "k \<le> 3 * card (set (node_ids (graph run)))"
  using work_steps_decrease [OF assms(4)] work_left_bound [of run] assms(1-3) by (simp add: loop_free_def)

theorem engine_terminates_witness: "(1::nat) \<le> 3 * card (set (node_ids (graph demo_run)))"
proof (rule engine_terminates [OF demo_run_ok])
  show "loopSources demo_run = []" by (rule demo_loop_sources)
  show "\<forall>n. \<not> isLoopGateway demo_run n" using demo_plain by blast
  have "state_of demo_run ''a'' = Some READY" by code_simp
  then show "(work_step ^^ 1) demo_run demo_done"
    using work_handoff [OF _ _ demo_handoff, of READY] by (simp only: relpowp_1) (simp add: settled_def)
qed

end
