(* ===== verification/Graph_Validator.thy ===== *)
theory Graph_Validator
  imports Graph Reachability
begin

text \<open>
  \<open>orchestration/graph-validator.ts\<close>: the checks a graph passes before it may run. An error or
  warning message is a constructor that carries what the message interpolates; the order of the
  messages is the code's. The depth-first search of \<open>_detectCycles\<close> and the two breadth-first
  searches keep their worklists and colours as the code has them.
\<close>

datatype graph_error =
    TooManyAwaitCommand "string list"
  | JoinNoDependency string
  | JoinUndeclaredInputs string "string list"
  | JoinUnsupportedMode string js
  | JoinThresholdNotPositive string
  | JoinThresholdExceeds string js nat
  | WhileUnsupportedOperator string js
  | WhileMaxIterations string
  | AwaitOutputs string
  | AwaitOutgoing string
  | AwaitUnknownFields string "string list"
  | AwaitVersion string
  | AwaitExpires string
  | AwaitCommandPort string
  | AwaitTargets string
  | AwaitTargetInvalid string nat
  | AwaitTargetDuplicate string string
  | AwaitTargetSelf string
  | AwaitTargetUnknown string string
  | AwaitTargetNotAgent string string
  | NoNodes
  | EdgeMaxRetries dag_edge
  | EdgeUnknownFrom string
  | EdgeUnknownTo string
  | CycleDetected "string list"
  | UnreachableNode string

datatype graph_warning =
    OrphanNode string
  | DeadEndNode string
  | FeedbackLoopRisk dag_edge jsnum

record validation_result =
  vr_valid :: bool
  vr_errors :: "graph_error list"
  vr_warnings :: "graph_warning list"
  node_count :: nat
  edge_count :: nat
  entry_nodes :: "string list"
  terminal_nodes :: "string list"

definition isFailureEdge :: "dag_edge \<Rightarrow> bool" where
  "isFailureEdge e \<longleftrightarrow> condition e = ''on_failure''"

definition isTerminalEdge :: "dag_edge \<Rightarrow> bool" where
  "isTerminalEdge e \<longleftrightarrow> to_node e = []"

definition isGatewayNodeType :: "string \<Rightarrow> bool" where
  "isGatewayNodeType t \<longleftrightarrow>
     t = ''loop_gateway'' \<or> t = ''condition_gateway'' \<or> t = ''join_gateway'' \<or> t = ''while_gateway''
     \<or> t = ''command_gateway'' \<or> t = ''broker_gateway'' \<or> t = ''approval_gateway'' \<or> t = ''state_gateway''
     \<or> t = ''fanout_gateway'' \<or> t = ''await_command_gateway''"

definition isLoopFeedbackEdge :: "dag_graph \<Rightarrow> dag_edge \<Rightarrow> bool" where
  "isLoopFeedbackEdge g e =
     (if isTerminalEdge e then False
      else case find_node g (to_node e) of
             None \<Rightarrow> False
           | Some t \<Rightarrow>
               if node_type t \<noteq> ''loop_gateway'' \<and> node_type t \<noteq> ''while_gateway'' then False
               else if label e = Some ''feedback'' then True
               else case find_node g (from_node e) of
                      None \<Rightarrow> False
                    | Some s \<Rightarrow> node_id t \<in> set (after s))"

text \<open>The edges a run follows when everything succeeds.\<close>

definition success_edge :: "dag_graph \<Rightarrow> dag_edge \<Rightarrow> bool" where
  "success_edge g e \<longleftrightarrow> \<not> (isFailureEdge e \<or> isTerminalEdge e \<or> isLoopFeedbackEdge g e)"

definition adjacency :: "dag_graph \<Rightarrow> (string, string list) jsmap" where
  "adjacency g =
     fold (\<lambda>e adj.
             if isFailureEdge e \<or> isTerminalEdge e \<or> isLoopFeedbackEdge g e then adj
             else case map_of adj (from_node e) of None \<Rightarrow> adj
                  | Some ns \<Rightarrow> AList.update (from_node e) (ns @ [to_node e]) adj)
       (edges g)
       (fold (\<lambda>i adj. AList.update i [] adj) (node_ids g) [])"

definition adj_of :: "(string, string list) jsmap \<Rightarrow> string \<Rightarrow> string list" where
  "adj_of adj n = (case map_of adj n of None \<Rightarrow> [] | Some ns \<Rightarrow> ns)"

definition entryNodes :: "dag_graph \<Rightarrow> string list" where
  "entryNodes g =
     (let ids = remdups (node_ids g);
          incoming = fold (\<lambda>e inc.
             if isFailureEdge e \<or> isTerminalEdge e \<or> isLoopFeedbackEdge g e then inc
             else if to_node e \<in> set ids then set_add (to_node e) inc else inc) (edges g) []
      in sort (filter (\<lambda>i. i \<notin> set incoming) ids))"

definition terminalNodes :: "dag_graph \<Rightarrow> string list" where
  "terminalNodes g =
     (let ids = remdups (node_ids g);
          suspension = map node_id (filter (\<lambda>nd. node_type nd = ''await_command_gateway'') (nodes g));
          outgoing = fold (\<lambda>e out.
             if isFailureEdge e \<or> isTerminalEdge e then out
             else if from_node e \<in> set ids then set_add (from_node e) out else out) (edges g) []
      in sort (filter (\<lambda>i. i \<notin> set outgoing \<and> i \<notin> set suspension) ids))"

definition explicitTerminalNodes :: "dag_graph \<Rightarrow> string jsset" where
  "explicitTerminalNodes g = fold (\<lambda>e t. if isTerminalEdge e then set_add (from_node e) t else t) (edges g) []"

section \<open>Cycles\<close>

text \<open>Colours as in the code: 0 not visited, 1 on the path, 2 finished.\<close>

record dfs_state =
  color :: "(string, nat) jsmap"
  path :: "string list"
  cycles :: "string list list"

definition dfs_enter :: "string \<Rightarrow> dfs_state \<Rightarrow> dfs_state" where
  "dfs_enter n st = st\<lparr>color := AList.update n 1 (color st), path := path st @ [n]\<rparr>"

definition dfs_leave :: "string \<Rightarrow> dfs_state \<Rightarrow> dfs_state" where
  "dfs_leave n st = st\<lparr>color := AList.update n 2 (color st), path := butlast (path st)\<rparr>"

definition dfs_cycle :: "string \<Rightarrow> dfs_state \<Rightarrow> dfs_state" where
  "dfs_cycle n st = st\<lparr>cycles := cycles st @ [dropWhile (\<lambda>x. x \<noteq> n) (path st) @ [n]]\<rparr>"

definition white :: "dfs_state \<Rightarrow> string set" where
  "white st = {k. map_of (color st) k = Some 0}"

lemma finite_white [simp]: "finite (white st)"
proof (rule finite_subset)
  show "white st \<subseteq> dom (map_of (color st))" by (auto simp: white_def)
qed (simp add: finite_dom_map_of)

lemma white_simps [simp]:
  "white (dfs_enter n st) = white st - {n}"
  "white (dfs_leave n st) = white st - {n}"
  "white (dfs_cycle n st) = white st"
  by (auto simp: white_def dfs_enter_def dfs_leave_def dfs_cycle_def)

text \<open>
  \<open>dfs adj ns st\<close> is the loop over the successors \<open>ns\<close> still to look at; the recursive
  \<open>visit(next)\<close> enters the node, runs its own loop and leaves it.
\<close>

function dfs :: "(string, string list) jsmap \<Rightarrow> string list \<Rightarrow> dfs_state \<Rightarrow> dfs_state" where
  "dfs adj [] st = st"
| "dfs adj (n # ns) st =
     (case map_of (color st) n of
        None \<Rightarrow> dfs adj ns st
      | Some c \<Rightarrow>
          if c = 1 then dfs adj ns (dfs_cycle n st)
          else if c = 0 then dfs adj ns (dfs_leave n (dfs adj (adj_of adj n) (dfs_enter n st)))
          else dfs adj ns st)"
  by pat_completeness auto

lemma dfs_white_dom: "dfs_dom (adj, ns, st) \<Longrightarrow> white (dfs adj ns st) \<subseteq> white st"
proof (induction adj ns st rule: dfs.pinduct)
  case (2 adj n ns st)
  then show ?case by (simp add: dfs.psimps split: option.split) blast
qed (simp add: dfs.psimps)

termination dfs
proof (relation "measures [\<lambda>(adj, ns, st). card (white st), \<lambda>(adj, ns, st). length ns]", goal_cases)
  case (4 adj n ns st c)
  then have "n \<in> white st" by (simp add: white_def)
  then have "card (white st - {n}) < card (white st)" by (rule card_Diff1_less [OF finite_white])
  then show ?case by (simp del: card_Diff_insert card_Diff_singleton)
next
  case (5 adj n ns st c)
  then have n: "n \<in> white st" by (simp add: white_def)
  have "white (dfs_leave n (dfs adj (adj_of adj n) (dfs_enter n st))) \<subseteq> white st - {n}"
    using dfs_white_dom [OF 5(4)] by auto
  then have "card (white (dfs_leave n (dfs adj (adj_of adj n) (dfs_enter n st)))) \<le> card (white st - {n})"
    by (intro card_mono) simp_all
  also have "\<dots> < card (white st)" by (rule card_Diff1_less [OF finite_white n])
  finally show ?case by simp
qed simp_all

definition visit :: "(string, string list) jsmap \<Rightarrow> string \<Rightarrow> dfs_state \<Rightarrow> dfs_state" where
  "visit adj n st = dfs_leave n (dfs adj (adj_of adj n) (dfs_enter n st))"

definition detectCycles :: "dag_graph \<Rightarrow> string list list" where
  "detectCycles g =
     (let ids = node_ids g;
          start = \<lparr>color = fold (\<lambda>i c. AList.update i 0 c) ids [], path = [], cycles = []\<rparr>
      in cycles (fold (\<lambda>i st. if map_of (color st) i = Some 0 then visit (adjacency g) i st else st) ids start))"

section \<open>Reachability\<close>

definition adj_targets :: "(string, string list) jsmap \<Rightarrow> string set" where
  "adj_targets adj = (\<Union>ns \<in> snd ` set adj. set ns)"

lemma finite_adj_targets [simp]: "finite (adj_targets adj)"
  by (simp add: adj_targets_def)

lemma adj_of_targets: "set (adj_of adj n) \<subseteq> adj_targets adj"
proof (cases "map_of adj n")
  case (Some ns)
  then have "(n, ns) \<in> set adj" by (rule map_of_SomeD)
  with Some show ?thesis by (auto simp: adj_of_def adj_targets_def intro!: bexI [of _ "(n, ns)"])
qed (simp add: adj_of_def)

function isReachableLoop :: "(string, string list) jsmap \<Rightarrow> string \<Rightarrow> string list \<Rightarrow> string jsset \<Rightarrow> bool" where
  "isReachableLoop adj target [] visited = False"
| "isReachableLoop adj target (n # queue) visited =
     (if n = target then True
      else if n \<in> set visited then isReachableLoop adj target queue visited
      else isReachableLoop adj target (queue @ filter (\<lambda>m. m \<notin> set (set_add n visited)) (adj_of adj n)) (set_add n visited))"
  by pat_completeness auto
termination isReachableLoop
proof (relation "measures [\<lambda>(adj, t, queue, visited). card ((adj_targets adj \<union> set queue) - set visited),
    \<lambda>(adj, t, queue, visited). length queue]", goal_cases)
  case (2 adj target n queue visited)
  have "card (adj_targets adj \<union> set queue - set visited) \<le> card (adj_targets adj \<union> set (n # queue) - set visited)"
    by (intro card_mono) auto
  with 2 show ?case by (auto simp: le_less)
next
  case (3 adj target n queue visited)
  have "card (adj_targets adj \<union> set (queue @ filter (\<lambda>m. m \<notin> set (set_add n visited)) (adj_of adj n)) - set (set_add n visited))
      < card (adj_targets adj \<union> set (n # queue) - set visited)"
    using 3 adj_of_targets [of adj n] by (intro psubset_card_mono) auto
  then show ?case by simp
qed simp

definition isReachable :: "(string, string list) jsmap \<Rightarrow> string \<Rightarrow> string \<Rightarrow> bool" where
  "isReachable adj fromNode toNode = isReachableLoop adj toNode [fromNode] []"

text \<open>The loop of \<open>_unreachableNodes\<close>: a node is marked when it is queued.\<close>

fun queueNew :: "string list \<Rightarrow> string list \<times> string jsset \<Rightarrow> string list \<times> string jsset" where
  "queueNew [] st = st"
| "queueNew (m # ms) (queue, visited) =
     (if m \<in> set visited then queueNew ms (queue, visited)
      else queueNew ms (queue @ [m], set_add m visited))"

lemma queueNew_sets:
  "queueNew ms (queue, visited) = (queue', visited') \<Longrightarrow>
   set visited' = set visited \<union> set ms \<and> set queue' = set queue \<union> (set ms - set visited)
   \<and> length queue' = length queue + card (set ms - set visited)"
proof (induction ms arbitrary: queue visited)
  case (Cons m ms)
  show ?case
  proof (cases "m \<in> set visited")
    case True
    then have "set (m # ms) - set visited = set ms - set visited" by auto
    with True Cons show ?thesis by auto
  next
    case False
    have "card (set (m # ms) - set visited) = Suc (card (set ms - insert m (set visited)))"
    proof -
      have "set (m # ms) - set visited = insert m (set ms - insert m (set visited))" using False by auto
      then show ?thesis by simp
    qed
    with False Cons show ?thesis by fastforce
  qed
qed simp

function unreachableLoop :: "(string, string list) jsmap \<Rightarrow> string list \<Rightarrow> string jsset \<Rightarrow> string jsset" where
  "unreachableLoop adj [] visited = visited"
| "unreachableLoop adj (n # queue) visited =
     (case queueNew (adj_of adj n) (queue, visited) of
        (queue', visited') \<Rightarrow> unreachableLoop adj queue' visited')"
  by pat_completeness auto
termination unreachableLoop
proof (relation "measure (\<lambda>(adj, queue, visited). card (adj_targets adj - set visited) + length queue)", goal_cases)
  case (2 adj n queue visited queue' visited')
  let ?new = "set (adj_of adj n) - set visited"
  from 2 have s: "set visited' = set visited \<union> set (adj_of adj n)" "length queue' = length queue + card ?new"
    using queueNew_sets [OF sym] by simp_all
  have "adj_targets adj - set visited' = (adj_targets adj - set visited) - ?new" by (auto simp: s)
  moreover have sub: "?new \<subseteq> adj_targets adj - set visited" using adj_of_targets [of adj n] by auto
  ultimately have "card (adj_targets adj - set visited') = card (adj_targets adj - set visited) - card ?new"
    by (simp add: card_Diff_subset finite_subset)
  moreover have "card ?new \<le> card (adj_targets adj - set visited)" using sub by (intro card_mono) simp_all
  ultimately show ?case by (simp add: s(2))
qed simp

definition unreachableNodes :: "dag_graph \<Rightarrow> string list \<Rightarrow> string list" where
  "unreachableNodes g entries =
     (let visited = unreachableLoop (adjacency g) entries (remdups entries)
      in sort (filter (\<lambda>i. i \<notin> set visited) (remdups (node_ids g))))"

section \<open>Gateway configurations\<close>

definition JOIN_MODES :: "string list" where
  "JOIN_MODES = [''all'', ''any'', ''n_of_m'']"

definition WHILE_OPERATORS :: "string list" where
  "WHILE_OPERATORS = [''eq'', ''ne'', ''gt'', ''gte'', ''lt'', ''lte'', ''truthy'', ''falsy'']"

definition AWAIT_COMMAND_CONFIG_FIELDS :: "string list" where
  "AWAIT_COMMAND_CONFIG_FIELDS =
     [''type'', ''kind'', ''primitive_version'', ''target_actors'', ''expires_after_ms'', ''command_port'']"

text \<open>\<open>set.has(v)\<close> for a set of strings and a value of any type.\<close>

fun strings_have :: "string list \<Rightarrow> js \<Rightarrow> bool" where
  "strings_have xs (JStr s) = (s \<in> set xs)"
| "strings_have xs _ = False"

text \<open>
  \<open>NODE_IDENTIFIER\<close>, \<open>/^[a-z][a-z0-9]*(?:[-_][a-z0-9]+)*$/\<close>: a lower-case letter, then letters,
  digits and separators, no separator following another or ending the string.
\<close>

definition lower_letter :: "char \<Rightarrow> bool" where
  "lower_letter c \<longleftrightarrow> (let n = of_char c :: nat in 97 \<le> n \<and> n \<le> 122)"

definition lower_alnum :: "char \<Rightarrow> bool" where
  "lower_alnum c \<longleftrightarrow> (let n = of_char c :: nat in (97 \<le> n \<and> n \<le> 122) \<or> (48 \<le> n \<and> n \<le> 57))"

fun ident_rest :: "bool \<Rightarrow> string \<Rightarrow> bool" where
  "ident_rest afterAlnum [] = afterAlnum"
| "ident_rest afterAlnum (c # cs) =
     (if lower_alnum c then ident_rest True cs
      else if c = CHR ''-'' \<or> c = CHR ''_'' then afterAlnum \<and> ident_rest False cs
      else False)"

definition NODE_IDENTIFIER :: "string \<Rightarrow> bool" where
  "NODE_IDENTIFIER s = (case s of [] \<Rightarrow> False | c # cs \<Rightarrow> lower_letter c \<and> ident_rest True cs)"

fun js_identifier :: "js \<Rightarrow> bool" where
  "js_identifier (JStr s) = NODE_IDENTIFIER s"
| "js_identifier _ = False"

definition js_int_below :: "js \<Rightarrow> int \<Rightarrow> bool" where
  "js_int_below v k = (case v of JNum n \<Rightarrow> num_int n < k | _ \<Rightarrow> False)"

text \<open>\<open>new Map(nodes.map((node) => [node.node_id, node]))\<close>: the last node of an id wins.\<close>

definition nodesById :: "dag_graph \<Rightarrow> string \<Rightarrow> dag_node option" where
  "nodesById g n = find (\<lambda>nd. node_id nd = n) (rev (nodes g))"

definition joinErrors :: "dag_graph \<Rightarrow> dag_node \<Rightarrow> graph_error list" where
  "joinErrors g nd =
     (let dependencies = after nd;
          routedSources = remdups (map from_node (filter (\<lambda>e. to_node e = node_id nd \<and> \<not> is_after_dep e) (edges g)));
          unawaited = filter (\<lambda>s. s \<notin> set dependencies) routedSources;
          mode = js_nullish (opt_get (gateway_config nd) ''mode'') (JStr ''all'');
          threshold = opt_get (gateway_config nd) ''threshold''
      in (if dependencies = [] then [JoinNoDependency (node_id nd)] else [])
         @ (if unawaited \<noteq> [] then [JoinUndeclaredInputs (node_id nd) (sort unawaited)] else [])
         @ (if \<not> strings_have JOIN_MODES mode then [JoinUnsupportedMode (node_id nd) mode] else [])
         @ (if js_strict_eq mode (JStr ''n_of_m'')
            then (if \<not> js_is_integer threshold \<or> js_int_below threshold 1 then [JoinThresholdNotPositive (node_id nd)]
                  else if \<not> js_int_below threshold (int (length routedSources) + 1)
                  then [JoinThresholdExceeds (node_id nd) threshold (length routedSources)]
                  else [])
            else []))"

definition whileErrors :: "dag_node \<Rightarrow> graph_error list" where
  "whileErrors nd =
     (let operator = js_nullish (opt_get (gateway_config nd) ''operator'') (JStr ''eq'');
          maxIterations = js_nullish (opt_get (gateway_config nd) ''max_iterations'') (JNum (Fin 3))
      in (if \<not> strings_have WHILE_OPERATORS operator then [WhileUnsupportedOperator (node_id nd) operator] else [])
         @ (if \<not> js_is_integer maxIterations \<or> js_int_below maxIterations 1 then [WhileMaxIterations (node_id nd)] else []))"

fun targetActorErrors :: "dag_graph \<Rightarrow> dag_node \<Rightarrow> nat \<Rightarrow> js list \<Rightarrow> string jsset \<Rightarrow> graph_error list" where
  "targetActorErrors g nd index [] seen = []"
| "targetActorErrors g nd index (t # ts) seen =
     (case t of
        JStr a \<Rightarrow>
          if \<not> NODE_IDENTIFIER a then AwaitTargetInvalid (node_id nd) index # targetActorErrors g nd (Suc index) ts seen
          else if a \<in> set seen then AwaitTargetDuplicate (node_id nd) a # targetActorErrors g nd (Suc index) ts seen
          else if a = node_id nd then AwaitTargetSelf (node_id nd) # targetActorErrors g nd (Suc index) ts (set_add a seen)
          else (case nodesById g a of
                  None \<Rightarrow> [AwaitTargetUnknown (node_id nd) a]
                | Some target \<Rightarrow>
                    if isGatewayNodeType (node_type target) \<or> node_type target \<noteq> ''agent''
                    then [AwaitTargetNotAgent (node_id nd) a] else [])
               @ targetActorErrors g nd (Suc index) ts (set_add a seen)
      | _ \<Rightarrow> AwaitTargetInvalid (node_id nd) index # targetActorErrors g nd (Suc index) ts seen)"

definition awaitErrors :: "dag_graph \<Rightarrow> dag_node \<Rightarrow> graph_error list" where
  "awaitErrors g nd =
     (let config = gateway_config nd;
          fields = (case config of None \<Rightarrow> [] | Some fs \<Rightarrow> map_keys fs);
          unknown = filter (\<lambda>f. f \<notin> set AWAIT_COMMAND_CONFIG_FIELDS) fields;
          version = opt_get config ''primitive_version'';
          expires = opt_get config ''expires_after_ms'';
          port = opt_get config ''command_port'';
          targets = opt_get config ''target_actors''
      in (if outputs nd \<noteq> [] then [AwaitOutputs (node_id nd)] else [])
         @ (if list_ex (\<lambda>e. from_node e = node_id nd) (edges g) then [AwaitOutgoing (node_id nd)] else [])
         @ (if unknown \<noteq> [] then [AwaitUnknownFields (node_id nd) (sort unknown)] else [])
         @ (if \<not> js_strict_eq version (JNum (Fin 1)) \<or> \<not> js_is_integer version then [AwaitVersion (node_id nd)] else [])
         @ (if expires \<noteq> JUndef \<and> (\<not> js_is_integer expires \<or> js_int_below expires 1000) then [AwaitExpires (node_id nd)] else [])
         @ (if port \<noteq> JUndef \<and> \<not> js_identifier port then [AwaitCommandPort (node_id nd)] else [])
         @ (if targets \<noteq> JUndef
            then (case targets of
                    JArr ts \<Rightarrow> if 256 < length ts then [AwaitTargets (node_id nd)] else targetActorErrors g nd 0 ts []
                  | _ \<Rightarrow> [AwaitTargets (node_id nd)])
            else []))"

definition gatewayConfigErrors :: "dag_graph \<Rightarrow> graph_error list" where
  "gatewayConfigErrors g =
     (let await = filter (\<lambda>nd. node_type nd = ''await_command_gateway'') (nodes g)
      in (if 1 < length await then [TooManyAwaitCommand (sort (map node_id await))] else [])
         @ concat (map (\<lambda>nd.
              (if node_type nd = ''join_gateway'' then joinErrors g nd else [])
              @ (if node_type nd = ''while_gateway'' then whileErrors nd else [])
              @ (if node_type nd = ''await_command_gateway'' then awaitErrors g nd else [])) (nodes g)))"

section \<open>The validator\<close>

definition edgeErrors :: "dag_graph \<Rightarrow> dag_edge \<Rightarrow> graph_error list" where
  "edgeErrors g e =
     (case retry_policy e of
        None \<Rightarrow> []
      | Some p \<Rightarrow> (case max_retries p of
            None \<Rightarrow> []
          | Some m \<Rightarrow> if \<not> num_is_integer m \<or> num_less m (Fin 0) then [EdgeMaxRetries e] else []))
     @ (if from_node e \<notin> set (node_ids g) then [EdgeUnknownFrom (from_node e)] else [])
     @ (if \<not> isTerminalEdge e \<and> to_node e \<notin> set (node_ids g) then [EdgeUnknownTo (to_node e)] else [])"

definition maxRetries :: "dag_edge \<Rightarrow> jsnum option" where
  "maxRetries e =
     (case retry_policy e of None \<Rightarrow> None
      | Some p \<Rightarrow> (case max_retries p of None \<Rightarrow> None
          | Some m \<Rightarrow> if num_is_finite m then Some m else None))"

definition lastIndex :: "string list \<Rightarrow> string \<Rightarrow> int" where
  "lastIndex ids n =
     (if n \<in> set ids then int (length ids) - 1 - int (length (takeWhile (\<lambda>x. x \<noteq> n) (rev ids))) else -1)"

definition orphanWarnings :: "dag_graph \<Rightarrow> graph_warning list" where
  "orphanWarnings g =
     (if 1 < length (node_ids g)
      then let connected = fold (\<lambda>e c.
                 let c' = (if from_node e \<in> set (node_ids g) then set_add (from_node e) c else c)
                 in if to_node e \<in> set (node_ids g) then set_add (to_node e) c' else c') (edges g) []
           in map OrphanNode (filter (\<lambda>i. i \<notin> set connected) (node_ids g))
      else [])"

definition deadEndWarnings :: "dag_graph \<Rightarrow> graph_warning list" where
  "deadEndWarnings g =
     (let outgoing = fold (\<lambda>e out. if from_node e \<in> set (node_ids g) \<and> \<not> isFailureEdge e
                 then set_add (from_node e) out else out) (edges g) []
      in map DeadEndNode (filter (\<lambda>i. i \<notin> set outgoing \<and> i \<notin> set (explicitTerminalNodes g)
           \<and> map_option node_type (find_node g i) \<noteq> Some ''await_command_gateway'') (node_ids g)))"

definition feedbackWarnings :: "dag_graph \<Rightarrow> graph_warning list" where
  "feedbackWarnings g = concat (map (\<lambda>e.
     (case maxRetries e of
        None \<Rightarrow> []
      | Some m \<Rightarrow>
          if \<not> isFailureEdge e \<or> isTerminalEdge e \<or> num_le m (Fin 10)
             \<or> from_node e \<notin> set (node_ids g) \<or> to_node e \<notin> set (node_ids g) then []
          else if isReachable (adjacency g) (to_node e) (from_node e)
                  \<or> lastIndex (node_ids g) (to_node e) < lastIndex (node_ids g) (from_node e)
               then [FeedbackLoopRisk e m] else [])) (edges g))"

definition validateGraph :: "dag_graph \<Rightarrow> validation_result" where
  "validateGraph g =
     (let entries = entryNodes g;
          errors = gatewayConfigErrors g
            @ (if node_ids g = [] then [NoNodes] else [])
            @ concat (map (edgeErrors g) (edges g))
            @ map CycleDetected (detectCycles g)
            @ map UnreachableNode (unreachableNodes g entries)
      in \<lparr>vr_valid = (errors = []), vr_errors = errors,
          vr_warnings = orphanWarnings g @ deadEndWarnings g @ feedbackWarnings g,
          node_count = length (node_ids g), edge_count = length (edges g),
          entry_nodes = entries, terminal_nodes = terminalNodes g\<rparr>)"

definition assertGraphValid :: "dag_graph \<Rightarrow> graph_error list + unit" where
  "assertGraphValid g = (let result = validateGraph g in if vr_valid result then Inr () else Inl (vr_errors result))"

end
