(* ===== verification/Yaml_Loader.thy ===== *)
theory Yaml_Loader
  imports Graph_Validator
begin

text \<open>
  \<open>orchestration/yaml-loader.ts\<close>: from the parsed YAML document of a workflow to the validated
  graph and its loop sources. \<open>YAML.parse\<close> is a third-party function and a parameter: it gives
  the document's \<open>nodes\<close> object in key order and the rest of the document, or nothing when the
  root is not an object.
\<close>

record node_config =
  cfg_agent :: "string option"
  cfg_type :: "string option"
  cfg_node_type :: "string option"
  cfg_gateway_config :: "(string \<times> js) list option"
  cfg_gateway :: "(string \<times> js) list option"
  cfg_after :: "string list option"
  cfg_outputs :: "(string \<times> output_route) list option"
  cfg_name :: "string option"
  cfg_description :: "string option"
  cfg_image :: "string option"
  cfg_container_group :: "string option"
  cfg_requires :: js
  cfg_extra :: "(string \<times> js) list option"

record yaml_doc =
  doc_meta :: js
  doc_image :: "string option"
  doc_nodes :: "(string \<times> node_config) list option"

datatype yaml_error =
    RootNotObject
  | NoNodesSection
  | GatewayKindNotString string
  | InvalidGraph "graph_error list"

section \<open>Edges of a node\<close>

definition line_terminator :: "char \<Rightarrow> bool" where
  "line_terminator c \<longleftrightarrow> of_char c = (10 :: nat) \<or> of_char c = (13 :: nat)"

text \<open>\<open>/^([^\.]+)(?:\.in:(.*))?$/\<close>: the first part ends at the first dot.\<close>

definition parseTarget :: "string \<Rightarrow> string \<Rightarrow> string \<times> string" where
  "parseTarget target sourcePort =
     (if target = [] then ([], [])
      else let head = takeWhile (\<lambda>c. c \<noteq> CHR ''.'') target; rest = dropWhile (\<lambda>c. c \<noteq> CHR ''.'') target
           in if head = [] then (target, sourcePort)
              else if rest = [] then (head, sourcePort)
              else if take 4 rest = ''.in:'' \<and> \<not> list_ex line_terminator (drop 4 rest) then (head, drop 4 rest)
              else (target, sourcePort))"

definition normalizeOutputCondition :: "string \<Rightarrow> string option \<Rightarrow> string" where
  "normalizeOutputCondition port raw =
     (case raw of
        Some c \<Rightarrow> if c = ''on_success'' \<or> c = ''on_failure'' \<or> c = ''always'' then c
                  else if to_lower port \<in> set FAILURE_PORT_NAMES then ''on_failure'' else ''on_success''
      | None \<Rightarrow> if to_lower port \<in> set FAILURE_PORT_NAMES then ''on_failure'' else ''on_success'')"

definition normalizeOutputsToEdges :: "(string \<times> output_route) list \<Rightarrow> string \<Rightarrow> dag_edge list" where
  "normalizeOutputsToEdges outs n =
     concat (map (\<lambda>(port, route).
       map (\<lambda>t. let (target, toPort) = parseTarget t port
                in \<lparr>from_node = n, from_port = port, to_node = target, to_port = toPort,
                    condition = normalizeOutputCondition port (route_condition route), label = None,
                    retry_policy = route_retry route, terminal_outcome = None\<rparr>)
           (case route_to route of To_One t \<Rightarrow> [t] | To_Many ts \<Rightarrow> ts)) outs)"

definition normalizeRequirements :: "js \<Rightarrow> string list option" where
  "normalizeRequirements v =
     (case v of
        JObj fs \<Rightarrow>
          (case obj_get fs ''capabilities'' of
             JArr cs \<Rightarrow>
               let names = filter (\<lambda>c. c \<noteq> []) (map js_trim (concat (map (\<lambda>c. case c of JStr s \<Rightarrow> [s] | _ \<Rightarrow> []) cs)))
               in if names \<noteq> [] then Some names else None
           | _ \<Rightarrow> None)
      | _ \<Rightarrow> None)"

text \<open>\<open>(gateway?.kind ?? gateway?.type ?? "").trim()\<close>: a value that is not a string has no \<open>trim\<close>.\<close>

definition gatewayKind :: "(string \<times> js) list option \<Rightarrow> string option" where
  "gatewayKind gateway =
     (case js_nullish (opt_get gateway ''kind'') (js_nullish (opt_get gateway ''type'') (JStr [])) of
        JStr s \<Rightarrow> Some (js_trim s) | _ \<Rightarrow> None)"

definition first_some :: "'a option \<Rightarrow> 'a option \<Rightarrow> 'a option" where
  "first_some a b = (case a of None \<Rightarrow> b | Some x \<Rightarrow> Some x)"

definition or_default :: "'a \<Rightarrow> 'a option \<Rightarrow> 'a" where
  "or_default d a = (case a of None \<Rightarrow> d | Some x \<Rightarrow> x)"

definition normalizeNodeType :: "string \<Rightarrow> node_config \<Rightarrow> yaml_error + string" where
  "normalizeNodeType n cfg =
     (let rawType = js_trim (or_default [] (first_some (cfg_node_type cfg) (cfg_type cfg)));
          gateway = first_some (cfg_gateway_config cfg) (cfg_gateway cfg)
      in case gatewayKind gateway of
           None \<Rightarrow> Inl (GatewayKindNotString n)
         | Some kind \<Rightarrow>
             let type = (if rawType \<noteq> [] then rawType else if gateway \<noteq> None then ''gateway'' else ''agent'')
             in Inr (if type = ''loop'' \<or> type = ''loop_gateway'' then ''loop_gateway''
                     else if type = ''condition'' \<or> type = ''condition_gateway'' then ''condition_gateway''
                     else if type = ''join'' \<or> type = ''join_gateway'' then ''join_gateway''
                     else if type = ''while'' \<or> type = ''while_gateway'' then ''while_gateway''
                     else if type = ''await_command'' \<or> type = ''await_command_gateway'' then ''await_command_gateway''
                     else if type = ''gateway'' \<and> kind = ''loop'' then ''loop_gateway''
                     else if type = ''gateway'' \<and> kind = ''condition'' then ''condition_gateway''
                     else if type = ''gateway'' \<and> kind = ''join'' then ''join_gateway''
                     else if type = ''gateway'' \<and> kind = ''while'' then ''while_gateway''
                     else if type = ''gateway'' \<and> kind = ''await_command'' then ''await_command_gateway''
                     else type))"

definition loaderIsGateway :: "string \<Rightarrow> bool" where
  "loaderIsGateway t \<longleftrightarrow>
     t = ''loop_gateway'' \<or> t = ''condition_gateway'' \<or> t = ''join_gateway'' \<or> t = ''while_gateway''
     \<or> t = ''command_gateway'' \<or> t = ''approval_gateway'' \<or> t = ''state_gateway''
     \<or> t = ''fanout_gateway'' \<or> t = ''await_command_gateway''"

section \<open>Loop sources\<close>

text \<open>
  Kahn's algorithm over all edges between known nodes; the degrees are the code's, decremented
  past zero where it does so. \<open>relax\<close> is the loop over the successors of the node taken.
\<close>

type_synonym degrees = "(string, int) jsmap"

definition degree_of :: "degrees \<Rightarrow> string \<Rightarrow> int" where
  "degree_of deg n = (case map_of deg n of None \<Rightarrow> 0 | Some d \<Rightarrow> d)"

fun relax :: "string list \<Rightarrow> degrees \<times> string list \<Rightarrow> degrees \<times> string list" where
  "relax [] st = st"
| "relax (m # ms) (deg, queue) =
     (let d = degree_of deg m - 1
      in relax ms (AList.update m d deg, if d = 0 then queue @ [m] else queue))"

definition positive :: "degrees \<Rightarrow> string set" where
  "positive deg = {n. 0 < degree_of deg n}"

lemma finite_positive [simp]: "finite (positive deg)"
proof (rule finite_subset)
  show "positive deg \<subseteq> dom (map_of deg)" by (auto simp: positive_def degree_of_def split: option.splits)
qed (simp add: finite_dom_map_of)

lemma degree_of_update [simp]: "degree_of (AList.update m d deg) n = (if n = m then d else degree_of deg n)"
  by (simp add: degree_of_def)

lemma relax_measure:
  "relax ms (deg, queue) = (deg', queue') \<Longrightarrow>
   card (positive deg') + length queue' \<le> card (positive deg) + length queue"
proof (induction ms arbitrary: deg queue)
  case (Cons m ms)
  let ?d = "degree_of deg m - 1"
  have "card (positive (AList.update m ?d deg)) + length (if ?d = 0 then queue @ [m] else queue)
      \<le> card (positive deg) + length queue"
  proof (cases "?d = 0")
    case True
    then have "positive (AList.update m ?d deg) = positive deg - {m}" "m \<in> positive deg"
      by (auto simp: positive_def)
    then show ?thesis using True card_Diff1_less [of "positive deg" m] by simp
  next
    case False
    have "positive (AList.update m ?d deg) \<subseteq> positive deg" by (auto simp: positive_def)
    then show ?thesis using False by (simp add: card_mono)
  qed
  moreover have "relax ms (AList.update m ?d deg, if ?d = 0 then queue @ [m] else queue) = (deg', queue')"
    using Cons.prems by (simp add: Let_def)
  ultimately show ?case using Cons.IH by (blast intro: order.trans)
qed simp

function kahn :: "(string, string list) jsmap \<Rightarrow> degrees \<Rightarrow> string list \<Rightarrow> string list \<Rightarrow> degrees \<times> string list" where
  "kahn adj deg [] topo = (deg, topo)"
| "kahn adj deg (n # queue) topo =
     (case relax (adj_of adj n) (deg, queue) of (deg', queue') \<Rightarrow> kahn adj deg' queue' (topo @ [n]))"
  by pat_completeness auto
termination kahn
  by (relation "measure (\<lambda>(adj, deg, queue, topo). card (positive deg) + length queue)")
    (auto dest!: relax_measure [OF sym])

text \<open>
  Nodes on a cycle are appended in the order of the document. (The code also keeps a
  \<open>remainingDegree\<close> map in this loop, which nothing reads.)
\<close>

function appendRemaining :: "string list \<Rightarrow> string list \<Rightarrow> string list \<Rightarrow> string list" where
  "appendRemaining ids remaining topo =
     (if remaining = [] then topo
      else let best = hd (sort_key (lastIndex ids) remaining)
           in appendRemaining ids (set_del best remaining) (topo @ [best]))"
  by pat_completeness auto
termination appendRemaining
proof (relation "measure (\<lambda>(ids, remaining, topo). length remaining)", goal_cases)
  case (2 ids remaining topo best)
  have "best \<in> set remaining"
    using 2 by (metis hd_in_set set_empty set_sort)
  then show ?case by (simp add: set_del_def length_filter_less)
qed simp

declare appendRemaining.simps [simp del]

definition validEdges :: "dag_edge list \<Rightarrow> string list \<Rightarrow> dag_edge list" where
  "validEdges es ids = filter (\<lambda>e. to_node e \<noteq> [] \<and> from_node e \<in> set ids \<and> to_node e \<in> set ids) es"

definition topoOrder :: "dag_edge list \<Rightarrow> string list \<Rightarrow> string list" where
  "topoOrder es ids =
     (let valid = validEdges es ids;
          (adj, deg) = fold (\<lambda>e (adj, deg).
              (AList.update (from_node e) (adj_of adj (from_node e) @ [to_node e]) adj,
               AList.update (to_node e) (degree_of deg (to_node e) + 1) deg)) valid
            (fold (\<lambda>i m. AList.update i [] m) ids [], fold (\<lambda>i m. AList.update i 0 m) ids []);
          (deg', topo) = kahn adj deg (map fst (filter (\<lambda>(i, d). d = 0) deg)) []
      in appendRemaining ids (rev (remdups (rev (filter (\<lambda>i. i \<notin> set topo) ids)))) topo)"

definition lastNode :: "dag_node list \<Rightarrow> string \<Rightarrow> dag_node option" where
  "lastNode nds n = find (\<lambda>nd. node_id nd = n) (rev nds)"

definition feedsLoopGateway :: "dag_node list \<Rightarrow> dag_edge \<Rightarrow> bool" where
  "feedsLoopGateway nds e =
     (case lastNode nds (to_node e) of None \<Rightarrow> False
      | Some t \<Rightarrow> node_type t = ''loop_gateway'' \<or> node_type t = ''while_gateway'')"

definition detectLoopSources :: "dag_edge list \<Rightarrow> dag_node list \<Rightarrow> string list" where
  "detectLoopSources es nds =
     (let ids = map node_id nds; topo = topoOrder es ids
      in sort (fold (\<lambda>e acc.
           if is_after_dep e \<or> to_node e = [] then acc
           else if feedsLoopGateway nds e
                then (case lastNode nds (from_node e) of
                        None \<Rightarrow> acc
                      | Some s \<Rightarrow> if to_node e \<in> set (after s) then set_add (to_node e) acc else acc)
           else if from_node e \<in> set topo \<and> to_node e \<in> set topo
                   \<and> lastIndex topo (to_node e) < lastIndex topo (from_node e)
                then set_add (to_node e) acc else acc) es []))"

section \<open>The document\<close>

definition loadNode :: "string option \<Rightarrow> string \<Rightarrow> node_config \<Rightarrow> yaml_error + (dag_node \<times> dag_edge list)" where
  "loadNode docImage n cfg =
     bindE (normalizeNodeType n cfg)
       (\<lambda>type.
          let isGateway = loaderIsGateway type;
              afters = or_default [] (cfg_after cfg);
              outs = or_default [] (cfg_outputs cfg)
          in Inr
            (\<lparr>node_id = n, name = or_default n (cfg_name cfg), description = or_default [] (cfg_description cfg),
              node_type = type, agent = or_default (if isGateway then ''__gateway__'' else []) (cfg_agent cfg),
              after = afters, outputs = outs,
              image = (if isGateway then cfg_image cfg else first_some (cfg_image cfg) docImage),
              container_group = cfg_container_group cfg, requires = normalizeRequirements (cfg_requires cfg),
              gateway_config = first_some (cfg_gateway_config cfg) (cfg_gateway cfg), extra = cfg_extra cfg\<rparr>,
             map (\<lambda>pred. \<lparr>from_node = pred, from_port = ''done'', to_node = n, to_port = ''task'',
                condition = ''on_success'', label = Some ''after_dep'', retry_policy = None, terminal_outcome = None\<rparr>) afters
             @ normalizeOutputsToEdges outs n))"

fun loadNodes :: "string option \<Rightarrow> (string \<times> node_config) list \<Rightarrow> dag_graph \<Rightarrow> yaml_error + dag_graph" where
  "loadNodes docImage [] g = Inr g"
| "loadNodes docImage ((n, cfg) # rest) g =
     bindE (loadNode docImage n cfg)
       (\<lambda>(nd, es). loadNodes docImage rest \<lparr>nodes = nodes g @ [nd], edges = edges g @ es\<rparr>)"

definition parseDAGYaml :: "(string \<Rightarrow> yaml_doc option) \<Rightarrow> string \<Rightarrow> yaml_error + parsed_dag" where
  "parseDAGYaml yamlParse text =
     (case yamlParse text of
        None \<Rightarrow> Inl RootNotObject
      | Some doc \<Rightarrow>
          throwIf (or_default [] (doc_nodes doc) = []) NoNodesSection
            (bindE (loadNodes (doc_image doc) (or_default [] (doc_nodes doc)) \<lparr>nodes = [], edges = []\<rparr>)
              (\<lambda>g. case assertGraphValid g of
                     Inl errors \<Rightarrow> Inl (InvalidGraph errors)
                   | Inr _ \<Rightarrow> Inr \<lparr>meta = doc_meta doc, pgraph = g, loop_sources = detectLoopSources (edges g) (nodes g)\<rparr>)))"

end
