(* ===== verification/Validator_Theorems.thy ===== *)
theory Validator_Theorems
  imports Graph_Validator Engine_Theorems
begin

text \<open>
  What validation means: the depth-first search reports a cycle exactly when the success edges
  have one, the reachability searches compute reachability, and a graph that passes has the
  properties the engine's liveness needs.
\<close>

section \<open>The success graph\<close>

definition success_rel :: "dag_graph \<Rightarrow> (string \<times> string) set" where
  "success_rel g = {(from_node e, to_node e) |e. e \<in> set (edges g) \<and> success_edge g e
     \<and> from_node e \<in> set (node_ids g) \<and> to_node e \<in> set (node_ids g)}"

lemma map_of_fold_update: "map_of (fold (\<lambda>i m. AList.update i v m) is m) k = (if k \<in> set is then Some v else map_of m k)"
  by (induction "is" arbitrary: m) auto

lemma adjacency_of:
  "map_of (adjacency g) n =
     (if n \<in> set (node_ids g) then Some (map to_node (filter (\<lambda>e. success_edge g e \<and> from_node e = n) (edges g))) else None)"
proof -
  let ?f = "\<lambda>e adj. if isFailureEdge e \<or> isTerminalEdge e \<or> isLoopFeedbackEdge g e then adj
             else case map_of adj (from_node e) of None \<Rightarrow> adj
                  | Some ns \<Rightarrow> AList.update (from_node e) (ns @ [to_node e]) adj"
  have "map_of (fold ?f es adj) n = map_option (\<lambda>ns. ns @ map to_node (filter (\<lambda>e. success_edge g e \<and> from_node e = n) es)) (map_of adj n)" for es adj
    by (induction es arbitrary: adj) (auto simp: success_edge_def option.map_ident split: option.split)
  then show ?thesis
    by (simp add: adjacency_def map_of_fold_update)
qed

lemma adj_of_adjacency:
  "set (adj_of (adjacency g) n) = {to_node e |e. e \<in> set (edges g) \<and> success_edge g e \<and> from_node e = n \<and> n \<in> set (node_ids g)}"
  by (auto simp: adj_of_def adjacency_of)

section \<open>Cycle detection\<close>

definition succs :: "(string, string list) jsmap \<Rightarrow> string set \<Rightarrow> (string \<times> string) set" where
  "succs adj K = {(a, b). b \<in> set (adj_of adj a) \<and> b \<in> K}"

lemma dfs_simps [simp]:
  "path (dfs_enter n st) = path st @ [n]" "path (dfs_leave n st) = butlast (path st)" "path (dfs_cycle n st) = path st"
  "cycles (dfs_enter n st) = cycles st" "cycles (dfs_leave n st) = cycles st"
  "cycles (dfs_cycle n st) = cycles st @ [dropWhile (\<lambda>x. x \<noteq> n) (path st) @ [n]]"
  "map_of (color (dfs_enter n st)) k = (if k = n then Some 1 else map_of (color st) k)"
  "map_of (color (dfs_leave n st)) k = (if k = n then Some 2 else map_of (color st) k)"
  "color (dfs_cycle n st) = color st"
  by (simp_all add: dfs_enter_def dfs_leave_def dfs_cycle_def)

lemma dfs_frame [frame]:
  "path (dfs adj ns st) = path st
   \<and> (\<forall>k. map_of (color (dfs adj ns st)) k = map_of (color st) k
         \<or> (map_of (color st) k = Some 0 \<and> map_of (color (dfs adj ns st)) k = Some 2))"
proof (induction adj ns st rule: dfs.induct)
  case (2 adj n ns st)
  show ?case
  proof (cases "map_of (color st) n")
    case (Some c)
    consider "c = 1" | "c = 0" | "c \<noteq> 0 \<and> c \<noteq> 1" by blast
    then show ?thesis
    proof cases
      case 1
      with 2(2) [OF Some] Some show ?thesis by simp
    next
      case c: 2
      let ?in = "dfs adj (adj_of adj n) (dfs_enter n st)"
      have i: "path ?in = path st @ [n]"
        "\<And>k. map_of (color ?in) k = map_of (color (dfs_enter n st)) k
          \<or> (map_of (color (dfs_enter n st)) k = Some 0 \<and> map_of (color ?in) k = Some 2)"
        using 2(3) [OF Some] c by simp_all
      from 2(4) [OF Some] c have o: "path (dfs adj ns (dfs_leave n ?in)) = path (dfs_leave n ?in)"
        "\<And>k. map_of (color (dfs adj ns (dfs_leave n ?in))) k = map_of (color (dfs_leave n ?in)) k
          \<or> (map_of (color (dfs_leave n ?in)) k = Some 0 \<and> map_of (color (dfs adj ns (dfs_leave n ?in))) k = Some 2)"
        by simp_all
      have "map_of (color (dfs adj ns (dfs_leave n ?in))) k = map_of (color st) k
         \<or> (map_of (color st) k = Some 0 \<and> map_of (color (dfs adj ns (dfs_leave n ?in))) k = Some 2)" for k
        using o(2) [of k] i(2) [of k] Some c by (auto split: if_splits)
      with o(1) i(1) Some c show ?thesis by simp
    next
      case 3
      with 2(5) [OF Some] Some show ?thesis by simp
    qed
  qed (use 2(1) in simp)
qed simp

lemma dfs_cycles_grow: "\<exists>cs. cycles (dfs adj ns st) = cycles st @ cs"
proof (induction adj ns st rule: dfs.induct)
  case (2 adj n ns st)
  show ?case
  proof (cases "map_of (color st) n")
    case (Some c)
    consider "c = 1" | "c = 0" | "c \<noteq> 0 \<and> c \<noteq> 1" by blast
    then show ?thesis
    proof cases
      case 1
      with 2(2) [OF Some] Some show ?thesis by auto
    next
      case c: 2
      from 2(3,4) [OF Some] c have
        "\<exists>cs. cycles (dfs adj (adj_of adj n) (dfs_enter n st)) = cycles st @ cs"
        "\<exists>cs. cycles (dfs adj ns (dfs_leave n (dfs adj (adj_of adj n) (dfs_enter n st))))
            = cycles (dfs adj (adj_of adj n) (dfs_enter n st)) @ cs" by simp_all
      then have "\<exists>cs. cycles (dfs adj ns (dfs_leave n (dfs adj (adj_of adj n) (dfs_enter n st)))) = cycles st @ cs"
        by auto
      with Some c show ?thesis by simp
    next
      case 3
      with 2(5) [OF Some] Some show ?thesis by simp
    qed
  qed (use 2(1) in simp)
qed simp

lemma dfs_no_cycles: "cycles (dfs adj ns st) = [] \<Longrightarrow> cycles st = []"
  using dfs_cycles_grow [of adj ns st] by auto

definition black :: "dfs_state \<Rightarrow> string set" where
  "black st = {k. map_of (color st) k = Some 2}"

definition colored :: "dfs_state \<Rightarrow> string set" where
  "colored st = {k. map_of (color st) k \<noteq> None}"

lemma colored_dfs [simp]: "colored (dfs adj ns st) = colored st"
proof -
  have "(map_of (color (dfs adj ns st)) k = None) = (map_of (color st) k = None)" for k
    using dfs_frame [of adj ns st] by (metis option.distinct(1))
  then show ?thesis by (simp add: colored_def)
qed

lemma colored_mark: "colored (dfs_enter n st) = insert n (colored st)" "colored (dfs_leave n st) = insert n (colored st)"
  by (auto simp: colored_def)

text \<open>Finished nodes are closed under success edges and lie on no cycle.\<close>

definition dfs_ok :: "(string, string list) jsmap \<Rightarrow> dfs_state \<Rightarrow> bool" where
  "dfs_ok adj st \<longleftrightarrow>
     (\<forall>k c. map_of (color st) k = Some c \<longrightarrow> c \<le> 2)
     \<and> succs adj (colored st) `` black st \<subseteq> black st
     \<and> (\<forall>x \<in> black st. (x, x) \<notin> (succs adj (colored st))\<^sup>+)"

lemma closed_trancl: "(x, y) \<in> r\<^sup>+ \<Longrightarrow> r `` B \<subseteq> B \<Longrightarrow> x \<in> B \<Longrightarrow> y \<in> B"
  by (induction rule: trancl_induct) auto

lemma closed_insert:
  assumes "r `` B \<subseteq> B" and "\<forall>x \<in> B. (x, x) \<notin> r\<^sup>+" and "r `` {n} \<subseteq> B" and "n \<notin> B"
  shows "r `` insert n B \<subseteq> insert n B" and "\<forall>x \<in> insert n B. (x, x) \<notin> r\<^sup>+"
proof -
  show "r `` insert n B \<subseteq> insert n B" using assms(1,3) by auto
  have "(n, n) \<notin> r\<^sup>+"
  proof
    assume "(n, n) \<in> r\<^sup>+"
    then obtain m where "(n, m) \<in> r" "m = n \<or> (m, n) \<in> r\<^sup>+" by (metis tranclD rtranclD)
    with assms(3) closed_trancl [OF _ assms(1)] assms(4) show False by blast
  qed
  with assms(2) show "\<forall>x \<in> insert n B. (x, x) \<notin> r\<^sup>+" by auto
qed

lemma dfs_complete:
  "cycles (dfs adj ns st) = [] \<Longrightarrow> dfs_ok adj st \<Longrightarrow>
   dfs_ok adj (dfs adj ns st) \<and> black st \<subseteq> black (dfs adj ns st)
   \<and> set ns \<inter> colored st \<subseteq> black (dfs adj ns st)"
proof (induction adj ns st rule: dfs.induct)
  case (2 adj n ns st)
  show ?case
  proof (cases "map_of (color st) n")
    case None
    with 2 show ?thesis by (auto simp: colored_def)
  next
    case (Some c)
    consider "c = 1" | "c = 0" | "c \<noteq> 0 \<and> c \<noteq> 1" by blast
    then show ?thesis
    proof cases
      case 1
      with Some "2.prems" dfs_cycles_grow [of adj ns "dfs_cycle n st"] show ?thesis by auto
    next
      case c: 2
      let ?in = "dfs adj (adj_of adj n) (dfs_enter n st)"
      let ?out = "dfs_leave n ?in"
      have col: "colored (dfs_enter n st) = colored st" "colored ?out = colored ?in" "colored ?in = colored (dfs_enter n st)"
        using Some by (auto simp: colored_mark) (auto simp: colored_def)
      have black_enter: "black (dfs_enter n st) = black st" using Some c by (auto simp: black_def)
      have enter: "dfs_ok adj (dfs_enter n st)"
        using "2.prems"(2) unfolding dfs_ok_def col(1) black_enter by auto
      have no: "cycles (dfs adj ns ?out) = []" using "2.prems"(1) Some c by simp
      then have "cycles ?in = []" using dfs_no_cycles [OF no] by simp
      with "2.IH"(3) [OF Some] c enter have inner: "dfs_ok adj ?in" "black st \<subseteq> black ?in"
        "set (adj_of adj n) \<inter> colored st \<subseteq> black ?in"
        by (simp_all add: black_enter col)
      have gray: "map_of (color ?in) n = Some 1" using dfs_frame [of adj "adj_of adj n" "dfs_enter n st"]
        by (auto dest: spec [of _ n])
      have black_out: "black ?out = insert n (black ?in)" by (auto simp: black_def)
      have "dfs_ok adj ?out"
        unfolding dfs_ok_def black_out col(2)
      proof (intro conjI)
        show "\<forall>k c. map_of (color ?out) k = Some c \<longrightarrow> c \<le> 2" using inner(1) by (auto simp: dfs_ok_def)
        have "succs adj (colored ?in) `` {n} \<subseteq> black ?in" using inner(3) by (auto simp: succs_def col)
        moreover have "n \<notin> black ?in" using gray by (simp add: black_def)
        ultimately show "succs adj (colored ?in) `` insert n (black ?in) \<subseteq> insert n (black ?in)"
          "\<forall>x \<in> insert n (black ?in). (x, x) \<notin> (succs adj (colored ?in))\<^sup>+"
          using inner(1) closed_insert [of "succs adj (colored ?in)" "black ?in" n] unfolding dfs_ok_def by blast+
      qed
      with "2.IH"(4) [OF Some] c no have o: "dfs_ok adj (dfs adj ns ?out)" "black ?out \<subseteq> black (dfs adj ns ?out)"
        "set ns \<inter> colored ?out \<subseteq> black (dfs adj ns ?out)" by simp_all
      have "colored ?out = colored st" using col by simp
      with o inner(2) have "black st \<subseteq> black (dfs adj ns ?out)" "set (n # ns) \<inter> colored st \<subseteq> black (dfs adj ns ?out)"
        unfolding black_out by auto
      with o(1) show ?thesis using Some c by simp
    next
      case 3
      moreover from Some "2.prems"(2) have "c \<le> 2" by (auto simp: dfs_ok_def)
      ultimately have "c = 2" by linarith
      with Some have "n \<in> black st" by (simp add: black_def)
      with 3 "2.IH"(5) [OF Some] "2.prems" Some show ?thesis by auto
    qed
  qed
qed auto

text \<open>A reported cycle is a walk along success edges back to its first node.\<close>

definition real_cycle :: "(string \<times> string) set \<Rightarrow> string list \<Rightarrow> bool" where
  "real_cycle r c \<longleftrightarrow> 2 \<le> length c \<and> hd c = last c \<and> successively (\<lambda>a b. (a, b) \<in> r) c"

lemma walk_rtrancl: "successively (\<lambda>a b. (a, b) \<in> r) (x # xs) \<Longrightarrow> (x, last (x # xs)) \<in> r\<^sup>*"
  by (induction xs arbitrary: x) (auto intro: converse_rtrancl_into_rtrancl)

lemma real_cycle_trancl: "real_cycle r c \<Longrightarrow> (hd c, hd c) \<in> r\<^sup>+"
proof -
  assume c: "real_cycle r c"
  then obtain x y zs where "c = x # y # zs" by (auto simp: real_cycle_def Suc_le_length_iff numeral_2_eq_2)
  moreover from this c have "(x, y) \<in> r" "(y, last (y # zs)) \<in> r\<^sup>*" "last (y # zs) = x"
    using walk_rtrancl [of r y zs] by (auto simp: real_cycle_def)
  ultimately show ?thesis by (auto intro: rtrancl_into_trancl2)
qed

definition path_ok :: "(string, string list) jsmap \<Rightarrow> dfs_state \<Rightarrow> bool" where
  "path_ok adj st \<longleftrightarrow> successively (\<lambda>a b. (a, b) \<in> succs adj (colored st)) (path st)
     \<and> (\<forall>k. map_of (color st) k = Some 1 \<longleftrightarrow> k \<in> set (path st))
     \<and> (\<forall>c \<in> set (cycles st). real_cycle (succs adj (colored st)) c)"

lemma path_ok_cycle:
  assumes ok: "path_ok adj st" and n: "map_of (color st) n = Some 1"
    and last: "n \<in> set (adj_of adj (last (path st)))"
  shows "path_ok adj (dfs_cycle n st)"
proof -
  let ?r = "succs adj (colored st)"
  let ?c = "dropWhile (\<lambda>x. x \<noteq> n) (path st)"
  from ok n have mem: "n \<in> set (path st)" by (simp add: path_ok_def)
  then have "?c \<noteq> []" by (auto simp: dropWhile_eq_Nil_conv)
  then have "hd ?c = n" using hd_dropWhile [of "\<lambda>x. x \<noteq> n" "path st"] by simp
  with \<open>?c \<noteq> []\<close> obtain ys where c: "?c = n # ys" by (cases ?c) auto
  from ok have "successively (\<lambda>a b. (a, b) \<in> ?r) (takeWhile (\<lambda>x. x \<noteq> n) (path st) @ ?c)"
    by (simp add: path_ok_def)
  then have s: "successively (\<lambda>a b. (a, b) \<in> ?r) ?c" by (simp only: successively_append_iff)
  have "last ?c = last (path st)" using c by (metis last_appendR list.distinct(1) takeWhile_dropWhile_id)
  moreover have "n \<in> colored st" using n by (simp add: colored_def)
  ultimately have "(last ?c, n) \<in> ?r" using last by (simp add: succs_def)
  with s have "successively (\<lambda>a b. (a, b) \<in> ?r) (?c @ [n])" by (simp add: successively_append_iff)
  then have "real_cycle ?r (?c @ [n])" using c by (simp add: real_cycle_def)
  with ok show ?thesis by (auto simp: path_ok_def colored_def)
qed

lemma dfs_sound:
  "path_ok adj st \<Longrightarrow> \<forall>n \<in> set ns. path st \<noteq> [] \<longrightarrow> n \<in> set (adj_of adj (last (path st))) \<Longrightarrow> path_ok adj (dfs adj ns st)"
proof (induction adj ns st rule: dfs.induct)
  case (2 adj n ns st)
  show ?case
  proof (cases "map_of (color st) n")
    case (Some c)
    consider "c = 1" | "c = 0" | "c \<noteq> 0 \<and> c \<noteq> 1" by blast
    then show ?thesis
    proof cases
      case 1
      with Some "2.prems"(1) have "path st \<noteq> []" by (auto simp: path_ok_def dest: spec [of _ n])
      then have "path_ok adj (dfs_cycle n st)" using 1 "2.prems" Some by (intro path_ok_cycle) auto
      with 1 "2.IH"(2) [OF Some] "2.prems"(2) Some show ?thesis by simp
    next
      case c: 2
      let ?in = "dfs adj (adj_of adj n) (dfs_enter n st)"
      have col: "colored (dfs_enter n st) = colored st" "colored (dfs_leave n ?in) = colored st"
        using Some by (auto simp: colored_mark) (auto simp: colored_def)
      have step: "path st \<noteq> [] \<longrightarrow> (last (path st), n) \<in> succs adj (colored st)"
        using "2.prems"(2) Some by (auto simp: succs_def colored_def)
      have "path_ok adj (dfs_enter n st)"
        using "2.prems" step Some c unfolding path_ok_def col by (auto simp: successively_append_iff)
      with "2.IH"(3) [OF Some] c have inner: "path_ok adj ?in" by simp
      have p: "path ?in = path st @ [n]" using dfs_frame [of adj "adj_of adj n" "dfs_enter n st"] by simp
      have "n \<notin> set (path st)" using "2.prems"(1) Some c by (auto simp: path_ok_def dest: spec [of _ n])
      then have "path_ok adj (dfs_leave n ?in)"
        using inner p col unfolding path_ok_def by (auto simp: successively_append_iff)
      with "2.IH"(4) [OF Some] c "2.prems"(2) p Some show ?thesis by simp
    next
      case 3
      with "2.IH"(5) [OF Some] "2.prems" Some show ?thesis by simp
    qed
  qed (use 2 in simp)
qed simp

lemma dfs_from_roots:
  "\<forall>k. map_of (color st) k \<noteq> Some 1 \<Longrightarrow>
   fold (\<lambda>i st. if map_of (color st) i = Some 0 then visit adj i st else st) ns st = dfs adj ns st"
proof (induction ns arbitrary: st)
  case (Cons n ns)
  have "\<forall>k. map_of (color (visit adj n st)) k \<noteq> Some 1" if "map_of (color st) n = Some 0"
  proof
    fix k
    show "map_of (color (visit adj n st)) k \<noteq> Some 1"
      using dfs_frame [of adj "adj_of adj n" "dfs_enter n st"] Cons.prems
      by (auto simp: visit_def dest: spec [of _ k])
  qed
  with Cons show ?case by (auto simp: visit_def split: option.split)
qed simp

lemma succs_adjacency: "succs (adjacency g) (set (node_ids g)) = success_rel g"
  by (auto simp: succs_def adj_of_adjacency success_rel_def)

definition dfs_start :: "string list \<Rightarrow> dfs_state" where
  "dfs_start ids = \<lparr>color = fold (\<lambda>i c. AList.update i 0 c) ids [], path = [], cycles = []\<rparr>"

lemma dfs_start_simps [simp]:
  "map_of (color (dfs_start ids)) k = (if k \<in> set ids then Some 0 else None)" "path (dfs_start ids) = []"
  "cycles (dfs_start ids) = []" "colored (dfs_start ids) = set ids" "black (dfs_start ids) = {}"
  by (auto simp: dfs_start_def map_of_fold_update colored_def black_def)

lemma detectCycles_dfs: "detectCycles g = cycles (dfs (adjacency g) (node_ids g) (dfs_start (node_ids g)))"
  unfolding detectCycles_def Let_def dfs_start_def [symmetric] by (simp add: dfs_from_roots)

lemma detectCycles_real: "c \<in> set (detectCycles g) \<Longrightarrow> real_cycle (success_rel g) c"
proof -
  have "path_ok (adjacency g) (dfs (adjacency g) (node_ids g) (dfs_start (node_ids g)))"
    by (rule dfs_sound) (simp_all add: path_ok_def)
  then show "c \<in> set (detectCycles g) \<Longrightarrow> real_cycle (success_rel g) c"
    by (simp add: path_ok_def detectCycles_dfs succs_adjacency)
qed

lemma detectCycles_none:
  assumes "detectCycles g = []" shows "acyclic (success_rel g)"
proof -
  let ?fin = "dfs (adjacency g) (node_ids g) (dfs_start (node_ids g))"
  have "dfs_ok (adjacency g) (dfs_start (node_ids g))" by (simp add: dfs_ok_def)
  with dfs_complete [of "adjacency g" "node_ids g" "dfs_start (node_ids g)"] assms
  have "dfs_ok (adjacency g) ?fin" "set (node_ids g) \<subseteq> black ?fin" by (simp_all add: detectCycles_dfs)
  then have no: "\<forall>x \<in> set (node_ids g). (x, x) \<notin> (success_rel g)\<^sup>+"
    by (auto simp: dfs_ok_def succs_adjacency)
  show ?thesis
  proof (rule acyclicI, intro allI notI)
    fix x assume x: "(x, x) \<in> (success_rel g)\<^sup>+"
    then have "x \<in> set (node_ids g)" by (auto dest!: tranclD simp: success_rel_def)
    with no x show False by blast
  qed
qed

lemma detectCycles_iff: "detectCycles g = [] \<longleftrightarrow> acyclic (success_rel g)"
  using detectCycles_none detectCycles_real real_cycle_trancl
  by (metis acyclic_def list.set_intros(1) neq_Nil_conv)

section \<open>Reachability searches\<close>

definition adj_step :: "(string, string list) jsmap \<Rightarrow> string \<Rightarrow> string \<Rightarrow> bool" where
  "adj_step adj a b \<longleftrightarrow> b \<in> set (adj_of adj a)"

lemma isReachableLoop_iff:
  "target \<notin> set visited \<Longrightarrow> isReachableLoop adj target queue visited \<longleftrightarrow> target \<in> avoiding (adj_step adj) (set visited) (set queue)"
proof (induction adj target queue visited rule: isReachableLoop.induct)
  case (2 adj target n queue visited)
  show ?case
  proof (cases "n = target \<or> n \<in> set visited")
    case True
    with 2 show ?thesis by (auto intro: avoiding_start)
  next
    case False
    let ?N = "{m. adj_step adj n m \<and> m \<notin> insert n (set visited)}"
    have "avoiding (adj_step adj) (set visited) (insert n (set queue))
        = insert n (avoiding (adj_step adj) (insert n (set visited)) (?N \<union> set queue))"
      using False by (intro avoiding_visit) auto
    moreover have "set (filter (\<lambda>m. m \<notin> set (set_add n visited)) (adj_of adj n)) = ?N"
      by (auto simp: adj_step_def)
    ultimately show ?thesis using 2(2) False "2.prems" by (auto simp: Un_commute)
  qed
qed simp

lemma isReachable_iff: "isReachable adj a b \<longleftrightarrow> (adj_step adj)\<^sup>*\<^sup>* a b"
  by (simp add: isReachable_def isReachableLoop_iff avoiding_def del: isReachableLoop.simps)

lemma unreachableLoop_set:
  "set queue \<subseteq> set visited \<Longrightarrow> \<forall>a \<in> set visited - set queue. \<forall>b. adj_step adj a b \<longrightarrow> b \<in> set visited \<Longrightarrow>
   set (unreachableLoop adj queue visited) = {b. \<exists>a \<in> set visited. (adj_step adj)\<^sup>*\<^sup>* a b}"
proof (induction adj queue visited rule: unreachableLoop.induct)
  case (1 adj visited)
  have "b \<in> set visited" if "(adj_step adj)\<^sup>*\<^sup>* a b" "a \<in> set visited" for a b
    using that by (induction rule: rtranclp_induct) (use 1(2) in auto)
  then show ?case by auto
next
  case (2 adj n queue visited)
  obtain queue' visited' where q: "queueNew (adj_of adj n) (queue, visited) = (queue', visited')"
    by (cases "queueNew (adj_of adj n) (queue, visited)")
  note sets = queueNew_sets [OF q]
  have "{b. \<exists>a \<in> set visited'. (adj_step adj)\<^sup>*\<^sup>* a b} = {b. \<exists>a \<in> set visited. (adj_step adj)\<^sup>*\<^sup>* a b}"
  proof -
    have n: "n \<in> set visited" using "2.prems"(1) by simp
    have "\<exists>a \<in> set visited. (adj_step adj)\<^sup>*\<^sup>* a b" if "(adj_step adj)\<^sup>*\<^sup>* a b" "a \<in> set (adj_of adj n)" for a b
      using that n converse_rtranclp_into_rtranclp [of "adj_step adj" n a b] by (auto simp: adj_step_def)
    then show ?thesis using sets by auto
  qed
  moreover have "set (unreachableLoop adj queue' visited') = {b. \<exists>a \<in> set visited'. (adj_step adj)\<^sup>*\<^sup>* a b}"
  proof (rule "2.IH" [OF q [symmetric]])
    show "set queue' \<subseteq> set visited'" using sets "2.prems"(1) by auto
    show "\<forall>a \<in> set visited' - set queue'. \<forall>b. adj_step adj a b \<longrightarrow> b \<in> set visited'"
    proof (intro ballI allI impI)
      fix a b assume a: "a \<in> set visited' - set queue'" and ab: "adj_step adj a b"
      from a sets have "a \<in> set visited" "a \<notin> set queue" by auto
      then have "a = n \<or> b \<in> set visited" using ab "2.prems"(2) by (metis DiffI set_ConsD)
      moreover have "b \<in> set (adj_of adj n)" if "a = n" using ab that by (simp add: adj_step_def)
      ultimately show "b \<in> set visited'" using sets by blast
    qed
  qed
  ultimately show ?case using q by simp
qed

lemma adj_step_success: "adj_step (adjacency g) a b \<longleftrightarrow> (\<exists>e \<in> set (edges g). success_edge g e \<and> from_node e = a \<and> to_node e = b \<and> a \<in> set (node_ids g))"
  by (auto simp: adj_step_def adj_of_adjacency)

lemma unreachableNodes_set:
  "set (unreachableNodes g entries) = {i \<in> set (node_ids g). \<not> (\<exists>a \<in> set entries. (adj_step (adjacency g))\<^sup>*\<^sup>* a i)}"
  by (auto simp: unreachableNodes_def unreachableLoop_set)

lemma entryNodes_set:
  "set (entryNodes g) = {i \<in> set (node_ids g). \<not> (\<exists>e \<in> set (edges g). success_edge g e \<and> to_node e = i)}"
proof -
  have "set (fold (\<lambda>e inc. if isFailureEdge e \<or> isTerminalEdge e \<or> isLoopFeedbackEdge g e then inc
             else if to_node e \<in> S then set_add (to_node e) inc else inc) es acc)
      = set acc \<union> {to_node e |e. e \<in> set es \<and> success_edge g e \<and> to_node e \<in> S}" for es acc S
    by (induction es arbitrary: acc) (auto simp: success_edge_def)
  then show ?thesis by (auto simp: entryNodes_def Let_def)
qed

section \<open>Ranks\<close>

lemma acyclic_rank:
  assumes "acyclic r" and "finite r"
  obtains rank :: "'a \<Rightarrow> nat" where "\<And>a b. (a, b) \<in> r \<Longrightarrow> rank a < rank b"
proof
  fix a b assume ab: "(a, b) \<in> r"
  have sub: "{x. (x, c) \<in> r\<^sup>+} \<subseteq> Domain r" for c by (auto dest: tranclD)
  have "{x. (x, a) \<in> r\<^sup>+} \<subset> {x. (x, b) \<in> r\<^sup>+}"
  proof
    show "{x. (x, a) \<in> r\<^sup>+} \<subseteq> {x. (x, b) \<in> r\<^sup>+}" using ab by (auto intro: trancl_into_trancl)
    show "{x. (x, a) \<in> r\<^sup>+} \<noteq> {x. (x, b) \<in> r\<^sup>+}"
      using ab assms(1) unfolding acyclic_def by (metis mem_Collect_eq r_into_trancl)
  qed
  then show "card {x. (x, a) \<in> r\<^sup>+} < card {x. (x, b) \<in> r\<^sup>+}"
    by (intro psubset_card_mono finite_subset [OF sub]) (simp add: assms(2) finite_Domain)
qed

lemma finite_success_rel: "finite (success_rel g)"
  by (rule finite_subset [of _ "(\<lambda>e. (from_node e, to_node e)) ` set (edges g)"]) (auto simp: success_rel_def)

lemma valid_facts:
  assumes "vr_valid (validateGraph g)"
  shows "detectCycles g = []" and "unreachableNodes g (entryNodes g) = []" and "graph_closed g" and "nodes g \<noteq> []"
    and "gatewayConfigErrors g = []"
  using assms by (auto simp: validateGraph_def Let_def edgeErrors_def graph_closed_def isTerminalEdge_def node_ids_def
      split: if_splits)

section \<open>The properties\<close>

text \<open>C9. The depth-first search reports no cycle exactly when the success edges between known
  nodes (not failure, terminal or loop feedback edges) form an acyclic graph, and every cycle it
  reports is a walk along such edges from a node back to itself.\<close>

theorem detectCycles_correct:
  "(detectCycles g = [] \<longleftrightarrow> acyclic (success_rel g))
   \<and> list_all (\<lambda>c. hd c = last c \<and> 2 \<le> length c \<and> successively (\<lambda>a b. (a, b) \<in> success_rel g) c) (detectCycles g)"
  using detectCycles_iff detectCycles_real unfolding real_cycle_def list_all_iff by blast

text \<open>C10. The nodes reported as unreachable are exactly those no success path reaches from an
  entry node, the entry nodes being those without an incoming success edge; and the reachability
  test behind the feedback warnings decides the existence of a path.\<close>

theorem reachability_correct:
  "set (unreachableNodes g (entryNodes g)) =
     {i \<in> set (node_ids g). \<not> (\<exists>a. a \<in> set (node_ids g) \<and> \<not> (\<exists>e \<in> set (edges g). success_edge g e \<and> to_node e = a)
        \<and> (\<lambda>x y. \<exists>e \<in> set (edges g). success_edge g e \<and> from_node e = x \<and> to_node e = y \<and> x \<in> set (node_ids g))\<^sup>*\<^sup>* a i)}
   \<and> (isReachable (adjacency g) a b \<longleftrightarrow>
        (\<lambda>x y. \<exists>e \<in> set (edges g). success_edge g e \<and> from_node e = x \<and> to_node e = y \<and> x \<in> set (node_ids g))\<^sup>*\<^sup>* a b)"
proof -
  have step: "adj_step (adjacency g) =
      (\<lambda>x y. \<exists>e \<in> set (edges g). success_edge g e \<and> from_node e = x \<and> to_node e = y \<and> x \<in> set (node_ids g))"
    by (intro ext) (rule adj_step_success)
  show ?thesis
    unfolding step [symmetric] by (simp add: isReachable_iff unreachableNodes_set entryNodes_set)
qed

text \<open>C8. A graph that passes validation runs without a deadlock: if its structural dependencies
  are success edges, then after any handoff or failure on a well-formed run over it that leaves no node pending
  which has no such dependency, some node is active or the run is terminal.\<close>

theorem validated_graph_live:
  assumes "vr_valid (validateGraph (graph run))" and "run_ok run"
    and "list_all (\<lambda>e. is_after_dep e \<longrightarrow> success_edge (graph run) e) (edges (graph run))"
    and "handoff run u port v = Inr (run', res) \<or> failNode run u v = Inr (run', res)"
    and "\<forall>n. state_of run' n = Some PENDING \<longrightarrow> incomingAfterDeps (edges (graph run')) n \<noteq> []"
  shows "isRunTerminal run' \<or> (\<exists>n. active run' n)"
proof -
  note valid = valid_facts [OF assms(1)]
  obtain rank where rank: "\<And>a b. (a, b) \<in> success_rel (graph run) \<Longrightarrow> rank a < (rank b :: nat)"
    using acyclic_rank [OF detectCycles_none [OF valid(1)] finite_success_rel] by blast
  have "after_ranked (graph run) rank"
    unfolding after_ranked_def list_all_iff
  proof (intro ballI impI)
    fix e assume e: "e \<in> set (edges (graph run))" "is_after_dep e"
    with assms(3) have "success_edge (graph run) e" by (simp add: list_all_iff)
    with e valid(3) show "rank (from_node e) < rank (to_node e)"
      by (intro rank) (auto simp: success_rel_def graph_closed_def success_edge_def isTerminalEdge_def)
  qed
  then show ?thesis by (rule no_deadlock [OF assms(2) _ assms(4,5)])
qed

theorem validated_graph_live_witness: "isRunTerminal demo_done \<or> (\<exists>n. active demo_done n)"
proof (rule validated_graph_live)
  show "vr_valid (validateGraph (graph demo_run))" by code_simp
  show "run_ok demo_run" by (rule demo_run_ok)
  show "list_all (\<lambda>e. is_after_dep e \<longrightarrow> success_edge (graph demo_run) e) (edges (graph demo_run))" by code_simp
  show "handoff demo_run ''a'' ''out'' 7 = Inr (demo_done, snd (projr (handoff demo_run ''a'' ''out'' 7)))
      \<or> failNode demo_run ''a'' 7 = Inr (demo_done, snd (projr (handoff demo_run ''a'' ''out'' 7)))"
    using demo_handoff by simp
  show "\<forall>n. state_of demo_done n = Some PENDING \<longrightarrow> incomingAfterDeps (edges (graph demo_done)) n \<noteq> []"
    by (simp add: demo_states)
qed

end
