(* ===== verification/Yaml_Theorems.thy ===== *)
theory Yaml_Theorems
  imports Yaml_Loader Validator_Theorems
begin

text \<open>
  What loading a workflow document guarantees: the graph it returns has passed validation, its
  structural dependencies are exactly the \<open>after\<close> lists, the loop sources are nodes of the graph,
  and Kahn's algorithm finds no loop source in an acyclic graph.
\<close>

section \<open>Indices\<close>

lemma lastIndex_split: "b \<notin> set zs \<Longrightarrow> lastIndex (ys @ b # zs) b = int (length ys)"
proof -
  assume "b \<notin> set zs"
  then have "takeWhile (\<lambda>x. x \<noteq> b) (rev (ys @ b # zs)) = rev zs"
    using takeWhile_append2 [of "rev zs" "\<lambda>x. x \<noteq> b" "b # rev ys"] by auto
  then show ?thesis by (simp add: lastIndex_def)
qed

lemma lastIndex_before:
  assumes "distinct topo" and "b \<in> set topo" and "a \<in> set (takeWhile (\<lambda>x. x \<noteq> b) topo)"
  shows "lastIndex topo a < lastIndex topo b"
proof -
  from assms(2) obtain ys zs where t: "topo = ys @ b # zs" "b \<notin> set ys" by (meson split_list_first)
  then have "takeWhile (\<lambda>x. x \<noteq> b) topo = ys" by (metis (mono_tags, lifting) takeWhile_append2 takeWhile.simps(2) append.right_neutral)
  with assms(3) obtain us vs where y: "ys = us @ a # vs" by (metis split_list)
  have "lastIndex topo b = int (length ys)" using assms(1) t by (simp add: lastIndex_split)
  moreover have "lastIndex (us @ a # (vs @ b # zs)) a = int (length us)"
    using assms(1) t y by (intro lastIndex_split) auto
  ultimately show ?thesis using t y by simp
qed

section \<open>Kahn's algorithm\<close>

lemma relax_spec:
  "relax ms (deg, queue) = (deg', queue') \<Longrightarrow> \<forall>n. int (count_list ms n) \<le> degree_of deg n \<or> n \<notin> set ms \<Longrightarrow>
   (\<forall>n. degree_of deg' n = degree_of deg n - int (count_list ms n))
   \<and> (\<exists>new. queue' = queue @ new \<and> distinct new \<and> set new = {n \<in> set ms. degree_of deg n = int (count_list ms n)})"
proof (induction ms arbitrary: deg queue)
  case (Cons m ms)
  let ?d = "degree_of deg m - 1"
  let ?deg = "AList.update m ?d deg"
  have r: "relax ms (?deg, if ?d = 0 then queue @ [m] else queue) = (deg', queue')"
    using Cons.prems(1) by (simp add: Let_def)
  have pre: "\<forall>n. int (count_list ms n) \<le> degree_of ?deg n \<or> n \<notin> set ms"
    using Cons.prems(2) by (auto split: if_splits)
  from Cons.IH [OF r pre] obtain new where
    deg: "\<forall>n. degree_of deg' n = degree_of ?deg n - int (count_list ms n)"
    and new: "queue' = (if ?d = 0 then queue @ [m] else queue) @ new" "distinct new"
      "set new = {n \<in> set ms. degree_of ?deg n = int (count_list ms n)}" by blast
  let ?new = "(if ?d = 0 then [m] else []) @ new"
  have zero: "m \<notin> set ms" if "?d = 0"
    using Cons.prems(2) that count_list_0_iff [of ms m] by (auto dest!: spec [of _ m])
  have "queue' = queue @ ?new" using new(1) by simp
  moreover have "distinct ?new" using new(2,3) zero by auto
  moreover have "x \<in> set ?new \<longleftrightarrow> x \<in> set (m # ms) \<and> degree_of deg x = int (count_list (m # ms) x)" for x
  proof (cases "x = m")
    case True
    have "count_list ms m = 0" if "m \<notin> set ms" using that by (simp add: count_list_0_iff)
    with True zero show ?thesis by (cases "?d = 0"; cases "m \<in> set ms") (simp_all add: new(3), linarith+)
  next
    case False
    then show ?thesis by (simp add: new(3))
  qed
  then have "set ?new = {n \<in> set (m # ms). degree_of deg n = int (count_list (m # ms) n)}" by blast
  moreover have "\<forall>n. degree_of deg' n = degree_of deg n - int (count_list (m # ms) n)" using deg by auto
  ultimately show ?case by (intro conjI exI [of _ ?new]) simp_all
qed simp

definition open_into :: "dag_edge list \<Rightarrow> string set \<Rightarrow> string \<Rightarrow> nat" where
  "open_into es done n = length (filter (\<lambda>e. to_node e = n \<and> from_node e \<notin> done) es)"

definition topo_ordered :: "dag_edge list \<Rightarrow> string list \<Rightarrow> bool" where
  "topo_ordered es topo \<longleftrightarrow> (\<forall>e \<in> set es. to_node e \<in> set topo \<longrightarrow> from_node e \<in> set (takeWhile (\<lambda>x. x \<noteq> to_node e) topo))"

definition kahn_inv :: "dag_edge list \<Rightarrow> string set \<Rightarrow> degrees \<Rightarrow> string list \<Rightarrow> string list \<Rightarrow> bool" where
  "kahn_inv es ids deg queue topo \<longleftrightarrow>
     distinct (topo @ queue) \<and> set (topo @ queue) \<subseteq> ids \<and> topo_ordered es topo
     \<and> (\<forall>n \<in> ids. degree_of deg n = int (open_into es (set topo) n))
     \<and> (\<forall>n \<in> ids. open_into es (set topo) n = 0 \<longrightarrow> n \<in> set (topo @ queue))
     \<and> (\<forall>n \<in> set queue. open_into es (set topo) n = 0)"

lemma count_targets: "count_list (map to_node (filter (\<lambda>e. from_node e = n) es)) m = length (filter (\<lambda>e. from_node e = n \<and> to_node e = m) es)"
  by (induction es) auto

lemma open_into_insert:
  "n \<notin> done \<Longrightarrow> open_into es (insert n done) m + length (filter (\<lambda>e. from_node e = n \<and> to_node e = m) es) = open_into es done m"
  unfolding open_into_def by (induction es) auto

lemma takeWhile_append_mem: "b \<in> set xs \<Longrightarrow> takeWhile (\<lambda>x. x \<noteq> b) (xs @ ys) = takeWhile (\<lambda>x. x \<noteq> b) xs"
  by (rule takeWhile_append1) auto

lemma takeWhile_all: "b \<notin> set xs \<Longrightarrow> takeWhile (\<lambda>x. x \<noteq> b) (xs @ [b]) = xs"
  by (induction xs) auto

lemma kahn_step:
  assumes inv: "kahn_inv es ids deg (n # queue) topo"
    and adj: "adj_of adj n = map to_node (filter (\<lambda>e. from_node e = n) es)"
    and known: "\<forall>e \<in> set es. to_node e \<in> ids"
    and r: "relax (adj_of adj n) (deg, queue) = (deg', queue')"
  shows "kahn_inv es ids deg' queue' (topo @ [n])"
proof -
  let ?k = "\<lambda>m. length (filter (\<lambda>e. from_node e = n \<and> to_node e = m) es)"
  from inv have n: "n \<notin> set topo" "n \<in> ids" "open_into es (set topo) n = 0" by (auto simp: kahn_inv_def)
  have open_n: "open_into es (insert n (set topo)) m + ?k m = open_into es (set topo) m" for m
    using n(1) by (rule open_into_insert)
  have ms: "m \<in> set (adj_of adj n) \<Longrightarrow> m \<in> ids \<and> degree_of deg m = int (open_into es (set topo) m) \<and> 0 < ?k m" for m
    using inv known by (auto simp: adj kahn_inv_def filter_empty_conv)
  have "\<forall>m. int (count_list (adj_of adj n) m) \<le> degree_of deg m \<or> m \<notin> set (adj_of adj n)"
  proof
    fix m show "int (count_list (adj_of adj n) m) \<le> degree_of deg m \<or> m \<notin> set (adj_of adj n)"
      using ms [of m] open_n [of m] by (auto simp: adj count_targets)
  qed
  from relax_spec [OF r this] obtain new where
    deg: "\<forall>m. degree_of deg' m = degree_of deg m - int (?k m)"
    and new: "queue' = queue @ new" "distinct new"
      "set new = {m \<in> set (adj_of adj n). degree_of deg m = int (?k m)}"
    by (auto simp: adj count_targets)
  have new_iff: "m \<in> set new \<longleftrightarrow> m \<in> ids \<and> 0 < ?k m \<and> open_into es (insert n (set topo)) m = 0" for m
  proof -
    have "m \<in> set (adj_of adj n) \<longleftrightarrow> m \<in> ids \<and> 0 < ?k m" using known by (auto simp: adj filter_empty_conv)
    then show ?thesis using ms [of m] open_n [of m] by (auto simp: new(3))
  qed
  have fresh: "m \<notin> set (topo @ n # queue)" if "m \<in> set new" for m
  proof
    assume m: "m \<in> set (topo @ n # queue)"
    from that new_iff [of m] have "0 < ?k m" by blast
    with open_n [of m] have pos: "0 < open_into es (set topo) m" by linarith
    with m inv have t: "m \<in> set topo" by (auto simp: kahn_inv_def)
    from pos obtain e where e: "e \<in> set es" "to_node e = m" "from_node e \<notin> set topo"
      by (auto simp: open_into_def filter_empty_conv)
    with t inv show False by (auto simp: kahn_inv_def topo_ordered_def dest: set_takeWhileD)
  qed
  show ?thesis
    unfolding kahn_inv_def
  proof (intro conjI)
    show "distinct ((topo @ [n]) @ queue')" using inv new(1,2) fresh by (auto simp: kahn_inv_def)
    show "set ((topo @ [n]) @ queue') \<subseteq> ids" using inv new_iff by (auto simp: kahn_inv_def new(1))
    show "topo_ordered es (topo @ [n])"
      unfolding topo_ordered_def
    proof (intro ballI impI)
      fix e assume e: "e \<in> set es" "to_node e \<in> set (topo @ [n])"
      show "from_node e \<in> set (takeWhile (\<lambda>x. x \<noteq> to_node e) (topo @ [n]))"
      proof (cases "to_node e \<in> set topo")
        case True
        with e(1) inv show ?thesis by (simp add: kahn_inv_def topo_ordered_def takeWhile_append_mem)
      next
        case False
        with e have "to_node e = n" by auto
        moreover from this e n(3) have "from_node e \<in> set topo" by (auto simp: open_into_def filter_empty_conv)
        ultimately show ?thesis using n(1) by (simp add: takeWhile_all)
      qed
    qed
    show "\<forall>m \<in> ids. degree_of deg' m = int (open_into es (set (topo @ [n])) m)"
    proof
      fix m assume "m \<in> ids"
      then have "degree_of deg' m = int (open_into es (set topo) m) - int (?k m)" using inv deg by (simp add: kahn_inv_def)
      with open_n [of m] show "degree_of deg' m = int (open_into es (set (topo @ [n])) m)" by simp
    qed
    show "\<forall>m \<in> ids. open_into es (set (topo @ [n])) m = 0 \<longrightarrow> m \<in> set ((topo @ [n]) @ queue')"
    proof (intro ballI impI)
      fix m assume m: "m \<in> ids" "open_into es (set (topo @ [n])) m = 0"
      show "m \<in> set ((topo @ [n]) @ queue')"
      proof (cases "?k m = 0")
        case True
        with open_n [of m] m have "open_into es (set topo) m = 0" by simp
        with inv m(1) show ?thesis by (auto simp: kahn_inv_def new(1))
      next
        case False
        with m new_iff [of m] have "m \<in> set new" by simp
        then show ?thesis by (simp add: new(1))
      qed
    qed
    show "\<forall>m \<in> set queue'. open_into es (set (topo @ [n])) m = 0"
    proof
      fix m assume "m \<in> set queue'"
      then consider "m \<in> set queue" | "m \<in> set new" by (auto simp: new(1))
      then show "open_into es (set (topo @ [n])) m = 0"
      proof cases
        case 1
        with inv have "open_into es (set topo) m = 0" by (simp add: kahn_inv_def)
        with open_n [of m] show ?thesis by simp
      next
        case 2
        with new_iff [of m] show ?thesis by simp
      qed
    qed
  qed
qed

lemma kahn_spec:
  "kahn_inv es ids deg queue topo \<Longrightarrow>
   \<forall>n \<in> ids. adj_of adj n = map to_node (filter (\<lambda>e. from_node e = n) es) \<Longrightarrow> \<forall>e \<in> set es. to_node e \<in> ids \<Longrightarrow>
   kahn_inv es ids (fst (kahn adj deg queue topo)) [] (snd (kahn adj deg queue topo))"
proof (induction adj deg queue topo rule: kahn.induct)
  case (2 adj deg n queue topo)
  obtain deg' queue' where r: "relax (adj_of adj n) (deg, queue) = (deg', queue')"
    by (cases "relax (adj_of adj n) (deg, queue)")
  have "n \<in> ids" using "2.prems"(1) by (simp add: kahn_inv_def)
  then have "kahn_inv es ids deg' queue' (topo @ [n])" using "2.prems" r by (intro kahn_step) auto
  with "2.IH" [OF r [symmetric]] "2.prems"(2,3) r show ?case by simp
qed simp

lemma adj_of_update: "adj_of (AList.update k v a) n = (if n = k then v else adj_of a n)"
  by (simp add: adj_of_def)

lemma degree_mem:
  assumes "distinct (map_keys deg)"
  shows "(i, d) \<in> set deg \<longleftrightarrow> i \<in> set (map_keys deg) \<and> degree_of deg i = d"
proof -
  have "(i, d) \<in> set deg \<longleftrightarrow> map_of deg i = Some d" using assms by simp
  moreover have "i \<in> set (map_keys deg) \<longleftrightarrow> map_of deg i \<noteq> None" by (simp add: map_of_eq_None_iff)
  ultimately show ?thesis by (cases "map_of deg i") (simp_all add: degree_of_def)
qed

lemma kahn_start:
  assumes ids: "distinct ids" and es: "es = validEdges all ids"
    and st: "fold (\<lambda>e (adj, deg).
              (AList.update (from_node e) (adj_of adj (from_node e) @ [to_node e]) adj,
               AList.update (to_node e) (degree_of deg (to_node e) + 1) deg)) es
            (fold (\<lambda>i m. AList.update i [] m) ids [], fold (\<lambda>i m. AList.update i 0 m) ids []) = (adj, deg)"
  shows "kahn_inv es (set ids) deg (map fst (filter (\<lambda>(i, d). d = 0) deg)) []"
    and "\<forall>n \<in> set ids. adj_of adj n = map to_node (filter (\<lambda>e. from_node e = n) es)"
proof -
  let ?f = "\<lambda>e (adj, deg).
              (AList.update (from_node e) (adj_of adj (from_node e) @ [to_node e]) adj,
               AList.update (to_node e) (degree_of deg (to_node e) + 1) deg)"
  have build: "map_keys (snd (fold ?f xs (a, d))) = map_keys d
      \<and> (\<forall>n. adj_of (fst (fold ?f xs (a, d))) n = adj_of a n @ map to_node (filter (\<lambda>e. from_node e = n) xs))
      \<and> (\<forall>n. degree_of (snd (fold ?f xs (a, d))) n = degree_of d n + int (length (filter (\<lambda>e. to_node e = n) xs)))"
    if "\<forall>e \<in> set xs. to_node e \<in> set (map_keys d)" for xs a and d :: degrees
    using that
  proof (induction xs arbitrary: a d)
    case (Cons e xs)
    let ?a = "AList.update (from_node e) (adj_of a (from_node e) @ [to_node e]) a"
    let ?d = "AList.update (to_node e) (degree_of d (to_node e) + 1) d"
    have keys: "map_keys ?d = map_keys d" using Cons.prems by (simp add: AList.update_keys)
    have "\<forall>e \<in> set xs. to_node e \<in> set (map_keys ?d)" using Cons.prems by (simp only: keys) simp
    from Cons.IH [OF this, of ?a] show ?case by (simp only: keys) (simp add: adj_of_update)
  qed simp
  have keys0: "map_keys (fold (\<lambda>i m. AList.update i (0 :: int) m) is m) = map_keys m @ is"
    if "distinct is" "set is \<inter> set (map_keys m) = {}" for "is" :: "string list" and m
    using that
  proof (induction "is" arbitrary: m)
    case (Cons i "is")
    have k: "map_keys (AList.update i (0 :: int) m) = map_keys m @ [i]"
      using Cons.prems(2) AList.update_keys [of i "0 :: int" m] by simp
    have "set is \<inter> set (map_keys (AList.update i (0 :: int) m)) = {}" unfolding k using Cons.prems by auto
    with Cons.IH [of "AList.update i 0 m"] Cons.prems(1) have
      "map_keys (fold (\<lambda>i m. AList.update i (0 :: int) m) is (AList.update i 0 m)) = map_keys (AList.update i (0 :: int) m) @ is"
      by simp
    then show ?case unfolding k by simp
  qed simp
  have known: "\<forall>e \<in> set es. to_node e \<in> set (map_keys (fold (\<lambda>i m. AList.update i (0 :: int) m) ids []))"
    using ids by (auto simp: keys0 es validEdges_def)
  have k: "map_keys deg = ids"
    and adj: "adj_of adj n = map to_node (filter (\<lambda>e. from_node e = n) es)"
    and deg: "degree_of deg n = int (length (filter (\<lambda>e. to_node e = n) es))" for n
    using build [OF known, of "fold (\<lambda>i m. AList.update i [] m) ids []"] st ids
    by (simp_all add: keys0 adj_of_def degree_of_def map_of_fold_update)
  have zero: "set (map fst (filter (\<lambda>(i, d). d = 0) deg)) = {i \<in> set ids. degree_of deg i = 0}"
  proof -
    have "distinct (map fst deg)" using k ids by simp
    then have "(i, d) \<in> set deg \<longleftrightarrow> i \<in> set ids \<and> degree_of deg i = d" for i d
      using degree_mem [of deg i d] k by simp
    moreover have "set (map fst (filter (\<lambda>(i, d). d = 0) deg)) = {i. (i, 0) \<in> set deg}" by force
    ultimately show ?thesis by simp
  qed
  have "distinct (map fst (filter (\<lambda>(i, d). d = 0) deg))"
    using k ids by (simp add: distinct_map_filter)
  then show "kahn_inv es (set ids) deg (map fst (filter (\<lambda>(i, d). d = 0) deg)) []"
    unfolding kahn_inv_def using zero deg by (auto simp: topo_ordered_def open_into_def)
  show "\<forall>n \<in> set ids. adj_of adj n = map to_node (filter (\<lambda>e. from_node e = n) es)" using adj by blast
qed

definition valid_rel :: "dag_edge list \<Rightarrow> string list \<Rightarrow> (string \<times> string) set" where
  "valid_rel es ids = {(from_node e, to_node e) |e. e \<in> set (validEdges es ids)}"

lemma kahn_complete:
  assumes inv: "kahn_inv (validEdges all ids) (set ids) deg [] topo" and ac: "acyclic (valid_rel all ids)"
  shows "set ids \<subseteq> set topo"
proof (rule ccontr)
  assume no: "\<not> set ids \<subseteq> set topo"
  have "finite (valid_rel all ids)"
    by (rule finite_subset [of _ "(\<lambda>e. (from_node e, to_node e)) ` set (validEdges all ids)"]) (auto simp: valid_rel_def)
  then have "wf (valid_rel all ids)" using ac by (rule finite_acyclic_wf)
  then obtain n where n: "n \<in> set ids - set topo" "\<forall>m. (m, n) \<in> valid_rel all ids \<longrightarrow> m \<notin> set ids - set topo"
    using no by (metis Diff_eq_empty_iff wfE_min ex_in_conv)
  from n(1) inv have "open_into (validEdges all ids) (set topo) n \<noteq> 0" by (auto simp: kahn_inv_def)
  then obtain e where e: "e \<in> set (validEdges all ids)" "to_node e = n" "from_node e \<notin> set topo"
    by (auto simp: open_into_def filter_empty_conv)
  then have "(from_node e, n) \<in> valid_rel all ids" "from_node e \<in> set ids" by (auto simp: valid_rel_def validEdges_def)
  with n(2) e(3) show False by blast
qed

lemma appendRemaining_Nil [simp]: "appendRemaining ids [] topo = topo"
  by (simp add: appendRemaining.simps)

lemma topoOrder_acyclic:
  assumes "distinct ids" and ac: "acyclic (valid_rel es ids)"
  shows "distinct (topoOrder es ids) \<and> set (topoOrder es ids) = set ids \<and> topo_ordered (validEdges es ids) (topoOrder es ids)"
proof -
  let ?E = "validEdges es ids"
  obtain adj deg where st: "fold (\<lambda>e (adj, deg).
              (AList.update (from_node e) (adj_of adj (from_node e) @ [to_node e]) adj,
               AList.update (to_node e) (degree_of deg (to_node e) + 1) deg)) ?E
            (fold (\<lambda>i m. AList.update i [] m) ids [], fold (\<lambda>i m. AList.update i 0 m) ids []) = (adj, deg)"
    by fastforce
  let ?q = "map fst (filter (\<lambda>(i, d). d = 0) deg)"
  let ?t = "snd (kahn adj deg ?q [])"
  have "\<forall>e \<in> set ?E. to_node e \<in> set ids" by (simp add: validEdges_def)
  with kahn_start [OF assms(1) refl st] have inv: "kahn_inv ?E (set ids) (fst (kahn adj deg ?q [])) [] ?t"
    by (intro kahn_spec)
  have all: "set ids \<subseteq> set ?t" using kahn_complete [OF inv ac] .
  then have "filter (\<lambda>i. i \<notin> set ?t) ids = []" by (auto simp: filter_empty_conv)
  then have "topoOrder es ids = ?t"
    unfolding topoOrder_def Let_def st by (simp add: case_prod_beta)
  with inv all show ?thesis by (auto simp: kahn_inv_def)
qed

section \<open>Loading\<close>

lemma after_output_edges: "e \<in> set (normalizeOutputsToEdges outs n) \<Longrightarrow> label e = None \<and> from_node e = n"
  by (auto simp: normalizeOutputsToEdges_def Let_def case_prod_beta)

lemma loadNode_Inr:
  assumes "loadNode docImage n cfg = Inr (nd, es)"
  shows "node_id nd = n"
    and "\<forall>e \<in> set es. is_after_dep e \<longrightarrow> condition e = ''on_success'' \<and> to_node e = n"
    and "incomingAfterDeps es m = (if m = n then filter is_after_dep es else [])"
    and "map from_node (filter is_after_dep es) = after nd"
proof -
  let ?dep = "\<lambda>pred. \<lparr>from_node = pred, from_port = ''done'', to_node = n, to_port = ''task'',
                condition = ''on_success'', label = Some ''after_dep'', retry_policy = None, terminal_outcome = None\<rparr>"
  from assms have nd: "node_id nd = n" "after nd = or_default [] (cfg_after cfg)"
    and es: "es = map ?dep (after nd) @ normalizeOutputsToEdges (or_default [] (cfg_outputs cfg)) n"
    by (auto simp: loadNode_def bind_inv Let_def)
  have none: "filter is_after_dep (normalizeOutputsToEdges outs n) = []" for outs
    by (auto simp: filter_empty_conv is_after_dep_def dest: after_output_edges)
  have deps: "filter is_after_dep es = map ?dep (after nd)"
    by (simp add: es none) (simp add: filter_id_conv is_after_dep_def)
  show "node_id nd = n" by (rule nd)
  show "\<forall>e \<in> set es. is_after_dep e \<longrightarrow> condition e = ''on_success'' \<and> to_node e = n"
    by (auto simp: es is_after_dep_def dest: after_output_edges)
  have "incomingAfterDeps es m = filter (\<lambda>e. to_node e = m) (filter is_after_dep es)"
    by (simp add: incomingAfterDeps_def conj_commute)
  also have "\<dots> = (if m = n then filter is_after_dep es else [])"
    unfolding deps by (auto simp: filter_map o_def filter_id_conv)
  finally show "incomingAfterDeps es m = (if m = n then filter is_after_dep es else [])" .
  show "map from_node (filter is_after_dep es) = after nd" unfolding deps by (simp add: o_def)
qed

lemma incomingAfterDeps_append: "incomingAfterDeps (es @ fs) m = incomingAfterDeps es m @ incomingAfterDeps fs m"
  by (simp add: incomingAfterDeps_def)

lemma loadNodes_ids: "loadNodes docImage cfgs g0 = Inr g \<Longrightarrow> node_ids g = node_ids g0 @ map fst cfgs"
proof (induction docImage cfgs g0 rule: loadNodes.induct)
  case (2 docImage n cfg rest g0)
  from "2.prems" obtain nd es where l: "loadNode docImage n cfg = Inr (nd, es)"
    and r: "loadNodes docImage rest \<lparr>nodes = nodes g0 @ [nd], edges = edges g0 @ es\<rparr> = Inr g"
    by (auto simp: bind_inv)
  from "2.IH" [OF l refl r] loadNode_Inr(1) [OF l] show ?case by (simp add: node_ids_def)
qed simp

lemma loadNodes_Inr:
  assumes "loadNodes docImage cfgs g0 = Inr g"
  shows "(\<forall>e \<in> set (edges g0). is_after_dep e \<longrightarrow> condition e = ''on_success'') \<Longrightarrow>
         (\<forall>e \<in> set (edges g). is_after_dep e \<longrightarrow> condition e = ''on_success'')"
    and "distinct (node_ids g) \<Longrightarrow>
         (\<forall>nd \<in> set (nodes g0). map from_node (incomingAfterDeps (edges g0) (node_id nd)) = after nd) \<Longrightarrow>
         (\<forall>e \<in> set (edges g0). is_after_dep e \<longrightarrow> to_node e \<in> set (node_ids g0)) \<Longrightarrow>
         (\<forall>nd \<in> set (nodes g). map from_node (incomingAfterDeps (edges g) (node_id nd)) = after nd)"
proof -
  show "(\<forall>e \<in> set (edges g0). is_after_dep e \<longrightarrow> condition e = ''on_success'') \<Longrightarrow>
         (\<forall>e \<in> set (edges g). is_after_dep e \<longrightarrow> condition e = ''on_success'')"
    using assms
  proof (induction docImage cfgs g0 rule: loadNodes.induct)
    case (2 docImage n cfg rest g0)
    from "2.prems" obtain nd es where l: "loadNode docImage n cfg = Inr (nd, es)"
      and r: "loadNodes docImage rest \<lparr>nodes = nodes g0 @ [nd], edges = edges g0 @ es\<rparr> = Inr g"
      by (auto simp: bind_inv)
    from "2.IH" [OF l refl _ r] loadNode_Inr(2) [OF l] "2.prems"(1) show ?case by (auto simp: Ball_def)
  qed simp
  show "distinct (node_ids g) \<Longrightarrow>
         (\<forall>nd \<in> set (nodes g0). map from_node (incomingAfterDeps (edges g0) (node_id nd)) = after nd) \<Longrightarrow>
         (\<forall>e \<in> set (edges g0). is_after_dep e \<longrightarrow> to_node e \<in> set (node_ids g0)) \<Longrightarrow>
         (\<forall>nd \<in> set (nodes g). map from_node (incomingAfterDeps (edges g) (node_id nd)) = after nd)"
    using assms
  proof (induction docImage cfgs g0 rule: loadNodes.induct)
    case (2 docImage n cfg rest g0)
    from "2.prems" obtain nd es where l: "loadNode docImage n cfg = Inr (nd, es)"
      and r: "loadNodes docImage rest \<lparr>nodes = nodes g0 @ [nd], edges = edges g0 @ es\<rparr> = Inr g"
      by (auto simp: bind_inv)
    let ?g = "\<lparr>nodes = nodes g0 @ [nd], edges = edges g0 @ es\<rparr>"
    note ln = loadNode_Inr [OF l]
    have "n \<notin> set (node_ids g0)"
      using loadNodes_ids [OF r] "2.prems"(1) ln(1) by (auto simp: node_ids_def)
    then have old: "incomingAfterDeps (edges g0) n = []" "node_id nd' \<noteq> n" if "nd' \<in> set (nodes g0)" for nd'
      using "2.prems"(3) that by (auto simp: incomingAfterDeps_def filter_empty_conv node_ids_def)
    have none: "incomingAfterDeps (edges g0) n = []"
      using \<open>n \<notin> set (node_ids g0)\<close> "2.prems"(3) by (auto simp: incomingAfterDeps_def filter_empty_conv)
    have "\<forall>nd \<in> set (nodes ?g). map from_node (incomingAfterDeps (edges ?g) (node_id nd)) = after nd"
      using "2.prems"(2) old none ln by (auto simp: incomingAfterDeps_append)
    moreover have "\<forall>e \<in> set (edges ?g). is_after_dep e \<longrightarrow> to_node e \<in> set (node_ids ?g)"
      using "2.prems"(3) ln(1,2) by (auto simp: node_ids_def)
    ultimately show ?case using "2.IH" [OF l refl "2.prems"(1) _ _ r] by blast
  qed simp
qed

lemma parseDAGYaml_Inr:
  assumes "parseDAGYaml yamlParse text = Inr p"
  obtains doc where "yamlParse text = Some doc" "doc_nodes doc \<noteq> None" "or_default [] (doc_nodes doc) \<noteq> []"
    "loadNodes (doc_image doc) (or_default [] (doc_nodes doc)) \<lparr>nodes = [], edges = []\<rparr> = Inr (pgraph p)"
    "vr_valid (validateGraph (pgraph p))"
    "loop_sources p = detectLoopSources (edges (pgraph p)) (nodes (pgraph p))"
  using assms
  by (force simp: parseDAGYaml_def bind_inv assertGraphValid_def Let_def or_default_def split: option.splits if_splits sum.splits)

lemma appendRemaining_set: "set (appendRemaining ids rem topo) = set rem \<union> set topo"
proof (induction ids rem topo rule: appendRemaining.induct)
  case (1 ids rem topo)
  show ?case
  proof (cases "rem = []")
    case False
    then have "hd (sort_key (lastIndex ids) rem) \<in> set rem" by (metis hd_in_set set_empty set_sort)
    with False 1 [OF False refl] show ?thesis by (auto simp: appendRemaining.simps [of ids rem] Let_def)
  qed simp
qed

lemma lastNode_mem: "lastNode nds n = Some nd \<Longrightarrow> n \<in> set (map node_id nds)"
  by (auto simp: lastNode_def find_Some_iff2 dest!: find_Some_iff [THEN iffD1]) (metis image_eqI length_rev nth_mem set_rev)

lemma detectLoopSources_targets: "set (detectLoopSources es nds) \<subseteq> to_node ` set es"
  unfolding detectLoopSources_def Let_def set_sort
  by (rule fold_inv [where P = "\<lambda>acc. set acc \<subseteq> to_node ` set es"]) (auto split: option.splits)

lemma detectLoopSources_nonempty: "[] \<notin> set (detectLoopSources es nds)"
  unfolding detectLoopSources_def Let_def set_sort
  by (rule fold_inv [where P = "\<lambda>acc. [] \<notin> set acc"]) (auto split: option.splits)

section \<open>The properties\<close>

text \<open>C11. Loading a workflow document either fails or returns a graph that has passed validation
  and on which every run starts well-formed: its nodes are the document's in order, every node's
  structural dependencies are exactly its \<open>after\<close> list, followed on success, and every loop
  source is a node of the graph.\<close>

theorem parseDAGYaml_sound:
  assumes "parseDAGYaml yamlParse text = Inr p"
    and "yamlParse text = Some doc" and "distinct (map fst (or_default [] (doc_nodes doc)))"
  shows "vr_valid (validateGraph (pgraph p)) \<and> run_ok (createDAGRun p rid :: 'v dag_run)
    \<and> node_ids (pgraph p) = map fst (or_default [] (doc_nodes doc))
    \<and> (\<forall>nd \<in> set (nodes (pgraph p)). map from_node (incomingAfterDeps (edges (pgraph p)) (node_id nd)) = after nd)
    \<and> (\<forall>e \<in> set (edges (pgraph p)). is_after_dep e \<longrightarrow> condition e = ''on_success'')
    \<and> set (loop_sources p) \<subseteq> set (node_ids (pgraph p))"
proof -
  from assms(1) obtain doc' where "yamlParse text = Some doc'"
    and l': "loadNodes (doc_image doc') (or_default [] (doc_nodes doc')) \<lparr>nodes = [], edges = []\<rparr> = Inr (pgraph p)"
    and v: "vr_valid (validateGraph (pgraph p))"
    and ls: "loop_sources p = detectLoopSources (edges (pgraph p)) (nodes (pgraph p))"
    by (rule parseDAGYaml_Inr)
  with assms(2) have l: "loadNodes (doc_image doc) (or_default [] (doc_nodes doc)) \<lparr>nodes = [], edges = []\<rparr> = Inr (pgraph p)"
    by simp
  from loadNodes_ids [OF l] have ids: "node_ids (pgraph p) = map fst (or_default [] (doc_nodes doc))"
    by (simp add: node_ids_def)
  have closed: "graph_closed (pgraph p)" by (rule valid_facts(3) [OF v])
  moreover have "set (loop_sources p) \<subseteq> set (node_ids (pgraph p))"
    using detectLoopSources_targets [of "edges (pgraph p)" "nodes (pgraph p)"]
      detectLoopSources_nonempty [of "edges (pgraph p)" "nodes (pgraph p)"] closed
    unfolding ls graph_closed_def by fastforce
  ultimately show ?thesis
    using v ids loadNodes_Inr [OF l] assms(3) run_ok_create [OF closed] by simp
qed

text \<open>Loop sources are found only where there is a loop: when the edges between known nodes
  form an acyclic graph and no edge enters a loop or while gateway, Kahn's algorithm orders all
  nodes before their successors and no node becomes a loop source.\<close>

theorem acyclic_no_loop_sources:
  assumes "distinct (map node_id nds)"
    and "acyclic {(from_node e, to_node e) |e. e \<in> set es \<and> to_node e \<noteq> []
           \<and> from_node e \<in> set (map node_id nds) \<and> to_node e \<in> set (map node_id nds)}"
    and "list_all (\<lambda>e. \<not> feedsLoopGateway nds e) es"
  shows "detectLoopSources es nds = []"
proof -
  let ?ids = "map node_id nds"
  let ?topo = "topoOrder es ?ids"
  have "valid_rel es ?ids = {(from_node e, to_node e) |e. e \<in> set es \<and> to_node e \<noteq> []
           \<and> from_node e \<in> set ?ids \<and> to_node e \<in> set ?ids}"
    by (auto simp: valid_rel_def validEdges_def)
  with assms(2) have "acyclic (valid_rel es ?ids)" by simp
  from topoOrder_acyclic [OF assms(1) this]
  have t: "distinct ?topo" "set ?topo = set ?ids" "topo_ordered (validEdges es ?ids) ?topo" by simp_all
  have "\<not> (from_node e \<in> set ?topo \<and> to_node e \<in> set ?topo \<and> lastIndex ?topo (to_node e) < lastIndex ?topo (from_node e))"
    if "e \<in> set es" "to_node e \<noteq> []" for e
    using lastIndex_before [OF t(1), of "to_node e" "from_node e"] t(2,3) that
    by (auto simp: topo_ordered_def validEdges_def)
  then have "fold (\<lambda>e acc. if is_after_dep e \<or> to_node e = [] then acc
        else if feedsLoopGateway nds e
             then (case lastNode nds (from_node e) of None \<Rightarrow> acc
                   | Some s \<Rightarrow> if to_node e \<in> set (after s) then set_add (to_node e) acc else acc)
        else if from_node e \<in> set ?topo \<and> to_node e \<in> set ?topo
                \<and> lastIndex ?topo (to_node e) < lastIndex ?topo (from_node e)
             then set_add (to_node e) acc else acc) es [] = []"
    using assms(3) by (intro fold_inv [where P = "\<lambda>acc. acc = []"]) (auto simp: list_all_iff)
  then show ?thesis unfolding detectLoopSources_def Let_def by simp
qed

text \<open>Route targets round trip: a target written as a node, \<open>.in:\<close> and a port is parsed back
  into exactly that node and port, and a bare node receives on the port it was sent from.\<close>

theorem parseTarget_roundtrip:
  assumes "n \<noteq> []" and "CHR ''.'' \<notin> set n" and "\<not> list_ex line_terminator q"
  shows "parseTarget (n @ ''.in:'' @ q) sourcePort = (n, q) \<and> parseTarget n sourcePort = (n, sourcePort)"
proof -
  have dot: "\<And>c. c \<in> set n \<Longrightarrow> c \<noteq> CHR ''.''" using assms(2) by auto
  have "takeWhile (\<lambda>c. c \<noteq> CHR ''.'') (n @ ''.in:'' @ q) = n" "dropWhile (\<lambda>c. c \<noteq> CHR ''.'') (n @ ''.in:'' @ q) = ''.in:'' @ q"
    by (subst takeWhile_append2 dropWhile_append2, erule dot, simp)+
  moreover have "takeWhile (\<lambda>c. c \<noteq> CHR ''.'') n = n" "dropWhile (\<lambda>c. c \<noteq> CHR ''.'') n = []"
    using assms(2) by (auto simp: takeWhile_eq_all_conv)
  ultimately show ?thesis using assms(1,3) by (simp add: parseTarget_def Let_def)
qed

theorem parseTarget_roundtrip_witness: "parseTarget ''review.in:patch'' ''done'' = (''review'', ''patch'')"
proof -
  have "CHR ''.'' \<notin> set ''review''" "\<not> list_ex line_terminator ''patch''" by code_simp+
  with parseTarget_roundtrip [of "''review''" "''patch''" "''done''"] show ?thesis by simp
qed

definition demo_config :: "string list \<Rightarrow> (string \<times> output_route) list \<Rightarrow> node_config" where
  "demo_config afters outs = \<lparr>cfg_agent = Some ''coder'', cfg_type = None, cfg_node_type = None, cfg_gateway_config = None,
     cfg_gateway = None, cfg_after = Some afters, cfg_outputs = Some outs, cfg_name = None, cfg_description = None,
     cfg_image = None, cfg_container_group = None, cfg_requires = JUndef, cfg_extra = None\<rparr>"

definition demo_doc :: yaml_doc where
  "demo_doc = \<lparr>doc_meta = JNull, doc_image = None, doc_nodes = Some
     [(''plan'', demo_config [] [(''done'', \<lparr>route_to = To_One ''code.in:task'', route_condition = None, route_retry = None\<rparr>)]),
      (''code'', demo_config [''plan''] [(''done'', \<lparr>route_to = To_One [], route_condition = None, route_retry = None\<rparr>)])]\<rparr>"

theorem parseDAGYaml_sound_witness:
  "run_ok (createDAGRun (projr (parseDAGYaml (\<lambda>_. Some demo_doc) ''doc'')) ''r'' :: nat dag_run)"
proof -
  have "isl (parseDAGYaml (\<lambda>_. Some demo_doc) ''doc'') = False" by code_simp
  then have "parseDAGYaml (\<lambda>_. Some demo_doc) ''doc'' = Inr (projr (parseDAGYaml (\<lambda>_. Some demo_doc) ''doc''))" by simp
  moreover have "distinct (map fst (or_default [] (doc_nodes demo_doc)))" by code_simp
  ultimately show ?thesis
    using parseDAGYaml_sound [of "\<lambda>_. Some demo_doc" "''doc''" _ demo_doc "''r''"] by blast
qed

theorem acyclic_no_loop_sources_witness: "detectLoopSources (edges demo_graph) (nodes demo_graph) = []"
proof (rule acyclic_no_loop_sources)
  show "distinct (map node_id (nodes demo_graph))" by code_simp
  show "list_all (\<lambda>e. \<not> feedsLoopGateway (nodes demo_graph) e) (edges demo_graph)" by code_simp
  have "{(from_node e, to_node e) |e. e \<in> set (edges demo_graph) \<and> to_node e \<noteq> []
      \<and> from_node e \<in> set (map node_id (nodes demo_graph)) \<and> to_node e \<in> set (map node_id (nodes demo_graph))}
      \<subseteq> {(''a'', ''b''), (''a'', ''c'')}"
    by (auto simp: demo_graph_def demo_edge_def)
  moreover have "acyclic {(''a'', ''b''), (''a'', ''c'')}" 
    by (rule acyclicI_order [where f = "\<lambda>n. if n = ''a'' then 1 else (0 :: nat)"]) auto
  ultimately show "acyclic {(from_node e, to_node e) |e. e \<in> set (edges demo_graph) \<and> to_node e \<noteq> []
      \<and> from_node e \<in> set (map node_id (nodes demo_graph)) \<and> to_node e \<in> set (map node_id (nodes demo_graph))}"
    by (rule acyclic_subset [rotated])
qed

end
