(* ===== verification/Actor_Leases.thy ===== *)
theory Actor_Leases
  imports Dag_Actors
begin

text \<open>
  \<open>config/dag-actor-lease-settings.ts\<close> and the leases of \<open>persistence/dag-actor-leases.ts\<close>: an actor is
  leased to one target, with a generation that grows each time the target changes, until the lease
  is released, retired or its idle deadline passes. The constraints are those of migration 24 in
  \<open>persistence/db.ts\<close>. The column \<open>pinned\<close>, 0 or 1 by its \<open>CHECK\<close>, is a boolean.
\<close>

section \<open>Settings\<close>

definition DEFAULT_DAG_WORKER_IDLE_TTL_MS :: int where
  "DEFAULT_DAG_WORKER_IDLE_TTL_MS = 5 * 60000"

definition DEFAULT_DAG_ACTOR_RETENTION_TTL_MS :: int where
  "DEFAULT_DAG_ACTOR_RETENTION_TTL_MS = 7 * 24 * 60 * 60000"

definition MIN_DAG_ACTOR_TTL_MS :: int where
  "MIN_DAG_ACTOR_TTL_MS = 1"

definition MAX_DAG_WORKER_IDLE_TTL_MS :: int where
  "MAX_DAG_WORKER_IDLE_TTL_MS = 7 * 24 * 60 * 60000"

definition MAX_DAG_ACTOR_RETENTION_TTL_MS :: int where
  "MAX_DAG_ACTOR_RETENTION_TTL_MS = 3650 * 24 * 60 * 60000"

definition validateTtl :: "jsnum \<Rightarrow> string \<Rightarrow> int \<Rightarrow> 'c err + int" where
  "validateTtl v what maximum =
     throwIf (\<not> is_safe_integer v \<or> num_int v < MIN_DAG_ACTOR_TTL_MS \<or> maximum < num_int v) (Invalid what)
       (Inr (num_int v))"

text \<open>A number of milliseconds that a double would round is not a safe integer either way.\<close>

definition parseEnvironmentTtl :: "(string \<Rightarrow> string option) \<Rightarrow> string \<Rightarrow> int \<Rightarrow> int \<Rightarrow> 'c err + int" where
  "parseEnvironmentTtl penv what fallback maximum =
     (case penv what of
        None \<Rightarrow> Inr fallback
      | Some raw \<Rightarrow>
          (let normalized = js_trim raw
           in throwIf (\<not> digits normalized) (Invalid what)
                (validateTtl (num_of_int (decimal 0 normalized)) what maximum)))"

definition validateDagWorkerIdleTtlMs :: "jsnum \<Rightarrow> 'c err + int" where
  "validateDagWorkerIdleTtlMs v = validateTtl v ''worker_idle_ttl_ms'' MAX_DAG_WORKER_IDLE_TTL_MS"

definition validateDagActorRetentionTtlMs :: "jsnum \<Rightarrow> 'c err + int" where
  "validateDagActorRetentionTtlMs v = validateTtl v ''actor_retention_ttl_ms'' MAX_DAG_ACTOR_RETENTION_TTL_MS"

record lease_settings =
  worker_idle_ttl_ms :: int
  actor_retention_ttl_ms :: int

definition loadDagActorLeaseSettings :: "(string \<Rightarrow> string option) \<Rightarrow> 'c err + lease_settings" where
  "loadDagActorLeaseSettings penv =
     bindE (parseEnvironmentTtl penv ''ATMS_DAG_WORKER_IDLE_TTL_MS'' DEFAULT_DAG_WORKER_IDLE_TTL_MS MAX_DAG_WORKER_IDLE_TTL_MS)
      (\<lambda>idle. bindE (parseEnvironmentTtl penv ''ATMS_DAG_ACTOR_RETENTION_TTL_MS'' DEFAULT_DAG_ACTOR_RETENTION_TTL_MS MAX_DAG_ACTOR_RETENTION_TTL_MS)
      (\<lambda>retention. Inr \<lparr>worker_idle_ttl_ms = idle, actor_retention_ttl_ms = retention\<rparr>))"

definition idleTtl :: "(string \<Rightarrow> string option) \<Rightarrow> jsnum option \<Rightarrow> 'c err + int" where
  "idleTtl penv v =
     (case v of None \<Rightarrow> bindE (loadDagActorLeaseSettings penv) (\<lambda>s. Inr (worker_idle_ttl_ms s))
      | Some n \<Rightarrow> validateDagWorkerIdleTtlMs n)"

definition retentionTtl :: "(string \<Rightarrow> string option) \<Rightarrow> jsnum option \<Rightarrow> 'c err + int" where
  "retentionTtl penv v =
     (case v of None \<Rightarrow> bindE (loadDagActorLeaseSettings penv) (\<lambda>s. Inr (actor_retention_ttl_ms s))
      | Some n \<Rightarrow> validateDagActorRetentionTtlMs n)"

section \<open>The table\<close>

datatype lease_state = Leased | Dormant | Retired

datatype lease_conflict =
    Actor_not_found
  | Lease_not_found
  | Lease_retired
  | Lease_version_conflict
  | Lease_state_conflict
  | Lease_generation_conflict
  | Lease_target_conflict
  | Lease_expired
  | Checkpoint_version_conflict
  | Checkpoint_generation_conflict
  | Provisioned_worker_identity_conflict
  | Provisioned_worker_version_conflict
  | Provisioned_worker_status_conflict

record lease_row =
  lr_run_id :: string
  lr_actor_id :: string
  lr_state :: lease_state
  lr_generation :: int
  lr_target_type :: "string option"
  lr_target_id :: "string option"
  lr_idle_deadline :: "int option"
  lr_pinned :: bool
  lr_retained_until :: "int option"
  lr_state_changed_at :: int
  lr_created_at :: int
  lr_updated_at :: int
  lr_version :: int

record lease_db = actor_db +
  db_leases :: "lease_row list"

definition lease_key :: "lease_row \<Rightarrow> string \<times> string" where
  "lease_key r = (lr_run_id r, lr_actor_id r)"

definition opt_length :: "nat \<Rightarrow> string option \<Rightarrow> bool" where
  "opt_length m s \<longleftrightarrow> (case s of None \<Rightarrow> False | Some t \<Rightarrow> 1 \<le> length t \<and> length t \<le> m)"

definition lease_check :: "lease_row \<Rightarrow> bool" where
  "lease_check r \<longleftrightarrow>
     0 \<le> lr_generation r \<and> 0 \<le> lr_state_changed_at r \<and> 0 \<le> lr_created_at r \<and> lr_created_at r \<le> lr_updated_at r
     \<and> 1 \<le> lr_version r \<and> lr_created_at r \<le> lr_state_changed_at r \<and> lr_state_changed_at r \<le> lr_updated_at r
     \<and> (case lr_state r of
          Leased \<Rightarrow> 1 \<le> lr_generation r \<and> opt_length 64 (lr_target_type r) \<and> opt_length 512 (lr_target_id r)
            \<and> lr_idle_deadline r \<noteq> None \<and> opt_ge (lr_idle_deadline r) (lr_state_changed_at r) \<and> lr_retained_until r = None
        | _ \<Rightarrow> lr_target_type r = None \<and> lr_target_id r = None \<and> lr_idle_deadline r = None
            \<and> lr_retained_until r \<noteq> None \<and> opt_ge (lr_retained_until r) (lr_updated_at r))"

definition leases_ok :: "lease_row list \<Rightarrow> bool" where
  "leases_ok rows \<longleftrightarrow> list_all lease_check rows \<and> unique_on (\<lambda>_. True) lease_key rows"

definition getLeaseRow :: "('m) lease_db_scheme \<Rightarrow> string \<Rightarrow> string \<Rightarrow> lease_row option" where
  "getLeaseRow db runId actorId = find (\<lambda>r. lr_run_id r = runId \<and> lr_actor_id r = actorId) (db_leases db)"

text \<open>Reading a row validates it again; the targets of a lease are trimmed.\<close>

definition leaseFromRow :: "lease_row \<Rightarrow> 'c err + lease_row" where
  "leaseFromRow r =
     bindE (assertNonNegativeSafeInteger (js_int (lr_generation r)) ''persisted lease_generation'') (\<lambda>generation.
     bindE (assertNonNegativeSafeInteger (js_int (lr_created_at r)) ''persisted created_at'') (\<lambda>createdAt.
     bindE (assertNonNegativeSafeInteger (js_int (lr_updated_at r)) ''persisted updated_at'') (\<lambda>updatedAt.
     bindE (assertNonNegativeSafeInteger (js_int (lr_state_changed_at r)) ''persisted state_changed_at'') (\<lambda>changedAt.
     bindE (assertPositiveSafeInteger (js_int (lr_version r)) ''persisted version'') (\<lambda>version.
     throwIf (updatedAt < createdAt \<or> changedAt < createdAt \<or> updatedAt < changedAt) (Invalid ''persisted metadata'')
     (case lr_state r of
        Leased \<Rightarrow>
          (case (lr_target_type r, lr_target_id r, lr_idle_deadline r) of
             (Some targetType, Some targetId, Some deadline) \<Rightarrow>
               throwIf (generation < 1 \<or> lr_retained_until r \<noteq> None) (Invalid ''leased state'')
               (bindE (assertBoundedString (JStr targetType) ''persisted target_type'' 64) (\<lambda>tt.
                bindE (assertBoundedString (JStr targetId) ''persisted target_id'' 512) (\<lambda>ti.
                bindE (assertNonNegativeSafeInteger (js_int deadline) ''persisted idle_deadline'') (\<lambda>d.
                throwIf (d < changedAt) (Invalid ''idle deadline'')
                  (Inr (r\<lparr>lr_target_type := Some tt, lr_target_id := Some ti\<rparr>))))))
           | _ \<Rightarrow> Inl (Invalid ''leased state''))
      | _ \<Rightarrow>
          throwIf (lr_target_type r \<noteq> None \<or> lr_target_id r \<noteq> None \<or> lr_idle_deadline r \<noteq> None) (Invalid ''state'')
          (case lr_retained_until r of
             None \<Rightarrow> Inl (Invalid ''state'')
           | Some retained \<Rightarrow>
               bindE (assertNonNegativeSafeInteger (js_int retained) ''persisted retained_until'') (\<lambda>u.
               throwIf (u < updatedAt) (Invalid ''retention deadline'') (Inr r)))))))))"

definition requireLease :: "('m) lease_db_scheme \<Rightarrow> string \<Rightarrow> string \<Rightarrow> lease_conflict err + lease_row" where
  "requireLease db runId actorId =
     (case getLeaseRow db runId actorId of None \<Rightarrow> Inl (Conflict Lease_not_found) | Some r \<Rightarrow> leaseFromRow r)"

definition assertExpectedVersion :: "lease_row \<Rightarrow> int option \<Rightarrow> lease_conflict err + unit" where
  "assertExpectedVersion lease expected =
     throwIf (\<not> opt_matches expected (lr_version lease)) (Conflict Lease_version_conflict) (Inr ())"

record lease_ref =
  rf_generation :: int
  rf_target_type :: string
  rf_target_id :: string

definition assertExactLease :: "lease_row \<Rightarrow> lease_ref \<Rightarrow> lease_conflict err + unit" where
  "assertExactLease lease input =
     throwIf (lr_state lease \<noteq> Leased) (Conflict Lease_state_conflict)
     (throwIf (lr_generation lease \<noteq> rf_generation input) (Conflict Lease_generation_conflict)
     (throwIf (lr_target_type lease \<noteq> Some (rf_target_type input) \<or> lr_target_id lease \<noteq> Some (rf_target_id input))
        (Conflict Lease_target_conflict) (Inr ())))"

section \<open>Operations\<close>

text \<open>
  Every operation takes the process environment \<open>penv\<close>, the clock, and its arguments; \<open>now\<close> stands
  for the argument \<open>now ?? Date.now()\<close>.
\<close>

definition ensureLeaseRow :: "string \<Rightarrow> string \<Rightarrow> bool \<Rightarrow> int \<Rightarrow> int \<Rightarrow> ('m) lease_db_scheme
    \<Rightarrow> lease_conflict err + (('m) lease_db_scheme \<times> lease_row)" where
  "ensureLeaseRow runId actorId pinned now retention db =
     (case getLeaseRow db runId actorId of
        Some existing \<Rightarrow> bindE (leaseFromRow existing) (\<lambda>r. Inr (db, r))
      | None \<Rightarrow>
          throwIf (getActorRow db runId actorId = None) (Conflict Actor_not_found)
          (bindE (checkedDeadline now retention ''retained_until'') (\<lambda>retainedUntil.
           bindE (sql_insert leases_ok
             \<lparr>lr_run_id = runId, lr_actor_id = actorId, lr_state = Dormant, lr_generation = 0, lr_target_type = None,
              lr_target_id = None, lr_idle_deadline = None, lr_pinned = pinned, lr_retained_until = Some retainedUntil,
              lr_state_changed_at = now, lr_created_at = now, lr_updated_at = now, lr_version = 1\<rparr> (db_leases db)) (\<lambda>rows.
           let db' = db\<lparr>db_leases := rows\<rparr>
           in bindE (requireLease db' runId actorId) (\<lambda>r. Inr (db', r))))))"

record ensure_lease_input =
  el_run_id :: string
  el_actor_id :: string
  el_pinned :: "bool option"
  el_retention_ttl_ms :: "jsnum option"
  el_now :: "jsnum option"

definition ensureDagActorLease :: "(string \<Rightarrow> string option) \<Rightarrow> int \<Rightarrow> ensure_lease_input \<Rightarrow> ('m) lease_db_scheme
    \<Rightarrow> lease_conflict err + (('m) lease_db_scheme \<times> lease_row)" where
  "ensureDagActorLease penv clock input db =
     bindE (assertBoundedString (JStr (el_run_id input)) ''run_id'' 256) (\<lambda>runId.
     bindE (assertBoundedString (JStr (el_actor_id input)) ''actor_id'' 256) (\<lambda>actorId.
     bindE (assertNow (el_now input) clock) (\<lambda>now.
     bindE (retentionTtl penv (el_retention_ttl_ms input)) (\<lambda>retention.
     ensureLeaseRow runId actorId (case el_pinned input of None \<Rightarrow> False | Some b \<Rightarrow> b) now retention db))))"

definition getDagActorLease :: "string \<Rightarrow> string \<Rightarrow> ('m) lease_db_scheme \<Rightarrow> lease_conflict err + lease_row option" where
  "getDagActorLease rawRun rawActor db =
     bindE (assertBoundedString (JStr rawRun) ''run_id'' 256) (\<lambda>runId.
     bindE (assertBoundedString (JStr rawActor) ''actor_id'' 256) (\<lambda>actorId.
     optE leaseFromRow (getLeaseRow db runId actorId)))"

text \<open>The arguments that name a lease exactly; the generation is absent when a lease is acquired.\<close>

record lease_input =
  li_run_id :: string
  li_actor_id :: string
  li_generation :: jsnum
  li_target_type :: string
  li_target_id :: string
  li_expected_version :: "jsnum option"
  li_idle_ttl_ms :: "jsnum option"
  li_retention_ttl_ms :: "jsnum option"
  li_now :: "jsnum option"

definition acquireDagActorLease :: "(string \<Rightarrow> string option) \<Rightarrow> int \<Rightarrow> lease_input \<Rightarrow> ('m) lease_db_scheme
    \<Rightarrow> lease_conflict err + (('m) lease_db_scheme \<times> lease_row)" where
  "acquireDagActorLease penv clock input db =
     bindE (assertBoundedString (JStr (li_run_id input)) ''run_id'' 256) (\<lambda>runId.
     bindE (assertBoundedString (JStr (li_actor_id input)) ''actor_id'' 256) (\<lambda>actorId.
     bindE (assertBoundedString (JStr (li_target_type input)) ''target_type'' 64) (\<lambda>targetType.
     bindE (assertBoundedString (JStr (li_target_id input)) ''target_id'' 512) (\<lambda>targetId.
     bindE (assertOptionalExpectedVersion (li_expected_version input)) (\<lambda>expectedVersion.
     bindE (assertNow (li_now input) clock) (\<lambda>now.
     bindE (idleTtl penv (li_idle_ttl_ms input)) (\<lambda>idle.
     bindE (retentionTtl penv (li_retention_ttl_ms input)) (\<lambda>retention.
     bindE (checkedDeadline now idle ''idle_deadline'') (\<lambda>requestedDeadline.
     bindE (ensureLeaseRow runId actorId False now retention db) (\<lambda>(db1, current).
     throwIf (lr_state current = Retired) (Conflict Lease_retired)
     (bindE (assertExpectedVersion current expectedVersion) (\<lambda>_.
     bindE (assertMutationTime now (lr_updated_at current)) (\<lambda>_.
     bindE (assertIncrementableVersion (lr_version current) ''lease version'') (\<lambda>_.
     let sameTarget = (lr_state current = Leased \<and> lr_target_type current = Some targetType
                       \<and> lr_target_id current = Some targetId)
     in bindE (if sameTarget then Inr (lr_generation current)
               else assertPositiveSafeInteger (js_int (lr_generation current + 1)) ''lease_generation'') (\<lambda>generation.
     let deadline = (if sameTarget then max (case lr_idle_deadline current of None \<Rightarrow> 0 | Some d \<Rightarrow> d) requestedDeadline
                     else requestedDeadline)
     in bindE (sql_update leases_ok
          (\<lambda>r. lr_run_id r = runId \<and> lr_actor_id r = actorId \<and> lr_version r = lr_version current)
          (\<lambda>r. r\<lparr>lr_state := Leased, lr_generation := generation, lr_target_type := Some targetType,
                 lr_target_id := Some targetId, lr_idle_deadline := Some deadline, lr_retained_until := None,
                 lr_state_changed_at := (if sameTarget then lr_state_changed_at r else now),
                 lr_updated_at := now, lr_version := lr_version r + 1\<rparr>) (db_leases db1)) (\<lambda>(rows, changes).
     throwIf (changes \<noteq> 1) (Conflict Lease_version_conflict)
       (let db2 = db1\<lparr>db_leases := rows\<rparr>
        in bindE (requireLease db2 runId actorId) (\<lambda>r. Inr (db2, r)))))))))))))))))))"

definition renewDagActorLease :: "(string \<Rightarrow> string option) \<Rightarrow> int \<Rightarrow> lease_input \<Rightarrow> ('m) lease_db_scheme
    \<Rightarrow> lease_conflict err + (('m) lease_db_scheme \<times> lease_row)" where
  "renewDagActorLease penv clock input db =
     bindE (assertBoundedString (JStr (li_run_id input)) ''run_id'' 256) (\<lambda>runId.
     bindE (assertBoundedString (JStr (li_actor_id input)) ''actor_id'' 256) (\<lambda>actorId.
     bindE (assertPositiveSafeInteger (JNum (li_generation input)) ''lease_generation'') (\<lambda>generation.
     bindE (assertBoundedString (JStr (li_target_type input)) ''target_type'' 64) (\<lambda>targetType.
     bindE (assertBoundedString (JStr (li_target_id input)) ''target_id'' 512) (\<lambda>targetId.
     bindE (assertOptionalExpectedVersion (li_expected_version input)) (\<lambda>expectedVersion.
     bindE (assertNow (li_now input) clock) (\<lambda>now.
     bindE (idleTtl penv (li_idle_ttl_ms input)) (\<lambda>idle.
     bindE (checkedDeadline now idle ''idle_deadline'') (\<lambda>deadline.
     bindE (requireLease db runId actorId) (\<lambda>current.
     bindE (assertExpectedVersion current expectedVersion) (\<lambda>_.
     bindE (assertMutationTime now (lr_updated_at current)) (\<lambda>_.
     bindE (assertIncrementableVersion (lr_version current) ''lease version'') (\<lambda>_.
     bindE (assertExactLease current \<lparr>rf_generation = generation, rf_target_type = targetType, rf_target_id = targetId\<rparr>) (\<lambda>_.
     let idleDeadline = the (lr_idle_deadline current)
     in throwIf (\<not> lr_pinned current \<and> idleDeadline \<le> now) (Conflict Lease_expired)
     (bindE (sql_update leases_ok
        (\<lambda>r. lr_run_id r = runId \<and> lr_actor_id r = actorId \<and> lr_state r = Leased \<and> lr_generation r = generation
             \<and> lr_target_type r = Some targetType \<and> lr_target_id r = Some targetId \<and> lr_version r = lr_version current)
        (\<lambda>r. r\<lparr>lr_idle_deadline := Some (max idleDeadline deadline), lr_updated_at := now,
               lr_version := lr_version r + 1\<rparr>) (db_leases db)) (\<lambda>(rows, changes).
     throwIf (changes \<noteq> 1) (Conflict Lease_version_conflict)
       (let db' = db\<lparr>db_leases := rows\<rparr>
        in bindE (requireLease db' runId actorId) (\<lambda>r. Inr (db', r)))))))))))))))))))"

definition releaseDagActorLease :: "(string \<Rightarrow> string option) \<Rightarrow> int \<Rightarrow> lease_input \<Rightarrow> ('m) lease_db_scheme
    \<Rightarrow> lease_conflict err + (('m) lease_db_scheme \<times> lease_row)" where
  "releaseDagActorLease penv clock input db =
     bindE (assertBoundedString (JStr (li_run_id input)) ''run_id'' 256) (\<lambda>runId.
     bindE (assertBoundedString (JStr (li_actor_id input)) ''actor_id'' 256) (\<lambda>actorId.
     bindE (assertPositiveSafeInteger (JNum (li_generation input)) ''lease_generation'') (\<lambda>generation.
     bindE (assertBoundedString (JStr (li_target_type input)) ''target_type'' 64) (\<lambda>targetType.
     bindE (assertBoundedString (JStr (li_target_id input)) ''target_id'' 512) (\<lambda>targetId.
     bindE (assertOptionalExpectedVersion (li_expected_version input)) (\<lambda>expectedVersion.
     bindE (assertNow (li_now input) clock) (\<lambda>now.
     bindE (retentionTtl penv (li_retention_ttl_ms input)) (\<lambda>retention.
     bindE (checkedDeadline now retention ''retained_until'') (\<lambda>retainedUntil.
     bindE (requireLease db runId actorId) (\<lambda>current.
     bindE (assertExpectedVersion current expectedVersion) (\<lambda>_.
     bindE (assertMutationTime now (lr_updated_at current)) (\<lambda>_.
     bindE (assertIncrementableVersion (lr_version current) ''lease version'') (\<lambda>_.
     bindE (assertExactLease current \<lparr>rf_generation = generation, rf_target_type = targetType, rf_target_id = targetId\<rparr>) (\<lambda>_.
     bindE (sql_update leases_ok
        (\<lambda>r. lr_run_id r = runId \<and> lr_actor_id r = actorId \<and> lr_state r = Leased \<and> lr_generation r = generation
             \<and> lr_target_type r = Some targetType \<and> lr_target_id r = Some targetId \<and> lr_version r = lr_version current)
        (\<lambda>r. r\<lparr>lr_state := Dormant, lr_target_type := None, lr_target_id := None, lr_idle_deadline := None,
               lr_retained_until := Some retainedUntil, lr_state_changed_at := now, lr_updated_at := now,
               lr_version := lr_version r + 1\<rparr>) (db_leases db)) (\<lambda>(rows, changes).
     throwIf (changes \<noteq> 1) (Conflict Lease_version_conflict)
       (let db' = db\<lparr>db_leases := rows\<rparr>
        in bindE (requireLease db' runId actorId) (\<lambda>r. Inr (db', r))))))))))))))))))"

record pin_input =
  pi_run_id :: string
  pi_actor_id :: string
  pi_pinned :: bool
  pi_expected_version :: "jsnum option"
  pi_retention_ttl_ms :: "jsnum option"
  pi_now :: "jsnum option"

definition setDagActorLeasePinned :: "(string \<Rightarrow> string option) \<Rightarrow> int \<Rightarrow> pin_input \<Rightarrow> ('m) lease_db_scheme
    \<Rightarrow> lease_conflict err + (('m) lease_db_scheme \<times> lease_row)" where
  "setDagActorLeasePinned penv clock input db =
     bindE (assertBoundedString (JStr (pi_run_id input)) ''run_id'' 256) (\<lambda>runId.
     bindE (assertBoundedString (JStr (pi_actor_id input)) ''actor_id'' 256) (\<lambda>actorId.
     bindE (assertOptionalExpectedVersion (pi_expected_version input)) (\<lambda>expectedVersion.
     bindE (assertNow (pi_now input) clock) (\<lambda>now.
     bindE (retentionTtl penv (pi_retention_ttl_ms input)) (\<lambda>retention.
     bindE (requireLease db runId actorId) (\<lambda>current.
     bindE (assertExpectedVersion current expectedVersion) (\<lambda>_.
     if lr_pinned current = pi_pinned input then Inr (db, current)
     else bindE (assertMutationTime now (lr_updated_at current)) (\<lambda>_.
     bindE (assertIncrementableVersion (lr_version current) ''lease version'') (\<lambda>_.
     throwIf (pi_pinned input \<and> lr_state current = Leased \<and> the (lr_idle_deadline current) \<le> now) (Conflict Lease_expired)
     (throwIf (pi_pinned input \<and> lr_state current \<noteq> Leased \<and> the (lr_retained_until current) \<le> now) (Conflict Lease_expired)
     (bindE (if lr_state current = Leased then Inr None
             else if pi_pinned input then Inr (lr_retained_until current)
             else bindE (checkedDeadline now retention ''retained_until'') (\<lambda>d. Inr (Some d))) (\<lambda>retainedUntil.
      bindE (sql_update leases_ok
        (\<lambda>r. lr_run_id r = runId \<and> lr_actor_id r = actorId \<and> lr_version r = lr_version current)
        (\<lambda>r. r\<lparr>lr_pinned := pi_pinned input, lr_retained_until := retainedUntil, lr_updated_at := now,
               lr_version := lr_version r + 1\<rparr>) (db_leases db)) (\<lambda>(rows, changes).
     throwIf (changes \<noteq> 1) (Conflict Lease_version_conflict)
       (let db' = db\<lparr>db_leases := rows\<rparr>
        in bindE (requireLease db' runId actorId) (\<lambda>r. Inr (db', r))))))))))))))))"

record retire_input =
  rt_run_id :: string
  rt_actor_id :: string
  rt_expected_version :: "jsnum option"
  rt_generation :: "jsnum option"
  rt_target_type :: "string option"
  rt_target_id :: "string option"
  rt_retention_ttl_ms :: "jsnum option"
  rt_now :: "jsnum option"

definition retireDagActorLease :: "(string \<Rightarrow> string option) \<Rightarrow> int \<Rightarrow> retire_input \<Rightarrow> ('m) lease_db_scheme
    \<Rightarrow> lease_conflict err + (('m) lease_db_scheme \<times> lease_row)" where
  "retireDagActorLease penv clock input db =
     bindE (assertBoundedString (JStr (rt_run_id input)) ''run_id'' 256) (\<lambda>runId.
     bindE (assertBoundedString (JStr (rt_actor_id input)) ''actor_id'' 256) (\<lambda>actorId.
     bindE (assertOptionalExpectedVersion (rt_expected_version input)) (\<lambda>expectedVersion.
     bindE (optE (\<lambda>g. assertPositiveSafeInteger (JNum g) ''lease_generation'') (rt_generation input)) (\<lambda>generation.
     bindE (optE (\<lambda>t. assertBoundedString (JStr t) ''target_type'' 64) (rt_target_type input)) (\<lambda>targetType.
     bindE (optE (\<lambda>t. assertBoundedString (JStr t) ''target_id'' 512) (rt_target_id input)) (\<lambda>targetId.
     bindE (assertNow (rt_now input) clock) (\<lambda>now.
     bindE (retentionTtl penv (rt_retention_ttl_ms input)) (\<lambda>retention.
     bindE (checkedDeadline now retention ''retained_until'') (\<lambda>retainedUntil.
     bindE (requireLease db runId actorId) (\<lambda>current.
     bindE (assertExpectedVersion current expectedVersion) (\<lambda>_.
     if lr_state current = Retired then Inr (db, current)
     else bindE (assertMutationTime now (lr_updated_at current)) (\<lambda>_.
     bindE (assertIncrementableVersion (lr_version current) ''lease version'') (\<lambda>_.
     bindE (if lr_state current = Leased
            then (case (generation, targetType, targetId) of
                    (Some g, Some t, Some i) \<Rightarrow> assertExactLease current \<lparr>rf_generation = g, rf_target_type = t, rf_target_id = i\<rparr>
                  | _ \<Rightarrow> Inl (Conflict Lease_target_conflict))
            else throwIf (generation \<noteq> None \<or> targetType \<noteq> None \<or> targetId \<noteq> None) (Conflict Lease_state_conflict) (Inr ()))
      (\<lambda>_.
     bindE (sql_update leases_ok
        (\<lambda>r. lr_run_id r = runId \<and> lr_actor_id r = actorId \<and> lr_version r = lr_version current \<and> lr_state r \<noteq> Retired)
        (\<lambda>r. r\<lparr>lr_state := Retired, lr_target_type := None, lr_target_id := None, lr_idle_deadline := None,
               lr_retained_until := Some retainedUntil, lr_state_changed_at := now, lr_updated_at := now,
               lr_version := lr_version r + 1\<rparr>) (db_leases db)) (\<lambda>(rows, changes).
     throwIf (changes \<noteq> 1) (Conflict Lease_version_conflict)
       (let db' = db\<lparr>db_leases := rows\<rparr>
        in bindE (requireLease db' runId actorId) (\<lambda>r. Inr (db', r))))))))))))))))))"

datatype assessment =
    Current lease_row
  | Missing
  | Not_leased lease_row
  | Generation_mismatch lease_row
  | Target_mismatch lease_row
  | Expired lease_row

definition assessDagActorLease :: "int \<Rightarrow> lease_input \<Rightarrow> ('m) lease_db_scheme \<Rightarrow> lease_conflict err + assessment" where
  "assessDagActorLease clock input db =
     bindE (assertBoundedString (JStr (li_run_id input)) ''run_id'' 256) (\<lambda>runId.
     bindE (assertBoundedString (JStr (li_actor_id input)) ''actor_id'' 256) (\<lambda>actorId.
     bindE (assertPositiveSafeInteger (JNum (li_generation input)) ''lease_generation'') (\<lambda>generation.
     bindE (assertBoundedString (JStr (li_target_type input)) ''target_type'' 64) (\<lambda>targetType.
     bindE (assertBoundedString (JStr (li_target_id input)) ''target_id'' 512) (\<lambda>targetId.
     bindE (assertNow (li_now input) clock) (\<lambda>now.
     bindE (getDagActorLease runId actorId db) (\<lambda>found.
     Inr (case found of
        None \<Rightarrow> Missing
      | Some lease \<Rightarrow>
          if lr_state lease \<noteq> Leased then Not_leased lease
          else if lr_generation lease \<noteq> generation then Generation_mismatch lease
          else if lr_target_type lease \<noteq> Some targetType \<or> lr_target_id lease \<noteq> Some targetId then Target_mismatch lease
          else if \<not> lr_pinned lease \<and> the (lr_idle_deadline lease) \<le> now then Expired lease
          else Current lease))))))))"

section \<open>Lists\<close>

definition DEFAULT_DAG_ACTOR_LEASE_LIST_LIMIT :: int where
  "DEFAULT_DAG_ACTOR_LEASE_LIST_LIMIT = 100"

definition MAX_DAG_ACTOR_LEASE_LIST_LIMIT :: int where
  "MAX_DAG_ACTOR_LEASE_LIST_LIMIT = 1000"

definition normalizeListLimit :: "jsnum option \<Rightarrow> 'c err + nat" where
  "normalizeListLimit v =
     (let limit = (case v of None \<Rightarrow> num_of_int DEFAULT_DAG_ACTOR_LEASE_LIST_LIMIT | Some n \<Rightarrow> n)
      in throwIf (\<not> is_safe_integer limit \<or> num_int limit < 1 \<or> MAX_DAG_ACTOR_LEASE_LIST_LIMIT < num_int limit)
           (Invalid ''limit'') (Inr (nat (num_int limit))))"

definition lease_expired_at :: "int \<Rightarrow> lease_row \<Rightarrow> bool" where
  "lease_expired_at now r \<longleftrightarrow> lr_state r = Leased \<and> \<not> lr_pinned r \<and> (\<exists>d. lr_idle_deadline r = Some d \<and> d \<le> now)"

lemma lease_expired_at_code [code]:
  "lease_expired_at now r = (lr_state r = Leased \<and> \<not> lr_pinned r
     \<and> (case lr_idle_deadline r of None \<Rightarrow> False | Some d \<Rightarrow> d \<le> now))"
  by (auto simp: lease_expired_at_def split: option.splits)

definition listExpiredDagActorLeases :: "int \<Rightarrow> jsnum option \<Rightarrow> jsnum option \<Rightarrow> ('m) lease_db_scheme
    \<Rightarrow> lease_conflict err + lease_row list" where
  "listExpiredDagActorLeases clock rawNow rawLimit db =
     bindE (assertNow rawNow clock) (\<lambda>now.
     bindE (normalizeListLimit rawLimit) (\<lambda>limit.
     mapE leaseFromRow
       (take limit
         (sort_key (\<lambda>r. (the (lr_idle_deadline r), lr_run_id r, lr_actor_id r)) (filter (lease_expired_at now) (db_leases db))))))"

definition terminal_run :: "('m) actor_db_scheme \<Rightarrow> string \<Rightarrow> bool" where
  "terminal_run db runId \<longleftrightarrow>
     list_ex (\<lambda>(r, status). r = runId \<and> (status = ''completed'' \<or> status = ''cancelled'' \<or> status = ''failed'')) (db_runs db)"

text \<open>A dormant or retired lease, not pinned, past its retention, of a run that has ended.\<close>

definition runtime_expired_at :: "int \<Rightarrow> ('m) actor_db_scheme \<Rightarrow> lease_row \<Rightarrow> bool" where
  "runtime_expired_at now db r \<longleftrightarrow> lr_state r \<noteq> Leased \<and> \<not> lr_pinned r
     \<and> (case lr_retained_until r of None \<Rightarrow> False | Some d \<Rightarrow> d \<le> now) \<and> terminal_run db (lr_run_id r)"

definition listExpiredTerminalDagActorRuntimes :: "int \<Rightarrow> jsnum option \<Rightarrow> jsnum option \<Rightarrow> ('m) lease_db_scheme
    \<Rightarrow> lease_conflict err + lease_row list" where
  "listExpiredTerminalDagActorRuntimes clock rawNow rawLimit db =
     bindE (assertNow rawNow clock) (\<lambda>now.
     bindE (normalizeListLimit rawLimit) (\<lambda>limit.
     mapE leaseFromRow
       (take limit
         (sort_key (\<lambda>r. (the (lr_retained_until r), lr_run_id r, lr_actor_id r)) (filter (runtime_expired_at now db) (db_leases db))))))"

end
