(* ===== verification/Actor_Runtime.thy ===== *)
theory Actor_Runtime
  imports Actor_Leases
begin

text \<open>
  The rest of \<open>persistence/dag-actor-leases.ts\<close>: append-only checkpoints, the deletion of an expired
  actor with everything that references it, and the workers provisioned for a lease. The
  constraints are those of migration 24 in \<open>persistence/db.ts\<close>. \<open>localeCompare\<close> is a parameter
  \<open>locale_le\<close>: whether the first string sorts before the second or equal to it.
\<close>

datatype worker_status = Active | Releasing | Released | Worker_failed

record checkpoint_row =
  cp_run_id :: string
  cp_actor_id :: string
  cp_version :: int
  cp_generation :: int
  cp_round_id :: string
  cp_captured_at :: int
  cp_sha256 :: string
  cp_json :: string
  cp_created_at :: int

record worker_row =
  pw_run_id :: string
  pw_actor_id :: string
  pw_generation :: int
  pw_worker_id :: string
  pw_node_id :: string
  pw_container_id :: string
  pw_docker_node_id :: string
  pw_status :: worker_status
  pw_registered_at :: int
  pw_updated_at :: int
  pw_release_requested_at :: "int option"
  pw_terminal_at :: "int option"
  pw_failure_json :: "string option"
  pw_version :: int

record runtime_db = lease_db +
  db_checkpoints :: "checkpoint_row list"
  db_workers :: "worker_row list"

section \<open>Constraints\<close>

definition lower_hex :: "string \<Rightarrow> bool" where
  "lower_hex s \<longleftrightarrow> list_all (\<lambda>c. digit c \<or> (CHR ''a'' \<le> c \<and> c \<le> CHR ''f'')) s"

definition sha256_hex :: "string \<Rightarrow> bool" where
  "sha256_hex s \<longleftrightarrow> length s = 64 \<and> lower_hex s"

definition checkpoint_check :: "checkpoint_row \<Rightarrow> bool" where
  "checkpoint_check r \<longleftrightarrow> 1 \<le> cp_version r \<and> 1 \<le> cp_generation r
     \<and> 1 \<le> length (cp_round_id r) \<and> length (cp_round_id r) \<le> 256 \<and> 0 \<le> cp_captured_at r
     \<and> sha256_hex (cp_sha256 r) \<and> 2 \<le> length (cp_json r) \<and> int (length (cp_json r)) \<le> 262144 \<and> 0 \<le> cp_created_at r"

definition checkpoint_key :: "checkpoint_row \<Rightarrow> string \<times> string \<times> int" where
  "checkpoint_key r = (cp_run_id r, cp_actor_id r, cp_version r)"

definition checkpoints_ok :: "checkpoint_row list \<Rightarrow> bool" where
  "checkpoints_ok rows \<longleftrightarrow> list_all checkpoint_check rows \<and> unique_on (\<lambda>_. True) checkpoint_key rows"

definition worker_check :: "worker_row \<Rightarrow> bool" where
  "worker_check r \<longleftrightarrow> 1 \<le> pw_generation r
     \<and> opt_length 256 (Some (pw_worker_id r)) \<and> opt_length 256 (Some (pw_node_id r))
     \<and> opt_length 512 (Some (pw_container_id r)) \<and> opt_length 256 (Some (pw_docker_node_id r))
     \<and> 0 \<le> pw_registered_at r \<and> pw_registered_at r \<le> pw_updated_at r
     \<and> opt_ge (pw_release_requested_at r) (pw_registered_at r) \<and> opt_ge (pw_terminal_at r) (pw_registered_at r)
     \<and> (case pw_failure_json r of None \<Rightarrow> True | Some f \<Rightarrow> 2 \<le> length f \<and> int (length f) \<le> 65536)
     \<and> 1 \<le> pw_version r
     \<and> (case pw_status r of
          Active \<Rightarrow> pw_release_requested_at r = None \<and> pw_terminal_at r = None \<and> pw_failure_json r = None
        | Releasing \<Rightarrow> pw_release_requested_at r \<noteq> None \<and> pw_terminal_at r = None \<and> pw_failure_json r = None
        | Released \<Rightarrow> pw_release_requested_at r \<noteq> None \<and> pw_terminal_at r \<noteq> None \<and> pw_failure_json r = None
        | Worker_failed \<Rightarrow> pw_terminal_at r \<noteq> None \<and> pw_failure_json r \<noteq> None)"

definition worker_key :: "worker_row \<Rightarrow> string \<times> string \<times> int \<times> string" where
  "worker_key r = (pw_run_id r, pw_actor_id r, pw_generation r, pw_worker_id r)"

definition worker_current :: "worker_row \<Rightarrow> bool" where
  "worker_current r \<longleftrightarrow> pw_status r = Active \<or> pw_status r = Releasing"

definition workers_unique :: "worker_row list \<Rightarrow> bool" where
  "workers_unique rows \<longleftrightarrow> unique_on (\<lambda>_. True) worker_key rows \<and> unique_on (\<lambda>_. True) pw_container_id rows
     \<and> unique_on worker_current (\<lambda>r. (pw_run_id r, pw_actor_id r, pw_generation r)) rows"

definition workers_ok :: "worker_row list \<Rightarrow> bool" where
  "workers_ok rows \<longleftrightarrow> list_all worker_check rows \<and> workers_unique rows"

section \<open>Checkpoint documents\<close>

definition MAX_DAG_ACTOR_CHECKPOINT_BYTES :: int where
  "MAX_DAG_ACTOR_CHECKPOINT_BYTES = 256 * 1024"

definition MAX_DAG_ACTOR_CHECKPOINT_ITEMS :: nat where
  "MAX_DAG_ACTOR_CHECKPOINT_ITEMS = 128"

record skill_context =
  sk_digest :: string
  sk_skills :: "(string \<times> string) list"

record checkpoint =
  ck_objective :: string
  ck_confirmed_conclusions :: "string list"
  ck_unresolved_items :: "string list"
  ck_key_event_refs :: "string list"
  ck_artifact_refs :: "string list"
  ck_workspace_ref :: "string option"
  ck_surface_binding :: string
  ck_context_summary :: string
  ck_skill_context :: "skill_context option"
  ck_round_id :: string
  ck_actor_generation :: int
  ck_captured_at :: int

definition normalizeCheckpointStringArray :: "js \<Rightarrow> string \<Rightarrow> 'c err + string list" where
  "normalizeCheckpointStringArray v what =
     (case v of
        JArr vs \<Rightarrow> throwIf (MAX_DAG_ACTOR_CHECKPOINT_ITEMS < length vs) (Invalid what)
                    (mapE (\<lambda>e. assertContentString e what 8192) vs)
      | _ \<Rightarrow> Inl (Invalid what))"

text \<open>A stable sort by a comparator.\<close>

fun insert_by :: "('a \<Rightarrow> 'a \<Rightarrow> bool) \<Rightarrow> 'a \<Rightarrow> 'a list \<Rightarrow> 'a list" where
  "insert_by le x [] = [x]"
| "insert_by le x (y # ys) = (if le x y then x # y # ys else y # insert_by le x ys)"

definition sort_by :: "('a \<Rightarrow> 'a \<Rightarrow> bool) \<Rightarrow> 'a list \<Rightarrow> 'a list" where
  "sort_by le xs = foldr (insert_by le) xs []"

definition normalizeSkill :: "js \<Rightarrow> 'c err + (string \<times> string)" where
  "normalizeSkill v =
     (case v of
        JObj skill \<Rightarrow>
          throwIf (list_ex (\<lambda>(k, _). k \<noteq> ''id'' \<and> k \<noteq> ''digest'') skill) (Invalid ''skill'')
          (bindE (assertBoundedString (obj_get skill ''id'') ''skill.id'' 256) (\<lambda>i.
           bindE (assertBoundedString (obj_get skill ''digest'') ''skill.digest'' 64) (\<lambda>d.
           throwIf (\<not> sha256_hex d) (Invalid ''skill.digest'') (Inr (i, d)))))
      | _ \<Rightarrow> Inl (Invalid ''skill''))"

definition normalizeCheckpointSkillContext :: "(string \<Rightarrow> string \<Rightarrow> bool) \<Rightarrow> js \<Rightarrow> 'c err + skill_context" where
  "normalizeCheckpointSkillContext locale_le v =
     (case v of
        JObj raw \<Rightarrow>
          throwIf (list_ex (\<lambda>(k, _). k \<noteq> ''context_digest'' \<and> k \<noteq> ''skills'') raw) (Invalid ''skill_context'')
          (bindE (assertBoundedString (obj_get raw ''context_digest'') ''context_digest'' 64) (\<lambda>digest.
           throwIf (\<not> sha256_hex digest) (Invalid ''context_digest'')
           (case obj_get raw ''skills'' of
              JArr vs \<Rightarrow>
                throwIf (8 < length vs) (Invalid ''skills'')
                (bindE (mapE normalizeSkill vs) (\<lambda>skills.
                 let sorted = sort_by (\<lambda>l r. locale_le (fst l) (fst r)) skills
                 in throwIf (\<not> distinct (map fst skills) \<or> map fst skills \<noteq> map fst sorted) (Invalid ''skills'')
                      (Inr \<lparr>sk_digest = digest, sk_skills = skills\<rparr>)))
            | _ \<Rightarrow> Inl (Invalid ''skills''))))
      | _ \<Rightarrow> Inl (Invalid ''skill_context''))"

definition checkpoint_fields :: "string list" where
  "checkpoint_fields = [''schema_version'', ''objective'', ''confirmed_conclusions'', ''unresolved_items'',
     ''key_event_refs'', ''artifact_refs'', ''workspace_ref'', ''surface_binding'', ''context_summary'',
     ''skill_context'', ''round_id'', ''actor_generation'', ''captured_at'']"

text \<open>A field that is checked unless it is undefined.\<close>

definition optional_field :: "(js \<Rightarrow> 'e + 'b) \<Rightarrow> js \<Rightarrow> 'e + 'b option" where
  "optional_field f v = (if v = JUndef then Inr None else bindE (f v) (\<lambda>b. Inr (Some b)))"

definition normalizeCheckpoint :: "(string \<Rightarrow> string \<Rightarrow> bool) \<Rightarrow> js \<Rightarrow> 'c err + checkpoint" where
  "normalizeCheckpoint locale_le v =
     (case v of
        JObj raw \<Rightarrow>
          throwIf (list_ex (\<lambda>(k, _). k \<notin> set checkpoint_fields) raw) (Invalid ''checkpoint'')
          (throwIf (\<not> js_strict_eq (obj_get raw ''schema_version'') (js_int 1)) (Invalid ''schema_version'')
          (bindE (assertContentString (obj_get raw ''objective'') ''objective'' 16384) (\<lambda>objective.
           bindE (normalizeCheckpointStringArray (obj_get raw ''confirmed_conclusions'') ''confirmed_conclusions'') (\<lambda>confirmed.
           bindE (normalizeCheckpointStringArray (obj_get raw ''unresolved_items'') ''unresolved_items'') (\<lambda>unresolved.
           bindE (normalizeCheckpointStringArray (obj_get raw ''key_event_refs'') ''key_event_refs'') (\<lambda>events.
           bindE (normalizeCheckpointStringArray (obj_get raw ''artifact_refs'') ''artifact_refs'') (\<lambda>artifacts.
           bindE (optional_field (\<lambda>w. assertBoundedString w ''workspace_ref'' 2048) (obj_get raw ''workspace_ref'')) (\<lambda>workspace.
           bindE (assertBoundedString (obj_get raw ''surface_binding'') ''surface_binding'' 2048) (\<lambda>surface.
           bindE (assertContentString (obj_get raw ''context_summary'') ''context_summary'' 65536) (\<lambda>summary.
           bindE (optional_field (normalizeCheckpointSkillContext locale_le) (obj_get raw ''skill_context'')) (\<lambda>skills.
           bindE (assertBoundedString (obj_get raw ''round_id'') ''round_id'' 256) (\<lambda>roundId.
           bindE (assertPositiveSafeInteger (obj_get raw ''actor_generation'') ''actor_generation'') (\<lambda>generation.
           bindE (assertNonNegativeSafeInteger (obj_get raw ''captured_at'') ''captured_at'') (\<lambda>captured.
           Inr \<lparr>ck_objective = objective, ck_confirmed_conclusions = confirmed, ck_unresolved_items = unresolved,
             ck_key_event_refs = events, ck_artifact_refs = artifacts, ck_workspace_ref = workspace,
             ck_surface_binding = surface, ck_context_summary = summary, ck_skill_context = skills,
             ck_round_id = roundId, ck_actor_generation = generation, ck_captured_at = captured\<rparr>))))))))))))))
      | _ \<Rightarrow> Inl (Invalid ''checkpoint''))"

text \<open>The object that \<open>normalizeCheckpoint\<close> returns, in its order of properties.\<close>

definition checkpoint_js :: "checkpoint \<Rightarrow> js" where
  "checkpoint_js c =
     (let strings = (\<lambda>ss. JArr (map JStr ss)) in
      JObj ([(''schema_version'', js_int 1), (''objective'', JStr (ck_objective c)),
         (''confirmed_conclusions'', strings (ck_confirmed_conclusions c)),
         (''unresolved_items'', strings (ck_unresolved_items c)), (''key_event_refs'', strings (ck_key_event_refs c)),
         (''artifact_refs'', strings (ck_artifact_refs c))]
       @ (case ck_workspace_ref c of None \<Rightarrow> [] | Some w \<Rightarrow> [(''workspace_ref'', JStr w)])
       @ [(''surface_binding'', JStr (ck_surface_binding c)), (''context_summary'', JStr (ck_context_summary c))]
       @ (case ck_skill_context c of None \<Rightarrow> []
          | Some k \<Rightarrow> [(''skill_context'', JObj [(''context_digest'', JStr (sk_digest k)),
              (''skills'', JArr (map (\<lambda>(i, d). JObj [(''id'', JStr i), (''digest'', JStr d)]) (sk_skills k)))])])
       @ [(''round_id'', JStr (ck_round_id c)), (''actor_generation'', js_int (ck_actor_generation c)),
          (''captured_at'', js_int (ck_captured_at c))]))"

section \<open>Checkpoints\<close>

definition encodeCheckpoint :: "js_env \<Rightarrow> (string \<Rightarrow> string \<Rightarrow> bool) \<Rightarrow> js \<Rightarrow> 'c err + (checkpoint \<times> string \<times> string)" where
  "encodeCheckpoint env locale_le v =
     bindE (encodeCanonicalJson (env_num_str env) v ''checkpoint'' MAX_DAG_ACTOR_CHECKPOINT_BYTES) (\<lambda>raw.
     (case env_json_parse env raw of
        None \<Rightarrow> Inl (Invalid ''checkpoint'')
      | Some parsed \<Rightarrow>
          bindE (normalizeCheckpoint locale_le (redactTelemetry 0 parsed)) (\<lambda>checkpoint.
          bindE (encodeCanonicalJson (env_num_str env) (checkpoint_js checkpoint) ''checkpoint'' MAX_DAG_ACTOR_CHECKPOINT_BYTES)
           (\<lambda>json. Inr (checkpoint, json, env_sha256 env json)))))"

definition checkpointFromRow :: "js_env \<Rightarrow> (string \<Rightarrow> string \<Rightarrow> bool) \<Rightarrow> checkpoint_row \<Rightarrow> 'c err + (checkpoint_row \<times> checkpoint)" where
  "checkpointFromRow env locale_le r =
     bindE (assertPositiveSafeInteger (js_int (cp_version r)) ''persisted checkpoint_version'') (\<lambda>version.
     bindE (assertNonNegativeSafeInteger (js_int (cp_created_at r)) ''persisted checkpoint created_at'') (\<lambda>createdAt.
     (case env_json_parse env (cp_json r) of
        None \<Rightarrow> Inl (Invalid ''checkpoint_json'')
      | Some parsed \<Rightarrow>
          bindE (normalizeCheckpoint locale_le parsed) (\<lambda>checkpoint.
          bindE (encodeCanonicalJson (env_num_str env) (checkpoint_js checkpoint) ''persisted checkpoint'' MAX_DAG_ACTOR_CHECKPOINT_BYTES)
           (\<lambda>json.
          throwIf (json \<noteq> cp_json r \<or> env_sha256 env json \<noteq> cp_sha256 r) (Invalid ''integrity'')
          (throwIf (cp_generation r \<noteq> ck_actor_generation checkpoint \<or> cp_round_id r \<noteq> ck_round_id checkpoint
                    \<or> cp_captured_at r \<noteq> ck_captured_at checkpoint) (Invalid ''metadata'')
             (Inr (r, checkpoint))))))))"

text \<open>\<open>ORDER BY checkpoint_version DESC LIMIT 1\<close>.\<close>

definition latestCheckpointRow :: "('m) runtime_db_scheme \<Rightarrow> string \<Rightarrow> string \<Rightarrow> checkpoint_row option" where
  "latestCheckpointRow db runId actorId =
     fold (\<lambda>r best. case best of None \<Rightarrow> Some r | Some b \<Rightarrow> if cp_version b < cp_version r then Some r else Some b)
       (filter (\<lambda>r. cp_run_id r = runId \<and> cp_actor_id r = actorId) (db_checkpoints db)) None"

definition getCheckpointRow :: "('m) runtime_db_scheme \<Rightarrow> string \<Rightarrow> string \<Rightarrow> int \<Rightarrow> checkpoint_row option" where
  "getCheckpointRow db runId actorId version =
     find (\<lambda>r. cp_run_id r = runId \<and> cp_actor_id r = actorId \<and> cp_version r = version) (db_checkpoints db)"

record write_checkpoint_input =
  wc_run_id :: string
  wc_actor_id :: string
  wc_checkpoint :: js
  wc_expected_version :: "jsnum option"
  wc_now :: "jsnum option"

definition writeDagActorCheckpoint :: "js_env \<Rightarrow> (string \<Rightarrow> string \<Rightarrow> bool) \<Rightarrow> int \<Rightarrow> write_checkpoint_input
    \<Rightarrow> ('m) runtime_db_scheme \<Rightarrow> lease_conflict err + (('m) runtime_db_scheme \<times> checkpoint_row \<times> checkpoint)" where
  "writeDagActorCheckpoint env locale_le clock input db =
     bindE (assertBoundedString (JStr (wc_run_id input)) ''run_id'' 256) (\<lambda>runId.
     bindE (assertBoundedString (JStr (wc_actor_id input)) ''actor_id'' 256) (\<lambda>actorId.
     bindE (optE (\<lambda>n. assertNonNegativeSafeInteger (JNum n) ''expected_checkpoint_version'') (wc_expected_version input)) (\<lambda>expected.
     bindE (assertNow (wc_now input) clock) (\<lambda>now.
     bindE (encodeCheckpoint env locale_le (wc_checkpoint input)) (\<lambda>(checkpoint, json, sha256).
     throwIf (now < ck_captured_at checkpoint) (Invalid ''captured_at'')
     (case getActorRow db runId actorId of
        None \<Rightarrow> Inl (Conflict Actor_not_found)
      | Some actor \<Rightarrow>
     bindE (assertPositiveSafeInteger (js_int (ac_generation actor)) ''persisted actor generation'') (\<lambda>generation.
     throwIf (generation \<noteq> ck_actor_generation checkpoint) (Conflict Checkpoint_generation_conflict)
     (let latest = latestCheckpointRow db runId actorId in
     bindE (case latest of None \<Rightarrow> Inr 0
            | Some l \<Rightarrow> assertPositiveSafeInteger (js_int (cp_version l)) ''persisted checkpoint_version'') (\<lambda>currentVersion.
     bindE (case latest of
              None \<Rightarrow> Inr ()
            | Some l \<Rightarrow>
                bindE (assertNonNegativeSafeInteger (js_int (cp_captured_at l)) ''persisted captured_at'') (\<lambda>capturedAt.
                bindE (assertNonNegativeSafeInteger (js_int (cp_created_at l)) ''persisted checkpoint created_at'') (\<lambda>createdAt.
                throwIf (ck_captured_at checkpoint < capturedAt) (Invalid ''captured_at'')
                (throwIf (now < createdAt) (Invalid ''now'') (Inr ()))))) (\<lambda>_.
     throwIf (\<not> opt_matches expected currentVersion) (Conflict Checkpoint_version_conflict)
     (bindE (assertPositiveSafeInteger (js_int (currentVersion + 1)) ''checkpoint_version'') (\<lambda>version.
      bindE (sql_insert checkpoints_ok
        \<lparr>cp_run_id = runId, cp_actor_id = actorId, cp_version = version, cp_generation = ck_actor_generation checkpoint,
         cp_round_id = ck_round_id checkpoint, cp_captured_at = ck_captured_at checkpoint, cp_sha256 = sha256,
         cp_json = json, cp_created_at = now\<rparr> (db_checkpoints db)) (\<lambda>rows.
      let db' = db\<lparr>db_checkpoints := rows\<rparr>
      in (case getCheckpointRow db' runId actorId version of
            None \<Rightarrow> Inl (Invalid ''checkpoint row'')
          | Some r \<Rightarrow> bindE (checkpointFromRow env locale_le r) (\<lambda>(row, c). Inr (db', row, c))))))))))))))))"

definition getLatestDagActorCheckpoint :: "js_env \<Rightarrow> (string \<Rightarrow> string \<Rightarrow> bool) \<Rightarrow> string \<Rightarrow> string \<Rightarrow> ('m) runtime_db_scheme
    \<Rightarrow> lease_conflict err + (checkpoint_row \<times> checkpoint) option" where
  "getLatestDagActorCheckpoint env locale_le rawRun rawActor db =
     bindE (assertBoundedString (JStr rawRun) ''run_id'' 256) (\<lambda>runId.
     bindE (assertBoundedString (JStr rawActor) ''actor_id'' 256) (\<lambda>actorId.
     optE (checkpointFromRow env locale_le) (latestCheckpointRow db runId actorId)))"

definition getDagActorCheckpoint :: "js_env \<Rightarrow> (string \<Rightarrow> string \<Rightarrow> bool) \<Rightarrow> string \<Rightarrow> string \<Rightarrow> jsnum \<Rightarrow> ('m) runtime_db_scheme
    \<Rightarrow> lease_conflict err + (checkpoint_row \<times> checkpoint) option" where
  "getDagActorCheckpoint env locale_le rawRun rawActor rawVersion db =
     bindE (assertBoundedString (JStr rawRun) ''run_id'' 256) (\<lambda>runId.
     bindE (assertBoundedString (JStr rawActor) ''actor_id'' 256) (\<lambda>actorId.
     bindE (assertPositiveSafeInteger (JNum rawVersion) ''checkpoint_version'') (\<lambda>version.
     optE (checkpointFromRow env locale_le) (getCheckpointRow db runId actorId version))))"

section \<open>Deletion\<close>

datatype kept_reason = Kept_missing | Kept_leased | Kept_pinned | Kept_retained | Kept_worker_cleanup_pending

datatype deletion = Kept kept_reason | Deleted nat

text \<open>Deleting an actor cascades to the tables that reference it, here those that are modelled.\<close>

definition cascade_actor :: "string \<Rightarrow> string \<Rightarrow> ('m) runtime_db_scheme \<Rightarrow> ('m) runtime_db_scheme" where
  "cascade_actor runId actorId db = db\<lparr>
     db_commands := filter (\<lambda>r. \<not> (cm_run_id r = runId \<and> cm_actor_id r = actorId)) (db_commands db),
     db_leases := filter (\<lambda>r. \<not> (lr_run_id r = runId \<and> lr_actor_id r = actorId)) (db_leases db),
     db_checkpoints := filter (\<lambda>r. \<not> (cp_run_id r = runId \<and> cp_actor_id r = actorId)) (db_checkpoints db),
     db_workers := filter (\<lambda>r. \<not> (pw_run_id r = runId \<and> pw_actor_id r = actorId)) (db_workers db)\<rparr>"

definition pending_worker :: "('m) runtime_db_scheme \<Rightarrow> string \<Rightarrow> string \<Rightarrow> bool" where
  "pending_worker db runId actorId \<longleftrightarrow>
     list_ex (\<lambda>r. pw_run_id r = runId \<and> pw_actor_id r = actorId \<and> pw_status r \<noteq> Released) (db_workers db)"

definition deleteExpiredDagActorRuntime :: "int \<Rightarrow> string \<Rightarrow> string \<Rightarrow> jsnum option \<Rightarrow> ('m) runtime_db_scheme
    \<Rightarrow> lease_conflict err + (('m) runtime_db_scheme \<times> deletion)" where
  "deleteExpiredDagActorRuntime clock rawRun rawActor rawNow db =
     bindE (assertBoundedString (JStr rawRun) ''run_id'' 256) (\<lambda>runId.
     bindE (assertBoundedString (JStr rawActor) ''actor_id'' 256) (\<lambda>actorId.
     bindE (assertNow rawNow clock) (\<lambda>now.
     bindE (getDagActorLease runId actorId db) (\<lambda>found.
     (case found of
        None \<Rightarrow> Inr (db, Kept Kept_missing)
      | Some current \<Rightarrow>
          if lr_state current = Leased then Inr (db, Kept Kept_leased)
          else if lr_pinned current then Inr (db, Kept Kept_pinned)
          else if now < the (lr_retained_until current) then Inr (db, Kept Kept_retained)
          else if pending_worker db runId actorId then Inr (db, Kept Kept_worker_cleanup_pending)
          else
            (let checkpointCount = length (filter (\<lambda>r. cp_run_id r = runId \<and> cp_actor_id r = actorId) (db_checkpoints db));
                 expired = list_ex (\<lambda>r. lr_run_id r = runId \<and> lr_actor_id r = actorId \<and> lr_state r \<noteq> Leased \<and> \<not> lr_pinned r
                   \<and> (case lr_retained_until r of None \<Rightarrow> False | Some u \<Rightarrow> u \<le> now) \<and> lr_version r = lr_version current) (db_leases db);
                 (rows, changes) = sql_delete (\<lambda>r. ac_run_id r = runId \<and> ac_actor_id r = actorId \<and> expired
                   \<and> \<not> pending_worker db runId actorId) (db_actors db)
             in throwIf (changes \<noteq> 1) (Conflict Lease_version_conflict)
                  (Inr (cascade_actor runId actorId (db\<lparr>db_actors := rows\<rparr>), Deleted checkpointCount))))))))"

section \<open>Provisioned workers\<close>

definition MAX_DAG_PROVISIONED_WORKER_FAILURE_BYTES :: int where
  "MAX_DAG_PROVISIONED_WORKER_FAILURE_BYTES = 64 * 1024"

definition getProvisionedWorkerRow :: "('m) runtime_db_scheme \<Rightarrow> string \<Rightarrow> string \<Rightarrow> int \<Rightarrow> string \<Rightarrow> worker_row option" where
  "getProvisionedWorkerRow db runId actorId generation workerId =
     find (\<lambda>r. pw_run_id r = runId \<and> pw_actor_id r = actorId \<and> pw_generation r = generation \<and> pw_worker_id r = workerId)
       (db_workers db)"

definition worker_coherent :: "worker_row \<Rightarrow> bool" where
  "worker_coherent r \<longleftrightarrow>
     (pw_status r = Active \<and> pw_release_requested_at r = None \<and> pw_terminal_at r = None \<and> pw_failure_json r = None)
     \<or> (pw_status r = Releasing \<and> pw_release_requested_at r \<noteq> None \<and> pw_terminal_at r = None \<and> pw_failure_json r = None)
     \<or> (pw_status r = Released \<and> pw_release_requested_at r \<noteq> None \<and> pw_terminal_at r \<noteq> None \<and> pw_failure_json r = None)
     \<or> (pw_status r = Worker_failed \<and> pw_terminal_at r \<noteq> None \<and> pw_failure_json r \<noteq> None)"

definition provisionedWorkerFromRow :: "js_env \<Rightarrow> worker_row \<Rightarrow> 'c err + worker_row" where
  "provisionedWorkerFromRow env r =
     bindE (assertPositiveSafeInteger (js_int (pw_generation r)) ''persisted lease_generation'') (\<lambda>generation.
     bindE (assertNonNegativeSafeInteger (js_int (pw_registered_at r)) ''persisted registered_at'') (\<lambda>registeredAt.
     bindE (assertNonNegativeSafeInteger (js_int (pw_updated_at r)) ''persisted updated_at'') (\<lambda>updatedAt.
     bindE (assertPositiveSafeInteger (js_int (pw_version r)) ''persisted version'') (\<lambda>version.
     throwIf (updatedAt < registeredAt) (Invalid ''timestamps'')
     (bindE (optE (\<lambda>t. assertNonNegativeSafeInteger (js_int t) ''persisted release_requested_at'') (pw_release_requested_at r)) (\<lambda>_.
     bindE (optE (\<lambda>t. assertNonNegativeSafeInteger (js_int t) ''persisted terminal_at'') (pw_terminal_at r)) (\<lambda>_.
     bindE (case pw_failure_json r of
              None \<Rightarrow> Inr ()
            | Some json \<Rightarrow>
                (case env_json_parse env json of
                   None \<Rightarrow> Inl (Invalid ''failure_json'')
                 | Some failure \<Rightarrow>
                     throwIf (failure = JNull) (Invalid ''failure data'')
                     (bindE (encodeCanonicalJson (env_num_str env) failure ''persisted provisioned worker failure''
                               MAX_DAG_PROVISIONED_WORKER_FAILURE_BYTES) (\<lambda>canonicalFailure.
                      throwIf (canonicalFailure \<noteq> json) (Invalid ''non-canonical failure data'') (Inr ()))))) (\<lambda>_.
     throwIf (\<not> worker_coherent r) (Invalid ''lifecycle data'')
     (bindE (assertBoundedString (JStr (pw_node_id r)) ''persisted node_id'' 256) (\<lambda>nodeId.
      bindE (assertBoundedString (JStr (pw_worker_id r)) ''persisted worker_id'' 256) (\<lambda>workerId.
      bindE (assertBoundedString (JStr (pw_container_id r)) ''persisted container_id'' 512) (\<lambda>containerId.
      bindE (assertBoundedString (JStr (pw_docker_node_id r)) ''persisted docker_node_id'' 256) (\<lambda>dockerId.
      Inr (r\<lparr>pw_node_id := nodeId, pw_worker_id := workerId, pw_container_id := containerId,
             pw_docker_node_id := dockerId\<rparr>))))))))))))))"

text \<open>The row that the caller knows to be there.\<close>

definition workerAfter :: "js_env \<Rightarrow> ('m) runtime_db_scheme \<Rightarrow> string \<Rightarrow> string \<Rightarrow> int \<Rightarrow> string
    \<Rightarrow> lease_conflict err + (('m) runtime_db_scheme \<times> worker_row)" where
  "workerAfter env db runId actorId generation workerId =
     (case getProvisionedWorkerRow db runId actorId generation workerId of
        None \<Rightarrow> Inl (Invalid ''worker row'')
      | Some r \<Rightarrow> bindE (provisionedWorkerFromRow env r) (\<lambda>w. Inr (db, w)))"

record register_worker_input =
  rw_run_id :: string
  rw_node_id :: string
  rw_actor_id :: string
  rw_generation :: jsnum
  rw_worker_id :: string
  rw_container_id :: string
  rw_docker_node_id :: string
  rw_now :: "jsnum option"

text \<open>SQLite evaluates the \<open>CHECK\<close>s before the unique indexes; a uniqueness violation is caught.\<close>

definition registerDagProvisionedWorker :: "js_env \<Rightarrow> int \<Rightarrow> register_worker_input \<Rightarrow> ('m) runtime_db_scheme
    \<Rightarrow> lease_conflict err + (('m) runtime_db_scheme \<times> worker_row)" where
  "registerDagProvisionedWorker env clock input db =
     bindE (assertBoundedString (JStr (rw_run_id input)) ''run_id'' 256) (\<lambda>runId.
     bindE (assertBoundedString (JStr (rw_node_id input)) ''node_id'' 256) (\<lambda>nodeId.
     bindE (assertBoundedString (JStr (rw_actor_id input)) ''actor_id'' 256) (\<lambda>actorId.
     bindE (assertPositiveSafeInteger (JNum (rw_generation input)) ''lease_generation'') (\<lambda>generation.
     bindE (assertBoundedString (JStr (rw_worker_id input)) ''worker_id'' 256) (\<lambda>workerId.
     bindE (assertBoundedString (JStr (rw_container_id input)) ''container_id'' 512) (\<lambda>containerId.
     bindE (assertBoundedString (JStr (rw_docker_node_id input)) ''docker_node_id'' 256) (\<lambda>dockerId.
     bindE (assertNow (rw_now input) clock) (\<lambda>now.
     (case getActorRow db runId actorId of
        None \<Rightarrow> Inl (Conflict Actor_not_found)
      | Some actor \<Rightarrow>
     throwIf (ac_node_id actor \<noteq> nodeId) (Conflict Provisioned_worker_identity_conflict)
     (bindE (requireLease db runId actorId) (\<lambda>lease.
     bindE (assertMutationTime now (lr_updated_at lease)) (\<lambda>_.
     throwIf (lr_state lease \<noteq> Leased) (Conflict Lease_state_conflict)
     (throwIf (lr_generation lease \<noteq> generation) (Conflict Lease_generation_conflict)
     (throwIf (lr_target_id lease \<noteq> Some workerId) (Conflict Lease_target_conflict)
     (throwIf (\<not> lr_pinned lease \<and> the (lr_idle_deadline lease) \<le> now) (Conflict Lease_expired)
     (case getProvisionedWorkerRow db runId actorId generation workerId of
        Some existing \<Rightarrow>
          throwIf (pw_node_id existing \<noteq> nodeId \<or> pw_container_id existing \<noteq> containerId
                   \<or> pw_docker_node_id existing \<noteq> dockerId) (Conflict Provisioned_worker_identity_conflict)
            (bindE (provisionedWorkerFromRow env existing) (\<lambda>w. Inr (db, w)))
      | None \<Rightarrow>
          (let row = \<lparr>pw_run_id = runId, pw_actor_id = actorId, pw_generation = generation, pw_worker_id = workerId,
                 pw_node_id = nodeId, pw_container_id = containerId, pw_docker_node_id = dockerId, pw_status = Active,
                 pw_registered_at = now, pw_updated_at = now, pw_release_requested_at = None, pw_terminal_at = None,
                 pw_failure_json = None, pw_version = 1\<rparr>
           in throwIf (worker_check row \<and> \<not> workers_unique (db_workers db @ [row])) (Conflict Provisioned_worker_identity_conflict)
              (bindE (sql_insert workers_ok row (db_workers db)) (\<lambda>rows.
               workerAfter env (db\<lparr>db_workers := rows\<rparr>) runId actorId generation workerId)))))))))))))))))))"

record list_workers_input =
  lw_run_id :: "string option"
  lw_actor_id :: "string option"
  lw_generation :: "jsnum option"
  lw_statuses :: "worker_status list option"
  lw_limit :: "jsnum option"

definition listDagProvisionedWorkers :: "js_env \<Rightarrow> list_workers_input \<Rightarrow> ('m) runtime_db_scheme
    \<Rightarrow> lease_conflict err + worker_row list" where
  "listDagProvisionedWorkers env input db =
     bindE (optE (\<lambda>s. assertBoundedString (JStr s) ''run_id'' 256) (lw_run_id input)) (\<lambda>runId.
     bindE (optE (\<lambda>s. assertBoundedString (JStr s) ''actor_id'' 256) (lw_actor_id input)) (\<lambda>actorId.
     bindE (optE (\<lambda>g. assertPositiveSafeInteger (JNum g) ''lease_generation'') (lw_generation input)) (\<lambda>generation.
     throwIf (lw_statuses input = Some []) (Invalid ''statuses'')
     (bindE (normalizeListLimit (lw_limit input)) (\<lambda>limit.
      mapE (provisionedWorkerFromRow env)
       (take limit
         (sort_key (\<lambda>r. (pw_registered_at r, pw_run_id r, pw_actor_id r, pw_generation r, pw_worker_id r))
           (filter (\<lambda>r. opt_matches runId (pw_run_id r) \<and> opt_matches actorId (pw_actor_id r)
              \<and> opt_matches generation (pw_generation r)
              \<and> (case lw_statuses input of None \<Rightarrow> True | Some ss \<Rightarrow> pw_status r \<in> set ss)) (db_workers db)))))))))"

fun worker_transition_allowed :: "worker_status \<Rightarrow> worker_status \<Rightarrow> bool" where
  "worker_transition_allowed Active Releasing = True"
| "worker_transition_allowed Active Worker_failed = True"
| "worker_transition_allowed Releasing Released = True"
| "worker_transition_allowed Releasing Worker_failed = True"
| "worker_transition_allowed Worker_failed Releasing = True"
| "worker_transition_allowed _ _ = False"

record transition_worker_input =
  tw_run_id :: string
  tw_actor_id :: string
  tw_generation :: jsnum
  tw_worker_id :: string
  tw_expected_status :: worker_status
  tw_status :: worker_status
  tw_expected_version :: "jsnum option"
  tw_failure :: js
  tw_now :: "jsnum option"

definition transitionDagProvisionedWorker :: "js_env \<Rightarrow> int \<Rightarrow> transition_worker_input \<Rightarrow> ('m) runtime_db_scheme
    \<Rightarrow> lease_conflict err + (('m) runtime_db_scheme \<times> worker_row)" where
  "transitionDagProvisionedWorker env clock input db =
     bindE (assertBoundedString (JStr (tw_run_id input)) ''run_id'' 256) (\<lambda>runId.
     bindE (assertBoundedString (JStr (tw_actor_id input)) ''actor_id'' 256) (\<lambda>actorId.
     bindE (assertPositiveSafeInteger (JNum (tw_generation input)) ''lease_generation'') (\<lambda>generation.
     bindE (assertBoundedString (JStr (tw_worker_id input)) ''worker_id'' 256) (\<lambda>workerId.
     bindE (assertOptionalExpectedVersion (tw_expected_version input)) (\<lambda>expectedVersion.
     bindE (assertNow (tw_now input) clock) (\<lambda>now.
     throwIf (\<not> worker_transition_allowed (tw_expected_status input) (tw_status input)) (Conflict Provisioned_worker_status_conflict)
     (throwIf (tw_status input = Worker_failed \<and> (tw_failure input = JUndef \<or> tw_failure input = JNull)) (Invalid ''failure'')
     (throwIf (tw_status input \<noteq> Worker_failed \<and> tw_failure input \<noteq> JUndef) (Invalid ''failure'')
     (bindE (if tw_status input = Worker_failed
             then bindE (encodeCanonicalJson (env_num_str env) (redactTelemetry 0 (tw_failure input)) ''provisioned worker failure''
                    MAX_DAG_PROVISIONED_WORKER_FAILURE_BYTES) (\<lambda>j. Inr (Some j))
             else Inr None) (\<lambda>failureJson.
     (case getProvisionedWorkerRow db runId actorId generation workerId of
        None \<Rightarrow> Inl (Conflict Provisioned_worker_identity_conflict)
      | Some row \<Rightarrow>
     bindE (provisionedWorkerFromRow env row) (\<lambda>current.
     throwIf (pw_status current \<noteq> tw_expected_status input) (Conflict Provisioned_worker_status_conflict)
     (throwIf (\<not> opt_matches expectedVersion (pw_version current)) (Conflict Provisioned_worker_version_conflict)
     (bindE (assertMutationTime now (pw_updated_at current)) (\<lambda>_.
      bindE (assertIncrementableVersion (pw_version current) ''provisioned worker version'') (\<lambda>_.
      let releaseRequestedAt = (if tw_status input = Releasing then Some now else pw_release_requested_at current);
          terminalAt = (if tw_status input = Released \<or> tw_status input = Worker_failed then Some now else None)
      in bindE (sql_update workers_ok
           (\<lambda>r. pw_run_id r = runId \<and> pw_actor_id r = actorId \<and> pw_generation r = generation \<and> pw_worker_id r = workerId
                \<and> pw_status r = tw_expected_status input \<and> pw_version r = pw_version current)
           (\<lambda>r. r\<lparr>pw_status := tw_status input, pw_release_requested_at := releaseRequestedAt, pw_terminal_at := terminalAt,
                  pw_failure_json := failureJson, pw_updated_at := now, pw_version := pw_version r + 1\<rparr>) (db_workers db))
           (\<lambda>(rows, changes).
      throwIf (changes \<noteq> 1) (Conflict Provisioned_worker_status_conflict)
        (workerAfter env (db\<lparr>db_workers := rows\<rparr>) runId actorId generation workerId))))))))))))))))))"

end
