(* ===== verification/Dag_Actors_Props.thy ===== *)
theory Dag_Actors_Props
  imports Dag_Actors
begin

text \<open>
  What a write of \<open>persistence/dag-actors.ts\<close> does to the tables: an actor row keeps its identity
  and gains a version, a command row keeps its identity and moves along an edge of the status
  graph, and nothing else changes. The operations form one step relation, over which the module's
  invariant holds; the contracts of \<open>Machines\<close> are interpreted on it.
\<close>

section \<open>How rows evolve\<close>

fun command_next :: "command_status \<Rightarrow> command_status \<Rightarrow> bool" where
  "command_next Pending t = (t = Delivered \<or> t = Claimed \<or> t = Cancelled)"
| "command_next Delivered t = (t = Claimed \<or> t = Cancelled)"
| "command_next Claimed t = (t = Acknowledged \<or> t = Failed)"
| "command_next Acknowledged t = False"
| "command_next Failed t = False"
| "command_next Cancelled t = False"

fun command_rank :: "command_status \<Rightarrow> nat" where
  "command_rank Pending = 0"
| "command_rank Delivered = 1"
| "command_rank Claimed = 2"
| "command_rank _ = 3"

definition command_final :: "command_status \<Rightarrow> bool" where
  "command_final s \<longleftrightarrow> s = Acknowledged \<or> s = Failed \<or> s = Cancelled"

lemma command_next_rank: "command_next s t \<Longrightarrow> command_rank s < command_rank t"
  by (cases s) auto

lemma command_path_rank: "command_next\<^sup>+\<^sup>+ s t \<Longrightarrow> command_rank s < command_rank t"
  by (induction rule: tranclp_induct) (auto dest: command_next_rank)

lemma command_path_not_final: "command_next\<^sup>+\<^sup>+ s t \<Longrightarrow> \<not> command_final s"
  by (induction rule: converse_tranclp_induct) (auto simp: command_final_def)

text \<open>The immutable part of a command.\<close>

definition command_identity :: "command_row \<Rightarrow> command_row \<Rightarrow> bool" where
  "command_identity r r' \<longleftrightarrow>
     cm_command_id r' = cm_command_id r \<and> cm_run_id r' = cm_run_id r \<and> cm_actor_id r' = cm_actor_id r
     \<and> cm_round_id r' = cm_round_id r \<and> cm_target_generation r' = cm_target_generation r
     \<and> cm_idempotency_key r' = cm_idempotency_key r \<and> cm_payload_digest r' = cm_payload_digest r
     \<and> cm_payload_json r' = cm_payload_json r \<and> cm_created_at r' = cm_created_at r"

definition command_evolves :: "command_row \<Rightarrow> command_row \<Rightarrow> bool" where
  "command_evolves r r' \<longleftrightarrow> r' = r \<or> (command_identity r r' \<and> command_next\<^sup>+\<^sup>+ (cm_status r) (cm_status r')
     \<and> (2 \<le> command_rank (cm_status r) \<longrightarrow> cm_claimed_generation r' = cm_claimed_generation r))"

text \<open>One edge of the status graph.\<close>

definition command_moves :: "command_row \<Rightarrow> command_row \<Rightarrow> bool" where
  "command_moves r r' \<longleftrightarrow> command_identity r r' \<and> command_next (cm_status r) (cm_status r')
     \<and> (2 \<le> command_rank (cm_status r) \<longrightarrow> cm_claimed_generation r' = cm_claimed_generation r)"

lemma command_moves_evolves: "command_moves r r' \<Longrightarrow> command_evolves r r'"
  by (auto simp: command_moves_def command_evolves_def)

definition actor_evolves :: "actor_row \<Rightarrow> actor_row \<Rightarrow> bool" where
  "actor_evolves r r' \<longleftrightarrow> r' = r \<or> (ac_run_id r' = ac_run_id r \<and> ac_actor_id r' = ac_actor_id r
     \<and> ac_node_id r' = ac_node_id r \<and> ac_role r' = ac_role r \<and> ac_surface_id r' = ac_surface_id r
     \<and> ac_created_at r' = ac_created_at r \<and> ac_version r < ac_version r' \<and> ac_generation r \<le> ac_generation r'
     \<and> ac_generation r' - ac_generation r \<le> ac_version r' - ac_version r)"

lemma command_evolves_refl [simp]: "command_evolves r r"
  by (simp add: command_evolves_def)

lemma command_evolves_trans:
  assumes "command_evolves r r'" and "command_evolves r' r''"
  shows "command_evolves r r''"
proof (cases "r' = r \<or> r'' = r'")
  case False
  with assms have "command_next\<^sup>+\<^sup>+ (cm_status r) (cm_status r')" "command_next\<^sup>+\<^sup>+ (cm_status r') (cm_status r'')"
    by (simp_all add: command_evolves_def)
  from this(1) have "command_rank (cm_status r) < command_rank (cm_status r')" by (rule command_path_rank)
  moreover have "command_next\<^sup>+\<^sup>+ (cm_status r) (cm_status r'')"
    using \<open>command_next\<^sup>+\<^sup>+ (cm_status r) (cm_status r')\<close> \<open>command_next\<^sup>+\<^sup>+ (cm_status r') (cm_status r'')\<close>
    by (rule tranclp_trans)
  ultimately show ?thesis using assms False
    unfolding command_evolves_def command_identity_def by (intro disjI2) simp
qed (use assms in auto)

lemma actor_evolves_refl [simp]: "actor_evolves r r"
  by (simp add: actor_evolves_def)

lemma actor_evolves_trans: "actor_evolves r r' \<Longrightarrow> actor_evolves r' r'' \<Longrightarrow> actor_evolves r r''"
  by (auto simp: actor_evolves_def)

lemma command_evolves_key:
  "command_evolves r r' \<Longrightarrow> cm_command_id r' = cm_command_id r"
  "command_evolves r r' \<Longrightarrow> cm_run_id r' = cm_run_id r"
  "command_evolves r r' \<Longrightarrow> cm_actor_id r' = cm_actor_id r"
  "command_evolves r r' \<Longrightarrow> cm_target_generation r' = cm_target_generation r"
  "command_evolves r r' \<Longrightarrow> cm_idempotency_key r' = cm_idempotency_key r"
  "command_evolves r r' \<Longrightarrow> cm_payload_json r' = cm_payload_json r"
  by (auto simp: command_evolves_def command_identity_def)

lemma actor_evolves_key:
  "actor_evolves r r' \<Longrightarrow> ac_run_id r' = ac_run_id r"
  "actor_evolves r r' \<Longrightarrow> ac_actor_id r' = ac_actor_id r"
  by (auto simp: actor_evolves_def)

section \<open>The step relation\<close>

inductive actor_step :: "js_env \<Rightarrow> ('m) actor_db_scheme \<Rightarrow> ('m) actor_db_scheme \<Rightarrow> bool" for env where
  st_register: "registerDagActor env clock i db = Inr (db', a, new) \<Longrightarrow> actor_step env db db'"
| st_update: "updateDagActorBinding env clock p db = Inr (db', a) \<Longrightarrow> actor_step env db db'"
| st_advance: "advanceDagActorGeneration env clock g db = Inr (db', a) \<Longrightarrow> actor_step env db db'"
| st_create: "createDagActorCommand env clock c db = Inr r \<Longrightarrow> actor_step env db (cr_db r)"
| st_delivered: "markDagActorCommandDelivered env clock k db = Inr r \<Longrightarrow> actor_step env db (cr_db r)"
| st_cancel: "cancelUnclaimedDagActorCommands env clock u db = Inr (db', cs) \<Longrightarrow> actor_step env db db'"
| st_claim: "claimDagActorCommand env clock l db = Inr r \<Longrightarrow> actor_step env db (cr_db r)"
| st_complete: "completeCommand env clock k n f db = Inr r \<Longrightarrow> actor_step env db (cr_db r)"

text \<open>A JSON column that its reader accepts.\<close>

definition actor_parses :: "js_env \<Rightarrow> actor_row \<Rightarrow> bool" where
  "actor_parses env r \<longleftrightarrow> (\<exists>fs. env_json_parse env (ac_model_profile_json r) = Some (JObj fs))"

definition command_parses :: "js_env \<Rightarrow> command_row \<Rightarrow> bool" where
  "command_parses env r \<longleftrightarrow> env_json_parse env (cm_payload_json r) \<noteq> None
     \<and> (\<forall>f. cm_failure_json r = Some f \<longrightarrow> env_json_parse env f \<noteq> None)"

lemma actorFromRow_Inr [bind_inv]: "actorFromRow env r = Inr a \<longleftrightarrow> a = r \<and> actor_parses env r"
  by (auto simp: actorFromRow_def actor_parses_def split: option.splits js.splits)

lemma commandFromRow_Inr [bind_inv]: "commandFromRow env r = Inr a \<longleftrightarrow> a = r \<and> command_parses env r"
  by (auto simp: commandFromRow_def command_parses_def bind_inv split: option.splits)

lemma requireActor_Inr [bind_inv]:
  "requireActor env db run actor = Inr a \<longleftrightarrow> getActorRow db run actor = Some a \<and> actor_parses env a"
  by (auto simp: requireActor_def getDagActor_def optE_def bind_inv split: option.splits)

lemma requireCommand_Inr [bind_inv]:
  "requireCommand env db k = Inr c \<longleftrightarrow> getCommandRow db k = Some c \<and> command_parses env c"
  by (auto simp: requireCommand_def getDagActorCommand_def optE_def bind_inv split: option.splits)

section \<open>Effects\<close>

lemma register_effect:
  assumes "registerDagActor env clock i db = Inr (db', a, new)"
  obtains "db' = db" "\<not> new" "actor_parses env a" "getActorRow db (ac_run_id a) (ac_actor_id a) = Some a"
  | "new" "db' = db\<lparr>db_actors := db_actors db @ [a]\<rparr>" "actors_ok (db_actors db')" "actor_parses env a"
    "ac_version a = 1" "ac_generation a = 1" "getActorRow db (ac_run_id a) (ac_actor_id a) = None"
  using assms unfolding registerDagActor_def
  by (auto simp: bind_inv Let_def getActorRow_def find_append dest: find_SomeD
      split: option.splits if_splits)

definition actor_write :: "js_env \<Rightarrow> ('m) actor_db_scheme \<Rightarrow> ('m) actor_db_scheme \<Rightarrow> bool" where
  "actor_write env db db' \<longleftrightarrow> (\<exists>P f. db' = db\<lparr>db_actors := rewritten P f (db_actors db)\<rparr> \<and> actors_ok (db_actors db')
     \<and> (\<forall>r \<in> set (db_actors db). P r \<longrightarrow> actor_evolves r (f r) \<and> actor_parses env (f r)))"

text \<open>The rows are written to a status of \<open>T\<close>.\<close>

definition command_write :: "js_env \<Rightarrow> command_status set \<Rightarrow> ('m) actor_db_scheme \<Rightarrow> ('m) actor_db_scheme \<Rightarrow> bool" where
  "command_write env T db db' \<longleftrightarrow> (\<exists>P f. db' = db\<lparr>db_commands := rewritten P f (db_commands db)\<rparr> \<and> commands_ok (db_commands db')
     \<and> (\<forall>r \<in> set (db_commands db). P r \<longrightarrow> command_moves r (f r) \<and> cm_status (f r) \<in> T \<and> command_parses env (f r)
          \<and> (cm_claimed_generation (f r) = cm_claimed_generation r
             \<or> cm_claimed_generation (f r) = Some (cm_target_generation r))))"

lemma actor_writeI:
  assumes "actors_ok (rewritten P f (db_actors db))"
    and "getActorRow (db\<lparr>db_actors := rewritten P f (db_actors db)\<rparr>) run actor = Some a" and "actor_parses env a"
    and "\<And>r. P r \<Longrightarrow> ac_run_id r = run \<and> ac_actor_id r = actor \<and> actor_evolves r (f r)"
  shows "actor_write env db (db\<lparr>db_actors := rewritten P f (db_actors db)\<rparr>)"
proof -
  have u: "unique_on (\<lambda>_. True) actor_key (rewritten P f (db_actors db))"
    using assms(1) by (simp add: actors_ok_def)
  have a: "find (\<lambda>r. ac_run_id r = run \<and> ac_actor_id r = actor) (rewritten P f (db_actors db)) = Some a"
    using assms(2) by (simp add: getActorRow_def)
  have k: "ac_run_id (f r) = run" "ac_actor_id (f r) = actor" if "P r" for r
    using assms(4) [OF that] actor_evolves_key [of r "f r"] by simp_all
  have "f r = a" if "r \<in> set (db_actors db)" "P r" for r
    by (rule rewritten_single [OF u a, where k = "(run, actor)"]) (use that k in \<open>auto simp: actor_key_def\<close>)
  with assms(3,4) have "\<forall>r \<in> set (db_actors db). P r \<longrightarrow> actor_evolves r (f r) \<and> actor_parses env (f r)" by metis
  with assms(1) show ?thesis unfolding actor_write_def by (intro exI [of _ P] exI [of _ f]) simp
qed

lemma command_writeI:
  assumes "commands_ok (rewritten P f (db_commands db))"
    and "getCommandRow (db\<lparr>db_commands := rewritten P f (db_commands db)\<rparr>) k = Some c" and "command_parses env c"
    and "\<And>r. P r \<Longrightarrow> cm_command_id r = k \<and> command_moves r (f r) \<and> cm_status (f r) \<in> T
          \<and> (cm_claimed_generation (f r) = cm_claimed_generation r
             \<or> cm_claimed_generation (f r) = Some (cm_target_generation r))"
  shows "command_write env T db (db\<lparr>db_commands := rewritten P f (db_commands db)\<rparr>)"
proof -
  have u: "unique_on (\<lambda>_. True) cm_command_id (rewritten P f (db_commands db))"
    using assms(1) by (simp add: commands_ok_def)
  have a: "find (\<lambda>r. cm_command_id r = k) (rewritten P f (db_commands db)) = Some c"
    using assms(2) by (simp add: getCommandRow_def)
  have "f r = c" if "r \<in> set (db_commands db)" "P r" for r
    by (rule rewritten_single [OF u a, where k = k]) (use assms(4) that in \<open>auto simp: command_moves_def command_identity_def\<close>)
  with assms(3) assms(4) have "\<forall>r \<in> set (db_commands db). P r \<longrightarrow> command_moves r (f r) \<and> cm_status (f r) \<in> T \<and> command_parses env (f r)
      \<and> (cm_claimed_generation (f r) = cm_claimed_generation r
         \<or> cm_claimed_generation (f r) = Some (cm_target_generation r))" by metis
  with assms(1) show ?thesis unfolding command_write_def by (intro exI [of _ P] exI [of _ f]) simp
qed

lemma getActorRow_key: "getActorRow db run actor = Some a \<Longrightarrow> ac_run_id a = run \<and> ac_actor_id a = actor \<and> a \<in> set (db_actors db)"
  unfolding getActorRow_def by (drule find_SomeD) simp

lemma getActorRow_self:
  "getActorRow db run actor = Some a \<Longrightarrow> getActorRow db (ac_run_id a) (ac_actor_id a) = Some a"
  by (frule getActorRow_key) simp

lemma getCommandRow_key: "getCommandRow db k = Some c \<Longrightarrow> cm_command_id c = k \<and> c \<in> set (db_commands db)"
  unfolding getCommandRow_def by (drule find_SomeD) simp

text \<open>Along an edge that does not touch a claim.\<close>

lemma command_edge:
  assumes "command_next (cm_status r) (cm_status r')" and "command_identity r r'"
    and "2 \<le> command_rank (cm_status r) \<Longrightarrow> cm_claimed_generation r' = cm_claimed_generation r"
  shows "command_moves r r'"
  using assms unfolding command_moves_def by blast

text \<open>The inversion of an operation's body, without rewriting anything else.\<close>

lemmas effect_simps = bindE_Inr throwIf_Inr requireActor_Inr requireCommand_Inr sql_update_Inr sql_insert_Inr
  split_paired_Ex split_paired_all prod.case prod.inject sum.inject

lemma actor_versionedI:
  assumes "ac_run_id r' = ac_run_id r" "ac_actor_id r' = ac_actor_id r" "ac_node_id r' = ac_node_id r"
    "ac_role r' = ac_role r" "ac_surface_id r' = ac_surface_id r" "ac_created_at r' = ac_created_at r"
    "ac_version r' = ac_version r + 1" "ac_generation r' = ac_generation r \<or> ac_generation r' = ac_generation r + 1"
  shows "actor_evolves r r'"
  using assms unfolding actor_evolves_def by (intro disjI2) auto

lemma update_effect:
  assumes "updateDagActorBinding env clock p db = Inr (db', a)"
  shows "actor_write env db db' \<and> getActorRow db' (ac_run_id a) (ac_actor_id a) = Some a"
  using assms unfolding updateDagActorBinding_def Let_def
  apply (simp only: effect_simps)
  apply (elim exE conjE)
  apply hypsubst
  apply (rule conjI)
   apply (rule actor_writeI, assumption+)
   apply (simp add: actor_versionedI)
  apply (erule getActorRow_self)
  done

lemma advance_effect:
  assumes "advanceDagActorGeneration env clock g db = Inr (db', a)"
  shows "actor_write env db db' \<and> getActorRow db' (ac_run_id a) (ac_actor_id a) = Some a"
  using assms unfolding advanceDagActorGeneration_def Let_def
  apply (simp only: effect_simps)
  apply (elim exE conjE)
  apply hypsubst
  apply (rule conjI)
   apply (rule actor_writeI, assumption+)
   apply (simp add: actor_versionedI)
  apply (erule getActorRow_self)
  done

text \<open>A command operation returns the row it left in the table.\<close>

definition command_outcome :: "js_env \<Rightarrow> command_status set \<Rightarrow> ('m) actor_db_scheme \<Rightarrow> ('m) actor_db_scheme command_result \<Rightarrow> bool" where
  "command_outcome env T db r \<longleftrightarrow>
     getCommandRow (cr_db r) (cm_command_id (cr_command r)) = Some (cr_command r) \<and> command_parses env (cr_command r)
     \<and> (if cr_changed r then command_write env T db (cr_db r) else cr_db r = db)"

lemma command_done_outcome:
  "getCommandRow db k = Some c \<Longrightarrow> command_parses env c \<Longrightarrow> command_outcome env T db (command_done db c False d)"
  by (frule getCommandRow_key) (simp add: command_outcome_def command_done_def)

lemma command_write_outcome:
  assumes "commands_ok (rewritten P f (db_commands db))"
    and "getCommandRow (db\<lparr>db_commands := rewritten P f (db_commands db)\<rparr>) k = Some c" and "command_parses env c"
    and "\<And>r. P r \<Longrightarrow> cm_command_id r = k \<and> command_moves r (f r) \<and> cm_status (f r) \<in> T
          \<and> (cm_claimed_generation (f r) = cm_claimed_generation r
             \<or> cm_claimed_generation (f r) = Some (cm_target_generation r))"
  shows "command_outcome env T db (command_done (db\<lparr>db_commands := rewritten P f (db_commands db)\<rparr>) c True d)"
  using command_writeI [OF assms] getCommandRow_key [OF assms(2)] assms(2,3)
  by (simp add: command_outcome_def command_done_def)

lemma delivered_effect: "markDagActorCommandDelivered env clock k db = Inr r \<Longrightarrow> command_outcome env {Delivered} db r"
  unfolding markDagActorCommandDelivered_def
  by (auto simp: bind_inv Let_def command_done_outcome command_edge command_identity_def
      split: if_splits intro!: command_write_outcome)

lemma claim_row:
  "cm_status r = Pending \<or> cm_status r = Delivered \<Longrightarrow>
   command_moves r (r\<lparr>cm_status := Claimed, cm_delivered_at := d, cm_claimed_generation := Some g, cm_claimed_at := t\<rparr>)"
  by (intro command_edge) (auto simp: command_identity_def)

lemma claim_effect:
  assumes "claimDagActorCommand env clock l db = Inr r"
  shows "command_outcome env {Claimed} db r"
  using assms unfolding claimDagActorCommand_def Let_def
  apply (simp only: effect_simps)
  apply (elim exE conjE)
  apply (split if_split_asm)
   apply (simp only: sum.inject, hypsubst, rule command_done_outcome, assumption+)
  apply (simp only: effect_simps)
  apply (elim exE conjE)
  apply hypsubst
  apply (rule command_write_outcome, assumption+)
  apply (elim conjE, hypsubst)
  apply (intro conjI disjI2)
     apply (rule refl)
    apply (erule claim_row)
   apply simp
  apply simp
  done

lemma complete_effect: "completeCommand env clock k n f db = Inr r \<Longrightarrow> command_outcome env {Acknowledged, Failed} db r"
  unfolding completeCommand_def
  by (auto simp: bind_inv Let_def command_done_outcome command_edge command_identity_def completion_status_def
      split: if_splits completion.splits intro!: command_write_outcome)

text \<open>Cancellation reads every row it wrote back, so each of them parses.\<close>

lemma cancel_effect:
  assumes "cancelUnclaimedDagActorCommands env clock u db = Inr (db', cs)"
  shows "db' = db \<or> command_write env {Cancelled} db db'"
proof -
  from assms have "db' = db \<or> (\<exists>run actor t0 json.
      db' = db\<lparr>db_commands := rewritten (unclaimed run actor)
          (\<lambda>r. r\<lparr>cm_status := Cancelled, cm_completed_at := Some t0, cm_failure_json := Some json\<rparr>) (db_commands db)\<rparr>
       \<and> commands_ok (db_commands db')
       \<and> mapE (\<lambda>c. requireCommand env db' (cm_command_id c))
           (sort_key (\<lambda>r. (cm_created_at r, cm_command_id r)) (filter (unclaimed run actor) (db_commands db))) = (Inr cs :: actor_conflict err + _))"
    (is "_ \<or> (\<exists>run actor t0 json. ?Q run actor t0 json)")
    unfolding cancelUnclaimedDagActorCommands_def
    apply (simp only: effect_simps Let_def)
    apply (elim exE conjE)
    apply (split if_split_asm)
     apply (simp only: sum.inject prod.inject simp_thms)
    apply (simp only: effect_simps Let_def)
    apply (elim exE conjE)
    apply hypsubst
    apply (rule disjI2)
    apply (rule exI, rule exI, rule exI, rule exI)
    apply (rule conjI)
     apply (rule refl)
    apply (rule conjI)
     apply simp
    apply assumption
    done
  then show ?thesis
  proof (elim disjE exE conjE)
    fix run actor t0 json
    let ?P = "unclaimed run actor"
    let ?f = "\<lambda>r. r\<lparr>cm_status := Cancelled, cm_completed_at := Some t0, cm_failure_json := Some json\<rparr>"
    assume db': "db' = db\<lparr>db_commands := rewritten ?P ?f (db_commands db)\<rparr>" and ok: "commands_ok (db_commands db')"
      and all: "mapE (\<lambda>c. requireCommand env db' (cm_command_id c))
           (sort_key (\<lambda>r. (cm_created_at r, cm_command_id r)) (filter ?P (db_commands db))) = (Inr cs :: actor_conflict err + _)"
    have "command_moves r (?f r) \<and> command_parses env (?f r)
        \<and> cm_claimed_generation (?f r) = cm_claimed_generation r" if r: "r \<in> set (db_commands db)" "?P r" for r
    proof -
      from r(2) have "command_moves r (?f r)"
        by (intro command_edge) (auto simp: unclaimed_def command_identity_def)
      moreover have "\<exists>c \<in> set (db_commands db'). cm_command_id c = cm_command_id r \<and> command_parses env c"
      proof -
        from all r have "\<exists>y. requireCommand env db' (cm_command_id r) = (Inr y :: actor_conflict err + _)"
          by (auto dest: mapE_mem [where x = r])
        then show ?thesis by (auto simp: requireCommand_Inr dest: getCommandRow_key)
      qed
      then obtain c where c: "c \<in> set (db_commands db')" "cm_command_id c = cm_command_id r" "command_parses env c"
        by blast
      have "?f r \<in> set (db_commands db')" using r by (auto simp: db' rewritten_def)
      with c(1,2) ok have "?f r = c" by (intro unique_on_eq [of "\<lambda>_. True" cm_command_id]) (auto simp: commands_ok_def)
      with c(3) have "command_parses env (?f r)" by simp
      ultimately show ?thesis by simp
    qed
    with ok db' show ?thesis unfolding command_write_def by (intro disjI2 exI [of _ ?P] exI [of _ ?f]) auto
  qed simp
qed

text \<open>The row that a creation leaves, in terms of its arguments.\<close>

definition command_matches :: "js_env \<Rightarrow> create_command_input \<Rightarrow> int \<Rightarrow> command_row \<Rightarrow> bool" where
  "command_matches env i generation c \<longleftrightarrow>
     cm_run_id c = js_trim (cc_run_id i) \<and> cm_actor_id c = js_trim (cc_actor_id i)
     \<and> cm_round_id c = js_trim (cc_round_id i) \<and> cm_idempotency_key c = js_trim (cc_idempotency_key i)
     \<and> cm_target_generation c = generation
     \<and> (encodeBoundedDocument env (cc_payload i) ''command payload'' :: actor_conflict err + _)
         = Inr (cm_payload_json c, cm_payload_digest c)"

lemma assertIdentifier_Inr: "assertIdentifier v what = Inr t \<longleftrightarrow> t = js_trim v \<and> t \<noteq> [] \<and> length t \<le> 256"
  by (auto simp: assertIdentifier_def Let_def bind_inv)

lemma create_effect:
  assumes "createDagActorCommand env clock i db = Inr r"
  obtains a where "getActorRow db (js_trim (cc_run_id i)) (js_trim (cc_actor_id i)) = Some a" and "actor_parses env a"
    and "command_matches env i (ac_generation a) (cr_command r)" and "command_parses env (cr_command r)"
    and "cc_target_generation i \<noteq> None \<Longrightarrow>
      positiveSafeInteger (the (cc_target_generation i)) ''target_generation'' = (Inr (ac_generation a) :: actor_conflict err + _)"
    and "(\<not> cr_changed r \<and> cr_deduplicated r \<and> cr_db r = db \<and> cr_command r \<in> set (db_commands db))
       \<or> (cr_changed r \<and> \<not> cr_deduplicated r \<and> cr_db r = db\<lparr>db_commands := db_commands db @ [cr_command r]\<rparr>
          \<and> commands_ok (db_commands (cr_db r)) \<and> cm_command_id (cr_command r) = js_trim (cc_command_id i)
          \<and> cm_status (cr_command r) = Pending \<and> cm_claimed_generation (cr_command r) = None
          \<and> getCommandRow db (js_trim (cc_command_id i)) = None)"
  using assms unfolding createDagActorCommand_def Let_def
  apply (simp only: effect_simps assertIdentifier_Inr)
  apply (elim exE conjE)
  apply hypsubst
  subgoal for a b ac ad
    apply (cases "cc_target_generation i")
     apply (simp_all only: option.case sum.inject)
     apply (cases "getCommandRow db (js_trim (cc_command_id i))")
      apply (auto simp: command_done_def bind_inv command_matches_def getCommandRow_def find_append
        split: option.splits dest!: find_SomeD)[2]
    apply (cases "getCommandRow db (js_trim (cc_command_id i))")
     apply (auto simp: command_done_def bind_inv command_matches_def getCommandRow_def find_append
        split: option.splits dest!: find_SomeD)[2]
    done
  done

end
