(* ===== verification/Dag_Actors_Theorems.thy ===== *)
theory Dag_Actors_Theorems
  imports Dag_Actors_Props
begin

text \<open>
  The properties of \<open>persistence/dag-actors.ts\<close>: its invariant, the life cycle of a command, the
  fence that a new generation raises, and idempotent creation.
\<close>

section \<open>One step\<close>

inductive db_effect :: "js_env \<Rightarrow> ('m) actor_db_scheme \<Rightarrow> ('m) actor_db_scheme \<Rightarrow> bool" for env where
  eff_same: "db_effect env db db"
| eff_actor: "actor_write env db db' \<Longrightarrow> db_effect env db db'"
| eff_command: "command_write env T db db' \<Longrightarrow> db_effect env db db'"
| eff_new_actor: "db' = db\<lparr>db_actors := db_actors db @ [a]\<rparr> \<Longrightarrow> actors_ok (db_actors db') \<Longrightarrow> actor_parses env a
    \<Longrightarrow> db_effect env db db'"
| eff_new_command: "db' = db\<lparr>db_commands := db_commands db @ [c]\<rparr> \<Longrightarrow> commands_ok (db_commands db')
    \<Longrightarrow> command_parses env c \<Longrightarrow> cm_status c = Pending \<Longrightarrow> cm_claimed_generation c = None
    \<Longrightarrow> getActorRow db (cm_run_id c) (cm_actor_id c) = Some a \<Longrightarrow> cm_target_generation c = ac_generation a
    \<Longrightarrow> db_effect env db db'"

lemma outcome_db_effect: "command_outcome env T db r \<Longrightarrow> db_effect env db (cr_db r)"
  by (auto simp: command_outcome_def intro: eff_same eff_command split: if_splits)

lemma actor_step_effect: "actor_step env db db' \<Longrightarrow> db_effect env db db'"
proof (induction rule: actor_step.induct)
  case (st_register clock i db db' a new)
  then show ?case by (cases rule: register_effect) (auto intro: db_effect.intros)
next
  case (st_create clock c db r)
  then obtain a where a: "getActorRow db (js_trim (cc_run_id c)) (js_trim (cc_actor_id c)) = Some a"
    "command_matches env c (ac_generation a) (cr_command r)" "command_parses env (cr_command r)"
    and r: "cr_db r = db \<or> (cr_db r = db\<lparr>db_commands := db_commands db @ [cr_command r]\<rparr>
          \<and> commands_ok (db_commands (cr_db r))
          \<and> cm_status (cr_command r) = Pending \<and> cm_claimed_generation (cr_command r) = None)"
    by (cases rule: create_effect) auto
  from r show ?case
  proof (elim disjE conjE)
    assume new: "cr_db r = db\<lparr>db_commands := db_commands db @ [cr_command r]\<rparr>"
      "commands_ok (db_commands (cr_db r))" "cm_status (cr_command r) = Pending"
      "cm_claimed_generation (cr_command r) = None"
    from a new show ?thesis
      by (intro eff_new_command [where c = "cr_command r" and a = a]) (simp_all add: command_matches_def)
  qed (simp add: eff_same)
next
  case (st_cancel clock u db db' cs)
  then show ?case by (auto dest: cancel_effect intro: db_effect.intros)
qed (auto dest: update_effect advance_effect delivered_effect claim_effect complete_effect
      intro: eff_actor outcome_db_effect)

section \<open>The invariant\<close>

definition actor_of :: "('m) actor_db_scheme \<Rightarrow> command_row \<Rightarrow> actor_row option" where
  "actor_of db c = getActorRow db (cm_run_id c) (cm_actor_id c)"

definition command_owned :: "('m) actor_db_scheme \<Rightarrow> command_row \<Rightarrow> bool" where
  "command_owned db c \<longleftrightarrow> (\<exists>a. actor_of db c = Some a \<and> cm_target_generation c \<le> ac_generation a)
     \<and> (cm_claimed_generation c = None \<or> cm_claimed_generation c = Some (cm_target_generation c))"

definition actor_inv :: "js_env \<Rightarrow> ('m) actor_db_scheme \<Rightarrow> bool" where
  "actor_inv env db \<longleftrightarrow> actors_ok (db_actors db) \<and> commands_ok (db_commands db)
     \<and> (\<forall>a \<in> set (db_actors db). actor_parses env a)
     \<and> (\<forall>c \<in> set (db_commands db). command_parses env c \<and> command_owned db c)"

definition actor_init :: "('m) actor_db_scheme \<Rightarrow> bool" where
  "actor_init db \<longleftrightarrow> db_actors db = [] \<and> db_commands db = []"

lemma actor_init_inv: "actor_init db \<Longrightarrow> actor_inv env db"
  by (simp add: actor_init_def actor_inv_def actors_ok_def commands_ok_def)

lemma actor_write_row:
  assumes "actor_write env db db'" and "getActorRow db run actor = Some a"
  shows "\<exists>a'. getActorRow db' run actor = Some a' \<and> actor_evolves a a'"
proof -
  from assms(1) obtain P f where pf: "db' = db\<lparr>db_actors := rewritten P f (db_actors db)\<rparr>"
    "\<forall>r \<in> set (db_actors db). P r \<longrightarrow> actor_evolves r (f r)" unfolding actor_write_def by blast
  have "getActorRow db' run actor = map_option (\<lambda>r. if P r then f r else r) (getActorRow db run actor)"
    unfolding getActorRow_def pf(1) by (simp, rule find_update) (use pf(2) actor_evolves_key in auto)
  with assms(2) pf(2) show ?thesis by (auto dest: getActorRow_key)
qed

lemma effect_actor_row:
  assumes "db_effect env db db'" and "getActorRow db run actor = Some a"
  shows "\<exists>a'. getActorRow db' run actor = Some a' \<and> actor_evolves a a'"
  using assms
proof cases
  case eff_actor
  then show ?thesis using actor_write_row assms(2) by blast
qed (auto simp: command_write_def getActorRow_def find_append)

lemma effect_command_row:
  assumes "db_effect env db db'" and "getCommandRow db k = Some c"
  shows "\<exists>c'. getCommandRow db' k = Some c' \<and> command_evolves c c'"
  using assms
proof cases
  case eff_command
  then obtain P f where pf: "db' = db\<lparr>db_commands := rewritten P f (db_commands db)\<rparr>"
    "\<forall>r \<in> set (db_commands db). P r \<longrightarrow> command_evolves r (f r)"
    unfolding command_write_def by (auto dest: command_moves_evolves)
  have "getCommandRow db' k = map_option (\<lambda>r. if P r then f r else r) (getCommandRow db k)"
    unfolding getCommandRow_def pf(1) by (simp, rule find_update) (use pf(2) command_evolves_key in auto)
  with assms(2) pf(2) show ?thesis by (auto dest: getCommandRow_key)
qed (use assms(2) in \<open>auto simp: actor_write_def getCommandRow_def find_append\<close>)

lemma command_owned_effect:
  assumes "db_effect env db db'" and "command_owned db c"
  shows "command_owned db' c"
proof -
  from assms(2) obtain a where a: "actor_of db c = Some a" "cm_target_generation c \<le> ac_generation a"
    by (auto simp: command_owned_def)
  from effect_actor_row [OF assms(1)] a(1) obtain a' where "actor_of db' c = Some a'" "actor_evolves a a'"
    unfolding actor_of_def by blast
  with a(2) assms(2) show ?thesis by (auto simp: command_owned_def actor_evolves_def)
qed

lemma effect_inv:
  assumes e: "db_effect env db db'" and inv: "actor_inv env db"
  shows "actor_inv env db'"
  using e
proof cases
  case eff_actor
  then show ?thesis using inv command_owned_effect [OF e]
    by (auto simp: actor_inv_def actor_write_def rewritten_def)
next
  case eff_command
  then obtain P f where pf: "db' = db\<lparr>db_commands := rewritten P f (db_commands db)\<rparr>" "commands_ok (db_commands db')"
    "\<And>r. r \<in> set (db_commands db) \<Longrightarrow> P r \<Longrightarrow> command_moves r (f r) \<and> command_parses env (f r)
       \<and> (cm_claimed_generation (f r) = cm_claimed_generation r
          \<or> cm_claimed_generation (f r) = Some (cm_target_generation r))" unfolding command_write_def by blast
  have "command_owned db' (f r)" if "r \<in> set (db_commands db)" "P r" for r
    using pf(3) [OF that] that inv command_owned_effect [OF e, of r] command_evolves_key [OF command_moves_evolves, of r "f r"]
    by (auto simp: actor_inv_def command_owned_def actor_of_def)
  with pf inv command_owned_effect [OF e] show ?thesis
    unfolding actor_inv_def by (auto simp: rewritten_def)
next
  case (eff_new_actor a)
  then show ?thesis using inv command_owned_effect [OF e] by (auto simp: actor_inv_def)
next
  case (eff_new_command c a)
  then show ?thesis using inv command_owned_effect [OF e]
    by (auto simp: actor_inv_def command_owned_def actor_of_def getActorRow_def)
qed (use inv in simp)

section \<open>The contracts\<close>

interpretation actor_store: transition_system actor_init "actor_step env" "actor_inv env" for env
  by unfold_locales (auto intro: actor_init_inv effect_inv actor_step_effect)

interpretation commands: row_system actor_init "actor_step env" "actor_inv env" getCommandRow command_evolves for env
  by unfold_locales (auto intro: command_evolves_trans dest: effect_command_row [OF actor_step_effect])

interpretation actors: row_system actor_init "actor_step env" "actor_inv env"
    "\<lambda>db (run, actor). getActorRow db run actor" actor_evolves for env
  by unfold_locales (auto intro: actor_evolves_trans dest: effect_actor_row [OF actor_step_effect])

lemma command_evolves_status:
  "command_evolves c c' \<Longrightarrow> command_rank (cm_status c) \<le> command_rank (cm_status c') \<and> (command_final (cm_status c) \<longrightarrow> c' = c)"
  by (auto simp: command_evolves_def dest: command_path_rank command_path_not_final)

lemma step_command_row:
  "actor_step env s t \<Longrightarrow> getCommandRow s k = Some c \<Longrightarrow>
   \<exists>c'. getCommandRow t k = Some c' \<and> command_rank (cm_status c) \<le> command_rank (cm_status c')
      \<and> (command_final (cm_status c) \<longrightarrow> c' = c)"
  using effect_command_row [OF actor_step_effect] command_evolves_status by blast

interpretation command_status: absorbing_system actor_init "actor_step env" "actor_inv env"
    "\<lambda>db k. map_option cm_status (getCommandRow db k)" command_final command_rank for env
  by unfold_locales (auto dest: step_command_row)

interpretation actor_versions: versioned_store actor_init "actor_step env" "actor_inv env"
    "\<lambda>db (run, actor). getActorRow db run actor" ac_version for env
  by unfold_locales (auto simp: actor_evolves_def dest!: effect_actor_row [OF actor_step_effect])

section \<open>The fence of a generation\<close>

lemma command_write_row:
  assumes "command_write env T db db'" and "getCommandRow db k = Some c"
  shows "\<exists>c'. getCommandRow db' k = Some c' \<and> (c' = c \<or> (command_moves c c' \<and> cm_status c' \<in> T))"
proof -
  from assms(1) obtain P f where pf: "db' = db\<lparr>db_commands := rewritten P f (db_commands db)\<rparr>"
    "\<forall>r \<in> set (db_commands db). P r \<longrightarrow> command_moves r (f r) \<and> cm_status (f r) \<in> T"
    unfolding command_write_def by blast
  have "getCommandRow db' k = map_option (\<lambda>r. if P r then f r else r) (getCommandRow db k)"
    unfolding getCommandRow_def pf(1) by (simp, rule find_update) (use pf(2) in \<open>auto simp: command_moves_def command_identity_def\<close>)
  with assms(2) pf(2) show ?thesis by (auto dest: getCommandRow_key)
qed

lemma outcome_row:
  assumes "command_outcome env T db r" and "getCommandRow db k = Some c"
  shows "\<exists>c'. getCommandRow (cr_db r) k = Some c' \<and> (c' = c \<or> (command_moves c c' \<and> cm_status c' \<in> T))"
  using assms command_write_row unfolding command_outcome_def by (cases "cr_changed r") auto

text \<open>A write of rows with one id leaves the other lookups alone and keeps what it does not assign.\<close>

lemma getCommandRow_find_update:
  assumes "getCommandRow (db\<lparr>db_commands := rewritten P f (db_commands db)\<rparr>) k = Some c'"
    and "getCommandRow db k = Some c"
    and "\<And>r. P r \<Longrightarrow> cm_command_id r = k \<and> command_identity r (f r)"
  shows "command_identity c c' \<and> (\<forall>k'. k' \<noteq> k \<longrightarrow>
    getCommandRow (db\<lparr>db_commands := rewritten P f (db_commands db)\<rparr>) k' = getCommandRow db k')"
proof -
  have u: "getCommandRow (db\<lparr>db_commands := rewritten P f (db_commands db)\<rparr>) k'
      = map_option (\<lambda>r. if P r then f r else r) (getCommandRow db k')" for k'
    unfolding getCommandRow_def
    by (simp, rule find_update) (use assms(3) in \<open>auto simp: command_identity_def\<close>)
  have "getCommandRow (db\<lparr>db_commands := rewritten P f (db_commands db)\<rparr>) k' = getCommandRow db k'" if "k' \<noteq> k" for k'
    using u [of k'] that assms(3) by (cases "getCommandRow db k'") (auto dest: getCommandRow_key)
  moreover have "command_identity c c'"
    using u [of k] assms by (auto simp: command_identity_def split: if_splits)
  ultimately show ?thesis by blast
qed

lemma claim_done:
  assumes c': "getCommandRow (db\<lparr>db_commands := rewritten P f (db_commands db)\<rparr>) k = Some c'"
    and c: "getCommandRow db k = Some c" and "getActorRow db run actor = Some a"
    and "cm_run_id c = run" and "cm_actor_id c = actor" and "cm_target_generation c = ac_generation a"
    and P: "\<And>r. P r \<Longrightarrow> cm_command_id r = k \<and> command_identity r (f r)"
  shows "(\<exists>a. actor_of db c' = Some a \<and> cm_target_generation c' = ac_generation a)
     \<and> (\<forall>k. k \<noteq> cm_command_id c' \<longrightarrow>
          getCommandRow (db\<lparr>db_commands := rewritten P f (db_commands db)\<rparr>) k = getCommandRow db k)"
  using getCommandRow_find_update [OF c' c P] getCommandRow_key [OF c] assms(3-6)
  by (auto simp: actor_of_def command_identity_def)

lemma claim_generation:
  assumes "claimDagActorCommand env clock l db = Inr r"
  shows "(\<exists>a. actor_of db (cr_command r) = Some a \<and> cm_target_generation (cr_command r) = ac_generation a)
     \<and> (\<forall>k. k \<noteq> cm_command_id (cr_command r) \<longrightarrow> getCommandRow (cr_db r) k = getCommandRow db k)"
  using assms unfolding claimDagActorCommand_def Let_def
  apply (simp only: effect_simps)
  apply (elim exE conjE)
  apply (split if_split_asm)
   apply (simp only: sum.inject, hypsubst)
   apply (auto simp: command_done_def actor_of_def)[1]
  apply (simp only: effect_simps)
  apply (elim exE conjE)
  apply hypsubst
  apply (simp only: command_done_def command_result.simps)
  apply (rule claim_done, assumption, assumption, assumption)
     apply (simp_all (no_asm_simp) add: command_identity_def)
    apply blast+
  done

text \<open>A command whose target generation its actor has left behind, and that nobody has claimed.\<close>

definition fenced :: "('m) actor_db_scheme \<Rightarrow> string \<Rightarrow> bool" where
  "fenced db k \<longleftrightarrow> (\<exists>c a. getCommandRow db k = Some c \<and> cm_status c \<in> {Pending, Delivered, Cancelled}
     \<and> actor_of db c = Some a \<and> cm_target_generation c < ac_generation a)"

lemma fenced_keep:
  assumes "actor_step env db db'" and "getCommandRow db k = Some c" and "actor_of db c = Some a"
    and "cm_target_generation c < ac_generation a"
    and "getCommandRow db' k = Some c'" and "command_identity c c'" and "cm_status c' \<in> {Pending, Delivered, Cancelled}"
  shows "fenced db' k"
proof -
  from effect_actor_row [OF actor_step_effect [OF assms(1)]] assms(3,6)
  obtain a' where "actor_of db' c' = Some a'" "actor_evolves a a'"
    unfolding actor_of_def command_identity_def by metis
  with assms(4-7) show ?thesis unfolding fenced_def command_identity_def actor_evolves_def by fastforce
qed

lemma unclaimed_next: "s \<in> {Pending, Delivered, Cancelled} \<Longrightarrow> command_next s t \<Longrightarrow> t \<in> {Delivered, Claimed, Cancelled}"
  by (cases s) auto

lemma fenced_row:
  assumes step: "actor_step env db db'" and "fenced db k"
    and row: "\<And>c. getCommandRow db k = Some c \<Longrightarrow> \<exists>c'. getCommandRow db' k = Some c' \<and>
      (c' = c \<or> (command_moves c c' \<and> cm_status c' \<in> T))" and T: "Claimed \<notin> T"
  shows "fenced db' k"
proof -
  from assms(2) obtain c a where c: "getCommandRow db k = Some c" "cm_status c \<in> {Pending, Delivered, Cancelled}"
    "actor_of db c = Some a" "cm_target_generation c < ac_generation a" unfolding fenced_def by blast
  from row [OF c(1)] obtain c' where c': "getCommandRow db' k = Some c'"
    "c' = c \<or> (command_moves c c' \<and> cm_status c' \<in> T)" by blast
  then have "command_identity c c'" "cm_status c' \<in> {Pending, Delivered, Cancelled}"
    using c(2) T unclaimed_next [of "cm_status c" "cm_status c'"]
    by (auto simp: command_moves_def command_identity_def)
  with fenced_keep [OF step c(1,3,4) c'(1)] show ?thesis by blast
qed

lemma fenced_step: "actor_step env db db' \<Longrightarrow> fenced db k \<Longrightarrow> fenced db' k"
proof -
  assume step: "actor_step env db db'" and f: "fenced db k"
  from step show ?thesis
  proof cases
    case (st_claim clock l r)
    from f obtain c a where c: "getCommandRow db k = Some c" "actor_of db c = Some a"
      "cm_target_generation c < ac_generation a" unfolding fenced_def by blast
    from claim_effect [OF st_claim(2)] c(1) obtain c' where c': "getCommandRow (cr_db r) k = Some c'" "command_evolves c c'"
      using outcome_row command_moves_evolves command_evolves_refl by metis
    have "k \<noteq> cm_command_id (cr_command r)"
    proof
      assume "k = cm_command_id (cr_command r)"
      with c'(1) claim_effect [OF st_claim(2)] have "cr_command r = c'" by (simp add: command_outcome_def)
      with claim_generation [OF st_claim(2)] c c'(2) show False
        by (auto simp: actor_of_def command_evolves_key)
    qed
    with claim_generation [OF st_claim(2)] have "getCommandRow db' k = getCommandRow db k" by (simp add: st_claim(1))
    with fenced_row [OF step f, of "{}"] show ?thesis by simp
  next
    case (st_register clock i a new)
    then have "getCommandRow db' k = getCommandRow db k" for k by (cases rule: register_effect) (auto simp: getCommandRow_def)
    with fenced_row [OF step f, of "{}"] show ?thesis by simp
  next
    case (st_update clock p a)
    then have "getCommandRow db' k = getCommandRow db k" for k
      by (auto simp: getCommandRow_def actor_write_def dest!: update_effect)
    with fenced_row [OF step f, of "{}"] show ?thesis by simp
  next
    case (st_advance clock g a)
    then have "getCommandRow db' k = getCommandRow db k" for k
      by (auto simp: getCommandRow_def actor_write_def dest!: advance_effect)
    with fenced_row [OF step f, of "{}"] show ?thesis by simp
  next
    case (st_create clock c r)
    from st_create(2) have "getCommandRow db k = Some x \<longrightarrow> getCommandRow (cr_db r) k = Some x" for x
      by (cases rule: create_effect) (auto simp: getCommandRow_def find_append)
    then have "getCommandRow db k = Some x \<Longrightarrow> getCommandRow db' k = Some x" for x by (simp add: st_create(1))
    with fenced_row [OF step f, of "{}"] show ?thesis by simp
  next
    case (st_delivered clock k' r)
    from fenced_row [OF step f, of "{Delivered}"] outcome_row [OF delivered_effect [OF st_delivered(2)]] st_delivered(1)
    show ?thesis by simp
  next
    case (st_cancel clock u cs)
    from fenced_row [OF step f, of "{Cancelled}"] cancel_effect [OF st_cancel] command_write_row
    show ?thesis by fastforce
  next
    case (st_complete clock k' n h r)
    from fenced_row [OF step f, of "{Acknowledged, Failed}"] outcome_row [OF complete_effect [OF st_complete(2)]] st_complete(1)
    show ?thesis by simp
  qed
qed

lemma fenced_steps: "(actor_step env)\<^sup>*\<^sup>* db db' \<Longrightarrow> fenced db k \<Longrightarrow> fenced db' k"
  by (induction rule: rtranclp_induct) (auto intro: fenced_step)

lemma fenced_claim: "fenced db k \<Longrightarrow> js_trim (cl_command_id l) = k \<Longrightarrow> isl (claimDagActorCommand env clock l db)"
proof (rule ccontr)
  assume f: "fenced db k" and k: "js_trim (cl_command_id l) = k" and "\<not> isl (claimDagActorCommand env clock l db)"
  then obtain r where r: "claimDagActorCommand env clock l db = Inr r" by (cases "claimDagActorCommand env clock l db") auto
  then have "fenced (cr_db r) k" using fenced_step f st_claim by blast
  from f obtain c a where c: "getCommandRow db k = Some c" "actor_of db c = Some a"
    "cm_target_generation c < ac_generation a" unfolding fenced_def by blast
  have "cm_command_id (cr_command r) = k"
  proof (rule ccontr)
    assume "cm_command_id (cr_command r) \<noteq> k"
    with r k show False unfolding claimDagActorCommand_def Let_def
      by (auto simp: bind_inv assertIdentifier_Inr command_done_def split: if_splits dest: getCommandRow_key)
  qed
  with claim_effect [OF r] outcome_row [OF claim_effect [OF r] c(1)] have "command_evolves c (cr_command r)"
    by (auto simp: command_outcome_def intro: command_moves_evolves)
  with claim_generation [OF r] c show False by (auto simp: actor_of_def command_evolves_key)
qed

lemma update_row:
  assumes "updateDagActorBinding env clock p db = Inr (db', a')"
    and "getActorRow db (js_trim (ap_run_id p)) (js_trim (ap_actor_id p)) = Some a"
  shows "getActorRow db' (js_trim (ap_run_id p)) (js_trim (ap_actor_id p)) = Some a'
    \<and> ac_version a' = ac_version a + 1 \<and> ac_generation a' = ac_generation a \<and> ac_run_id a' = ac_run_id a
    \<and> ac_actor_id a' = ac_actor_id a \<and> ac_node_id a' = ac_node_id a \<and> ac_role a' = ac_role a
    \<and> ac_surface_id a' = ac_surface_id a \<and> ac_created_at a' = ac_created_at a"
  using assms unfolding updateDagActorBinding_def Let_def
  apply (simp only: effect_simps assertIdentifier_Inr)
  apply (elim exE conjE)
  apply hypsubst
  apply (frule getActorRow_key [of db])
  apply (simp add: getActorRow_def find_update)
  apply (elim conjE)
  apply hypsubst
  apply simp
  done

section \<open>A run to evaluate\<close>

text \<open>One actor, one pending command, then a new generation of the actor.\<close>

definition demo_env :: js_env where
  "demo_env = \<lparr>env_num_str = \<lambda>_. ''0'', env_sha256 = \<lambda>_. replicate 64 CHR ''a'', env_json_parse = \<lambda>_. Some (JObj [])\<rparr>"
definition demo_db :: actor_db where
  "demo_db = \<lparr>db_runs = [(''r'', ''running'')], db_actors = [], db_commands = []\<rparr>"
definition demo_actor :: register_actor_input where
  "demo_actor = \<lparr>ra_run_id = ''r'', ra_actor_id = '' a'', ra_node_id = ''n'', ra_role = ''dev'', ra_model_profile = None,
     ra_surface_id = ''s'', ra_session_id = Absent, ra_workspace_ref = Absent, ra_checkpoint_ref = Absent\<rparr>"
definition demo_command :: create_command_input where
  "demo_command = \<lparr>cc_command_id = ''c'', cc_run_id = ''r'', cc_actor_id = ''a'', cc_round_id = ''1'',
     cc_idempotency_key = ''k'', cc_payload = JNull, cc_target_generation = None\<rparr>"
definition demo_advance :: advance_input where
  "demo_advance = \<lparr>ag_run_id = ''r'', ag_actor_id = ''a'', ag_expected_generation = num_of_int 1, ag_expected_version = num_of_int 1,
     ag_session_id = Absent, ag_attempt = None, ag_checkpoint_ref = Absent\<rparr>"
definition demo_patch :: actor_patch where
  "demo_patch = \<lparr>ap_run_id = ''r'', ap_actor_id = ''a'', ap_expected_version = num_of_int 1, ap_session_id = Put ''s1'',
     ap_attempt = None, ap_model_profile = None, ap_workspace_ref = Absent, ap_checkpoint_ref = Absent\<rparr>"

definition demo_row :: actor_row where
  "demo_row = \<lparr>ac_run_id = ''r'', ac_actor_id = ''a'', ac_node_id = ''n'', ac_role = ''dev'', ac_generation = 1, ac_attempt = 1,
     ac_version = 1, ac_session_id = None, ac_model_profile_json = ''{}'', ac_surface_id = ''s'', ac_workspace_ref = None,
     ac_checkpoint_ref = None, ac_created_at = 5, ac_updated_at = 5\<rparr>"
definition demo_db1 :: actor_db where "demo_db1 = demo_db\<lparr>db_actors := [demo_row]\<rparr>"
definition demo_cmd :: command_row where
  "demo_cmd = \<lparr>cm_command_id = ''c'', cm_run_id = ''r'', cm_actor_id = ''a'', cm_round_id = ''1'', cm_target_generation = 1,
     cm_status = Pending, cm_idempotency_key = ''k'', cm_payload_digest = replicate 64 CHR ''a'', cm_payload_json = ''null'',
     cm_claimed_generation = None, cm_created_at = 6, cm_delivered_at = None, cm_claimed_at = None, cm_completed_at = None, cm_failure_json = None\<rparr>"
definition demo_db2 :: actor_db where "demo_db2 = demo_db1\<lparr>db_commands := [demo_cmd]\<rparr>"
definition demo_claim :: claim_input where
  "demo_claim = \<lparr>cl_command_id = ''c'', cl_run_id = ''r'', cl_actor_id = ''a'', cl_generation = num_of_int 2\<rparr>"

definition demo_row2 :: actor_row where
  "demo_row2 = demo_row\<lparr>ac_generation := 2, ac_attempt := 2, ac_version := 2, ac_updated_at := 7\<rparr>"

definition demo_db3 :: actor_db where
  "demo_db3 = demo_db2\<lparr>db_actors := [demo_row2]\<rparr>"

definition demo_row3 :: actor_row where
  "demo_row3 = demo_row\<lparr>ac_session_id := Some ''s1'', ac_version := 2, ac_updated_at := 7\<rparr>"

lemma demo_register: "registerDagActor demo_env 5 demo_actor demo_db = Inr (demo_db1, demo_row, True)"
  by code_simp

lemma demo_create: "createDagActorCommand demo_env 6 demo_command demo_db1 = Inr (command_done demo_db2 demo_cmd True False)"
  by code_simp

lemma demo_advanced: "advanceDagActorGeneration demo_env 7 demo_advance demo_db2 = Inr (demo_db3, demo_row2)"
  by code_simp

lemma demo_updated: "updateDagActorBinding demo_env 7 demo_patch demo_db2 = Inr (demo_db2\<lparr>db_actors := [demo_row3]\<rparr>, demo_row3)"
  by code_simp

lemma demo_reach: "reach actor_init (actor_step demo_env) demo_db1" "reach actor_init (actor_step demo_env) demo_db2"
proof -
  have "reach actor_init (actor_step demo_env) demo_db" by (rule reach_init) (simp add: actor_init_def demo_db_def)
  then show 1: "reach actor_init (actor_step demo_env) demo_db1" by (rule reach_step) (rule st_register [OF demo_register])
  from st_create [OF demo_create] have "actor_step demo_env demo_db1 demo_db2" by (simp add: command_done_def)
  with 1 show "reach actor_init (actor_step demo_env) demo_db2" by (rule reach_step)
qed

section \<open>Properties\<close>

text \<open>In every database the module can reach, the rows satisfy the table constraints, every
  command belongs to a registered actor whose generation has reached the command's target, and a
  claim was made by the targeted generation and by no other.\<close>

theorem actor_store_reachable_ok:
  assumes "reach actor_init (actor_step env) db"
  shows "actors_ok (db_actors db) \<and> commands_ok (db_commands db)
    \<and> (\<forall>c \<in> set (db_commands db). \<exists>a. getActorRow db (cm_run_id c) (cm_actor_id c) = Some a
         \<and> cm_target_generation c \<le> ac_generation a
         \<and> (cm_claimed_generation c = None \<or> cm_claimed_generation c = Some (cm_target_generation c)))"
  using actor_store.reach_inv [OF assms] unfolding actor_inv_def command_owned_def actor_of_def by blast

theorem actor_store_reachable_ok_witness:
  "\<exists>a. getActorRow demo_db2 (cm_run_id demo_cmd) (cm_actor_id demo_cmd) = Some a \<and> cm_target_generation demo_cmd \<le> ac_generation a"
  using actor_store_reachable_ok [OF demo_reach(2)] by (auto simp: demo_db2_def)

text \<open>Once an actor has advanced to a new generation, a command for an earlier one that nobody has
  claimed can be delivered or cancelled but never be claimed, whatever happens afterwards: every
  claim of it fails.\<close>

theorem command_fenced:
  assumes "advanceDagActorGeneration env clock g db = Inr (db1, a)"
    and "getCommandRow db1 k = Some c" and "cm_run_id c = ac_run_id a" and "cm_actor_id c = ac_actor_id a"
    and "cm_target_generation c < ac_generation a" and "cm_status c = Pending \<or> cm_status c = Delivered"
    and "(actor_step env)\<^sup>*\<^sup>* db1 db2"
  shows "(\<exists>c'. getCommandRow db2 k = Some c' \<and> cm_status c' \<in> {Pending, Delivered, Cancelled})
    \<and> (\<forall>l clock'. js_trim (cl_command_id l) = k \<longrightarrow> isl (claimDagActorCommand env clock' l db2))"
proof -
  from assms(2-6) advance_effect [OF assms(1)] have "fenced db1 k"
    unfolding fenced_def actor_of_def by auto
  with assms(7) have f: "fenced db2 k" by (rule fenced_steps)
  then have "\<exists>c'. getCommandRow db2 k = Some c' \<and> cm_status c' \<in> {Pending, Delivered, Cancelled}"
    unfolding fenced_def by blast
  with fenced_claim [OF f] show ?thesis by blast
qed

theorem command_fenced_witness:
  "isl (claimDagActorCommand demo_env 8 demo_claim demo_db3)"
proof -
  have "js_trim (cl_command_id demo_claim) = ''c''" by code_simp
  moreover
  have "getCommandRow demo_db3 ''c'' = Some demo_cmd" by code_simp
  from command_fenced [OF demo_advanced this _ _ _ _ rtranclp.rtrancl_refl]
  have "\<forall>l clock. js_trim (cl_command_id l) = ''c'' \<longrightarrow> isl (claimDagActorCommand demo_env clock l demo_db3)"
    by (simp add: demo_row2_def demo_row_def demo_cmd_def)
  ultimately show ?thesis by blast
qed

text \<open>C13. A command row keeps its identity and payload forever and moves only along the edges of the
  status graph; an acknowledged, failed or cancelled command is never written again.\<close>

theorem command_lifecycle:
  assumes "reach actor_init (actor_step env) db" and "(actor_step env)\<^sup>*\<^sup>* db db'" and "getCommandRow db k = Some c"
  shows "\<exists>c'. getCommandRow db' k = Some c' \<and> (c' = c \<or> (command_identity c c' \<and> command_next\<^sup>+\<^sup>+ (cm_status c) (cm_status c')))
     \<and> (command_final (cm_status c) \<longrightarrow> c' = c)"
proof -
  from commands.row_steps [OF assms(2) actor_store.reach_inv [OF assms(1)] assms(3)]
  obtain c' where "getCommandRow db' k = Some c'" "command_evolves c c'" by blast
  with command_evolves_status [of c c'] show ?thesis unfolding command_evolves_def by blast
qed

theorem command_lifecycle_witness:
  "\<exists>c'. getCommandRow demo_db2 ''c'' = Some c' \<and> (c' = demo_cmd \<or> command_identity demo_cmd c')"
proof -
  have "getCommandRow demo_db2 ''c'' = Some demo_cmd" by code_simp
  from command_lifecycle [OF demo_reach(2) rtranclp.rtrancl_refl this] show ?thesis by blast
qed

text \<open>Creating a command is idempotent: after a creation, repeating the same call at any later time
  in the same generation of the actor writes nothing and returns that command.\<close>

theorem create_command_idempotent:
  assumes "createDagActorCommand env clock i db = Inr r" and "cr_changed r" and "reach actor_init (actor_step env) db"
    and "(actor_step env)\<^sup>*\<^sup>* (cr_db r) db2"
    and "getActorRow (cr_db r) (js_trim (cc_run_id i)) (js_trim (cc_actor_id i)) = Some a"
    and "getActorRow db2 (js_trim (cc_run_id i)) (js_trim (cc_actor_id i)) = Some a2" and "ac_generation a2 = ac_generation a"
  shows "\<exists>c2. createDagActorCommand env clock2 i db2 = Inr (command_done db2 c2 False True)
     \<and> command_identity (cr_command r) c2"
proof -
  from assms(1) obtain a0 where a0: "getActorRow db (js_trim (cc_run_id i)) (js_trim (cc_actor_id i)) = Some a0"
    "command_matches env i (ac_generation a0) (cr_command r)"
    "cc_target_generation i \<noteq> None \<Longrightarrow>
      positiveSafeInteger (the (cc_target_generation i)) ''target_generation'' = (Inr (ac_generation a0) :: actor_conflict err + _)"
    and r: "cr_db r = db\<lparr>db_commands := db_commands db @ [cr_command r]\<rparr>"
    "cm_command_id (cr_command r) = js_trim (cc_command_id i)" "getCommandRow db (js_trim (cc_command_id i)) = None"
    using assms(2) by (cases rule: create_effect) auto
  have gen: "ac_generation a0 = ac_generation a" using a0(1) assms(5) r(1) by (simp add: getActorRow_def)
  have inv1: "actor_inv env (cr_db r)"
    using actor_store.reach_inv [OF assms(3)] st_create [OF assms(1)] by (auto intro: actor_store.inv_step)
  have "getCommandRow (cr_db r) (js_trim (cc_command_id i)) = Some (cr_command r)"
    using r by (simp add: getCommandRow_def find_append)
  from commands.row_steps [OF assms(4) inv1 this] obtain c2 where c2:
    "getCommandRow db2 (js_trim (cc_command_id i)) = Some c2" "command_evolves (cr_command r) c2" by blast
  have id: "command_identity (cr_command r) c2" using c2(2) by (auto simp: command_evolves_def command_identity_def)
  have inv2: "actor_inv env db2" using actor_store.steps_inv [OF assms(4) inv1] .
  then have p: "command_parses env c2" "actor_parses env a2"
    using c2(1) assms(6) by (auto simp: actor_inv_def dest!: getCommandRow_key getActorRow_key)
  have ids: "assertIdentifier v what = (Inr (js_trim v) :: actor_conflict err + _)"
    if "v \<in> {cc_command_id i, cc_run_id i, cc_actor_id i, cc_round_id i, cc_idempotency_key i}" for v what
    using assms(1) that unfolding createDagActorCommand_def by (auto simp: bind_inv assertIdentifier_Inr)
  have req: "requireActor env db2 (js_trim (cc_run_id i)) (js_trim (cc_actor_id i)) = (Inr a2 :: actor_conflict err + _)"
    "commandFromRow env c2 = (Inr c2 :: actor_conflict err + _)"
    using assms(6) p by (simp_all add: requireActor_Inr commandFromRow_Inr)
  have tg: "(case cc_target_generation i of None \<Rightarrow> Inr (ac_generation a2)
      | Some n \<Rightarrow> positiveSafeInteger n ''target_generation'') = (Inr (ac_generation a2) :: actor_conflict err + _)"
    using a0(3) gen assms(7) by (cases "cc_target_generation i") auto
  have "createDagActorCommand env clock2 i db2 = Inr (command_done db2 c2 False True)"
    unfolding createDagActorCommand_def
    using a0(2) id gen assms(7) c2(1)
    by (simp add: ids req tg command_matches_def command_identity_def)
  with id show ?thesis by blast
qed

theorem create_command_idempotent_witness:
  "\<exists>c. createDagActorCommand demo_env 9 demo_command demo_db2 = Inr (command_done demo_db2 c False True)
     \<and> command_identity demo_cmd c"
proof -
  have "getActorRow demo_db2 (js_trim (cc_run_id demo_command)) (js_trim (cc_actor_id demo_command)) = Some demo_row"
    by code_simp
  with create_command_idempotent [OF demo_create _ demo_reach(1), of demo_db2 demo_row demo_row 9]
  show ?thesis by (simp add: command_done_def)
qed

text \<open>The version of an actor is an optimistic lock: a binding update with the version read earlier
  succeeds only if the row is still the row that was read, and then raises the version by one and
  leaves the identity and the generation alone.\<close>

theorem actor_version_lock:
  assumes "reach actor_init (actor_step env) db" and "getActorRow db run actor = Some a"
    and "(actor_step env)\<^sup>*\<^sup>* db db1" and "updateDagActorBinding env clock p db1 = Inr (db2, a2)"
    and "js_trim (ap_run_id p) = run" and "js_trim (ap_actor_id p) = actor" and "ap_expected_version p = num_of_int (ac_version a)"
  shows "getActorRow db1 run actor = Some a \<and> getActorRow db2 run actor = Some a2
     \<and> ac_version a2 = ac_version a + 1 \<and> ac_generation a2 = ac_generation a \<and> actor_evolves a a2"
proof -
  from assms(4-7) obtain a1 where a1: "getActorRow db1 run actor = Some a1" "ac_version a1 = ac_version a"
    unfolding updateDagActorBinding_def
    by (auto simp: bind_inv assertIdentifier_Inr positiveSafeInteger_def simp del: optE_Inr)
  from actor_versions.same_version_same_row [OF assms(3) actor_store.reach_inv [OF assms(1)], of "(run, actor)" a a1]
  have same: "a1 = a" using assms(2) a1 by simp
  from update_row [OF assms(4)] a1 same assms(5,6) show ?thesis
    by (auto intro!: actor_versionedI)
qed

theorem actor_version_lock_witness:
  "getActorRow (demo_db2\<lparr>db_actors := [demo_row3]\<rparr>) ''r'' ''a'' = Some demo_row3 \<and> ac_version demo_row3 = ac_version demo_row + 1"
proof -
  have "getActorRow demo_db2 ''r'' ''a'' = Some demo_row" "js_trim (ap_run_id demo_patch) = ''r''"
    "js_trim (ap_actor_id demo_patch) = ''a''" "ap_expected_version demo_patch = num_of_int (ac_version demo_row)"
    by code_simp+
  from actor_version_lock [OF demo_reach(2) this(1) rtranclp.rtrancl_refl demo_updated this(2-4)] show ?thesis by blast
qed

end
