(* ===== verification/Actor_Leases_Props.thy ===== *)
theory Actor_Leases_Props
  imports Actor_Leases Dag_Actors_Theorems
begin

text \<open>
  What a lease operation does: in a database whose lease rows are readable it rewrites the one row
  of its actor, along an order in which the version and the generation grow, a generation keeps its
  target and a retired lease stays retired. The contracts of \<open>Machines\<close> are interpreted on the
  operations, together with those of the actors.
\<close>

section \<open>Readable rows\<close>

definition lease_valid :: "lease_row \<Rightarrow> bool" where
  "lease_valid r \<longleftrightarrow> leaseFromRow r = (Inr r :: lease_conflict err + _)"

definition lease_inv :: "('m) lease_db_scheme \<Rightarrow> bool" where
  "lease_inv db \<longleftrightarrow> leases_ok (db_leases db) \<and> (\<forall>r \<in> set (db_leases db). lease_valid r)"

definition trimmed :: "lease_row \<Rightarrow> bool" where
  "trimmed r \<longleftrightarrow> map_option js_trim (lr_target_type r) = lr_target_type r \<and> map_option js_trim (lr_target_id r) = lr_target_id r"

definition lease_bounds :: "lease_row \<Rightarrow> bool" where
  "lease_bounds r \<longleftrightarrow> 0 \<le> lr_generation r \<and> lr_generation r \<le> max_safe_integer \<and> 0 \<le> lr_created_at r
     \<and> lr_created_at r \<le> lr_state_changed_at r \<and> lr_state_changed_at r \<le> lr_updated_at r
     \<and> lr_updated_at r \<le> max_safe_integer \<and> 1 \<le> lr_version r \<and> lr_version r \<le> max_safe_integer"

definition leased_fields :: "lease_row \<Rightarrow> string \<Rightarrow> string \<Rightarrow> int \<Rightarrow> bool" where
  "leased_fields r t i d \<longleftrightarrow> lr_target_type r = Some t \<and> lr_target_id r = Some i \<and> lr_idle_deadline r = Some d
     \<and> bounded_id 64 (js_trim t) \<and> bounded_id 512 (js_trim i) \<and> 0 \<le> d \<and> d \<le> max_safe_integer
     \<and> lr_state_changed_at r \<le> d \<and> 1 \<le> lr_generation r \<and> lr_retained_until r = None"

definition idle_fields :: "lease_row \<Rightarrow> int \<Rightarrow> bool" where
  "idle_fields r u \<longleftrightarrow> lr_target_type r = None \<and> lr_target_id r = None \<and> lr_idle_deadline r = None
     \<and> lr_retained_until r = Some u \<and> lr_updated_at r \<le> u \<and> u \<le> max_safe_integer"

lemma leaseFromRow_Inr:
  "leaseFromRow r = (Inr x :: 'c err + _) \<longleftrightarrow>
     x = r\<lparr>lr_target_type := map_option js_trim (lr_target_type r), lr_target_id := map_option js_trim (lr_target_id r)\<rparr>
     \<and> lease_bounds r \<and> (if lr_state r = Leased then \<exists>t i d. leased_fields r t i d else \<exists>u. idle_fields r u)"
proof (cases "lr_state r")
  case Leased
  then show ?thesis
    by (cases "lr_target_type r"; cases "lr_target_id r"; cases "lr_idle_deadline r")
       (auto simp: leaseFromRow_def bind_inv lease_bounds_def leased_fields_def [abs_def] bounded_id_def)
next
  case Dormant
  then show ?thesis
    by (cases "lr_retained_until r"; cases r) (auto simp: leaseFromRow_def bind_inv lease_bounds_def idle_fields_def [abs_def])
next
  case Retired
  then show ?thesis
    by (cases "lr_retained_until r"; cases r) (auto simp: leaseFromRow_def bind_inv lease_bounds_def idle_fields_def [abs_def])
qed

lemma lease_valid_iff:
  "lease_valid r \<longleftrightarrow> trimmed r \<and> lease_bounds r
     \<and> (if lr_state r = Leased then \<exists>t i d. leased_fields r t i d else \<exists>u. idle_fields r u)"
  unfolding lease_valid_def leaseFromRow_Inr trimmed_def by (cases r) auto

lemma leaseFromRow_valid: "leaseFromRow r = (Inr x :: lease_conflict err + _) \<Longrightarrow> trimmed r \<Longrightarrow> x = r \<and> lease_valid r"
  unfolding lease_valid_iff leaseFromRow_Inr by (cases r) (auto simp: trimmed_def)

lemma getLeaseRow_key: "getLeaseRow db run actor = Some r \<Longrightarrow> lr_run_id r = run \<and> lr_actor_id r = actor \<and> r \<in> set (db_leases db)"
  unfolding getLeaseRow_def by (drule find_SomeD) simp

lemma getLeaseRow_valid: "lease_inv db \<Longrightarrow> getLeaseRow db run actor = Some r \<Longrightarrow> lease_valid r"
  by (auto simp: lease_inv_def dest: getLeaseRow_key)

lemma getDagActorLease_inv:
  assumes "lease_inv db"
  shows "getDagActorLease run actor db = Inr x \<longleftrightarrow>
    js_trim run \<noteq> [] \<and> length (js_trim run) \<le> 256 \<and> js_trim actor \<noteq> [] \<and> length (js_trim actor) \<le> 256
    \<and> x = getLeaseRow db (js_trim run) (js_trim actor)"
  using getLeaseRow_valid [OF assms]
  by (cases "getLeaseRow db (js_trim run) (js_trim actor)") (auto simp: getDagActorLease_def bind_inv lease_valid_def)

lemma requireLease_inv:
  "lease_inv db \<Longrightarrow> requireLease db run actor = Inr r \<longleftrightarrow> getLeaseRow db run actor = Some r"
  by (auto simp: requireLease_def lease_valid_def dest: getLeaseRow_valid split: option.splits)

section \<open>Rewriting one row\<close>

definition lease_set :: "lease_row \<Rightarrow> lease_row \<Rightarrow> ('m) lease_db_scheme \<Rightarrow> ('m) lease_db_scheme" where
  "lease_set r r' db = db\<lparr>db_leases := rewritten (\<lambda>s. s = r) (\<lambda>_. r') (db_leases db)\<rparr>"

lemma lease_row_unique:
  "leases_ok rows \<Longrightarrow> r \<in> set rows \<Longrightarrow> s \<in> set rows \<Longrightarrow> lease_key r = lease_key s \<Longrightarrow> r = s"
  unfolding leases_ok_def using unique_on_eq [of "\<lambda>_. True" lease_key rows r s] by blast

lemma lease_update_spec:
  assumes inv: "lease_inv db" and cur: "getLeaseRow db run actor = Some r"
    and ok: "leases_ok (rewritten P f (db_leases db))" and n: "length (filter P (db_leases db)) = 1"
    and P: "\<And>s. P s \<Longrightarrow> lr_run_id s = run \<and> lr_actor_id s = actor"
    and f: "lease_key (f r) = lease_key r" "trimmed (f r)"
    and req: "requireLease (db\<lparr>db_leases := rewritten P f (db_leases db)\<rparr>) run actor = Inr x"
  shows "x = f r \<and> P r \<and> lease_valid x \<and> db\<lparr>db_leases := rewritten P f (db_leases db)\<rparr> = lease_set r x db
    \<and> leases_ok (db_leases (lease_set r x db))"
proof -
  have rmem: "r \<in> set (db_leases db)" and rkey: "lr_run_id r = run" "lr_actor_id r = actor"
    using getLeaseRow_key [OF cur] by simp_all
  have "P r \<and> rewritten P f (db_leases db) = rewritten (\<lambda>s. s = r) (\<lambda>_. f r) (db_leases db)"
    using inv n P rmem rkey by (intro rewritten_unique [where key = lease_key]) (simp_all add: lease_inv_def leases_ok_def lease_key_def)
  then have Pr: "P r" and rows: "rewritten P f (db_leases db) = rewritten (\<lambda>s. s = r) (\<lambda>_. f r) (db_leases db)" by simp_all
  have "f r \<in> set (rewritten P f (db_leases db))" using rmem Pr by (auto simp: rewritten_def)
  moreover from req obtain y where y: "getLeaseRow (db\<lparr>db_leases := rewritten P f (db_leases db)\<rparr>) run actor = Some y"
    "leaseFromRow y = (Inr x :: lease_conflict err + _)" by (auto simp: requireLease_def split: option.splits)
  moreover have "lease_key y = lease_key (f r)" using getLeaseRow_key [OF y(1)] f(1) rkey by (simp add: lease_key_def)
  ultimately have "y = f r" using lease_row_unique [OF ok, of y "f r"] getLeaseRow_key [OF y(1)] by simp
  with leaseFromRow_valid [OF y(2)] f(2) have "x = f r" "lease_valid x" by auto
  with Pr rows ok show ?thesis by (simp add: lease_set_def)
qed

text \<open>How a lease row may change.\<close>

definition lease_evolves :: "lease_row \<Rightarrow> lease_row \<Rightarrow> bool" where
  "lease_evolves r r' \<longleftrightarrow> r' = r \<or> (lr_run_id r' = lr_run_id r \<and> lr_actor_id r' = lr_actor_id r
     \<and> lr_created_at r' = lr_created_at r \<and> lr_updated_at r \<le> lr_updated_at r'
     \<and> lr_version r < lr_version r' \<and> lr_generation r \<le> lr_generation r'
     \<and> (lr_state r' = Leased \<longrightarrow> lr_generation r' = lr_generation r \<longrightarrow>
          lr_state r = Leased \<and> lr_target_type r' = lr_target_type r \<and> lr_target_id r' = lr_target_id r)
     \<and> (lr_state r = Retired \<longrightarrow> lr_state r' = Retired))"

lemma lease_evolves_refl [simp]: "lease_evolves r r"
  by (simp add: lease_evolves_def)

lemma lease_evolves_trans: "lease_evolves r r' \<Longrightarrow> lease_evolves r' r'' \<Longrightarrow> lease_evolves r r''"
  unfolding lease_evolves_def by auto

text \<open>A successful write of the lease \<open>r\<close>, which becomes \<open>x\<close>.\<close>

definition lease_wrote :: "('m) lease_db_scheme \<Rightarrow> ('m) lease_db_scheme \<Rightarrow> lease_row \<Rightarrow> lease_row \<Rightarrow> bool" where
  "lease_wrote db db' r x \<longleftrightarrow> getLeaseRow db (lr_run_id r) (lr_actor_id r) = Some r \<and> db' = lease_set r x db
     \<and> leases_ok (db_leases db') \<and> lease_valid x \<and> lease_evolves r x"

lemma lease_wrote_of:
  assumes "lease_inv db" and "requireLease db run actor = Inr r"
    and "requireLease (db\<lparr>db_leases := rewritten P f (db_leases db)\<rparr>) run actor = Inr x"
    and "leases_ok (rewritten P f (db_leases db))" and "\<not> length (filter P (db_leases db)) \<noteq> 1"
    and "\<And>s. P s \<Longrightarrow> lr_run_id s = run \<and> lr_actor_id s = actor"
    and "lease_valid r \<Longrightarrow> P r \<Longrightarrow> lr_run_id (f r) = lr_run_id r \<and> lr_actor_id (f r) = lr_actor_id r \<and> trimmed (f r)
      \<and> lease_evolves r (f r) \<and> Q r (f r)"
  shows "lease_wrote db (db\<lparr>db_leases := rewritten P f (db_leases db)\<rparr>) r x \<and> Q r x"
proof -
  from assms(1,2) have cur: "getLeaseRow db run actor = Some r" by (simp add: requireLease_inv)
  then have v: "lease_valid r" "lr_run_id r = run" "lr_actor_id r = actor"
    using getLeaseRow_valid [OF assms(1)] getLeaseRow_key by blast+
  have mem: "s = r" if "s \<in> set (db_leases db)" "P s" for s
    using lease_row_unique [of "db_leases db" s r] assms(1,6) that v getLeaseRow_key [OF cur]
    by (simp add: lease_inv_def lease_key_def)
  from assms(5) have "filter P (db_leases db) \<noteq> []" by (intro notI) simp
  then obtain s where s: "s \<in> set (db_leases db)" "P s" unfolding filter_empty_conv by blast
  with mem [OF s] have Pr: "P r" by simp
  note f = assms(7) [OF v(1) Pr]
  have "lease_key (f r) = lease_key r" using f by (simp add: lease_key_def)
  with lease_update_spec [OF assms(1) cur assms(4) _ assms(6) _ _ assms(3)] assms(5) f
  have "x = f r" "lease_valid x" "db\<lparr>db_leases := rewritten P f (db_leases db)\<rparr> = lease_set r x db"
    "leases_ok (db_leases (lease_set r x db))" by auto
  with f cur v show ?thesis unfolding lease_wrote_def by simp
qed

lemma lease_wroteI:
  assumes "lease_inv db" and "requireLease db run actor = Inr r"
    and "requireLease (db\<lparr>db_leases := rewritten P f (db_leases db)\<rparr>) run actor = Inr x"
    and "leases_ok (rewritten P f (db_leases db))" and "\<not> length (filter P (db_leases db)) \<noteq> 1"
    and "\<And>s. P s \<Longrightarrow> lr_run_id s = run \<and> lr_actor_id s = actor"
    and "lease_valid r \<Longrightarrow> P r \<Longrightarrow> lr_run_id (f r) = lr_run_id r \<and> lr_actor_id (f r) = lr_actor_id r \<and> trimmed (f r)
      \<and> lease_evolves r (f r) \<and> Q r (f r)"
  shows "\<exists>r. lease_wrote db (db\<lparr>db_leases := rewritten P f (db_leases db)\<rparr>) r x \<and> Q r x"
  using lease_wrote_of [where P = P and f = f and Q = Q, OF assms] by blast

lemma getLeaseRow_set:
  assumes "lr_run_id x = lr_run_id r" "lr_actor_id x = lr_actor_id r"
  shows "getLeaseRow (lease_set r x db) run actor = map_option (\<lambda>s. if s = r then x else s) (getLeaseRow db run actor)"
  unfolding getLeaseRow_def lease_set_def using assms by (simp, intro find_update) auto

lemma lease_evolves_key: "lease_evolves r x \<Longrightarrow> lr_run_id x = lr_run_id r \<and> lr_actor_id x = lr_actor_id r"
  by (auto simp: lease_evolves_def)

lemma lease_wrote_inv: "lease_wrote db db' r x \<Longrightarrow> lease_inv db \<Longrightarrow> lease_inv db'"
  by (auto simp: lease_wrote_def lease_inv_def lease_set_def rewritten_def)

lemma lease_wrote_row:
  assumes "lease_wrote db db' r x" and "getLeaseRow db run actor = Some s"
  shows "\<exists>s'. getLeaseRow db' run actor = Some s' \<and> lease_evolves s s'"
  using assms getLeaseRow_set [of x r db run actor] lease_evolves_key [of r x]
  by (auto simp: lease_wrote_def)

lemma lease_wrote_at:
  assumes "lease_wrote db db' r x"
  shows "getLeaseRow db' (lr_run_id r) (lr_actor_id r) = Some x"
  using assms getLeaseRow_set [of x r db "lr_run_id r" "lr_actor_id r"] lease_evolves_key [of r x]
  by (auto simp: lease_wrote_def)

section \<open>The operations\<close>

lemmas lease_effect_simps = bindE_Inr throwIf_Inr sql_update_Inr sql_insert_Inr
  split_paired_Ex split_paired_all prod.case prod.inject sum.inject
  assertMutationTime_def assertExpectedVersion_def assertIncrementableVersion_def assertExactLease_def
  lease_ref.simps

lemma renew_effect:
  assumes "lease_inv db" and "renewDagActorLease penv clock i db = Inr (db', x)"
  shows "\<exists>r. lease_wrote db db' r x \<and> (lr_state r = Leased \<and> lr_state x = Leased \<and> lr_generation x = lr_generation r)"
  using assms(2) unfolding renewDagActorLease_def Let_def
  apply (simp only: lease_effect_simps)
  apply (elim exE conjE)
  apply hypsubst
  apply (rule lease_wroteI [OF assms(1)], assumption+)
   apply simp
  apply (simp add: lease_evolves_def lease_valid_iff trimmed_def)
  done

lemma release_effect:
  assumes "lease_inv db" and "releaseDagActorLease penv clock i db = Inr (db', x)"
  shows "\<exists>r. lease_wrote db db' r x \<and> (lr_state r = Leased \<and> lr_state x = Dormant \<and> lr_generation x = lr_generation r)"
  using assms(2) unfolding releaseDagActorLease_def Let_def
  apply (simp only: lease_effect_simps)
  apply (elim exE conjE)
  apply hypsubst
  apply (rule lease_wroteI [OF assms(1)], assumption+)
   apply simp
  apply (simp add: lease_evolves_def lease_valid_iff trimmed_def)
  done

lemma pin_effect:
  assumes "lease_inv db" and "setDagActorLeasePinned penv clock i db = Inr (db', x)"
  shows "(db' = db \<and> getLeaseRow db (lr_run_id x) (lr_actor_id x) = Some x)
    \<or> (\<exists>r. lease_wrote db db' r x \<and> (lr_state x = lr_state r \<and> lr_generation x = lr_generation r))"
  using assms(2) unfolding setDagActorLeasePinned_def Let_def
  apply (simp only: lease_effect_simps)
  apply (elim exE conjE)
  apply (split if_split_asm)
   apply (rule disjI1)
   apply (simp add: requireLease_inv [OF assms(1)])
   apply (metis getLeaseRow_key)
  apply (rule disjI2)
  apply (simp only: lease_effect_simps)
  apply (elim exE conjE)
  apply hypsubst
  apply (rule lease_wroteI [OF assms(1)], assumption+)
   apply simp
  apply (simp add: lease_evolves_def lease_valid_iff trimmed_def)
  done

lemma retired_wrote:
  "\<exists>r. lease_wrote db db' r x \<and> (lr_state x = Retired \<and> lr_generation x = lr_generation r) \<Longrightarrow>
   lr_state x = Retired \<and> ((db' = db \<and> A) \<or> (\<exists>r. lease_wrote db db' r x \<and> (lr_state x = Retired \<and> lr_generation x = lr_generation r)))"
  by blast

lemma retire_effect:
  assumes "lease_inv db" and "retireDagActorLease penv clock i db = Inr (db', x)"
  shows "lr_state x = Retired \<and> ((db' = db \<and> getLeaseRow db (lr_run_id x) (lr_actor_id x) = Some x)
    \<or> (\<exists>r. lease_wrote db db' r x \<and> (lr_state x = Retired \<and> lr_generation x = lr_generation r)))"
  using assms(2) unfolding retireDagActorLease_def Let_def
  apply (simp only: lease_effect_simps)
  apply (elim exE conjE)
  apply (split if_split_asm)
   apply (simp add: requireLease_inv [OF assms(1)])
   apply (metis getLeaseRow_key)
  apply (simp only: lease_effect_simps)
  apply (elim exE conjE)
  apply hypsubst
  apply (rule retired_wrote)
  apply (rule lease_wroteI [OF assms(1)], assumption+)
   apply simp
  apply (simp add: lease_evolves_def lease_valid_iff trimmed_def)
  done

lemma ensure_effect:
  assumes "lease_inv db" and "ensureLeaseRow run actor pinned now ttl db = Inr (db', x)"
  shows "lease_inv db' \<and> getLeaseRow db' run actor = Some x
    \<and> (db' = db \<or> (getLeaseRow db run actor = None \<and> db' = db\<lparr>db_leases := db_leases db @ [x]\<rparr>
         \<and> getActorRow db run actor \<noteq> None \<and> lr_state x = Dormant \<and> lr_generation x = 0 \<and> lr_version x = 1
         \<and> lr_updated_at x = now \<and> lr_pinned x = pinned))"
proof (cases "getLeaseRow db run actor")
  case (Some r)
  with assms getLeaseRow_valid [OF assms(1) Some] show ?thesis
    by (auto simp: ensureLeaseRow_def bind_inv lease_valid_def)
next
  case None
  then obtain r rows where r: "rows = db_leases db @ [r]" "leases_ok rows" "db' = db\<lparr>db_leases := rows\<rparr>"
      "requireLease (db\<lparr>db_leases := rows\<rparr>) run actor = Inr x"
      "lr_run_id r = run" "lr_actor_id r = actor" "lr_state r = Dormant" "lr_generation r = 0" "lr_version r = 1"
      "lr_updated_at r = now" "lr_pinned r = pinned" "lr_target_type r = None" "lr_target_id r = None"
    and a: "getActorRow db run actor \<noteq> None"
    using assms(2) by (auto simp: ensureLeaseRow_def bind_inv Let_def)
  have "getLeaseRow db' run actor = Some r"
    using None r by (simp add: getLeaseRow_def find_append)
  moreover have "x = r" "lease_valid r"
    using r(4) \<open>getLeaseRow db' run actor = Some r\<close> r(3) leaseFromRow_valid [of r x] r(12,13)
    by (auto simp: requireLease_def trimmed_def)
  ultimately show ?thesis using r a None assms(1) by (auto simp: lease_inv_def)
qed

definition acquired :: "lease_input \<Rightarrow> lease_row \<Rightarrow> lease_row \<Rightarrow> bool" where
  "acquired i r x \<longleftrightarrow> lr_state r \<noteq> Retired \<and> lr_state x = Leased \<and> lr_target_type x = Some (js_trim (li_target_type i))
     \<and> lr_target_id x = Some (js_trim (li_target_id i))
     \<and> lr_generation x = (if lr_state r = Leased \<and> lr_target_type r = Some (js_trim (li_target_type i))
            \<and> lr_target_id r = Some (js_trim (li_target_id i)) then lr_generation r else lr_generation r + 1)"

lemma acquire_row:
  assumes "lr_state r \<noteq> Retired" and "\<not> now < lr_updated_at r"
    and "(if lr_state r = Leased \<and> lr_target_type r = Some (js_trim (li_target_type i)) \<and> lr_target_id r = Some (js_trim (li_target_id i))
          then Inr (lr_generation r) else assertPositiveSafeInteger (js_int (lr_generation r + 1)) ''lease_generation'') = Inr g"
  shows "let x = r\<lparr>lr_state := Leased, lr_generation := g, lr_target_type := Some (js_trim (li_target_type i)),
        lr_target_id := Some (js_trim (li_target_id i)), lr_idle_deadline := d, lr_retained_until := None,
        lr_state_changed_at := c, lr_updated_at := now, lr_version := lr_version r + 1\<rparr>
    in lr_run_id x = lr_run_id r \<and> lr_actor_id x = lr_actor_id r \<and> trimmed x \<and> lease_evolves r x \<and> acquired i r x"
  using assms by (auto simp: Let_def trimmed_def lease_evolves_def acquired_def assertPositive_succ split: if_splits)

lemma acquire_effect:
  assumes "lease_inv db" and "acquireDagActorLease penv clock i db = Inr (db', x)"
  shows "\<exists>db1 r now ttl. ensureLeaseRow (js_trim (li_run_id i)) (js_trim (li_actor_id i)) False now ttl db = Inr (db1, r)
    \<and> lease_wrote db1 db' r x \<and> acquired i r x"
  using assms(2) unfolding acquireDagActorLease_def Let_def
  apply (simp only: lease_effect_simps assertBounded_Inr)
  apply (elim exE conjE)
  apply hypsubst
  apply (frule ensure_effect [OF assms(1)])
  apply (elim conjE)
  apply (rule exI, rule exI, rule exI, rule exI, rule conjI, assumption)
  apply (rule lease_wrote_of [where Q = "acquired i"], assumption)
       apply (simp only: requireLease_inv)
      apply assumption+
   apply (simp only:)
  apply (rule acquire_row [unfolded Let_def], assumption+)
  done

end
