(* ===== verification/Actor_Leases_Theorems.thy ===== *)
theory Actor_Leases_Theorems
  imports Actor_Leases_Props
begin

text \<open>
  The properties of the leases: the invariant of the tables, the fence of a lease generation, the
  version as an optimistic lock, retirement, and the agreement of the assessment with renewal.
\<close>

section \<open>The step relation\<close>

inductive lease_step :: "js_env \<Rightarrow> (string \<Rightarrow> string option) \<Rightarrow> ('m) lease_db_scheme \<Rightarrow> ('m) lease_db_scheme \<Rightarrow> bool"
  for env penv where
  ls_actor: "actor_step env db db' \<Longrightarrow> lease_step env penv db db'"
| ls_ensure: "ensureDagActorLease penv clock i db = Inr (db', x) \<Longrightarrow> lease_step env penv db db'"
| ls_acquire: "acquireDagActorLease penv clock l db = Inr (db', x) \<Longrightarrow> lease_step env penv db db'"
| ls_renew: "renewDagActorLease penv clock l db = Inr (db', x) \<Longrightarrow> lease_step env penv db db'"
| ls_release: "releaseDagActorLease penv clock l db = Inr (db', x) \<Longrightarrow> lease_step env penv db db'"
| ls_pin: "setDagActorLeasePinned penv clock p db = Inr (db', x) \<Longrightarrow> lease_step env penv db db'"
| ls_retire: "retireDagActorLease penv clock t db = Inr (db', x) \<Longrightarrow> lease_step env penv db db'"

definition lease_init :: "('m) lease_db_scheme \<Rightarrow> bool" where
  "lease_init db \<longleftrightarrow> actor_init db \<and> db_leases db = []"

definition leases_owned :: "('m) lease_db_scheme \<Rightarrow> bool" where
  "leases_owned db \<longleftrightarrow> (\<forall>r \<in> set (db_leases db). getActorRow db (lr_run_id r) (lr_actor_id r) \<noteq> None)"

definition lease_store_inv :: "js_env \<Rightarrow> ('m) lease_db_scheme \<Rightarrow> bool" where
  "lease_store_inv env db \<longleftrightarrow> actor_inv env db \<and> lease_inv db \<and> leases_owned db"

text \<open>The three ways in which a step can affect the leases.\<close>

inductive lease_effect :: "js_env \<Rightarrow> ('m) lease_db_scheme \<Rightarrow> ('m) lease_db_scheme \<Rightarrow> bool" for env where
  le_same: "lease_effect env db db"
| le_actor: "db_effect env db db' \<Longrightarrow> lease_effect env db db'"
| le_new: "getLeaseRow db (lr_run_id x) (lr_actor_id x) = None \<Longrightarrow> getActorRow db (lr_run_id x) (lr_actor_id x) \<noteq> None
    \<Longrightarrow> db' = db\<lparr>db_leases := db_leases db @ [x]\<rparr> \<Longrightarrow> lease_inv db' \<Longrightarrow> lease_effect env db db'"
| le_wrote: "lease_wrote db db' r x \<Longrightarrow> lease_effect env db db'"

lemma db_effect_leases: "db_effect env db db' \<Longrightarrow> db_leases db' = db_leases db"
  by (induction rule: db_effect.induct) (auto simp: actor_write_def command_write_def)

lemma ensure_lease_effect:
  assumes "lease_inv db" and "ensureLeaseRow run actor pinned now ttl db = Inr (db', x)"
  shows "lease_effect env db db'"
  using ensure_effect [OF assms] by (auto intro: le_same le_new dest: getLeaseRow_key)

lemma lease_step_effect:
  assumes "lease_step env penv db db'" and "lease_inv db"
  shows "\<exists>db1. lease_effect env db db1 \<and> lease_effect env db1 db'"
  using assms
proof (induction rule: lease_step.induct)
  case (ls_actor db db')
  then show ?case by (blast intro: le_same le_actor actor_step_effect)
next
  case (ls_ensure clock i db db' x)
  then show ?case
    unfolding ensureDagActorLease_def by (auto simp: bind_inv intro: le_same dest!: ensure_lease_effect)
next
  case (ls_acquire clock l db db' x)
  from acquire_effect [OF ls_acquire(2,1)] ensure_lease_effect [OF ls_acquire(2)] show ?case
    by (blast intro: le_wrote)
qed (blast dest: renew_effect release_effect pin_effect retire_effect intro: le_same le_wrote)+

lemma lease_effect_actor:
  assumes "lease_effect env db db'" and "getActorRow db run actor = Some a"
  shows "\<exists>a'. getActorRow db' run actor = Some a' \<and> actor_evolves a a'"
  using assms
proof (induction rule: lease_effect.induct)
  case (le_actor db db')
  then show ?case by (blast dest: effect_actor_row)
qed (auto simp: getActorRow_def lease_wrote_def lease_set_def)

lemma lease_effect_inv:
  assumes "lease_effect env db db'" and "lease_inv db"
  shows "lease_inv db'"
  using assms
proof (induction rule: lease_effect.induct)
  case (le_actor db db')
  then show ?case by (simp add: lease_inv_def db_effect_leases)
qed (auto intro: lease_wrote_inv)

lemma lease_effect_store_inv:
  assumes "lease_effect env db db'" and "lease_store_inv env db"
  shows "lease_store_inv env db'"
  using assms
proof (induction rule: lease_effect.induct)
  case (le_actor db db')
  then show ?case
    using effect_inv [OF le_actor(1)] effect_actor_row [OF le_actor(1)] db_effect_leases [OF le_actor(1)]
    unfolding lease_store_inv_def leases_owned_def lease_inv_def by fastforce
next
  case (le_new db x db')
  then show ?case
    by (auto simp: lease_store_inv_def leases_owned_def actor_inv_def command_owned_def actor_of_def getActorRow_def)
next
  case (le_wrote db db' r x)
  then have "lease_inv db'" by (auto simp: lease_store_inv_def intro: lease_wrote_inv)
  moreover have "db_actors db' = db_actors db" "db_commands db' = db_commands db"
    using le_wrote(1) by (simp_all add: lease_wrote_def lease_set_def)
  moreover have "getActorRow db (lr_run_id r) (lr_actor_id r) \<noteq> None"
    using le_wrote by (auto simp: lease_store_inv_def leases_owned_def lease_wrote_def dest: getLeaseRow_key)
  ultimately show ?case using le_wrote lease_evolves_key [of r x]
    by (auto simp: lease_store_inv_def leases_owned_def actor_inv_def command_owned_def actor_of_def getActorRow_def
        lease_wrote_def lease_set_def rewritten_def split: if_splits)
qed simp

lemma lease_effect_row:
  assumes "lease_effect env db db'" and "getLeaseRow db run actor = Some r"
  shows "\<exists>r'. getLeaseRow db' run actor = Some r' \<and> lease_evolves r r'"
  using assms
proof (induction rule: lease_effect.induct)
  case (le_actor db db')
  then show ?case by (simp add: getLeaseRow_def db_effect_leases)
next
  case (le_wrote db db' r' x)
  then show ?case by (blast dest: lease_wrote_row)
qed (auto simp: getLeaseRow_def find_append)

section \<open>The contracts\<close>

lemma lease_step_store_inv: "lease_step env penv db db' \<Longrightarrow> lease_store_inv env db \<Longrightarrow> lease_store_inv env db'"
  using lease_step_effect lease_effect_store_inv unfolding lease_store_inv_def by metis

lemma lease_step_row:
  assumes "lease_step env penv db db'" and "lease_store_inv env db" and "getLeaseRow db run actor = Some r"
  shows "\<exists>r'. getLeaseRow db' run actor = Some r' \<and> lease_evolves r r'"
proof -
  from assms(1,2) obtain db1 where "lease_effect env db db1" "lease_effect env db1 db'"
    using lease_step_effect unfolding lease_store_inv_def by blast
  with assms(3) show ?thesis by (blast dest: lease_effect_row intro: lease_evolves_trans)
qed

lemma lease_init_inv: "lease_init db \<Longrightarrow> lease_store_inv env db"
  by (simp add: lease_init_def lease_store_inv_def lease_inv_def leases_ok_def leases_owned_def actor_init_inv)

interpretation lease_store: transition_system lease_init "lease_step env penv" "lease_store_inv env" for env penv
  by unfold_locales (auto intro: lease_init_inv lease_step_store_inv)

interpretation leases: row_system lease_init "lease_step env penv" "lease_store_inv env"
    "\<lambda>db (run, actor). getLeaseRow db run actor" lease_evolves for env penv
  by unfold_locales (auto intro: lease_evolves_trans dest: lease_step_row)

interpretation lease_versions: versioned_store lease_init "lease_step env penv" "lease_store_inv env"
    "\<lambda>db (run, actor). getLeaseRow db run actor" lr_version for env penv
  by unfold_locales (auto simp: lease_evolves_def dest!: lease_step_row)

definition lease_rank :: "lease_state \<Rightarrow> nat" where
  "lease_rank s = (if s = Retired then 1 else 0)"

interpretation lease_states: absorbing_system lease_init "lease_step env penv" "lease_store_inv env"
    "\<lambda>db (run, actor). map_option lr_state (getLeaseRow db run actor)" "\<lambda>s. s = Retired" lease_rank for env penv
  by unfold_locales (auto simp: lease_evolves_def lease_rank_def dest!: lease_step_row)

section \<open>Assessment and renewal\<close>

lemma lease_valid_check: "lease_valid r \<Longrightarrow> lease_check r"
proof (cases "lr_state r = Leased")
  case True
  assume v: "lease_valid r"
  with True obtain t i d where f: "leased_fields r t i d" by (auto simp: lease_valid_iff)
  moreover have "js_trim t = t" "js_trim i = i" using v f by (simp_all add: lease_valid_iff trimmed_def leased_fields_def)
  ultimately show ?thesis using v True
    by (cases t; cases i) (auto simp: lease_valid_iff lease_check_def lease_bounds_def leased_fields_def bounded_id_def opt_length_def opt_ge_def)
next
  case False
  assume "lease_valid r"
  with False show ?thesis
    by (cases "lr_state r") (auto simp: lease_valid_iff lease_check_def lease_bounds_def idle_fields_def opt_ge_def)
qed

lemma leases_ok_set:
  assumes "leases_ok (db_leases db)" and "lease_valid x" and "lease_key x = lease_key r"
  shows "leases_ok (db_leases (lease_set r x db))"
proof -
  have "unique_on (\<lambda>_. True) lease_key (rewritten (\<lambda>s. s = r) (\<lambda>_. x) (db_leases db))"
    using assms by (intro unique_on_update) (auto simp: leases_ok_def)
  with assms lease_valid_check [OF assms(2)] show ?thesis
    by (auto simp: leases_ok_def lease_set_def rewritten_def list_all_iff)
qed

text \<open>When the lease of the arguments is current: the row, its target and its deadline.\<close>

definition lease_current :: "('m) lease_db_scheme \<Rightarrow> lease_input \<Rightarrow> int \<Rightarrow> lease_row \<Rightarrow> bool" where
  "lease_current db i now r \<longleftrightarrow> getLeaseRow db (js_trim (li_run_id i)) (js_trim (li_actor_id i)) = Some r
     \<and> lr_state r = Leased \<and> li_generation i = num_of_int (lr_generation r)
     \<and> lr_target_type r = Some (js_trim (li_target_type i)) \<and> lr_target_id r = Some (js_trim (li_target_id i))
     \<and> (lr_pinned r \<or> now < the (lr_idle_deadline r))"

definition lease_args :: "lease_input \<Rightarrow> int \<Rightarrow> int \<Rightarrow> bool" where
  "lease_args i clock now \<longleftrightarrow> bounded_id 256 (js_trim (li_run_id i)) \<and> bounded_id 256 (js_trim (li_actor_id i))
     \<and> (\<exists>g. li_generation i = num_of_int g \<and> 1 \<le> g \<and> g \<le> max_safe_integer)
     \<and> bounded_id 64 (js_trim (li_target_type i)) \<and> bounded_id 512 (js_trim (li_target_id i))
     \<and> assertNow (li_now i) clock = (Inr now :: lease_conflict err + _)"

lemma bounded_trim: "bounded_id m (js_trim s) \<longleftrightarrow> js_trim s \<noteq> [] \<and> length (js_trim s) \<le> m"
  by (simp add: bounded_id_def)

text \<open>The arguments that pass their checks, as equations.\<close>

lemma lease_args_eqs:
  assumes "lease_args i clock now"
  shows "assertBoundedString (JStr (li_run_id i)) ''run_id'' 256 = (Inr (js_trim (li_run_id i)) :: lease_conflict err + _)"
    "assertBoundedString (JStr (li_actor_id i)) ''actor_id'' 256 = (Inr (js_trim (li_actor_id i)) :: lease_conflict err + _)"
    "assertBoundedString (JStr (li_target_type i)) ''target_type'' 64 = (Inr (js_trim (li_target_type i)) :: lease_conflict err + _)"
    "assertBoundedString (JStr (li_target_id i)) ''target_id'' 512 = (Inr (js_trim (li_target_id i)) :: lease_conflict err + _)"
    "assertBoundedString (JStr (js_trim (li_run_id i))) ''run_id'' 256 = (Inr (js_trim (li_run_id i)) :: lease_conflict err + _)"
    "assertBoundedString (JStr (js_trim (li_actor_id i))) ''actor_id'' 256 = (Inr (js_trim (li_actor_id i)) :: lease_conflict err + _)"
    "assertNow (li_now i) clock = (Inr now :: lease_conflict err + _)"
    "li_generation i = num_of_int g \<Longrightarrow>
      assertPositiveSafeInteger (JNum (li_generation i)) ''lease_generation'' = (Inr g :: lease_conflict err + _)"
  using assms unfolding lease_args_def by (auto simp: bind_inv bounded_trim)

lemma lease_args_of:
  assumes "assertBoundedString (JStr (li_run_id i)) ''run_id'' 256 = (Inr a :: lease_conflict err + _)"
    "assertBoundedString (JStr (li_actor_id i)) ''actor_id'' 256 = (Inr b :: lease_conflict err + _)"
    "assertPositiveSafeInteger (JNum (li_generation i)) ''lease_generation'' = (Inr g :: lease_conflict err + _)"
    "assertBoundedString (JStr (li_target_type i)) ''target_type'' 64 = (Inr c :: lease_conflict err + _)"
    "assertBoundedString (JStr (li_target_id i)) ''target_id'' 512 = (Inr d :: lease_conflict err + _)"
    "assertNow (li_now i) clock = (Inr now :: lease_conflict err + _)"
  shows "lease_args i clock now \<and> a = js_trim (li_run_id i) \<and> b = js_trim (li_actor_id i)
    \<and> li_generation i = num_of_int g \<and> c = js_trim (li_target_type i) \<and> d = js_trim (li_target_id i)"
  using assms unfolding lease_args_def by (auto simp: bind_inv bounded_trim)

lemma assess_current_iff:
  assumes "lease_inv db"
  shows "assessDagActorLease clock i db = Inr (Current r) \<longleftrightarrow> (\<exists>now. lease_args i clock now \<and> lease_current db i now r)"
proof
  have v: "leaseFromRow x = (Inr x :: lease_conflict err + _)" if "getLeaseRow db a b = Some x" for a b x
    using getLeaseRow_valid [OF assms that] by (simp add: lease_valid_def)
  show "\<exists>now. lease_args i clock now \<and> lease_current db i now r" if "assessDagActorLease clock i db = Inr (Current r)"
    using that v unfolding assessDagActorLease_def getDagActorLease_def lease_args_def lease_current_def bounded_trim
    by (auto simp: bind_inv split: option.splits if_splits)
  assume "\<exists>now. lease_args i clock now \<and> lease_current db i now r"
  then obtain now where now: "lease_args i clock now" "lease_current db i now r" by blast
  have "getDagActorLease (js_trim (li_run_id i)) (js_trim (li_actor_id i)) db = Inr (Some r)"
    using now(2) v [of "js_trim (li_run_id i)" "js_trim (li_actor_id i)" r]
    by (simp add: getDagActorLease_def lease_args_eqs [OF now(1)] lease_current_def optE_def)
  then show "assessDagActorLease clock i db = Inr (Current r)"
    using now(2) lease_args_eqs(8) [OF now(1), of "lr_generation r"]
    by (auto simp: assessDagActorLease_def lease_args_eqs(1-7) [OF now(1)] lease_current_def)
qed

text \<open>Every TTL lies between one millisecond and its maximum.\<close>

lemma validateTtl_Inr [bind_inv]:
  "validateTtl v what maximum = Inr t \<longleftrightarrow> v = num_of_int t \<and> 1 \<le> t \<and> t \<le> maximum \<and> t \<le> max_safe_integer"
proof
  assume "validateTtl v what maximum = Inr t"
  then have "is_safe_integer v" "num_int v = t" "1 \<le> t" "t \<le> maximum"
    by (auto simp: validateTtl_def bind_inv MIN_DAG_ACTOR_TTL_MS_def)
  then show "v = num_of_int t \<and> 1 \<le> t \<and> t \<le> maximum \<and> t \<le> max_safe_integer"
    by (auto simp: is_safe_integer_def elim: num_is_integerE)
qed (auto simp: validateTtl_def bind_inv MIN_DAG_ACTOR_TTL_MS_def)

lemma parseEnvironmentTtl_bounds:
  assumes "parseEnvironmentTtl penv what fallback maximum = Inr t" and "1 \<le> fallback" and "fallback \<le> maximum"
  shows "1 \<le> t \<and> t \<le> maximum"
  using assms by (auto simp: parseEnvironmentTtl_def bind_inv Let_def split: option.splits)

lemma lease_settings_bounds:
  assumes "loadDagActorLeaseSettings penv = Inr s"
  shows "1 \<le> worker_idle_ttl_ms s \<and> worker_idle_ttl_ms s \<le> MAX_DAG_WORKER_IDLE_TTL_MS
    \<and> 1 \<le> actor_retention_ttl_ms s \<and> actor_retention_ttl_ms s \<le> MAX_DAG_ACTOR_RETENTION_TTL_MS"
  using assms
  by (auto simp: loadDagActorLeaseSettings_def bind_inv DEFAULT_DAG_WORKER_IDLE_TTL_MS_def
      DEFAULT_DAG_ACTOR_RETENTION_TTL_MS_def MAX_DAG_WORKER_IDLE_TTL_MS_def MAX_DAG_ACTOR_RETENTION_TTL_MS_def
      dest!: parseEnvironmentTtl_bounds)

lemma idleTtl_bounds: "idleTtl penv v = Inr t \<Longrightarrow> 1 \<le> t \<and> t \<le> MAX_DAG_WORKER_IDLE_TTL_MS"
  by (auto simp: idleTtl_def validateDagWorkerIdleTtlMs_def bind_inv split: option.splits dest: lease_settings_bounds)

lemma assertNow_Inr [bind_inv]: "assertNow v clock = Inr now \<Longrightarrow> 0 \<le> now \<and> now \<le> max_safe_integer"
  by (auto simp: assertNow_def bind_inv split: option.splits)

text \<open>What renewal needs beyond a current lease: room for the version, the time and the deadline.\<close>

definition renewable :: "(string \<Rightarrow> string option) \<Rightarrow> lease_input \<Rightarrow> int \<Rightarrow> lease_row \<Rightarrow> bool" where
  "renewable penv i now r \<longleftrightarrow> lr_updated_at r \<le> now \<and> lr_version r < max_safe_integer
     \<and> (\<exists>ttl. idleTtl penv (li_idle_ttl_ms i) = (Inr ttl :: lease_conflict err + _) \<and> now + ttl \<le> max_safe_integer)"

lemma checkedDeadline_Inr:
  "0 \<le> now \<Longrightarrow> 0 \<le> ttl \<Longrightarrow> checkedDeadline now ttl what = Inr d \<longleftrightarrow> d = now + ttl \<and> now + ttl \<le> max_safe_integer"
  by (simp only: checkedDeadline_def throwIf_Inr is_safe_integer_of_int) auto

lemma renew_current:
  assumes "lease_inv db" and "renewDagActorLease penv clock i db = Inr (db', x)"
  shows "\<exists>now r. lease_args i clock now \<and> lease_current db i now r \<and> renewable penv i now r"
  using assms(2) unfolding renewDagActorLease_def Let_def
  apply (simp only: lease_effect_simps requireLease_inv [OF assms(1)])
  apply (elim exE conjE)
  apply (drule (5) lease_args_of)
  apply (elim conjE)
  apply hypsubst
  apply (rule exI, rule exI, rule conjI, assumption)
  apply (frule idleTtl_bounds)
  apply (frule assertNow_Inr)
  apply (auto simp: lease_current_def renewable_def checkedDeadline_Inr assertPositive_succ intro!: exI)
  done

lemma leaseFromRow_self: "lease_valid r \<Longrightarrow> leaseFromRow r = (Inr r :: lease_conflict err + _)"
  by (simp add: lease_valid_def)

lemma single_row_filter:
  assumes "lease_inv db" and "getLeaseRow db run actor = Some r" and "P r"
    and "\<And>s. P s \<Longrightarrow> lr_run_id s = run \<and> lr_actor_id s = actor"
  shows "filter P (db_leases db) = [r]"
proof (rule filter_unique [where key = lease_key])
  show "unique_on (\<lambda>_. True) lease_key (db_leases db)" using assms(1) by (simp add: lease_inv_def leases_ok_def)
qed (use assms getLeaseRow_key [OF assms(2)] in \<open>auto simp: lease_key_def\<close>)

lemma single_row_rewritten:
  assumes "lease_inv db" and "getLeaseRow db run actor = Some r" and "P r"
    and "\<And>s. P s \<Longrightarrow> lr_run_id s = run \<and> lr_actor_id s = actor"
  shows "rewritten P f (db_leases db) = db_leases (lease_set r (f r) db)"
proof -
  have "P s \<longleftrightarrow> s = r" if "s \<in> set (db_leases db)" for s
  proof -
    from that have "P s \<longleftrightarrow> s \<in> set (filter P (db_leases db))" by simp
    also have "\<dots> \<longleftrightarrow> s = r" by (simp add: single_row_filter [where P = P, OF assms])
    finally show ?thesis .
  qed
  then show ?thesis by (auto simp: rewritten_def lease_set_def)
qed

lemma current_renewed:
  assumes "lease_inv db" and "li_expected_version i = None"
    and args: "lease_args i clock now" and cur: "lease_current db i now r" and ren: "renewable penv i now r"
  shows "\<exists>x. renewDagActorLease penv clock i db = Inr (lease_set r x db, x)"
proof -
  let ?run = "js_trim (li_run_id i)" and ?actor = "js_trim (li_actor_id i)"
  have row: "getLeaseRow db ?run ?actor = Some r" and v: "lease_valid r" and st: "lr_state r = Leased"
    and now: "0 \<le> now" "now \<le> max_safe_integer"
    using cur getLeaseRow_valid [OF assms(1)] assertNow_Inr [OF lease_args_eqs(7) [OF args]]
    by (auto simp: lease_current_def)
  from ren obtain ttl where ttl: "idleTtl penv (li_idle_ttl_ms i) = (Inr ttl :: lease_conflict err + _)"
    "now + ttl \<le> max_safe_integer" "lr_updated_at r \<le> now" "lr_version r < max_safe_integer" by (auto simp: renewable_def)
  then have dl: "checkedDeadline now ttl ''idle_deadline'' = (Inr (now + ttl) :: lease_conflict err + _)"
    using now idleTtl_bounds [OF ttl(1)] by (subst checkedDeadline_Inr) simp_all
  from v st obtain t k d where f: "leased_fields r t k d" by (auto simp: lease_valid_iff)
  define x where "x = r\<lparr>lr_idle_deadline := Some (max d (now + ttl)), lr_updated_at := now, lr_version := lr_version r + 1\<rparr>"
  have vx: "lease_valid x" using v st f ttl now
    by (auto simp: x_def lease_valid_iff lease_bounds_def leased_fields_def [abs_def] trimmed_def)
  have xk: "lr_run_id x = lr_run_id r" "lr_actor_id x = lr_actor_id r" by (simp_all add: x_def)
  let ?P = "\<lambda>s. lr_run_id s = ?run \<and> lr_actor_id s = ?actor \<and> lr_state s = Leased \<and> lr_generation s = lr_generation r
             \<and> lr_target_type s = Some (js_trim (li_target_type i)) \<and> lr_target_id s = Some (js_trim (li_target_id i))
             \<and> lr_version s = lr_version r"
  let ?f = "\<lambda>s. s\<lparr>lr_idle_deadline := Some (max (the (lr_idle_deadline r)) (now + ttl)), lr_updated_at := now,
               lr_version := lr_version s + 1\<rparr>"
  have Pr: "?P r" using cur getLeaseRow_key [OF row] by (simp add: lease_current_def)
  have fx: "?f r = x" using f by (simp add: x_def leased_fields_def)
  have upd: "sql_update leases_ok ?P ?f (db_leases db) = (Inr (db_leases (lease_set r x db), 1) :: lease_conflict err + _)"
    using single_row_rewritten [OF assms(1) row, of ?P ?f] single_row_filter [OF assms(1) row, of ?P] Pr fx
      leases_ok_set [of db x r] assms(1) vx xk
    by (simp add: sql_update_def lease_inv_def lease_key_def)
  have db': "db\<lparr>db_leases := db_leases (lease_set r x db)\<rparr> = lease_set r x db" by (simp add: lease_set_def)
  have req: "requireLease (lease_set r x db) ?run ?actor = Inr x"
    using getLeaseRow_set [OF xk, of db ?run ?actor] row leaseFromRow_self [OF vx] by (simp add: requireLease_def)
  have req0: "requireLease db ?run ?actor = Inr r" using row by (simp add: requireLease_inv [OF assms(1)])
  have inc: "assertPositiveSafeInteger (JNum (Fin (rat_of_int (lr_version r) + 1))) ''lease version''
      = (Inr (lr_version r + 1) :: lease_conflict err + _)"
    using v ttl(4) by (simp add: assertPositive_succ lease_valid_iff lease_bounds_def)
  have exp: "(\<not> lr_pinned r \<and> the (lr_idle_deadline r) \<le> now) = False" using cur by (auto simp: lease_current_def)
  have "renewDagActorLease penv clock i db = Inr (lease_set r x db, x)"
    unfolding renewDagActorLease_def
    using cur ttl lease_args_eqs(8) [OF args, of "lr_generation r"] upd
    by (simp add: lease_args_eqs(1-7) [OF args] assms(2) assertOptionalExpectedVersion_def optE_def ttl(1) dl req0
        assertExpectedVersion_def opt_matches_def assertMutationTime_def assertIncrementableVersion_def
        assertExactLease_def lease_current_def req db' inc exp)
  then show ?thesis by blast
qed

section \<open>A concrete run\<close>

definition lease_demo0 :: lease_db where
  "lease_demo0 = \<lparr>db_runs = [(''r'', ''running'')], db_actors = [], db_commands = [], db_leases = []\<rparr>"

definition lease_demo1 :: lease_db where
  "lease_demo1 = lease_demo0\<lparr>db_actors := [demo_row]\<rparr>"

definition lease_demo_in :: lease_input where
  "lease_demo_in = \<lparr>li_run_id = ''r'', li_actor_id = ''a'', li_generation = num_of_int 1, li_target_type = ''w'', li_target_id = ''t'',
     li_expected_version = None, li_idle_ttl_ms = Some (num_of_int 10), li_retention_ttl_ms = Some (num_of_int 20),
     li_now = Some (num_of_int 9)\<rparr>"

definition lease_demo_retire :: retire_input where
  "lease_demo_retire = \<lparr>rt_run_id = ''r'', rt_actor_id = ''a'', rt_expected_version = None, rt_generation = Some (num_of_int 1),
     rt_target_type = Some ''w'', rt_target_id = Some ''t'', rt_retention_ttl_ms = Some (num_of_int 5), rt_now = Some (num_of_int 12)\<rparr>"

definition leased_row :: lease_row where
  "leased_row = \<lparr>lr_run_id = ''r'', lr_actor_id = ''a'', lr_state = Leased, lr_generation = 1, lr_target_type = Some ''w'',
     lr_target_id = Some ''t'', lr_idle_deadline = Some 19, lr_pinned = False, lr_retained_until = None,
     lr_state_changed_at = 9, lr_created_at = 9, lr_updated_at = 9, lr_version = 2\<rparr>"

definition retired_row :: lease_row where
  "retired_row = leased_row\<lparr>lr_state := Retired, lr_target_type := None, lr_target_id := None, lr_idle_deadline := None,
     lr_retained_until := Some 17, lr_state_changed_at := 12, lr_updated_at := 12, lr_version := 3\<rparr>"

definition lease_demo2 :: lease_db where "lease_demo2 = lease_demo1\<lparr>db_leases := [leased_row]\<rparr>"

definition lease_demo3 :: lease_db where "lease_demo3 = lease_demo1\<lparr>db_leases := [retired_row]\<rparr>"

lemma lease_demo_register: "registerDagActor demo_env 5 demo_actor lease_demo0 = Inr (lease_demo1, demo_row, True)"
  by code_simp

lemma lease_demo_acquire: "acquireDagActorLease (\<lambda>_. None) 0 lease_demo_in lease_demo1 = Inr (lease_demo2, leased_row)"
  by code_simp

lemma lease_demo_retired: "retireDagActorLease (\<lambda>_. None) 0 lease_demo_retire lease_demo2 = Inr (lease_demo3, retired_row)"
  by code_simp

lemma lease_demo_reach:
  "reach lease_init (lease_step demo_env (\<lambda>_. None)) lease_demo2"
  "reach lease_init (lease_step demo_env (\<lambda>_. None)) lease_demo3"
  "(lease_step demo_env (\<lambda>_. None))\<^sup>*\<^sup>* lease_demo2 lease_demo3"
proof -
  have "reach lease_init (lease_step demo_env (\<lambda>_. None)) lease_demo0"
    by (rule reach_init) (simp add: lease_init_def actor_init_def lease_demo0_def)
  then have "reach lease_init (lease_step demo_env (\<lambda>_. None)) lease_demo1"
    by (rule reach_step) (rule ls_actor [OF st_register [OF lease_demo_register]])
  then show 2: "reach lease_init (lease_step demo_env (\<lambda>_. None)) lease_demo2"
    by (rule reach_step) (rule ls_acquire [OF lease_demo_acquire])
  have st: "lease_step demo_env (\<lambda>_. None) lease_demo2 lease_demo3" by (rule ls_retire [OF lease_demo_retired])
  with 2 show "reach lease_init (lease_step demo_env (\<lambda>_. None)) lease_demo3" by (rule reach_step)
  from st show "(lease_step demo_env (\<lambda>_. None))\<^sup>*\<^sup>* lease_demo2 lease_demo3" by simp
qed

lemma lease_demo_rows:
  "getLeaseRow lease_demo2 ''r'' ''a'' = Some leased_row" "getLeaseRow lease_demo3 ''r'' ''a'' = Some retired_row"
  by code_simp+

section \<open>Properties\<close>

text \<open>Every reachable database satisfies the constraints of the lease table, every lease belongs to a
  registered actor, and the validation that a read repeats on each row never fails.\<close>

theorem lease_store_reachable_ok:
  assumes "reach lease_init (lease_step env penv) db"
  shows "leases_ok (db_leases db)
    \<and> (\<forall>r \<in> set (db_leases db). leaseFromRow r = (Inr r :: lease_conflict err + _)
         \<and> getActorRow db (lr_run_id r) (lr_actor_id r) \<noteq> None)"
  using lease_store.reach_inv [OF assms]
  unfolding lease_store_inv_def lease_inv_def leases_owned_def lease_valid_def by blast

lemma lease_store_reachable_ok_witness:
  "leaseFromRow leased_row = (Inr leased_row :: lease_conflict err + _) \<and> getActorRow lease_demo2 ''r'' ''a'' \<noteq> None"
  using lease_store_reachable_ok [OF lease_demo_reach(1)] by (simp add: lease_demo2_def leased_row_def)

text \<open>C14. The lease generation is a fencing token: along any sequence of operations it never decreases,
  and an actor that is leased twice under one generation is leased to one and the same target; a row
  whose version did not change did not change at all.\<close>

theorem lease_generation_fence:
  assumes "reach lease_init (lease_step env penv) db" and "(lease_step env penv)\<^sup>*\<^sup>* db db'"
    and "getLeaseRow db run actor = Some r"
  shows "\<exists>r'. getLeaseRow db' run actor = Some r' \<and> lr_generation r \<le> lr_generation r'
    \<and> (lr_state r = Leased \<and> lr_state r' = Leased \<and> lr_generation r' = lr_generation r \<longrightarrow>
         lr_target_type r' = lr_target_type r \<and> lr_target_id r' = lr_target_id r)
    \<and> (lr_version r' = lr_version r \<longrightarrow> r' = r)"
proof -
  from leases.row_steps [OF assms(2) lease_store.reach_inv [OF assms(1)], of "(run, actor)" r] assms(3)
  obtain r' where "getLeaseRow db' run actor = Some r'" "lease_evolves r r'" by auto
  then show ?thesis by (intro exI [of _ r']) (auto simp: lease_evolves_def)
qed

lemma lease_generation_fence_witness:
  "\<exists>r'. getLeaseRow lease_demo3 ''r'' ''a'' = Some r' \<and> lr_generation leased_row \<le> lr_generation r'"
  using lease_generation_fence [OF lease_demo_reach(1,3) lease_demo_rows(1)] by blast

text \<open>C15. Assessing a lease as current and renewing it agree: without an expected version, a renewal succeeds
  exactly if the assessment at the same time says current and there is room for the version, the time
  is not before the last write, and the new deadline is a safe integer.\<close>

theorem assess_iff_renew:
  assumes "reach lease_init (lease_step env penv) db" and "li_expected_version i = None"
  shows "(\<exists>db' x. renewDagActorLease penv clock i db = Inr (db', x)) \<longleftrightarrow>
    (\<exists>r now. assessDagActorLease clock i db = Inr (Current r) \<and> assertNow (li_now i) clock = (Inr now :: lease_conflict err + _)
       \<and> lr_updated_at r \<le> now \<and> lr_version r < max_safe_integer
       \<and> (\<exists>ttl. idleTtl penv (li_idle_ttl_ms i) = (Inr ttl :: lease_conflict err + _) \<and> now + ttl \<le> max_safe_integer))"
    (is "?L \<longleftrightarrow> ?R")
proof
  have inv: "lease_inv db" using lease_store.reach_inv [OF assms(1)] by (simp add: lease_store_inv_def)
  show ?R if ?L
  proof -
    from that obtain now r where "lease_args i clock now" "lease_current db i now r" "renewable penv i now r"
      using renew_current [OF inv] by blast
    then show ?thesis using assess_current_iff [OF inv] lease_args_eqs(7) unfolding renewable_def by blast
  qed
  show ?L if r: ?R
  proof -
    from r obtain r now where "assessDagActorLease clock i db = Inr (Current r)"
      "assertNow (li_now i) clock = (Inr now :: lease_conflict err + _)" "renewable penv i now r"
      unfolding renewable_def by blast
    moreover from this(1) obtain n where "lease_args i clock n" "lease_current db i n r"
      using assess_current_iff [OF inv] by blast
    moreover have "n = now" using lease_args_eqs(7) [OF \<open>lease_args i clock n\<close>] calculation(2) by simp
    ultimately show ?thesis using current_renewed [OF inv assms(2)] by blast
  qed
qed

lemma assess_iff_renew_witness:
  "\<exists>db' x. renewDagActorLease (\<lambda>_. None) 0 lease_demo_in lease_demo2 = Inr (db', x)"
proof -
  have "assessDagActorLease 0 lease_demo_in lease_demo2 = Inr (Current leased_row)"
    "assertNow (li_now lease_demo_in) 0 = (Inr 9 :: lease_conflict err + _)"
    "idleTtl (\<lambda>_. None) (li_idle_ttl_ms lease_demo_in) = (Inr 10 :: lease_conflict err + _)"
    "li_expected_version lease_demo_in = None" "lr_updated_at leased_row \<le> 9 \<and> lr_version leased_row < max_safe_integer"
    "9 + 10 \<le> max_safe_integer"
    by code_simp+
  with assess_iff_renew [OF lease_demo_reach(1), of lease_demo_in 0] show ?thesis by blast
qed

text \<open>A retired lease stays retired whatever is done afterwards, and it can never be acquired again.\<close>

theorem retired_forever:
  assumes "reach lease_init (lease_step env penv) db" and "(lease_step env penv)\<^sup>*\<^sup>* db db'"
    and "getLeaseRow db (js_trim (li_run_id i)) (js_trim (li_actor_id i)) = Some r" and "lr_state r = Retired"
  shows "map_option lr_state (getLeaseRow db' (js_trim (li_run_id i)) (js_trim (li_actor_id i))) = Some Retired
    \<and> isl (acquireDagActorLease penv clock i db')"
proof -
  let ?run = "js_trim (li_run_id i)" and ?actor = "js_trim (li_actor_id i)"
  have inv: "lease_store_inv env db'"
    using lease_store.steps_inv [OF assms(2)] lease_store.reach_inv [OF assms(1)] .
  have ret: "map_option lr_state (getLeaseRow db' ?run ?actor) = Some Retired"
    using lease_states.final_steps [OF assms(2) lease_store.reach_inv [OF assms(1)], of "(?run, ?actor)"] assms(3,4) by simp
  have "isl (acquireDagActorLease penv clock i db')"
  proof (cases "acquireDagActorLease penv clock i db'")
    case (Inr p)
    obtain db2 x where p: "p = (db2, x)" by fastforce
    from acquire_effect [OF _ Inr [unfolded p]] inv obtain db1 r1 now ttl where
      "ensureLeaseRow ?run ?actor False now ttl db' = Inr (db1, r1)" "acquired i r1 x"
      unfolding lease_store_inv_def by blast
    with ensure_effect [OF _ this(1)] inv ret show ?thesis
      by (auto simp: lease_store_inv_def acquired_def)
  qed simp
  with ret show ?thesis by blast
qed

lemma retired_forever_witness:
  "isl (acquireDagActorLease (\<lambda>_. None) 0 lease_demo_in lease_demo3)"
proof -
  have "getLeaseRow lease_demo3 (js_trim (li_run_id lease_demo_in)) (js_trim (li_actor_id lease_demo_in)) = Some retired_row"
    "lr_state retired_row = Retired"
    by code_simp+
  from retired_forever [OF lease_demo_reach(2) rtranclp.rtrancl_refl this] show ?thesis by blast
qed

text \<open>The list of expired leases is exact: it never fails, holds the expired, unpinned leases ordered by
  deadline, the most overdue first and at most as many as the limit, all of them if there are fewer,
  and none of them is assessed as current at that time.\<close>

theorem list_expired_exact:
  assumes "reach lease_init (lease_step env penv) db" and "assertNow v clock = (Inr now :: lease_conflict err + _)"
    and "normalizeListLimit l = (Inr n :: lease_conflict err + _)"
  shows "\<exists>rs. listExpiredDagActorLeases clock v l db = Inr rs
    \<and> set rs \<subseteq> {r \<in> set (db_leases db). lease_expired_at now r}
    \<and> sorted (map (\<lambda>r. (the (lr_idle_deadline r), lr_run_id r, lr_actor_id r)) rs)
    \<and> length rs = min n (length (filter (lease_expired_at now) (db_leases db)))
    \<and> (length rs < n \<longrightarrow> set rs = {r \<in> set (db_leases db). lease_expired_at now r})
    \<and> (\<forall>r \<in> set rs. \<forall>i. li_now i = v \<longrightarrow> assessDagActorLease clock i db \<noteq> Inr (Current r))"
proof -
  let ?key = "\<lambda>r. (the (lr_idle_deadline r), lr_run_id r, lr_actor_id r)"
  let ?all = "filter (lease_expired_at now) (db_leases db)"
  let ?rs = "take n (sort_key ?key ?all)"
  have inv: "lease_inv db" using lease_store.reach_inv [OF assms(1)] by (simp add: lease_store_inv_def)
  have sub: "set ?rs \<subseteq> set ?all" using set_take_subset [of n "sort_key ?key ?all"] by simp
  have "mapE leaseFromRow ?rs = (Inr (map (\<lambda>r. r) ?rs) :: lease_conflict err + _)"
  proof (rule mapE_all)
    show "leaseFromRow r = (Inr r :: lease_conflict err + _)" if "r \<in> set ?rs" for r
      using that sub inv leaseFromRow_self by (auto simp: lease_inv_def)
  qed
  then have "listExpiredDagActorLeases clock v l db = Inr ?rs"
    using assms(2,3) by (simp add: listExpiredDagActorLeases_def)
  moreover have "sorted (map ?key ?rs)"
    unfolding take_map [symmetric] by (rule sorted_wrt_take) simp
  moreover have "set ?rs = set ?all" if "length ?rs < n"
    using that by (simp add: not_le [symmetric])
  moreover have "assessDagActorLease clock i db \<noteq> Inr (Current r)" if "r \<in> set ?rs" "li_now i = v" for r i
  proof
    assume "assessDagActorLease clock i db = Inr (Current r)"
    then obtain t where "lease_args i clock t" "lease_current db i t r" using assess_current_iff [OF inv] by blast
    moreover have "t = now" using lease_args_eqs(7) [OF \<open>lease_args i clock t\<close>] assms(2) that(2) by simp
    moreover have "lease_expired_at now r" using sub that(1) by auto
    ultimately show False by (auto simp: lease_current_def lease_expired_at_def)
  qed
  ultimately show ?thesis using sub by (intro exI [of _ ?rs]) auto
qed

lemma list_expired_exact_witness:
  "\<exists>rs. listExpiredDagActorLeases 0 (Some (num_of_int 30)) None lease_demo2 = Inr rs \<and> set rs = {leased_row}"
proof -
  have args: "assertNow (Some (num_of_int 30)) 0 = (Inr 30 :: lease_conflict err + _)"
    "normalizeListLimit None = (Inr 100 :: lease_conflict err + _)"
    and exp: "lease_expired_at 30 leased_row" "db_leases lease_demo2 = [leased_row]"
    by code_simp+
  from list_expired_exact [OF lease_demo_reach(1) args] exp show ?thesis by fastforce
qed

text \<open>Whatever the environment and the arguments say, a TTL that the operations use lies between one
  millisecond and its maximum, seven days for a worker's idleness and ten years for retention.\<close>

theorem lease_ttl_bounds:
  "(idleTtl penv v = Inr t \<longrightarrow> 1 \<le> t \<and> t \<le> 7 * 24 * 60 * 60000)
   \<and> (retentionTtl penv v = Inr t \<longrightarrow> 1 \<le> t \<and> t \<le> 3650 * 24 * 60 * 60000)"
  using idleTtl_bounds [of penv v t] lease_settings_bounds [of penv]
  by (auto simp: MAX_DAG_WORKER_IDLE_TTL_MS_def MAX_DAG_ACTOR_RETENTION_TTL_MS_def retentionTtl_def
      validateDagActorRetentionTtlMs_def bind_inv split: option.splits)

lemma lease_ttl_bounds_witness:
  "idleTtl (\<lambda>_. None) (Some (num_of_int 10)) = (Inr 10 :: lease_conflict err + _) \<and> (10::int) \<le> 7 * 24 * 60 * 60000"
proof -
  have "idleTtl (\<lambda>_. None) (Some (num_of_int 10)) = (Inr 10 :: lease_conflict err + _)" by code_simp
  with lease_ttl_bounds [where penv = "\<lambda>_. None" and v = "Some (num_of_int 10)" and t = 10]
  show ?thesis by blast
qed

end
