(* ===== verification/Actor_Runtime_Props.thy ===== *)
theory Actor_Runtime_Props
  imports Actor_Runtime Actor_Leases_Theorems
begin

text \<open>
  What the operations on checkpoints and workers do to the store, as effects: a checkpoint is
  appended with the next version, a worker is appended for the current lease or moved along an
  edge of its status graph, and a deletion removes one actor with its rows.
\<close>

section \<open>Checkpoints of an actor\<close>

definition actor_checkpoints :: "('m) runtime_db_scheme \<Rightarrow> string \<Rightarrow> string \<Rightarrow> checkpoint_row list" where
  "actor_checkpoints db run actor = filter (\<lambda>r. cp_run_id r = run \<and> cp_actor_id r = actor) (db_checkpoints db)"

definition checkpoint_readable :: "js_env \<Rightarrow> (string \<Rightarrow> string \<Rightarrow> bool) \<Rightarrow> checkpoint_row \<Rightarrow> bool" where
  "checkpoint_readable env le r \<longleftrightarrow> (\<exists>c. checkpointFromRow env le r = (Inr (r, c) :: lease_conflict err + _))"

text \<open>Versions count from one in the order of insertion; times and generations never decrease.\<close>

definition checkpoint_history :: "checkpoint_row list \<Rightarrow> bool" where
  "checkpoint_history rs \<longleftrightarrow> map cp_version rs = map int [1..<Suc (length rs)]
     \<and> sorted (map cp_captured_at rs) \<and> sorted (map cp_created_at rs) \<and> sorted (map cp_generation rs)"

lemma history_Nil [simp]: "checkpoint_history []"
  by (simp add: checkpoint_history_def)

lemma sorted_append_last: "sorted (map f rs) \<Longrightarrow> (rs \<noteq> [] \<Longrightarrow> f (last rs) \<le> f x) \<Longrightarrow> sorted (map f (rs @ [x]))"
  for f :: "'r \<Rightarrow> int"
proof (cases rs rule: rev_cases)
  case (snoc ys y)
  assume "sorted (map f rs)" "rs \<noteq> [] \<Longrightarrow> f (last rs) \<le> f x"
  with snoc show ?thesis by (auto simp: sorted_append intro: order_trans)
qed simp

lemma history_append:
  assumes "checkpoint_history rs" and "cp_version x = int (length rs) + 1"
    and "rs \<noteq> [] \<Longrightarrow> cp_captured_at (last rs) \<le> cp_captured_at x \<and> cp_created_at (last rs) \<le> cp_created_at x
          \<and> cp_generation (last rs) \<le> cp_generation x"
  shows "checkpoint_history (rs @ [x])"
  using assms sorted_append_last [of _ rs x] unfolding checkpoint_history_def by auto

lemma fold_last:
  "sorted_wrt (<) (map v (b # xs)) \<Longrightarrow>
   fold (\<lambda>r best. case best of None \<Rightarrow> Some r | Some b \<Rightarrow> if v b < v r then Some r else Some b) xs (Some b) = Some (last (b # xs))"
  for v :: "'r \<Rightarrow> int"
  by (induction xs arbitrary: b) auto

lemma history_sorted: "checkpoint_history rs \<Longrightarrow> sorted_wrt (<) (map cp_version rs)"
  unfolding checkpoint_history_def by (simp add: sorted_wrt_map del: upt_Suc)

lemma latest_last:
  assumes "checkpoint_history (actor_checkpoints db run actor)"
  shows "latestCheckpointRow db run actor
    = (if actor_checkpoints db run actor = [] then None else Some (last (actor_checkpoints db run actor)))"
proof (cases "actor_checkpoints db run actor")
  case (Cons b rs)
  with history_sorted [OF assms] fold_last [of cp_version b rs] show ?thesis
    unfolding latestCheckpointRow_def actor_checkpoints_def by simp
qed (simp add: latestCheckpointRow_def actor_checkpoints_def)

lemma history_last_version:
  assumes "checkpoint_history rs" and "rs \<noteq> []"
  shows "cp_version (last rs) = int (length rs)"
proof -
  have "cp_version (last rs) = last (map cp_version rs)" using assms(2) by (simp add: last_map)
  also have "\<dots> = int (length rs)" using assms by (cases rs) (simp_all add: checkpoint_history_def last_map)
  finally show ?thesis .
qed

lemma checkpointFromRow_row: "checkpointFromRow env le r = Inr (x, c) \<Longrightarrow> x = r"
  by (auto simp: checkpointFromRow_def bind_inv split: option.splits)

lemma getCheckpointRow_key:
  "getCheckpointRow db run actor v = Some r \<Longrightarrow> cp_run_id r = run \<and> cp_actor_id r = actor \<and> cp_version r = v \<and> r \<in> set (db_checkpoints db)"
  unfolding getCheckpointRow_def by (drule find_SomeD) simp

lemma checkpoint_inserted:
  assumes "checkpoints_ok (db_checkpoints db @ [x])"
    and "getCheckpointRow (db\<lparr>db_checkpoints := db_checkpoints db @ [x]\<rparr>) run actor v = Some r"
    and "cp_run_id x = run" "cp_actor_id x = actor" "cp_version x = v"
  shows "r = x"
  using assms getCheckpointRow_key [OF assms(2)] unique_on_eq [of "\<lambda>_. True" checkpoint_key "db_checkpoints db @ [x]" r x]
  by (simp add: checkpoints_ok_def checkpoint_key_def)

lemma case_option_Inl: "(case x of None \<Rightarrow> Inl e | Some y \<Rightarrow> f y) = Inr z \<longleftrightarrow> (\<exists>y. x = Some y \<and> f y = Inr z)"
  by (cases x) simp_all

definition checkpoint_appended :: "js_env \<Rightarrow> (string \<Rightarrow> string \<Rightarrow> bool) \<Rightarrow> ('m) runtime_db_scheme \<Rightarrow> ('m) runtime_db_scheme
    \<Rightarrow> checkpoint_row \<Rightarrow> bool" where
  "checkpoint_appended env le db db' x \<longleftrightarrow> db' = db\<lparr>db_checkpoints := db_checkpoints db @ [x]\<rparr>
     \<and> checkpoints_ok (db_checkpoints db') \<and> checkpoint_readable env le x
     \<and> (\<exists>a. getActorRow db (cp_run_id x) (cp_actor_id x) = Some a \<and> cp_generation x = ac_generation a)
     \<and> (case latestCheckpointRow db (cp_run_id x) (cp_actor_id x) of
          None \<Rightarrow> cp_version x = 1
        | Some l \<Rightarrow> cp_version x = cp_version l + 1 \<and> cp_captured_at l \<le> cp_captured_at x \<and> cp_created_at l \<le> cp_created_at x)"

lemma checkpoint_effect:
  assumes "writeDagActorCheckpoint env le clock i db = Inr (db', x, c)"
  shows "checkpoint_appended env le db db' x \<and> checkpointFromRow env le x = (Inr (x, c) :: lease_conflict err + _)
    \<and> cp_run_id x = js_trim (wc_run_id i) \<and> cp_actor_id x = js_trim (wc_actor_id i)
    \<and> (\<forall>v. wc_expected_version i = Some (num_of_int v) \<longrightarrow> cp_version x = v + 1)"
  using assms unfolding writeDagActorCheckpoint_def Let_def
  apply (simp only: lease_effect_simps assertBounded_Inr case_option_Inl)
  apply (elim exE conjE)
  apply hypsubst
  apply (frule (1) checkpoint_inserted)
     apply (simp only: checkpoint_row.simps)+
  apply (frule checkpointFromRow_row)
  apply hypsubst
  apply (auto simp: checkpoint_appended_def checkpoint_readable_def bind_inv opt_matches_def split: option.splits)
  done

section \<open>Workers\<close>

definition worker_readable :: "js_env \<Rightarrow> worker_row \<Rightarrow> bool" where
  "worker_readable env r \<longleftrightarrow> provisionedWorkerFromRow env r = (Inr r :: lease_conflict err + _)"

definition worker_trimmed :: "worker_row \<Rightarrow> bool" where
  "worker_trimmed r \<longleftrightarrow> js_trim (pw_node_id r) = pw_node_id r \<and> js_trim (pw_worker_id r) = pw_worker_id r
     \<and> js_trim (pw_container_id r) = pw_container_id r \<and> js_trim (pw_docker_node_id r) = pw_docker_node_id r"

lemma workerFromRow_trim:
  "provisionedWorkerFromRow env r = Inr w \<Longrightarrow>
   w = r\<lparr>pw_node_id := js_trim (pw_node_id r), pw_worker_id := js_trim (pw_worker_id r),
         pw_container_id := js_trim (pw_container_id r), pw_docker_node_id := js_trim (pw_docker_node_id r)\<rparr>"
  unfolding provisionedWorkerFromRow_def
  by (simp only: lease_effect_simps assertBounded_Inr, elim exE conjE, hypsubst, rule refl)

lemma workerFromRow_self:
  assumes "provisionedWorkerFromRow env r = (Inr w :: lease_conflict err + _)" and "worker_trimmed r"
  shows "w = r \<and> worker_readable env r"
  using assms workerFromRow_trim [OF assms(1)] by (cases r) (simp add: worker_readable_def worker_trimmed_def)

lemma worker_readable_trimmed: "worker_readable env r \<Longrightarrow> worker_trimmed r"
  unfolding worker_readable_def by (drule workerFromRow_trim) (cases r, simp add: worker_trimmed_def)

lemma getWorkerRow_key:
  "getProvisionedWorkerRow db run actor g k = Some r \<Longrightarrow> worker_key r = (run, actor, g, k) \<and> r \<in> set (db_workers db)"
  unfolding getProvisionedWorkerRow_def by (drule find_SomeD) (simp add: worker_key_def)

lemma worker_row_unique:
  "workers_ok rows \<Longrightarrow> r \<in> set rows \<Longrightarrow> s \<in> set rows \<Longrightarrow> worker_key r = worker_key s \<Longrightarrow> r = s"
  unfolding workers_ok_def workers_unique_def using unique_on_eq [of "\<lambda>_. True" worker_key rows r s] by blast

definition worker_next :: "worker_status \<Rightarrow> worker_status \<Rightarrow> bool" where
  "worker_next s t \<longleftrightarrow> worker_transition_allowed s t"

definition worker_identity :: "worker_row \<Rightarrow> worker_row \<Rightarrow> bool" where
  "worker_identity r r' \<longleftrightarrow> worker_key r' = worker_key r \<and> pw_node_id r' = pw_node_id r
     \<and> pw_container_id r' = pw_container_id r \<and> pw_docker_node_id r' = pw_docker_node_id r
     \<and> pw_registered_at r' = pw_registered_at r"

definition worker_evolves :: "worker_row \<Rightarrow> worker_row \<Rightarrow> bool" where
  "worker_evolves r r' \<longleftrightarrow> r' = r \<or> (worker_identity r r' \<and> pw_updated_at r \<le> pw_updated_at r'
     \<and> pw_version r < pw_version r' \<and> worker_next\<^sup>+\<^sup>+ (pw_status r) (pw_status r'))"

lemma worker_evolves_refl [simp]: "worker_evolves r r"
  by (simp add: worker_evolves_def)

lemma worker_evolves_trans: "worker_evolves r r' \<Longrightarrow> worker_evolves r' r'' \<Longrightarrow> worker_evolves r r''"
  unfolding worker_evolves_def worker_identity_def by (auto intro: tranclp_trans)

lemma released_stuck: "worker_next\<^sup>+\<^sup>+ Released s \<Longrightarrow> False"
  by (drule tranclpD) (auto simp: worker_next_def elim: worker_transition_allowed.elims)

definition worker_set :: "worker_row \<Rightarrow> worker_row \<Rightarrow> ('m) runtime_db_scheme \<Rightarrow> ('m) runtime_db_scheme" where
  "worker_set r r' db = db\<lparr>db_workers := rewritten (\<lambda>s. s = r) (\<lambda>_. r') (db_workers db)\<rparr>"

definition worker_wrote :: "js_env \<Rightarrow> ('m) runtime_db_scheme \<Rightarrow> ('m) runtime_db_scheme \<Rightarrow> worker_row \<Rightarrow> worker_row \<Rightarrow> bool" where
  "worker_wrote env db db' r x \<longleftrightarrow> r \<in> set (db_workers db) \<and> db' = worker_set r x db \<and> workers_ok (db_workers db')
     \<and> worker_readable env x \<and> worker_evolves r x"

lemma worker_inserted:
  assumes "workers_ok (db_workers db @ [x])"
    and "getProvisionedWorkerRow (db\<lparr>db_workers := db_workers db @ [x]\<rparr>) run actor g k = Some r"
    and "worker_key x = (run, actor, g, k)"
  shows "r = x"
  using worker_row_unique [OF assms(1), of r x] getWorkerRow_key [OF assms(2)] assms(3) by simp

lemma worker_update:
  assumes ok: "workers_ok (db_workers db)" and cur: "getProvisionedWorkerRow db run actor g k = Some r"
    and ok': "workers_ok (rewritten P f (db_workers db))" and n: "length (filter P (db_workers db)) = 1"
    and P: "\<And>s. P s \<Longrightarrow> worker_key s = (run, actor, g, k)" and f: "worker_key (f r) = worker_key r"
    and get: "getProvisionedWorkerRow (db\<lparr>db_workers := rewritten P f (db_workers db)\<rparr>) run actor g k = Some y"
  shows "y = f r \<and> P r \<and> r \<in> set (db_workers db) \<and> db\<lparr>db_workers := rewritten P f (db_workers db)\<rparr> = worker_set r y db"
proof -
  have r: "worker_key r = (run, actor, g, k)" "r \<in> set (db_workers db)" using getWorkerRow_key [OF cur] by simp_all
  have "P r \<and> rewritten P f (db_workers db) = rewritten (\<lambda>s. s = r) (\<lambda>_. f r) (db_workers db)"
    using ok n P r by (intro rewritten_unique [where key = worker_key]) (simp_all add: workers_ok_def workers_unique_def)
  then have Pr: "P r" and rows: "rewritten P f (db_workers db) = rewritten (\<lambda>s. s = r) (\<lambda>_. f r) (db_workers db)" by simp_all
  have "f r \<in> set (rewritten P f (db_workers db))" using r(2) Pr by (auto simp: rewritten_def)
  with worker_row_unique [OF ok', of y "f r"] getWorkerRow_key [OF get] f r(1) have "y = f r" by simp
  with Pr rows r(2) show ?thesis by (simp add: worker_set_def)
qed

lemma worker_row_read:
  "\<forall>r \<in> set (db_workers db). worker_readable env r \<Longrightarrow> getProvisionedWorkerRow db run actor g k = Some r
   \<Longrightarrow> provisionedWorkerFromRow env r = (Inr w :: lease_conflict err + _) \<Longrightarrow> w = r"
  by (drule getWorkerRow_key) (auto simp: worker_readable_def)

lemma worker_wroteI:
  assumes "workers_ok (db_workers db)" and "\<forall>r \<in> set (db_workers db). worker_readable env r" and "getProvisionedWorkerRow db run actor g k = Some r"
    and "workers_ok (rewritten P f (db_workers db))" and "\<not> length (filter P (db_workers db)) \<noteq> 1"
    and "getProvisionedWorkerRow (db\<lparr>db_workers := rewritten P f (db_workers db)\<rparr>) run actor g k = Some y"
    and "provisionedWorkerFromRow env y = (Inr w :: lease_conflict err + _)"
    and "\<And>s. P s \<Longrightarrow> worker_key s = (run, actor, g, k)"
    and "worker_readable env r \<Longrightarrow> worker_key r = (run, actor, g, k) \<Longrightarrow> P r \<Longrightarrow> worker_trimmed (f r) \<and> worker_evolves r (f r) \<and> Q r (f r)"
    and "worker_key (f r) = worker_key r"
  shows "worker_wrote env db (db\<lparr>db_workers := rewritten P f (db_workers db)\<rparr>) r w \<and> Q r w"
proof -
  note upd = worker_update [where P = P and f = f, OF assms(1,3,4) _ assms(8,10,6)]
  then have w: "y = f r" "P r" "r \<in> set (db_workers db)" "db\<lparr>db_workers := rewritten P f (db_workers db)\<rparr> = worker_set r y db"
    using assms(5) by simp_all
  from arg_cong [OF w(4), of db_workers] have "db_workers (worker_set r y db) = rewritten P f (db_workers db)" by simp
  with w assms(2,4,9) workerFromRow_self [OF assms(7)] getWorkerRow_key [OF assms(3)] show ?thesis
    unfolding worker_wrote_def by simp
qed

definition transitioned :: "transition_worker_input \<Rightarrow> worker_row \<Rightarrow> worker_row \<Rightarrow> bool" where
  "transitioned i r w \<longleftrightarrow> worker_next (pw_status r) (pw_status w) \<and> pw_status r = tw_expected_status i
     \<and> pw_status w = tw_status i \<and> pw_version w = pw_version r + 1 \<and> worker_identity r w
     \<and> pw_run_id r = js_trim (tw_run_id i) \<and> pw_actor_id r = js_trim (tw_actor_id i)
     \<and> pw_worker_id r = js_trim (tw_worker_id i) \<and> tw_generation i = num_of_int (pw_generation r)"

lemma worker_moved:
  assumes "worker_readable env r" and "worker_key r = (js_trim (tw_run_id i), js_trim (tw_actor_id i), g, js_trim (tw_worker_id i))"
    and "\<not> pw_status r \<noteq> tw_expected_status i" and "\<not> now < pw_updated_at r"
    and "\<not> \<not> worker_transition_allowed (tw_expected_status i) (tw_status i)" and "JNum (tw_generation i) = js_int g"
  shows "worker_trimmed (r\<lparr>pw_status := tw_status i, pw_release_requested_at := rel, pw_terminal_at := term,
        pw_failure_json := fj, pw_updated_at := now, pw_version := pw_version r + 1\<rparr>)
    \<and> worker_evolves r (r\<lparr>pw_status := tw_status i, pw_release_requested_at := rel, pw_terminal_at := term,
        pw_failure_json := fj, pw_updated_at := now, pw_version := pw_version r + 1\<rparr>)
    \<and> transitioned i r (r\<lparr>pw_status := tw_status i, pw_release_requested_at := rel, pw_terminal_at := term,
        pw_failure_json := fj, pw_updated_at := now, pw_version := pw_version r + 1\<rparr>)"
  using assms worker_readable_trimmed [OF assms(1)]
  by (auto simp: transitioned_def worker_evolves_def worker_next_def worker_identity_def worker_key_def worker_trimmed_def)

lemma transition_effect:
  assumes "workers_ok (db_workers db)" and "\<forall>r \<in> set (db_workers db). worker_readable env r"
    and "transitionDagProvisionedWorker env clock i db = Inr (db', w)"
  shows "\<exists>r. worker_wrote env db db' r w \<and> transitioned i r w"
  using assms(3) unfolding transitionDagProvisionedWorker_def workerAfter_def Let_def
  apply (simp only: lease_effect_simps assertBounded_Inr case_option_Inl assertPositive_Inr)
  apply (elim exE conjE)
  apply hypsubst
  apply (frule (1) worker_row_read [OF assms(2)])
  apply hypsubst
  apply (rule exI)
  apply (rule worker_wroteI [OF assms(1,2)], assumption+)
    apply (simp add: worker_key_def)
   apply (rule worker_moved)
         apply assumption+
  apply (simp add: worker_key_def)
  done

lemma case_option_or: "(case x of None \<Rightarrow> e | Some y \<Rightarrow> f y) = z \<longleftrightarrow> (x = None \<and> e = z) \<or> (\<exists>y. x = Some y \<and> f y = z)"
  by (cases x) simp_all

text \<open>A registration is for the current lease of the actor, whose target is the worker.\<close>

definition worker_leased :: "('m) runtime_db_scheme \<Rightarrow> worker_row \<Rightarrow> bool" where
  "worker_leased db w \<longleftrightarrow> (\<exists>a l. getActorRow db (pw_run_id w) (pw_actor_id w) = Some a \<and> ac_node_id a = pw_node_id w
     \<and> getLeaseRow db (pw_run_id w) (pw_actor_id w) = Some l \<and> lr_state l = Leased
     \<and> lr_generation l = pw_generation w \<and> lr_target_id l = Some (pw_worker_id w))"

definition worker_for :: "register_worker_input \<Rightarrow> worker_row \<Rightarrow> bool" where
  "worker_for i w \<longleftrightarrow> pw_run_id w = js_trim (rw_run_id i) \<and> pw_actor_id w = js_trim (rw_actor_id i)
     \<and> rw_generation i = num_of_int (pw_generation w) \<and> pw_worker_id w = js_trim (rw_worker_id i)
     \<and> pw_node_id w = js_trim (rw_node_id i) \<and> pw_container_id w = js_trim (rw_container_id i)
     \<and> pw_docker_node_id w = js_trim (rw_docker_node_id i)"

definition worker_added :: "js_env \<Rightarrow> ('m) runtime_db_scheme \<Rightarrow> ('m) runtime_db_scheme \<Rightarrow> worker_row \<Rightarrow> bool" where
  "worker_added env db db' w \<longleftrightarrow> db' = db\<lparr>db_workers := db_workers db @ [w]\<rparr> \<and> workers_ok (db_workers db')
     \<and> worker_readable env w \<and> pw_status w = Active \<and> pw_version w = 1"

lemma register_worker_effect:
  assumes "lease_inv db" and "\<forall>r \<in> set (db_workers db). worker_readable env r"
    and "registerDagProvisionedWorker env clock i db = Inr (db', w)"
  shows "worker_leased db w \<and> worker_for i w \<and> ((db' = db \<and> w \<in> set (db_workers db)) \<or> worker_added env db db' w)"
  using assms(3) unfolding registerDagProvisionedWorker_def workerAfter_def Let_def
  apply (simp only: lease_effect_simps assertBounded_Inr case_option_Inl assertPositive_Inr requireLease_inv [OF assms(1)])
  apply (elim exE conjE)
  apply (simp only: case_option_or)
  apply (erule disjE)
   apply (simp only: lease_effect_simps case_option_Inl)
   apply (elim exE conjE)
   apply hypsubst
   apply (frule (1) worker_inserted)
    apply (simp only: worker_key_def worker_row.simps)
   apply hypsubst
   apply (frule workerFromRow_self)
    apply (simp add: worker_trimmed_def)
   apply (elim conjE)
   apply hypsubst
   apply (simp add: worker_leased_def worker_for_def worker_added_def)
  apply (simp only: lease_effect_simps)
  apply (elim exE conjE)
  apply (frule (1) worker_row_read [OF assms(2)])
  apply hypsubst
  apply (frule getWorkerRow_key)
  apply (simp add: worker_leased_def worker_for_def worker_key_def)
  done

end
