(* ===== verification/Actor_Runtime_Theorems.thy ===== *)
theory Actor_Runtime_Theorems
  imports Actor_Runtime_Props
begin

text \<open>
  The properties of checkpoints, workers and deletion. \<open>keep_step\<close> is every operation but the deletion of
  an expired actor, so that rows are never removed along it; \<open>runtime_step\<close> adds the deletion.
\<close>

section \<open>The step relations\<close>

inductive keep_step :: "js_env \<Rightarrow> (string \<Rightarrow> string option) \<Rightarrow> (string \<Rightarrow> string \<Rightarrow> bool)
    \<Rightarrow> ('m) runtime_db_scheme \<Rightarrow> ('m) runtime_db_scheme \<Rightarrow> bool" for env penv le where
  ks_lease: "lease_step env penv db db' \<Longrightarrow> keep_step env penv le db db'"
| ks_checkpoint: "writeDagActorCheckpoint env le clock i db = Inr (db', x, c) \<Longrightarrow> keep_step env penv le db db'"
| ks_register: "registerDagProvisionedWorker env clock r db = Inr (db', w) \<Longrightarrow> keep_step env penv le db db'"
| ks_transition: "transitionDagProvisionedWorker env clock t db = Inr (db', w) \<Longrightarrow> keep_step env penv le db db'"

inductive runtime_step :: "js_env \<Rightarrow> (string \<Rightarrow> string option) \<Rightarrow> (string \<Rightarrow> string \<Rightarrow> bool)
    \<Rightarrow> ('m) runtime_db_scheme \<Rightarrow> ('m) runtime_db_scheme \<Rightarrow> bool" for env penv le where
  rs_keep: "keep_step env penv le db db' \<Longrightarrow> runtime_step env penv le db db'"
| rs_delete: "deleteExpiredDagActorRuntime clock run actor now db = Inr (db', d) \<Longrightarrow> runtime_step env penv le db db'"

definition runtime_init :: "('m) runtime_db_scheme \<Rightarrow> bool" where
  "runtime_init db \<longleftrightarrow> lease_init db \<and> db_checkpoints db = [] \<and> db_workers db = []"

text \<open>A worker belongs to an actor at its node and to a generation of the lease that has been reached;
  while that generation is leased, the worker is its target.\<close>

definition worker_owned :: "('m) runtime_db_scheme \<Rightarrow> worker_row \<Rightarrow> bool" where
  "worker_owned db w \<longleftrightarrow> (\<exists>a l. getActorRow db (pw_run_id w) (pw_actor_id w) = Some a \<and> ac_node_id a = pw_node_id w
     \<and> getLeaseRow db (pw_run_id w) (pw_actor_id w) = Some l \<and> pw_generation w \<le> lr_generation l
     \<and> (lr_state l = Leased \<longrightarrow> lr_generation l = pw_generation w \<longrightarrow> lr_target_id l = Some (pw_worker_id w)))"

definition checkpoint_owned :: "('m) runtime_db_scheme \<Rightarrow> checkpoint_row \<Rightarrow> bool" where
  "checkpoint_owned db r \<longleftrightarrow> (\<exists>a. getActorRow db (cp_run_id r) (cp_actor_id r) = Some a \<and> cp_generation r \<le> ac_generation a)"

definition worker_generation :: "worker_row \<Rightarrow> string \<times> string \<times> int" where
  "worker_generation w = (pw_run_id w, pw_actor_id w, pw_generation w)"

definition checkpoints_inv :: "js_env \<Rightarrow> (string \<Rightarrow> string \<Rightarrow> bool) \<Rightarrow> ('m) runtime_db_scheme \<Rightarrow> bool" where
  "checkpoints_inv env le db \<longleftrightarrow> checkpoints_ok (db_checkpoints db)
     \<and> (\<forall>r \<in> set (db_checkpoints db). checkpoint_readable env le r \<and> checkpoint_owned db r)
     \<and> (\<forall>run actor. checkpoint_history (actor_checkpoints db run actor))"

definition workers_inv :: "js_env \<Rightarrow> ('m) runtime_db_scheme \<Rightarrow> bool" where
  "workers_inv env db \<longleftrightarrow> workers_ok (db_workers db) \<and> unique_on (\<lambda>_. True) worker_generation (db_workers db)
     \<and> (\<forall>w \<in> set (db_workers db). worker_readable env w \<and> worker_owned db w)"

definition runtime_inv :: "js_env \<Rightarrow> (string \<Rightarrow> string \<Rightarrow> bool) \<Rightarrow> ('m) runtime_db_scheme \<Rightarrow> bool" where
  "runtime_inv env le db \<longleftrightarrow> lease_store_inv env db \<and> checkpoints_inv env le db \<and> workers_inv env db"

section \<open>Effects of a step\<close>

inductive runtime_effect :: "js_env \<Rightarrow> (string \<Rightarrow> string \<Rightarrow> bool) \<Rightarrow> ('m) runtime_db_scheme \<Rightarrow> ('m) runtime_db_scheme \<Rightarrow> bool"
  for env le where
  re_lease: "lease_effect env db db' \<Longrightarrow> runtime_effect env le db db'"
| re_checkpoint: "checkpoint_appended env le db db' x \<Longrightarrow> runtime_effect env le db db'"
| re_added: "worker_leased db w \<Longrightarrow> worker_added env db db' w \<Longrightarrow> runtime_effect env le db db'"
| re_wrote: "worker_wrote env db db' r x \<Longrightarrow> runtime_effect env le db db'"

lemma keep_step_effect:
  assumes "keep_step env penv le db db'" and "runtime_inv env le db"
  shows "\<exists>db1. runtime_effect env le db db1 \<and> runtime_effect env le db1 db'"
  using assms
proof (induction rule: keep_step.induct)
  case (ks_lease db db')
  then show ?case using lease_step_effect unfolding runtime_inv_def lease_store_inv_def by (blast intro: re_lease)
next
  case (ks_checkpoint clock i db db' x c)
  then show ?case by (blast dest: checkpoint_effect intro: re_lease le_same re_checkpoint)
next
  case (ks_register clock r db db' w)
  then show ?case using register_worker_effect
    unfolding runtime_inv_def lease_store_inv_def workers_inv_def by (blast intro: re_lease le_same re_added)
next
  case (ks_transition clock t db db' w)
  then show ?case using transition_effect
    unfolding runtime_inv_def workers_inv_def by (blast intro: re_lease le_same re_wrote)
qed

text \<open>The operations on actors and leases leave the other tables alone.\<close>

lemma lease_effect_frame:
  assumes "lease_effect env db db'"
  shows "db_checkpoints db' = db_checkpoints db \<and> db_workers db' = db_workers db"
  using assms
proof (induction rule: lease_effect.induct)
  case (le_actor db db')
  then show ?case by (induction rule: db_effect.induct) (auto simp: actor_write_def command_write_def)
qed (auto simp: lease_wrote_def lease_set_def)

text \<open>No effect removes or changes an actor or a lease other than along its order.\<close>

lemma runtime_effect_owner:
  assumes "runtime_effect env le db db'"
  shows "getActorRow db run actor = Some a \<Longrightarrow> \<exists>a'. getActorRow db' run actor = Some a' \<and> actor_evolves a a'"
    and "getLeaseRow db run actor = Some l \<Longrightarrow> \<exists>l'. getLeaseRow db' run actor = Some l' \<and> lease_evolves l l'"
  using assms
  by (induction rule: runtime_effect.induct)
     (auto dest: lease_effect_actor lease_effect_row
       simp: checkpoint_appended_def worker_added_def worker_wrote_def worker_set_def getActorRow_def getLeaseRow_def)

lemma checkpoint_owned_mono: "runtime_effect env le db db' \<Longrightarrow> checkpoint_owned db r \<Longrightarrow> checkpoint_owned db' r"
  unfolding checkpoint_owned_def by (auto dest!: runtime_effect_owner(1) simp: actor_evolves_def intro: order_trans)

lemma worker_owned_mono:
  assumes "runtime_effect env le db db'" and "worker_owned db w"
  shows "worker_owned db' w"
proof -
  from assms(2) obtain a l where a: "getActorRow db (pw_run_id w) (pw_actor_id w) = Some a" "ac_node_id a = pw_node_id w"
    and l: "getLeaseRow db (pw_run_id w) (pw_actor_id w) = Some l" "pw_generation w \<le> lr_generation l"
      "lr_state l = Leased \<Longrightarrow> lr_generation l = pw_generation w \<Longrightarrow> lr_target_id l = Some (pw_worker_id w)"
    unfolding worker_owned_def by blast
  from runtime_effect_owner [OF assms(1)] a(1) l(1) obtain a' l' where
    "getActorRow db' (pw_run_id w) (pw_actor_id w) = Some a'" "actor_evolves a a'"
    "getLeaseRow db' (pw_run_id w) (pw_actor_id w) = Some l'" "lease_evolves l l'" by blast
  with a(2) l(2,3) show ?thesis unfolding worker_owned_def actor_evolves_def lease_evolves_def by fastforce
qed

lemma runtime_effect_store:
  assumes "runtime_effect env le db db'" and "lease_store_inv env db"
  shows "lease_store_inv env db'"
  using assms
proof (induction rule: runtime_effect.induct)
  case (re_lease db db')
  then show ?case by (rule lease_effect_store_inv)
qed (auto simp: lease_store_inv_def lease_inv_def leases_owned_def actor_inv_def command_owned_def actor_of_def getActorRow_def
      checkpoint_appended_def worker_added_def worker_wrote_def worker_set_def)

section \<open>The invariants\<close>

lemma actor_checkpoints_append:
  "actor_checkpoints (db\<lparr>db_checkpoints := db_checkpoints db @ [x]\<rparr>) run actor
   = actor_checkpoints db run actor @ (if cp_run_id x = run \<and> cp_actor_id x = actor then [x] else [])"
  by (simp add: actor_checkpoints_def)

lemma appended_history:
  assumes "checkpoint_appended env le db db' x" and "checkpoints_inv env le db"
  shows "checkpoint_history (actor_checkpoints db (cp_run_id x) (cp_actor_id x) @ [x])"
proof -
  let ?rs = "actor_checkpoints db (cp_run_id x) (cp_actor_id x)"
  have h: "checkpoint_history ?rs" using assms(2) by (simp add: checkpoints_inv_def)
  have own: "cp_generation l \<le> cp_generation x" if "l \<in> set ?rs" for l
    using assms that by (auto simp: checkpoint_appended_def checkpoints_inv_def checkpoint_owned_def actor_checkpoints_def)
  show ?thesis
  proof (rule history_append [OF h])
    show "cp_version x = int (length ?rs) + 1"
      using assms(1) latest_last [OF h] history_last_version [OF h]
      by (cases "?rs = []") (auto simp: checkpoint_appended_def)
    show "cp_captured_at (last ?rs) \<le> cp_captured_at x \<and> cp_created_at (last ?rs) \<le> cp_created_at x
        \<and> cp_generation (last ?rs) \<le> cp_generation x" if "?rs \<noteq> []"
      using assms(1) latest_last [OF h] that own [of "last ?rs"] by (auto simp: checkpoint_appended_def)
  qed
qed

lemma runtime_effect_checkpoints:
  assumes "runtime_effect env le db db'" and "checkpoints_inv env le db"
  shows "checkpoints_inv env le db'"
proof -
  have same: ?thesis if "db_checkpoints db' = db_checkpoints db"
    using that assms checkpoint_owned_mono [OF assms(1)] by (auto simp: checkpoints_inv_def actor_checkpoints_def)
  from assms(1) show ?thesis
  proof cases
    case re_lease
    then show ?thesis using lease_effect_frame same by blast
  next
    case (re_checkpoint x)
    then have db': "db' = db\<lparr>db_checkpoints := db_checkpoints db @ [x]\<rparr>" "checkpoints_ok (db_checkpoints db')"
      "checkpoint_readable env le x" unfolding checkpoint_appended_def by blast+
    moreover have "checkpoint_owned db' x"
      using re_checkpoint by (auto simp: checkpoint_appended_def checkpoint_owned_def getActorRow_def)
    moreover have "checkpoint_history (actor_checkpoints db' run actor)" for run actor
      using appended_history [OF re_checkpoint assms(2)] assms(2) unfolding db'(1) actor_checkpoints_append checkpoints_inv_def by auto
    ultimately show ?thesis
      using assms(2) checkpoint_owned_mono [OF assms(1)] by (auto simp: checkpoints_inv_def)
  next
    case (re_added w)
    then show ?thesis by (intro same) (auto simp: worker_added_def)
  next
    case (re_wrote r x)
    then show ?thesis by (intro same) (auto simp: worker_wrote_def worker_set_def)
  qed
qed

lemma worker_evolves_key: "worker_evolves r x \<Longrightarrow> worker_key x = worker_key r \<and> worker_identity r x"
  by (auto simp: worker_evolves_def worker_identity_def)

lemma worker_owned_cong:
  "worker_identity r x \<Longrightarrow> worker_owned db x = worker_owned db r"
  by (simp add: worker_identity_def worker_owned_def worker_key_def)

lemma leased_generation_fresh:
  assumes "workers_inv env db" and "worker_leased db w" and "workers_ok (db_workers db @ [w])" and "r \<in> set (db_workers db)"
  shows "worker_generation r \<noteq> worker_generation w"
proof
  assume g: "worker_generation r = worker_generation w"
  have "worker_owned db r" using assms(1,4) by (simp add: workers_inv_def)
  with assms(2) g have "pw_worker_id r = pw_worker_id w"
    by (auto simp: worker_leased_def worker_owned_def worker_generation_def)
  with g have "worker_key r = worker_key w" by (simp add: worker_key_def worker_generation_def)
  with assms(3,4) show False by (simp add: workers_ok_def workers_unique_def unique_on_insert)
qed

lemma runtime_effect_workers:
  assumes "runtime_effect env le db db'" and "workers_inv env db"
  shows "workers_inv env db'"
proof -
  have same: ?thesis if "db_workers db' = db_workers db"
    using that assms worker_owned_mono [OF assms(1)] by (auto simp: workers_inv_def)
  from assms(1) show ?thesis
  proof cases
    case re_lease
    then show ?thesis using lease_effect_frame same by blast
  next
    case (re_checkpoint x)
    then show ?thesis by (intro same) (auto simp: checkpoint_appended_def)
  next
    case (re_added w)
    then have "worker_owned db w" by (auto simp: worker_leased_def worker_owned_def)
    with worker_owned_mono [OF assms(1)] assms(2) re_added leased_generation_fresh [OF assms(2) re_added(1)] show ?thesis
      by (auto simp: workers_inv_def worker_added_def unique_on_insert)
  next
    case (re_wrote r x)
    then have r: "r \<in> set (db_workers db)" "workers_ok (db_workers db')" "worker_readable env x" "worker_evolves r x"
      and db': "db_workers db' = rewritten (\<lambda>s. s = r) (\<lambda>_. x) (db_workers db)"
      by (auto simp: worker_wrote_def worker_set_def)
    have id: "worker_identity r x" using worker_evolves_key [OF r(4)] by simp
    then have "unique_on (\<lambda>_. True) worker_generation (db_workers db')"
      using assms(2) unfolding db'
      by (intro unique_on_update) (auto simp: workers_inv_def worker_identity_def worker_generation_def worker_key_def)
    moreover have "worker_owned db' x" unfolding worker_owned_cong [OF id]
      using worker_owned_mono [OF assms(1)] assms(2) r(1) by (simp add: workers_inv_def)
    ultimately show ?thesis using worker_owned_mono [OF assms(1)] assms(2) r db' unfolding workers_inv_def rewritten_def by auto
  qed
qed

lemma keep_step_inv: "keep_step env penv le db db' \<Longrightarrow> runtime_inv env le db \<Longrightarrow> runtime_inv env le db'"
  using keep_step_effect runtime_effect_store runtime_effect_checkpoints runtime_effect_workers
  unfolding runtime_inv_def by metis

section \<open>Deletion\<close>

definition actor_removed :: "string \<Rightarrow> string \<Rightarrow> ('m) runtime_db_scheme \<Rightarrow> ('m) runtime_db_scheme" where
  "actor_removed run actor db
   = cascade_actor run actor (db\<lparr>db_actors := filter (\<lambda>r. \<not> (ac_run_id r = run \<and> ac_actor_id r = actor)) (db_actors db)\<rparr>)"

definition deletable :: "int \<Rightarrow> lease_row \<Rightarrow> bool" where
  "deletable now l \<longleftrightarrow> lr_state l \<noteq> Leased \<and> \<not> lr_pinned l \<and> the (lr_retained_until l) \<le> now"

lemma idle_retained: "lease_valid l \<Longrightarrow> lr_state l \<noteq> Leased \<Longrightarrow> \<exists>u. lr_retained_until l = Some u"
  by (auto simp: lease_valid_iff idle_fields_def)

lemma delete_matches:
  assumes "lease_inv db" and "actors_ok (db_actors db)" and "getLeaseRow db run actor = Some l"
    and "getActorRow db run actor \<noteq> None" and "deletable now l" and "\<not> pending_worker db run actor"
  shows "list_ex (\<lambda>r. lr_run_id r = run \<and> lr_actor_id r = actor \<and> lr_state r \<noteq> Leased \<and> \<not> lr_pinned r
        \<and> (case lr_retained_until r of None \<Rightarrow> False | Some u \<Rightarrow> u \<le> now) \<and> lr_version r = lr_version l) (db_leases db)"
    and "length (filter (\<lambda>r. ac_run_id r = run \<and> ac_actor_id r = actor) (db_actors db)) = 1"
proof -
  have "l \<in> set (db_leases db)" "lr_run_id l = run" "lr_actor_id l = actor" using getLeaseRow_key [OF assms(3)] by simp_all
  moreover obtain u where "lr_retained_until l = Some u" "u \<le> now"
    using idle_retained [OF getLeaseRow_valid [OF assms(1,3)]] assms(5) by (auto simp: deletable_def)
  ultimately show "list_ex (\<lambda>r. lr_run_id r = run \<and> lr_actor_id r = actor \<and> lr_state r \<noteq> Leased \<and> \<not> lr_pinned r
        \<and> (case lr_retained_until r of None \<Rightarrow> False | Some u \<Rightarrow> u \<le> now) \<and> lr_version r = lr_version l) (db_leases db)"
    using assms(5) by (auto simp: list_ex_iff deletable_def intro!: bexI [of _ l])
  from assms(4) obtain a where "getActorRow db run actor = Some a" by blast
  from getActorRow_key [OF this] have "filter (\<lambda>r. ac_run_id r = run \<and> ac_actor_id r = actor) (db_actors db) = [a]"
    using assms(2) by (intro filter_unique [where key = actor_key]) (auto simp: actors_ok_def actor_key_def)
  then show "length (filter (\<lambda>r. ac_run_id r = run \<and> ac_actor_id r = actor) (db_actors db)) = 1" by simp
qed

lemma delete_result:
  assumes inv: "lease_store_inv env db"
    and args: "assertBoundedString (JStr rawRun) ''run_id'' 256 = (Inr run :: lease_conflict err + _)"
      "assertBoundedString (JStr rawActor) ''actor_id'' 256 = (Inr actor :: lease_conflict err + _)"
      "assertNow v clock = (Inr now :: lease_conflict err + _)"
  shows "deleteExpiredDagActorRuntime clock rawRun rawActor v db =
    (case getLeaseRow db run actor of
       None \<Rightarrow> Inr (db, Kept Kept_missing)
     | Some l \<Rightarrow>
         if deletable now l \<and> \<not> pending_worker db run actor
         then Inr (actor_removed run actor db, Deleted (length (actor_checkpoints db run actor)))
         else Inr (db, Kept (if lr_state l = Leased then Kept_leased else if lr_pinned l then Kept_pinned
                else if now < the (lr_retained_until l) then Kept_retained else Kept_worker_cleanup_pending)))"
proof -
  have li: "lease_inv db" and ao: "actors_ok (db_actors db)"
    using inv by (simp_all add: lease_store_inv_def actor_inv_def)
  have ids: "js_trim run = run" "run \<noteq> []" "length run \<le> 256" "js_trim actor = actor" "actor \<noteq> []" "length actor \<le> 256"
    using args(1,2) by (auto simp: bind_inv)
  then have get: "getDagActorLease run actor db = Inr (getLeaseRow db run actor)"
    by (simp add: getDagActorLease_inv [OF li])
  show ?thesis
  proof (cases "getLeaseRow db run actor")
    case None
    then show ?thesis by (simp add: deleteExpiredDagActorRuntime_def args get)
  next
    case (Some l)
    show ?thesis
    proof (cases "deletable now l \<and> \<not> pending_worker db run actor")
      case True
      have "getActorRow db run actor \<noteq> None"
        using inv getLeaseRow_key [OF Some] by (auto simp: lease_store_inv_def leases_owned_def)
      note m = delete_matches [OF li ao Some this, of now]
      have "filter (\<lambda>r. ac_actor_id r = actor \<longrightarrow> ac_run_id r \<noteq> run) (db_actors db)
          = filter (\<lambda>r. ac_run_id r = run \<longrightarrow> ac_actor_id r \<noteq> actor) (db_actors db)"
        by (rule filter_cong) auto
      with True Some m show ?thesis
        by (simp add: deleteExpiredDagActorRuntime_def args get sql_delete_def deletable_def actor_removed_def actor_checkpoints_def
            not_less throwIf_def)
    next
      case False
      with Some show ?thesis by (auto simp: deleteExpiredDagActorRuntime_def args get deletable_def)
    qed
  qed
qed

lemma delete_effect:
  assumes "lease_store_inv env db" and "deleteExpiredDagActorRuntime clock rawRun rawActor v db = Inr (db', d)"
  shows "db' = db \<or> (\<exists>run actor. db' = actor_removed run actor db \<and> \<not> pending_worker db run actor)"
proof -
  from assms(2) obtain run actor now where
    "assertBoundedString (JStr rawRun) ''run_id'' 256 = (Inr run :: lease_conflict err + _)"
    "assertBoundedString (JStr rawActor) ''actor_id'' 256 = (Inr actor :: lease_conflict err + _)"
    "assertNow v clock = (Inr now :: lease_conflict err + _)"
    unfolding deleteExpiredDagActorRuntime_def by (simp only: bindE_Inr) blast
  from delete_result [OF assms(1) this] assms(2) show ?thesis
    by (auto split: option.splits if_splits)
qed

lemma removed_other:
  assumes "(r, a) \<noteq> (run, actor)"
  shows "getActorRow (actor_removed run actor db) r a = getActorRow db r a"
    and "getLeaseRow (actor_removed run actor db) r a = getLeaseRow db r a"
    and "actor_checkpoints (actor_removed run actor db) r a = actor_checkpoints db r a"
proof -
  have f: "find (\<lambda>x. \<not> (k x = run \<and> k' x = actor) \<and> k x = r \<and> k' x = a) xs = find (\<lambda>x. k x = r \<and> k' x = a) xs" for k k' xs
    using assms by (intro arg_cong2 [where f = find] ext) auto
  show "getActorRow (actor_removed run actor db) r a = getActorRow db r a"
    using f [of ac_run_id ac_actor_id] by (simp add: getActorRow_def actor_removed_def cascade_actor_def find_filter)
  show "getLeaseRow (actor_removed run actor db) r a = getLeaseRow db r a"
    using f [of lr_run_id lr_actor_id] by (simp add: getLeaseRow_def actor_removed_def cascade_actor_def find_filter)
  show "actor_checkpoints (actor_removed run actor db) r a = actor_checkpoints db r a"
    using assms unfolding actor_checkpoints_def actor_removed_def cascade_actor_def by (auto intro: filter_cong)
qed

lemma removed_self:
  "getActorRow (actor_removed run actor db) run actor = None"
  "getLeaseRow (actor_removed run actor db) run actor = None"
  "actor_checkpoints (actor_removed run actor db) run actor = []"
  by (auto simp: getActorRow_def getLeaseRow_def actor_checkpoints_def actor_removed_def cascade_actor_def find_filter
      find_None_iff filter_empty_conv)

lemma removed_tables:
  "db_actors (actor_removed run actor db) = filter (\<lambda>r. (ac_run_id r, ac_actor_id r) \<noteq> (run, actor)) (db_actors db)"
  "db_commands (actor_removed run actor db) = filter (\<lambda>r. (cm_run_id r, cm_actor_id r) \<noteq> (run, actor)) (db_commands db)"
  "db_leases (actor_removed run actor db) = filter (\<lambda>r. (lr_run_id r, lr_actor_id r) \<noteq> (run, actor)) (db_leases db)"
  "db_checkpoints (actor_removed run actor db) = filter (\<lambda>r. (cp_run_id r, cp_actor_id r) \<noteq> (run, actor)) (db_checkpoints db)"
  "db_workers (actor_removed run actor db) = filter (\<lambda>r. (pw_run_id r, pw_actor_id r) \<noteq> (run, actor)) (db_workers db)"
  by (simp_all add: actor_removed_def cascade_actor_def)

lemma removed_inv:
  assumes "runtime_inv env le db"
  shows "runtime_inv env le (actor_removed run actor db)"
proof -
  let ?db = "actor_removed run actor db"
  have "actors_ok (db_actors ?db)" "commands_ok (db_commands ?db)" "leases_ok (db_leases ?db)"
    "checkpoints_ok (db_checkpoints ?db)" "workers_ok (db_workers ?db)"
    "unique_on (\<lambda>_. True) worker_generation (db_workers ?db)"
    using assms unfolding removed_tables
    by (auto simp: runtime_inv_def lease_store_inv_def actor_inv_def lease_inv_def checkpoints_inv_def workers_inv_def
        actors_ok_def commands_ok_def leases_ok_def checkpoints_ok_def workers_ok_def workers_unique_def list_all_iff
        intro: unique_on_filter)
  moreover have "checkpoint_history (actor_checkpoints ?db r a)" for r a
    using assms removed_self(3) [of run actor db] removed_other(3) [of r a run actor db]
    by (cases "(r, a) = (run, actor)") (auto simp: runtime_inv_def checkpoints_inv_def)
  ultimately show ?thesis
    using assms unfolding runtime_inv_def lease_store_inv_def actor_inv_def lease_inv_def checkpoints_inv_def workers_inv_def
      leases_owned_def removed_tables
    by (auto simp: command_owned_def actor_of_def checkpoint_owned_def worker_owned_def removed_other)
qed

lemma runtime_step_inv:
  assumes "runtime_step env penv le db db'" and "runtime_inv env le db"
  shows "runtime_inv env le db'"
  using assms
proof (induction rule: runtime_step.induct)
  case (rs_delete clock run actor now db db' d)
  then show ?case using delete_effect [of env db clock run actor now db' d] removed_inv unfolding runtime_inv_def by blast
qed (rule keep_step_inv)

section \<open>The contracts\<close>

lemma getWorkerRow_set:
  assumes "worker_key x = worker_key r"
  shows "getProvisionedWorkerRow (worker_set r x db) run actor g k
    = map_option (\<lambda>s. if s = r then x else s) (getProvisionedWorkerRow db run actor g k)"
  unfolding getProvisionedWorkerRow_def worker_set_def
  using assms by (simp, intro find_update) (auto simp: worker_key_def)

lemma runtime_effect_worker:
  assumes "runtime_effect env le db db'" and "getProvisionedWorkerRow db run actor g k = Some r"
  shows "\<exists>r'. getProvisionedWorkerRow db' run actor g k = Some r' \<and> worker_evolves r r'"
  using assms
proof (induction rule: runtime_effect.induct)
  case (re_lease db db')
  then show ?case by (simp add: getProvisionedWorkerRow_def lease_effect_frame)
next
  case (re_checkpoint db db' x)
  then show ?case by (auto simp: checkpoint_appended_def getProvisionedWorkerRow_def)
next
  case (re_added db w db')
  then show ?case by (auto simp: worker_added_def getProvisionedWorkerRow_def find_append)
next
  case (re_wrote db db' r' x)
  then show ?case using getWorkerRow_set [of x r' db run actor g k] worker_evolves_key [of r' x]
    by (auto simp: worker_wrote_def)
qed

lemma runtime_effect_log:
  assumes "runtime_effect env le db db'"
  shows "\<exists>zs. actor_checkpoints db' run actor = actor_checkpoints db run actor @ zs"
  using assms
proof (induction rule: runtime_effect.induct)
  case (re_lease db db')
  then show ?case by (simp add: actor_checkpoints_def lease_effect_frame)
next
  case (re_checkpoint db db' x)
  then show ?case by (auto simp: checkpoint_appended_def actor_checkpoints_append)
qed (auto simp: actor_checkpoints_def worker_added_def worker_wrote_def worker_set_def)

lemma runtime_init_inv: "runtime_init db \<Longrightarrow> runtime_inv env le db"
  by (simp add: runtime_init_def runtime_inv_def lease_init_inv checkpoints_inv_def workers_inv_def checkpoints_ok_def
      workers_ok_def workers_unique_def actor_checkpoints_def)

lemma keep_step_worker:
  assumes "keep_step env penv le db db'" and "runtime_inv env le db" and "getProvisionedWorkerRow db run actor g k = Some r"
  shows "\<exists>r'. getProvisionedWorkerRow db' run actor g k = Some r' \<and> worker_evolves r r'"
proof -
  obtain db1 where "runtime_effect env le db db1" "runtime_effect env le db1 db'" using keep_step_effect [OF assms(1,2)] by blast
  with assms(3) show ?thesis by (blast dest: runtime_effect_worker intro: worker_evolves_trans)
qed

lemma keep_step_lease:
  assumes "keep_step env penv le db db'" and "runtime_inv env le db" and "getLeaseRow db run actor = Some l"
  shows "\<exists>l'. getLeaseRow db' run actor = Some l' \<and> lease_evolves l l'"
proof -
  obtain db1 where "runtime_effect env le db db1" "runtime_effect env le db1 db'" using keep_step_effect [OF assms(1,2)] by blast
  with assms(3) show ?thesis by (blast dest: runtime_effect_owner(2) intro: lease_evolves_trans)
qed

lemma keep_step_log:
  assumes "keep_step env penv le db db'" and "runtime_inv env le db"
  shows "\<exists>zs. actor_checkpoints db' run actor = actor_checkpoints db run actor @ zs"
proof -
  obtain db1 where "runtime_effect env le db db1" "runtime_effect env le db1 db'" using keep_step_effect [OF assms(1,2)] by blast
  from runtime_effect_log [OF this(1), of run actor] runtime_effect_log [OF this(2), of run actor] show ?thesis
    by (metis append.assoc)
qed

interpretation runtime_store: transition_system runtime_init "runtime_step env penv le" "runtime_inv env le" for env penv le
  by unfold_locales (auto intro: runtime_init_inv runtime_step_inv)

interpretation workers: row_system runtime_init "keep_step env penv le" "runtime_inv env le"
    "\<lambda>db (run, actor, g, k). getProvisionedWorkerRow db run actor g k" worker_evolves for env penv le
  by unfold_locales (auto intro: runtime_init_inv keep_step_inv worker_evolves_trans dest: keep_step_worker)

interpretation checkpoint_logs: row_system runtime_init "keep_step env penv le" "runtime_inv env le"
    "\<lambda>db (run, actor). Some (actor_checkpoints db run actor)" "\<lambda>xs ys. \<exists>zs. ys = xs @ zs" for env penv le
  by unfold_locales (auto intro: runtime_init_inv keep_step_inv keep_step_log)

interpretation kept_leases: row_system runtime_init "keep_step env penv le" "runtime_inv env le"
    "\<lambda>db (run, actor). getLeaseRow db run actor" lease_evolves for env penv le
  by unfold_locales (auto intro: runtime_init_inv keep_step_inv lease_evolves_trans dest: keep_step_lease)

definition worker_rank :: "worker_status \<Rightarrow> nat" where
  "worker_rank s = (case s of Active \<Rightarrow> 0 | Releasing \<Rightarrow> 1 | Worker_failed \<Rightarrow> 1 | Released \<Rightarrow> 2)"

lemma worker_next_rank: "worker_next\<^sup>+\<^sup>+ s t \<Longrightarrow> worker_rank s \<le> worker_rank t"
proof (induction rule: tranclp_induct)
  case (base t)
  then show ?case by (cases s; cases t) (simp_all add: worker_next_def worker_rank_def)
next
  case (step t u)
  then show ?case by (cases t; cases u) (simp_all add: worker_next_def worker_rank_def)
qed

interpretation worker_states: absorbing_system runtime_init "keep_step env penv le" "runtime_inv env le"
    "\<lambda>db (run, actor, g, k). map_option pw_status (getProvisionedWorkerRow db run actor g k)" "\<lambda>s. s = Released" worker_rank
  for env penv le
  by unfold_locales
    (auto simp: worker_evolves_def dest: worker_next_rank released_stuck dest!: keep_step_worker intro: runtime_init_inv keep_step_inv)

text \<open>A registered worker is in the table.\<close>

lemma registered_row:
  assumes "runtime_inv env le db" and "registerDagProvisionedWorker env clock i db = Inr (db', w)"
  shows "getProvisionedWorkerRow db' (pw_run_id w) (pw_actor_id w) (pw_generation w) (pw_worker_id w) = Some w"
proof -
  have inv': "runtime_inv env le db'" by (rule keep_step_inv [OF ks_register [OF assms(2)] assms(1)])
  from register_worker_effect [OF _ _ assms(2)] assms(1) have "w \<in> set (db_workers db')"
    by (auto simp: runtime_inv_def lease_store_inv_def workers_inv_def worker_added_def)
  then obtain v where v: "getProvisionedWorkerRow db' (pw_run_id w) (pw_actor_id w) (pw_generation w) (pw_worker_id w) = Some v"
    by (cases "getProvisionedWorkerRow db' (pw_run_id w) (pw_actor_id w) (pw_generation w) (pw_worker_id w)")
      (auto simp: getProvisionedWorkerRow_def dest: find_NoneD)
  with worker_row_unique [of "db_workers db'" v w] getWorkerRow_key [OF v] inv' \<open>w \<in> set (db_workers db')\<close> show ?thesis
    by (simp add: runtime_inv_def workers_inv_def worker_key_def)
qed

text \<open>The primary key makes the lookup of a row unambiguous.\<close>

lemma getCheckpointRow_of:
  assumes "x \<in> set (actor_checkpoints db run actor)" and "checkpoints_ok (db_checkpoints db)"
  shows "getCheckpointRow db run actor (cp_version x) = Some x"
proof -
  have x: "x \<in> set (db_checkpoints db)" "cp_run_id x = run" "cp_actor_id x = actor"
    using assms(1) by (auto simp: actor_checkpoints_def)
  then obtain y where y: "getCheckpointRow db run actor (cp_version x) = Some y"
    by (cases "getCheckpointRow db run actor (cp_version x)") (auto simp: getCheckpointRow_def dest: find_NoneD)
  from getCheckpointRow_key [OF this] x assms(2) have "y = x"
    using unique_on_eq [of "\<lambda>_. True" checkpoint_key "db_checkpoints db" y x]
    by (simp add: checkpoints_ok_def checkpoint_key_def)
  with y show ?thesis by simp
qed

section \<open>A concrete run\<close>

definition demo_document :: js where
  "demo_document = JObj [(''schema_version'', js_int 1), (''objective'', JStr ''o''), (''confirmed_conclusions'', JArr []),
     (''unresolved_items'', JArr []), (''key_event_refs'', JArr []), (''artifact_refs'', JArr []),
     (''surface_binding'', JStr ''s''), (''context_summary'', JStr ''c''), (''round_id'', JStr ''1''),
     (''actor_generation'', js_int 1), (''captured_at'', js_int 1)]"

text \<open>Every number prints as \<open>1\<close>; the two texts that are read back parse to what was printed.\<close>

definition runtime_env :: js_env where
  "runtime_env = \<lparr>env_num_str = \<lambda>_. ''1'', env_sha256 = \<lambda>_. replicate 64 CHR ''a'',
     env_json_parse = \<lambda>s. Some (if s = ''{}'' then JObj [] else demo_document)\<rparr>"

definition runtime_le :: "string \<Rightarrow> string \<Rightarrow> bool" where
  "runtime_le a b \<longleftrightarrow> a = b"

definition runtime_demo0 :: runtime_db where
  "runtime_demo0 = \<lparr>db_runs = [(''r'', ''running'')], db_actors = [], db_commands = [], db_leases = [], db_checkpoints = [],
     db_workers = []\<rparr>"

definition runtime_demo1 :: runtime_db where "runtime_demo1 = runtime_demo0\<lparr>db_actors := [demo_row]\<rparr>"

definition runtime_demo2 :: runtime_db where "runtime_demo2 = runtime_demo1\<lparr>db_leases := [leased_row]\<rparr>"

definition demo_write :: write_checkpoint_input where
  "demo_write = \<lparr>wc_run_id = ''r'', wc_actor_id = ''a'', wc_checkpoint = demo_document, wc_expected_version = Some (num_of_int 0),
     wc_now = Some (num_of_int 10)\<rparr>"

definition demo_checkpoint :: checkpoint where
  "demo_checkpoint = \<lparr>ck_objective = ''o'', ck_confirmed_conclusions = [], ck_unresolved_items = [], ck_key_event_refs = [],
     ck_artifact_refs = [], ck_workspace_ref = None, ck_surface_binding = ''s'', ck_context_summary = ''c'',
     ck_skill_context = None, ck_round_id = ''1'', ck_actor_generation = 1, ck_captured_at = 1\<rparr>"

definition demo_register_worker :: register_worker_input where
  "demo_register_worker = \<lparr>rw_run_id = ''r'', rw_node_id = ''n'', rw_actor_id = ''a'', rw_generation = num_of_int 1,
     rw_worker_id = ''t'', rw_container_id = ''k'', rw_docker_node_id = ''d'', rw_now = Some (num_of_int 11)\<rparr>"

definition demo_worker :: worker_row where
  "demo_worker = \<lparr>pw_run_id = ''r'', pw_actor_id = ''a'', pw_generation = 1, pw_worker_id = ''t'', pw_node_id = ''n'',
     pw_container_id = ''k'', pw_docker_node_id = ''d'', pw_status = Active, pw_registered_at = 11, pw_updated_at = 11,
     pw_release_requested_at = None, pw_terminal_at = None, pw_failure_json = None, pw_version = 1\<rparr>"

definition demo_release_worker :: transition_worker_input where
  "demo_release_worker = \<lparr>tw_run_id = ''r'', tw_actor_id = ''a'', tw_generation = num_of_int 1, tw_worker_id = ''t'',
     tw_expected_status = Active, tw_status = Releasing, tw_expected_version = None, tw_failure = JUndef,
     tw_now = Some (num_of_int 13)\<rparr>"

lemma demo_keys: "\<not> isSecretKey ''schema_version''" "\<not> isSecretKey ''objective''" "\<not> isSecretKey ''confirmed_conclusions''" "\<not> isSecretKey ''unresolved_items''"
    "\<not> isSecretKey ''key_event_refs''" "\<not> isSecretKey ''artifact_refs''" "\<not> isSecretKey ''surface_binding''" "\<not> isSecretKey ''context_summary''"
    "\<not> isSecretKey ''round_id''" "\<not> isSecretKey ''actor_generation''" "\<not> isSecretKey ''captured_at''"
  by code_simp+

lemma demo_texts: "redactText ''o'' = ''o''" "redactText ''s'' = ''s''" "redactText ''c'' = ''c''" "redactText ''1'' = ''1''"
  by code_simp+

lemma demo_redacted: "redactTelemetry 0 demo_document = demo_document"
  by (simp add: redactTelemetry_shape demo_document_def demo_texts demo_keys)

lemma assert_one:
  "assertPositiveSafeInteger (JNum (Fin 1)) what = (Inr 1 :: 'c err + _)"
  "assertNonNegativeSafeInteger (JNum (Fin 1)) what = (Inr 1 :: 'c err + _)"
  "assertNonNegativeSafeInteger (JNum (Fin 10)) what = (Inr 10 :: 'c err + _)"
  using assertPositive_int [of 1 what] assertNonNegative_int [of 1 what] assertNonNegative_int [of 10 what]
  by (simp_all add: max_safe_integer_def)

lemma demo_normalized: "normalizeCheckpoint runtime_le demo_document = (Inr demo_checkpoint :: lease_conflict err + _)"
  by (simp add: normalizeCheckpoint_def demo_document_def demo_checkpoint_def checkpoint_fields_def normalizeCheckpointStringArray_def
      assertContentString_def assertBoundedString_def obj_get_def throwIf_def optional_field_def js_trim_def js_space_def assert_one
      cong: bindE_weak_cong)

lemma demo_checkpoint_js: "checkpoint_js demo_checkpoint = demo_document"
  by (simp add: checkpoint_js_def demo_checkpoint_def demo_document_def)

definition demo_text :: string where
  "demo_text = the (json_stringify (\<lambda>_. ''1'') (canonicalize demo_document))"

lemma demo_raw: "\<exists>raw. json_stringify (\<lambda>_. ''1'') demo_document = Some raw \<and> length raw \<le> 1000"
proof -
  have "json_stringify (\<lambda>_. ''1'') demo_document \<noteq> None" "length (the (json_stringify (\<lambda>_. ''1'') demo_document)) \<le> 1000"
    by code_simp+
  then show ?thesis by auto
qed

lemma demo_canonical: "json_stringify (\<lambda>_. ''1'') (canonicalize demo_document) = Some demo_text"
proof -
  have "json_stringify (\<lambda>_. ''1'') (canonicalize demo_document) \<noteq> None" by code_simp
  then show ?thesis by (auto simp: demo_text_def)
qed

lemma demo_text_ok: "demo_text \<noteq> ''{}'' \<and> 2 \<le> length demo_text \<and> length demo_text \<le> 1000"
  by code_simp

lemma demo_encoded:
  "encodeCanonicalJson (\<lambda>_. ''1'') demo_document what MAX_DAG_ACTOR_CHECKPOINT_BYTES = (Inr demo_text :: lease_conflict err + _)"
proof -
  obtain raw where "json_stringify (\<lambda>_. ''1'') demo_document = Some raw" "length raw \<le> 1000" using demo_raw by blast
  moreover have "\<not> MAX_DAG_ACTOR_CHECKPOINT_BYTES < int (utf8_length s)" if "length s \<le> 1000" for s
    using utf8_length_le [of s] that by (simp add: MAX_DAG_ACTOR_CHECKPOINT_BYTES_def)
  ultimately show ?thesis using demo_text_ok by (simp add: encodeCanonicalJson_def demo_canonical throwIf_def)
qed

lemma demo_encode: "encodeCheckpoint runtime_env runtime_le demo_document
    = (Inr (demo_checkpoint, demo_text, replicate 64 CHR ''a'') :: lease_conflict err + _)"
  by (simp add: encodeCheckpoint_def runtime_env_def demo_encoded demo_text_ok demo_redacted demo_normalized demo_checkpoint_js
      cong: bindE_weak_cong)

definition demo_checkpoint_row :: checkpoint_row where
  "demo_checkpoint_row = \<lparr>cp_run_id = ''r'', cp_actor_id = ''a'', cp_version = 1, cp_generation = 1, cp_round_id = ''1'',
     cp_captured_at = 1, cp_sha256 = replicate 64 CHR ''a'',
     cp_json = demo_text,
     cp_created_at = 10\<rparr>"

definition runtime_demo3 :: runtime_db where
  "runtime_demo3 = runtime_demo2\<lparr>db_checkpoints := [demo_checkpoint_row]\<rparr>"

definition runtime_demo4 :: runtime_db where
  "runtime_demo4 = runtime_demo2\<lparr>db_workers := [demo_worker]\<rparr>"

definition releasing_worker :: worker_row where
  "releasing_worker = demo_worker\<lparr>pw_status := Releasing, pw_updated_at := 13, pw_release_requested_at := Some 13, pw_version := 2\<rparr>"

definition runtime_demo5 :: runtime_db where
  "runtime_demo5 = runtime_demo2\<lparr>db_workers := [releasing_worker]\<rparr>"

definition runtime_demo6 :: runtime_db where
  "runtime_demo6 = runtime_demo2\<lparr>db_leases := [retired_row]\<rparr>"

lemma runtime_demo_register: "registerDagActor runtime_env 5 demo_actor runtime_demo0 = Inr (runtime_demo1, demo_row, True)"
  by code_simp

lemma runtime_demo_acquire:
  "acquireDagActorLease (\<lambda>_. None) 0 lease_demo_in runtime_demo1 = Inr (runtime_demo2, leased_row)"
  by code_simp

lemma demo_fields: "ck_actor_generation demo_checkpoint = 1" "ck_round_id demo_checkpoint = ''1''" "ck_captured_at demo_checkpoint = 1"
  by (simp_all add: demo_checkpoint_def)

lemma demo_checkpoint_read:
  "checkpointFromRow runtime_env runtime_le demo_checkpoint_row = (Inr (demo_checkpoint_row, demo_checkpoint) :: lease_conflict err + _)"
  by (simp add: checkpointFromRow_def demo_checkpoint_row_def assert_one runtime_env_def
      demo_text_ok demo_normalized demo_checkpoint_js demo_encoded demo_fields throwIf_def cong: bindE_weak_cong)

lemma demo_checkpoint_ok: "checkpoints_ok [demo_checkpoint_row]"
  using demo_text_ok
  by (simp add: checkpoints_ok_def checkpoint_check_def demo_checkpoint_row_def unique_on_def sha256_hex_def
      lower_hex_def list_all_iff)

lemma runtime_demo_write:
  "writeDagActorCheckpoint runtime_env runtime_le 0 demo_write runtime_demo2 = Inr (runtime_demo3, demo_checkpoint_row, demo_checkpoint)"
proof -
  have "getActorRow runtime_demo2 ''r'' ''a'' = Some demo_row" "latestCheckpointRow runtime_demo2 ''r'' ''a'' = None"
    "assertBoundedString (JStr ''r'') ''run_id'' 256 = (Inr ''r'' :: lease_conflict err + _)"
    "assertBoundedString (JStr ''a'') ''actor_id'' 256 = (Inr ''a'' :: lease_conflict err + _)"
    "assertNonNegativeSafeInteger (JNum (num_of_int 0)) ''expected_checkpoint_version'' = (Inr 0 :: lease_conflict err + _)"
    "assertNow (Some (num_of_int 10)) 0 = (Inr 10 :: lease_conflict err + _)"
    by code_simp+
  moreover have "getCheckpointRow runtime_demo3 ''r'' ''a'' 1 = Some demo_checkpoint_row"
    by (simp add: getCheckpointRow_def runtime_demo3_def demo_checkpoint_row_def)
  moreover have "db_checkpoints runtime_demo2 = []" by (simp add: runtime_demo2_def runtime_demo1_def runtime_demo0_def)
  moreover have "sql_insert checkpoints_ok demo_checkpoint_row [] = (Inr [demo_checkpoint_row] :: lease_conflict err + _)"
    by (simp add: sql_insert_def demo_checkpoint_ok)
  ultimately show ?thesis
    by (simp add: writeDagActorCheckpoint_def demo_write_def optE_def demo_encode demo_fields demo_row_def assert_one
        throwIf_def opt_matches_def runtime_demo3_def [symmetric] demo_checkpoint_row_def [symmetric] demo_checkpoint_read
        cong: bindE_weak_cong)
qed

lemma runtime_demo_worker:
  "registerDagProvisionedWorker runtime_env 0 demo_register_worker runtime_demo2 = Inr (runtime_demo4, demo_worker)"
  "registerDagProvisionedWorker runtime_env 0 demo_register_worker runtime_demo4 = Inr (runtime_demo4, demo_worker)"
  by code_simp+

lemma runtime_demo_releasing:
  "transitionDagProvisionedWorker runtime_env 0 demo_release_worker runtime_demo4 = Inr (runtime_demo5, releasing_worker)"
  by code_simp

lemma runtime_demo_retire: "retireDagActorLease (\<lambda>_. None) 0 lease_demo_retire runtime_demo2 = Inr (runtime_demo6, retired_row)"
  by code_simp

lemma runtime_demo_reach:
  "reach runtime_init (runtime_step runtime_env (\<lambda>_. None) runtime_le) runtime_demo2"
  "reach runtime_init (runtime_step runtime_env (\<lambda>_. None) runtime_le) runtime_demo3"
  "reach runtime_init (runtime_step runtime_env (\<lambda>_. None) runtime_le) runtime_demo4"
  "reach runtime_init (runtime_step runtime_env (\<lambda>_. None) runtime_le) runtime_demo6"
  "(keep_step runtime_env (\<lambda>_. None) runtime_le)\<^sup>*\<^sup>* runtime_demo2 runtime_demo3"
  "(keep_step runtime_env (\<lambda>_. None) runtime_le)\<^sup>*\<^sup>* runtime_demo4 runtime_demo5"
proof -
  let ?reach = "reach runtime_init (runtime_step runtime_env (\<lambda>_. None) runtime_le)"
  have "?reach runtime_demo0"
    by (rule reach_init) (simp add: runtime_init_def lease_init_def actor_init_def runtime_demo0_def)
  then have "?reach runtime_demo1"
    by (rule reach_step) (intro rs_keep ks_lease ls_actor st_register [OF runtime_demo_register])
  then show 2: "?reach runtime_demo2"
    by (rule reach_step) (intro rs_keep ks_lease ls_acquire [OF runtime_demo_acquire])
  have 3: "keep_step runtime_env (\<lambda>_. None) runtime_le runtime_demo2 runtime_demo3"
    by (rule ks_checkpoint [OF runtime_demo_write])
  then show "(keep_step runtime_env (\<lambda>_. None) runtime_le)\<^sup>*\<^sup>* runtime_demo2 runtime_demo3" by simp
  from 2 show "?reach runtime_demo3" by (rule reach_step) (intro rs_keep 3)
  from 2 show "?reach runtime_demo4" by (rule reach_step) (intro rs_keep ks_register [OF runtime_demo_worker(1)])
  from 2 show "?reach runtime_demo6"
    by (rule reach_step) (intro rs_keep ks_lease ls_retire [OF runtime_demo_retire])
  have "keep_step runtime_env (\<lambda>_. None) runtime_le runtime_demo4 runtime_demo5"
    by (rule ks_transition [OF runtime_demo_releasing])
  then show "(keep_step runtime_env (\<lambda>_. None) runtime_le)\<^sup>*\<^sup>* runtime_demo4 runtime_demo5" by simp
qed

section \<open>Properties\<close>

text \<open>C16. Every reachable database, deletions included, satisfies the constraints of the checkpoint and the
  worker table; what is stored there passes the validation that every read repeats, including the
  digest of a checkpoint, and belongs to a registered actor.\<close>

theorem runtime_store_reachable_ok:
  assumes "reach runtime_init (runtime_step env penv le) db"
  shows "checkpoints_ok (db_checkpoints db) \<and> workers_ok (db_workers db)
    \<and> (\<forall>r \<in> set (db_checkpoints db). (\<exists>c. checkpointFromRow env le r = (Inr (r, c) :: lease_conflict err + _))
         \<and> (\<exists>a. getActorRow db (cp_run_id r) (cp_actor_id r) = Some a \<and> cp_generation r \<le> ac_generation a))
    \<and> (\<forall>w \<in> set (db_workers db). provisionedWorkerFromRow env w = (Inr w :: lease_conflict err + _)
         \<and> (\<exists>a. getActorRow db (pw_run_id w) (pw_actor_id w) = Some a \<and> ac_node_id a = pw_node_id w))"
  using runtime_store.reach_inv [OF assms]
  by (auto simp: runtime_inv_def checkpoints_inv_def workers_inv_def checkpoint_readable_def checkpoint_owned_def
      worker_readable_def worker_owned_def)

lemma runtime_store_reachable_ok_witness:
  "(\<exists>c. checkpointFromRow runtime_env runtime_le demo_checkpoint_row = (Inr (demo_checkpoint_row, c) :: lease_conflict err + _))
   \<and> checkpoints_ok [demo_checkpoint_row]"
  using runtime_store_reachable_ok [OF runtime_demo_reach(2)] by (simp add: runtime_demo3_def)

text \<open>The checkpoints of an actor are a log: without a deletion, later operations only append to it, and
  its versions count from one with times and actor generations that never decrease.\<close>

theorem checkpoint_log_append_only:
  assumes "reach runtime_init (runtime_step env penv le) db" and "(keep_step env penv le)\<^sup>*\<^sup>* db db'"
  shows "(\<exists>zs. actor_checkpoints db' run actor = actor_checkpoints db run actor @ zs)
    \<and> map cp_version (actor_checkpoints db' run actor) = map int [1..<Suc (length (actor_checkpoints db' run actor))]
    \<and> sorted (map cp_captured_at (actor_checkpoints db' run actor))
    \<and> sorted (map cp_generation (actor_checkpoints db' run actor))"
proof -
  note inv = runtime_store.reach_inv [OF assms(1)]
  have "checkpoint_history (actor_checkpoints db' run actor)"
    using workers.steps_inv [OF assms(2) inv] by (simp add: runtime_inv_def checkpoints_inv_def)
  moreover have "\<exists>zs. actor_checkpoints db' run actor = actor_checkpoints db run actor @ zs"
    using checkpoint_logs.row_steps [OF assms(2) inv, of "(run, actor)"] by simp
  ultimately show ?thesis unfolding checkpoint_history_def by blast
qed

lemma checkpoint_log_append_only_witness:
  "map cp_version (actor_checkpoints runtime_demo3 ''r'' ''a'') = map int [1..<Suc (length (actor_checkpoints runtime_demo3 ''r'' ''a''))]"
  using checkpoint_log_append_only [OF runtime_demo_reach(1,5), of "''r''" "''a''"] by blast

text \<open>C17. What is written is read back: after a successful write the checkpoint is the latest of its actor, one
  version above the one before, and it can be read by its version however the store evolves without
  a deletion. With an expected version the write only succeeds on that version.\<close>

theorem checkpoint_write_read:
  assumes "reach runtime_init (runtime_step env penv le) db"
    and "writeDagActorCheckpoint env le clock i db = Inr (db1, x, c)" and "(keep_step env penv le)\<^sup>*\<^sup>* db1 db2"
  shows "getLatestDagActorCheckpoint env le (wc_run_id i) (wc_actor_id i) db1 = Inr (Some (x, c))
    \<and> getDagActorCheckpoint env le (wc_run_id i) (wc_actor_id i) (num_of_int (cp_version x)) db2 = Inr (Some (x, c))
    \<and> cp_version x = int (length (actor_checkpoints db (js_trim (wc_run_id i)) (js_trim (wc_actor_id i)))) + 1
    \<and> (\<forall>v. wc_expected_version i = Some (num_of_int v) \<longrightarrow> cp_version x = v + 1)"
proof -
  let ?run = "js_trim (wc_run_id i)" and ?actor = "js_trim (wc_actor_id i)"
  note eff = checkpoint_effect [OF assms(2)]
  then have app: "checkpoint_appended env le db db1 x" and x: "cp_run_id x = ?run" "cp_actor_id x = ?actor"
    and read: "checkpointFromRow env le x = (Inr (x, c) :: lease_conflict err + _)" by simp_all
  note inv = runtime_store.reach_inv [OF assms(1)]
  then have cinv: "checkpoints_inv env le db" by (simp add: runtime_inv_def)
  have inv1: "runtime_inv env le db1" by (rule keep_step_inv [OF ks_checkpoint [OF assms(2)] inv])
  have ids: "?run \<noteq> []" "length ?run \<le> 256" "?actor \<noteq> []" "length ?actor \<le> 256"
    using assms(2) unfolding writeDagActorCheckpoint_def by (simp_all only: bindE_Inr assertBounded_Inr) blast+
  have log: "actor_checkpoints db1 ?run ?actor = actor_checkpoints db ?run ?actor @ [x]"
    using app x by (auto simp: checkpoint_appended_def actor_checkpoints_append)
  have hist: "checkpoint_history (actor_checkpoints db1 ?run ?actor)"
    using inv1 by (simp add: runtime_inv_def checkpoints_inv_def)
  have ver: "cp_version x = int (length (actor_checkpoints db ?run ?actor)) + 1"
    using history_last_version [OF hist] log by simp
  have "latestCheckpointRow db1 ?run ?actor = Some x" using latest_last [OF hist] log by simp
  then have latest: "getLatestDagActorCheckpoint env le (wc_run_id i) (wc_actor_id i) db1 = Inr (Some (x, c))"
    using ids read by (simp add: getLatestDagActorCheckpoint_def optE_def assertBoundedString_def)
  have "x \<in> set (actor_checkpoints db2 ?run ?actor)"
    using checkpoint_logs.row_steps [OF assms(3) inv1, of "(?run, ?actor)"] log by auto
  moreover have "checkpoints_ok (db_checkpoints db2)"
    using workers.steps_inv [OF assms(3) inv1] by (simp add: runtime_inv_def checkpoints_inv_def)
  ultimately have "getCheckpointRow db2 ?run ?actor (cp_version x) = Some x"
    by (rule getCheckpointRow_of)
  moreover have "1 \<le> cp_version x \<and> cp_version x \<le> max_safe_integer"
    using read by (auto simp: checkpointFromRow_def bind_inv)
  ultimately have "getDagActorCheckpoint env le (wc_run_id i) (wc_actor_id i) (num_of_int (cp_version x)) db2 = Inr (Some (x, c))"
    using ids read by (simp add: getDagActorCheckpoint_def optE_def assertBoundedString_def assertPositive_int)
  with latest ver eff show ?thesis by blast
qed

lemma checkpoint_write_read_witness:
  "getLatestDagActorCheckpoint runtime_env runtime_le ''r'' ''a'' runtime_demo3 = Inr (Some (demo_checkpoint_row, demo_checkpoint))"
  using checkpoint_write_read [OF runtime_demo_reach(1) runtime_demo_write rtranclp.rtrancl_refl] by (simp add: demo_write_def)

text \<open>A lease generation has one worker: no two worker rows have the same actor and generation, and two
  registrations that succeed for the same generation, at whatever times, are about the same worker
  in the same container at the same node.\<close>

theorem one_worker_per_generation:
  assumes "reach runtime_init (runtime_step env penv le) db"
    and "registerDagProvisionedWorker env clock i db = Inr (db1, w)" and "(keep_step env penv le)\<^sup>*\<^sup>* db1 db2"
    and "registerDagProvisionedWorker env clock' j db2 = Inr (db3, w')"
    and "(pw_run_id w', pw_actor_id w', pw_generation w') = (pw_run_id w, pw_actor_id w, pw_generation w)"
  shows "unique_on (\<lambda>_. True) (\<lambda>r. (pw_run_id r, pw_actor_id r, pw_generation r)) (db_workers db)
    \<and> pw_worker_id w' = pw_worker_id w \<and> pw_container_id w' = pw_container_id w
    \<and> pw_docker_node_id w' = pw_docker_node_id w \<and> pw_node_id w' = pw_node_id w"
proof -
  note inv = runtime_store.reach_inv [OF assms(1)]
  have inv1: "runtime_inv env le db1" by (rule keep_step_inv [OF ks_register [OF assms(2)] inv])
  have inv2: "runtime_inv env le db2" by (rule workers.steps_inv [OF assms(3) inv1])
  have inv3: "runtime_inv env le db3" by (rule keep_step_inv [OF ks_register [OF assms(4)] inv2])
  have uniq: "unique_on (\<lambda>_. True) worker_generation (db_workers d)" if "runtime_inv env le d" for d :: "('a) runtime_db_scheme"
    using that by (simp add: runtime_inv_def workers_inv_def)
  have row: "getProvisionedWorkerRow db1 (pw_run_id w) (pw_actor_id w) (pw_generation w) (pw_worker_id w) = Some w"
    by (rule registered_row [OF inv assms(2)])
  then obtain v where v: "getProvisionedWorkerRow db2 (pw_run_id w) (pw_actor_id w) (pw_generation w) (pw_worker_id w) = Some v"
    "worker_evolves w v"
    using workers.row_steps [OF assms(3) inv1, of "(pw_run_id w, pw_actor_id w, pw_generation w, pw_worker_id w)" w] by auto
  from keep_step_worker [OF ks_register [OF assms(4)] inv2 v(1)] obtain u where
    u: "getProvisionedWorkerRow db3 (pw_run_id w) (pw_actor_id w) (pw_generation w) (pw_worker_id w) = Some u" "worker_evolves v u" by blast
  have "u = w'"
    using unique_on_eq [OF uniq [OF inv3], of u w'] getWorkerRow_key [OF u(1)] assms(5)
      getWorkerRow_key [OF registered_row [OF inv2 assms(4)]]
    by (simp add: worker_generation_def worker_key_def)
  moreover have "worker_identity w u"
    using worker_evolves_key [of w u] v(2) u(2) worker_evolves_trans by blast
  ultimately show ?thesis using uniq [OF inv] unfolding worker_generation_def [abs_def]
    by (simp add: worker_identity_def worker_key_def)
qed

lemma one_worker_per_generation_witness:
  "unique_on (\<lambda>_. True) (\<lambda>r. (pw_run_id r, pw_actor_id r, pw_generation r)) (db_workers runtime_demo4)
   \<and> pw_worker_id demo_worker = ''t''"
  using one_worker_per_generation [OF runtime_demo_reach(3) runtime_demo_worker(2) rtranclp.rtrancl_refl runtime_demo_worker(2)]
  by (simp add: demo_worker_def)

text \<open>A worker row keeps its identity and moves only along the edges of the status graph: active,
  releasing, released, with failed before or after releasing and back to it; a released worker is
  never written again.\<close>

theorem worker_lifecycle:
  assumes "reach runtime_init (runtime_step env penv le) db" and "(keep_step env penv le)\<^sup>*\<^sup>* db db'"
    and "getProvisionedWorkerRow db run actor g k = Some w"
  shows "\<exists>w'. getProvisionedWorkerRow db' run actor g k = Some w'
    \<and> (w' = w \<or> (worker_identity w w' \<and> pw_version w < pw_version w'
         \<and> (\<lambda>s t. worker_transition_allowed s t)\<^sup>+\<^sup>+ (pw_status w) (pw_status w')))
    \<and> (pw_status w = Released \<longrightarrow> w' = w)"
proof -
  from workers.row_steps [OF assms(2) runtime_store.reach_inv [OF assms(1)], of "(run, actor, g, k)" w] assms(3)
  obtain w' where w': "getProvisionedWorkerRow db' run actor g k = Some w'" "worker_evolves w w'" by auto
  moreover have "pw_status w = Released \<longrightarrow> w' = w" using w'(2) by (auto simp: worker_evolves_def dest: released_stuck)
  ultimately show ?thesis unfolding worker_evolves_def worker_next_def by blast
qed

lemma worker_lifecycle_witness:
  "\<exists>w'. getProvisionedWorkerRow runtime_demo5 ''r'' ''a'' 1 ''t'' = Some w' \<and> (w' = demo_worker \<or> worker_identity demo_worker w')"
proof -
  have "getProvisionedWorkerRow runtime_demo4 ''r'' ''a'' 1 ''t'' = Some demo_worker" by code_simp
  from worker_lifecycle [OF runtime_demo_reach(3,6) this] show ?thesis by blast
qed

text \<open>C18. Deletion is exact: with valid arguments it never fails; it removes the actor if and only if its
  lease is not leased, not pinned and past its retention and none of its workers is left to release,
  and then it removes every row of the actor, counts its checkpoints and touches no other row.\<close>

theorem deletion_exact:
  assumes "reach runtime_init (runtime_step env penv le) db"
    and "assertBoundedString (JStr rawRun) ''run_id'' 256 = (Inr run :: lease_conflict err + _)"
    and "assertBoundedString (JStr rawActor) ''actor_id'' 256 = (Inr actor :: lease_conflict err + _)"
    and "assertNow v clock = (Inr now :: lease_conflict err + _)"
  shows "\<exists>db' d. deleteExpiredDagActorRuntime clock rawRun rawActor v db = Inr (db', d)
    \<and> (if \<exists>l. getLeaseRow db run actor = Some l \<and> lr_state l \<noteq> Leased \<and> \<not> lr_pinned l \<and> the (lr_retained_until l) \<le> now
            \<and> (\<forall>w \<in> set (db_workers db). pw_run_id w = run \<longrightarrow> pw_actor_id w = actor \<longrightarrow> pw_status w = Released)
       then d = Deleted (length (actor_checkpoints db run actor))
         \<and> db_actors db' = filter (\<lambda>r. (ac_run_id r, ac_actor_id r) \<noteq> (run, actor)) (db_actors db)
         \<and> db_commands db' = filter (\<lambda>r. (cm_run_id r, cm_actor_id r) \<noteq> (run, actor)) (db_commands db)
         \<and> db_leases db' = filter (\<lambda>r. (lr_run_id r, lr_actor_id r) \<noteq> (run, actor)) (db_leases db)
         \<and> db_checkpoints db' = filter (\<lambda>r. (cp_run_id r, cp_actor_id r) \<noteq> (run, actor)) (db_checkpoints db)
         \<and> db_workers db' = filter (\<lambda>r. (pw_run_id r, pw_actor_id r) \<noteq> (run, actor)) (db_workers db)
       else db' = db \<and> (\<exists>reason. d = Kept reason))"
proof -
  have inv: "lease_store_inv env db" using runtime_store.reach_inv [OF assms(1)] by (simp add: runtime_inv_def)
  have p: "\<not> pending_worker db run actor \<longleftrightarrow>
      (\<forall>w \<in> set (db_workers db). pw_run_id w = run \<longrightarrow> pw_actor_id w = actor \<longrightarrow> pw_status w = Released)"
    by (auto simp: pending_worker_def list_ex_iff)
  show ?thesis
  proof (cases "getLeaseRow db run actor")
    case None
    then show ?thesis by (simp add: delete_result [OF inv assms(2-4)])
  next
    case (Some l)
    then show ?thesis
      by (auto simp: delete_result [OF inv assms(2-4)] removed_tables deletable_def p [symmetric])
  qed
qed

lemma deletion_exact_witness:
  "\<exists>db'. deleteExpiredDagActorRuntime 20 ''r'' ''a'' None runtime_demo6 = Inr (db', Deleted 0) \<and> db_actors db' = []"
proof -
  have args: "assertBoundedString (JStr ''r'') ''run_id'' 256 = (Inr ''r'' :: lease_conflict err + _)"
    "assertBoundedString (JStr ''a'') ''actor_id'' 256 = (Inr ''a'' :: lease_conflict err + _)"
    "assertNow None 20 = (Inr 20 :: lease_conflict err + _)"
    and l: "getLeaseRow runtime_demo6 ''r'' ''a'' = Some retired_row"
    by code_simp+
  have "\<exists>l. getLeaseRow runtime_demo6 ''r'' ''a'' = Some l \<and> lr_state l \<noteq> Leased \<and> \<not> lr_pinned l \<and> the (lr_retained_until l) \<le> 20
      \<and> (\<forall>w \<in> set (db_workers runtime_demo6). pw_run_id w = ''r'' \<longrightarrow> pw_actor_id w = ''a'' \<longrightarrow> pw_status w = Released)"
    using l by (simp add: retired_row_def leased_row_def runtime_demo6_def runtime_demo2_def runtime_demo1_def runtime_demo0_def)
  with deletion_exact [OF runtime_demo_reach(4) args] show ?thesis
    by (auto simp: runtime_demo6_def runtime_demo2_def runtime_demo1_def runtime_demo0_def demo_row_def actor_checkpoints_def)
qed

end
