(* ===== verification/Run_Rounds_Theorems.thy ===== *)
theory Run_Rounds_Theorems
  imports Run_Rounds Dag_Actors_Theorems
begin

text \<open>
  The rounds of a run form a chain: their ordinals count from one, every round but the last is
  completed and was closed before the next one opened. The store refines an abstract machine that
  only knows the number of rounds and the status of the last.
\<close>

section \<open>Chains of rounds\<close>

definition rounds_of :: "('m) round_db_scheme \<Rightarrow> string \<Rightarrow> round_row list" where
  "rounds_of db run = filter (\<lambda>r. rr_run_id r = run) (db_rounds db)"

fun chained :: "round_row list \<Rightarrow> bool" where
  "chained (r # s # rs) = (rr_status r = Round_completed \<and> (\<exists>c. rr_closed_at r = Some c \<and> c \<le> rr_opened_at s) \<and> chained (s # rs))"
| "chained rs = True"

definition round_history :: "round_row list \<Rightarrow> bool" where
  "round_history rs \<longleftrightarrow> map rr_ordinal rs = map int [1..<Suc (length rs)] \<and> chained rs"

lemma chained_append: "chained (rs @ [r]) \<Longrightarrow> rr_status r = Round_completed \<Longrightarrow> rr_closed_at r = Some c \<Longrightarrow> c \<le> rr_opened_at x
  \<Longrightarrow> chained (rs @ [r, x])"
  by (induction rs rule: chained.induct) auto

lemma chained_last: "chained (rs @ [r]) \<Longrightarrow> rr_opened_at x = rr_opened_at r \<Longrightarrow> chained (rs @ [x])"
  by (induction rs rule: chained.induct) auto

lemma chained_front: "chained (rs @ [r]) \<Longrightarrow> s \<in> set rs \<Longrightarrow> rr_status s = Round_completed"
proof (induction rs rule: chained.induct)
  case (1 a b rs)
  then show ?case by auto
qed auto

lemma round_history_Nil [simp]: "round_history []"
  by (simp add: round_history_def)

lemma history_single [simp]: "round_history [x] \<longleftrightarrow> rr_ordinal x = 1"
  by (simp add: round_history_def)

lemma history_last:
  assumes "round_history (rs @ [r])" and "rr_ordinal x = rr_ordinal r" and "rr_opened_at x = rr_opened_at r"
  shows "round_history (rs @ [x])"
  using assms chained_last [of rs r x] by (auto simp: round_history_def)

lemma history_next:
  assumes "round_history (rs @ [r])" and "rr_status r = Round_completed" and "rr_closed_at r = Some c" and "c \<le> rr_opened_at x"
    and "rr_ordinal x = rr_ordinal r + 1"
  shows "round_history (rs @ [r, x])"
  using assms chained_append [of rs r c x] by (auto simp: round_history_def)

lemma history_current:
  assumes "round_history rs" and "r \<in> set rs" and "round_current r"
  obtains us where "rs = us @ [r]" and "r \<notin> set us"
proof -
  from assms(2) obtain us z where rs: "rs = us @ [z]" by (cases rs rule: rev_cases) auto
  have no: "r \<notin> set us"
    using assms(1,3) chained_front [of us z r] unfolding rs round_history_def by (auto simp: round_current_def)
  with assms(2) rs have "z = r" by simp
  with no rs show thesis by (intro that) simp_all
qed

section \<open>The invariant\<close>

definition round_readable :: "js_env \<Rightarrow> round_row \<Rightarrow> bool" where
  "round_readable env r \<longleftrightarrow> (\<exists>ids. roundFromRow env r = Inr (r, ids))"

definition round_inv :: "js_env \<Rightarrow> ('m) round_db_scheme \<Rightarrow> bool" where
  "round_inv env db \<longleftrightarrow> rounds_ok (db_rounds db)
     \<and> (\<forall>r \<in> set (db_rounds db). round_readable env r \<and> rr_run_id r \<in> fst ` set (db_runs db))
     \<and> (\<forall>run. round_history (rounds_of db run))"

lemma roundFromRow_row: "roundFromRow env r = Inr (x, ids) \<Longrightarrow> x = r \<and> round_readable env r"
  by (auto simp: roundFromRow_def round_readable_def split: option.splits js.splits)

lemma roundFromRow_readable: "round_readable env r \<Longrightarrow> \<exists>ids. roundFromRow env r = Inr (r, ids)"
  by (simp add: round_readable_def)

lemma getRoundRow_key: "getRoundRow db run k = Some r \<Longrightarrow> round_key r = (run, k) \<and> r \<in> set (db_rounds db)"
  unfolding getRoundRow_def by (drule find_SomeD) (simp add: round_key_def)

lemma requireRound_row: "requireRound env db run k = Inr (x, ids) \<Longrightarrow> getRoundRow db run k = Some x \<and> round_readable env x"
  by (auto simp: requireRound_def dest: roundFromRow_row split: option.splits)

lemma round_row_unique: "rounds_ok rows \<Longrightarrow> r \<in> set rows \<Longrightarrow> s \<in> set rows \<Longrightarrow> round_key r = round_key s \<Longrightarrow> r = s"
  unfolding rounds_ok_def using unique_on_eq [of "\<lambda>_. True" round_key rows r s] by blast

lemma expected_round:
  assumes "rounds_ok (db_rounds db)" and "assertExpectedCurrentRound env db run k = Inr (r, ids)" and "js_trim run = run"
  shows "getRoundRow db run k = Some r \<and> round_current r \<and> round_readable env r"
proof -
  from assms(2) have req: "requireRound env db run k = Inr (r, ids)" by (auto simp: assertExpectedCurrentRound_def bind_inv)
  from assms(2,3) obtain c where c: "currentRoundRow db run = Some c" "rr_round_id c = k"
    by (auto simp: assertExpectedCurrentRound_def getCurrentDagRunRound_def assertIdentifier_def Let_def bind_inv
        dest!: roundFromRow_row split: option.splits)
  then have "c \<in> set (db_rounds db)" "round_key c = (run, k)" "round_current c"
    unfolding currentRoundRow_def by (auto dest!: find_SomeD simp: round_key_def)
  with round_row_unique [OF assms(1), of c r] requireRound_row [OF req] getRoundRow_key [of db run k r] show ?thesis by simp
qed

section \<open>Effects\<close>

definition round_set :: "round_row \<Rightarrow> round_row \<Rightarrow> ('m) round_db_scheme \<Rightarrow> ('m) round_db_scheme" where
  "round_set r x db = db\<lparr>db_rounds := rewritten (\<lambda>s. s = r) (\<lambda>_. x) (db_rounds db)\<rparr>"

inductive round_moves :: "round_status \<Rightarrow> round_status \<Rightarrow> bool" where
  "round_moves Round_active Round_waiting"
| "s = Round_active \<or> s = Round_waiting \<Longrightarrow> round_ended t \<Longrightarrow> round_moves s t"

definition round_keeps :: "round_row \<Rightarrow> round_row \<Rightarrow> bool" where
  "round_keeps r x \<longleftrightarrow> round_key x = round_key r \<and> rr_ordinal x = rr_ordinal r \<and> rr_opened_at x = rr_opened_at r
     \<and> rr_targets_json x = rr_targets_json r"

inductive round_effect :: "js_env \<Rightarrow> ('m) round_db_scheme \<Rightarrow> ('m) round_db_scheme \<Rightarrow> bool" for env db where
  fx_initial: "rounds_of db (rr_run_id x) = [] \<Longrightarrow> rr_run_id x \<in> fst ` set (db_runs db) \<Longrightarrow> rr_ordinal x = 1 \<Longrightarrow> round_readable env x
    \<Longrightarrow> rounds_ok (db_rounds db @ [x]) \<Longrightarrow> round_effect env db (db\<lparr>db_rounds := db_rounds db @ [x]\<rparr>)"
| fx_set: "r \<in> set (db_rounds db) \<Longrightarrow> round_current r \<Longrightarrow> round_keeps r x \<Longrightarrow> round_moves (rr_status r) (rr_status x)
    \<Longrightarrow> round_readable env x \<Longrightarrow> rounds_ok (db_rounds (round_set r x db)) \<Longrightarrow> round_effect env db (round_set r x db)"
| fx_next: "r \<in> set (db_rounds db) \<Longrightarrow> rr_status r = Round_waiting \<Longrightarrow> rr_run_id x = rr_run_id r \<Longrightarrow> rr_ordinal x = rr_ordinal r + 1
    \<Longrightarrow> rr_status x = Round_active \<Longrightarrow> rr_closed_at r = Some c \<Longrightarrow> c \<le> rr_opened_at x \<Longrightarrow> round_readable env x
    \<Longrightarrow> rows = db_rounds (round_set r (r\<lparr>rr_status := Round_completed\<rparr>) db) @ [x] \<Longrightarrow> rounds_ok rows
    \<Longrightarrow> round_effect env db (db\<lparr>db_rounds := rows\<rparr>)"

lemma round_written:
  assumes ok: "rounds_ok (db_rounds db)" and cur: "getRoundRow db run k = Some r"
    and ok': "rounds_ok (rewritten P f (db_rounds db))" and n: "\<not> length (filter P (db_rounds db)) \<noteq> 1"
    and P: "\<And>s. P s \<Longrightarrow> rr_run_id s = run \<and> rr_round_id s = k"
    and key: "round_key (f r) = round_key r"
  shows "P r \<and> r \<in> set (db_rounds db) \<and> db\<lparr>db_rounds := rewritten P f (db_rounds db)\<rparr> = round_set r (f r) db
    \<and> rewritten P f (db_rounds db) = db_rounds (round_set r (f r) db)
    \<and> (\<forall>x. getRoundRow (db\<lparr>db_rounds := rewritten P f (db_rounds db)\<rparr>) run k = Some x \<longrightarrow> x = f r)"
proof -
  have r: "round_key r = (run, k)" "r \<in> set (db_rounds db)" using getRoundRow_key [OF cur] by simp_all
  have w: "P r \<and> rewritten P f (db_rounds db) = rewritten (\<lambda>s. s = r) (\<lambda>_. f r) (db_rounds db)"
    using ok n P r by (intro rewritten_unique [where key = round_key]) (auto simp: rounds_ok_def round_key_def)
  then have "f r \<in> set (rewritten P f (db_rounds db))" using r(2) by (auto simp: rewritten_def)
  then have "x = f r" if "getRoundRow (db\<lparr>db_rounds := rewritten P f (db_rounds db)\<rparr>) run k = Some x" for x
    using round_row_unique [OF ok', of x "f r"] getRoundRow_key [OF that] key r(1) by simp
  with w r(2) show ?thesis by (simp add: round_set_def)
qed

lemmas round_simps = bindE_Inr throwIf_Inr sql_update_Inr sql_insert_Inr assertIdentifier_Inr
  split_paired_Ex split_paired_all prod.case prod.inject sum.inject

lemma set_effectI:
  assumes inv: "rounds_ok (db_rounds db)" and cur: "getRoundRow db run k = Some r \<and> round_current r \<and> round_readable env r"
    and ok': "rounds_ok (rewritten P f (db_rounds db))" and n: "\<not> length (filter P (db_rounds db)) \<noteq> 1"
    and req: "requireRound env (db\<lparr>db_rounds := rewritten P f (db_rounds db)\<rparr>) run k = Inr (x, ids)"
    and P: "\<And>s. P s \<Longrightarrow> rr_run_id s = run \<and> rr_round_id s = k"
    and f: "round_keeps r (f r)" "P r \<Longrightarrow> round_moves (rr_status r) (rr_status (f r))"
  shows "round_effect env db (db\<lparr>db_rounds := rewritten P f (db_rounds db)\<rparr>)"
proof -
  have key: "round_key (f r) = round_key r" using f(1) by (simp add: round_keeps_def)
  note w = round_written [where P = P and f = f, OF inv _ ok' n P key]
  have g: "getRoundRow db run k = Some r" and c: "round_current r" using cur by simp_all
  from w [OF g] have Pr: "P r" and mem: "r \<in> set (db_rounds db)"
    and db': "db\<lparr>db_rounds := rewritten P f (db_rounds db)\<rparr> = round_set r (f r) db"
    and rows: "rewritten P f (db_rounds db) = db_rounds (round_set r (f r) db)"
    and x: "x = f r" using requireRound_row [OF req] by blast+
  show ?thesis unfolding db'
    using mem c f(1) f(2) [OF Pr] requireRound_row [OF req] ok' x unfolding rows by (intro fx_set) simp_all
qed

lemma waiting_effect:
  assumes "rounds_ok (db_rounds db)" and "transitionDagRunRoundToWaiting env clock i db = Inr (db', x)"
  shows "round_effect env db db'"
  using assms(2) unfolding transitionDagRunRoundToWaiting_def Let_def
  apply (simp only: round_simps)
  apply (elim exE conjE)
  apply hypsubst
  apply (drule expected_round [OF assms(1)], simp only: js_trim_idem)
  apply (rule set_effectI [OF assms(1)], assumption+)
    apply simp
   apply (simp add: round_keeps_def round_key_def)
  apply (simp add: round_moves.intros)
  done

lemma terminal_effect:
  assumes "rounds_ok (db_rounds db)" and "terminalizeCurrentDagRunRound env clock i db = Inr (db', x)" and "round_ended (tr_status i)"
  shows "round_effect env db db'"
  using assms(2) unfolding terminalizeCurrentDagRunRound_def Let_def
  apply (simp only: round_simps)
  apply (elim exE conjE)
  apply hypsubst
  apply (drule expected_round [OF assms(1)], simp only: js_trim_idem)
  apply (rule set_effectI [OF assms(1)], assumption+)
    apply simp
   apply (simp add: round_keeps_def round_key_def)
  apply (simp add: round_moves.intros assms(3))
  done

lemma inserted_round:
  assumes "rounds_ok (rows @ [x])" and "requireRound env (db\<lparr>db_rounds := rows @ [x]\<rparr>) run k = Inr (y, ids)" and "round_key x = (run, k)"
  shows "y = x \<and> round_readable env x"
  using requireRound_row [OF assms(2)] getRoundRow_key [of "db\<lparr>db_rounds := rows @ [x]\<rparr>" run k y] assms(3)
    round_row_unique [OF assms(1), of y x] by auto

lemma initial_effect:
  assumes "createInitialDagRunRound env clock i db = Inr (db', x)"
  shows "round_effect env db db'"
  using assms unfolding createInitialDagRunRound_def Let_def
  apply (simp only: round_simps)
  apply (elim exE conjE)
  apply hypsubst
  apply (frule (1) inserted_round)
   apply (simp only: round_key_def round_row.simps)
  apply (rule fx_initial)
      apply (simp_all add: rounds_of_def filter_empty_conv list_ex_iff rev_image_eqI)
  apply force
  done

lemma next_effectI:
  assumes inv: "rounds_ok (db_rounds db)" and cur: "getRoundRow db run k = Some r \<and> round_current r \<and> round_readable env r"
    and ok': "rounds_ok (rewritten P (rr_status_update (\<lambda>_. Round_completed)) (db_rounds db))"
    and n: "\<not> length (filter P (db_rounds db)) \<noteq> 1"
    and ok: "rounds_ok (rewritten P (rr_status_update (\<lambda>_. Round_completed)) (db_rounds db) @ [x])"
    and req: "requireRound env (db\<lparr>db_rounds := rewritten P (rr_status_update (\<lambda>_. Round_completed)) (db_rounds db) @ [x]\<rparr>) run j = Inr (y, ids)"
    and st: "\<not> rr_status r \<noteq> Round_waiting"
    and op: "\<not> t < (case rr_closed_at r of None \<Rightarrow> rr_opened_at r | Some t \<Rightarrow> t)"
    and x: "round_key x = (run, j)" "rr_ordinal x = rr_ordinal r + 1" "rr_status x = Round_active" "rr_opened_at x = t"
    and P: "\<And>s. P s \<Longrightarrow> rr_run_id s = run \<and> rr_round_id s = k"
  shows "round_effect env db (db\<lparr>db_rounds := rewritten P (rr_status_update (\<lambda>_. Round_completed)) (db_rounds db) @ [x]\<rparr>)"
proof -
  let ?r = "r\<lparr>rr_status := Round_completed\<rparr>"
  have g: "getRoundRow db run k = Some r" using cur by simp
  have mem: "r \<in> set (db_rounds db)" "rr_run_id r = run" using getRoundRow_key [OF g] by (simp_all add: round_key_def)
  have rows: "rewritten P (rr_status_update (\<lambda>_. Round_completed)) (db_rounds db) = db_rounds (round_set r ?r db)"
    using round_written [where P = P and f = "rr_status_update (\<lambda>_. Round_completed)", OF inv g ok' n P]
    by (simp add: round_key_def)
  have "round_check r" using inv mem by (simp add: rounds_ok_def list_all_iff)
  with st obtain c where c: "rr_closed_at r = Some c" by (auto simp: round_check_def)
  show ?thesis
    using mem st c op x inserted_round [OF ok req x(1)] ok unfolding rows
    by (intro fx_next [where r = r and c = c and x = x]) (simp_all add: round_key_def)
qed

lemma next_effect:
  assumes "rounds_ok (db_rounds db)" and "openNextDagRunRound env clock i db = Inr (db', x)"
  shows "round_effect env db db'"
  using assms(2) unfolding openNextDagRunRound_def Let_def
  apply (simp only: round_simps)
  apply (elim exE conjE)
  apply hypsubst
  apply (drule expected_round [OF assms(1)], simp only: js_trim_idem)
  apply (rule next_effectI [OF assms(1)], assumption+)
       apply (simp_all add: round_key_def)
  done

section \<open>Steps and their abstraction\<close>

inductive round_step :: "js_env \<Rightarrow> ('m) round_db_scheme \<Rightarrow> ('m) round_db_scheme \<Rightarrow> bool" for env where
  rd_initial: "createInitialDagRunRound env clock i db = Inr (db', x) \<Longrightarrow> round_step env db db'"
| rd_waiting: "transitionDagRunRoundToWaiting env clock w db = Inr (db', x) \<Longrightarrow> round_step env db db'"
| rd_next: "openNextDagRunRound env clock n db = Inr (db', x) \<Longrightarrow> round_step env db db'"
| rd_terminal: "terminalizeCurrentDagRunRound env clock t db = Inr (db', x) \<Longrightarrow> round_ended (tr_status t) \<Longrightarrow> round_step env db db'"

definition round_init :: "('m) round_db_scheme \<Rightarrow> bool" where
  "round_init db \<longleftrightarrow> db_rounds db = []"

lemma round_step_effect: "round_step env db db' \<Longrightarrow> rounds_ok (db_rounds db) \<Longrightarrow> round_effect env db db'"
  by (induction rule: round_step.induct) (auto intro: initial_effect waiting_effect next_effect terminal_effect)

text \<open>The abstract machine: the number of rounds of a run and the status of its last round.\<close>

inductive round_spec :: "(nat \<times> round_status) option \<Rightarrow> (nat \<times> round_status) option \<Rightarrow> bool" where
  spec_initial: "round_spec None (Some (1, s))"
| spec_next: "round_spec (Some (n, Round_waiting)) (Some (Suc n, Round_active))"
| spec_move: "round_moves s t \<Longrightarrow> round_spec (Some (n, s)) (Some (n, t))"

inductive_simps round_moves_from [simp]: "round_moves s t"

inductive_cases round_spec_someE: "round_spec (Some p) q"

definition round_phase :: "('m) round_db_scheme \<Rightarrow> string \<Rightarrow> (nat \<times> round_status) option" where
  "round_phase db run = (case rev (rounds_of db run) of [] \<Rightarrow> None | r # rs \<Rightarrow> Some (Suc (length rs), rr_status r))"

lemma phase_snoc: "rounds_of db run = us @ [r] \<Longrightarrow> round_phase db run = Some (Suc (length us), rr_status r)"
  by (simp add: round_phase_def)

lemma rounds_of_set:
  assumes "rr_run_id x = rr_run_id r"
  shows "rounds_of (round_set r x db) run = rewritten (\<lambda>s. s = r) (\<lambda>_. x) (rounds_of db run)"
  using assms unfolding rounds_of_def round_set_def rewritten_def by (auto simp: filter_map o_def intro!: map_cong filter_cong)

lemma rewritten_last: "r \<notin> set us \<Longrightarrow> rewritten (\<lambda>s. s = r) (\<lambda>_. x) (us @ [r]) = us @ [x]"
  by (auto simp: rewritten_def intro: map_idI)

lemma rewritten_other: "r \<notin> set rs \<Longrightarrow> rewritten (\<lambda>s. s = r) (\<lambda>_. x) rs = rs"
  by (auto simp: rewritten_def intro: map_idI)

lemma rounds_of_set_other:
  assumes "rr_run_id x = rr_run_id r" and "run \<noteq> rr_run_id r"
  shows "rounds_of (round_set r x db) run = rounds_of db run"
proof -
  have "r \<notin> set (rounds_of db run)" using assms(2) by (auto simp: rounds_of_def)
  then show ?thesis by (simp add: rounds_of_set [OF assms(1)] rewritten_other)
qed

lemma readable_status: "round_readable env r \<Longrightarrow> round_readable env (r\<lparr>rr_status := s\<rparr>)"
  unfolding round_readable_def roundFromRow_def by (auto split: option.split_asm js.split_asm)

text \<open>What an effect does to the chain of its run, and that it leaves the other chains alone.\<close>

lemma effect_chain:
  assumes "round_effect env db db'" and "round_inv env db"
  shows "\<exists>run. (\<forall>run'. run' \<noteq> run \<longrightarrow> rounds_of db' run' = rounds_of db run') \<and> round_history (rounds_of db' run)
    \<and> round_spec (round_phase db run) (round_phase db' run)"
  using assms(1)
proof cases
  case (fx_initial x)
  then have "rounds_of db' (rr_run_id x) = [x]" "rounds_of db' run' = rounds_of db run'" if "run' \<noteq> rr_run_id x" for run'
    using that by (simp_all add: rounds_of_def)
  moreover have "rounds_of db' (rr_run_id x) = [x]" using fx_initial by (simp add: rounds_of_def)
  ultimately show ?thesis
    using fx_initial(2,4) by (intro exI [of _ "rr_run_id x"]) (auto simp: round_phase_def intro: round_spec.intros(1) [of "rr_status x", simplified])
next
  case (fx_set r x)
  have h: "round_history (rounds_of db (rr_run_id r))" using assms(2) by (simp add: round_inv_def)
  have "r \<in> set (rounds_of db (rr_run_id r))" using fx_set by (simp add: rounds_of_def)
  from history_current [OF h this fx_set(3)] obtain us where us: "rounds_of db (rr_run_id r) = us @ [r]" "r \<notin> set us" .
  have k: "rr_run_id x = rr_run_id r" "rr_ordinal x = rr_ordinal r" "rr_opened_at x = rr_opened_at r"
    using fx_set(4) by (simp_all add: round_keeps_def round_key_def)
  have "rounds_of db' (rr_run_id r) = us @ [x]" using us fx_set(1) by (simp add: rounds_of_set [OF k(1)] rewritten_last)
  moreover have "rounds_of db' run' = rounds_of db run'" if "run' \<noteq> rr_run_id r" for run'
    using that fx_set(1) by (simp add: rounds_of_set_other [OF k(1)])
  ultimately show ?thesis
    using us h history_last [of us r x] k fx_set(5) by (intro exI [of _ "rr_run_id r"]) (auto simp: phase_snoc intro: spec_move)
next
  case (fx_next r x c rows)
  let ?r = "r\<lparr>rr_status := Round_completed\<rparr>"
  have h: "round_history (rounds_of db (rr_run_id r))" using assms(2) by (simp add: round_inv_def)
  have "r \<in> set (rounds_of db (rr_run_id r))" "round_current r" using fx_next by (simp_all add: rounds_of_def round_current_def)
  from history_current [OF h this] obtain us where us: "rounds_of db (rr_run_id r) = us @ [r]" "r \<notin> set us" .
  have rows: "rounds_of db' run' = rounds_of (round_set r ?r db) run' @ (if run' = rr_run_id r then [x] else [])" for run'
    using fx_next by (simp add: rounds_of_def)
  have "rounds_of db' (rr_run_id r) = us @ [?r, x]" using us by (simp add: rows rounds_of_set rewritten_last)
  moreover have "rounds_of db' run' = rounds_of db run'" if "run' \<noteq> rr_run_id r" for run'
    using that by (simp add: rows rounds_of_set_other)
  moreover have "round_history (us @ [?r, x])"
    using us h history_last [of us r ?r] fx_next by (intro history_next [where c = c]) simp_all
  ultimately show ?thesis
    using us fx_next phase_snoc [of db' "rr_run_id r" "us @ [?r]" x]
    by (intro exI [of _ "rr_run_id r"]) (auto simp: phase_snoc intro: spec_next)
qed

lemma round_effect_inv:
  assumes "round_effect env db db'" and "round_inv env db"
  shows "round_inv env db'"
proof -
  obtain run where "\<forall>run'. run' \<noteq> run \<longrightarrow> rounds_of db' run' = rounds_of db run'" "round_history (rounds_of db' run)"
    using effect_chain [OF assms] by blast
  then have "round_history (rounds_of db' run')" for run' using assms(2) by (cases "run' = run") (simp_all add: round_inv_def)
  moreover from assms have "rounds_ok (db_rounds db') \<and> (\<forall>r \<in> set (db_rounds db'). round_readable env r \<and> rr_run_id r \<in> fst ` set (db_runs db'))"
  proof (induction rule: round_effect.induct)
    case (fx_set r x)
    then show ?case by (auto simp: round_inv_def round_set_def rewritten_def round_keeps_def round_key_def)
  next
    case (fx_next r x c rows)
    then have "round_readable env (r\<lparr>rr_status := Round_completed\<rparr>)" "round_readable env x"
      by (auto simp: round_inv_def intro: readable_status)
    with fx_next show ?case by (auto simp: round_inv_def round_set_def rewritten_def)
  qed (auto simp: round_inv_def)
  ultimately show ?thesis by (simp add: round_inv_def)
qed

section \<open>The contracts\<close>

lemma round_init_inv: "round_init db \<Longrightarrow> round_inv env db"
  by (simp add: round_init_def round_inv_def rounds_ok_def rounds_of_def)

lemma round_step_inv: "round_step env db db' \<Longrightarrow> round_inv env db \<Longrightarrow> round_inv env db'"
  using round_step_effect round_effect_inv unfolding round_inv_def by blast

lemma round_step_refines:
  assumes "round_step env db db'" and "round_inv env db"
  shows "\<exists>run. round_spec (round_phase db run) (round_phase db' run) \<and> (\<forall>r. r \<noteq> run \<longrightarrow> round_phase db' r = round_phase db r)"
proof -
  have "round_effect env db db'" using assms by (intro round_step_effect) (simp_all add: round_inv_def)
  from effect_chain [OF this assms(2)] show ?thesis unfolding round_phase_def by metis
qed

interpretation rounds: refinement round_init "round_step env" "round_inv env" round_phase round_spec for env
  by unfold_locales (auto intro: round_init_inv round_step_inv dest: round_step_refines)

section \<open>Reading a chain\<close>

lemma mapE_readable: "\<forall>r \<in> set rows. round_readable env r \<Longrightarrow> \<exists>vs. mapE (roundFromRow env) rows = Inr vs \<and> map fst vs = rows"
proof (induction rows)
  case (Cons r rows)
  then obtain vs ids where "mapE (roundFromRow env) rows = Inr vs" "map fst vs = rows" "roundFromRow env r = Inr (r, ids)"
    by (auto simp: round_readable_def)
  then show ?case by (intro exI [of _ "(r, ids) # vs"]) simp
qed simp

lemma history_ordered: "round_history rs \<Longrightarrow> sort_key (\<lambda>r. (rr_ordinal r, rr_round_id r)) rs = rs"
proof (rule sort_key_id_if_sorted)
  assume h: "round_history rs"
  have "sorted_wrt (<) (map rr_ordinal rs)" using h unfolding round_history_def by (simp add: sorted_wrt_map del: upt_Suc)
  then show "sorted (map (\<lambda>r. (rr_ordinal r, rr_round_id r)) rs)"
    by (auto simp: sorted_wrt_map elim: sorted_wrt_mono_rel [rotated])
qed

lemma chained_nth: "chained rs \<Longrightarrow> Suc i < length rs \<Longrightarrow>
  rr_status (rs ! i) = Round_completed \<and> (\<exists>c. rr_closed_at (rs ! i) = Some c \<and> c \<le> rr_opened_at (rs ! Suc i))"
proof (induction rs arbitrary: i rule: chained.induct)
  case (1 r s rs)
  then show ?case by (cases i) auto
qed auto

lemma currentRoundRow_rounds_of: "currentRoundRow db run = find round_current (rounds_of db run)"
  by (simp add: currentRoundRow_def rounds_of_def find_filter)

lemma find_current_snoc:
  assumes "chained (us @ [r])"
  shows "find round_current (us @ [r]) = (if round_current r then Some r else None)"
proof -
  have "find round_current us = None" using chained_front [OF assms] by (auto simp: find_None_iff round_current_def)
  then show ?thesis by (simp add: find_append)
qed

section \<open>A concrete run\<close>

definition round_env :: js_env where
  "round_env = \<lparr>env_num_str = \<lambda>_. [], env_sha256 = \<lambda>_. [], env_json_parse = \<lambda>_. Some (JArr [JStr ''a''])\<rparr>"

definition round_demo0 :: round_db where
  "round_demo0 = \<lparr>db_runs = [(''r'', ''running'')], db_actors = [], db_commands = [], db_rounds = []\<rparr>"

definition demo_initial :: initial_round_input where
  "demo_initial = \<lparr>ir_run_id = ''r'', ir_round_id = ''1'', ir_targets = [''a''], ir_status = None, ir_await_node_id = None,
     ir_opened_at = None, ir_closed_at = None, ir_expires_at = None\<rparr>"

definition demo_waiting :: waiting_input where
  "demo_waiting = \<lparr>wi_run_id = ''r'', wi_round_id = ''1'', wi_await_node_id = ''n'', wi_closed_at = None, wi_expires_at = None\<rparr>"

definition demo_next :: next_round_input where
  "demo_next = \<lparr>nr_run_id = ''r'', nr_expected_round_id = ''1'', nr_round_id = ''2'', nr_targets = [''a''], nr_opened_at = None,
     nr_expires_at = None\<rparr>"

definition demo_round :: round_row where
  "demo_round = \<lparr>rr_run_id = ''r'', rr_round_id = ''1'', rr_ordinal = 1, rr_status = Round_active,
     rr_targets_json = encodeTargets round_env [''a''], rr_await_node_id = None, rr_opened_at = 5, rr_closed_at = None,
     rr_expires_at = None\<rparr>"

definition waiting_round :: round_row where
  "waiting_round = demo_round\<lparr>rr_status := Round_waiting, rr_await_node_id := Some ''n'', rr_closed_at := Some 6\<rparr>"

definition round_demo1 :: round_db where "round_demo1 = round_demo0\<lparr>db_rounds := [demo_round]\<rparr>"

definition round_demo2 :: round_db where "round_demo2 = round_demo0\<lparr>db_rounds := [waiting_round]\<rparr>"

definition round_demo3 :: round_db where
  "round_demo3 = round_demo0\<lparr>db_rounds := [waiting_round\<lparr>rr_status := Round_completed\<rparr>,
     demo_round\<lparr>rr_round_id := ''2'', rr_ordinal := 2, rr_opened_at := 7\<rparr>]\<rparr>"

lemma round_demo_steps:
  "round_step round_env round_demo0 round_demo1" "round_step round_env round_demo1 round_demo2" "round_step round_env round_demo2 round_demo3"
proof -
  have "createInitialDagRunRound round_env 5 demo_initial round_demo0 = Inr (round_demo1, (demo_round, [''a'']))" by code_simp
  then show "round_step round_env round_demo0 round_demo1" by (rule rd_initial)
  have "transitionDagRunRoundToWaiting round_env 6 demo_waiting round_demo1 = Inr (round_demo2, (waiting_round, [''a'']))" by code_simp
  then show "round_step round_env round_demo1 round_demo2" by (rule rd_waiting)
  have "openNextDagRunRound round_env 7 demo_next round_demo2
      = Inr (round_demo3, (demo_round\<lparr>rr_round_id := ''2'', rr_ordinal := 2, rr_opened_at := 7\<rparr>, [''a'']))" by code_simp
  then show "round_step round_env round_demo2 round_demo3" by (rule rd_next)
qed

lemma round_demo_reach: "reach round_init (round_step round_env) round_demo2"
proof -
  have "reach round_init (round_step round_env) round_demo0" by (rule reach_init) (simp add: round_init_def round_demo0_def)
  then show ?thesis using round_demo_steps(1,2) by (blast intro: reach_step)
qed

section \<open>Properties\<close>

text \<open>C19. The store of rounds refines the abstract machine: every operation that succeeds is one step of the
  machine of one run, opening the first round, opening the next after a waiting one, or moving the
  current round along its edges, and leaves the rounds of every other run as they are; hence any
  sequence of operations is a run of the machine.\<close>

theorem rounds_refine:
  assumes "reach round_init (round_step env) db" and "(round_step env)\<^sup>*\<^sup>* db db'" and "round_step env db' db''"
  shows "(\<exists>run. round_spec (round_phase db' run) (round_phase db'' run)
      \<and> (\<forall>r. r \<noteq> run \<longrightarrow> round_phase db'' r = round_phase db' r))
    \<and> (\<forall>run. round_spec\<^sup>*\<^sup>* (round_phase db run) (round_phase db' run))"
  using rounds.refines [OF assms(3) rounds.steps_inv [OF assms(2) rounds.reach_inv [OF assms(1)]]]
    rounds.phase_steps [OF assms(2) rounds.reach_inv [OF assms(1)]] by blast

lemma rounds_refine_witness:
  "\<exists>run. round_spec (round_phase round_demo2 run) (round_phase round_demo3 run)"
  using rounds_refine [OF round_demo_reach rtranclp.rtrancl_refl round_demo_steps(3)] by blast

text \<open>Listing the rounds of a run never fails and gives a chain: ordinals count from one, every round but the
  last is completed and was closed before the next one opened; the current round is the last one, if
  that has not ended, and otherwise there is none.\<close>

theorem rounds_chain:
  assumes "reach round_init (round_step env) db" and "assertIdentifier run ''run_id'' = (Inr r :: round_conflict err + _)"
  shows "\<exists>vs. listDagRunRounds env run db = Inr vs
    \<and> map (rr_ordinal \<circ> fst) vs = map int [1..<Suc (length vs)]
    \<and> (\<forall>i. Suc i < length vs \<longrightarrow> rr_status (fst (vs ! i)) = Round_completed
         \<and> (\<exists>c. rr_closed_at (fst (vs ! i)) = Some c \<and> c \<le> rr_opened_at (fst (vs ! Suc i))))
    \<and> getCurrentDagRunRound env run db
        = Inr (if vs = [] \<or> round_ended (rr_status (fst (last vs))) then None else Some (last vs))"
proof -
  note inv = rounds.reach_inv [OF assms(1)]
  let ?rs = "rounds_of db r"
  have h: "round_history ?rs" using inv by (simp add: round_inv_def)
  have "\<forall>x \<in> set ?rs. round_readable env x" using inv by (auto simp: round_inv_def rounds_of_def)
  then obtain vs where vs: "mapE (roundFromRow env) ?rs = Inr vs" "map fst vs = ?rs" using mapE_readable by blast
  have len: "length vs = length ?rs" using vs(2) by (metis length_map)
  have list: "listDagRunRounds env run db = Inr vs"
    using vs(1) history_ordered [OF h] assms(2) by (simp add: listDagRunRounds_def rounds_of_def)
  have ord: "map (rr_ordinal \<circ> fst) vs = map int [1..<Suc (length vs)]"
    using h len unfolding round_history_def map_map [symmetric] vs(2) by (simp del: upt_Suc)
  have nth: "fst (vs ! i) = ?rs ! i" if "i < length vs" for i using vs(2) that by (metis nth_map)
  have "getCurrentDagRunRound env run db
      = Inr (if vs = [] \<or> round_ended (rr_status (fst (last vs))) then None else Some (last vs))"
  proof (cases vs rule: rev_cases)
    case Nil
    with vs(2) assms(2) show ?thesis by (simp add: getCurrentDagRunRound_def currentRoundRow_rounds_of optE_def)
  next
    case (snoc us v)
    with vs(2) have rs: "?rs = map fst us @ [fst v]" by simp
    have v: "roundFromRow env (fst v) = Inr v"
      using vs(1) unfolding rs snoc by (auto simp: mapE_Inr list_all2_append)
    have "currentRoundRow db r = (if round_current (fst v) then Some (fst v) else None)"
      using h unfolding currentRoundRow_rounds_of rs by (intro find_current_snoc) (simp add: round_history_def)
    then show ?thesis using v assms(2) snoc
      by (cases "rr_status (fst v)") (simp_all add: getCurrentDagRunRound_def round_current_def round_ended_def optE_def)
  qed
  with list ord nth chained_nth [of ?rs] h len show ?thesis by (intro exI [of _ vs]) (auto simp: round_history_def)
qed

lemma rounds_chain_witness:
  "\<exists>vs. listDagRunRounds round_env ''r'' round_demo3 = Inr vs \<and> map (rr_ordinal \<circ> fst) vs = map int [1..<Suc (length vs)]"
proof -
  have "assertIdentifier ''r'' ''run_id'' = (Inr ''r'' :: round_conflict err + _)" by code_simp
  from rounds_chain [OF reach_step [where step = "round_step round_env", OF round_demo_reach round_demo_steps(3)] this] show ?thesis by blast
qed

end
