(* ===== verification/Interventions_Theorems.thy ===== *)
theory Interventions_Theorems
  imports Interventions Run_Rounds_Theorems
begin

text \<open>
  An intervention keeps its identity and moves along its status graph, an actor has at most one that is
  active, and the operations on exclusions and snapshots leave only rows that an intervention backs.
\<close>

section \<open>How an intervention evolves\<close>

inductive intervention_next :: "intervention_status \<Rightarrow> intervention_status \<Rightarrow> bool" where
  "intervention_next Iv_queued Iv_applying"
| "intervention_next Iv_queued Iv_failed"
| "intervention_next Iv_applying Iv_applied"
| "intervention_next Iv_applying Iv_failed"

inductive_simps intervention_next_simps [simp]:
  "intervention_next Iv_queued s" "intervention_next Iv_applying s" "intervention_next Iv_applied s" "intervention_next Iv_failed s"

definition intervention_final :: "intervention_status \<Rightarrow> bool" where
  "intervention_final s \<longleftrightarrow> s = Iv_applied \<or> s = Iv_failed"

fun intervention_rank :: "intervention_status \<Rightarrow> nat" where
  "intervention_rank Iv_queued = 0"
| "intervention_rank Iv_applying = 1"
| "intervention_rank _ = 2"

text \<open>The generation it is applied to is set when it starts and stays.\<close>

definition intervention_moves :: "intervention_row \<Rightarrow> intervention_row \<Rightarrow> bool" where
  "intervention_moves r x \<longleftrightarrow> sameIntervention r x \<and> iv_payload_json x = iv_payload_json r \<and> iv_created_at x = iv_created_at r
     \<and> intervention_next (iv_status r) (iv_status x)
     \<and> (iv_status r \<noteq> Iv_queued \<longrightarrow> iv_from_generation x = iv_from_generation r \<and> iv_started_at x = iv_started_at r)"

definition intervention_evolves :: "intervention_row \<Rightarrow> intervention_row \<Rightarrow> bool" where
  "intervention_evolves r x \<longleftrightarrow> x = r \<or> (sameIntervention r x \<and> iv_payload_json x = iv_payload_json r
     \<and> iv_created_at x = iv_created_at r \<and> intervention_next\<^sup>+\<^sup>+ (iv_status r) (iv_status x)
     \<and> (iv_status r \<noteq> Iv_queued \<longrightarrow> iv_from_generation x = iv_from_generation r \<and> iv_started_at x = iv_started_at r))"

lemma next_path_rank: "intervention_next\<^sup>+\<^sup>+ s t \<Longrightarrow> intervention_rank s < intervention_rank t"
  by (induction rule: tranclp_induct) (auto elim!: intervention_next.cases)

lemma next_path_final: "intervention_next\<^sup>+\<^sup>+ s t \<Longrightarrow> \<not> intervention_final s"
  by (induction rule: converse_tranclp_induct) (auto elim!: intervention_next.cases simp: intervention_final_def)

lemma moves_evolves: "intervention_moves r x \<Longrightarrow> intervention_evolves r x"
  by (auto simp: intervention_moves_def intervention_evolves_def)

lemma intervention_evolves_refl [simp]: "intervention_evolves r r"
  by (simp add: intervention_evolves_def)

lemma next_path_queued [simp]: "\<not> intervention_next\<^sup>+\<^sup>+ s Iv_queued"
  using next_path_rank [of s Iv_queued] by auto

lemma intervention_evolves_trans: "intervention_evolves r x \<Longrightarrow> intervention_evolves x y \<Longrightarrow> intervention_evolves r y"
  proof -
  assume rx: "intervention_evolves r x" and xy: "intervention_evolves x y"
  show ?thesis
  proof (cases "x = r \<or> y = x")
    case True
    with rx xy show ?thesis by auto
  next
    case False
    with rx xy have "intervention_next\<^sup>+\<^sup>+ (iv_status r) (iv_status x)" "intervention_next\<^sup>+\<^sup>+ (iv_status x) (iv_status y)"
      by (simp_all add: intervention_evolves_def)
    then have "intervention_next\<^sup>+\<^sup>+ (iv_status r) (iv_status y)" "iv_status x \<noteq> Iv_queued" by (auto intro: tranclp_trans)
    with False rx xy show ?thesis by (simp add: intervention_evolves_def sameIntervention_def)
  qed
qed

lemma intervention_evolves_id: "intervention_evolves r x \<Longrightarrow> sameIntervention r x"
  by (auto simp: intervention_evolves_def sameIntervention_def)

section \<open>The invariant\<close>

definition intervention_readable :: "js_env \<Rightarrow> intervention_row \<Rightarrow> bool" where
  "intervention_readable env r \<longleftrightarrow> (\<exists>i. interventionFromRow env r = Inr i)"

definition interventions_inv :: "js_env \<Rightarrow> ('m) intervention_db_scheme \<Rightarrow> bool" where
  "interventions_inv env db \<longleftrightarrow> interventions_ok (db_interventions db)
     \<and> (\<forall>r \<in> set (db_interventions db). intervention_readable env r \<and> getActorRow db (iv_run_id r) (iv_actor_id r) \<noteq> None)"

text \<open>An exclusion rests on a reassignment of the actor that runs its node, a snapshot on an intervention on its actor.\<close>

definition exclusion_backed :: "('m) intervention_db_scheme \<Rightarrow> exclusion_row \<Rightarrow> bool" where
  "exclusion_backed db x \<longleftrightarrow> (\<exists>a. getActorRow db (ex_run_id x) (ex_actor_id x) = Some a \<and> ac_node_id a = ex_node_id x)
     \<and> (\<exists>i. interventionRowById db (ex_intervention_id x) = Some i \<and> iv_run_id i = ex_run_id x
          \<and> iv_actor_id i = ex_actor_id x \<and> iv_operation i = Op_reassign)"

definition snapshot_backed :: "('m) intervention_db_scheme \<Rightarrow> snapshot_row \<Rightarrow> bool" where
  "snapshot_backed db s \<longleftrightarrow> getActorRow db (sn_run_id s) (sn_actor_id s) \<noteq> None
     \<and> (\<exists>i. interventionRowById db (sn_intervention_id s) = Some i \<and> iv_run_id i = sn_run_id s \<and> iv_actor_id i = sn_actor_id s)"

definition exclusions_inv :: "('m) intervention_db_scheme \<Rightarrow> bool" where
  "exclusions_inv db \<longleftrightarrow> exclusions_ok (db_exclusions db) \<and> (\<forall>x \<in> set (db_exclusions db). exclusion_backed db x)"

definition snapshots_inv :: "js_env \<Rightarrow> ('m) intervention_db_scheme \<Rightarrow> bool" where
  "snapshots_inv env db \<longleftrightarrow> snapshots_ok (db_snapshots db)
     \<and> (\<forall>s \<in> set (db_snapshots db). snapshot_backed db s \<and> env_json_parse env (sn_json s) \<noteq> None)"

definition intervention_inv :: "js_env \<Rightarrow> ('m) intervention_db_scheme \<Rightarrow> bool" where
  "intervention_inv env db \<longleftrightarrow> actor_inv env db \<and> interventions_inv env db \<and> exclusions_inv db \<and> snapshots_inv env db"

definition intervention_init :: "('m) intervention_db_scheme \<Rightarrow> bool" where
  "intervention_init db \<longleftrightarrow> actor_init db \<and> db_interventions db = [] \<and> db_exclusions db = [] \<and> db_snapshots db = []"

inductive intervention_step :: "js_env \<Rightarrow> ('m) intervention_db_scheme \<Rightarrow> ('m) intervention_db_scheme \<Rightarrow> bool" for env where
  is_actor: "actor_step env db db' \<Longrightarrow> intervention_step env db db'"
| is_create: "createDagActorIntervention env clock i db = Inr r \<Longrightarrow> intervention_step env db (ir_db r)"
| is_applying: "markDagActorInterventionApplying env clock a db = Inr r \<Longrightarrow> intervention_step env db (ir_db r)"
| is_complete: "completeDagActorIntervention env clock c db = Inr r \<Longrightarrow> intervention_step env db (ir_db r)"
| is_fail: "failDagActorIntervention env clock f db = Inr r \<Longrightarrow> intervention_step env db (ir_db r)"
| is_exclude: "upsertDagActorDispatchExclusion env clock x db = Inr (db', row) \<Longrightarrow> intervention_step env db db'"
| is_clear: "clearDagActorDispatchExclusion run node db = Inr (db', b) \<Longrightarrow> intervention_step env db db'"
| is_snapshot: "createDagSurfaceGenerationSnapshot env clock s db = Inr (db', v, new) \<Longrightarrow> intervention_step env db db'"

section \<open>Effects\<close>

inductive intervention_effect :: "js_env \<Rightarrow> ('m) intervention_db_scheme \<Rightarrow> ('m) intervention_db_scheme \<Rightarrow> bool" for env db where
  ie_same: "intervention_effect env db db"
| ie_actor: "db_effect env db db' \<Longrightarrow> intervention_effect env db db'"
| ie_new: "interventions_ok (db_interventions db @ [x]) \<Longrightarrow> intervention_readable env x
    \<Longrightarrow> getActorRow db (iv_run_id x) (iv_actor_id x) \<noteq> None
    \<Longrightarrow> intervention_effect env db (db\<lparr>db_interventions := db_interventions db @ [x]\<rparr>)"
| ie_moved: "r \<in> set (db_interventions db) \<Longrightarrow> intervention_moves r x \<Longrightarrow> intervention_readable env x
    \<Longrightarrow> rows = rewritten (\<lambda>s. s = r) (\<lambda>_. x) (db_interventions db) \<Longrightarrow> interventions_ok rows
    \<Longrightarrow> intervention_effect env db (db\<lparr>db_interventions := rows\<rparr>)"
| ie_exclusions: "exclusions_ok rows \<Longrightarrow> \<forall>x \<in> set rows. x \<in> set (db_exclusions db) \<or> exclusion_backed db x
    \<Longrightarrow> intervention_effect env db (db\<lparr>db_exclusions := rows\<rparr>)"
| ie_snapshot: "snapshots_ok (db_snapshots db @ [s]) \<Longrightarrow> snapshot_refs db s \<Longrightarrow> env_json_parse env (sn_json s) \<noteq> None
    \<Longrightarrow> intervention_effect env db (db\<lparr>db_snapshots := db_snapshots db @ [s]\<rparr>)"

lemma interventionRowById_key: "interventionRowById db k = Some r \<Longrightarrow> iv_intervention_id r = k \<and> r \<in> set (db_interventions db)"
  unfolding interventionRowById_def by (drule find_SomeD) simp

lemma intervention_row_unique:
  "interventions_ok rows \<Longrightarrow> r \<in> set rows \<Longrightarrow> s \<in> set rows \<Longrightarrow> iv_intervention_id r = iv_intervention_id s \<Longrightarrow> r = s"
  unfolding interventions_ok_def using unique_on_eq [of "\<lambda>_. True" iv_intervention_id rows r s] by blast

lemma interventionRowById_mem:
  assumes "interventions_ok (db_interventions db)" and "r \<in> set (db_interventions db)"
  shows "interventionRowById db (iv_intervention_id r) = Some r"
proof -
  from assms(2) have "interventionRowById db (iv_intervention_id r) \<noteq> None"
    unfolding interventionRowById_def by (auto simp: find_None_iff)
  then obtain s where s: "interventionRowById db (iv_intervention_id r) = Some s" by blast
  with interventionRowById_key [OF s] intervention_row_unique [OF assms(1), of s r] assms(2) show ?thesis by simp
qed

lemma reload_row: "reloadIntervention env db k = Inr i \<Longrightarrow> \<exists>r. interventionRowById db k = Some r \<and> intervention_readable env r"
  by (auto simp: reloadIntervention_def intervention_readable_def split: option.splits)

text \<open>An update that succeeds rewrites the one row of its key.\<close>

lemma updated_effect:
  assumes ok: "interventions_ok (db_interventions db)" and "interventionRowById db k = Some r"
    and upd: "intervention_updated env k P f db = Inr res" and f: "P r \<Longrightarrow> intervention_moves r (f r)"
  shows "intervention_effect env db (ir_db res) \<and> interventionRowById (ir_db res) k = Some (f r)"
proof -
  have r: "iv_intervention_id r = k" "r \<in> set (db_interventions db)" using interventionRowById_key [OF assms(2)] by simp_all
  let ?P = "\<lambda>r. iv_intervention_id r = k \<and> P r"
  let ?rows = "rewritten ?P f (db_interventions db)"
  from upd obtain i where ok': "interventions_ok ?rows" and n: "length (filter ?P (db_interventions db)) = 1"
    and i: "reloadIntervention env (db\<lparr>db_interventions := ?rows\<rparr>) k = Inr i"
    and res: "ir_db res = db\<lparr>db_interventions := ?rows\<rparr>"
    unfolding intervention_updated_def by (auto simp: bind_inv Let_def intervention_done_def)
  have w: "P r \<and> ?rows = rewritten (\<lambda>s. s = r) (\<lambda>_. f r) (db_interventions db)"
    using rewritten_unique [where P = ?P and f = f and key = iv_intervention_id and rows = "db_interventions db" and r = r] ok n r
    by (auto simp: interventions_ok_def)
  then have m: "intervention_moves r (f r)" using f by blast
  then have key: "iv_intervention_id (f r) = k" using r(1) by (simp add: intervention_moves_def sameIntervention_def)
  have "f r \<in> set ?rows" using w r(2) by (auto simp: rewritten_def)
  with interventionRowById_mem [of "db\<lparr>db_interventions := ?rows\<rparr>" "f r"] ok' key
  have row: "interventionRowById (db\<lparr>db_interventions := ?rows\<rparr>) k = Some (f r)" by simp
  with reload_row [OF i] have "intervention_readable env (f r)" by simp
  with m w r(2) ok' row res show ?thesis by (auto intro: ie_moved)
qed

lemma intervention_done_Inr: "intervention_done db b i = Inr r \<longleftrightarrow> r = \<lparr>ir_db = db, ir_intervention = i, ir_changed = b, ir_deduplicated = \<not> b\<rparr>"
  by (auto simp: intervention_done_def)

lemma requireIntervention_Inr: "requireIntervention db k = Inr r \<longleftrightarrow> interventionRowById db k = Some r"
  by (auto simp: requireIntervention_def split: option.splits)

text \<open>The pattern of the three updates: a repetition changes nothing, otherwise one row is updated.\<close>

lemma update_or_same:
  assumes "interventions_ok (db_interventions db)" and "interventionRowById db k = Some r"
    and "(if c then bindE (interventionFromRow env r) (\<lambda>i. intervention_done db False i)
          else throwIf d e (intervention_updated env k P f db)) = Inr res"
    and "P r \<Longrightarrow> intervention_moves r (f r)"
  shows "intervention_effect env db (ir_db res)"
  using assms(3) updated_effect [OF assms(1,2), of env P f res] assms(4)
  by (auto simp: bind_inv intervention_done_Inr intro: ie_same split: if_splits)

lemma applying_effect:
  assumes "interventions_ok (db_interventions db)" and "markDagActorInterventionApplying env clock i db = Inr res"
  shows "intervention_effect env db (ir_db res)"
  using assms(2) unfolding markDagActorInterventionApplying_def
  apply (simp only: bindE_Inr requireIntervention_Inr)
  apply (elim exE conjE)
  apply (erule update_or_same [OF assms(1), rotated])
   apply (simp_all add: intervention_moves_def sameIntervention_def)
  done

lemma complete_intervention_effect:
  assumes "interventions_ok (db_interventions db)" and "completeDagActorIntervention env clock i db = Inr res"
  shows "intervention_effect env db (ir_db res)"
  using assms(2) unfolding completeDagActorIntervention_def
  apply (simp only: bindE_Inr throwIf_Inr requireIntervention_Inr)
  apply (elim exE conjE)
  apply (erule update_or_same [OF assms(1), rotated])
   apply (simp_all add: intervention_moves_def sameIntervention_def)
  done

lemma fail_effect:
  assumes "interventions_ok (db_interventions db)" and "failDagActorIntervention env clock i db = Inr res"
  shows "intervention_effect env db (ir_db res)"
  using assms(2) unfolding failDagActorIntervention_def
  apply (simp only: bindE_Inr requireIntervention_Inr split_paired_Ex prod.case)
  apply (elim exE conjE)
  apply (erule update_or_same [OF assms(1), rotated])
   apply (auto simp: intervention_moves_def sameIntervention_def intervention_active_def)
  done

lemma create_intervention_effect:
  assumes "createDagActorIntervention env clock i db = Inr res"
  shows "intervention_effect env db (ir_db res)"
proof -
  from assms obtain row where row: "newIntervention env clock i = Inr row" by (auto simp: createDagActorIntervention_def bind_inv)
  show ?thesis
  proof (cases "case interventionRowById db (iv_intervention_id row) of
             Some byId \<Rightarrow> Some byId
           | None \<Rightarrow> interventionRowByKey db (iv_run_id row) (iv_actor_id row) (iv_idempotency_key row)")
    case (Some existing)
    with assms row show ?thesis
      by (auto simp: createDagActorIntervention_def bind_inv intervention_done_Inr intro: ie_same)
  next
    case None
    with assms row obtain a v where a: "getActorRow db (iv_run_id row) (iv_actor_id row) = Some a"
      and ok: "interventions_ok (db_interventions db @ [row])"
      and res: "ir_db res = db\<lparr>db_interventions := db_interventions db @ [row]\<rparr>"
      and v: "reloadIntervention env (ir_db res) (iv_intervention_id row) = Inr v"
      by (auto simp: createDagActorIntervention_def bind_inv intervention_done_Inr Let_def requireActor_Inr)
    from interventionRowById_mem [of "ir_db res" row] ok res
    have "interventionRowById (ir_db res) (iv_intervention_id row) = Some row" by simp
    with reload_row [OF v] have "intervention_readable env row" by auto
    with a ok res show ?thesis by (auto intro: ie_new)
  qed
qed

lemma upsert_Inr:
  "upsertExclusion row rows = Inr rows' \<Longrightarrow> exclusions_ok rows' \<and> row \<in> set rows' \<and> set rows' \<subseteq> insert row (set rows)"
  by (auto simp: upsertExclusion_def bind_inv rewritten_def list_ex_iff split: if_splits)

lemma exclude_effect:
  assumes "upsertDagActorDispatchExclusion env clock x db = Inr (db', row)"
  shows "intervention_effect env db db' \<and> row \<in> set (db_exclusions db') \<and> exclusion_backed db row"
proof -
  from assms have "exclusion_backed db row \<and> (\<exists>rows. upsertExclusion row (db_exclusions db) = (Inr rows :: intervention_conflict err + _)
      \<and> db' = db\<lparr>db_exclusions := rows\<rparr>)"
    unfolding upsertDagActorDispatchExclusion_def getDagActor_def Let_def
    apply (simp only: bindE_Inr throwIf_Inr sum.inject prod.inject)
    apply (elim exE conjE)
    apply hypsubst
    apply (intro conjI exI, unfold exclusion_backed_def)
       apply (auto simp: optE_Inr actorFromRow_Inr split: option.split_asm)
    done
  with upsert_Inr [of row "db_exclusions db"] show ?thesis by (fastforce intro!: ie_exclusions)
qed

lemma exclusions_ok_filter: "exclusions_ok rows \<Longrightarrow> exclusions_ok (filter P rows)"
  by (auto simp: exclusions_ok_def list_all_iff intro: unique_on_filter)

lemma clear_effect:
  assumes "clearDagActorDispatchExclusion run node db = Inr (db', b)" and "exclusions_ok (db_exclusions db)"
  shows "intervention_effect env db db'"
  using assms by (auto simp: clearDagActorDispatchExclusion_def bind_inv sql_delete_def intro!: ie_exclusions exclusions_ok_filter)

lemma getSnapshotRow_key: "getSnapshotRow db run actor g = Some r \<Longrightarrow> snapshot_key r = (run, actor, g) \<and> r \<in> set (db_snapshots db)"
  unfolding getSnapshotRow_def by (drule find_SomeD) (simp add: snapshot_key_def)

lemma snapshot_effect:
  assumes "createDagSurfaceGenerationSnapshot env clock s db = Inr (db', v, new)"
  shows "intervention_effect env db db'"
proof -
  from assms obtain row where row: "newSnapshot env clock s = Inr row"
    by (auto simp: createDagSurfaceGenerationSnapshot_def bind_inv)
  show ?thesis
  proof (cases "getSnapshotRow db (sn_run_id row) (sn_actor_id row) (sn_generation row)")
    case (Some existing)
    with assms row show ?thesis by (auto simp: createDagSurfaceGenerationSnapshot_def bind_inv intro: ie_same)
  next
    case None
    with assms row obtain r where refs: "snapshot_refs db row" and ok: "snapshots_ok (db_snapshots db @ [row])"
      and db': "db' = db\<lparr>db_snapshots := db_snapshots db @ [row]\<rparr>"
      and r: "getSnapshotRow db' (sn_run_id row) (sn_actor_id row) (sn_generation row) = Some r" "snapshotFromRow env r = Inr v"
      by (auto simp: createDagSurfaceGenerationSnapshot_def bind_inv Let_def split: option.splits)
    have "r = row" using None r(1) db' by (simp add: getSnapshotRow_def find_append split: option.splits if_splits)
    with r(2) refs ok db' show ?thesis by (auto simp: snapshotFromRow_def intro!: ie_snapshot split: option.splits)
  qed
qed

lemma intervention_step_effect:
  "intervention_step env db db' \<Longrightarrow> intervention_inv env db \<Longrightarrow> intervention_effect env db db'"
  unfolding intervention_inv_def interventions_inv_def exclusions_inv_def
  by (induction rule: intervention_step.induct)
    (blast intro: ie_actor actor_step_effect create_intervention_effect applying_effect complete_intervention_effect
      fail_effect clear_effect snapshot_effect dest: exclude_effect)+

section \<open>The contracts\<close>

lemma tables_frame [simp]:
  "getActorRow (db\<lparr>db_interventions := rows\<rparr>) = getActorRow db" "getActorRow (db\<lparr>db_exclusions := xs\<rparr>) = getActorRow db"
  "getActorRow (db\<lparr>db_snapshots := ss\<rparr>) = getActorRow db"
  "actor_inv env (db\<lparr>db_interventions := rows\<rparr>) = actor_inv env db" "actor_inv env (db\<lparr>db_exclusions := xs\<rparr>) = actor_inv env db"
  "actor_inv env (db\<lparr>db_snapshots := ss\<rparr>) = actor_inv env db"
  "interventionRowById (db\<lparr>db_exclusions := xs\<rparr>) = interventionRowById db"
  "interventionRowById (db\<lparr>db_snapshots := ss\<rparr>) = interventionRowById db"
  by (simp_all add: getActorRow_def actor_inv_def command_owned_def actor_of_def interventionRowById_def fun_eq_iff)

lemma db_effect_interventions:
  "db_effect env db db' \<Longrightarrow> db_interventions db' = db_interventions db \<and> db_exclusions db' = db_exclusions db \<and> db_snapshots db' = db_snapshots db"
  by (induction rule: db_effect.induct) (auto simp: actor_write_def command_write_def)

lemma intervention_effect_actor:
  assumes "intervention_effect env db db'" and "getActorRow db run actor = Some a"
  shows "\<exists>a'. getActorRow db' run actor = Some a' \<and> ac_node_id a' = ac_node_id a"
  using assms
proof cases
  case ie_actor
  from effect_actor_row [OF this assms(2)] show ?thesis by (auto simp: actor_evolves_def)
qed simp_all

lemma intervention_effect_row:
  assumes "intervention_effect env db db'" and "interventionRowById db k = Some r"
  shows "\<exists>r'. interventionRowById db' k = Some r' \<and> intervention_evolves r r'"
  using assms
proof cases
  case ie_actor
  with assms(2) show ?thesis by (simp add: interventionRowById_def db_effect_interventions)
next
  case (ie_new x)
  with assms(2) show ?thesis by (simp add: interventionRowById_def find_append)
next
  case (ie_moved s x rows)
  have "interventionRowById db' k = map_option (\<lambda>r. if r = s then x else r) (interventionRowById db k)"
    unfolding interventionRowById_def ie_moved(1,5) using ie_moved(3)
    by (simp, intro find_update) (auto simp: intervention_moves_def sameIntervention_def)
  with assms(2) ie_moved(3) show ?thesis by (auto intro: moves_evolves)
qed auto

lemma exclusion_backed_effect:
  "intervention_effect env db db' \<Longrightarrow> exclusion_backed db x \<Longrightarrow> exclusion_backed db' x"
  unfolding exclusion_backed_def
  by (elim conjE exE, frule (1) intervention_effect_actor, drule (1) intervention_effect_row)
    (auto dest!: intervention_evolves_id simp: sameIntervention_def)

lemma snapshot_backed_effect:
  assumes "intervention_effect env db db'" and "snapshot_backed db x"
  shows "snapshot_backed db' x"
proof -
  from assms(2) obtain a i where "getActorRow db (sn_run_id x) (sn_actor_id x) = Some a"
    "interventionRowById db (sn_intervention_id x) = Some i" "iv_run_id i = sn_run_id x" "iv_actor_id i = sn_actor_id x"
    by (auto simp: snapshot_backed_def)
  with intervention_effect_actor [OF assms(1) this(1)] intervention_effect_row [OF assms(1) this(2)] show ?thesis
    by (auto simp: snapshot_backed_def sameIntervention_def dest!: intervention_evolves_id)
qed

lemma snapshot_refs_backed:
  assumes "interventions_inv env db" and "snapshot_refs db s"
  shows "snapshot_backed db s"
proof -
  from assms(2) obtain i where "i \<in> set (db_interventions db)" "iv_intervention_id i = sn_intervention_id s"
    "iv_run_id i = sn_run_id s" "iv_actor_id i = sn_actor_id s" "getActorRow db (sn_run_id s) (sn_actor_id s) \<noteq> None"
    by (auto simp: snapshot_refs_def list_ex_iff)
  with interventionRowById_mem [of db i] assms(1) show ?thesis by (auto simp: interventions_inv_def snapshot_backed_def)
qed

lemma interventions_inv_effect:
  assumes e: "intervention_effect env db db'" and inv: "interventions_inv env db"
  shows "interventions_inv env db'"
proof -
  have owned: "getActorRow db' run actor \<noteq> None" if "getActorRow db run actor \<noteq> None" for run actor
    using that intervention_effect_actor [OF e] by fastforce
  from e show ?thesis
  proof cases
    case ie_actor
    then show ?thesis using inv owned by (simp add: interventions_inv_def db_effect_interventions)
  next
    case (ie_moved r x rows)
    then show ?thesis using inv
      by (auto simp: interventions_inv_def rewritten_def intervention_moves_def sameIntervention_def split: if_splits)
  qed (use inv in \<open>auto simp: interventions_inv_def\<close>)
qed

lemma intervention_effect_inv:
  assumes e: "intervention_effect env db db'" and inv: "intervention_inv env db"
  shows "intervention_inv env db'"
proof -
  have parts: "actor_inv env db" "interventions_inv env db" "exclusions_inv db" "snapshots_inv env db"
    using inv by (simp_all add: intervention_inv_def)
  have "actor_inv env db'" using e parts(1) by cases (auto intro: effect_inv)
  moreover have "interventions_inv env db'" using e parts(2) by (rule interventions_inv_effect)
  moreover have "exclusions_inv db'"
    using e parts(3) exclusion_backed_effect [OF e]
    by cases (auto simp: exclusions_inv_def db_effect_interventions)
  moreover have "snapshots_inv env db'"
    using e parts(4) snapshot_backed_effect [OF e] snapshot_refs_backed [OF parts(2)]
    by cases (auto simp: snapshots_inv_def db_effect_interventions)
  ultimately show ?thesis by (simp add: intervention_inv_def)
qed

lemma intervention_init_inv: "intervention_init db \<Longrightarrow> intervention_inv env db"
  by (simp add: intervention_init_def intervention_inv_def interventions_inv_def exclusions_inv_def snapshots_inv_def
      interventions_ok_def exclusions_ok_def snapshots_ok_def actor_init_inv)

interpretation intervention_store: transition_system intervention_init "intervention_step env" "intervention_inv env" for env
  by unfold_locales (auto intro: intervention_init_inv intervention_effect_inv intervention_step_effect)

interpretation interventions: row_system intervention_init "intervention_step env" "intervention_inv env" interventionRowById intervention_evolves
  for env
  by unfold_locales (auto intro: intervention_evolves_trans dest: intervention_effect_row intervention_step_effect)

definition intervention_status_of :: "('m) intervention_db_scheme \<Rightarrow> string \<Rightarrow> intervention_status option" where
  "intervention_status_of db k = map_option iv_status (interventionRowById db k)"

lemma evolves_status:
  "intervention_evolves r x \<Longrightarrow> intervention_rank (iv_status r) \<le> intervention_rank (iv_status x)
     \<and> (intervention_final (iv_status r) \<longrightarrow> x = r)"
  by (auto simp: intervention_evolves_def dest: next_path_rank next_path_final)

interpretation intervention_statuses: absorbing_system intervention_init "intervention_step env" "intervention_inv env"
    intervention_status_of intervention_final intervention_rank for env
proof unfold_locales
  fix db db' :: "('a) intervention_db_scheme" and k s
  assume a: "intervention_step env db db'" "intervention_inv env db" "intervention_status_of db k = Some s"
  then obtain r r' where "interventionRowById db k = Some r" "iv_status r = s" "interventionRowById db' k = Some r'" "intervention_evolves r r'"
    using intervention_effect_row [OF intervention_step_effect [OF a(1,2)], of k] by (auto simp: intervention_status_of_def)
  with evolves_status [of r r'] show "\<exists>t. intervention_status_of db' k = Some t \<and> intervention_rank s \<le> intervention_rank t"
    and "intervention_final s \<Longrightarrow> intervention_status_of db' k = Some s" by (auto simp: intervention_status_of_def)
qed

section \<open>A new intervention satisfies the constraints\<close>

lemma assertPrintable_Inr [bind_inv]:
  "assertPrintable m v what = Inr t \<longleftrightarrow> t = js_trim v \<and> t \<noteq> [] \<and> length t \<le> m \<and> \<not> list_ex control_char t"
  by (auto simp: assertPrintable_def Let_def bind_inv)

lemma sql_id_iff: "sql_id m t \<longleftrightarrow> t \<noteq> [] \<and> length t \<le> m"
  by (cases t) (auto simp: sql_id_def)

lemma positiveSafeInteger_Inr: "positiveSafeInteger n what = Inr i \<Longrightarrow> 1 \<le> i"
  by (auto simp: positiveSafeInteger_def bind_inv)

lemma assertTimestamp_Inr: "assertTimestamp n what = Inr i \<Longrightarrow> 0 \<le> i"
  by (auto simp: assertTimestamp_def bind_inv)

lemma encodeBounded_object:
  assumes "encodeBounded env (JObj kvs) what m = Inr (json, d)"
  shows "2 \<le> length json \<and> int (length json) \<le> m \<and> d = env_sha256 env json"
proof -
  obtain kws where k: "canonicalize (redactTelemetry 0 (JObj kvs)) = JObj kws" by (simp add: redactTelemetry.simps [of 0])
  with assms have "json_stringify (env_num_str env) (JObj kws) = Some json" "int (utf8_length json) \<le> m" "d = env_sha256 env json"
    by (auto simp: encodeBounded_def bind_inv simp del: json_stringify.simps split: option.splits)
  then show ?thesis using utf8_length_ge [of json] by auto
qed

lemma newIntervention_Inr:
  assumes "newIntervention env clock i = Inr row"
  shows "iv_payload_digest row = env_sha256 env (iv_payload_json row)"
    and "hex_digest (iv_payload_digest row) \<Longrightarrow> intervention_check row"
    and "intervention_active row" and "iv_failure_json row = None"
proof -
  from assms obtain instruction c d where
    ids: "sql_id 256 (iv_intervention_id row)" "sql_id 256 (iv_run_id row)" "sql_id 256 (iv_actor_id row)" "sql_id 256 (iv_idempotency_key row)"
    and nums: "1 \<le> iv_expected_generation row" "1 \<le> iv_expected_version row" "0 \<le> iv_created_at row"
    and cp: "opt_ge (iv_checkpoint_version row) 1" "iv_operation row = Op_checkpoint_fork \<longleftrightarrow> iv_checkpoint_version row \<noteq> None"
    and doc: "encodeBounded env (JObj instruction) ''intervention payload'' 65536
        = (Inr (iv_payload_json row, iv_payload_digest row) :: intervention_conflict err + _)"
    and rest: "iv_status row = Iv_queued" "iv_from_generation row = None" "iv_to_generation row = None" "iv_resulting_version row = None"
      "iv_started_at row = None" "iv_completed_at row = None" "iv_failure_json row = None"
    unfolding newIntervention_def
    apply (simp only: bindE_Inr throwIf_Inr assertPrintable_Inr split_paired_Ex prod.case sum.inject)
    apply (elim exE conjE)
    apply hypsubst
    apply (drule positiveSafeInteger_Inr assertTimestamp_Inr)+
    apply (auto simp: sql_id_iff optE_Inr opt_ge_def dest!: positiveSafeInteger_Inr split: if_splits)
    done
  show "iv_payload_digest row = env_sha256 env (iv_payload_json row)" using encodeBounded_object [OF doc] by simp
  show "intervention_active row" "iv_failure_json row = None" using rest by (simp_all add: intervention_active_def)
  show "intervention_check row" if "hex_digest (iv_payload_digest row)"
    using that ids nums cp encodeBounded_object [OF doc] rest
    by (simp add: intervention_check_def sql_document_def opt_ge_def)
qed

lemma find_by_key:
  "interventionRowByKey db run actor key = None \<Longrightarrow> r \<in> set (db_interventions db) \<Longrightarrow> intervention_key r \<noteq> (run, actor, key)"
  unfolding interventionRowByKey_def by (drule (1) find_NoneD) (auto simp: intervention_key_def)

lemma find_by_id: "interventionRowById db k = None \<Longrightarrow> r \<in> set (db_interventions db) \<Longrightarrow> iv_intervention_id r \<noteq> k"
  unfolding interventionRowById_def by (drule (1) find_NoneD) simp

definition busy :: "('m) intervention_db_scheme \<Rightarrow> string \<Rightarrow> string \<Rightarrow> bool" where
  "busy db run actor \<longleftrightarrow> (\<exists>r \<in> set (db_interventions db). iv_run_id r = run \<and> iv_actor_id r = actor \<and> intervention_active r)"

lemma fresh_interventions_ok:
  assumes "interventions_ok (db_interventions db)" and "intervention_check row"
    and "interventionRowById db (iv_intervention_id row) = None"
    and "interventionRowByKey db (iv_run_id row) (iv_actor_id row) (iv_idempotency_key row) = None"
    and "\<not> busy db (iv_run_id row) (iv_actor_id row)"
  shows "interventions_ok (db_interventions db @ [row])"
  using assms find_by_id [OF assms(3)] find_by_key [OF assms(4)]
  by (auto simp: interventions_ok_def unique_on_insert intervention_key_def busy_def)

section \<open>A concrete run\<close>

definition iv_demo0 :: intervention_db where
  "iv_demo0 = \<lparr>db_runs = [(''r'', ''running'')], db_actors = [], db_commands = [], db_interventions = [], db_exclusions = [],
     db_snapshots = []\<rparr>"

definition iv_demo1 :: intervention_db where "iv_demo1 = iv_demo0\<lparr>db_actors := [demo_row]\<rparr>"

definition demo_intervene :: create_intervention_input where
  "demo_intervene = \<lparr>ci_intervention_id = '' i '', ci_run_id = ''r'', ci_actor_id = ''a'', ci_operation = Op_reassign,
     ci_instruction = None, ci_expected_generation = num_of_int 1, ci_expected_version = num_of_int 1,
     ci_idempotency_key = ''k'', ci_checkpoint_version = None, ci_created_at = None\<rparr>"

definition queued_row :: intervention_row where
  "queued_row = \<lparr>iv_intervention_id = ''i'', iv_run_id = ''r'', iv_actor_id = ''a'', iv_operation = Op_reassign,
     iv_status = Iv_queued, iv_idempotency_key = ''k'', iv_payload_digest = replicate 64 CHR ''a'', iv_payload_json = ''{}'',
     iv_expected_generation = 1, iv_expected_version = 1, iv_checkpoint_version = None, iv_from_generation = None,
     iv_to_generation = None, iv_resulting_version = None, iv_created_at = 6, iv_started_at = None, iv_completed_at = None,
     iv_failure_json = None\<rparr>"

definition iv_demo2 :: intervention_db where "iv_demo2 = iv_demo1\<lparr>db_interventions := [queued_row]\<rparr>"

definition demo_applying :: applying_input where
  "demo_applying = \<lparr>ay_intervention_id = ''i'', ay_from_generation = num_of_int 1, ay_started_at = None\<rparr>"

definition applying_row :: intervention_row where
  "applying_row = queued_row\<lparr>iv_status := Iv_applying, iv_started_at := Some 7, iv_from_generation := Some 1\<rparr>"

definition iv_demo3 :: intervention_db where "iv_demo3 = iv_demo1\<lparr>db_interventions := [applying_row]\<rparr>"

lemma demo_digest [simp]: "hex_digest (replicate 64 CHR ''a'')"
  by (simp add: hex_digest_def list_all_length)

lemma demo_rows_ok: "interventions_ok [queued_row]" "interventions_ok [applying_row]"
  by (simp_all add: interventions_ok_def unique_on_def intervention_check_def queued_row_def applying_row_def sql_id_def
      sql_document_def opt_ge_def)

lemma demo_new_intervention: "newIntervention demo_env 6 demo_intervene = Inr queued_row"
  by code_simp

lemma demo_created: "createDagActorIntervention demo_env 6 demo_intervene iv_demo1
    = Inr \<lparr>ir_db = iv_demo2, ir_intervention = \<lparr>di_row = queued_row, di_instruction = None, di_failure = None\<rparr>,
           ir_changed = True, ir_deduplicated = False\<rparr>"
proof -
  have "requireActor demo_env iv_demo1 ''r'' ''a'' = (Inr demo_row :: intervention_conflict err + _)" by code_simp
  moreover have "interventionFromRow demo_env queued_row = Inr \<lparr>di_row = queued_row, di_instruction = None, di_failure = None\<rparr>" by code_simp
  moreover have "db_interventions iv_demo1 = []" "ac_generation demo_row = 1" "ac_version demo_row = 1" by code_simp+
  moreover have "iv_intervention_id queued_row = ''i''" "iv_run_id queued_row = ''r''" "iv_actor_id queued_row = ''a''"
    "iv_expected_generation queued_row = 1" "iv_expected_version queued_row = 1" by (simp_all add: queued_row_def)
  ultimately show ?thesis
    by (simp add: createDagActorIntervention_def demo_new_intervention interventionRowById_def interventionRowByKey_def
        sql_insert_def demo_rows_ok reloadIntervention_def intervention_done_def iv_demo2_def)
qed

lemma demo_started: "markDagActorInterventionApplying demo_env 7 demo_applying iv_demo2
    = Inr \<lparr>ir_db = iv_demo3, ir_intervention = \<lparr>di_row = applying_row, di_instruction = None, di_failure = None\<rparr>,
           ir_changed = True, ir_deduplicated = False\<rparr>"
proof -
  have "interventionFromRow demo_env applying_row = Inr \<lparr>di_row = applying_row, di_instruction = None, di_failure = None\<rparr>" by code_simp
  moreover have "assertPrintable 256 (ay_intervention_id demo_applying) ''intervention_id'' = (Inr ''i'' :: intervention_conflict err + _)"
    "positiveSafeInteger (ay_from_generation demo_applying) ''from_generation'' = (Inr 1 :: intervention_conflict err + _)"
    "assertTimestamp (or_clock (ay_started_at demo_applying) 7) ''started_at'' = (Inr 7 :: intervention_conflict err + _)" by code_simp+
  moreover have "iv_intervention_id queued_row = ''i''" "iv_status queued_row = Iv_queued" "iv_intervention_id applying_row = ''i''"
    "db_interventions iv_demo2 = [queued_row]" by (simp_all add: queued_row_def applying_row_def iv_demo2_def)
  ultimately show ?thesis
    by (simp add: markDagActorInterventionApplying_def requireIntervention_def interventionRowById_def intervention_updated_def
        sql_update_def rewritten_def applying_row_def [symmetric] demo_rows_ok reloadIntervention_def intervention_done_def
        iv_demo3_def iv_demo2_def)
qed

lemma iv_demo_reach: "reach intervention_init (intervention_step demo_env) iv_demo1" "reach intervention_init (intervention_step demo_env) iv_demo2"
  "(intervention_step demo_env)\<^sup>*\<^sup>* iv_demo2 iv_demo3"
proof -
  have "reach intervention_init (intervention_step demo_env) iv_demo0"
    by (rule reach_init) (simp add: intervention_init_def actor_init_def iv_demo0_def)
  moreover have "registerDagActor demo_env 5 demo_actor iv_demo0 = Inr (iv_demo1, demo_row, True)" by code_simp
  ultimately show 1: "reach intervention_init (intervention_step demo_env) iv_demo1" by (blast intro: reach_step is_actor st_register)
  have "intervention_step demo_env iv_demo1 iv_demo2" using is_create [OF demo_created] by simp
  with 1 show "reach intervention_init (intervention_step demo_env) iv_demo2" by (rule reach_step)
  show "(intervention_step demo_env)\<^sup>*\<^sup>* iv_demo2 iv_demo3" using is_applying [OF demo_started] by simp
qed

section \<open>Properties\<close>

lemma interventions_apart:
  assumes "reach intervention_init (intervention_step env) db" and "r \<in> set (db_interventions db)" and "s \<in> set (db_interventions db)"
    and "intervention_active r" and "intervention_active s" and "iv_run_id r = iv_run_id s" and "iv_actor_id r = iv_actor_id s"
  shows "r = s"
proof -
  have "unique_on intervention_active (\<lambda>r. (iv_run_id r, iv_actor_id r)) (db_interventions db)"
    using intervention_store.reach_inv [OF assms(1)] by (simp add: intervention_inv_def interventions_inv_def interventions_ok_def)
  from unique_on_eq [OF this] assms(2-7) show ?thesis by simp
qed

text \<open>An intervention keeps its identity and payload, moves only along queued, applying and applied or failed,
  keeps the generation it was started for, and is never written again once applied or failed.\<close>

theorem intervention_lifecycle:
  assumes "reach intervention_init (intervention_step env) db" and "(intervention_step env)\<^sup>*\<^sup>* db db'"
    and "interventionRowById db k = Some r"
  shows "\<exists>r'. interventionRowById db' k = Some r' \<and> sameIntervention r r' \<and> iv_payload_json r' = iv_payload_json r
    \<and> (r' = r \<or> intervention_next\<^sup>+\<^sup>+ (iv_status r) (iv_status r'))
    \<and> (iv_status r \<noteq> Iv_queued \<longrightarrow> iv_from_generation r' = iv_from_generation r)
    \<and> (intervention_final (iv_status r) \<longrightarrow> r' = r)"
proof -
  from interventions.row_steps [OF assms(2) intervention_store.reach_inv [OF assms(1)] assms(3)]
  obtain r' where "interventionRowById db' k = Some r'" "intervention_evolves r r'" by blast
  with evolves_status [of r r'] intervention_evolves_id [of r r'] show ?thesis
    by (intro exI [of _ r']) (auto simp: intervention_evolves_def)
qed

theorem intervention_lifecycle_witness:
  "\<exists>r'. interventionRowById iv_demo3 ''i'' = Some r' \<and> sameIntervention queued_row r' \<and> (r' = queued_row \<or> intervention_next\<^sup>+\<^sup>+ Iv_queued (iv_status r'))"
proof -
  have "interventionRowById iv_demo2 ''i'' = Some queued_row" "iv_status queued_row = Iv_queued" by code_simp+
  with intervention_lifecycle [OF iv_demo_reach(2,3) this(1)] show ?thesis by auto
qed

text \<open>C20. Whether a new intervention, with an id and a key not used before, is accepted: exactly if its actor exists
  in the generation and version the operator saw and has no intervention in progress; each other case
  has its own error, in this order, and an accepted intervention is stored as queued.\<close>

theorem intervention_admission:
  assumes "reach intervention_init (intervention_step env) db" and new: "newIntervention env clock i = Inr row"
    and fresh: "interventionRowById db (iv_intervention_id row) = None"
      "interventionRowByKey db (iv_run_id row) (iv_actor_id row) (iv_idempotency_key row) = None"
    and sha: "hex_digest (env_sha256 env (iv_payload_json row))"
    and parse: "env_json_parse env (iv_payload_json row) = Some (JObj kvs)"
  shows "createDagActorIntervention env clock i db =
    (case getActorRow db (iv_run_id row) (iv_actor_id row) of
       None \<Rightarrow> Inl (Invalid ''unknown actor'')
     | Some a \<Rightarrow>
         if ac_generation a \<noteq> iv_expected_generation row then Inl (Conflict Intervention_generation_conflict)
         else if ac_version a \<noteq> iv_expected_version row then Inl (Conflict Intervention_version_conflict)
         else if busy db (iv_run_id row) (iv_actor_id row) then Inl (Conflict Intervention_in_progress)
         else Inr \<lparr>ir_db = db\<lparr>db_interventions := db_interventions db @ [row]\<rparr>,
                ir_intervention = \<lparr>di_row = row, di_instruction = payload_instruction (JObj kvs), di_failure = None\<rparr>,
                ir_changed = True, ir_deduplicated = False\<rparr>)"
proof (cases "getActorRow db (iv_run_id row) (iv_actor_id row)")
  case None
  then show ?thesis using new fresh
    by (simp add: createDagActorIntervention_def requireActor_def getDagActor_def optE_def)
next
  case (Some a)
  have inv: "actor_inv env db" "interventions_ok (db_interventions db)"
    using intervention_store.reach_inv [OF assms(1)] by (simp_all add: intervention_inv_def interventions_inv_def)
  have actor: "requireActor env db (iv_run_id row) (iv_actor_id row) = (Inr a :: intervention_conflict err + _)"
    using Some inv(1) by (auto simp: requireActor_Inr actor_inv_def dest: getActorRow_key)
  have active: "list_ex (\<lambda>r. iv_run_id r = iv_run_id row \<and> iv_actor_id r = iv_actor_id row \<and> intervention_active r) (db_interventions db)
      \<longleftrightarrow> busy db (iv_run_id row) (iv_actor_id row)"
    by (auto simp: busy_def list_ex_iff)
  note facts = newIntervention_Inr [OF new]
  show ?thesis
  proof (cases "busy db (iv_run_id row) (iv_actor_id row)")
    case True
    then show ?thesis using new fresh Some actor active
      by (simp add: createDagActorIntervention_def throwIf_def)
  next
    case False
    have ok: "interventions_ok (db_interventions db @ [row])"
      using fresh_interventions_ok [OF inv(2) _ fresh False] facts(1,2) sha by simp
    have read: "reloadIntervention env (db\<lparr>db_interventions := db_interventions db @ [row]\<rparr>) (iv_intervention_id row)
        = Inr \<lparr>di_row = row, di_instruction = payload_instruction (JObj kvs), di_failure = None\<rparr>"
      using interventionRowById_mem [of "db\<lparr>db_interventions := db_interventions db @ [row]\<rparr>" row] ok facts(4) parse
      by (simp add: reloadIntervention_def interventionFromRow_def)
    show ?thesis using new fresh Some actor active False ok read
      by (simp add: createDagActorIntervention_def throwIf_def sql_insert_def intervention_done_def)
  qed
qed

theorem intervention_admission_witness:
  "createDagActorIntervention demo_env 6 demo_intervene iv_demo1
    = Inr \<lparr>ir_db = iv_demo2, ir_intervention = \<lparr>di_row = queued_row, di_instruction = None, di_failure = None\<rparr>,
           ir_changed = True, ir_deduplicated = False\<rparr>"
proof -
  have "interventionRowById iv_demo1 (iv_intervention_id queued_row) = None"
    "interventionRowByKey iv_demo1 (iv_run_id queued_row) (iv_actor_id queued_row) (iv_idempotency_key queued_row) = None"
    "hex_digest (env_sha256 demo_env (iv_payload_json queued_row))" "env_json_parse demo_env (iv_payload_json queued_row) = Some (JObj [])"
    by code_simp+
  note admitted = intervention_admission [OF iv_demo_reach(1) demo_new_intervention this]
  have "getActorRow iv_demo1 (iv_run_id queued_row) (iv_actor_id queued_row) = Some demo_row"
    "ac_generation demo_row = iv_expected_generation queued_row" "ac_version demo_row = iv_expected_version queued_row"
    "db_interventions iv_demo1 = []" "payload_instruction (JObj []) = None"
    by code_simp+
  with admitted show ?thesis by (simp add: busy_def iv_demo2_def)
qed

end
