(* ===== verification/Runtime_Primitives.thy ===== *)
theory Runtime_Primitives
  imports Run_Rounds
begin

text \<open>
  \<open>persistence/dag-runtime-primitives.ts\<close>: human approvals, and versioned state with budgets. The sum of two
  doubles is their exact sum rounded by \<open>rnd\<close>, which is a parameter. A budget's usage field has no part
  \<open>__proto__\<close>, which JavaScript would resolve to the prototype of all objects.
\<close>

datatype approval_status = Ap_waiting | Ap_approved | Ap_rejected | Ap_expired

record approval_row =
  pr_run_id :: string
  pr_node_id :: string
  pr_approval_id :: string
  pr_status :: approval_status
  pr_hash :: string
  pr_proposal_json :: string
  pr_proposer :: string
  pr_authorized_json :: string
  pr_decision :: "string option"
  pr_actor :: "string option"
  pr_created_at :: int
  pr_updated_at :: int
  pr_expires_at :: "int option"

record state_row =
  st_namespace :: string
  st_key :: string
  st_version :: int
  st_json :: string
  st_updated_at :: int

record history_row =
  hi_namespace :: string
  hi_key :: string
  hi_before_json :: "string option"
  hi_after_json :: string
  hi_version :: int
  hi_run_id :: "string option"
  hi_node_id :: "string option"
  hi_created_at :: int

record primitive_db = actor_db +
  db_approvals :: "approval_row list"
  db_states :: "state_row list"
  db_history :: "history_row list"

text \<open>The errors of this module have no codes.\<close>

type_synonym 'a attempt = "unit err + 'a"

definition encodeJson :: "js_env \<Rightarrow> js \<Rightarrow> string" where
  "encodeJson env v = (case json_stringify (env_num_str env) v of None \<Rightarrow> [] | Some t \<Rightarrow> t)"

section \<open>Approvals\<close>

record approval =
  ar_row :: approval_row
  ar_proposal :: js
  ar_authorized :: js

definition approval_key :: "approval_row \<Rightarrow> string \<times> string" where
  "approval_key r = (pr_run_id r, pr_node_id r)"

definition approvalFromRow :: "js_env \<Rightarrow> approval_row \<Rightarrow> approval attempt" where
  "approvalFromRow env r =
     (case env_json_parse env (pr_proposal_json r) of
        None \<Rightarrow> Inl (Invalid ''proposal_json'')
      | Some p \<Rightarrow> (case env_json_parse env (pr_authorized_json r) of
          None \<Rightarrow> Inl (Invalid ''authorized_actors'')
        | Some a \<Rightarrow> Inr \<lparr>ar_row = r, ar_proposal = p, ar_authorized = a\<rparr>))"

definition getApprovalRow :: "('m) primitive_db_scheme \<Rightarrow> string \<Rightarrow> string \<Rightarrow> approval_row option" where
  "getApprovalRow db runId nodeId = find (\<lambda>r. pr_run_id r = runId \<and> pr_node_id r = nodeId) (db_approvals db)"

definition getApproval :: "js_env \<Rightarrow> string \<Rightarrow> string \<Rightarrow> ('m) primitive_db_scheme \<Rightarrow> approval option attempt" where
  "getApproval env runId nodeId db = optE (approvalFromRow env) (getApprovalRow db runId nodeId)"

text \<open>\<open>getApproval(run, node)!\<close>.\<close>

definition reloadApproval :: "js_env \<Rightarrow> string \<Rightarrow> string \<Rightarrow> ('m) primitive_db_scheme \<Rightarrow> approval attempt" where
  "reloadApproval env runId nodeId db =
     bindE (getApproval env runId nodeId db) (\<lambda>a. case a of None \<Rightarrow> Inl (Invalid ''approval'') | Some r \<Rightarrow> Inr r)"

record approval_input =
  pi_run_id :: string
  pi_node_id :: string
  pi_approval_id :: string
  pi_proposal :: js
  pi_proposer :: string
  pi_authorized :: "string list"
  pi_expires_after_ms :: "int option"

definition approval_decided :: "approval_row \<Rightarrow> bool" where
  "approval_decided r \<longleftrightarrow> pr_status r = Ap_approved \<or> pr_status r = Ap_rejected"

text \<open>
  \<open>INSERT \<dots> ON CONFLICT (run_id, node_id) DO UPDATE\<close>: a conflicting row keeps its creation time. The
  foreign key requires the run.
\<close>

definition upsertApproval :: "approval_row \<Rightarrow> approval_row list \<Rightarrow> approval_row list" where
  "upsertApproval row rows =
     (if list_ex (\<lambda>r. approval_key r = approval_key row) rows
      then rewritten (\<lambda>r. approval_key r = approval_key row) (\<lambda>r. row\<lparr>pr_created_at := pr_created_at r\<rparr>) rows
      else rows @ [row])"

definition pendingApproval :: "js_env \<Rightarrow> int \<Rightarrow> approval_input \<Rightarrow> approval_row" where
  "pendingApproval env now input =
     (let proposalJson = encodeJson env (js_nullish (pi_proposal input) JNull)
      in \<lparr>pr_run_id = pi_run_id input, pr_node_id = pi_node_id input, pr_approval_id = pi_approval_id input,
          pr_status = Ap_waiting, pr_hash = env_sha256 env proposalJson, pr_proposal_json = proposalJson,
          pr_proposer = pi_proposer input, pr_authorized_json = encodeJson env (JArr (map JStr (pi_authorized input))),
          pr_decision = None, pr_actor = None, pr_created_at = now, pr_updated_at = now,
          pr_expires_at = (case pi_expires_after_ms input of None \<Rightarrow> None | Some ms \<Rightarrow> if ms = 0 then None else Some (now + ms))\<rparr>)"

definition createPendingApproval :: "js_env \<Rightarrow> int \<Rightarrow> approval_input \<Rightarrow> ('m) primitive_db_scheme
    \<Rightarrow> (('m) primitive_db_scheme \<times> approval) attempt" where
  "createPendingApproval env now input db =
     bindE (getApproval env (pi_run_id input) (pi_node_id input) db) (\<lambda>existing.
     throwIf (case existing of None \<Rightarrow> False | Some a \<Rightarrow> approval_decided (ar_row a)) (Invalid ''approval decision is immutable'')
     (throwIf (\<not> list_ex (\<lambda>(r, _). r = pi_run_id input) (db_runs db)) SqlConstraint
     (let db' = db\<lparr>db_approvals := upsertApproval (pendingApproval env now input) (db_approvals db)\<rparr>
      in bindE (reloadApproval env (pi_run_id input) (pi_node_id input) db') (\<lambda>a. Inr (db', a)))))"

definition listPendingApprovals :: "js_env \<Rightarrow> ('m) primitive_db_scheme \<Rightarrow> approval list attempt" where
  "listPendingApprovals env db =
     mapE (approvalFromRow env) (sort_key pr_created_at (filter (\<lambda>r. pr_status r = Ap_waiting) (db_approvals db)))"

definition approval_due :: "int \<Rightarrow> approval_row \<Rightarrow> bool" where
  "approval_due now r \<longleftrightarrow> pr_status r = Ap_waiting \<and> (case pr_expires_at r of None \<Rightarrow> False | Some t \<Rightarrow> t \<le> now)"

definition expired_row :: "int \<Rightarrow> approval_row \<Rightarrow> approval_row" where
  "expired_row now r = r\<lparr>pr_status := Ap_expired, pr_decision := Some ''rejected'', pr_actor := Some ''system:expiry'', pr_updated_at := now\<rparr>"

definition expirePendingApprovals :: "js_env \<Rightarrow> int \<Rightarrow> ('m) primitive_db_scheme
    \<Rightarrow> (('m) primitive_db_scheme \<times> approval list) attempt" where
  "expirePendingApprovals env now db =
     bindE (mapE (approvalFromRow env)
        (sort_key (\<lambda>r. case pr_expires_at r of None \<Rightarrow> 0 | Some t \<Rightarrow> t) (filter (approval_due now) (db_approvals db)))) (\<lambda>expired.
     Inr (if expired = [] then db else db\<lparr>db_approvals := rewritten (approval_due now) (expired_row now) (db_approvals db)\<rparr>,
          map (\<lambda>a. a\<lparr>ar_row := expired_row now (ar_row a)\<rparr>) expired))"

record decision_input =
  de_run_id :: string
  de_node_id :: string
  de_approve :: bool
  de_actor :: string
  de_hash :: string

definition decision_status :: "decision_input \<Rightarrow> approval_status" where
  "decision_status input = (if de_approve input then Ap_approved else Ap_rejected)"

definition decision_text :: "decision_input \<Rightarrow> string" where
  "decision_text input = (if de_approve input then ''approved'' else ''rejected'')"

text \<open>\<open>includes\<close> of an array, or of a string if that is what the column holds; anything else throws.\<close>

definition js_includes :: "js \<Rightarrow> string \<Rightarrow> bool attempt" where
  "js_includes v s =
     (case v of
        JArr vs \<Rightarrow> Inr (list_ex (\<lambda>w. js_strict_eq w (JStr s)) vs)
      | JStr t \<Rightarrow> Inr (list_ex (\<lambda>i. take (length s) (drop i t) = s) [0..<Suc (length t)])
      | _ \<Rightarrow> Inl (Invalid ''includes''))"

text \<open>
  The transaction either decides, or marks the approval as expired and commits that before
  \<open>decideApproval\<close> throws: then it returns the new database without an approval. The clock is read
  once for the check and again for the update.
\<close>

definition decideApproval :: "js_env \<Rightarrow> int \<Rightarrow> int \<Rightarrow> decision_input \<Rightarrow> ('m) primitive_db_scheme
    \<Rightarrow> (('m) primitive_db_scheme \<times> approval option) attempt" where
  "decideApproval env now later input db =
     bindE (getApproval env (de_run_id input) (de_node_id input) db) (\<lambda>found.
     (case found of
        None \<Rightarrow> Inl (Invalid ''approval not found'')
      | Some current \<Rightarrow>
     (let r = ar_row current; this = (\<lambda>s. pr_run_id s = de_run_id input \<and> pr_node_id s = de_node_id input) in
      throwIf (pr_status r \<noteq> Ap_waiting) (Invalid ''approval is already decided'')
      (if (case pr_expires_at r of None \<Rightarrow> False | Some t \<Rightarrow> t \<le> now)
       then Inr (db\<lparr>db_approvals := rewritten this (\<lambda>s. s\<lparr>pr_status := Ap_expired, pr_updated_at := later\<rparr>) (db_approvals db)\<rparr>, None)
       else throwIf (js_trim (pr_proposer r) = []) (Invalid ''proposer identity is unavailable'')
        (bindE (js_includes (ar_authorized current) (de_actor input)) (\<lambda>authorized.
         throwIf (\<not> authorized) (Invalid ''not authorized'')
         (throwIf (pr_proposer r = de_actor input) (Invalid ''proposer cannot approve'')
         (throwIf (pr_hash r \<noteq> de_hash input) (Invalid ''proposal hash mismatch'')
         (let db' = db\<lparr>db_approvals := rewritten (\<lambda>s. this s \<and> pr_status s = Ap_waiting)
                (\<lambda>s. s\<lparr>pr_status := decision_status input, pr_decision := Some (decision_text input),
                      pr_actor := Some (de_actor input), pr_updated_at := later\<rparr>) (db_approvals db)\<rparr>
          in bindE (reloadApproval env (de_run_id input) (de_node_id input) db') (\<lambda>a. Inr (db', Some a)))))))))))"

section \<open>Versioned state\<close>

record state_record =
  sr_namespace :: string
  sr_key :: string
  sr_version :: int
  sr_value :: js
  sr_updated_at :: int

definition getStateRow :: "('m) primitive_db_scheme \<Rightarrow> string \<Rightarrow> string \<Rightarrow> state_row option" where
  "getStateRow db namespace k = find (\<lambda>r. st_namespace r = namespace \<and> st_key r = k) (db_states db)"

definition stateFromRow :: "js_env \<Rightarrow> state_row \<Rightarrow> state_record attempt" where
  "stateFromRow env r =
     (case env_json_parse env (st_json r) of
        None \<Rightarrow> Inl (Invalid ''value_json'')
      | Some v \<Rightarrow> Inr \<lparr>sr_namespace = st_namespace r, sr_key = st_key r, sr_version = st_version r, sr_value = v,
                      sr_updated_at = st_updated_at r\<rparr>)"

definition getDagState :: "js_env \<Rightarrow> string \<Rightarrow> string \<Rightarrow> ('m) primitive_db_scheme \<Rightarrow> state_record option attempt" where
  "getDagState env namespace k db = optE (stateFromRow env) (getStateRow db namespace k)"

record state_input =
  sti_namespace :: string
  sti_key :: string
  sti_expected_version :: "jsnum option"
  sti_run_id :: "string option"
  sti_node_id :: "string option"

record 'm state_result =
  sw_db :: 'm
  sw_updated :: bool
  sw_record :: state_record
  sw_previous :: "state_record option"

definition state_version :: "state_record option \<Rightarrow> int" where
  "state_version before = (case before of None \<Rightarrow> 0 | Some s \<Rightarrow> sr_version s)"

definition upsertState :: "state_row \<Rightarrow> state_row list \<Rightarrow> state_row list" where
  "upsertState row rows =
     (let this = (\<lambda>r. st_namespace r = st_namespace row \<and> st_key r = st_key row)
      in if list_ex this rows then rewritten this (\<lambda>_. row) rows else rows @ [row])"

definition writeDagState :: "js_env \<Rightarrow> int \<Rightarrow> state_input \<Rightarrow> state_record option \<Rightarrow> js \<Rightarrow> ('m) primitive_db_scheme
    \<Rightarrow> ('m) primitive_db_scheme state_result attempt" where
  "writeDagState env now input before value db =
     (let version = state_version before + 1;
          valueJson = encodeJson env (js_nullish value JNull);
          row = \<lparr>st_namespace = sti_namespace input, st_key = sti_key input, st_version = version, st_json = valueJson,
                 st_updated_at = now\<rparr>;
          entry = \<lparr>hi_namespace = sti_namespace input, hi_key = sti_key input,
                 hi_before_json = map_option (\<lambda>b. encodeJson env (sr_value b)) before, hi_after_json = valueJson,
                 hi_version = version, hi_run_id = sti_run_id input, hi_node_id = sti_node_id input, hi_created_at = now\<rparr>;
          db' = db\<lparr>db_states := upsertState row (db_states db), db_history := db_history db @ [entry]\<rparr>
      in bindE (getDagState env (sti_namespace input) (sti_key input) db') (\<lambda>written.
         (case written of
            None \<Rightarrow> Inl (Invalid ''state'')
          | Some s \<Rightarrow> Inr \<lparr>sw_db = db', sw_updated = True, sw_record = s, sw_previous = before\<rparr>)))"

definition mutateDagState :: "js_env \<Rightarrow> int \<Rightarrow> state_input \<Rightarrow> (state_record option \<Rightarrow> js attempt) \<Rightarrow> ('m) primitive_db_scheme
    \<Rightarrow> ('m) primitive_db_scheme state_result attempt" where
  "mutateDagState env now input mutate db =
     bindE (getDagState env (sti_namespace input) (sti_key input) db) (\<lambda>before.
     if (case sti_expected_version input of None \<Rightarrow> False | Some n \<Rightarrow> \<not> num_eq (num_of_int (state_version before)) n)
     then Inr \<lparr>sw_db = db, sw_updated = False,
            sw_record = (case before of
               None \<Rightarrow> \<lparr>sr_namespace = sti_namespace input, sr_key = sti_key input, sr_version = 0, sr_value = JNull, sr_updated_at = 0\<rparr>
             | Some s \<Rightarrow> s),
            sw_previous = before\<rparr>
     else bindE (mutate before) (\<lambda>value. writeDagState env now input before value db))"

definition updateDagState :: "js_env \<Rightarrow> int \<Rightarrow> state_input \<Rightarrow> js \<Rightarrow> ('m) primitive_db_scheme
    \<Rightarrow> ('m) primitive_db_scheme state_result attempt" where
  "updateDagState env now input value db = mutateDagState env now input (\<lambda>_. Inr value) db"

section \<open>Budgets\<close>

fun num_add :: "(rat \<Rightarrow> jsnum) \<Rightarrow> jsnum \<Rightarrow> jsnum \<Rightarrow> jsnum" where
  "num_add rnd (Fin a) (Fin b) = rnd (a + b)"
| "num_add rnd NaN _ = NaN"
| "num_add rnd _ NaN = NaN"
| "num_add rnd PosInf NegInf = NaN"
| "num_add rnd NegInf PosInf = NaN"
| "num_add rnd PosInf _ = PosInf"
| "num_add rnd _ PosInf = PosInf"
| "num_add rnd NegInf _ = NegInf"
| "num_add rnd _ NegInf = NegInf"

fun num_neg :: "jsnum \<Rightarrow> jsnum" where
  "num_neg (Fin a) = Fin (- a)"
| "num_neg PosInf = NegInf"
| "num_neg NegInf = PosInf"
| "num_neg NaN = NaN"

definition num_sub :: "(rat \<Rightarrow> jsnum) \<Rightarrow> jsnum \<Rightarrow> jsnum \<Rightarrow> jsnum" where
  "num_sub rnd a b = num_add rnd a (num_neg b)"

text \<open>\<open>split(".").filter(Boolean)\<close>.\<close>

fun split_dots :: "string \<Rightarrow> string \<Rightarrow> string list" where
  "split_dots part [] = [part]"
| "split_dots part (c # cs) = (if c = CHR ''.'' then part # split_dots [] cs else split_dots (part @ [c]) cs)"

definition field_parts :: "string option \<Rightarrow> string list" where
  "field_parts usageField = (case usageField of None \<Rightarrow> [] | Some f \<Rightarrow> filter (\<lambda>p. p \<noteq> []) (split_dots [] f))"

text \<open>
  A part \<open>__proto__\<close> that the document does not have as a member of its own leads to \<open>Object.prototype\<close>, taken as the
  platform provides it: it prints without members, its methods are functions, which count as undefined here (they are
  neither numbers nor objects), and its own prototype is null.
\<close>

definition to_prototype :: "string \<Rightarrow> (string \<times> js) list \<Rightarrow> bool" where
  "to_prototype p kvs \<longleftrightarrow> p = ''__proto__'' \<and> p \<notin> set (map fst kvs)"

definition prototype_value :: "string list \<Rightarrow> js" where
  "prototype_value parts = (if parts = [] then JObj [] else if parts = [''__proto__''] then JNull else JUndef)"

fun get_path :: "string list \<Rightarrow> js \<Rightarrow> js" where
  "get_path [] v = v"
| "get_path (p # ps) v =
     (case v of
        JObj kvs \<Rightarrow> if to_prototype p kvs then prototype_value ps else get_path ps (obj_get kvs p)
      | _ \<Rightarrow> get_path ps JUndef)"

text \<open>Assigning a property: an existing one keeps its place, a new array index comes before the other keys.\<close>

definition obj_put :: "string \<Rightarrow> js \<Rightarrow> (string \<times> js) list \<Rightarrow> (string \<times> js) list" where
  "obj_put k v kvs =
     (if k \<in> set (map fst kvs) \<or> \<not> array_index k then AList.update k v kvs
      else takeWhile (\<lambda>p. array_index (fst p) \<and> decimal 0 (fst p) < decimal 0 k) kvs
           @ (k, v) # dropWhile (\<lambda>p. array_index (fst p) \<and> decimal 0 (fst p) < decimal 0 k) kvs)"

definition as_object :: "js \<Rightarrow> (string \<times> js) list" where
  "as_object v = (case v of JObj kvs \<Rightarrow> kvs | _ \<Rightarrow> [])"

text \<open>
  An assignment whose path reaches \<open>Object.prototype\<close> leaves the rest of the document as it is: setting \<open>__proto__\<close> to a
  number does nothing, and to the prototype it already has, nothing either.
\<close>

fun put_path :: "string list \<Rightarrow> js \<Rightarrow> js \<Rightarrow> js" where
  "put_path [] x v = x"
| "put_path (p # ps) x v =
     (if to_prototype p (as_object v) then JObj (as_object v)
      else JObj (obj_put p (put_path ps x (obj_get (as_object v) p)) (as_object v)))"

text \<open>The part of the path that is assigned on \<open>Object.prototype\<close> instead, if there is one.\<close>

fun prototype_path :: "string list \<Rightarrow> js \<Rightarrow> string list option" where
  "prototype_path [] v = None"
| "prototype_path (p # ps) v =
     (if to_prototype p (as_object v) then if ps = [] then None else Some ps
      else prototype_path ps (obj_get (as_object v) p))"

text \<open>The prototype of \<open>Object.prototype\<close> cannot be set to an object: the loop throws there.\<close>

fun prototype_fails :: "bool \<Rightarrow> string list \<Rightarrow> bool" where
  "prototype_fails at_root (p # q # ps) =
     (if p = ''__proto__'' then at_root \<or> prototype_fails True (q # ps) else prototype_fails False (q # ps))"
| "prototype_fails at_root _ = False"

record budget_input =
  bu_state :: state_input
  bu_amount :: jsnum
  bu_limit :: jsnum
  bu_usage_field :: "string option"

record 'm budget_result =
  br_db :: 'm
  br_admitted :: bool
  br_spent :: jsnum
  br_requested :: jsnum
  br_remaining :: jsnum
  br_record :: "state_record option"
  br_previous :: "state_record option"
  br_prototype :: "string list option"

text \<open>\<open>br_prototype\<close> is not part of the program's answer: it is the path that the call assigned on \<open>Object.prototype\<close>.\<close>

definition spent_of :: "js \<Rightarrow> jsnum" where
  "spent_of v = (case v of JNum n \<Rightarrow> if num_is_finite n then n else Fin 0 | _ \<Rightarrow> Fin 0)"

definition budget_spent :: "string list \<Rightarrow> state_record option \<Rightarrow> jsnum" where
  "budget_spent parts before = spent_of (get_path parts (case before of None \<Rightarrow> JUndef | Some s \<Rightarrow> sr_value s))"

definition reserveDagBudget :: "js_env \<Rightarrow> (rat \<Rightarrow> jsnum) \<Rightarrow> int \<Rightarrow> budget_input \<Rightarrow> ('m) primitive_db_scheme
    \<Rightarrow> ('m) primitive_db_scheme budget_result attempt" where
  "reserveDagBudget env rnd now input db =
     bindE (getDagState env (sti_namespace (bu_state input)) (sti_key (bu_state input)) db) (\<lambda>before.
     let fieldParts = field_parts (bu_usage_field input);
         spent = budget_spent fieldParts before;
         value = (case before of None \<Rightarrow> JUndef | Some s \<Rightarrow> sr_value s);
         requested = bu_amount input;
         total = num_add rnd spent requested
     in if \<not> (num_is_finite requested \<and> num_less (Fin 0) requested \<and> num_le total (bu_limit input))
        then Inr \<lparr>br_db = db, br_admitted = False, br_spent = spent, br_requested = requested,
               br_remaining = num_sub rnd (bu_limit input) spent, br_record = before, br_previous = before, br_prototype = None\<rparr>
        else throwIf (case prototype_path fieldParts value of None \<Rightarrow> False | Some path \<Rightarrow> prototype_fails True path) (Invalid ''Object.prototype'')
          (bindE (writeDagState env now (bu_state input) before (put_path fieldParts (JNum total) value) db) (\<lambda>w.
             Inr \<lparr>br_db = sw_db w, br_admitted = True, br_spent = total, br_requested = requested,
               br_remaining = num_sub rnd (num_sub rnd (bu_limit input) spent) requested,
               br_record = Some (sw_record w), br_previous = sw_previous w, br_prototype = prototype_path fieldParts value\<rparr>)))"

end
