(* ===== verification/Runtime_Primitives_Theorems.thy ===== *)
theory Runtime_Primitives_Theorems
  imports Runtime_Primitives
begin

text \<open>
  A decision on an approval is final and is made by somebody who is authorized and is not the proposer; a
  budget is never exceeded, and what it has spent is the sum of what it admitted.
\<close>

section \<open>Approvals\<close>

inductive approval_step :: "js_env \<Rightarrow> ('m) primitive_db_scheme \<Rightarrow> ('m) primitive_db_scheme \<Rightarrow> bool" for env where
  ap_create: "createPendingApproval env now i db = Inr (db', a) \<Longrightarrow> approval_step env db db'"
| ap_expire: "expirePendingApprovals env now db = Inr (db', as) \<Longrightarrow> approval_step env db db'"
| ap_decide: "decideApproval env now later d db = Inr (db', r) \<Longrightarrow> approval_step env db db'"

text \<open>A decision names an actor that the approval authorizes and that is not its proposer.\<close>

definition four_eyes :: "js_env \<Rightarrow> approval_row \<Rightarrow> bool" where
  "four_eyes env r \<longleftrightarrow> (\<exists>a v. pr_actor r = Some a \<and> env_json_parse env (pr_authorized_json r) = Some v
     \<and> js_includes v a = Inr True \<and> a \<noteq> pr_proposer r \<and> js_trim (pr_proposer r) \<noteq> [])"

definition approvals_inv :: "js_env \<Rightarrow> ('m) primitive_db_scheme \<Rightarrow> bool" where
  "approvals_inv env db \<longleftrightarrow> unique_on (\<lambda>_. True) approval_key (db_approvals db)
     \<and> (\<forall>r \<in> set (db_approvals db). approval_decided r \<longrightarrow> four_eyes env r)"

definition approvals_init :: "('m) primitive_db_scheme \<Rightarrow> bool" where
  "approvals_init db \<longleftrightarrow> db_approvals db = []"

definition approval_evolves :: "approval_row \<Rightarrow> approval_row \<Rightarrow> bool" where
  "approval_evolves r x \<longleftrightarrow> approval_key x = approval_key r \<and> (approval_decided r \<longrightarrow> x = r)"

lemma getApprovalRow_key: "getApprovalRow db run n = Some r \<Longrightarrow> approval_key r = (run, n) \<and> r \<in> set (db_approvals db)"
  unfolding getApprovalRow_def by (drule find_SomeD) (simp add: approval_key_def)

lemma approvalFromRow_Inr: "approvalFromRow env r = Inr a \<longleftrightarrow> (\<exists>p v. env_json_parse env (pr_proposal_json r) = Some p
    \<and> env_json_parse env (pr_authorized_json r) = Some v \<and> a = \<lparr>ar_row = r, ar_proposal = p, ar_authorized = v\<rparr>)"
  by (cases "env_json_parse env (pr_proposal_json r)"; cases "env_json_parse env (pr_authorized_json r)")
    (auto simp: approvalFromRow_def)

lemma getApproval_Some: "getApproval env run n db = Inr (Some a) \<Longrightarrow>
  getApprovalRow db run n = Some (ar_row a) \<and> env_json_parse env (pr_authorized_json (ar_row a)) = Some (ar_authorized a)"
  by (auto simp: getApproval_def optE_Inr approvalFromRow_Inr)

lemma getApproval_None: "getApproval env run n db = Inr None \<Longrightarrow> getApprovalRow db run n = None"
  by (simp add: getApproval_def optE_Inr)

text \<open>What each operation does to the table: every row keeps its key, an undecided row may become anything, and a new row is undecided.\<close>

inductive approvals_effect :: "js_env \<Rightarrow> approval_row list \<Rightarrow> approval_row list \<Rightarrow> bool" for env rows where
  ae_rewrite: "(\<And>r. r \<in> set rows \<Longrightarrow> P r \<Longrightarrow> \<not> approval_decided r \<and> approval_key (f r) = approval_key r
      \<and> (approval_decided (f r) \<longrightarrow> four_eyes env (f r))) \<Longrightarrow> rows' = rewritten P f rows \<Longrightarrow> approvals_effect env rows rows'"
| ae_new: "\<not> approval_decided x \<Longrightarrow> \<forall>r \<in> set rows. approval_key r \<noteq> approval_key x \<Longrightarrow> approvals_effect env rows (rows @ [x])"

lemma ae_same: "approvals_effect env rows rows"
  by (rule ae_rewrite [where P = "\<lambda>_. False" and f = id]) (simp_all add: rewritten_def)

lemma approval_unique:
  "unique_on (\<lambda>_. True) approval_key rows \<Longrightarrow> r \<in> set rows \<Longrightarrow> s \<in> set rows \<Longrightarrow> approval_key r = approval_key s \<Longrightarrow> r = s"
  using unique_on_eq [of "\<lambda>_. True" approval_key rows r s] by blast

lemma upsert_effect:
  assumes "\<not> approval_decided row" and "\<And>r. r \<in> set rows \<Longrightarrow> approval_key r = approval_key row \<Longrightarrow> \<not> approval_decided r"
  shows "approvals_effect env rows (upsertApproval row rows)"
proof (cases "list_ex (\<lambda>r. approval_key r = approval_key row) rows")
  case True
  with assms show ?thesis
    by (intro ae_rewrite [where P = "\<lambda>r. approval_key r = approval_key row" and f = "\<lambda>r. row\<lparr>pr_created_at := pr_created_at r\<rparr>"])
      (simp_all add: upsertApproval_def, simp_all add: approval_key_def approval_decided_def)
next
  case False
  with assms(1) show ?thesis by (auto simp: upsertApproval_def list_ex_iff intro: ae_new)
qed

lemma create_approval_effect:
  assumes inv: "unique_on (\<lambda>_. True) approval_key (db_approvals db)" and "createPendingApproval env now i db = Inr (db', a)"
  shows "approvals_effect env (db_approvals db) (db_approvals db')"
proof -
  let ?row = "pendingApproval env now i"
  have row: "approval_key ?row = (pi_run_id i, pi_node_id i)" "\<not> approval_decided ?row"
    by (simp_all add: pendingApproval_def Let_def approval_key_def approval_decided_def)
  from assms(2) obtain found where found: "getApproval env (pi_run_id i) (pi_node_id i) db = Inr found"
    "case found of None \<Rightarrow> True | Some a \<Rightarrow> \<not> approval_decided (ar_row a)"
    and db': "db_approvals db' = upsertApproval ?row (db_approvals db)"
    unfolding createPendingApproval_def Let_def by (auto simp: bind_inv split: option.splits)
  have "\<not> approval_decided r" if "r \<in> set (db_approvals db)" "approval_key r = approval_key ?row" for r
  proof (cases found)
    case None
    then have "getApprovalRow db (pi_run_id i) (pi_node_id i) = None" using found(1) by (simp add: getApproval_None)
    then show ?thesis using find_NoneD [of _ "db_approvals db" r] that row(1) by (auto simp: getApprovalRow_def approval_key_def)
  next
    case (Some a)
    then have "getApprovalRow db (pi_run_id i) (pi_node_id i) = Some (ar_row a)" using found(1) getApproval_Some by blast
    with approval_unique [OF inv, of "ar_row a" r] that row(1) found(2) Some show ?thesis by (auto dest!: getApprovalRow_key)
  qed
  with row(2) db' show ?thesis by (simp add: upsert_effect)
qed

lemma expire_approval_effect:
  assumes "expirePendingApprovals env now db = Inr (db', as)"
  shows "approvals_effect env (db_approvals db) (db_approvals db')"
proof -
  have "approvals_effect env rows (rewritten (approval_due now) (expired_row now) rows)" for rows
    by (rule ae_rewrite [where P = "approval_due now" and f = "expired_row now"])
      (auto simp: approval_due_def expired_row_def approval_decided_def approval_key_def)
  with assms show ?thesis by (auto simp: expirePendingApprovals_def bind_inv ae_same)
qed

lemma decide_approval_effect:
  assumes inv: "unique_on (\<lambda>_. True) approval_key (db_approvals db)" and "decideApproval env now later d db = Inr (db', r)"
  shows "approvals_effect env (db_approvals db) (db_approvals db')"
proof -
  let ?at = "\<lambda>s. pr_run_id s = de_run_id d \<and> pr_node_id s = de_node_id d"
  from assms(2) obtain a where a: "getApproval env (de_run_id d) (de_node_id d) db = Inr (Some a)"
    by (auto simp: decideApproval_def bind_inv split: option.splits)
  note row = getApproval_Some [OF a]
  have at: "s = ar_row a" if "s \<in> set (db_approvals db)" "?at s" for s
    using approval_unique [OF inv that(1), of "ar_row a"] that(2) row by (auto dest!: getApprovalRow_key simp: approval_key_def)
  from assms(2) a have waiting: "pr_status (ar_row a) = Ap_waiting"
    by (auto simp: decideApproval_def bind_inv Let_def)
  show ?thesis
  proof (cases "case pr_expires_at (ar_row a) of None \<Rightarrow> False | Some t \<Rightarrow> t \<le> now")
    case True
    with assms(2) a waiting
    have db': "db_approvals db' = rewritten ?at (\<lambda>s. s\<lparr>pr_status := Ap_expired, pr_updated_at := later\<rparr>) (db_approvals db)"
      by (auto simp: decideApproval_def Let_def)
    show ?thesis by (rule ae_rewrite [OF _ db']) (use at waiting in \<open>auto simp: approval_decided_def approval_key_def\<close>)
  next
    case False
    let ?decided = "\<lambda>s. s\<lparr>pr_status := decision_status d, pr_decision := Some (decision_text d), pr_actor := Some (de_actor d),
        pr_updated_at := later\<rparr>"
    from False assms(2) a waiting have proposer: "js_trim (pr_proposer (ar_row a)) \<noteq> []" "pr_proposer (ar_row a) \<noteq> de_actor d"
      and authorized: "js_includes (ar_authorized a) (de_actor d) = Inr True"
      and db': "db_approvals db' = rewritten (\<lambda>s. ?at s \<and> pr_status s = Ap_waiting) ?decided (db_approvals db)"
      by (auto simp: decideApproval_def Let_def bind_inv)
    have eyes: "four_eyes env (?decided s)" if "s \<in> set (db_approvals db)" "?at s" for s
      using at [OF that] row proposer authorized False by (auto simp: four_eyes_def split: option.splits)
    show ?thesis by (rule ae_rewrite [OF _ db']) (use at waiting eyes in \<open>auto simp: approval_decided_def approval_key_def\<close>)
  qed
qed

lemma approval_step_effect: "approval_step env db db' \<Longrightarrow> approvals_inv env db \<Longrightarrow> approvals_effect env (db_approvals db) (db_approvals db')"
  unfolding approvals_inv_def
  by (induction rule: approval_step.induct) (blast intro: create_approval_effect expire_approval_effect decide_approval_effect)+

lemma approvals_effect_inv:
  assumes "approvals_effect env (db_approvals db) (db_approvals db')" and "approvals_inv env db"
  shows "approvals_inv env db'"
  using assms
proof cases
  case (ae_rewrite P f)
  with assms(2) show ?thesis
    by (auto simp: approvals_inv_def rewritten_def [of _ _ "db_approvals db"] intro!: unique_on_update [unfolded rewritten_def] split: if_splits)
qed (auto simp: approvals_inv_def unique_on_insert)

lemma approvals_effect_row:
  assumes "approvals_effect env (db_approvals db) (db_approvals db')" and "getApprovalRow db run n = Some r"
  shows "\<exists>r'. getApprovalRow db' run n = Some r' \<and> approval_evolves r r'"
  using assms
proof cases
  case (ae_rewrite P f)
  have "getApprovalRow db' run n = map_option (\<lambda>r. if P r then f r else r) (getApprovalRow db run n)"
    unfolding getApprovalRow_def ae_rewrite(2) using ae_rewrite(1) by (intro find_update) (auto simp: approval_key_def)
  with ae_rewrite(1) [of r] assms(2) show ?thesis by (auto simp: approval_evolves_def dest!: getApprovalRow_key)
qed (auto simp: getApprovalRow_def find_append approval_evolves_def)

lemma approvals_init_inv: "approvals_init db \<Longrightarrow> approvals_inv env db"
  by (simp add: approvals_init_def approvals_inv_def)

interpretation approval_store: transition_system approvals_init "approval_step env" "approvals_inv env" for env
  by unfold_locales (auto intro: approvals_init_inv approvals_effect_inv approval_step_effect)

interpretation approvals: row_system approvals_init "approval_step env" "approvals_inv env"
    "\<lambda>db (run, n). getApprovalRow db run n" approval_evolves for env
  by unfold_locales (auto simp: approval_evolves_def intro: approvals_effect_row [unfolded approval_evolves_def] approval_step_effect)

section \<open>Fields of a document\<close>

lemma update_in_place: "k \<notin> set (map fst xs) \<Longrightarrow> AList.update k w (xs @ (k, v) # ys) = xs @ (k, w) # ys"
  by (induction xs) auto

lemma update_twice [simp]: "AList.update k w (AList.update k v m) = AList.update k w m"
  by (induction m) auto

lemma obj_get_put [simp]: "obj_get (obj_put k v kvs) k = v"
proof -
  let ?P = "\<lambda>p. array_index (fst p) \<and> decimal 0 (fst p) < decimal 0 k"
  have "k \<notin> set (map fst kvs) \<Longrightarrow> map_of (takeWhile ?P kvs @ (k, v) # dropWhile ?P kvs) k = Some v"
    by (induction kvs) auto
  then show ?thesis by (auto simp: obj_get_def obj_put_def)
qed

lemma obj_put_put [simp]: "obj_put k w (obj_put k v kvs) = obj_put k w kvs"
proof (cases "k \<in> set (map fst kvs) \<or> \<not> array_index k")
  case False
  let ?P = "\<lambda>p. array_index (fst p) \<and> decimal 0 (fst p) < decimal 0 k"
  have "k \<notin> set (map fst (takeWhile ?P kvs))" using False set_takeWhileD by fastforce
  with False show ?thesis by (simp add: obj_put_def update_in_place)
qed (auto simp: obj_put_def AList.update_keys)

lemma update_has_key: "k \<in> fst ` set (AList.update k v kvs)"
  by (induction kvs) auto

lemma to_prototype_put [simp]: "to_prototype p (obj_put p v kvs) = False"
  by (simp add: to_prototype_def obj_put_def update_has_key)

lemma to_prototype_plain [simp]: "p \<noteq> ''__proto__'' \<Longrightarrow> \<not> to_prototype p kvs"
  by (simp add: to_prototype_def)

lemma get_put_path: "''__proto__'' \<notin> set ps \<Longrightarrow> get_path ps (put_path ps x v) = x"
  by (induction ps arbitrary: v) auto

lemma put_put_path [simp]: "put_path ps y (put_path ps x v) = put_path ps y v"
  by (induction ps arbitrary: v) (simp_all add: as_object_def)

lemma prototype_path_plain: "''__proto__'' \<notin> set ps \<Longrightarrow> prototype_path ps v = None"
  by (induction ps arbitrary: v) auto

text \<open>A path that starts at \<open>__proto__\<close> is lost: the document stays as it is, and the amount is on \<open>Object.prototype\<close>.\<close>

lemma prototype_amount_lost:
  assumes "''__proto__'' \<notin> set (map fst kvs)" and "ps \<noteq> []"
  shows "put_path (''__proto__'' # ps) x (JObj kvs) = JObj kvs \<and> prototype_path (''__proto__'' # ps) (JObj kvs) = Some ps"
  using assms by (simp_all add: to_prototype_def as_object_def)

section \<open>Budgets\<close>

definition state_value :: "js_env \<Rightarrow> string \<Rightarrow> string \<Rightarrow> ('m) primitive_db_scheme \<Rightarrow> js attempt" where
  "state_value env namespace k db =
     bindE (getDagState env namespace k db) (\<lambda>s. Inr (case s of None \<Rightarrow> JUndef | Some r \<Rightarrow> sr_value r))"

text \<open>
  Reservations on one budget, each in its own transaction, mixed with writes of other keys and with
  approvals; \<open>xs\<close> are the amounts that were admitted.
\<close>

inductive reservations :: "js_env \<Rightarrow> (rat \<Rightarrow> jsnum) \<Rightarrow> budget_input \<Rightarrow> ('m) primitive_db_scheme \<Rightarrow> jsnum list \<Rightarrow> ('m) primitive_db_scheme \<Rightarrow> bool"
  for env rnd b db where
  rs_start: "reservations env rnd b db [] db"
| rs_admitted: "reservations env rnd b db xs db1 \<Longrightarrow> reserveDagBudget env rnd now (b\<lparr>bu_amount := x\<rparr>) db1 = Inr r \<Longrightarrow> br_admitted r
    \<Longrightarrow> reservations env rnd b db (xs @ [x]) (br_db r)"
| rs_refused: "reservations env rnd b db xs db1 \<Longrightarrow> reserveDagBudget env rnd now (b\<lparr>bu_amount := x\<rparr>) db1 = Inr r \<Longrightarrow> \<not> br_admitted r
    \<Longrightarrow> reservations env rnd b db xs (br_db r)"
| rs_other_key: "reservations env rnd b db xs db1 \<Longrightarrow> mutateDagState env now i f db1 = Inr w
    \<Longrightarrow> (sti_namespace i, sti_key i) \<noteq> (sti_namespace (bu_state b), sti_key (bu_state b)) \<Longrightarrow> reservations env rnd b db xs (sw_db w)"
| rs_approval: "reservations env rnd b db xs db1 \<Longrightarrow> approval_step env db1 db2 \<Longrightarrow> reservations env rnd b db xs db2"

lemma decide_states: "decideApproval env now later d db = Inr (db', r) \<Longrightarrow> db_states db' = db_states db"
proof -
  assume d: "decideApproval env now later d db = Inr (db', r)"
  then obtain a where "getApproval env (de_run_id d) (de_node_id d) db = Inr (Some a)"
    by (auto simp: decideApproval_def bind_inv split: option.splits)
  with d show ?thesis
    by (cases "case pr_expires_at (ar_row a) of None \<Rightarrow> False | Some t \<Rightarrow> t \<le> now") (auto simp: decideApproval_def bind_inv Let_def)
qed

lemma approval_step_states: "approval_step env db db' \<Longrightarrow> db_states db' = db_states db"
  by (induction rule: approval_step.induct)
    (auto simp: createPendingApproval_def expirePendingApprovals_def bind_inv Let_def decide_states split: if_split_asm)

lemma getStateRow_upsert:
  "find (\<lambda>r. st_namespace r = n \<and> st_key r = k) (upsertState row rows)
    = (if st_namespace row = n \<and> st_key row = k then Some row else find (\<lambda>r. st_namespace r = n \<and> st_key r = k) rows)"
proof (cases "list_ex (\<lambda>r. st_namespace r = st_namespace row \<and> st_key r = st_key row) rows")
  case True
  then obtain r where "r \<in> set rows" "st_namespace r = st_namespace row" "st_key r = st_key row" by (auto simp: list_ex_iff)
  then have found: "\<exists>r. find (\<lambda>r. st_namespace r = st_namespace row \<and> st_key r = st_key row) rows = Some r"
    using find_NoneD by (cases "find (\<lambda>r. st_namespace r = st_namespace row \<and> st_key r = st_key row) rows") fastforce+
  have upd: "find (\<lambda>r. st_namespace r = n \<and> st_key r = k) (upsertState row rows)
      = map_option (\<lambda>r. if st_namespace r = st_namespace row \<and> st_key r = st_key row then row else r)
          (find (\<lambda>r. st_namespace r = n \<and> st_key r = k) rows)"
    unfolding upsertState_def Let_def using True by (simp, intro find_update) auto
  show ?thesis
  proof (cases "st_namespace row = n \<and> st_key row = k")
    case True
    from found obtain r where r: "find (\<lambda>r. st_namespace r = st_namespace row \<and> st_key r = st_key row) rows = Some r" by blast
    from True upd r find_SomeD [OF r] show ?thesis by auto
  next
    case False
    with upd show ?thesis by (cases "find (\<lambda>r. st_namespace r = n \<and> st_key r = k) rows") (auto dest!: find_SomeD)
  qed
next
  case False
  then have new: "upsertState row rows = rows @ [row]" by (simp add: upsertState_def)
  show ?thesis
  proof (cases "st_namespace row = n \<and> st_key row = k")
    case True
    then have "find (\<lambda>r. st_namespace r = n \<and> st_key r = k) rows = None" using False by (auto simp: find_None_iff list_ex_iff)
    with True show ?thesis by (simp only: new find_append) simp
  next
    case no: False
    then have "find (\<lambda>r. st_namespace r = n \<and> st_key r = k) [row] = None" by simp
    with no show ?thesis unfolding new find_append by (cases "find (\<lambda>r. st_namespace r = n \<and> st_key r = k) rows") auto
  qed
qed

lemma write_state:
  assumes "writeDagState env now i before v db = Inr w"
  shows "sw_db w = db\<lparr>db_states := db_states (sw_db w), db_history := db_history (sw_db w)\<rparr>"
    and "state_value env (sti_namespace i) (sti_key i) (sw_db w) = Inr (sr_value (sw_record w))"
    and "env_json_parse env (encodeJson env (js_nullish v JNull)) = Some (sr_value (sw_record w))"
    and "(n, k) \<noteq> (sti_namespace i, sti_key i) \<Longrightarrow> state_value env n k (sw_db w) = state_value env n k db"
  using assms
  by (auto simp: writeDagState_def Let_def bind_inv state_value_def getDagState_def optE_def getStateRow_def getStateRow_upsert stateFromRow_def
      split: option.splits)

lemma mutate_other_key:
  "mutateDagState env now i f db = Inr w \<Longrightarrow> (n, k) \<noteq> (sti_namespace i, sti_key i) \<Longrightarrow> state_value env n k (sw_db w) = state_value env n k db"
  by (auto simp: mutateDagState_def bind_inv write_state(4) split: if_splits)

text \<open>A reservation that is admitted writes the new total into the document, one that is refused writes nothing.\<close>

lemma reserve_outcome:
  assumes "reserveDagBudget env rnd now b db = Inr r" and "state_value env (sti_namespace (bu_state b)) (sti_key (bu_state b)) db = Inr v"
    and parts_def: "parts = field_parts (bu_usage_field b)" and total_def: "total' = num_add rnd (spent_of (get_path parts v)) (bu_amount b)"
  shows "if br_admitted r
    then num_is_finite (bu_amount b) \<and> num_less (Fin 0) (bu_amount b) \<and> num_le total' (bu_limit b)
      \<and> (\<exists>u. env_json_parse env (encodeJson env (put_path parts (JNum total') v)) = Some u
           \<and> state_value env (sti_namespace (bu_state b)) (sti_key (bu_state b)) (br_db r) = Inr u)
    else br_db r = db"
proof -
  from assms(2) obtain before where before: "getDagState env (sti_namespace (bu_state b)) (sti_key (bu_state b)) db = Inr before"
    "v = (case before of None \<Rightarrow> JUndef | Some s \<Rightarrow> sr_value s)" by (auto simp: state_value_def bind_inv)
  have total: "num_add rnd (budget_spent parts before) (bu_amount b) = total'" by (simp add: total_def budget_spent_def before(2))
  have nn: "js_nullish (put_path parts (JNum total') v) JNull = put_path parts (JNum total') v"
    by (cases parts) (auto simp: js_nullish_def)
  show ?thesis
  proof (cases "br_admitted r")
    case False
    with assms(1) before(1) show ?thesis by (auto simp: reserveDagBudget_def Let_def bind_inv split: if_splits)
  next
    case True
    with assms(1) before(1) obtain w where w: "writeDagState env now (bu_state b) before (put_path parts (JNum total') v) db = Inr w"
      "br_db r = sw_db w" "num_is_finite (bu_amount b) \<and> num_less (Fin 0) (bu_amount b) \<and> num_le total' (bu_limit b)"
      by (auto simp: reserveDagBudget_def Let_def bind_inv before(2) [symmetric] parts_def [symmetric] total split: if_splits)
    with True write_state(2,3) [OF w(1)] nn show ?thesis by auto
  qed
qed

lemma other_values:
  "db_states db' = db_states db \<Longrightarrow> state_value env n k db' = state_value env n k db"
  by (simp add: state_value_def getDagState_def getStateRow_def)

lemma exact_sum:
  assumes exact: "\<And>i. \<bar>i\<bar> \<le> max_safe_integer + 1 \<Longrightarrow> rnd (of_int i) = Fin (of_int i)" and mono: "\<And>p q. p \<le> q \<Longrightarrow> num_le (rnd p) (rnd q)"
    and "0 \<le> a" and "0 < i" and "l \<le> max_safe_integer" and le: "num_le (num_add rnd (num_of_int a) (num_of_int i)) (num_of_int l)"
  shows "num_add rnd (num_of_int a) (num_of_int i) = num_of_int (a + i) \<and> a + i \<le> l"
proof -
  have "a + i \<le> max_safe_integer"
  proof (rule ccontr)
    assume "\<not> a + i \<le> max_safe_integer"
    then have "num_le (rnd (of_int (max_safe_integer + 1))) (rnd (of_int (a + i)))" by (intro mono) linarith
    moreover have "rnd (of_int (max_safe_integer + 1)) = Fin (of_int (max_safe_integer + 1))" by (rule exact) (simp add: max_safe_integer_def)
    ultimately have "of_int (max_safe_integer + 1) \<le> (of_int l :: rat)"
      using le by (cases "rnd (of_int (a + i))") (auto simp: num_le_def)
    then show False using assms(5) by (simp only: of_int_le_iff)
  qed
  then have "num_add rnd (num_of_int a) (num_of_int i) = num_of_int (a + i)"
    using exact [of "a + i"] assms(3,4) by simp
  with le show ?thesis by (simp add: num_le_def) linarith
qed

lemma reservations_spent:
  assumes "reservations env rnd b db xs db'" and plain: "''__proto__'' \<notin> set parts" and "\<forall>x \<in> set xs. num_is_integer x"
    and exact: "\<And>i. \<bar>i\<bar> \<le> max_safe_integer + 1 \<Longrightarrow> rnd (of_int i) = Fin (of_int i)" and mono: "\<And>p q. p \<le> q \<Longrightarrow> num_le (rnd p) (rnd q)"
    and limit: "bu_limit b = num_of_int l" "l \<le> max_safe_integer"
    and parts: "parts = field_parts (bu_usage_field b)"
    and start: "state_value env (sti_namespace (bu_state b)) (sti_key (bu_state b)) db = Inr v" "spent_of (get_path parts v) = num_of_int s"
      "0 \<le> s" "s \<le> l"
    and reads: "\<And>n. 0 \<le> n \<Longrightarrow> n \<le> l \<Longrightarrow> env_json_parse env (encodeJson env (put_path parts (JNum (num_of_int n)) v))
        = Some (put_path parts (JNum (num_of_int n)) v)"
  shows "(let spent = s + sum_list (map num_int xs) in 0 \<le> spent \<and> spent \<le> l \<and> (\<forall>x \<in> set xs. 0 < num_int x)
     \<and> (\<exists>u. state_value env (sti_namespace (bu_state b)) (sti_key (bu_state b)) db' = Inr u
           \<and> u = (if xs = [] then v else put_path parts (JNum (num_of_int spent)) v)
           \<and> spent_of (get_path parts u) = num_of_int spent))"
  using assms(1,3)
proof (induction rule: reservations.induct)
  case rs_start
  show ?case using start by simp
next
  case (rs_admitted xs db1 now x r)
  let ?spent = "s + sum_list (map num_int xs)"
  from rs_admitted.prems obtain i where i: "x = num_of_int i" by (auto elim: num_is_integerE)
  from rs_admitted.IH rs_admitted.prems obtain u where u: "state_value env (sti_namespace (bu_state b)) (sti_key (bu_state b)) db1 = Inr u"
    "u = (if xs = [] then v else put_path parts (JNum (num_of_int ?spent)) v)" "spent_of (get_path parts u) = num_of_int ?spent"
    and spent: "0 \<le> ?spent" "?spent \<le> l" "\<forall>x \<in> set xs. 0 < num_int x" by (auto simp: Let_def)
  from reserve_outcome [OF rs_admitted.hyps(2), simplified, OF u(1) parts refl] rs_admitted.hyps(3)
  obtain w where w: "0 < i" "num_le (num_add rnd (num_of_int ?spent) x) (num_of_int l)"
    "env_json_parse env (encodeJson env (put_path parts (JNum (num_add rnd (num_of_int ?spent) x)) u)) = Some w"
    "state_value env (sti_namespace (bu_state b)) (sti_key (bu_state b)) (br_db r) = Inr w"
    by (auto simp: u(3) i limit(1))
  from exact_sum [OF exact mono spent(1) w(1) limit(2)] w(2)
  have sum: "num_add rnd (num_of_int ?spent) x = num_of_int (?spent + i)" "?spent + i \<le> l" by (simp_all only: i)
  have "put_path parts (JNum (num_of_int (?spent + i))) u = put_path parts (JNum (num_of_int (?spent + i))) v" by (simp add: u(2))
  with w(3) sum reads [of "?spent + i"] spent(1) w(1) have "w = put_path parts (JNum (num_of_int (?spent + i))) v" by simp
  with w(1,4) spent sum(2) show ?case by (auto simp: i spent_of_def num_is_finite_def Let_def add.assoc get_put_path [OF plain])
next
  case (rs_refused xs db1 now x r)
  then show ?case using reserve_outcome [OF rs_refused.hyps(2), simplified, OF _ parts refl] by (auto simp: Let_def)
next
  case (rs_other_key xs db1 now i f w)
  then show ?case using mutate_other_key [OF rs_other_key.hyps(2)] by (auto simp: Let_def)
next
  case (rs_approval xs db1 db2)
  then show ?case using other_values [OF approval_step_states [OF rs_approval.hyps(2)]] by (auto simp: Let_def)
qed

section \<open>Runs of the model\<close>

text \<open>An environment that writes a number in unary, and reads anything else as the array of the one authorized actor.\<close>

definition pr_env :: js_env where
  "pr_env = \<lparr>env_num_str = (\<lambda>n. replicate (nat (num_int n)) (CHR ''1'')), env_sha256 = (\<lambda>s. s),
     env_json_parse = (\<lambda>s. Some (if list_all (\<lambda>c. c = CHR ''1'') s then JNum (num_of_int (int (length s))) else JArr [JStr ''bob'']))\<rparr>"

definition pr_demo0 :: primitive_db where
  "pr_demo0 = \<lparr>db_runs = [(''r'', ''running'')], db_actors = [], db_commands = [], db_approvals = [], db_states = [], db_history = []\<rparr>"

definition pr_request :: approval_input where
  "pr_request = \<lparr>pi_run_id = ''r'', pi_node_id = ''n'', pi_approval_id = ''p'', pi_proposal = JStr ''deploy'', pi_proposer = ''ann'',
     pi_authorized = [''bob''], pi_expires_after_ms = Some 100\<rparr>"

definition pr_row :: approval_row where
  "pr_row = pendingApproval pr_env 5 pr_request"

definition pr_decide :: decision_input where
  "pr_decide = \<lparr>de_run_id = ''r'', de_node_id = ''n'', de_approve = True, de_actor = ''bob'', de_hash = pr_hash pr_row\<rparr>"

definition pr_approved :: approval_row where
  "pr_approved = pr_row\<lparr>pr_status := Ap_approved, pr_decision := Some ''approved'', pr_actor := Some ''bob'', pr_updated_at := 50\<rparr>"

lemma pr_steps:
  "createPendingApproval pr_env 5 pr_request pr_demo0
     = Inr (pr_demo0\<lparr>db_approvals := [pr_row]\<rparr>, \<lparr>ar_row = pr_row, ar_proposal = JArr [JStr ''bob''], ar_authorized = JArr [JStr ''bob'']\<rparr>)"
  "decideApproval pr_env 50 50 pr_decide (pr_demo0\<lparr>db_approvals := [pr_row]\<rparr>)
     = Inr (pr_demo0\<lparr>db_approvals := [pr_approved]\<rparr>, Some \<lparr>ar_row = pr_approved, ar_proposal = JArr [JStr ''bob''], ar_authorized = JArr [JStr ''bob'']\<rparr>)"
  by code_simp+

lemma pr_reach:
  "reach approvals_init (approval_step pr_env) (pr_demo0\<lparr>db_approvals := [pr_approved]\<rparr>)"
proof -
  have "reach approvals_init (approval_step pr_env) pr_demo0"
    by (rule reach_init) (simp add: approvals_init_def pr_demo0_def)
  then have "reach approvals_init (approval_step pr_env) (pr_demo0\<lparr>db_approvals := [pr_row]\<rparr>)"
    by (rule reach_step) (rule ap_create [OF pr_steps(1)])
  then show ?thesis by (rule reach_step) (rule ap_decide [OF pr_steps(2)])
qed

definition pr_budget :: budget_input where
  "pr_budget = \<lparr>bu_state = \<lparr>sti_namespace = ''b'', sti_key = ''k'', sti_expected_version = None, sti_run_id = None, sti_node_id = None\<rparr>,
     bu_amount = Fin 2, bu_limit = Fin 3, bu_usage_field = None\<rparr>"

definition pr_demo1 :: primitive_db where
  "pr_demo1 = pr_demo0\<lparr>db_states := [\<lparr>st_namespace = ''b'', st_key = ''k'', st_version = 1, st_json = ''11'', st_updated_at = 5\<rparr>],
     db_history := [\<lparr>hi_namespace = ''b'', hi_key = ''k'', hi_before_json = None, hi_after_json = ''11'', hi_version = 1, hi_run_id = None,
        hi_node_id = None, hi_created_at = 5\<rparr>]\<rparr>"

lemma pr_reserved: "\<exists>r. reserveDagBudget pr_env Fin 5 pr_budget pr_demo0 = Inr r \<and> br_admitted r \<and> br_db r = pr_demo1"
  "\<exists>r. reserveDagBudget pr_env Fin 6 pr_budget pr_demo1 = Inr r \<and> \<not> br_admitted r \<and> br_db r = pr_demo1"
proof -
  have "map_sum (\<lambda>_. ()) (\<lambda>r. (br_admitted r, br_db r)) (reserveDagBudget pr_env Fin 5 pr_budget pr_demo0) = Inr (True, pr_demo1)"
    "map_sum (\<lambda>_. ()) (\<lambda>r. (br_admitted r, br_db r)) (reserveDagBudget pr_env Fin 6 pr_budget pr_demo1) = Inr (False, pr_demo1)"
    by code_simp+
  then show "\<exists>r. reserveDagBudget pr_env Fin 5 pr_budget pr_demo0 = Inr r \<and> br_admitted r \<and> br_db r = pr_demo1"
    "\<exists>r. reserveDagBudget pr_env Fin 6 pr_budget pr_demo1 = Inr r \<and> \<not> br_admitted r \<and> br_db r = pr_demo1"
    by (cases "reserveDagBudget pr_env Fin 5 pr_budget pr_demo0", simp_all, cases "reserveDagBudget pr_env Fin 6 pr_budget pr_demo1", simp_all)
qed

lemma pr_reservations: "reservations pr_env Fin pr_budget pr_demo0 [Fin 2] pr_demo1"
proof -
  have same: "pr_budget\<lparr>bu_amount := Fin 2\<rparr> = pr_budget" by (simp add: pr_budget_def)
  from pr_reserved(1) have "reservations pr_env Fin pr_budget pr_demo0 ([] @ [Fin 2]) pr_demo1"
    using rs_admitted [OF rs_start, where env = pr_env and rnd = Fin and b = pr_budget and db = pr_demo0 and now = 5 and x = "Fin 2"] by (auto simp: same)
  with pr_reserved(2) show ?thesis
    using rs_refused [where env = pr_env and rnd = Fin and b = pr_budget and db = pr_demo0 and ?db1.0 = pr_demo1 and now = 6 and x = "Fin 2"] by (auto simp: same)
qed

section \<open>Properties\<close>

text \<open>C21. Whatever approvals are created, decided and expired, in any order: an approval that is approved or rejected by
  a decision names an actor that is on the list of authorized actors and is not the proposer, and its row never changes again.\<close>

theorem approval_four_eyes:
  assumes "reach approvals_init (approval_step env) db" and "(approval_step env)\<^sup>*\<^sup>* db db'"
    and "getApprovalRow db run n = Some r" and "approval_decided r"
  shows "four_eyes env r \<and> getApprovalRow db' run n = Some r"
proof -
  note inv = approval_store.reach_inv [OF assms(1)]
  from inv getApprovalRow_key [OF assms(3)] assms(4) have "four_eyes env r" by (auto simp: approvals_inv_def)
  moreover from approvals.row_steps [OF assms(2) inv, of "(run, n)" r] assms(3,4) have "getApprovalRow db' run n = Some r"
    by (auto simp: approval_evolves_def)
  ultimately show ?thesis ..
qed

theorem approval_four_eyes_witness: "four_eyes pr_env pr_approved"
proof -
  have "getApprovalRow (pr_demo0\<lparr>db_approvals := [pr_approved]\<rparr>) ''r'' ''n'' = Some pr_approved" "approval_decided pr_approved"
    by code_simp+
  from approval_four_eyes [OF pr_reach rtranclp.rtrancl_refl this] show ?thesis ..
qed

text \<open>C22. A budget is never exceeded: whatever reservations of whole amounts are made on it, interleaved with writes of other keys and
  with approvals, the amounts that were admitted together with what was spent before stay within the limit,
  and the document records exactly their sum. The limit is a safe integer, what was spent before a whole number from 0 to the limit, and
  the usage field has no part \<open>__proto__\<close>; addition rounds, but exactly on safe integers, and the documents that are written are read back as they were.\<close>

theorem budget_never_exceeded:
  assumes "reservations env rnd b db xs db'" and "\<forall>x \<in> set xs. num_is_integer x" and "''__proto__'' \<notin> set (field_parts (bu_usage_field b))"
    and exact: "\<And>i. \<bar>i\<bar> \<le> max_safe_integer + 1 \<Longrightarrow> rnd (of_int i) = Fin (of_int i)" and mono: "\<And>p q. p \<le> q \<Longrightarrow> num_le (rnd p) (rnd q)"
    and "bu_limit b = num_of_int l" and "l \<le> max_safe_integer"
    and "state_value env (sti_namespace (bu_state b)) (sti_key (bu_state b)) db = Inr v"
    and "spent_of (get_path (field_parts (bu_usage_field b)) v) = num_of_int s" and "0 \<le> s" and "s \<le> l"
    and reads: "\<And>n. 0 \<le> n \<Longrightarrow> n \<le> l \<Longrightarrow>
      env_json_parse env (encodeJson env (put_path (field_parts (bu_usage_field b)) (JNum (num_of_int n)) v))
        = Some (put_path (field_parts (bu_usage_field b)) (JNum (num_of_int n)) v)"
  shows "s + sum_list (map num_int xs) \<le> l
    \<and> (\<exists>u. state_value env (sti_namespace (bu_state b)) (sti_key (bu_state b)) db' = Inr u
        \<and> spent_of (get_path (field_parts (bu_usage_field b)) u) = num_of_int (s + sum_list (map num_int xs)))"
  using reservations_spent [OF assms(1,3,2) exact mono assms(6,7) refl assms(8-11) reads] by (auto simp: Let_def)

theorem budget_never_exceeded_witness:
  "sum_list (map num_int [Fin 2]) \<le> 3 \<and> state_value pr_env ''b'' ''k'' pr_demo1 = Inr (JNum (Fin 2))"
proof -
  have b: "sti_namespace (bu_state pr_budget) = ''b''" "sti_key (bu_state pr_budget) = ''k''" "field_parts (bu_usage_field pr_budget) = []"
    "bu_limit pr_budget = num_of_int 3" by (simp_all add: pr_budget_def field_parts_def)
  have start: "state_value pr_env ''b'' ''k'' pr_demo0 = Inr JUndef" by code_simp
  have reads: "env_json_parse pr_env (encodeJson pr_env (JNum (num_of_int n))) = Some (JNum (num_of_int n))" if "0 \<le> n" for n
    using that by (simp add: pr_env_def encodeJson_def num_is_finite_def list_all_iff)
  have two: "\<forall>x \<in> set [Fin 2]. num_is_integer x" "num_int (Fin 2) = 2"
    using num_int_of_int(2) [of 2] num_int_of_int(1) [of 2] by simp_all
  have "0 + sum_list (map num_int [Fin 2]) \<le> 3 \<and> (\<exists>u. state_value pr_env (sti_namespace (bu_state pr_budget)) (sti_key (bu_state pr_budget)) pr_demo1 = Inr u
      \<and> spent_of (get_path (field_parts (bu_usage_field pr_budget)) u) = num_of_int (0 + sum_list (map num_int [Fin 2])))"
    by (rule budget_never_exceeded [OF pr_reservations two(1), where v = JUndef])
      (simp_all only: b start, simp_all add: reads num_le_def max_safe_integer_def spent_of_def order_le_less)
  then have "sum_list (map num_int [Fin 2]) \<le> 3" by simp
  moreover have "state_value pr_env ''b'' ''k'' pr_demo1 = Inr (JNum (Fin 2))" by code_simp
  ultimately show ?thesis by simp
qed

end
