(* ===== verification/Live_Commands.thy ===== *)
theory Live_Commands
  imports Actor_Leases Interventions
begin

text \<open>
  \<open>persistence/dag-actor-live-commands.ts\<close>: commands to a running actor. A command is queued, delivered,
  applied and ends in one of five terminal states; the commands of an actor are numbered; a run has at
  most 500 that have not ended. The constraints are those of migration 28 in \<open>persistence/db.ts\<close>.
\<close>

datatype live_status = Lv_queued | Lv_delivered | Lv_applied | Lv_completed | Lv_rejected | Lv_failed | Lv_superseded | Lv_cancelled

datatype live_conflict =
    Live_identity_conflict
  | Live_generation_conflict
  | Live_status_conflict
  | Live_capacity_exceeded

record live_row =
  lv_command_id :: string
  lv_run_id :: string
  lv_actor_id :: string
  lv_node_id :: string
  lv_session_id :: string
  lv_round_id :: string
  lv_target_generation :: int
  lv_lease_generation :: int
  lv_state_token :: string
  lv_sequence :: int
  lv_status :: live_status
  lv_idempotency_key :: string
  lv_digest :: string
  lv_json :: string
  lv_attempts :: int
  lv_last_sent_at :: "int option"
  lv_fallback_json :: "string option"
  lv_delivered_at :: "int option"
  lv_applied_at :: "int option"
  lv_terminal_at :: "int option"
  lv_terminal_json :: "string option"
  lv_created_at :: int
  lv_updated_at :: int

record live_db = lease_db +
  db_live :: "live_row list"

definition MAX_LIVE_PAYLOAD_BYTES :: int where
  "MAX_LIVE_PAYLOAD_BYTES = 64 * 1024"

definition MAX_LIVE_REASON_BYTES :: nat where
  "MAX_LIVE_REASON_BYTES = 4 * 1024"

definition MAX_OUTSTANDING_PER_RUN :: nat where
  "MAX_OUTSTANDING_PER_RUN = 500"

section \<open>Constraints\<close>

definition live_terminal :: "live_status \<Rightarrow> bool" where
  "live_terminal s \<longleftrightarrow> s = Lv_completed \<or> s = Lv_rejected \<or> s = Lv_failed \<or> s = Lv_superseded \<or> s = Lv_cancelled"

definition live_outstanding :: "live_row \<Rightarrow> bool" where
  "live_outstanding r \<longleftrightarrow> lv_status r = Lv_queued \<or> lv_status r = Lv_delivered \<or> lv_status r = Lv_applied"

definition sql_reason :: "string option \<Rightarrow> bool" where
  "sql_reason v = (case v of None \<Rightarrow> True | Some s \<Rightarrow> sql_document 4096 s)"

definition live_check :: "live_row \<Rightarrow> bool" where
  "live_check r \<longleftrightarrow>
     sql_id 256 (lv_command_id r) \<and> sql_id 256 (lv_run_id r) \<and> sql_id 256 (lv_actor_id r) \<and> sql_id 256 (lv_node_id r)
     \<and> sql_id 512 (lv_session_id r) \<and> sql_id 256 (lv_round_id r)
     \<and> 1 \<le> lv_target_generation r \<and> 0 \<le> lv_lease_generation r \<and> hex_digest (lv_state_token r) \<and> 1 \<le> lv_sequence r
     \<and> sql_id 256 (lv_idempotency_key r) \<and> hex_digest (lv_digest r) \<and> sql_document 65536 (lv_json r)
     \<and> 0 \<le> lv_attempts r \<and> opt_ge (lv_last_sent_at r) (lv_created_at r) \<and> sql_reason (lv_fallback_json r)
     \<and> opt_ge (lv_delivered_at r) (lv_created_at r) \<and> opt_ge (lv_applied_at r) (lv_created_at r)
     \<and> opt_ge (lv_terminal_at r) (lv_created_at r) \<and> sql_reason (lv_terminal_json r)
     \<and> 0 \<le> lv_created_at r \<and> lv_created_at r \<le> lv_updated_at r
     \<and> (lv_last_sent_at r \<noteq> None \<longrightarrow> 1 \<le> lv_attempts r)
     \<and> (lv_applied_at r \<noteq> None \<longrightarrow> lv_delivered_at r \<noteq> None)
     \<and> (lv_fallback_json r \<noteq> None \<longrightarrow> lv_status r = Lv_queued)
     \<and> (case lv_status r of
          Lv_queued \<Rightarrow> lv_delivered_at r = None \<and> lv_applied_at r = None \<and> lv_terminal_at r = None \<and> lv_terminal_json r = None
        | Lv_delivered \<Rightarrow> lv_delivered_at r \<noteq> None \<and> lv_applied_at r = None \<and> lv_terminal_at r = None
            \<and> lv_fallback_json r = None \<and> lv_terminal_json r = None
        | Lv_applied \<Rightarrow> lv_delivered_at r \<noteq> None \<and> lv_applied_at r \<noteq> None \<and> lv_terminal_at r = None
            \<and> lv_fallback_json r = None \<and> lv_terminal_json r = None
        | Lv_completed \<Rightarrow> lv_delivered_at r \<noteq> None \<and> lv_applied_at r \<noteq> None \<and> lv_terminal_at r \<noteq> None \<and> lv_fallback_json r = None
        | _ \<Rightarrow> lv_terminal_at r \<noteq> None \<and> lv_fallback_json r = None \<and> lv_terminal_json r \<noteq> None)"

definition live_key :: "live_row \<Rightarrow> string \<times> string \<times> string" where
  "live_key r = (lv_run_id r, lv_actor_id r, lv_idempotency_key r)"

definition live_ok :: "live_row list \<Rightarrow> bool" where
  "live_ok rows \<longleftrightarrow> list_all live_check rows
     \<and> unique_on (\<lambda>_. True) lv_command_id rows
     \<and> unique_on (\<lambda>_. True) live_key rows
     \<and> unique_on (\<lambda>_. True) (\<lambda>r. (lv_run_id r, lv_actor_id r, lv_sequence r)) rows"

section \<open>Documents\<close>

definition assertStateToken :: "string \<Rightarrow> 'c err + string" where
  "assertStateToken v =
     (let normalized = js_trim v
      in throwIf (\<not> hex_digest normalized) (Invalid ''expected_state_token'') (Inr normalized))"

definition encodePayload :: "js_env \<Rightarrow> js \<Rightarrow> 'c err + (string \<times> string)" where
  "encodePayload env v =
     (case json_stringify (env_num_str env) v of
        None \<Rightarrow> Inl (Invalid ''live command payload'')
      | Some source \<Rightarrow>
          throwIf (MAX_LIVE_PAYLOAD_BYTES < int (utf8_length source)) (Invalid ''live command payload'')
          (case json_stringify (env_num_str env) (canonicalize (redactTelemetry 0 v)) of
             None \<Rightarrow> Inl (Invalid ''live command payload'')
           | Some json \<Rightarrow>
               throwIf (MAX_LIVE_PAYLOAD_BYTES < int (utf8_length json)) (Invalid ''live command payload'')
                 (Inr (json, env_sha256 env json))))"

text \<open>
  Cutting the bytes of a string: a character of two bytes that is cut in half decodes to the
  replacement character, which the code removes again.
\<close>

fun utf8_take :: "nat \<Rightarrow> string \<Rightarrow> string" where
  "utf8_take n [] = []"
| "utf8_take n (c # cs) =
     (let width = (if of_char c < (128 :: nat) then 1 else 2)
      in if n < width then [] else c # utf8_take (n - width) cs)"

definition truncateUtf8 :: "string \<Rightarrow> nat \<Rightarrow> string" where
  "truncateUtf8 v maxBytes = (if utf8_length v \<le> maxBytes then v else utf8_take (maxBytes - 3) v @ ''...'')"

definition reason_json :: "string \<Rightarrow> string" where
  "reason_json reason = ''{'' @ json_quote ''reason'' @ '':'' @ json_quote reason @ ''}''"

lemma reason_json_stringify: "json_stringify num_str (JObj [(''reason'', JStr r)]) = Some (reason_json r)"
  by (simp add: reason_json_def)

lemma utf8_length_append [simp]: "utf8_length (s @ t) = utf8_length s + utf8_length t"
  by (simp add: utf8_length_def)

lemma utf8_take_length: "utf8_length (utf8_take n s) \<le> n"
  by (induction n s rule: utf8_take.induct) (auto simp: utf8_length_def Let_def)

lemma truncateUtf8_length: "utf8_length (truncateUtf8 s n) \<le> max n 3"
proof (cases "utf8_length s \<le> n")
  case False
  have "utf8_length ''...'' = 3" by code_simp
  then have "utf8_length (truncateUtf8 s n) = utf8_length (utf8_take (n - 3) s) + 3" using False by (simp only: truncateUtf8_def if_False utf8_length_append)
  also have "\<dots> \<le> n - 3 + 3" using utf8_take_length by (rule add_right_mono)
  finally show ?thesis by linarith
qed (simp add: truncateUtf8_def)

lemma utf8_escape: "utf8_length (json_escape c) \<le> 6"
proof -
  have width: "utf8_length [c] \<le> 2" for c using utf8_length_le [of "[c]"] by simp
  have "utf8_length (json_escape c) \<le> 6" if "of_char c \<ge> (32 :: nat)"
    using that width [of c] by (simp add: json_escape_def Let_def utf8_length_def)
  moreover have "utf8_length (json_escape c) \<le> 6" if "of_char c < (32 :: nat)"
  proof -
    have "hex_digit n \<in> set (map hex_digit [0..<16])" if "n < 16" for n using that by simp
    then have "of_char (hex_digit n) < (128 :: nat)" if "n < 16" for n
      using that by (auto simp: hex_digit_def of_char_of take_bit_eq_mod)
    with that show ?thesis by (auto simp: json_escape_def Let_def utf8_length_def)
  qed
  ultimately show ?thesis by linarith
qed

lemma utf8_concat: "utf8_length (concat (map json_escape s)) \<le> 6 * length s"
proof (induction s)
  case (Cons c s)
  with utf8_escape [of c] show ?case by simp
qed (simp add: utf8_length_def)

lemma reason_json_length: "utf8_length (reason_json r) \<le> 6 * utf8_length r + 13"
proof -
  have "utf8_length (''{'' @ json_quote ''reason'' @ '':'') = 10" "utf8_length [CHR 0x22] = 1" "utf8_length ''}'' = 1" by code_simp+
  moreover have "reason_json r = (''{'' @ json_quote ''reason'' @ '':'') @ [CHR 0x22] @ concat (map json_escape r) @ [CHR 0x22] @ ''}''"
    by (simp add: reason_json_def json_quote_def [of r])
  ultimately have "utf8_length (reason_json r) = 13 + utf8_length (concat (map json_escape r))" by (simp only: utf8_length_append)
  with utf8_concat [of r] utf8_length_ge [of r] show ?thesis by linarith
qed

text \<open>The loop of \<open>encodeReason\<close>: it drops 16 bytes at a time until the encoded reason fits.\<close>

function fit_reason :: "string \<Rightarrow> string" where
  "fit_reason reason =
     (if MAX_LIVE_REASON_BYTES < utf8_length (reason_json reason)
      then fit_reason (truncateUtf8 reason (utf8_length reason - 16)) else reason_json reason)"
  by pat_completeness auto
termination fit_reason
proof (relation "measure utf8_length")
  fix reason :: string
  assume "MAX_LIVE_REASON_BYTES < utf8_length (reason_json reason)"
  then have "16 < utf8_length reason" using reason_json_length [of reason] by (simp add: MAX_LIVE_REASON_BYTES_def)
  then show "(truncateUtf8 reason (utf8_length reason - 16), reason) \<in> measure utf8_length"
    using truncateUtf8_length [of reason "utf8_length reason - 16"] by auto
qed simp

declare fit_reason.simps [simp del]

definition encodeReason :: "string option \<Rightarrow> string \<Rightarrow> string" where
  "encodeReason value fallback =
     (let trimmed = (case value of None \<Rightarrow> [] | Some v \<Rightarrow> js_trim v);
          redacted = (case redactTelemetry 0 (JStr (if trimmed = [] then fallback else trimmed)) of JStr s \<Rightarrow> s | _ \<Rightarrow> [])
      in fit_reason (truncateUtf8 redacted (MAX_LIVE_REASON_BYTES - 32)))"

definition decodeReason :: "js_env \<Rightarrow> string option \<Rightarrow> 'c err + string option" where
  "decodeReason env v =
     (case v of
        None \<Rightarrow> Inr None
      | Some text \<Rightarrow> (case env_json_parse env text of
          None \<Rightarrow> Inl (Invalid ''reason_json'')
        | Some (JObj kvs) \<Rightarrow> Inr (case obj_get kvs ''reason'' of JStr s \<Rightarrow> Some s | _ \<Rightarrow> None)
        | Some _ \<Rightarrow> Inr None))"

section \<open>Reads\<close>

record live_command =
  lr_row :: live_row
  lr_payload :: js
  lr_fallback_reason :: "string option"
  lr_terminal_reason :: "string option"

definition commandFromLiveRow :: "js_env \<Rightarrow> live_row \<Rightarrow> 'c err + live_command" where
  "commandFromLiveRow env r =
     (case env_json_parse env (lv_json r) of
        None \<Rightarrow> Inl (Invalid ''payload_json'')
      | Some payload \<Rightarrow>
          bindE (decodeReason env (lv_fallback_json r)) (\<lambda>fallback.
          bindE (decodeReason env (lv_terminal_json r)) (\<lambda>terminal.
          Inr \<lparr>lr_row = r, lr_payload = payload, lr_fallback_reason = fallback, lr_terminal_reason = terminal\<rparr>)))"

definition getLiveRow :: "('m) live_db_scheme \<Rightarrow> string \<Rightarrow> live_row option" where
  "getLiveRow db commandId = find (\<lambda>r. lv_command_id r = commandId) (db_live db)"

definition getLiveRowByKey :: "('m) live_db_scheme \<Rightarrow> string \<Rightarrow> string \<Rightarrow> string \<Rightarrow> live_row option" where
  "getLiveRowByKey db runId actorId key =
     find (\<lambda>r. lv_run_id r = runId \<and> lv_actor_id r = actorId \<and> lv_idempotency_key r = key) (db_live db)"

definition getDagActorLiveCommand :: "js_env \<Rightarrow> string \<Rightarrow> ('m) live_db_scheme \<Rightarrow> live_conflict err + live_command option" where
  "getDagActorLiveCommand env rawId db =
     bindE (assertPrintable 256 rawId ''command_id'') (\<lambda>commandId. optE (commandFromLiveRow env) (getLiveRow db commandId))"

definition requireLiveCommand :: "js_env \<Rightarrow> ('m) live_db_scheme \<Rightarrow> string \<Rightarrow> live_conflict err + live_command" where
  "requireLiveCommand env db commandId =
     bindE (getDagActorLiveCommand env commandId db)
       (\<lambda>found. case found of None \<Rightarrow> Inl (Invalid ''unknown live command'') | Some c \<Rightarrow> Inr c)"

record list_live_input =
  ll_run_id :: string
  ll_actor_id :: "string option"
  ll_status :: "live_status option"
  ll_fallback_pending :: "bool option"
  ll_limit :: "jsnum option"

definition live_order :: "live_row \<Rightarrow> string \<times> int \<times> string" where
  "live_order r = (lv_actor_id r, lv_sequence r, lv_command_id r)"

definition listDagActorLiveCommands :: "js_env \<Rightarrow> list_live_input \<Rightarrow> ('m) live_db_scheme \<Rightarrow> live_conflict err + live_command list" where
  "listDagActorLiveCommands env input db =
     bindE (assertPrintable 256 (ll_run_id input) ''run_id'') (\<lambda>runId.
     bindE (optE (\<lambda>a. assertPrintable 256 a ''actor_id'') (ll_actor_id input)) (\<lambda>actorId.
     let requested = (case ll_limit input of None \<Rightarrow> num_of_int 100 | Some n \<Rightarrow> n)
     in throwIf (\<not> is_safe_integer requested \<or> num_int requested < 1) (Invalid ''limit'')
       (mapE (commandFromLiveRow env)
         (take (nat (min (num_int requested) 500)) (sort_key live_order
           (filter (\<lambda>r. lv_run_id r = runId \<and> opt_matches actorId (lv_actor_id r) \<and> opt_matches (ll_status input) (lv_status r)
                \<and> (case ll_fallback_pending input of None \<Rightarrow> True | Some b \<Rightarrow> b \<longleftrightarrow> lv_fallback_json r \<noteq> None)) (db_live db)))))))"

definition listOutstandingDagActorLiveCommands :: "js_env \<Rightarrow> string \<Rightarrow> ('m) live_db_scheme \<Rightarrow> live_conflict err + live_command list" where
  "listOutstandingDagActorLiveCommands env rawRun db =
     bindE (assertPrintable 256 rawRun ''run_id'') (\<lambda>runId.
     mapE (commandFromLiveRow env) (sort_key live_order (filter (\<lambda>r. lv_run_id r = runId \<and> live_outstanding r) (db_live db))))"

section \<open>Creation\<close>

record live_input =
  lc_run_id :: string
  lc_actor_id :: string
  lc_node_id :: string
  lc_session_id :: string
  lc_round_id :: string
  lc_target_generation :: jsnum
  lc_lease_generation :: jsnum
  lc_state_token :: string
  lc_idempotency_key :: string
  lc_payload :: js

record new_live =
  nl_command_id :: string
  nl_run_id :: string
  nl_actor_id :: string
  nl_node_id :: string
  nl_session_id :: string
  nl_round_id :: string
  nl_target_generation :: int
  nl_lease_generation :: int
  nl_state_token :: string
  nl_idempotency_key :: string
  nl_payload :: js
  nl_digest :: string
  nl_json :: string

definition stableCommandId :: "js_env \<Rightarrow> string \<Rightarrow> string \<Rightarrow> string \<Rightarrow> string" where
  "stableCommandId env runId actorId key = ''dag-live-'' @ env_sha256 env (runId @ [CHR 0x00] @ actorId @ [CHR 0x00] @ key)"

definition normalizeCreateInput :: "js_env \<Rightarrow> live_input \<Rightarrow> live_conflict err + new_live" where
  "normalizeCreateInput env input =
     bindE (assertPrintable 256 (lc_run_id input) ''run_id'') (\<lambda>runId.
     bindE (assertPrintable 256 (lc_actor_id input) ''actor_id'') (\<lambda>actorId.
     bindE (assertPrintable 256 (lc_idempotency_key input) ''idempotency_key'') (\<lambda>key.
     bindE (encodePayload env (lc_payload input)) (\<lambda>(json, digest).
     bindE (assertPrintable 256 (lc_node_id input) ''node_id'') (\<lambda>nodeId.
     bindE (assertPrintable 512 (lc_session_id input) ''session_id'') (\<lambda>sessionId.
     bindE (assertPrintable 256 (lc_round_id input) ''round_id'') (\<lambda>roundId.
     bindE (positiveSafeInteger (lc_target_generation input) ''target_generation'') (\<lambda>generation.
     bindE (assertTimestamp (lc_lease_generation input) ''target_lease_generation'') (\<lambda>leaseGeneration.
     bindE (assertStateToken (lc_state_token input)) (\<lambda>token.
     Inr \<lparr>nl_command_id = stableCommandId env runId actorId key, nl_run_id = runId, nl_actor_id = actorId, nl_node_id = nodeId,
          nl_session_id = sessionId, nl_round_id = roundId, nl_target_generation = generation, nl_lease_generation = leaseGeneration,
          nl_state_token = token, nl_idempotency_key = key, nl_payload = lc_payload input, nl_digest = digest, nl_json = json\<rparr>))))))))))"

definition sameIdempotentCommand :: "live_row \<Rightarrow> new_live \<Rightarrow> bool" where
  "sameIdempotentCommand row input \<longleftrightarrow>
     lv_run_id row = nl_run_id input
     \<and> lv_actor_id row = nl_actor_id input
     \<and> lv_node_id row = nl_node_id input
     \<and> lv_target_generation row = nl_target_generation input
     \<and> lv_state_token row = nl_state_token input
     \<and> lv_idempotency_key row = nl_idempotency_key input
     \<and> lv_digest row = nl_digest input
     \<and> lv_json row = nl_json input"

record live_result =
  lm_command :: live_command
  lm_changed :: bool
  lm_deduplicated :: bool

definition live_done :: "bool \<Rightarrow> live_command \<Rightarrow> live_result" where
  "live_done changed c = \<lparr>lm_command = c, lm_changed = changed, lm_deduplicated = \<not> changed\<rparr>"

definition liveSequence :: "('m) live_db_scheme \<Rightarrow> string \<Rightarrow> string \<Rightarrow> int" where
  "liveSequence db runId actorId =
     fold max (map lv_sequence (filter (\<lambda>r. lv_run_id r = runId \<and> lv_actor_id r = actorId) (db_live db))) 0 + 1"

definition newLiveRow :: "int \<Rightarrow> int \<Rightarrow> new_live \<Rightarrow> live_row" where
  "newLiveRow sequence now input =
     \<lparr>lv_command_id = nl_command_id input, lv_run_id = nl_run_id input, lv_actor_id = nl_actor_id input, lv_node_id = nl_node_id input,
      lv_session_id = nl_session_id input, lv_round_id = nl_round_id input, lv_target_generation = nl_target_generation input,
      lv_lease_generation = nl_lease_generation input, lv_state_token = nl_state_token input, lv_sequence = sequence,
      lv_status = Lv_queued, lv_idempotency_key = nl_idempotency_key input, lv_digest = nl_digest input, lv_json = nl_json input,
      lv_attempts = 0, lv_last_sent_at = None, lv_fallback_json = None, lv_delivered_at = None, lv_applied_at = None,
      lv_terminal_at = None, lv_terminal_json = None, lv_created_at = now, lv_updated_at = now\<rparr>"

definition outstanding_count :: "('m) live_db_scheme \<Rightarrow> string \<Rightarrow> nat" where
  "outstanding_count db runId = length (filter (\<lambda>r. lv_run_id r = runId \<and> live_outstanding r) (db_live db))"

text \<open>
  One round of the loop in \<open>createDagActorLiveCommandBatch\<close>. The caller's \<open>validate_new\<close> only reads the
  database and may refuse a command; a caller without one passes \<open>\<lambda>_ _. None\<close>.
\<close>

definition createLiveCommand :: "js_env \<Rightarrow> (('m) live_db_scheme \<Rightarrow> new_live \<Rightarrow> live_conflict err option) \<Rightarrow> int \<Rightarrow> new_live
    \<Rightarrow> ('m) live_db_scheme \<Rightarrow> live_conflict err + (('m) live_db_scheme \<times> live_result)" where
  "createLiveCommand env validate now input db =
     (let byKey = getLiveRowByKey db (nl_run_id input) (nl_actor_id input) (nl_idempotency_key input);
          byId = getLiveRow db (nl_command_id input)
      in case (case byKey of Some r \<Rightarrow> Some r | None \<Rightarrow> byId) of
           Some existing \<Rightarrow>
             throwIf (\<not> sameIdempotentCommand existing input
                 \<or> (case (byKey, byId) of (Some k, Some i) \<Rightarrow> lv_command_id k \<noteq> lv_command_id i | _ \<Rightarrow> False))
               (Conflict Live_identity_conflict)
               (bindE (commandFromLiveRow env existing) (\<lambda>c. Inr (db, live_done False c)))
         | None \<Rightarrow>
             throwIf (MAX_OUTSTANDING_PER_RUN \<le> outstanding_count db (nl_run_id input)) (Conflict Live_capacity_exceeded)
             (case validate db input of
                Some e \<Rightarrow> Inl e
              | None \<Rightarrow> (case getActorRow db (nl_run_id input) (nl_actor_id input) of
                  None \<Rightarrow> Inl (Invalid ''unknown actor'')
                | Some actor \<Rightarrow>
                    throwIf (ac_node_id actor \<noteq> nl_node_id input) (Conflict Live_identity_conflict)
                    (throwIf (ac_generation actor \<noteq> nl_target_generation input) (Conflict Live_generation_conflict)
                    (bindE (sql_insert live_ok
                        (newLiveRow (liveSequence db (nl_run_id input) (nl_actor_id input)) now input) (db_live db)) (\<lambda>rows.
                     let db' = db\<lparr>db_live := rows\<rparr>
                     in case getLiveRow db' (nl_command_id input) of
                          None \<Rightarrow> Inl (Invalid ''live command'')
                        | Some r \<Rightarrow> bindE (commandFromLiveRow env r) (\<lambda>c. Inr (db', live_done True c))))))))"

text \<open>\<open>clock\<close> gives the reading for each new command.\<close>

fun createLiveCommands :: "js_env \<Rightarrow> (('m) live_db_scheme \<Rightarrow> new_live \<Rightarrow> live_conflict err option) \<Rightarrow> (new_live \<Rightarrow> int) \<Rightarrow> new_live list
    \<Rightarrow> ('m) live_db_scheme \<Rightarrow> live_conflict err + (('m) live_db_scheme \<times> live_result list)" where
  "createLiveCommands env validate clock [] db = Inr (db, [])"
| "createLiveCommands env validate clock (input # inputs) db =
     bindE (createLiveCommand env validate (clock input) input db) (\<lambda>(db1, result).
     bindE (createLiveCommands env validate clock inputs db1) (\<lambda>(db2, results). Inr (db2, result # results)))"

definition createDagActorLiveCommandBatch :: "js_env \<Rightarrow> (('m) live_db_scheme \<Rightarrow> new_live \<Rightarrow> live_conflict err option) \<Rightarrow> (new_live \<Rightarrow> int)
    \<Rightarrow> live_input list \<Rightarrow> ('m) live_db_scheme \<Rightarrow> live_conflict err + (('m) live_db_scheme \<times> live_result list)" where
  "createDagActorLiveCommandBatch env validate clock rawInputs db =
     throwIf (length rawInputs < 1 \<or> 128 < length rawInputs) (Invalid ''live command batch'')
     (bindE (mapE (normalizeCreateInput env) rawInputs) (\<lambda>inputs.
      throwIf (\<not> distinct (map (\<lambda>i. nl_run_id i @ [CHR 0x00] @ nl_actor_id i) inputs)) (Invalid ''live command batch'')
        (createLiveCommands env validate clock inputs db)))"

section \<open>Progress\<close>

text \<open>The end of an update: exactly one row has changed, and it is read again.\<close>

definition live_updated :: "js_env \<Rightarrow> string \<Rightarrow> (live_row \<Rightarrow> bool) \<Rightarrow> (live_row \<Rightarrow> live_row) \<Rightarrow> ('m) live_db_scheme
    \<Rightarrow> live_conflict err + (('m) live_db_scheme \<times> live_result)" where
  "live_updated env commandId P f db =
     bindE (sql_update live_ok (\<lambda>r. lv_command_id r = commandId \<and> P r) f (db_live db)) (\<lambda>(rows, changes).
     throwIf (changes \<noteq> 1) (Conflict Live_status_conflict)
       (let db' = db\<lparr>db_live := rows\<rparr>
        in bindE (requireLiveCommand env db' commandId) (\<lambda>c. Inr (db', live_done True c))))"

record send_attempt_input =
  sa_command_id :: string
  sa_session_id :: string
  sa_round_id :: string
  sa_lease_generation :: jsnum
  sa_sent_at :: "jsnum option"

definition recordDagActorLiveCommandSendAttempt :: "js_env \<Rightarrow> int \<Rightarrow> send_attempt_input \<Rightarrow> ('m) live_db_scheme
    \<Rightarrow> live_conflict err + (('m) live_db_scheme \<times> live_result)" where
  "recordDagActorLiveCommandSendAttempt env clock input db =
     bindE (assertPrintable 256 (sa_command_id input) ''command_id'') (\<lambda>commandId.
     bindE (assertPrintable 512 (sa_session_id input) ''session_id'') (\<lambda>sessionId.
     bindE (assertPrintable 256 (sa_round_id input) ''round_id'') (\<lambda>roundId.
     bindE (positiveSafeInteger (sa_lease_generation input) ''lease_generation'') (\<lambda>leaseGeneration.
     bindE (assertTimestamp (or_clock (sa_sent_at input) clock) ''sent_at'') (\<lambda>sentAt.
     bindE (requireLiveCommand env db commandId) (\<lambda>current.
     if lv_status (lr_row current) \<noteq> Lv_queued then Inr (db, live_done False current)
     else throwIf (sentAt < lv_created_at (lr_row current)) (Invalid ''sent_at'')
       (live_updated env commandId (\<lambda>r. lv_status r = Lv_queued)
          (\<lambda>r. r\<lparr>lv_session_id := sessionId, lv_round_id := roundId, lv_lease_generation := leaseGeneration,
                 lv_attempts := lv_attempts r + 1, lv_last_sent_at := Some sentAt, lv_fallback_json := None,
                 lv_updated_at := sentAt\<rparr>) db)))))))"

definition markDagActorLiveCommandFallback :: "js_env \<Rightarrow> int \<Rightarrow> string \<Rightarrow> string \<Rightarrow> ('m) live_db_scheme
    \<Rightarrow> live_conflict err + (('m) live_db_scheme \<times> live_result)" where
  "markDagActorLiveCommandFallback env clock rawId reason db =
     bindE (assertPrintable 256 rawId ''command_id'') (\<lambda>commandId.
     let reasonJson = encodeReason (Some reason) ''live delivery unavailable''
     in bindE (requireLiveCommand env db commandId) (\<lambda>current.
        throwIf (lv_status (lr_row current) \<noteq> Lv_queued) (Conflict Live_status_conflict)
        (bindE (decodeReason env (Some reasonJson)) (\<lambda>decoded.
         if lr_fallback_reason current = decoded then Inr (db, live_done False current)
         else live_updated env commandId (\<lambda>r. lv_status r = Lv_queued)
           (\<lambda>r. r\<lparr>lv_fallback_json := Some reasonJson, lv_updated_at := clock\<rparr>) db))))"

record transition_live_input =
  tl_command_id :: string
  tl_status :: live_status
  tl_reason :: "string option"
  tl_transitioned_at :: "jsnum option"

fun live_rank :: "live_status \<Rightarrow> nat" where
  "live_rank Lv_queued = 0"
| "live_rank Lv_delivered = 1"
| "live_rank Lv_applied = 2"
| "live_rank _ = 3"

fun status_text :: "live_status \<Rightarrow> string" where
  "status_text Lv_queued = ''queued''"
| "status_text Lv_delivered = ''delivered''"
| "status_text Lv_applied = ''applied''"
| "status_text Lv_completed = ''completed''"
| "status_text Lv_rejected = ''rejected''"
| "status_text Lv_failed = ''failed''"
| "status_text Lv_superseded = ''superseded''"
| "status_text Lv_cancelled = ''cancelled''"

definition needs_reason :: "live_status \<Rightarrow> bool" where
  "needs_reason s \<longleftrightarrow> s = Lv_rejected \<or> s = Lv_failed \<or> s = Lv_superseded \<or> s = Lv_cancelled"

definition coalesce :: "'a option \<Rightarrow> 'a \<Rightarrow> 'a option" where
  "coalesce v d = (case v of None \<Rightarrow> Some d | Some x \<Rightarrow> Some x)"

definition transitioned :: "live_status \<Rightarrow> string option \<Rightarrow> int \<Rightarrow> live_row \<Rightarrow> live_row" where
  "transitioned s reasonJson now r =
     r\<lparr>lv_status := s,
       lv_delivered_at := (if s = Lv_delivered \<or> s = Lv_applied \<or> s = Lv_completed then coalesce (lv_delivered_at r) now else lv_delivered_at r),
       lv_applied_at := (if s = Lv_applied \<or> s = Lv_completed then coalesce (lv_applied_at r) now else lv_applied_at r),
       lv_terminal_at := (if live_terminal s then Some now else None),
       lv_fallback_json := None, lv_terminal_json := reasonJson, lv_updated_at := now\<rparr>"

definition transitionDagActorLiveCommand :: "js_env \<Rightarrow> int \<Rightarrow> transition_live_input \<Rightarrow> ('m) live_db_scheme
    \<Rightarrow> live_conflict err + (('m) live_db_scheme \<times> live_result)" where
  "transitionDagActorLiveCommand env clock input db =
     bindE (assertPrintable 256 (tl_command_id input) ''command_id'') (\<lambda>commandId.
     bindE (assertTimestamp (or_clock (tl_transitioned_at input) clock) ''transitioned_at'') (\<lambda>transitionedAt.
     bindE (requireLiveCommand env db commandId) (\<lambda>current.
     let from = lv_status (lr_row current); to = tl_status input
     in if from = to then Inr (db, live_done False current)
        else throwIf (live_terminal from) (Conflict Live_status_conflict)
         (throwIf (transitionedAt < lv_created_at (lr_row current)) (Invalid ''transitioned_at'')
         (if (to = Lv_delivered \<or> to = Lv_applied \<or> to = Lv_completed) \<and> live_rank to < live_rank from
          then Inr (db, live_done False current)
          else live_updated env commandId live_outstanding
            (transitioned to (if needs_reason to then Some (encodeReason (tl_reason input) (''live command '' @ status_text to)) else None)
               transitionedAt) db)))))"

record terminate_input =
  ti_run_id :: string
  ti_actor_id :: "string option"
  ti_superseded :: bool
  ti_reason :: string
  ti_transitioned_at :: "jsnum option"

definition termination_status :: "terminate_input \<Rightarrow> live_status" where
  "termination_status input = (if ti_superseded input then Lv_superseded else Lv_cancelled)"

definition to_terminate :: "string \<Rightarrow> string option \<Rightarrow> live_row \<Rightarrow> bool" where
  "to_terminate runId actorId r \<longleftrightarrow> lv_run_id r = runId \<and> opt_matches actorId (lv_actor_id r) \<and> live_outstanding r"

definition terminated_row :: "live_status \<Rightarrow> string \<Rightarrow> int \<Rightarrow> live_row \<Rightarrow> live_row" where
  "terminated_row s reasonJson now r =
     r\<lparr>lv_status := s, lv_terminal_at := Some now, lv_fallback_json := None, lv_terminal_json := Some reasonJson, lv_updated_at := now\<rparr>"

definition terminateDagActorLiveCommands :: "js_env \<Rightarrow> int \<Rightarrow> terminate_input \<Rightarrow> ('m) live_db_scheme
    \<Rightarrow> live_conflict err + (('m) live_db_scheme \<times> live_command list)" where
  "terminateDagActorLiveCommands env clock input db =
     bindE (assertPrintable 256 (ti_run_id input) ''run_id'') (\<lambda>runId.
     bindE (optE (\<lambda>a. assertPrintable 256 a ''actor_id'') (ti_actor_id input)) (\<lambda>actorId.
     bindE (assertTimestamp (or_clock (ti_transitioned_at input) clock) ''transitioned_at'') (\<lambda>transitionedAt.
     let reasonJson = encodeReason (Some (ti_reason input)) (''live command '' @ status_text (termination_status input));
         rows = sort_key (\<lambda>r. (lv_actor_id r, lv_sequence r)) (filter (to_terminate runId actorId) (db_live db))
     in if rows = [] then Inr (db, [])
        else throwIf (list_ex (\<lambda>r. transitionedAt < lv_created_at r) rows) (Invalid ''transitioned_at'')
         (bindE (sql_update live_ok (to_terminate runId actorId) (terminated_row (termination_status input) reasonJson transitionedAt) (db_live db))
          (\<lambda>(rows', changes).
          throwIf (changes \<noteq> length rows) (Conflict Live_status_conflict)
            (let db' = db\<lparr>db_live := rows'\<rparr>
             in bindE (mapE (\<lambda>r. requireLiveCommand env db' (lv_command_id r)) rows) (\<lambda>cs. Inr (db', cs))))))))"

end
