(* ===== verification/Live_Commands_Theorems.thy ===== *)
theory Live_Commands_Theorems
  imports Live_Commands Actor_Leases_Theorems Interventions_Theorems
begin

text \<open>
  A live command keeps its identity and only moves forward, a run has at most 500 that have not ended, the
  commands of an actor are numbered without gaps, and creating a command again finds the first one.
\<close>

section \<open>Reasons\<close>

lemma utf8_take_prefix: "\<exists>k. utf8_take n s = take k s"
proof (induction n s rule: utf8_take.induct)
  case (2 n c cs)
  show ?case
  proof (cases "n < (if of_char c < (128 :: nat) then 1 else 2)")
    case True
    then have "utf8_take n (c # cs) = take 0 (c # cs)" by (simp add: Let_def)
    then show ?thesis by blast
  next
    case False
    with 2 [OF refl] obtain k where "utf8_take (n - (if of_char c < (128 :: nat) then 1 else 2)) cs = take k cs" by auto
    with False have "utf8_take n (c # cs) = take (Suc k) (c # cs)" by (simp add: Let_def)
    then show ?thesis by blast
  qed
qed simp

lemma utf8_take_append: "n \<le> utf8_length s \<Longrightarrow> utf8_take n (s @ t) = utf8_take n s"
proof (induction n s rule: utf8_take.induct)
  case (1 n)
  then show ?case by (cases t) (simp_all add: utf8_length_def)
next
  case (2 n c cs)
  show ?case
  proof (cases "n < (if of_char c < (128 :: nat) then 1 else 2)")
    case True
    then show ?thesis by (simp add: Let_def)
  next
    case False
    with 2 show ?thesis by (simp add: Let_def utf8_length_def)
  qed
qed

definition shortened :: "string \<Rightarrow> string \<Rightarrow> bool" where
  "shortened s r \<longleftrightarrow> r = s \<or> (\<exists>k. r = take k s @ ''...'')"

lemma shortened_truncate:
  assumes "shortened s r" and "m + 3 \<le> utf8_length r"
  shows "shortened s (truncateUtf8 r m)"
proof -
  have "\<exists>k q. r = take k s @ q \<and> (q = [] \<or> q = ''...'')"
    using assms(1) by (force simp: shortened_def intro: exI [of _ "length s"])
  then obtain k q where r: "r = take k s @ q" and q: "q = [] \<or> q = ''...''" by blast
  have "utf8_length ''...'' = 3" "utf8_length [] = 0" by code_simp+
  with q have "utf8_length q \<le> 3" by auto
  then have "utf8_take (m - 3) r = utf8_take (m - 3) (take k s)"
    using assms(2) unfolding r by (intro utf8_take_append) simp
  with utf8_take_prefix [of "m - 3" "take k s"] assms(2) show ?thesis
    by (auto simp: truncateUtf8_def shortened_def)
qed

lemma fit_reason_spec: "shortened s r \<Longrightarrow> \<exists>q. fit_reason r = reason_json q \<and> shortened s q \<and> utf8_length (fit_reason r) \<le> MAX_LIVE_REASON_BYTES"
proof (induction r rule: fit_reason.induct)
  case (1 r)
  show ?case
  proof (cases "MAX_LIVE_REASON_BYTES < utf8_length (reason_json r)")
    case True
    then have "16 < utf8_length r" using reason_json_length [of r] by (simp add: MAX_LIVE_REASON_BYTES_def)
    with 1 True shortened_truncate [OF 1(2), of "utf8_length r - 16"] show ?thesis by (subst (1 2) fit_reason.simps) simp
  next
    case False
    with 1(2) show ?thesis by (subst (1 2) fit_reason.simps) auto
  qed
qed

definition reason_text :: "string option \<Rightarrow> string \<Rightarrow> string" where
  "reason_text v d = (case v of None \<Rightarrow> d | Some s \<Rightarrow> if js_trim s = [] then d else js_trim s)"

lemma encodeReason_spec:
  "\<exists>q. encodeReason v d = reason_json q \<and> shortened (redactText (reason_text v d)) q \<and> utf8_length (encodeReason v d) \<le> MAX_LIVE_REASON_BYTES"
proof -
  let ?m = "MAX_LIVE_REASON_BYTES - 32"
  have "shortened (redactText (reason_text v d)) (truncateUtf8 (redactText (reason_text v d)) ?m)"
    using utf8_take_prefix [of "?m - 3" "redactText (reason_text v d)"] by (auto simp: truncateUtf8_def shortened_def)
  moreover have "encodeReason v d = fit_reason (truncateUtf8 (redactText (reason_text v d)) ?m)"
    by (simp add: encodeReason_def Let_def redactTelemetry_shape reason_text_def split: option.split)
  ultimately show ?thesis using fit_reason_spec by metis
qed

definition reason_doc :: "string option \<Rightarrow> bool" where
  "reason_doc v \<longleftrightarrow> (\<forall>s. v = Some s \<longrightarrow> (\<exists>r. s = reason_json r))"

lemma reason_doc_simps [simp]: "reason_doc None" "reason_doc (Some (encodeReason v d))"
  using encodeReason_spec [of v d] by (auto simp: reason_doc_def)

section \<open>How a command evolves\<close>

definition live_same :: "live_row \<Rightarrow> live_row \<Rightarrow> bool" where
  "live_same r x \<longleftrightarrow> lv_command_id x = lv_command_id r \<and> lv_run_id x = lv_run_id r \<and> lv_actor_id x = lv_actor_id r
     \<and> lv_node_id x = lv_node_id r \<and> lv_target_generation x = lv_target_generation r \<and> lv_state_token x = lv_state_token r
     \<and> lv_sequence x = lv_sequence r \<and> lv_idempotency_key x = lv_idempotency_key r \<and> lv_digest x = lv_digest r
     \<and> lv_json x = lv_json r \<and> lv_created_at x = lv_created_at r"

definition live_forward :: "live_row \<Rightarrow> live_row \<Rightarrow> bool" where
  "live_forward r x \<longleftrightarrow> live_same r x \<and> \<not> live_terminal (lv_status r)
     \<and> (lv_status x = lv_status r \<or> live_rank (lv_status r) < live_rank (lv_status x))
     \<and> (lv_delivered_at r \<noteq> None \<longrightarrow> lv_delivered_at x = lv_delivered_at r)
     \<and> (lv_applied_at r \<noteq> None \<longrightarrow> lv_applied_at x = lv_applied_at r) \<and> lv_attempts r \<le> lv_attempts x"

definition live_evolves :: "live_row \<Rightarrow> live_row \<Rightarrow> bool" where
  "live_evolves r x \<longleftrightarrow> x = r \<or> live_forward r x"

lemma live_evolves_refl [simp]: "live_evolves r r"
  by (simp add: live_evolves_def)

lemma live_evolves_trans: "live_evolves r x \<Longrightarrow> live_evolves x y \<Longrightarrow> live_evolves r y"
proof -
  assume rx: "live_evolves r x" and xy: "live_evolves x y"
  show ?thesis
  proof (cases "x = r \<or> y = x")
    case True
    with rx xy show ?thesis by auto
  next
    case False
    with rx xy have f: "live_forward r x" "live_forward x y" by (simp_all add: live_evolves_def)
    then have "live_same r y" by (simp add: live_forward_def live_same_def)
    with f show ?thesis by (auto simp: live_evolves_def live_forward_def)
  qed
qed

lemma live_evolves_same: "live_evolves r x \<Longrightarrow> live_same r x"
  by (auto simp: live_evolves_def live_forward_def live_same_def)

lemma live_rank_terminal: "live_terminal s \<longleftrightarrow> \<not> live_rank s < 3"
  by (cases s) (simp_all add: live_terminal_def)

lemma live_outstanding_rank: "live_outstanding r \<longleftrightarrow> \<not> live_terminal (lv_status r)"
  by (cases "lv_status r") (simp_all add: live_outstanding_def live_terminal_def)

section \<open>The invariant\<close>

definition commands_of :: "('m) live_db_scheme \<Rightarrow> string \<Rightarrow> string \<Rightarrow> live_row list" where
  "commands_of db run actor = filter (\<lambda>r. lv_run_id r = run \<and> lv_actor_id r = actor) (db_live db)"

definition live_readable :: "js_env \<Rightarrow> live_row \<Rightarrow> bool" where
  "live_readable env r \<longleftrightarrow> env_json_parse env (lv_json r) \<noteq> None \<and> reason_doc (lv_fallback_json r) \<and> reason_doc (lv_terminal_json r)
     \<and> lv_command_id r = stableCommandId env (lv_run_id r) (lv_actor_id r) (lv_idempotency_key r)"

definition live_owned :: "('m) live_db_scheme \<Rightarrow> live_row \<Rightarrow> bool" where
  "live_owned db r \<longleftrightarrow> (\<exists>a. getActorRow db (lv_run_id r) (lv_actor_id r) = Some a \<and> ac_node_id a = lv_node_id r
     \<and> lv_target_generation r \<le> ac_generation a)"

definition live_numbered :: "('m) live_db_scheme \<Rightarrow> bool" where
  "live_numbered db \<longleftrightarrow> (\<forall>run actor. map lv_sequence (commands_of db run actor) = map int [1..<Suc (length (commands_of db run actor))])"

definition live_inv :: "js_env \<Rightarrow> ('m) live_db_scheme \<Rightarrow> bool" where
  "live_inv env db \<longleftrightarrow> lease_store_inv env db \<and> live_ok (db_live db) \<and> (\<forall>r \<in> set (db_live db). live_readable env r \<and> live_owned db r)
     \<and> (\<forall>run. outstanding_count db run \<le> MAX_OUTSTANDING_PER_RUN) \<and> live_numbered db"

definition live_init :: "('m) live_db_scheme \<Rightarrow> bool" where
  "live_init db \<longleftrightarrow> lease_init db \<and> db_live db = []"

inductive live_step :: "js_env \<Rightarrow> (string \<Rightarrow> string option) \<Rightarrow> ('m) live_db_scheme \<Rightarrow> ('m) live_db_scheme \<Rightarrow> bool" for env penv where
  lv_lease: "lease_step env penv db db' \<Longrightarrow> live_step env penv db db'"
| lv_batch: "createDagActorLiveCommandBatch env validate clock is db = Inr (db', rs) \<Longrightarrow> live_step env penv db db'"
| lv_send: "recordDagActorLiveCommandSendAttempt env now s db = Inr (db', r) \<Longrightarrow> live_step env penv db db'"
| lv_fallback: "markDagActorLiveCommandFallback env now k reason db = Inr (db', r) \<Longrightarrow> live_step env penv db db'"
| lv_transition: "transitionDagActorLiveCommand env now t db = Inr (db', r) \<Longrightarrow> live_step env penv db db'"
| lv_terminate: "terminateDagActorLiveCommands env now u db = Inr (db', cs) \<Longrightarrow> live_step env penv db db'"

lemma lease_steps_live: "(lease_step env penv)\<^sup>*\<^sup>* db db' \<Longrightarrow> (live_step env penv)\<^sup>*\<^sup>* db db'"
  by (induction rule: rtranclp_induct) (auto intro: rtranclp.rtrancl_into_rtrancl lv_lease)

section \<open>Effects\<close>

text \<open>A step is a sequence of these: of the store of actors and leases, of one insertion, or of one update.\<close>

inductive live_effect :: "js_env \<Rightarrow> ('m) live_db_scheme \<Rightarrow> ('m) live_db_scheme \<Rightarrow> bool" for env db where
  lf_lease: "lease_effect env db db' \<Longrightarrow> live_effect env db db'"
| lf_new: "live_ok (db_live db @ [x]) \<Longrightarrow> live_readable env x \<Longrightarrow> live_owned db x \<Longrightarrow> lv_status x = Lv_queued
    \<Longrightarrow> lv_sequence x = liveSequence db (lv_run_id x) (lv_actor_id x)
    \<Longrightarrow> outstanding_count db (lv_run_id x) < MAX_OUTSTANDING_PER_RUN \<Longrightarrow> live_effect env db (db\<lparr>db_live := db_live db @ [x]\<rparr>)"
| lf_moved: "(\<And>r. r \<in> set (db_live db) \<Longrightarrow> P r \<Longrightarrow> live_forward r (f r) \<and> reason_doc (lv_fallback_json (f r)) \<and> reason_doc (lv_terminal_json (f r)))
    \<Longrightarrow> live_ok (rewritten P f (db_live db)) \<Longrightarrow> live_effect env db (db\<lparr>db_live := rewritten P f (db_live db)\<rparr>)"

lemma lease_effect_live: "lease_effect env db db' \<Longrightarrow> db_live db' = db_live db"
proof (induction rule: lease_effect.induct)
  case (le_actor db db')
  then show ?case by (induction rule: db_effect.induct) (auto simp: actor_write_def command_write_def)
qed (auto simp: lease_wrote_def lease_set_def)

lemma live_effect_same: "live_effect env db db"
  by (rule lf_lease) (rule le_same)

lemma getLiveRow_key: "getLiveRow db k = Some r \<Longrightarrow> lv_command_id r = k \<and> r \<in> set (db_live db)"
  unfolding getLiveRow_def by (drule find_SomeD) simp

lemma live_row_unique: "live_ok rows \<Longrightarrow> r \<in> set rows \<Longrightarrow> s \<in> set rows \<Longrightarrow> lv_command_id r = lv_command_id s \<Longrightarrow> r = s"
  unfolding live_ok_def using unique_on_eq [of "\<lambda>_. True" lv_command_id rows r s] by blast

lemma getLiveRow_mem:
  assumes "live_ok (db_live db)" and "r \<in> set (db_live db)"
  shows "getLiveRow db (lv_command_id r) = Some r"
proof (cases "getLiveRow db (lv_command_id r)")
  case None
  with find_NoneD [of _ "db_live db" r] assms(2) show ?thesis by (auto simp: getLiveRow_def)
next
  case (Some s)
  with getLiveRow_key [OF Some] live_row_unique [OF assms(1), of s r] assms(2) show ?thesis by simp
qed

lemma getLiveRowByKey_mem:
  assumes "live_ok (db_live db)" and "r \<in> set (db_live db)"
  shows "getLiveRowByKey db (lv_run_id r) (lv_actor_id r) (lv_idempotency_key r) = Some r"
proof (cases "getLiveRowByKey db (lv_run_id r) (lv_actor_id r) (lv_idempotency_key r)")
  case None
  with find_NoneD [of _ "db_live db" r] assms(2) show ?thesis by (auto simp: getLiveRowByKey_def)
next
  case (Some s)
  then have "s \<in> set (db_live db)" "live_key s = live_key r"
    unfolding getLiveRowByKey_def by (auto dest!: find_SomeD simp: live_key_def)
  with assms Some show ?thesis using unique_on_eq [of "\<lambda>_. True" live_key "db_live db" s r] by (auto simp: live_ok_def)
qed

lemma requireLive_Inr: "requireLiveCommand env db k = Inr c \<Longrightarrow> getLiveRow db (js_trim k) = Some (lr_row c)"
  by (auto simp: requireLiveCommand_def getDagActorLiveCommand_def bind_inv commandFromLiveRow_def split: option.splits)

lemma if_Inr: "(if c then m else m') = Inr x \<longleftrightarrow> (c \<and> m = Inr x) \<or> (\<not> c \<and> m' = Inr x)"
  by simp

lemma live_check_row: "live_ok rows \<Longrightarrow> r \<in> set rows \<Longrightarrow> live_check r"
  by (simp add: live_ok_def list_all_iff)

text \<open>An update of the one row that was read before.\<close>

lemma live_updated_effect:
  assumes ok: "live_ok (db_live db)" and cur: "getLiveRow db k = Some r" and upd: "live_updated env k P f db = Inr (db', res)"
    and f: "P r \<Longrightarrow> live_check (f r) \<Longrightarrow> live_forward r (f r) \<and> reason_doc (lv_fallback_json (f r)) \<and> reason_doc (lv_terminal_json (f r))"
  shows "live_effect env db db'"
proof -
  let ?P = "\<lambda>r. lv_command_id r = k \<and> P r"
  from upd have db': "db' = db\<lparr>db_live := rewritten ?P f (db_live db)\<rparr>" and ok': "live_ok (rewritten ?P f (db_live db))"
    by (auto simp: live_updated_def bind_inv Let_def)
  have "s = r" if "s \<in> set (db_live db)" "lv_command_id s = k" for s
    using live_row_unique [OF ok that(1), of r] that(2) getLiveRow_key [OF cur] by simp
  moreover have "live_check (f r)" if "P r"
    by (rule live_check_row [OF ok']) (use that getLiveRow_key [OF cur] in \<open>auto simp: rewritten_def intro!: rev_image_eqI [of r]\<close>)
  ultimately show ?thesis unfolding db' using f ok' by (intro lf_moved) auto
qed

lemma send_effect:
  assumes "live_ok (db_live db)" and "\<forall>r \<in> set (db_live db). live_readable env r" and "recordDagActorLiveCommandSendAttempt env now s db = Inr (db', r)"
  shows "live_effect env db db'"
  using assms(3) unfolding recordDagActorLiveCommandSendAttempt_def
  apply (simp only: bindE_Inr assertPrintable_Inr)
  apply (elim exE conjE)
  apply (drule requireLive_Inr)
  apply (simp split: if_splits add: live_effect_same throwIf_Inr)
  apply (erule conjE)
  apply (frule getLiveRow_key)
  apply (erule live_updated_effect [OF assms(1), rotated])
   using assms(2) apply (auto simp: live_forward_def live_same_def live_terminal_def live_readable_def)
  done

lemma fallback_effect:
  assumes "live_ok (db_live db)" and "\<forall>r \<in> set (db_live db). live_readable env r" and "markDagActorLiveCommandFallback env now k reason db = Inr (db', r)"
  shows "live_effect env db db'"
  using assms(3) unfolding markDagActorLiveCommandFallback_def Let_def
  apply (simp only: bindE_Inr assertPrintable_Inr throwIf_Inr)
  apply (elim exE conjE)
  apply (drule requireLive_Inr)
  apply (simp split: if_splits add: live_effect_same)
  apply (frule getLiveRow_key)
  apply (erule live_updated_effect [OF assms(1), rotated])
   using assms(2) apply (auto simp: live_forward_def live_same_def live_terminal_def live_readable_def)
  done

lemma transitioned_forward:
  assumes "live_check r" and "live_check (transitioned to doc now r)" and "lv_status r \<noteq> to" and "\<not> live_terminal (lv_status r)"
    and "\<not> ((to = Lv_delivered \<or> to = Lv_applied \<or> to = Lv_completed) \<and> live_rank to < live_rank (lv_status r))"
  shows "live_forward r (transitioned to doc now r)"
proof -
  have "live_rank (lv_status r) < live_rank to"
    using assms by (cases "lv_status r"; cases to) (simp_all add: live_terminal_def live_check_def transitioned_def)
  then show ?thesis using assms(4)
    by (simp add: live_forward_def live_same_def transitioned_def coalesce_def split: option.splits)
qed

lemma transition_live_effect:
  assumes ok: "live_ok (db_live db)" and "transitionDagActorLiveCommand env now t db = Inr (db', r)"
  shows "live_effect env db db'"
  using assms(2) unfolding transitionDagActorLiveCommand_def Let_def
  apply (simp only: bindE_Inr assertPrintable_Inr)
  apply (elim exE conjE)
  apply (drule requireLive_Inr)
  apply (simp only: if_Inr throwIf_Inr sum.inject prod.inject)
  apply (elim disjE conjE)
    apply (simp_all add: live_effect_same)
  apply (frule getLiveRow_key)
  apply (erule live_updated_effect [OF ok, rotated])
   apply (intro conjI transitioned_forward)
        apply (auto intro: live_check_row [OF ok] simp: transitioned_def)
  done

lemma terminate_effect:
  assumes ok: "live_ok (db_live db)" and "terminateDagActorLiveCommands env now u db = Inr (db', cs)"
  shows "live_effect env db db'"
  using assms(2) unfolding terminateDagActorLiveCommands_def Let_def
  apply (simp only: bindE_Inr assertPrintable_Inr if_Inr throwIf_Inr sum.inject prod.inject)
  apply (elim exE disjE conjE)
   apply (simp add: live_effect_same)
  apply (clarsimp simp: sql_update_Inr bindE_Inr)
  apply (rule lf_moved)
   apply (auto simp: to_terminate_def terminated_row_def live_forward_def live_same_def live_outstanding_rank live_rank_terminal
      termination_status_def)
  done

lemma create_live_effect:
  assumes ok: "live_ok (db_live db)" and id: "nl_command_id i = stableCommandId env (nl_run_id i) (nl_actor_id i) (nl_idempotency_key i)"
    and "createLiveCommand env validate now i db = Inr (db', r)"
  shows "live_effect env db db'"
proof (cases "case getLiveRowByKey db (nl_run_id i) (nl_actor_id i) (nl_idempotency_key i) of Some r \<Rightarrow> Some r | None \<Rightarrow> getLiveRow db (nl_command_id i)")
  case (Some x)
  with assms(3) have "db' = db" by (auto simp: createLiveCommand_def Let_def bind_inv)
  then show ?thesis by (simp add: live_effect_same)
next
  case None
  let ?x = "newLiveRow (liveSequence db (nl_run_id i) (nl_actor_id i)) now i"
  from None assms(3) obtain a where a: "getActorRow db (nl_run_id i) (nl_actor_id i) = Some a" "ac_node_id a = nl_node_id i"
      "ac_generation a = nl_target_generation i"
    and ok': "live_ok (db_live db @ [?x])" and db': "db' = db\<lparr>db_live := db_live db @ [?x]\<rparr>"
    and few: "outstanding_count db (nl_run_id i) < MAX_OUTSTANDING_PER_RUN"
    and read: "\<exists>x c. getLiveRow db' (nl_command_id i) = Some x \<and> commandFromLiveRow env x = (Inr c :: live_conflict err + _)"
    by (auto simp: createLiveCommand_def Let_def bind_inv not_le split: option.splits)
  from getLiveRow_mem [of db' ?x] ok' db' have "getLiveRow db' (nl_command_id i) = Some ?x" by (simp add: newLiveRow_def)
  with read have "env_json_parse env (lv_json ?x) \<noteq> None" by (auto simp: commandFromLiveRow_def split: option.splits)
  then have "live_readable env ?x" using id by (simp add: live_readable_def newLiveRow_def)
  moreover have "live_owned db ?x" using a by (simp add: live_owned_def newLiveRow_def)
  ultimately show ?thesis using ok' few unfolding db' by (intro lf_new) (simp_all add: newLiveRow_def)
qed

section \<open>A batch\<close>

lemma normalize_id: "normalizeCreateInput env i = Inr n \<Longrightarrow> nl_command_id n = stableCommandId env (nl_run_id n) (nl_actor_id n) (nl_idempotency_key n)"
  by (auto simp: normalizeCreateInput_def bindE_Inr)

lemma live_effect_ok: "live_effect env db db' \<Longrightarrow> live_ok (db_live db) \<Longrightarrow> live_ok (db_live db')"
  by (erule live_effect.cases) (auto simp: lease_effect_live)

lemma live_effects_ok: "(live_effect env)\<^sup>*\<^sup>* db db' \<Longrightarrow> live_ok (db_live db) \<Longrightarrow> live_ok (db_live db')"
  by (induction rule: rtranclp_induct) (auto intro: live_effect_ok)

lemma creates_effect:
  assumes "createLiveCommands env validate clock is db = Inr (db', rs)" and "live_ok (db_live db)"
    and "\<forall>n \<in> set is. nl_command_id n = stableCommandId env (nl_run_id n) (nl_actor_id n) (nl_idempotency_key n)"
  shows "(live_effect env)\<^sup>*\<^sup>* db db'"
  using assms
proof (induction "is" arbitrary: db rs)
  case (Cons i "is")
  then obtain db1 r1 rs1 where 1: "createLiveCommand env validate (clock i) i db = Inr (db1, r1)"
    and 2: "createLiveCommands env validate clock is db1 = Inr (db', rs1)" by (auto simp: bindE_Inr)
  from create_live_effect [OF Cons.prems(2) _ 1] Cons.prems(3) have e: "live_effect env db db1" by simp
  with Cons.IH [OF 2 live_effect_ok [OF e Cons.prems(2)]] Cons.prems(3) show ?case by (auto intro: converse_rtranclp_into_rtranclp)
qed simp

lemma batch_effect:
  assumes "createDagActorLiveCommandBatch env validate clock inputs db = Inr (db', rs)" and "live_ok (db_live db)"
  shows "\<exists>is. mapE (normalizeCreateInput env) inputs = Inr is \<and> createLiveCommands env validate clock is db = Inr (db', rs)
    \<and> (\<forall>n \<in> set is. nl_command_id n = stableCommandId env (nl_run_id n) (nl_actor_id n) (nl_idempotency_key n)) \<and> (live_effect env)\<^sup>*\<^sup>* db db'"
proof -
  from assms(1) obtain "is" where i: "mapE (normalizeCreateInput env) inputs = Inr is" "createLiveCommands env validate clock is db = Inr (db', rs)"
    unfolding createDagActorLiveCommandBatch_def by (auto simp: bindE_Inr throwIf_Inr)
  have "\<forall>n \<in> set is. nl_command_id n = stableCommandId env (nl_run_id n) (nl_actor_id n) (nl_idempotency_key n)"
    using i(1) normalize_id unfolding mapE_Inr list_all2_conv_all_nth by (metis in_set_conv_nth)
  with creates_effect [OF i(2) assms(2) this] i show ?thesis by blast
qed

lemma live_step_effect:
  assumes "live_step env penv db db'" and "live_inv env db"
  shows "(live_effect env)\<^sup>*\<^sup>* db db'"
proof -
  from assms(2) have ok: "live_ok (db_live db)" and read: "\<forall>r \<in> set (db_live db). live_readable env r" and lease: "lease_inv db"
    by (simp_all add: live_inv_def lease_store_inv_def)
  from assms(1) show ?thesis
  proof cases
    case lv_lease
    from lease_step_effect [OF this lease] show ?thesis by (meson lf_lease r_into_rtranclp rtranclp_trans)
  next
    case lv_batch
    from batch_effect [OF this ok] show ?thesis by blast
  qed (blast intro: send_effect [OF ok read] fallback_effect [OF ok read] transition_live_effect [OF ok] terminate_effect [OF ok])+
qed

section \<open>The contracts\<close>

lemma map_filter_rewritten:
  assumes "\<And>r. r \<in> set rows \<Longrightarrow> P r \<Longrightarrow> K (f r) = K r \<and> g (f r) = g r"
  shows "map g (filter K (rewritten P f rows)) = map g (filter K rows)"
  using assms unfolding rewritten_def by (induction rows) auto

lemma sorted_first_keys:
  fixes f :: "'r \<Rightarrow> 'a :: linorder" and g :: "'r \<Rightarrow> 'b :: linorder" and h :: "'r \<Rightarrow> 'c :: linorder"
  shows "sorted (map (\<lambda>r. (f r, g r, h r)) xs) \<Longrightarrow> distinct (map (\<lambda>r. (f r, g r)) xs) \<Longrightarrow> sorted_wrt (<) (map (\<lambda>r. (f r, g r)) xs)"
  by (induction xs) (force simp: less_le)+

lemma length_filter_rewritten:
  assumes "\<And>r. r \<in> set rows \<Longrightarrow> P r \<Longrightarrow> Q (f r) \<Longrightarrow> Q r"
  shows "length (filter Q (rewritten P f rows)) \<le> length (filter Q rows)"
  using assms unfolding rewritten_def by (induction rows) (auto simp: le_Suc_eq)

lemma fold_max_upt: "fold max (map int [1..<Suc n]) 0 = int n"
  by (induction n) simp_all

lemma live_numbered_new:
  assumes "live_numbered db" and "lv_sequence x = liveSequence db (lv_run_id x) (lv_actor_id x)"
  shows "live_numbered (db\<lparr>db_live := db_live db @ [x]\<rparr>)"
proof -
  let ?n = "length (commands_of db (lv_run_id x) (lv_actor_id x))"
  have old: "map lv_sequence (commands_of db run actor) = map int [1..<Suc (length (commands_of db run actor))]" for run actor
    using assms(1) by (simp add: live_numbered_def)
  have "lv_sequence x = fold max (map int [1..<Suc ?n]) 0 + 1"
    unfolding assms(2) liveSequence_def old [symmetric] by (simp only: commands_of_def)
  then have "lv_sequence x = int ?n + 1" by (simp only: fold_max_upt)
  moreover have "commands_of (db\<lparr>db_live := db_live db @ [x]\<rparr>) run actor
      = commands_of db run actor @ (if lv_run_id x = run \<and> lv_actor_id x = actor then [x] else [])" for run actor
    by (simp add: commands_of_def)
  ultimately show ?thesis using old by (auto simp: live_numbered_def)
qed

lemma live_owned_lease:
  assumes "lease_effect env db db'" and "live_owned db r"
  shows "live_owned db' r"
proof -
  from assms(2) obtain a where "getActorRow db (lv_run_id r) (lv_actor_id r) = Some a" "ac_node_id a = lv_node_id r"
    "lv_target_generation r \<le> ac_generation a" by (auto simp: live_owned_def)
  with lease_effect_actor [OF assms(1) this(1)] show ?thesis by (auto simp: live_owned_def actor_evolves_def)
qed

lemma live_frame [simp]:
  "lease_store_inv env (db\<lparr>db_live := rows\<rparr>) = lease_store_inv env db" "live_owned (db\<lparr>db_live := rows\<rparr>) = live_owned db"
  by (simp_all add: lease_store_inv_def lease_inv_def leases_owned_def getLeaseRow_def getActorRow_def actor_inv_def command_owned_def
      actor_of_def live_owned_def fun_eq_iff)

lemma live_effect_inv:
  assumes e: "live_effect env db db'" and inv: "live_inv env db"
  shows "live_inv env db'"
proof -
  have parts: "lease_store_inv env db" "\<And>r. r \<in> set (db_live db) \<Longrightarrow> live_readable env r \<and> live_owned db r"
    "\<And>run. outstanding_count db run \<le> MAX_OUTSTANDING_PER_RUN" "live_numbered db"
    using inv by (simp_all add: live_inv_def)
  have ok: "live_ok (db_live db')" using live_effect_ok [OF e] inv by (simp add: live_inv_def)
  from e show ?thesis
  proof cases
    case lf_lease
    then have same: "db_live db' = db_live db" by (rule lease_effect_live)
    have "live_numbered db' = live_numbered db" "outstanding_count db' = outstanding_count db"
      by (simp_all add: live_numbered_def commands_of_def outstanding_count_def same fun_eq_iff)
    with parts ok lf_lease same live_owned_lease [OF lf_lease] lease_effect_store_inv [OF lf_lease] show ?thesis
      by (simp add: live_inv_def)
  next
    case (lf_new x)
    have "outstanding_count db' run \<le> MAX_OUTSTANDING_PER_RUN" for run
      using parts(3) [of run] lf_new(7) by (auto simp: lf_new(1) outstanding_count_def)
    with ok parts live_numbered_new [OF parts(4) lf_new(6)] lf_new(3,4) show ?thesis unfolding lf_new(1) live_inv_def by auto
  next
    case (lf_moved P f)
    let ?rows = "rewritten P f (db_live db)"
    have same: "live_same r (f r)" "live_outstanding (f r) \<Longrightarrow> live_outstanding r" if "r \<in> set (db_live db)" "P r" for r
      using lf_moved(2) [OF that] by (auto simp: live_forward_def live_outstanding_rank)
    have "outstanding_count db' run \<le> outstanding_count db run" for run
      unfolding outstanding_count_def lf_moved(1)
      using length_filter_rewritten [of "db_live db" P "\<lambda>r. lv_run_id r = run \<and> live_outstanding r" f] same
      by (simp add: live_same_def)
    with parts(3) have count: "outstanding_count db' run \<le> MAX_OUTSTANDING_PER_RUN" for run by (meson order_trans)
    have seqs: "map lv_sequence (commands_of db' run actor) = map lv_sequence (commands_of db run actor)" for run actor
      unfolding commands_of_def lf_moved(1)
      using map_filter_rewritten [of "db_live db" P "\<lambda>r. lv_run_id r = run \<and> lv_actor_id r = actor" f lv_sequence] same
      by (simp add: live_same_def)
    then have "length (commands_of db' run actor) = length (commands_of db run actor)" for run actor
      by (metis length_map)
    with seqs parts(4) have num: "live_numbered db'" by (simp add: live_numbered_def)
    have "live_readable env (f r) \<and> live_owned db (f r)" if "r \<in> set (db_live db)" "P r" for r
      using lf_moved(2) [OF that] same(1) [OF that] parts(2) [OF that(1)] by (simp add: live_readable_def live_owned_def live_same_def)
    then have "\<forall>r \<in> set ?rows. live_readable env r \<and> live_owned db r" using parts(2) by (auto simp: rewritten_def)
    with count num ok parts(1) show ?thesis unfolding lf_moved(1) live_inv_def by simp
  qed
qed

lemma live_effect_row:
  assumes "live_effect env db db'" and "getLiveRow db k = Some r"
  shows "\<exists>r'. getLiveRow db' k = Some r' \<and> live_evolves r r'"
  using assms
proof cases
  case lf_lease
  with assms(2) show ?thesis by (simp add: getLiveRow_def lease_effect_live)
next
  case (lf_new x)
  with assms(2) show ?thesis by (simp add: getLiveRow_def find_append)
next
  case (lf_moved P f)
  have "getLiveRow db' k = map_option (\<lambda>r. if P r then f r else r) (getLiveRow db k)"
    unfolding getLiveRow_def lf_moved(1) using lf_moved(2)
    by (simp, intro find_update) (auto simp: live_forward_def live_same_def)
  with assms(2) lf_moved(2) [of r] getLiveRow_key [OF assms(2)] show ?thesis by (auto simp: live_evolves_def)
qed

lemma live_effects_inv: "(live_effect env)\<^sup>*\<^sup>* db db' \<Longrightarrow> live_inv env db \<Longrightarrow> live_inv env db'"
  by (induction rule: rtranclp_induct) (auto intro: live_effect_inv)

lemma live_effects_row:
  "(live_effect env)\<^sup>*\<^sup>* db db' \<Longrightarrow> getLiveRow db k = Some r \<Longrightarrow> \<exists>r'. getLiveRow db' k = Some r' \<and> live_evolves r r'"
  by (induction rule: rtranclp_induct) (auto dest: live_effect_row intro: live_evolves_trans)

lemma live_init_inv: "live_init db \<Longrightarrow> live_inv env db"
  by (simp add: live_init_def live_inv_def lease_init_inv live_ok_def outstanding_count_def live_numbered_def commands_of_def)

interpretation live_store: transition_system live_init "live_step env penv" "live_inv env" for env penv
  by unfold_locales (auto intro: live_init_inv live_effects_inv live_step_effect)

interpretation live_commands: row_system live_init "live_step env penv" "live_inv env" getLiveRow live_evolves for env penv
  by unfold_locales (auto intro: live_evolves_trans live_effects_row live_step_effect)

interpretation live_statuses: absorbing_system live_init "live_step env penv" "live_inv env"
    "\<lambda>db k. map_option lv_status (getLiveRow db k)" live_terminal live_rank for env penv
  by unfold_locales (auto simp: live_evolves_def live_forward_def dest!: live_effects_row [OF live_step_effect])

section \<open>Creating a command again\<close>

lemma same_command_mono: "sameIdempotentCommand r i \<Longrightarrow> live_same r x \<Longrightarrow> sameIdempotentCommand x i"
  by (simp add: sameIdempotentCommand_def live_same_def)

lemma commandFromLiveRow_row: "commandFromLiveRow env r = Inr c \<Longrightarrow> lr_row c = r"
  by (auto simp: commandFromLiveRow_def bindE_Inr split: option.splits)

lemma decodeReason_doc:
  assumes "\<And>r. env_json_parse env (reason_json r) \<noteq> None" and "reason_doc v"
  shows "\<exists>d. decodeReason env v = Inr d"
proof (cases v)
  case (Some t)
  with assms(2) obtain r where r: "t = reason_json r" by (auto simp: reason_doc_def)
  obtain w where "env_json_parse env (reason_json r) = Some w" using assms(1) [of r] by blast
  with Some r show ?thesis by (cases w) (simp_all add: decodeReason_def)
qed (simp add: decodeReason_def)

lemma readable_command:
  assumes "\<And>r. env_json_parse env (reason_json r) \<noteq> None" and "live_readable env r"
  shows "\<exists>c. commandFromLiveRow env r = (Inr c :: 'c err + _) \<and> lr_row c = r"
proof -
  from assms(2) obtain v where "env_json_parse env (lv_json r) = Some v" by (auto simp: live_readable_def)
  moreover obtain d where "decodeReason env (lv_fallback_json r) = (Inr d :: 'c err + _)"
    using decodeReason_doc [OF assms(1)] assms(2) by (auto simp: live_readable_def)
  moreover obtain e where "decodeReason env (lv_terminal_json r) = (Inr e :: 'c err + _)"
    using decodeReason_doc [OF assms(1)] assms(2) by (auto simp: live_readable_def)
  ultimately show ?thesis by (simp add: commandFromLiveRow_def)
qed

lemma create_found:
  assumes inv: "live_inv env db" and id: "nl_command_id i = stableCommandId env (nl_run_id i) (nl_actor_id i) (nl_idempotency_key i)"
    and "createLiveCommand env validate now i db = Inr (db', r)"
  shows "getLiveRow db' (nl_command_id i) = Some (lr_row (lm_command r)) \<and> sameIdempotentCommand (lr_row (lm_command r)) i"
proof (cases "case getLiveRowByKey db (nl_run_id i) (nl_actor_id i) (nl_idempotency_key i) of Some r \<Rightarrow> Some r | None \<Rightarrow> getLiveRow db (nl_command_id i)")
  case (Some x)
  with assms(3) have x: "db' = db" "lr_row (lm_command r) = x" "sameIdempotentCommand x i"
    by (auto simp: createLiveCommand_def Let_def bindE_Inr throwIf_Inr live_done_def dest: commandFromLiveRow_row)
  from Some have mem: "x \<in> set (db_live db)"
    by (auto simp: getLiveRowByKey_def dest: find_SomeD getLiveRow_key split: option.splits)
  with inv have "lv_command_id x = nl_command_id i" using id x(3) by (auto simp: live_inv_def live_readable_def sameIdempotentCommand_def)
  with getLiveRow_mem [OF _ mem] inv x show ?thesis by (simp add: live_inv_def)
next
  case None
  let ?x = "newLiveRow (liveSequence db (nl_run_id i) (nl_actor_id i)) now i"
  from None assms(3) obtain y c where ok: "live_ok (db_live db @ [?x])" and db': "db' = db\<lparr>db_live := db_live db @ [?x]\<rparr>"
    and y: "getLiveRow db' (nl_command_id i) = Some y" and c: "commandFromLiveRow env y = (Inr c :: live_conflict err + _)" "r = live_done True c"
    by (auto simp: createLiveCommand_def Let_def bindE_Inr throwIf_Inr sql_insert_Inr split: option.splits)
  have "getLiveRow db' (nl_command_id i) = Some ?x" using getLiveRow_mem [of db' ?x] ok db' by (simp add: newLiveRow_def)
  with y have "y = ?x" by simp
  with y commandFromLiveRow_row [OF c(1)] c(2) show ?thesis by (simp add: live_done_def sameIdempotentCommand_def newLiveRow_def)
qed

definition command_stored :: "('m) live_db_scheme \<Rightarrow> new_live \<Rightarrow> live_row \<Rightarrow> bool" where
  "command_stored db i r \<longleftrightarrow> (\<exists>x. getLiveRow db (nl_command_id i) = Some x \<and> sameIdempotentCommand x i \<and> live_evolves r x)"

lemma command_stored_mono: "command_stored db i r \<Longrightarrow> (live_effect env)\<^sup>*\<^sup>* db db' \<Longrightarrow> command_stored db' i r"
proof -
  assume "command_stored db i r" and e: "(live_effect env)\<^sup>*\<^sup>* db db'"
  then obtain x where x: "getLiveRow db (nl_command_id i) = Some x" "sameIdempotentCommand x i" "live_evolves r x"
    by (auto simp: command_stored_def)
  with live_effects_row [OF e x(1)] obtain y where "getLiveRow db' (nl_command_id i) = Some y" "live_evolves x y" by blast
  with x same_command_mono [OF x(2) live_evolves_same] live_evolves_trans [OF x(3)] show ?thesis by (auto simp: command_stored_def)
qed

lemma creates_found:
  assumes "createLiveCommands env validate clock is db = Inr (db', rs)" and "live_inv env db"
    and "\<forall>n \<in> set is. nl_command_id n = stableCommandId env (nl_run_id n) (nl_actor_id n) (nl_idempotency_key n)"
  shows "list_all2 (\<lambda>i r. command_stored db' i (lr_row (lm_command r))) is rs"
  using assms
proof (induction "is" arbitrary: db rs)
  case (Cons i "is")
  from Cons.prems(1) obtain db1 r1 rs1 where 1: "createLiveCommand env validate (clock i) i db = Inr (db1, r1)"
    and 2: "createLiveCommands env validate clock is db1 = Inr (db', rs1)" and rs: "rs = r1 # rs1" by (auto simp: bindE_Inr)
  have id: "nl_command_id i = stableCommandId env (nl_run_id i) (nl_actor_id i) (nl_idempotency_key i)" using Cons.prems(3) by simp
  have ok: "live_ok (db_live db)" using Cons.prems(2) by (simp add: live_inv_def)
  note e = create_live_effect [OF ok id 1]
  have inv1: "live_inv env db1" using live_effect_inv [OF e Cons.prems(2)] .
  have "command_stored db1 i (lr_row (lm_command r1))" using create_found [OF Cons.prems(2) id 1] by (simp add: command_stored_def)
  moreover have "(live_effect env)\<^sup>*\<^sup>* db1 db'" using creates_effect [OF 2] inv1 Cons.prems(3) by (simp add: live_inv_def)
  ultimately show ?case using Cons.IH [OF 2 inv1] Cons.prems(3) rs by (auto intro: command_stored_mono)
qed simp

lemma create_repeat:
  assumes inv: "live_inv env db" and parse: "\<And>r. env_json_parse env (reason_json r) \<noteq> None" and stored: "command_stored db i r"
  shows "\<exists>c. createLiveCommand env validate now i db = Inr (db, live_done False c) \<and> live_evolves r (lr_row c)"
proof -
  from stored obtain x where x: "getLiveRow db (nl_command_id i) = Some x" "sameIdempotentCommand x i" "live_evolves r x"
    by (auto simp: command_stored_def)
  have mem: "x \<in> set (db_live db)" using getLiveRow_key [OF x(1)] by simp
  have "getLiveRowByKey db (nl_run_id i) (nl_actor_id i) (nl_idempotency_key i) = Some x"
    using getLiveRowByKey_mem [OF _ mem] inv x(2) by (simp add: live_inv_def sameIdempotentCommand_def)
  moreover obtain c where "commandFromLiveRow env x = (Inr c :: live_conflict err + _)" "lr_row c = x"
    using readable_command [OF parse, of x] inv mem by (auto simp: live_inv_def)
  ultimately show ?thesis using x by (intro exI [of _ c]) (simp add: createLiveCommand_def)
qed

lemma creates_repeat:
  assumes "list_all2 (\<lambda>i r. command_stored db i (lr_row (lm_command r))) is rs" and "live_inv env db"
    and "\<And>r. env_json_parse env (reason_json r) \<noteq> None"
  shows "\<exists>ss. createLiveCommands env validate clock is db = Inr (db, ss)
    \<and> list_all2 (\<lambda>r s. lm_deduplicated s \<and> live_evolves (lr_row (lm_command r)) (lr_row (lm_command s))) rs ss"
  using assms(1)
proof (induction rule: list_all2_induct)
  case (Cons i "is" r rs)
  with create_repeat [OF assms(2,3) Cons.hyps(1), of validate "clock i"] show ?case by (auto simp: live_done_def)
qed simp

section \<open>Runs of the model\<close>

definition live_demo0 :: live_db where
  "live_demo0 = \<lparr>db_runs = [(''r'', ''running'')], db_actors = [], db_commands = [], db_leases = [], db_live = []\<rparr>"

definition live_demo1 :: live_db where
  "live_demo1 = live_demo0\<lparr>db_actors := [demo_row]\<rparr>"

definition live_demo_in :: live_input where
  "live_demo_in = \<lparr>lc_run_id = ''r'', lc_actor_id = '' a'', lc_node_id = ''n'', lc_session_id = ''s'', lc_round_id = ''o'',
     lc_target_generation = num_of_int 1, lc_lease_generation = num_of_int 0, lc_state_token = replicate 64 CHR ''a'',
     lc_idempotency_key = ''k'', lc_payload = JObj []\<rparr>"

definition live_demo_id :: string where
  "live_demo_id = ''dag-live-'' @ replicate 64 CHR ''a''"

definition live_demo_new :: new_live where
  "live_demo_new = \<lparr>nl_command_id = live_demo_id, nl_run_id = ''r'', nl_actor_id = ''a'', nl_node_id = ''n'', nl_session_id = ''s'',
     nl_round_id = ''o'', nl_target_generation = 1, nl_lease_generation = 0, nl_state_token = replicate 64 CHR ''a'',
     nl_idempotency_key = ''k'', nl_payload = JObj [], nl_digest = replicate 64 CHR ''a'', nl_json = ''{}''\<rparr>"

definition live_demo_row :: live_row where
  "live_demo_row = newLiveRow 1 6 live_demo_new"

definition live_demo_applied :: live_row where
  "live_demo_applied = transitioned Lv_applied None 7 live_demo_row"

definition live_demo2 :: live_db where "live_demo2 = live_demo1\<lparr>db_live := [live_demo_row]\<rparr>"
definition live_demo3 :: live_db where "live_demo3 = live_demo1\<lparr>db_live := [live_demo_applied]\<rparr>"

lemma live_demo_token: "assertStateToken (replicate 64 CHR ''a'') = (Inr (replicate 64 CHR ''a'') :: live_conflict err + _)"
proof -
  have "js_trim (replicate 64 CHR ''a'') = replicate 64 CHR ''a''"
    by (simp only: js_trim_def dropWhile_replicate rev_replicate) (simp add: js_space_def)
  then show ?thesis by (simp add: assertStateToken_def Let_def)
qed

lemma live_demo_normal: "normalizeCreateInput demo_env live_demo_in = Inr live_demo_new"
proof -
  have "assertPrintable 256 ''r'' ''run_id'' = (Inr ''r'' :: live_conflict err + _)"
    "assertPrintable 256 '' a'' ''actor_id'' = (Inr ''a'' :: live_conflict err + _)"
    "assertPrintable 256 ''k'' ''idempotency_key'' = (Inr ''k'' :: live_conflict err + _)"
    "assertPrintable 256 ''n'' ''node_id'' = (Inr ''n'' :: live_conflict err + _)"
    "assertPrintable 512 ''s'' ''session_id'' = (Inr ''s'' :: live_conflict err + _)"
    "assertPrintable 256 ''o'' ''round_id'' = (Inr ''o'' :: live_conflict err + _)"
    "encodePayload demo_env (JObj []) = (Inr (''{}'', replicate 64 CHR ''a'') :: live_conflict err + _)"
    "positiveSafeInteger (num_of_int 1) ''target_generation'' = (Inr 1 :: live_conflict err + _)"
    "assertTimestamp (num_of_int 0) ''target_lease_generation'' = (Inr 0 :: live_conflict err + _)"
    by code_simp+
  then show ?thesis
    by (simp add: normalizeCreateInput_def live_demo_in_def live_demo_new_def live_demo_token stableCommandId_def demo_env_def live_demo_id_def)
qed

lemma live_demo_ok: "live_ok [live_demo_row]" "live_ok [live_demo_applied]"
  by (simp_all add: live_ok_def unique_on_def live_check_def live_demo_row_def live_demo_applied_def newLiveRow_def transitioned_def
      live_demo_new_def live_demo_id_def sql_id_def sql_document_def sql_reason_def opt_ge_def coalesce_def live_terminal_def)

definition live_demo_command :: "live_row \<Rightarrow> live_command" where
  "live_demo_command r = \<lparr>lr_row = r, lr_payload = JObj [], lr_fallback_reason = None, lr_terminal_reason = None\<rparr>"

lemma live_demo_read: "commandFromLiveRow demo_env live_demo_row = Inr (live_demo_command live_demo_row)"
  "commandFromLiveRow demo_env live_demo_applied = Inr (live_demo_command live_demo_applied)"
  by (simp_all add: commandFromLiveRow_def live_demo_command_def live_demo_row_def live_demo_applied_def newLiveRow_def transitioned_def
      demo_env_def decodeReason_def)

lemma live_demo_batch: "createDagActorLiveCommandBatch demo_env (\<lambda>_ _. None) (\<lambda>_. 6) [live_demo_in] live_demo1
    = Inr (live_demo2, [live_done True (live_demo_command live_demo_row)])"
proof -
  have "getActorRow live_demo1 ''r'' ''a'' = Some demo_row" "ac_node_id demo_row = ''n''" "ac_generation demo_row = 1"
    by code_simp+
  moreover have "db_live live_demo1 = []" by (simp add: live_demo1_def live_demo0_def)
  moreover have "lv_command_id live_demo_row = live_demo_id" by (simp add: live_demo_row_def newLiveRow_def live_demo_new_def)
  ultimately have "createLiveCommand demo_env (\<lambda>_ _. None) 6 live_demo_new live_demo1
      = Inr (live_demo2, live_done True (live_demo_command live_demo_row))"
    by (simp add: createLiveCommand_def getLiveRowByKey_def getLiveRow_def outstanding_count_def MAX_OUTSTANDING_PER_RUN_def
        live_demo_new_def [THEN arg_cong [where f = nl_run_id]] live_demo_new_def [THEN arg_cong [where f = nl_actor_id]]
        live_demo_new_def [THEN arg_cong [where f = nl_node_id]] live_demo_new_def [THEN arg_cong [where f = nl_command_id]]
        live_demo_new_def [THEN arg_cong [where f = nl_target_generation]]
        liveSequence_def live_demo_row_def [symmetric] sql_insert_def live_demo_ok live_demo_read live_demo2_def)
  then show ?thesis by (simp add: createDagActorLiveCommandBatch_def live_demo_normal)
qed

lemma live_demo_transition: "transitionDagActorLiveCommand demo_env 7
    \<lparr>tl_command_id = live_demo_id, tl_status = Lv_applied, tl_reason = None, tl_transitioned_at = None\<rparr> live_demo2
    = Inr (live_demo3, live_done True (live_demo_command live_demo_applied))"
proof -
  have "assertPrintable 256 live_demo_id ''command_id'' = (Inr live_demo_id :: live_conflict err + _)"
    "assertTimestamp (or_clock None 7) ''transitioned_at'' = (Inr 7 :: live_conflict err + _)" by code_simp+
  moreover have "lv_command_id live_demo_row = live_demo_id" "lv_command_id live_demo_applied = live_demo_id" "lv_status live_demo_row = Lv_queued"
    "lv_created_at live_demo_row = 6" "live_outstanding live_demo_row"
    by (simp_all add: live_demo_row_def live_demo_applied_def newLiveRow_def transitioned_def live_demo_new_def live_outstanding_def)
  ultimately show ?thesis
    by (simp add: transitionDagActorLiveCommand_def requireLiveCommand_def getDagActorLiveCommand_def getLiveRow_def live_demo2_def optE_def
        live_demo_read live_demo_command_def live_terminal_def needs_reason_def live_updated_def sql_update_def rewritten_def
        live_demo_applied_def [symmetric] live_demo_ok live_demo3_def Let_def)
qed

lemma live_demo_reach: "reach live_init (live_step demo_env (\<lambda>_. None)) live_demo1" "reach live_init (live_step demo_env (\<lambda>_. None)) live_demo2"
  "(live_step demo_env (\<lambda>_. None))\<^sup>*\<^sup>* live_demo2 live_demo3"
proof -
  have "reach live_init (live_step demo_env (\<lambda>_. None)) live_demo0"
    by (rule reach_init) (simp add: live_init_def lease_init_def actor_init_def live_demo0_def)
  moreover have "registerDagActor demo_env 5 demo_actor live_demo0 = Inr (live_demo1, demo_row, True)" by code_simp
  ultimately show 1: "reach live_init (live_step demo_env (\<lambda>_. None)) live_demo1" by (blast intro: reach_step lv_lease ls_actor st_register)
  then show "reach live_init (live_step demo_env (\<lambda>_. None)) live_demo2" by (rule reach_step) (rule lv_batch [OF live_demo_batch])
  show "(live_step demo_env (\<lambda>_. None))\<^sup>*\<^sup>* live_demo2 live_demo3" using lv_transition [OF live_demo_transition] by blast
qed

section \<open>Properties\<close>

text \<open>C23. A live command keeps its identity, payload and number, its status only moves forward, the times at which it was
  delivered and applied are set once, and a command that has ended never changes again.\<close>

theorem live_command_lifecycle:
  assumes "reach live_init (live_step env penv) db" and "(live_step env penv)\<^sup>*\<^sup>* db db'" and "getLiveRow db k = Some r"
  shows "\<exists>r'. getLiveRow db' k = Some r' \<and> live_same r r' \<and> live_rank (lv_status r) \<le> live_rank (lv_status r')
    \<and> (live_terminal (lv_status r) \<longrightarrow> r' = r)
    \<and> (lv_delivered_at r \<noteq> None \<longrightarrow> lv_delivered_at r' = lv_delivered_at r)
    \<and> (lv_applied_at r \<noteq> None \<longrightarrow> lv_applied_at r' = lv_applied_at r)"
proof -
  from live_commands.row_steps [OF assms(2) live_store.reach_inv [OF assms(1)] assms(3)]
  obtain r' where "getLiveRow db' k = Some r'" "live_evolves r r'" by blast
  with live_evolves_same [of r r'] show ?thesis by (intro exI [of _ r']) (auto simp: live_evolves_def live_forward_def)
qed

theorem live_command_lifecycle_witness:
  "\<exists>r'. getLiveRow live_demo3 live_demo_id = Some r' \<and> live_same live_demo_row r'"
proof -
  have "getLiveRow live_demo2 live_demo_id = Some live_demo_row"
    by (simp add: getLiveRow_def live_demo2_def live_demo_row_def newLiveRow_def live_demo_new_def)
  from live_command_lifecycle [OF live_demo_reach(2,3) this] show ?thesis by blast
qed

text \<open>C24. The commands of a run that have not ended are at most 500, and the list used for fallback and recovery holds each of
  them, those of an actor in the order of their numbers; the commands of an actor, ended or not, are numbered from 1 without gaps.\<close>

theorem live_outstanding_listed:
  assumes "reach live_init (live_step env penv) db" and "js_trim run = run" and "sql_id 256 run" and "\<not> list_ex control_char run"
    and "\<And>r. env_json_parse env (reason_json r) \<noteq> None"
  shows "\<exists>cs. listOutstandingDagActorLiveCommands env run db = Inr cs \<and> length cs \<le> MAX_OUTSTANDING_PER_RUN
    \<and> set (map lr_row cs) = {r \<in> set (db_live db). lv_run_id r = run \<and> \<not> live_terminal (lv_status r)}
    \<and> sorted_wrt (<) (map (\<lambda>c. (lv_actor_id (lr_row c), lv_sequence (lr_row c))) cs)
    \<and> (\<forall>actor. map lv_sequence (commands_of db run actor) = map int [1..<Suc (length (commands_of db run actor))])"
proof -
  note inv = live_store.reach_inv [OF assms(1), unfolded live_inv_def]
  let ?rows = "sort_key live_order (filter (\<lambda>r. lv_run_id r = run \<and> live_outstanding r) (db_live db))"
  have "\<exists>c. commandFromLiveRow env r = (Inr c :: live_conflict err + _) \<and> lr_row c = r" if "r \<in> set ?rows" for r
    using inv readable_command [OF assms(5), where r = r and 'c = live_conflict] that by simp
  then obtain g where g: "\<And>r. r \<in> set ?rows \<Longrightarrow> commandFromLiveRow env r = (Inr (g r) :: live_conflict err + _) \<and> lr_row (g r) = r" by metis
  then have "mapE (commandFromLiveRow env) ?rows = (Inr (map g ?rows) :: live_conflict err + _)" by (intro mapE_all) blast
  then have list: "listOutstandingDagActorLiveCommands env run db = Inr (map g ?rows)"
    using assms(2-4) by (simp add: listOutstandingDagActorLiveCommands_def assertPrintable_def sql_id_iff)
  have rows: "lr_row (g r) = r" if "r \<in> set ?rows" for r using g [OF that] by simp
  have "unique_on (\<lambda>_. True) (\<lambda>r. (lv_run_id r, lv_actor_id r, lv_sequence r)) (filter (\<lambda>r. lv_run_id r = run \<and> live_outstanding r) (db_live db))"
    using inv by (intro unique_on_filter) (simp add: live_ok_def)
  then have "distinct (map (\<lambda>r. (lv_actor_id r, lv_sequence r)) ?rows)"
    by (auto simp: unique_on_def distinct_map inj_on_def)
  then have order: "sorted_wrt (<) (map (\<lambda>r. (lv_actor_id r, lv_sequence r)) ?rows)"
    by (intro sorted_first_keys [where h = lv_command_id]) (simp_all add: live_order_def [symmetric])
  have "map (\<lambda>c. (lv_actor_id (lr_row c), lv_sequence (lr_row c))) (map g ?rows) = map (\<lambda>r. (lv_actor_id r, lv_sequence r)) ?rows"
    using rows by simp
  with order have "sorted_wrt (<) (map (\<lambda>c. (lv_actor_id (lr_row c), lv_sequence (lr_row c))) (map g ?rows))" by (simp only:)
  moreover have "set (map lr_row (map g ?rows)) = {r \<in> set (db_live db). lv_run_id r = run \<and> \<not> live_terminal (lv_status r)}"
    using rows by (force simp: image_image live_outstanding_rank)
  moreover have "length (map g ?rows) \<le> MAX_OUTSTANDING_PER_RUN" using inv by (simp add: outstanding_count_def)
  ultimately show ?thesis using list inv unfolding live_numbered_def by blast
qed

theorem live_outstanding_listed_witness:
  "\<exists>cs. listOutstandingDagActorLiveCommands demo_env ''r'' live_demo2 = Inr cs \<and> set (map lr_row cs) = {live_demo_row}"
proof -
  have "js_trim ''r'' = ''r''" "sql_id 256 ''r''" "\<not> list_ex control_char ''r''" "live_outstanding live_demo_row" "lv_run_id live_demo_row = ''r''"
    by code_simp+
  moreover have "env_json_parse demo_env (reason_json q) \<noteq> None" for q by (simp add: demo_env_def)
  moreover have "db_live live_demo2 = [live_demo_row]" by (simp add: live_demo2_def)
  ultimately show ?thesis using live_outstanding_listed [OF live_demo_reach(2), of "''r''"] by (auto simp: live_outstanding_rank)
qed

text \<open>Creating the same batch again, at any later time and whatever has happened to the commands since, succeeds,
  writes nothing, and returns the first commands in the state they have reached, each marked as deduplicated.\<close>

theorem live_batch_idempotent:
  assumes "reach live_init (live_step env penv) db" and batch: "createDagActorLiveCommandBatch env validate clock inputs db = Inr (db1, rs)"
    and "(live_step env penv)\<^sup>*\<^sup>* db1 db2" and parse: "\<And>r. env_json_parse env (reason_json r) \<noteq> None"
  shows "\<exists>ss. createDagActorLiveCommandBatch env validate' clock' inputs db2 = Inr (db2, ss)
    \<and> list_all2 (\<lambda>r s. lm_deduplicated s \<and> live_evolves (lr_row (lm_command r)) (lr_row (lm_command s))) rs ss"
proof -
  note inv = live_store.reach_inv [OF assms(1)]
  then have ok: "live_ok (db_live db)" by (simp add: live_inv_def)
  from batch_effect [OF batch ok] obtain "is" where i: "mapE (normalizeCreateInput env) inputs = Inr is"
    "createLiveCommands env validate clock is db = Inr (db1, rs)"
    "\<forall>n \<in> set is. nl_command_id n = stableCommandId env (nl_run_id n) (nl_actor_id n) (nl_idempotency_key n)"
    and e: "(live_effect env)\<^sup>*\<^sup>* db db1" by blast
  have inv1: "live_inv env db1" using live_effects_inv [OF e inv] .
  have later: "(live_effect env)\<^sup>*\<^sup>* db1 db2 \<and> live_inv env db2" using assms(3)
  proof (induction rule: rtranclp_induct)
    case (step y z)
    then show ?case using live_step_effect [OF step.hyps(2)] live_store.inv_step [OF step.hyps(2)] by (meson rtranclp_trans)
  qed (simp add: inv1)
  from creates_found [OF i(2) inv i(3)] have "list_all2 (\<lambda>i r. command_stored db2 i (lr_row (lm_command r))) is rs"
    using later by (auto elim!: list_all2_mono intro: command_stored_mono)
  from creates_repeat [OF this _ parse, of validate' clock'] later batch i(1) show ?thesis
    by (auto simp: createDagActorLiveCommandBatch_def throwIf_def split: if_splits)
qed

theorem live_batch_idempotent_witness:
  "\<exists>ss. createDagActorLiveCommandBatch demo_env (\<lambda>_ _. None) (\<lambda>_. 9) [live_demo_in] live_demo3 = Inr (live_demo3, ss) \<and> length ss = 1"
proof -
  have "env_json_parse demo_env (reason_json q) \<noteq> None" for q by (simp add: demo_env_def)
  from live_batch_idempotent [OF live_demo_reach(1) live_demo_batch live_demo_reach(3) this, of "\<lambda>_ _. None" "\<lambda>_. 9"]
  show ?thesis by (auto dest: list_all2_lengthD)
qed

text \<open>Whatever the reason given for a fallback or an end, the encoded reason fits the column: the loop that shortens it ends, the
  result is one JSON object of at most 4096 bytes, and its text is the redacted reason or a prefix of it followed by three dots.\<close>

theorem reason_fits:
  "\<exists>q. encodeReason v d = reason_json q \<and> shortened (redactText (reason_text v d)) q
    \<and> utf8_length (encodeReason v d) \<le> 4096 \<and> sql_reason (Some (encodeReason v d))"
proof -
  from encodeReason_spec [of v d] obtain q where q: "encodeReason v d = reason_json q" "shortened (redactText (reason_text v d)) q"
    "utf8_length (encodeReason v d) \<le> 4096" by (auto simp: MAX_LIVE_REASON_BYTES_def)
  moreover have "2 \<le> length (reason_json q)" by (simp add: reason_json_def)
  ultimately show ?thesis using utf8_length_ge [of "encodeReason v d"] by (auto simp: sql_reason_def sql_document_def)
qed

end
