(* ===== verification/Transport_Fence.thy ===== *)
theory Transport_Fence
  imports Dag_Engine Live_Commands
begin

text \<open>
  \<open>assessDagTransportFence\<close> of \<open>orchestration/response-bridge.ts\<close>: whether a message from a worker or
  node still speaks for the node of a run that it names. It combines the run in memory, its actor, the
  actor's lease and the command it answers. \<open>runs\<close> is the table of active runs; the text of a reason is
  its leading label.
\<close>

datatype run_status = Run_active | Run_waiting | Run_completed | Run_failed | Run_cancelled

record 'v active_run =
  ru_status :: run_status
  ru_round_id :: string
  ru_ordinal :: int
  ru_dag :: "'v dag_run"

type_synonym 'v active_runs = "(string, 'v active_run) jsmap"

datatype disposition = Stale | Duplicate | Invalid_message

record transport_source =
  ts_target_type :: string
  ts_target_id :: string

record fence_data =
  fd_run_id :: string
  fd_node_id :: string
  fd_round_id :: string
  fd_actor_id :: string
  fd_generation :: int
  fd_lease_generation :: int
  fd_command_id :: "string option"

datatype fence_assessment =
    Fence_current fence_data
  | Fence_unknown_run
  | Fence_ignored disposition string
  | Fence_malformed string

definition str_field :: "(string \<times> js) list \<Rightarrow> string \<Rightarrow> string option" where
  "str_field obj k = (case obj_get obj k of JStr s \<Rightarrow> Some s | _ \<Rightarrow> None)"

definition num_field :: "(string \<times> js) list \<Rightarrow> string \<Rightarrow> jsnum option" where
  "num_field obj k = (case obj_get obj k of JNum n \<Rightarrow> Some n | _ \<Rightarrow> None)"

definition positive_safe :: "jsnum option \<Rightarrow> bool" where
  "positive_safe n = (case n of None \<Rightarrow> False | Some v \<Rightarrow> is_safe_integer v \<and> 1 \<le> num_int v)"

text \<open>The first field that is wrong.\<close>

definition transportMetadataError :: "(string \<times> js) list \<Rightarrow> string option" where
  "transportMetadataError obj =
     (case find (\<lambda>field. obj_get obj field \<noteq> JUndef
            \<and> (case str_field obj field of None \<Rightarrow> True | Some s \<Rightarrow> js_trim s = [] \<or> 256 < length s))
         [''round_id'', ''actor_id'', ''command_id''] of
        Some field \<Rightarrow> Some field
      | None \<Rightarrow>
          if obj_get obj ''generation'' \<noteq> JUndef \<and> \<not> positive_safe (num_field obj ''generation'') then Some ''generation''
          else if \<not> positive_safe (num_field obj ''lease_generation'') then Some ''lease_generation''
          else None)"

definition fence_lease_input :: "string \<Rightarrow> string \<Rightarrow> jsnum \<Rightarrow> transport_source \<Rightarrow> jsnum option \<Rightarrow> lease_input" where
  "fence_lease_input run_id actorId generation source expectedVersion =
     lease_input.make run_id actorId generation (ts_target_type source) (ts_target_id source) expectedVersion None None None"

text \<open>
  The lease, which a live stream may renew: an expired lease of an active run is acquired again for the
  same target, and assessed again whether or not that succeeds. \<open>clock\<close> gives the three readings.
\<close>

definition fence_lease :: "(string \<Rightarrow> string option) \<Rightarrow> (nat \<Rightarrow> int) \<Rightarrow> bool \<Rightarrow> bool \<Rightarrow> string \<Rightarrow> string \<Rightarrow> jsnum \<Rightarrow> transport_source
    \<Rightarrow> ('m) live_db_scheme \<Rightarrow> ('m) live_db_scheme \<times> (lease_conflict err + assessment)" where
  "fence_lease penv clock renewExpired active run_id actorId generation source db =
     (let leaseInput = fence_lease_input run_id actorId generation source None;
          first = assessDagActorLease (clock 0) leaseInput db
      in case first of
           Inr (Expired lease) \<Rightarrow>
             if renewExpired \<and> active
             then (case acquireDagActorLease penv (clock 1)
                       (fence_lease_input run_id actorId NaN source (Some (num_of_int (lr_version lease)))) db of
                     Inr (db', _) \<Rightarrow> (db', assessDagActorLease (clock 2) leaseInput db')
                   | Inl _ \<Rightarrow> (db, assessDagActorLease (clock 2) leaseInput db))
             else (db, first)
         | _ \<Rightarrow> (db, first))"

text \<open>What the message says of the command it answers; \<open>None\<close> if nothing is wrong.\<close>

definition fence_command :: "js_env \<Rightarrow> string \<Rightarrow> actor_row \<Rightarrow> string \<Rightarrow> string \<Rightarrow> ('m) live_db_scheme
    \<Rightarrow> lease_conflict err + fence_assessment option" where
  "fence_command env run_id actor currentRound commandId db =
     bindE (getDagActorCommand env db commandId) (\<lambda>roundCommand.
     Inr (case getDagActorLiveCommand env commandId db of
        Inl _ \<Rightarrow> Some (Fence_ignored Invalid_message ''DAG_TRANSPORT_COMMAND_INVALID'')
      | Inr liveCommand \<Rightarrow>
          (case (case roundCommand of
                   Some c \<Rightarrow> Some (cm_run_id c, cm_actor_id c, cm_round_id c, cm_target_generation c)
                 | None \<Rightarrow> map_option (\<lambda>l. let r = lr_row l in (lv_run_id r, lv_actor_id r, lv_round_id r, lv_target_generation r)) liveCommand) of
             None \<Rightarrow> Some (Fence_ignored Invalid_message ''DAG_TRANSPORT_COMMAND_UNKNOWN'')
           | Some (run, actor', roundId, generation) \<Rightarrow>
               if run \<noteq> run_id \<or> actor' \<noteq> ac_actor_id actor then Some (Fence_ignored Invalid_message ''DAG_TRANSPORT_COMMAND_CONFLICT'')
               else if roundId \<noteq> currentRound \<or> generation \<noteq> ac_generation actor
               then Some (if roundId \<noteq> currentRound \<or> generation < ac_generation actor
                    then Fence_ignored Stale ''DAG_TRANSPORT_COMMAND_STALE'' else Fence_ignored Invalid_message ''DAG_TRANSPORT_COMMAND_CONFLICT'')
               else if map_option cm_status roundCommand = Some Acknowledged
               then Some (Fence_ignored Duplicate ''DAG_TRANSPORT_COMMAND_DUPLICATE'')
               else None)))"

text \<open>The checks that follow the lease.\<close>

definition fence_identity :: "js_env \<Rightarrow> (string \<times> js) list \<Rightarrow> string \<Rightarrow> string \<Rightarrow> 'v active_run \<Rightarrow> actor_row \<Rightarrow> jsnum \<Rightarrow> ('m) live_db_scheme
    \<Rightarrow> lease_conflict err + fence_assessment" where
  "fence_identity env obj run_id nodeId run actor leaseGeneration db =
     (let actorId = str_field obj ''actor_id''; generation = num_field obj ''generation''; commandId = str_field obj ''command_id'' in
      case str_field obj ''round_id'' of
        None \<Rightarrow> Inr (Fence_ignored Invalid_message ''DAG_TRANSPORT_ROUND_FENCE_MISSING'')
      | Some roundId \<Rightarrow>
          if roundId \<noteq> ru_round_id run then Inr (Fence_ignored Stale ''DAG_TRANSPORT_ROUND_STALE'')
          else if (case actorId of None \<Rightarrow> False | Some a \<Rightarrow> a \<noteq> ac_actor_id actor)
          then Inr (Fence_ignored Invalid_message ''DAG_TRANSPORT_ACTOR_CONFLICT'')
          else if (case generation of None \<Rightarrow> False | Some g \<Rightarrow> num_int g \<noteq> ac_generation actor)
          then Inr (if num_int (the generation) < ac_generation actor then Fence_ignored Stale ''DAG_TRANSPORT_GENERATION_STALE''
                    else Fence_ignored Invalid_message ''DAG_TRANSPORT_GENERATION_CONFLICT'')
          else bindE (case commandId of None \<Rightarrow> Inr None | Some c \<Rightarrow> fence_command env run_id actor (ru_round_id run) c db) (\<lambda>wrong.
            Inr (case wrong of
               Some a \<Rightarrow> a
             | None \<Rightarrow>
                 if nodeId \<in> set (handoffedNodes (ru_dag run)) then Fence_ignored Duplicate ''DAG_TRANSPORT_HANDOFF_DUPLICATE''
                 else if ru_status run \<noteq> Run_active then Fence_ignored Stale ''DAG_TRANSPORT_RUN_NOT_ACTIVE''
                 else (case (actorId, generation) of
                    (Some a, Some g) \<Rightarrow>
                      if 1 < ru_ordinal run \<and> commandId = None then Fence_ignored Invalid_message ''DAG_TRANSPORT_COMMAND_FENCE_MISSING''
                      else Fence_current \<lparr>fd_run_id = run_id, fd_node_id = nodeId, fd_round_id = roundId, fd_actor_id = a,
                             fd_generation = num_int g, fd_lease_generation = num_int leaseGeneration, fd_command_id = commandId\<rparr>
                  | _ \<Rightarrow> Fence_ignored Invalid_message
                      (if 1 < ru_ordinal run then ''DAG_TRANSPORT_COMMAND_FENCE_MISSING'' else ''DAG_TRANSPORT_FENCE_MISSING'')))))"

definition assessDagTransportFence :: "js_env \<Rightarrow> (string \<Rightarrow> string option) \<Rightarrow> (nat \<Rightarrow> int) \<Rightarrow> 'v active_runs \<Rightarrow> js \<Rightarrow> transport_source \<Rightarrow> bool
    \<Rightarrow> ('m) live_db_scheme \<Rightarrow> ('m) live_db_scheme \<times> (lease_conflict err + fence_assessment)" where
  "assessDagTransportFence env penv clock runs payload source renewExpired db =
     (case payload of
        JObj obj \<Rightarrow>
          (case (str_field obj ''runId'', str_field obj ''nodeId'', transportMetadataError obj) of
             (None, _, _) \<Rightarrow> (db, Inr (Fence_malformed ''runId''))
           | (_, None, _) \<Rightarrow> (db, Inr (Fence_malformed ''nodeId''))
           | (_, _, Some field) \<Rightarrow> (db, Inr (Fence_malformed field))
           | (Some run_id, Some nodeId, None) \<Rightarrow>
               (case map_of runs run_id of
                  None \<Rightarrow> (db, Inr Fence_unknown_run)
                | Some run \<Rightarrow>
                    (case getDagActorByNode env db run_id nodeId of
                       Inl e \<Rightarrow> (db, Inl e)
                     | Inr None \<Rightarrow> (db, Inr (Fence_ignored Invalid_message ''DAG_TRANSPORT_ACTOR_FENCE_MISSING''))
                     | Inr (Some actor) \<Rightarrow>
                         (let leaseGeneration = the (num_field obj ''lease_generation'');
                              (db', lease) = fence_lease penv clock renewExpired (ru_status run = Run_active) run_id (ac_actor_id actor)
                                 leaseGeneration source db
                          in (db', bindE lease (\<lambda>l. case l of
                                Current _ \<Rightarrow> fence_identity env obj run_id nodeId run actor leaseGeneration db'
                              | Target_mismatch _ \<Rightarrow> Inr (Fence_ignored Invalid_message ''DAG_TRANSPORT_LEASE_TARGET_MISMATCH'')
                              | _ \<Rightarrow> Inr (Fence_ignored Stale ''DAG_TRANSPORT_LEASE'')))))))
      | _ \<Rightarrow> (db, Inr (Fence_malformed ''payload'')))"

end
