(* ===== verification/Dispatch_Tracker.thy ===== *)
theory Dispatch_Tracker
  imports Interventions Effects
begin

text \<open>
  \<open>orchestration/dispatch-tracker.ts\<close>: which worker or node each running node of a run was dispatched to,
  and which target the next dispatch of a node must avoid. Both maps are kept in memory under the text
  \<open>run:node\<close>; a new dispatch also clears the stored exclusion of \<open>persistence/dag-actor-interventions.ts\<close>.
  Target types are the texts \<open>worker\<close> and \<open>node\<close>.
\<close>

datatype dispatch_state = Provisioning | Dispatched | Dispatch_failed

record dispatch_target =
  dt_state :: dispatch_state
  dt_type :: "string option"
  dt_id :: "string option"
  dt_at :: int

record tracker =
  tk_dispatches :: "(string, dispatch_target) jsmap"
  tk_exclusions :: "(string, string \<times> string) jsmap"

definition dispatch_key :: "string \<Rightarrow> string \<Rightarrow> string" where
  "dispatch_key run_id nodeId = run_id @ '':'' @ nodeId"

definition recordDispatch :: "int \<Rightarrow> string \<Rightarrow> string \<Rightarrow> string \<Rightarrow> string
    \<Rightarrow> (tracker \<times> ('m) intervention_db_scheme, intervention_conflict err, unit) eff" where
  "recordDispatch clock run_id nodeId targetType targetId = (\<lambda>(t, db).
     let k = dispatch_key run_id nodeId;
         t' = t\<lparr>tk_dispatches := AList.update k
                 \<lparr>dt_state = Dispatched, dt_type = Some targetType, dt_id = Some targetId, dt_at = clock\<rparr> (tk_dispatches t),
               tk_exclusions := AList.delete k (tk_exclusions t)\<rparr>
     in case clearDagActorDispatchExclusion run_id nodeId db of
          Inl e \<Rightarrow> ((t', db), Inl e)
        | Inr (db', _) \<Rightarrow> ((t', db'), Inr ()))"

definition recordProvisioning :: "int \<Rightarrow> string \<Rightarrow> string \<Rightarrow> tracker \<Rightarrow> tracker" where
  "recordProvisioning clock run_id nodeId t =
     t\<lparr>tk_dispatches := AList.update (dispatch_key run_id nodeId)
         \<lparr>dt_state = Provisioning, dt_type = None, dt_id = None, dt_at = clock\<rparr> (tk_dispatches t)\<rparr>"

definition recordDispatchFailed :: "int \<Rightarrow> string \<Rightarrow> string \<Rightarrow> tracker \<Rightarrow> tracker" where
  "recordDispatchFailed clock run_id nodeId t =
     t\<lparr>tk_dispatches := AList.update (dispatch_key run_id nodeId)
         \<lparr>dt_state = Dispatch_failed, dt_type = None, dt_id = None, dt_at = clock\<rparr> (tk_dispatches t)\<rparr>"

definition isProvisioning :: "string \<Rightarrow> string \<Rightarrow> tracker \<Rightarrow> bool" where
  "isProvisioning run_id nodeId t \<longleftrightarrow>
     map_option dt_state (map_of (tk_dispatches t) (dispatch_key run_id nodeId)) = Some Provisioning"

definition findDispatchTarget :: "string \<Rightarrow> string \<Rightarrow> tracker \<Rightarrow> dispatch_target option" where
  "findDispatchTarget run_id nodeId t = map_of (tk_dispatches t) (dispatch_key run_id nodeId)"

definition findDispatchExclusion :: "string \<Rightarrow> string \<Rightarrow> tracker \<Rightarrow> (string \<times> string) option" where
  "findDispatchExclusion run_id nodeId t = map_of (tk_exclusions t) (dispatch_key run_id nodeId)"

definition restoreDispatchExclusion :: "string \<Rightarrow> string \<Rightarrow> string \<Rightarrow> string \<Rightarrow> tracker \<Rightarrow> tracker" where
  "restoreDispatchExclusion run_id nodeId targetType targetId t =
     t\<lparr>tk_exclusions := AList.update (dispatch_key run_id nodeId) (targetType, targetId) (tk_exclusions t)\<rparr>"

text \<open>The target of a dispatched entry, if its type and its id are there and not empty.\<close>

definition dispatched_to :: "dispatch_target \<Rightarrow> (string \<times> string) option" where
  "dispatched_to d =
     (if dt_state d = Dispatched then (case (dt_type d, dt_id d) of
        (Some ty, Some i) \<Rightarrow> if ty \<noteq> [] \<and> i \<noteq> [] then Some (ty, i) else None
      | _ \<Rightarrow> None) else None)"

definition excludeCurrentDispatchTarget :: "string \<Rightarrow> string \<Rightarrow> tracker \<Rightarrow> tracker \<times> dispatch_target option" where
  "excludeCurrentDispatchTarget run_id nodeId t =
     (let k = dispatch_key run_id nodeId;
          current = map_of (tk_dispatches t) k;
          t' = (case Option.bind current dispatched_to of
                  Some target \<Rightarrow> t\<lparr>tk_exclusions := AList.update k target (tk_exclusions t)\<rparr>
                | None \<Rightarrow> t)
      in (t'\<lparr>tk_dispatches := AList.delete k (tk_dispatches t')\<rparr>, current))"

definition isCurrentDispatchTarget :: "string \<Rightarrow> string \<Rightarrow> string \<Rightarrow> string \<Rightarrow> tracker \<Rightarrow> bool" where
  "isCurrentDispatchTarget run_id nodeId targetType targetId t \<longleftrightarrow>
     (case findDispatchTarget run_id nodeId t of
        None \<Rightarrow> False
      | Some d \<Rightarrow> dt_state d = Dispatched \<and> dt_type d = Some targetType \<and> dt_id d = Some targetId)"

definition clearDispatchTarget :: "string \<Rightarrow> string
    \<Rightarrow> (tracker \<times> ('m) intervention_db_scheme, intervention_conflict err, unit) eff" where
  "clearDispatchTarget run_id nodeId = (\<lambda>(t, db).
     let k = dispatch_key run_id nodeId;
         t' = t\<lparr>tk_dispatches := AList.delete k (tk_dispatches t), tk_exclusions := AList.delete k (tk_exclusions t)\<rparr>
     in case clearDagActorDispatchExclusion run_id nodeId db of
          Inl e \<Rightarrow> ((t', db), Inl e)
        | Inr (db', _) \<Rightarrow> ((t', db'), Inr ()))"

definition clearByTargetId :: "string \<Rightarrow> tracker \<Rightarrow> tracker" where
  "clearByTargetId targetId t =
     t\<lparr>tk_dispatches := filter (\<lambda>(_, d). \<not> (targetId \<noteq> [] \<and> dt_id d = Some targetId)) (tk_dispatches t)\<rparr>"

definition clearAllDispatches :: "tracker \<Rightarrow> tracker" where
  "clearAllDispatches t = \<lparr>tk_dispatches = [], tk_exclusions = []\<rparr>"

end
