(* ===== verification/Live_Delivery.thy ===== *)
theory Live_Delivery
  imports Transport_Fence Dispatch_Tracker
begin

text \<open>
  \<open>runtime/dag-actor-live-command-runtime.ts\<close>: sending live commands to the worker that a node runs on, and
  taking its status reports. It joins the runs in memory, the dispatch tracker, the connected peers, the
  stores of actors, leases and live commands, and the transport fence. Each operation runs several
  transactions, so it returns the store in every case; an error of this module is the code of its error
  class. Parameters of the model, in \<open>world\<close>: the session of a node (\<open>getCurrentNodeSession\<close>, which may open
  one), the state token of an actor (\<open>getDagActorControlState\<close>), the socket of a worker, and the message
  that the schema validator gives for an invalid document. Events are not modelled: no listener can fail
  an operation. The schemas are those of \<open>atms_protocol/src/schemas.ts\<close>.
\<close>

record peer =
  pe_open :: bool
  pe_capabilities :: "string list"

record ('v, 'd) world =
  wd_runs :: "'v active_runs"
  wd_tracker :: tracker
  wd_workers :: "(string, peer) jsmap"
  wd_nodes :: "(string, peer) jsmap"
  wd_session :: "string \<Rightarrow> string \<Rightarrow> ('d, live_conflict err, string option) eff"
  wd_token :: "string \<Rightarrow> string \<Rightarrow> 'd \<Rightarrow> live_conflict err + string"
  wd_write :: "string \<Rightarrow> js \<Rightarrow> string option"
  wd_schema_error :: "js \<Rightarrow> string"

text \<open>An error of another module keeps its label.\<close>

fun plain_error :: "'a err \<Rightarrow> 'b err" where
  "plain_error (Conflict c) = Invalid ''conflict''"
| "plain_error (Invalid s) = Invalid s"
| "plain_error SqlConstraint = SqlConstraint"

definition plain :: "'a err + 'b \<Rightarrow> 'c err + 'b" where
  "plain r = (case r of Inl e \<Rightarrow> Inl (plain_error e) | Inr b \<Rightarrow> Inr b)"

section \<open>The protocol\<close>

definition LIVE_CAPABILITY :: string where
  "LIVE_CAPABILITY = ''dag-actor-live-command-v1''"

definition schema_text :: "nat \<Rightarrow> js \<Rightarrow> bool" where
  "schema_text n v = (case v of JStr s \<Rightarrow> 1 \<le> length s \<and> length s \<le> n | _ \<Rightarrow> False)"

definition schema_count :: "js \<Rightarrow> bool" where
  "schema_count v = (case v of JNum n \<Rightarrow> num_is_integer n \<and> 1 \<le> num_int n \<and> num_int n \<le> max_safe_integer | _ \<Rightarrow> False)"

definition identity_keys :: "string list" where
  "identity_keys = [''schema_version'', ''command_id'', ''sequence'', ''run_id'', ''node_id'', ''session_id'', ''round_id'',
     ''actor_id'', ''generation'', ''lease_generation'', ''expected_state_token'']"

definition identity_valid :: "(string \<times> js) list \<Rightarrow> bool" where
  "identity_valid d \<longleftrightarrow>
     obj_get d ''schema_version'' = js_int 1
     \<and> list_all (\<lambda>k. schema_text 256 (obj_get d k)) [''command_id'', ''run_id'', ''node_id'', ''round_id'', ''actor_id'']
     \<and> schema_text 512 (obj_get d ''session_id'')
     \<and> list_all (\<lambda>k. schema_count (obj_get d k)) [''sequence'', ''generation'', ''lease_generation'']
     \<and> (case obj_get d ''expected_state_token'' of JStr s \<Rightarrow> hex_digest s | _ \<Rightarrow> False)"

definition only_keys :: "string list \<Rightarrow> (string \<times> js) list \<Rightarrow> bool" where
  "only_keys ks d \<longleftrightarrow> list_all (\<lambda>k. k \<in> set ks) (map fst d)"

definition message_data :: "string \<Rightarrow> js \<Rightarrow> (string \<times> js) list option" where
  "message_data tag v =
     (case v of JObj m \<Rightarrow>
        (case obj_get m ''data'' of
           JObj d \<Rightarrow> if obj_get m ''type'' = JStr tag \<and> only_keys [''type'', ''data''] m then Some d else None
         | _ \<Rightarrow> None)
      | _ \<Rightarrow> None)"

definition validLiveCommand :: "js \<Rightarrow> bool" where
  "validLiveCommand v =
     (case message_data ''dag_actor_command'' v of
        None \<Rightarrow> False
      | Some d \<Rightarrow> identity_valid d \<and> schema_text 256 (obj_get d ''idempotency_key'') \<and> obj_get d ''payload'' \<noteq> JUndef
          \<and> only_keys (identity_keys @ [''idempotency_key'', ''payload'']) d)"

definition WORKER_STATUSES :: "string list" where
  "WORKER_STATUSES = [''accepted'', ''applied'', ''completed'', ''unsupported'', ''rejected'', ''failed'']"

definition validLiveStatus :: "js \<Rightarrow> bool" where
  "validLiveStatus v =
     (case message_data ''dag_actor_command_status'' v of
        None \<Rightarrow> False
      | Some d \<Rightarrow> identity_valid d \<and> (case obj_get d ''status'' of JStr s \<Rightarrow> s \<in> set WORKER_STATUSES | _ \<Rightarrow> False)
          \<and> (case obj_get d ''reason'' of JUndef \<Rightarrow> True | JStr s \<Rightarrow> length s \<le> 4096 | _ \<Rightarrow> False)
          \<and> only_keys (identity_keys @ [''status'', ''reason'']) d)"

definition live_message :: "live_command \<Rightarrow> js" where
  "live_message c = (let r = lr_row c in JObj [(''type'', JStr ''dag_actor_command''), (''data'', JObj
     [(''schema_version'', js_int 1), (''command_id'', JStr (lv_command_id r)), (''idempotency_key'', JStr (lv_idempotency_key r)),
      (''sequence'', js_int (lv_sequence r)), (''run_id'', JStr (lv_run_id r)), (''node_id'', JStr (lv_node_id r)),
      (''session_id'', JStr (lv_session_id r)), (''round_id'', JStr (lv_round_id r)), (''actor_id'', JStr (lv_actor_id r)),
      (''generation'', js_int (lv_target_generation r)), (''lease_generation'', js_int (lv_lease_generation r)),
      (''expected_state_token'', JStr (lv_state_token r)), (''payload'', lr_payload c)])])"

section \<open>Sending one command\<close>

record attempt_result =
  at_command :: live_command
  at_message :: "(string \<times> js) option" \<comment> \<open>the worker and the message, if one was sent\<close>

definition unsent :: "live_command \<Rightarrow> attempt_result" where
  "unsent c = \<lparr>at_command = c, at_message = None\<rparr>"

definition fallback :: "js_env \<Rightarrow> int \<Rightarrow> string \<Rightarrow> string \<Rightarrow> (('m) live_db_scheme, live_conflict err, live_command) eff" where
  "fallback env now commandId reason =
     catchS (thenS (transactS (markDagActorLiveCommandFallback env now commandId reason)) (\<lambda>m. retS (lm_command m)))
       (\<lambda>_. readS (\<lambda>db. requireLiveCommand env db commandId))"

text \<open>The peer that the node of a command was dispatched to.\<close>

definition targetSocket :: "('v, 'd) world \<Rightarrow> live_row \<Rightarrow> (string \<times> string \<times> peer) option" where
  "targetSocket w r =
     (case Option.bind (findDispatchTarget (lv_run_id r) (lv_node_id r) (wd_tracker w)) dispatched_to of
        None \<Rightarrow> None
      | Some (ty, i) \<Rightarrow> map_option (\<lambda>p. (ty, i, p)) (map_of (if ty = ''worker'' then wd_workers w else wd_nodes w) i))"

definition linked :: "live_row \<Rightarrow> command_row option \<Rightarrow> bool" where
  "linked r c = (case c of None \<Rightarrow> False
     | Some x \<Rightarrow> cm_run_id x = lv_run_id r \<and> cm_actor_id x = lv_actor_id r \<and> cm_target_generation x = lv_target_generation r)"

definition live_move :: "js_env \<Rightarrow> int \<Rightarrow> string \<Rightarrow> live_status \<Rightarrow> string option
    \<Rightarrow> (('m) live_db_scheme, live_conflict err, live_command) eff" where
  "live_move env now commandId status reason =
     thenS (transactS (transitionDagActorLiveCommand env now
       \<lparr>tl_command_id = commandId, tl_status = status, tl_reason = reason, tl_transitioned_at = None\<rparr>)) (\<lambda>m. retS (lm_command m))"

text \<open>A command that a later round took over follows that round's command.\<close>

definition followRoundCommand :: "js_env \<Rightarrow> int \<Rightarrow> string \<Rightarrow> command_row
    \<Rightarrow> (('m) live_db_scheme, live_conflict err, attempt_result) eff" where
  "followRoundCommand env now commandId c =
     thenS (case cm_status c of
        Acknowledged \<Rightarrow> live_move env now commandId Lv_completed None
      | Failed \<Rightarrow> live_move env now commandId Lv_failed (Some ''linked round command failed'')
      | Cancelled \<Rightarrow> live_move env now commandId Lv_cancelled (Some ''linked round command cancelled'')
      | _ \<Rightarrow> fallback env now commandId (''consumed by durable round '' @ cm_round_id c)) (\<lambda>x. retS (unsent x))"

definition lease_target_type :: "lease_row \<Rightarrow> string option" where
  "lease_target_type l = (if lr_target_type l = Some ''provisioned_worker'' then Some ''worker'' else lr_target_type l)"

text \<open>The end of \<open>trySendDagActorLiveCommand\<close>: the attempt is recorded before the write.\<close>

definition sendLiveMessage :: "js_env \<Rightarrow> (nat \<Rightarrow> int) \<Rightarrow> ('v, ('m) live_db_scheme) world \<Rightarrow> string \<Rightarrow> string \<Rightarrow> string \<Rightarrow> int \<Rightarrow> string
    \<Rightarrow> (('m) live_db_scheme, live_conflict err, attempt_result) eff" where
  "sendLiveMessage env clock w commandId sessionId roundId leaseGeneration targetId =
     thenS (transactS (recordDagActorLiveCommandSendAttempt env (clock 0)
       \<lparr>sa_command_id = commandId, sa_session_id = sessionId, sa_round_id = roundId,
        sa_lease_generation = num_of_int leaseGeneration, sa_sent_at = None\<rparr>)) (\<lambda>attempted.
     let message = live_message (lm_command attempted)
     in if \<not> validLiveCommand message
        then thenS (fallback env (clock 1) commandId (''persisted live command failed protocol validation: '' @ wd_schema_error w message))
               (\<lambda>x. retS (unsent x))
        else case wd_write w targetId message of
            None \<Rightarrow> thenS (readS (\<lambda>db. requireLiveCommand env db commandId))
                      (\<lambda>x. retS \<lparr>at_command = x, at_message = Some (targetId, message)\<rparr>)
          | Some e \<Rightarrow> thenS (fallback env (clock 1) commandId (''live command socket write failed: '' @ e)) (\<lambda>x. retS (unsent x)))"

definition trySendDagActorLiveCommand :: "js_env \<Rightarrow> (nat \<Rightarrow> int) \<Rightarrow> ('v, ('m) live_db_scheme) world \<Rightarrow> string
    \<Rightarrow> (('m) live_db_scheme, live_conflict err, attempt_result) eff" where
  "trySendDagActorLiveCommand env clock w rawCommandId =
     thenS (readS (getDagActorLiveCommand env rawCommandId)) (\<lambda>found. case found of
       None \<Rightarrow> raiseS (Invalid ''unknown live command'')
     | Some command \<Rightarrow>
       let r = lr_row command;
           later = (\<lambda>reason. thenS (fallback env (clock 0) (lv_command_id r) reason) (\<lambda>x. retS (unsent x)))
       in if lv_status r \<noteq> Lv_queued then retS (unsent command)
       else thenS (readS (\<lambda>db. getDagActorCommand env db (lv_command_id r))) (\<lambda>round.
       if linked r round then followRoundCommand env (clock 0) (lv_command_id r) (the round)
       else case map_of (wd_runs w) (lv_run_id r) of
         None \<Rightarrow> later ''run is not actively dispatching''
       | Some run \<Rightarrow>
         if ru_status run \<noteq> Run_active then later ''run is not actively dispatching''
         else thenS (readS (\<lambda>db. getDagActor env db (lv_run_id r) (lv_actor_id r))) (\<lambda>actor.
         if (case actor of None \<Rightarrow> True | Some a \<Rightarrow> ac_node_id a \<noteq> lv_node_id r \<or> ac_generation a \<noteq> lv_target_generation r)
         then thenS (live_move env (clock 0) (lv_command_id r) Lv_superseded
                (Some ''actor generation or ownership changed before live delivery'')) (\<lambda>x. retS (unsent x))
         else if map_of (nodeStates (ru_dag run)) (lv_node_id r) \<noteq> Some RUNNING then later ''actor is dormant until the next command boundary''
         else case targetSocket w r of
           None \<Rightarrow> later ''current dispatch target is unavailable''
         | Some (ty, i, p) \<Rightarrow>
           if \<not> pe_open p then later ''current dispatch target is unavailable''
           else if ty \<noteq> ''worker'' then later ''direct Node dispatch has no verified Worker live-command forwarding adapter''
           else if LIVE_CAPABILITY \<notin> set (pe_capabilities p) then later ''current dispatch target does not support live commands''
           else thenS (readS (\<lambda>db. plain (getDagActorLease (lv_run_id r) (lv_actor_id r) db))) (\<lambda>lease.
           case lease of
             None \<Rightarrow> later ''actor lease does not match the current dispatch target''
           | Some l \<Rightarrow>
             if lr_state l \<noteq> Leased \<or> lease_target_type l \<noteq> Some ty \<or> lr_target_id l \<noteq> Some i \<or> lr_generation l < 1
             then later ''actor lease does not match the current dispatch target''
             else thenS (wd_session w (lv_run_id r) (lv_node_id r)) (\<lambda>session.
             case session of
               None \<Rightarrow> later ''actor has no current dispatch session''
             | Some s \<Rightarrow> if s = [] then later ''actor has no current dispatch session''
                 else sendLiveMessage env clock w (lv_command_id r) s (ru_round_id run) (lr_generation l) i)))))"

section \<open>Sending a batch\<close>

record send_request_item =
  rq_actor_id :: "string option"
  rq_payload :: js
  rq_key :: "string option"
  rq_token :: "string option"

record send_request =
  sr_expected_round :: "string option"
  sr_commands :: "send_request_item list"

record send_result =
  se_round_id :: string
  se_commands :: "live_command list"
  se_sent :: nat
  se_fallback_pending :: nat
  se_deduplicated :: bool
  se_messages :: "(string \<times> js) list" \<comment> \<open>the writes, in order\<close>

definition trimmed_text :: "string option \<Rightarrow> string" where
  "trimmed_text v = (case v of None \<Rightarrow> [] | Some s \<Rightarrow> js_trim s)"

definition requestInput :: "js_env \<Rightarrow> string \<Rightarrow> string \<Rightarrow> send_request_item \<Rightarrow> ('m) live_db_scheme \<Rightarrow> live_conflict err + live_input" where
  "requestInput env run_id roundId item db =
     bindE (if trimmed_text (rq_actor_id item) = [] then Inr None else getDagActor env db run_id (trimmed_text (rq_actor_id item))) (\<lambda>found.
     case found of
       None \<Rightarrow> Inl (Invalid ''actor_not_found'')
     | Some actor \<Rightarrow>
         throwIf (trimmed_text (rq_key item) = []) (Invalid ''idempotency_key_required'')
         (throwIf (trimmed_text (rq_token item) = []) (Invalid ''state_token_required'')
         (bindE (plain (getDagActorLease run_id (ac_actor_id actor) db)) (\<lambda>lease.
          Inr \<lparr>lc_run_id = run_id, lc_actor_id = ac_actor_id actor, lc_node_id = ac_node_id actor,
               lc_session_id = (case ac_session_id actor of None \<Rightarrow> ''unbound'' | Some s \<Rightarrow> s),
               lc_round_id = roundId, lc_target_generation = num_of_int (ac_generation actor),
               lc_lease_generation = num_of_int (case lease of None \<Rightarrow> 0 | Some l \<Rightarrow> lr_generation l),
               lc_state_token = trimmed_text (rq_token item), lc_idempotency_key = trimmed_text (rq_key item), lc_payload = rq_payload item\<rparr>))))"

text \<open>The check of each new command; the token is compared with the actor's current one.\<close>

definition validateNew :: "('v, ('m) live_db_scheme) world \<Rightarrow> string \<Rightarrow> 'v active_run \<Rightarrow> ('m) live_db_scheme \<Rightarrow> new_live \<Rightarrow> live_conflict err option" where
  "validateNew w run_id run db input =
     (case map_of (wd_runs w) run_id of
        None \<Rightarrow> Some (Invalid ''run_not_active'')
      | Some currentRun \<Rightarrow>
          if ru_status currentRun \<noteq> Run_active then Some (Invalid ''run_not_active'')
          else if ru_round_id currentRun \<noteq> ru_round_id run then Some (Invalid ''expected_round_conflict'')
          else (case wd_token w run_id (nl_actor_id input) db of
             Inl e \<Rightarrow> Some e
           | Inr token \<Rightarrow> if token \<noteq> nl_state_token input then Some (Invalid ''state_token_conflict'') else None))"

definition sendDagActorLiveCommands :: "js_env \<Rightarrow> (new_live \<Rightarrow> int) \<Rightarrow> (string \<Rightarrow> nat \<Rightarrow> int) \<Rightarrow> ('v, ('m) live_db_scheme) world \<Rightarrow> string \<Rightarrow> send_request
    \<Rightarrow> (('m) live_db_scheme, live_conflict err, send_result) eff" where
  "sendDagActorLiveCommands env created clock w run_id request =
     (case map_of (wd_runs w) run_id of
        None \<Rightarrow> raiseS (Invalid ''run_not_active'')
      | Some run \<Rightarrow>
          if ru_status run \<noteq> Run_active then raiseS (Invalid ''run_not_active'')
          else if length (sr_commands request) < 1 \<or> 128 < length (sr_commands request) then raiseS (Invalid ''commands'')
          else if trimmed_text (sr_expected_round request) \<noteq> [] \<and> trimmed_text (sr_expected_round request) \<noteq> ru_round_id run
          then raiseS (Invalid ''expected_round_conflict'')
          else thenS (readS (\<lambda>db. mapE (\<lambda>item. requestInput env run_id (ru_round_id run) item db) (sr_commands request))) (\<lambda>inputs.
          if \<not> distinct (map lc_actor_id inputs) then raiseS (Invalid ''commands'')
          else thenS (transactS (createDagActorLiveCommandBatch env (validateNew w run_id run) created inputs)) (\<lambda>persisted.
          thenS (eachS (\<lambda>m. let k = lv_command_id (lr_row (lm_command m)) in trySendDagActorLiveCommand env (clock k) w k) persisted) (\<lambda>attempts.
          let commands = map at_command attempts
          in retS \<lparr>se_round_id = ru_round_id run, se_commands = commands,
               se_sent = length (filter (\<lambda>a. at_message a \<noteq> None) attempts),
               se_fallback_pending = length (filter (\<lambda>c. lv_status (lr_row c) = Lv_queued
                  \<and> lr_fallback_reason c \<noteq> None \<and> lr_fallback_reason c \<noteq> Some []) commands),
               se_deduplicated = list_all lm_deduplicated persisted,
               se_messages = List.map_filter at_message attempts\<rparr>))))"

section \<open>Status reports\<close>

datatype status_result =
    Advanced live_command
  | Fallback_queued live_command
  | Status_ignored disposition string
  | Status_malformed

definition text_of :: "(string \<times> js) list \<Rightarrow> string \<Rightarrow> string" where
  "text_of d k = (case obj_get d k of JStr s \<Rightarrow> s | _ \<Rightarrow> [])"

definition int_of :: "(string \<times> js) list \<Rightarrow> string \<Rightarrow> int" where
  "int_of d k = (case obj_get d k of JNum n \<Rightarrow> num_int n | _ \<Rightarrow> 0)"

definition fence_payload :: "(string \<times> js) list \<Rightarrow> js" where
  "fence_payload d = JObj
     [(''runId'', obj_get d ''run_id''), (''nodeId'', obj_get d ''node_id''), (''round_id'', obj_get d ''round_id''),
      (''actor_id'', obj_get d ''actor_id''), (''generation'', obj_get d ''generation''),
      (''lease_generation'', obj_get d ''lease_generation''), (''command_id'', obj_get d ''command_id'')]"

definition status_fenced :: "transport_source \<Rightarrow> (string \<times> js) list \<Rightarrow> 'v active_run option \<Rightarrow> actor_row option \<Rightarrow> lease_row option
    \<Rightarrow> string option \<Rightarrow> bool" where
  "status_fenced source d run actor lease session \<longleftrightarrow>
     (case (run, actor, lease) of
        (Some ru, Some a, Some l) \<Rightarrow>
          ru_status ru = Run_active \<and> ru_round_id ru = text_of d ''round_id''
          \<and> ac_node_id a = text_of d ''node_id'' \<and> ac_generation a = int_of d ''generation''
          \<and> session = Some (text_of d ''session_id'')
          \<and> lr_state l = Leased \<and> lr_generation l = int_of d ''lease_generation''
          \<and> lease_target_type l = Some (ts_target_type source) \<and> lr_target_id l = Some (ts_target_id source)
      | _ \<Rightarrow> False)"

definition status_echoes :: "(string \<times> js) list \<Rightarrow> live_row \<Rightarrow> bool" where
  "status_echoes d r \<longleftrightarrow>
     lv_run_id r = text_of d ''run_id'' \<and> lv_actor_id r = text_of d ''actor_id'' \<and> lv_node_id r = text_of d ''node_id''
     \<and> lv_session_id r = text_of d ''session_id'' \<and> lv_round_id r = text_of d ''round_id''
     \<and> lv_target_generation r = int_of d ''generation'' \<and> lv_lease_generation r = int_of d ''lease_generation''
     \<and> lv_sequence r = int_of d ''sequence'' \<and> lv_state_token r = text_of d ''expected_state_token''"

fun reported_status :: "string \<Rightarrow> live_status" where
  "reported_status s =
     (if s = ''accepted'' then Lv_delivered else if s = ''applied'' then Lv_applied
      else if s = ''completed'' then Lv_completed else if s = ''rejected'' then Lv_rejected else Lv_failed)"

text \<open>What a report that passes every check does.\<close>

definition applyLiveStatus :: "js_env \<Rightarrow> int \<Rightarrow> (string \<times> js) list \<Rightarrow> live_row \<Rightarrow> (('m) live_db_scheme, live_conflict err, status_result) eff" where
  "applyLiveStatus env now d r =
     (let k = lv_command_id r; reason = (case obj_get d ''reason'' of JStr s \<Rightarrow> Some s | _ \<Rightarrow> None)
      in if text_of d ''status'' = ''unsupported''
         then if lv_status r \<noteq> Lv_queued then retS (Status_ignored Invalid_message ''unsupported status'')
              else thenS (transactS (markDagActorLiveCommandFallback env now k
                     (if reason = None \<or> reason = Some [] then ''dispatch target reported live commands unsupported'' else the reason)))
                   (\<lambda>m. retS (Fallback_queued (lm_command m)))
         else catchS (thenS (live_move env now k (reported_status (text_of d ''status'')) reason) (\<lambda>c. retS (Advanced c)))
                (\<lambda>_. retS (Status_ignored Duplicate ''live command status'')))"

definition handleDagActorLiveCommandStatus :: "js_env \<Rightarrow> (string \<Rightarrow> string option) \<Rightarrow> (nat \<Rightarrow> int) \<Rightarrow> ('v, ('m) live_db_scheme) world
    \<Rightarrow> transport_source \<Rightarrow> js \<Rightarrow> (('m) live_db_scheme, live_conflict err, status_result) eff" where
  "handleDagActorLiveCommandStatus env penv clock w source message =
     (if \<not> validLiveStatus message then retS Status_malformed
      else let d = the (message_data ''dag_actor_command_status'' message)
      in thenS (catchS (thenS (readS (getDagActorLiveCommand env (text_of d ''command_id''))) (\<lambda>c. retS (Inr c))) (\<lambda>_. retS (Inl ()))) (\<lambda>read.
      case read of
        Inl _ \<Rightarrow> retS (Status_ignored Invalid_message ''Live command identity is invalid'')
      | Inr None \<Rightarrow> retS (Status_ignored Invalid_message ''Unknown live command'')
      | Inr (Some command) \<Rightarrow>
          thenS (\<lambda>db. let (db', r) = assessDagTransportFence env penv clock (wd_runs w) (fence_payload d) source True db in (db', plain r)) (\<lambda>assessment.
          case assessment of
            Fence_malformed _ \<Rightarrow> retS Status_malformed
          | Fence_unknown_run \<Rightarrow> retS (Status_ignored Stale ''Unknown run'')
          | Fence_ignored disposition reason \<Rightarrow> retS (Status_ignored disposition reason)
          | Fence_current _ \<Rightarrow>
              if \<not> isCurrentDispatchTarget (text_of d ''run_id'') (text_of d ''node_id'') (ts_target_type source) (ts_target_id source) (wd_tracker w)
              then retS (Status_ignored Invalid_message ''status source is not the current dispatch target'')
              else thenS (readS (\<lambda>db. getDagActor env db (text_of d ''run_id'') (text_of d ''actor_id''))) (\<lambda>actor.
              thenS (readS (\<lambda>db. plain (getDagActorLease (text_of d ''run_id'') (text_of d ''actor_id'') db))) (\<lambda>lease.
              thenS (wd_session w (text_of d ''run_id'') (text_of d ''node_id'')) (\<lambda>session.
              if \<not> status_fenced source d (map_of (wd_runs w) (text_of d ''run_id'')) actor lease session
              then retS (Status_ignored Stale ''status no longer matches the current Actor dispatch fence'')
              else if \<not> status_echoes d (lr_row command)
              then retS (Status_ignored Invalid_message ''status does not echo the persisted command fence'')
              else applyLiveStatus env (clock 3) d (lr_row command)))))))"

section \<open>Recovery\<close>

record recovery_result =
  rc_sent :: "string list"
  rc_fallback_pending :: "string list"
  rc_skipped :: "string list"

definition recovery_nothing :: recovery_result where
  "recovery_nothing = \<lparr>rc_sent = [], rc_fallback_pending = [], rc_skipped = []\<rparr>"

definition recoverCommand :: "js_env \<Rightarrow> (string \<Rightarrow> nat \<Rightarrow> int) \<Rightarrow> ('v, ('m) live_db_scheme) world \<Rightarrow> live_command
    \<Rightarrow> (('m) live_db_scheme, live_conflict err, recovery_result) eff" where
  "recoverCommand env clock w c =
     (let k = lv_command_id (lr_row c); skipped = recovery_nothing\<lparr>rc_skipped := [k]\<rparr>
      in if lv_status (lr_row c) \<noteq> Lv_queued then retS recovery_nothing
         else catchS (thenS (trySendDagActorLiveCommand env (clock k) w k) (\<lambda>a.
           retS (if at_message a \<noteq> None then recovery_nothing\<lparr>rc_sent := [k]\<rparr>
                 else if lv_status (lr_row (at_command a)) = Lv_queued \<and> lr_fallback_reason (at_command a) \<noteq> None
                    \<and> lr_fallback_reason (at_command a) \<noteq> Some []
                 then recovery_nothing\<lparr>rc_fallback_pending := [k]\<rparr> else skipped))) (\<lambda>_. retS skipped))"

definition recoverDagActorLiveCommands :: "js_env \<Rightarrow> (string \<Rightarrow> nat \<Rightarrow> int) \<Rightarrow> ('v, ('m) live_db_scheme) world
    \<Rightarrow> (('m) live_db_scheme, live_conflict err, recovery_result) eff" where
  "recoverDagActorLiveCommands env clock w =
     thenS (eachS (\<lambda>(run_id, run).
       if ru_status run \<noteq> Run_active then retS []
       else thenS (readS (listOutstandingDagActorLiveCommands env run_id)) (\<lambda>cs. eachS (recoverCommand env clock w) cs)) (wd_runs w)) (\<lambda>rs.
     retS \<lparr>rc_sent = concat (map rc_sent (concat rs)), rc_fallback_pending = concat (map rc_fallback_pending (concat rs)),
           rc_skipped = concat (map rc_skipped (concat rs))\<rparr>)"

end
