(* ===== verification/Transport_Fence_Theorems.thy ===== *)
theory Transport_Fence_Theorems
  imports Transport_Fence Live_Commands_Theorems
begin

text \<open>
  The fence lets a message through exactly if it speaks for the node now, and never lets through a message
  of a generation, of the actor or of its lease, that has been superseded.
\<close>

section \<open>Who speaks for a node\<close>

definition fence_message :: "js \<Rightarrow> fence_data option" where
  "fence_message payload =
     (case payload of
        JObj obj \<Rightarrow>
          (case (str_field obj ''runId'', str_field obj ''nodeId'', transportMetadataError obj, str_field obj ''round_id'',
                 str_field obj ''actor_id'', num_field obj ''generation'') of
             (Some r, Some n, None, Some ro, Some a, Some g) \<Rightarrow>
               Some \<lparr>fd_run_id = r, fd_node_id = n, fd_round_id = ro, fd_actor_id = a, fd_generation = num_int g,
                 fd_lease_generation = num_int (the (num_field obj ''lease_generation'')), fd_command_id = str_field obj ''command_id''\<rparr>
           | _ \<Rightarrow> None)
      | _ \<Rightarrow> None)"

text \<open>The command that a message answers: of this actor, for this round and generation, and not acknowledged yet.\<close>

definition command_open :: "('m) live_db_scheme \<Rightarrow> fence_data \<Rightarrow> string \<Rightarrow> bool" where
  "command_open db d c \<longleftrightarrow> js_trim c \<noteq> [] \<and> length (js_trim c) \<le> 256 \<and> \<not> list_ex control_char (js_trim c)
     \<and> (case getCommandRow db c of
          Some r \<Rightarrow> cm_run_id r = fd_run_id d \<and> cm_actor_id r = fd_actor_id d \<and> cm_round_id r = fd_round_id d
            \<and> cm_target_generation r = fd_generation d \<and> cm_status r \<noteq> Acknowledged
        | None \<Rightarrow> (case getLiveRow db (js_trim c) of
            None \<Rightarrow> False
          | Some r \<Rightarrow> lv_run_id r = fd_run_id d \<and> lv_actor_id r = fd_actor_id d \<and> lv_round_id r = fd_round_id d
              \<and> lv_target_generation r = fd_generation d))"

definition lease_speaks :: "('m) live_db_scheme \<Rightarrow> int \<Rightarrow> transport_source \<Rightarrow> fence_data \<Rightarrow> bool" where
  "lease_speaks db now source d \<longleftrightarrow> (\<exists>l. getLeaseRow db (js_trim (fd_run_id d)) (js_trim (fd_actor_id d)) = Some l
     \<and> lr_state l = Leased \<and> lr_generation l = fd_lease_generation d
     \<and> lr_target_type l = Some (js_trim (ts_target_type source)) \<and> lr_target_id l = Some (js_trim (ts_target_id source))
     \<and> (lr_pinned l \<or> now < the (lr_idle_deadline l)))
     \<and> bounded_id 256 (js_trim (fd_run_id d)) \<and> bounded_id 256 (js_trim (fd_actor_id d))"

definition speaks_for :: "'v active_runs \<Rightarrow> ('m) live_db_scheme \<Rightarrow> int \<Rightarrow> transport_source \<Rightarrow> fence_data \<Rightarrow> bool" where
  "speaks_for runs db now source d \<longleftrightarrow>
     (\<exists>run a. map_of runs (fd_run_id d) = Some run \<and> ru_status run = Run_active \<and> ru_round_id run = fd_round_id d
        \<and> fd_node_id d \<notin> set (handoffedNodes (ru_dag run))
        \<and> getActorRow db (fd_run_id d) (fd_actor_id d) = Some a \<and> ac_node_id a = fd_node_id d \<and> ac_generation a = fd_generation d
        \<and> (1 < ru_ordinal run \<longrightarrow> fd_command_id d \<noteq> None))
     \<and> (\<forall>c. fd_command_id d = Some c \<longrightarrow> command_open db d c) \<and> lease_speaks db now source d"

section \<open>The parts of the fence\<close>

lemma fence_command_ignored:
  assumes "fence_command env rid actor ro c db = Inr (Some x)"
  shows "\<exists>disposition reason. x = Fence_ignored disposition reason"
proof -
  from assms obtain r where r: "getDagActorCommand env db c = (Inr r :: lease_conflict err + _)" by (auto simp: fence_command_def bindE_Inr)
  show ?thesis
  proof (cases "getDagActorLiveCommand env c db")
    case (Inr l)
    with assms r show ?thesis by (cases r; cases l) (auto simp: fence_command_def Let_def split: if_split_asm)
  qed (use assms r in \<open>auto simp: fence_command_def\<close>)
qed

lemma fence_identity_current:
  "fence_identity env obj rid nid run actor lg db = Inr (Fence_current d) \<longleftrightarrow>
     (\<exists>ro a g. str_field obj ''round_id'' = Some ro \<and> str_field obj ''actor_id'' = Some a \<and> num_field obj ''generation'' = Some g
        \<and> d = \<lparr>fd_run_id = rid, fd_node_id = nid, fd_round_id = ro, fd_actor_id = a, fd_generation = num_int g,
               fd_lease_generation = num_int lg, fd_command_id = str_field obj ''command_id''\<rparr>
        \<and> ro = ru_round_id run \<and> a = ac_actor_id actor \<and> num_int g = ac_generation actor
        \<and> nid \<notin> set (handoffedNodes (ru_dag run)) \<and> ru_status run = Run_active
        \<and> (1 < ru_ordinal run \<longrightarrow> fd_command_id d \<noteq> None)
        \<and> (\<forall>c. fd_command_id d = Some c \<longrightarrow> fence_command env rid actor (ru_round_id run) c db = Inr None))"
  (is "?l \<longleftrightarrow> ?r")
proof (cases "str_field obj ''round_id''")
  case None
  then show ?thesis by (simp add: fence_identity_def)
next
  case round: (Some ro)
  have wrong: "x \<noteq> Fence_current d" if "fence_command env rid actor ro c db = Inr (Some x)" for c x
    using fence_command_ignored [OF that] by auto
  show ?thesis
  proof (cases "ro = ru_round_id run")
    case True
    show ?thesis
    proof (cases "str_field obj ''command_id''")
      case None
      with round True show ?thesis
        by (cases "str_field obj ''actor_id''"; cases "num_field obj ''generation''") (auto simp: fence_identity_def Let_def)
    next
      case (Some c)
      show ?thesis
      proof (cases "fence_command env rid actor ro c db")
        case (Inr w)
        with round True Some wrong [of c] show ?thesis
          by (cases w; cases "str_field obj ''actor_id''"; cases "num_field obj ''generation''") (auto simp: fence_identity_def Let_def)
      qed (use round True Some in \<open>auto simp: fence_identity_def Let_def\<close>)
    qed
  qed (use round in \<open>auto simp: fence_identity_def Let_def\<close>)
qed

lemma actor_by_node:
  assumes "actor_inv env db"
  shows "getDagActorByNode env db run node = (Inr (Some a) :: 'c err + _) \<longleftrightarrow> getActorRow db run (ac_actor_id a) = Some a \<and> ac_node_id a = node"
proof
  let ?P = "\<lambda>r. ac_run_id r = run \<and> ac_node_id r = node"
  assume "getDagActorByNode env db run node = (Inr (Some a) :: 'c err + _)"
  then have "find ?P (db_actors db) = Some a" by (auto simp: getDagActorByNode_def optE_Inr actorFromRow_Inr)
  then have a: "a \<in> set (db_actors db)" "ac_run_id a = run" "ac_node_id a = node" using find_SomeD by fastforce+
  show "getActorRow db run (ac_actor_id a) = Some a \<and> ac_node_id a = node"
  proof (cases "getActorRow db run (ac_actor_id a)")
    case None
    with a find_NoneD [of _ "db_actors db" a] show ?thesis by (auto simp: getActorRow_def)
  next
    case (Some b)
    from getActorRow_key [OF Some] a assms have "b = a"
      using unique_on_eq [of "\<lambda>_. True" actor_key "db_actors db" b a] by (auto simp: actor_inv_def actors_ok_def actor_key_def)
    with Some a(3) show ?thesis by simp
  qed
next
  let ?P = "\<lambda>r. ac_run_id r = run \<and> ac_node_id r = node"
  assume r: "getActorRow db run (ac_actor_id a) = Some a \<and> ac_node_id a = node"
  with getActorRow_key [of db run "ac_actor_id a" a] have a: "a \<in> set (db_actors db)" "ac_run_id a = run" "ac_node_id a = node" by auto
  have "find ?P (db_actors db) = Some a"
  proof (cases "find ?P (db_actors db)")
    case None
    with a find_NoneD [of _ "db_actors db" a] show ?thesis by auto
  next
    case (Some b)
    from find_SomeD [OF Some] a assms have "b = a"
      using unique_on_eq [of "\<lambda>_. True" "\<lambda>r. (ac_run_id r, ac_node_id r)" "db_actors db" b a] by (auto simp: actor_inv_def actors_ok_def)
    with Some show ?thesis by simp
  qed
  moreover have "actor_parses env a" using a(1) assms by (simp add: actor_inv_def)
  ultimately show "getDagActorByNode env db run node = (Inr (Some a) :: 'c err + _)"
    by (simp add: getDagActorByNode_def optE_Inr actorFromRow_Inr)
qed

lemma fence_command_open:
  assumes inv: "live_inv env db" and parse: "\<And>r. env_json_parse env (reason_json r) \<noteq> None"
    and d: "fd_run_id d = rid" "fd_actor_id d = ac_actor_id actor" "fd_round_id d = ro" "fd_generation d = ac_generation actor"
  shows "fence_command env rid actor ro c db = Inr None \<longleftrightarrow> command_open db d c"
proof -
  have "actor_inv env db" using inv by (simp add: live_inv_def lease_store_inv_def)
  then have round: "getDagActorCommand env db c = (Inr (getCommandRow db c) :: lease_conflict err + _)"
    by (cases "getCommandRow db c") (auto simp: getDagActorCommand_def optE_Inr commandFromRow_Inr actor_inv_def getCommandRow_def dest!: find_SomeD)
  have live: "(\<exists>l. getDagActorLiveCommand env c db = Inr l \<and> map_option lr_row l = r)
      \<longleftrightarrow> js_trim c \<noteq> [] \<and> length (js_trim c) \<le> 256 \<and> \<not> list_ex control_char (js_trim c) \<and> getLiveRow db (js_trim c) = r" for r
  proof (cases "getLiveRow db (js_trim c)")
    case (Some x)
    then have "live_readable env x" using inv getLiveRow_key [OF Some] by (simp add: live_inv_def)
    from readable_command [OF parse this] Some show ?thesis
      by (auto simp: getDagActorLiveCommand_def bindE_Inr assertPrintable_Inr optE_Inr dest: commandFromLiveRow_row)
  qed (auto simp: getDagActorLiveCommand_def bindE_Inr assertPrintable_Inr optE_Inr)
  show ?thesis
  proof (cases "getDagActorLiveCommand env c db")
    case (Inl e)
    with live show ?thesis by (auto simp: fence_command_def round command_open_def)
  next
    case (Inr l)
    with live [of "map_option lr_row l"] have l: "js_trim c \<noteq> []" "length (js_trim c) \<le> 256" "\<not> list_ex control_char (js_trim c)"
      "getLiveRow db (js_trim c) = map_option lr_row l" by auto
    with Inr d show ?thesis
      by (cases "getCommandRow db c"; cases l) (auto simp: fence_command_def round command_open_def Let_def)
  qed
qed

lemma fence_lease_result:
  assumes "fence_lease penv clock renew active rid aid g source db = (db', Inr (Current l))"
  shows "\<exists>k. assessDagActorLease (clock k) (fence_lease_input rid aid g source None) db' = Inr (Current l)"
  using assms by (auto simp: fence_lease_def Let_def split: sum.splits assessment.splits if_splits)

lemma fence_lease_step:
  assumes "fence_lease penv clock renew active rid aid g source db = (db', l)"
  shows "(lease_step env penv)\<^sup>*\<^sup>* db db'"
proof -
  have "lease_step env penv db x" if "acquireDagActorLease penv now i db = Inr (x, r)" for now i x r
    using that by (rule ls_acquire)
  with assms show ?thesis
    by (auto simp: fence_lease_def Let_def split: sum.splits assessment.splits if_splits)
qed

lemma fence_steps:
  assumes "assessDagTransportFence env penv clock runs payload source renew db = (db', r)"
  shows "(lease_step env penv)\<^sup>*\<^sup>* db db'"
  using assms unfolding assessDagTransportFence_def Let_def
  by (auto split: js.split_asm option.split_asm sum.split_asm prod.split_asm dest: fence_lease_step)

lemma fence_lease_still: "fence_lease penv clock False active rid aid g source db
    = (db, assessDagActorLease (clock 0) (fence_lease_input rid aid g source None) db)"
  by (auto simp: fence_lease_def Let_def split: sum.splits assessment.splits)

lemma fence_lease_fields [simp]:
  "lease_input.li_run_id (fence_lease_input rid aid g source v) = rid" "lease_input.li_actor_id (fence_lease_input rid aid g source v) = aid"
  "li_generation (fence_lease_input rid aid g source v) = g" "li_target_type (fence_lease_input rid aid g source v) = ts_target_type source"
  "li_target_id (fence_lease_input rid aid g source v) = ts_target_id source" "li_now (fence_lease_input rid aid g source v) = None"
  by (simp_all add: fence_lease_input_def lease_input.defs)

lemma fence_lease_speaks:
  assumes inv: "lease_inv db" and g: "positive_safe (Some g)" and now: "0 \<le> now" "now \<le> max_safe_integer"
    and d: "fd_run_id d = rid" "fd_actor_id d = aid" "fd_lease_generation d = num_int g"
  shows "(\<exists>l. assessDagActorLease now (fence_lease_input rid aid g source None) db = Inr (Current l)) \<longleftrightarrow> lease_speaks db now source d"
proof -
  from g obtain i where i: "g = num_of_int i" "1 \<le> i" "i \<le> max_safe_integer"
    by (auto simp: positive_safe_def is_safe_integer_def elim: num_is_integerE)
  have clock: "assertNow None now = (Inr n :: lease_conflict err + _) \<longleftrightarrow> n = now" for n using now by (auto simp: assertNow_def assertNonNegative_int)
  have bounds: "bounded_id 64 (js_trim (ts_target_type source)) \<and> bounded_id 512 (js_trim (ts_target_id source))"
    if "getLeaseRow db (js_trim rid) (js_trim aid) = Some l" "lr_state l = Leased"
      "lr_target_type l = Some (js_trim (ts_target_type source))" "lr_target_id l = Some (js_trim (ts_target_id source))" for l
    using getLeaseRow_valid [OF inv that(1)] that(2-4) by (auto simp: lease_valid_iff leased_fields_def)
  show ?thesis
    unfolding assess_current_iff [OF inv] lease_speaks_def d
    using bounds i by (auto simp: lease_current_def lease_args_def clock)
qed

lemma metadata_lease: "transportMetadataError obj = None \<Longrightarrow> \<exists>g. num_field obj ''lease_generation'' = Some g \<and> positive_safe (Some g)"
  by (cases "num_field obj ''lease_generation''") (auto simp: transportMetadataError_def positive_safe_def split: option.split_asm if_split_asm)

lemma assess_fence_current:
  "assessDagTransportFence env penv clock runs payload source renew db = (db', Inr (Fence_current d)) \<longleftrightarrow>
    (\<exists>obj r n run a g l. payload = JObj obj \<and> str_field obj ''runId'' = Some r \<and> str_field obj ''nodeId'' = Some n
       \<and> transportMetadataError obj = None \<and> map_of runs r = Some run
       \<and> getDagActorByNode env db r n = (Inr (Some a) :: lease_conflict err + _) \<and> num_field obj ''lease_generation'' = Some g
       \<and> fence_lease penv clock renew (ru_status run = Run_active) r (ac_actor_id a) g source db = (db', Inr (Current l))
       \<and> fence_identity env obj r n run a g db' = Inr (Fence_current d))" (is "?l \<longleftrightarrow> ?r")
proof
  assume l: ?l
  then obtain obj where obj: "payload = JObj obj" by (cases payload) (auto simp: assessDagTransportFence_def)
  with l obtain r where r: "str_field obj ''runId'' = Some r" by (cases "str_field obj ''runId''") (auto simp: assessDagTransportFence_def split: option.split_asm)
  with l obj obtain n where n: "str_field obj ''nodeId'' = Some n" by (cases "str_field obj ''nodeId''") (auto simp: assessDagTransportFence_def split: option.split_asm)
  with l obj r have m: "transportMetadataError obj = None" by (cases "transportMetadataError obj") (auto simp: assessDagTransportFence_def)
  with l obj r n obtain run where run: "map_of runs r = Some run" by (cases "map_of runs r") (auto simp: assessDagTransportFence_def)
  obtain a where a: "getDagActorByNode env db r n = (Inr (Some a) :: lease_conflict err + _)"
    using l obj r n m run by (auto simp: assessDagTransportFence_def split: sum.split_asm option.split_asm)
  from metadata_lease [OF m] obtain g where g: "num_field obj ''lease_generation'' = Some g" by blast
  obtain db1 x where x: "fence_lease penv clock renew (ru_status run = Run_active) r (ac_actor_id a) g source db = (db1, x)" by fastforce
  from l obj r n m run a g x have res: "db1 = db'" "bindE x (\<lambda>l. case l of Current _ \<Rightarrow> fence_identity env obj r n run a g db1
      | Target_mismatch _ \<Rightarrow> Inr (Fence_ignored Invalid_message ''DAG_TRANSPORT_LEASE_TARGET_MISMATCH'')
      | _ \<Rightarrow> Inr (Fence_ignored Stale ''DAG_TRANSPORT_LEASE'')) = Inr (Fence_current d)"
    by (auto simp: assessDagTransportFence_def)
  then obtain y where y: "x = Inr y" by (auto simp: bindE_Inr)
  with res obtain l where "x = Inr (Current l)" "fence_identity env obj r n run a g db1 = Inr (Fence_current d)" by (cases y) auto
  with obj r n m run a g x res(1) show ?r by blast
next
  assume ?r
  then show ?l by (auto simp: assessDagTransportFence_def)
qed

text \<open>The fence without renewal: it changes nothing, and accepts exactly the messages that speak for their node.\<close>

lemma fence_still:
  "assessDagTransportFence env penv clock runs payload source False db = (db', res) \<Longrightarrow> db' = db"
  by (auto simp: assessDagTransportFence_def fence_lease_still Let_def split: js.splits option.splits sum.splits)

lemma fence_accepts:
  assumes inv: "live_inv env db" and parse: "\<And>r. env_json_parse env (reason_json r) \<noteq> None" and now: "0 \<le> now" "now \<le> max_safe_integer"
    and m: "transportMetadataError obj = None" and g: "num_field obj ''lease_generation'' = Some g"
    and run: "map_of runs r = Some run" and n: "str_field obj ''nodeId'' = Some n" "str_field obj ''runId'' = Some r"
    and actor: "getActorRow db r (ac_actor_id a) = Some a" "ac_node_id a = n"
  shows "(\<exists>l. assessDagActorLease now (fence_lease_input r (ac_actor_id a) g source None) db = Inr (Current l))
      \<and> fence_identity env obj r n run a g db = Inr (Fence_current d)
    \<longleftrightarrow> fence_message (JObj obj) = Some d \<and> fd_actor_id d = ac_actor_id a \<and> speaks_for runs db now source d" (is "?l \<longleftrightarrow> ?r")
proof -
  have lease: "lease_inv db" using inv by (simp add: live_inv_def lease_store_inv_def)
  from metadata_lease [OF m] g have pos: "positive_safe (Some g)" by simp
  have msg: "fence_message (JObj obj) = Some d \<longleftrightarrow> (\<exists>ro aid gen. str_field obj ''round_id'' = Some ro \<and> str_field obj ''actor_id'' = Some aid
      \<and> num_field obj ''generation'' = Some gen \<and> d = \<lparr>fd_run_id = r, fd_node_id = n, fd_round_id = ro, fd_actor_id = aid,
          fd_generation = num_int gen, fd_lease_generation = num_int g, fd_command_id = str_field obj ''command_id''\<rparr>)"
    using m g n by (auto simp: fence_message_def split: option.splits)
  show ?thesis
  proof
    assume l: ?l
    then have id: "fence_identity env obj r n run a g db = Inr (Fence_current d)" by blast
    from id [unfolded fence_identity_current] have d: "fd_run_id d = r" "fd_actor_id d = ac_actor_id a" "fd_lease_generation d = num_int g"
      "fd_round_id d = ru_round_id run" "fd_generation d = ac_generation a" "fd_node_id d = n" by auto
    from l fence_lease_speaks [OF lease pos now d(1-3), of source] have "lease_speaks db now source d" by simp
    with id [unfolded fence_identity_current] d run actor msg fence_command_open [OF inv parse d(1,2,4,5)] show ?r
      by (auto simp: speaks_for_def)
  next
    assume rr: ?r
    with msg have d: "fd_run_id d = r" "fd_lease_generation d = num_int g" "fd_node_id d = n" and aid: "fd_actor_id d = ac_actor_id a" by auto
    with rr run actor have s: "ru_status run = Run_active" "fd_round_id d = ru_round_id run" "n \<notin> set (handoffedNodes (ru_dag run))"
      "fd_generation d = ac_generation a" "1 < ru_ordinal run \<longrightarrow> fd_command_id d \<noteq> None"
      "\<And>c. fd_command_id d = Some c \<Longrightarrow> command_open db d c" "lease_speaks db now source d"
      by (auto simp: speaks_for_def)
    from fence_lease_speaks [OF lease pos now d(1) aid d(2), of source] s(7)
    have lease_ok: "\<exists>l. assessDagActorLease now (fence_lease_input r (ac_actor_id a) g source None) db = Inr (Current l)" by simp
    from rr msg obtain ro b gen where f: "str_field obj ''round_id'' = Some ro" "str_field obj ''actor_id'' = Some b"
      "num_field obj ''generation'' = Some gen" and dd: "d = \<lparr>fd_run_id = r, fd_node_id = n, fd_round_id = ro, fd_actor_id = b,
          fd_generation = num_int gen, fd_lease_generation = num_int g, fd_command_id = str_field obj ''command_id''\<rparr>" by blast
    have "ro = ru_round_id run" "b = ac_actor_id a" "num_int gen = ac_generation a" using s(2,4) aid dd by simp_all
    moreover have "\<forall>c. fd_command_id d = Some c \<longrightarrow> fence_command env r a (ru_round_id run) c db = Inr None"
      using s(6) fence_command_open [OF inv parse d(1) aid s(2,4)] by blast
    ultimately have "fence_identity env obj r n run a g db = Inr (Fence_current d)"
      unfolding fence_identity_current using f dd s(1,3,5) by blast
    moreover note lease_ok
    ultimately show ?l by blast
  qed
qed

lemma fence_iff:
  assumes inv: "live_inv env db" and parse: "\<And>r. env_json_parse env (reason_json r) \<noteq> None"
    and now: "0 \<le> clock 0" "clock 0 \<le> max_safe_integer"
  shows "assessDagTransportFence env penv clock runs payload source False db = (db, Inr (Fence_current d)) \<longleftrightarrow>
    fence_message payload = Some d \<and> speaks_for runs db (clock 0) source d" (is "?l \<longleftrightarrow> ?r")
proof
  from inv have actors: "actor_inv env db" by (simp add: live_inv_def lease_store_inv_def)
  {
    assume ?l
    then obtain obj r n run a g l where f: "payload = JObj obj" "str_field obj ''runId'' = Some r" "str_field obj ''nodeId'' = Some n"
      "transportMetadataError obj = None" "map_of runs r = Some run" "getDagActorByNode env db r n = (Inr (Some a) :: lease_conflict err + _)"
      "num_field obj ''lease_generation'' = Some g" "assessDagActorLease (clock 0) (fence_lease_input r (ac_actor_id a) g source None) db = Inr (Current l)"
      "fence_identity env obj r n run a g db = Inr (Fence_current d)"
      unfolding assess_fence_current fence_lease_still by auto
    from f(6) have "getActorRow db r (ac_actor_id a) = Some a" "ac_node_id a = n" using actor_by_node [OF actors] by blast+
    from fence_accepts [OF inv parse now f(4,7,5,3,2) this, where d = d and source = source] f(1,8,9) show ?r by blast
  next
    assume r: ?r
    then obtain obj where obj: "payload = JObj obj" by (cases payload) (auto simp: fence_message_def)
    with r have m: "transportMetadataError obj = None" "str_field obj ''runId'' = Some (fd_run_id d)" "str_field obj ''nodeId'' = Some (fd_node_id d)"
      by (auto simp: fence_message_def split: option.split_asm)
    from metadata_lease [OF m(1)] obtain g where g: "num_field obj ''lease_generation'' = Some g" by blast
    from r obtain run a where run: "map_of runs (fd_run_id d) = Some run" and a: "getActorRow db (fd_run_id d) (fd_actor_id d) = Some a"
      "ac_node_id a = fd_node_id d" by (auto simp: speaks_for_def)
    then have aid: "ac_actor_id a = fd_actor_id d" by (auto dest: getActorRow_key)
    with a have row: "getActorRow db (fd_run_id d) (ac_actor_id a) = Some a" by simp
    from fence_accepts [OF inv parse now m(1) g run m(3,2) row a(2), where d = d and source = source] r obj aid
    have "\<exists>l. assessDagActorLease (clock 0) (fence_lease_input (fd_run_id d) (ac_actor_id a) g source None) db = Inr (Current l)"
      "fence_identity env obj (fd_run_id d) (fd_node_id d) run a g db = Inr (Fence_current d)" by auto
    moreover have "getDagActorByNode env db (fd_run_id d) (fd_node_id d) = (Inr (Some a) :: lease_conflict err + _)"
      using actor_by_node [OF actors] row a(2) by blast
    ultimately show ?l unfolding assess_fence_current using obj m g run by (auto simp: fence_lease_still)
  }
qed

section \<open>The actors and leases under all these operations\<close>

lemma live_effect_owner:
  assumes "live_effect env db db'"
  shows "getActorRow db run actor = Some a \<Longrightarrow> \<exists>a'. getActorRow db' run actor = Some a' \<and> actor_evolves a a'"
    and "getLeaseRow db run actor = Some l \<Longrightarrow> \<exists>l'. getLeaseRow db' run actor = Some l' \<and> lease_evolves l l'"
  using assms by (cases; auto simp: getActorRow_def getLeaseRow_def dest: lease_effect_actor [unfolded getActorRow_def] lease_effect_row [unfolded getLeaseRow_def])+

lemma live_effects_actor:
  "(live_effect env)\<^sup>*\<^sup>* db db' \<Longrightarrow> getActorRow db run actor = Some a \<Longrightarrow> \<exists>a'. getActorRow db' run actor = Some a' \<and> actor_evolves a a'"
  by (induction rule: rtranclp_induct) (use actor_evolves_refl in blast, meson live_effect_owner(1) actor_evolves_trans)

lemma live_effects_lease:
  "(live_effect env)\<^sup>*\<^sup>* db db' \<Longrightarrow> getLeaseRow db run actor = Some l \<Longrightarrow> \<exists>l'. getLeaseRow db' run actor = Some l' \<and> lease_evolves l l'"
  by (induction rule: rtranclp_induct) (use lease_evolves_refl in blast, meson live_effect_owner(2) lease_evolves_trans)

interpretation live_actors: row_system live_init "live_step env penv" "live_inv env"
    "\<lambda>db (run, actor). getActorRow db run actor" actor_evolves for env penv
  by unfold_locales (auto intro: actor_evolves_trans dest: live_effects_actor [OF live_step_effect])

interpretation live_leases: row_system live_init "live_step env penv" "live_inv env"
    "\<lambda>db (run, actor). getLeaseRow db run actor" lease_evolves for env penv
  by unfold_locales (auto intro: lease_evolves_trans dest: live_effects_lease [OF live_step_effect])

section \<open>Properties\<close>

text \<open>A run whose node \<open>n\<close> works under the lease of the demonstration, and one message of that worker.\<close>

definition fence_demo :: live_db where
  "fence_demo = live_demo1\<lparr>db_leases := [leased_row]\<rparr>"

definition fence_demo_runs :: "string active_runs" where
  "fence_demo_runs = [(''r'', \<lparr>ru_status = Run_active, ru_round_id = ''o'', ru_ordinal = 1,
     ru_dag = \<lparr>runId = ''r'', graph = \<lparr>nodes = [], edges = []\<rparr>, loopSources = [], nodeStates = [], handoffedNodes = [],
       afterSatisfied = [], inputSatisfied = [], mailboxes = []\<rparr>\<rparr>)]"

definition fence_demo_source :: transport_source where
  "fence_demo_source = \<lparr>ts_target_type = ''w'', ts_target_id = ''t''\<rparr>"

definition fence_demo_message :: "int \<Rightarrow> js" where
  "fence_demo_message g = JObj [(''runId'', JStr ''r''), (''nodeId'', JStr ''n''), (''round_id'', JStr ''o''), (''actor_id'', JStr ''a''),
     (''generation'', js_int g), (''lease_generation'', js_int 1)]"

definition fence_demo_data :: fence_data where
  "fence_demo_data = \<lparr>fd_run_id = ''r'', fd_node_id = ''n'', fd_round_id = ''o'', fd_actor_id = ''a'', fd_generation = 1,
     fd_lease_generation = 1, fd_command_id = None\<rparr>"

lemma fence_demo_reach: "reach live_init (live_step demo_env (\<lambda>_. None)) fence_demo"
proof -
  have "acquireDagActorLease (\<lambda>_. None) 0 lease_demo_in live_demo1 = Inr (fence_demo, leased_row)" by code_simp
  from lv_lease [OF ls_acquire [OF this]] live_demo_reach(1) show ?thesis by (blast intro: reach_step)
qed

text \<open>C25. Without renewal of expired leases, the fence accepts a message exactly if it is complete and speaks for its node now: its run
  is active and in the message's round, the node has not handed off, its actor has the message's generation, the sender holds the actor's
  lease in the message's lease generation and in time, and the command that the message answers is open for this actor, round and generation,
  and given if the round is not the first.\<close>

theorem fence_exact:
  assumes "reach live_init (live_step env penv) db" and parse: "\<And>r. env_json_parse env (reason_json r) \<noteq> None"
    and now: "0 \<le> clock 0" "clock 0 \<le> max_safe_integer"
  shows "assessDagTransportFence env penv clock runs payload source False db = (db, Inr (Fence_current d)) \<longleftrightarrow>
    fence_message payload = Some d \<and> speaks_for runs db (clock 0) source d"
  by (rule fence_iff [OF live_store.reach_inv [OF assms(1)] parse, where clock = clock, OF now])

theorem fence_exact_witness:
  "assessDagTransportFence demo_env (\<lambda>_. None) (\<lambda>_. 10) fence_demo_runs (fence_demo_message 1) fence_demo_source False fence_demo
    = (fence_demo, Inr (Fence_current fence_demo_data))"
proof -
  have "env_json_parse demo_env (reason_json q) \<noteq> None" for q by (simp add: demo_env_def)
  note exact = fence_exact [OF fence_demo_reach this, where clock = "\<lambda>_. 10" and runs = fence_demo_runs
      and payload = "fence_demo_message 1" and source = fence_demo_source and d = fence_demo_data]
  have "fence_message (fence_demo_message 1) = Some fence_demo_data" by code_simp
  moreover have "map_of fence_demo_runs ''r'' = Some (snd (hd fence_demo_runs))" "ru_status (snd (hd fence_demo_runs)) = Run_active"
    "ru_round_id (snd (hd fence_demo_runs)) = ''o''" "handoffedNodes (ru_dag (snd (hd fence_demo_runs))) = []" "ru_ordinal (snd (hd fence_demo_runs)) = 1"
    "getActorRow fence_demo ''r'' ''a'' = Some demo_row" "ac_node_id demo_row = ''n''" "ac_generation demo_row = 1"
    "getLeaseRow fence_demo ''r'' ''a'' = Some leased_row" "js_trim ''r'' = ''r''" "js_trim ''a'' = ''a''" "js_trim ''w'' = ''w''" "js_trim ''t'' = ''t''"
    by code_simp+
  then have "speaks_for fence_demo_runs fence_demo 10 fence_demo_source fence_demo_data"
    by (simp add: speaks_for_def lease_speaks_def fence_demo_data_def fence_demo_source_def leased_row_def bounded_id_def)
  ultimately show ?thesis using exact by (simp add: max_safe_integer_def)
qed

text \<open>C26. A message of a superseded generation is not accepted again, renewal or not, as long as the actor is not deleted: once the actor
  of a node has a generation, no message for that node with an earlier one gets through, whatever operations on actors, leases and commands have
  run since, and likewise for the generation of the actor's lease. Deletion, which is no \<open>live_step\<close>, starts both generations anew.\<close>

theorem superseded_never_accepted:
  assumes "reach live_init (live_step env penv) db" and steps: "(live_step env penv)\<^sup>*\<^sup>* db db'"
    and actor: "getActorRow db run aid = Some r" and lease: "getLeaseRow db (js_trim run) (js_trim aid) = Some l"
    and msg: "str_field obj ''runId'' = Some run" "str_field obj ''nodeId'' = Some (ac_node_id r)"
    and old: "(\<exists>g. num_field obj ''generation'' = Some g \<and> num_int g < ac_generation r)
      \<or> (\<exists>g. num_field obj ''lease_generation'' = Some g \<and> num_int g < lr_generation l)"
  shows "snd (assessDagTransportFence env penv clock runs (JObj obj) source renew db') \<noteq> Inr (Fence_current d)"
proof
  note inv = live_store.reach_inv [OF assms(1)]
  note inv' = live_store.steps_inv [OF steps inv]
  assume "snd (assessDagTransportFence env penv clock runs (JObj obj) source renew db') = Inr (Fence_current d)"
  then obtain db2 where "assessDagTransportFence env penv clock runs (JObj obj) source renew db' = (db2, Inr (Fence_current d))"
    by (metis prod.collapse)
  then obtain ru a g k where a: "getDagActorByNode env db' run (ac_node_id r) = (Inr (Some a) :: lease_conflict err + _)"
    and g: "num_field obj ''lease_generation'' = Some g" and "map_of runs run = Some ru"
    and lease2: "fence_lease penv clock renew (ru_status ru = Run_active) run (ac_actor_id a) g source db' = (db2, Inr (Current k))"
    and id: "fence_identity env obj run (ac_node_id r) ru a g db2 = Inr (Fence_current d)"
    unfolding assess_fence_current using msg by auto
  from live_actors.row_steps [OF steps inv, of "(run, aid)" r] actor
  obtain r' where r': "getActorRow db' run aid = Some r'" "actor_evolves r r'" by auto
  have "actor_inv env db'" using inv' by (simp add: live_inv_def lease_store_inv_def)
  from actor_by_node [OF this] a have row: "getActorRow db' run (ac_actor_id a) = Some a" "ac_node_id a = ac_node_id r" by blast+
  have "getDagActorByNode env db' run (ac_node_id r) = (Inr (Some r') :: lease_conflict err + _)"
    using actor_by_node [OF \<open>actor_inv env db'\<close>] r' getActorRow_key [OF r'(1)] by (auto simp: actor_evolves_def)
  with a have same: "a = r'" by simp
  then have gen: "ac_generation r \<le> ac_generation a" "ac_actor_id a = aid" using r' getActorRow_key [OF r'(1)] by (auto simp: actor_evolves_def)
  have far: "(live_step env penv)\<^sup>*\<^sup>* db db2" using steps lease_steps_live [OF fence_lease_step [OF lease2, of env]] by (rule rtranclp_trans)
  from live_leases.row_steps [OF far inv, of "(js_trim run, js_trim aid)" l] lease
  obtain l' where l': "getLeaseRow db2 (js_trim run) (js_trim aid) = Some l'" "lease_evolves l l'" by auto
  have "lease_inv db2" using live_store.steps_inv [OF far inv] by (simp add: live_inv_def lease_store_inv_def)
  from fence_lease_result [OF lease2] assess_current_iff [OF this] gen(2) l' have "num_int g = lr_generation l'"
    by (auto simp: lease_current_def)
  then have "lr_generation l \<le> num_int g" using l'(2) by (auto simp: lease_evolves_def)
  moreover from id have "\<exists>h. num_field obj ''generation'' = Some h \<and> num_int h = ac_generation a" by (auto simp: fence_identity_current)
  ultimately show False using old gen(1) g by auto
qed

theorem superseded_never_accepted_witness:
  "snd (assessDagTransportFence demo_env (\<lambda>_. None) (\<lambda>_. 10) fence_demo_runs (fence_demo_message 0) fence_demo_source True fence_demo)
    \<noteq> Inr (Fence_current fence_demo_data)"
proof -
  have "getActorRow fence_demo ''r'' ''a'' = Some demo_row" "getLeaseRow fence_demo (js_trim ''r'') (js_trim ''a'') = Some leased_row" by code_simp+
  note rows = this
  let ?obj = "[(''runId'', JStr ''r''), (''nodeId'', JStr ''n''), (''round_id'', JStr ''o''), (''actor_id'', JStr ''a''),
     (''generation'', js_int 0), (''lease_generation'', js_int 1)]"
  have "str_field ?obj ''runId'' = Some ''r''" "str_field ?obj ''nodeId'' = Some (ac_node_id demo_row)" by code_simp+
  moreover have "num_field ?obj ''generation'' = Some (num_of_int 0)" "ac_generation demo_row = 1" by code_simp+
  then have "(\<exists>g. num_field ?obj ''generation'' = Some g \<and> num_int g < ac_generation demo_row)
      \<or> (\<exists>g. num_field ?obj ''lease_generation'' = Some g \<and> num_int g < lr_generation leased_row)"
    using num_int_of_int(1) [of 0] by simp
  ultimately show ?thesis unfolding fence_demo_message_def
    by (rule superseded_never_accepted [OF fence_demo_reach rtranclp.rtrancl_refl rows])
qed

end
