(* ===== verification/Dispatch_Tracker_Theorems.thy ===== *)
theory Dispatch_Tracker_Theorems
  imports Dispatch_Tracker Machines
begin

text \<open>
  The tracker refines one machine for each node of each run: its maps are keyed by a text that tells the
  nodes of runs apart as long as no run identifier has a colon.
\<close>

section \<open>The abstract tracker\<close>

text \<open>What is known of one node: where it runs, and where it must not run next.\<close>

record node_dispatch =
  nd_target :: "(string \<times> string) option"
  nd_avoid :: "(string \<times> string) option"

datatype tracker_event =
    Ev_dispatched string string string string
  | Ev_provisioning string string
  | Ev_failed string string
  | Ev_restored string string string string
  | Ev_excluded string string
  | Ev_cleared string string
  | Ev_target_gone string
  | Ev_all_cleared

fun track :: "int \<Rightarrow> tracker_event \<Rightarrow> tracker \<times> ('m) intervention_db_scheme \<Rightarrow> tracker \<times> ('m) intervention_db_scheme" where
  "track now (Ev_dispatched r n ty i) (t, db) = fst (recordDispatch now r n ty i (t, db))"
| "track now (Ev_provisioning r n) (t, db) = (recordProvisioning now r n t, db)"
| "track now (Ev_failed r n) (t, db) = (recordDispatchFailed now r n t, db)"
| "track now (Ev_restored r n ty i) (t, db) = (restoreDispatchExclusion r n ty i t, db)"
| "track now (Ev_excluded r n) (t, db) = (fst (excludeCurrentDispatchTarget r n t), db)"
| "track now (Ev_cleared r n) (t, db) = fst (clearDispatchTarget r n (t, db))"
| "track now (Ev_target_gone i) (t, db) = (clearByTargetId i t, db)"
| "track now Ev_all_cleared (t, db) = (clearAllDispatches t, db)"

fun node_step :: "tracker_event \<Rightarrow> string \<times> string \<Rightarrow> node_dispatch \<Rightarrow> node_dispatch" where
  "node_step (Ev_dispatched r n ty i) k s = (if k = (r, n) then \<lparr>nd_target = Some (ty, i), nd_avoid = None\<rparr> else s)"
| "node_step (Ev_provisioning r n) k s = (if k = (r, n) then s\<lparr>nd_target := None\<rparr> else s)"
| "node_step (Ev_failed r n) k s = (if k = (r, n) then s\<lparr>nd_target := None\<rparr> else s)"
| "node_step (Ev_restored r n ty i) k s = (if k = (r, n) then s\<lparr>nd_avoid := Some (ty, i)\<rparr> else s)"
| "node_step (Ev_excluded r n) k s =
     (if k = (r, n) then \<lparr>nd_target = None, nd_avoid = (if nd_target s = None then nd_avoid s else nd_target s)\<rparr> else s)"
| "node_step (Ev_cleared r n) k s = (if k = (r, n) then \<lparr>nd_target = None, nd_avoid = None\<rparr> else s)"
| "node_step (Ev_target_gone i) k s = (if map_option snd (nd_target s) = Some i then s\<lparr>nd_target := None\<rparr> else s)"
| "node_step Ev_all_cleared k s = \<lparr>nd_target = None, nd_avoid = None\<rparr>"

definition plain_run :: "string \<Rightarrow> bool" where
  "plain_run r \<longleftrightarrow> CHR 0x3A \<notin> set r"

text \<open>Runs have no colon in their identifier, and targets have a type and an identifier.\<close>

fun event_ok :: "tracker_event \<Rightarrow> bool" where
  "event_ok (Ev_dispatched r n ty i) = (plain_run r \<and> ty \<noteq> [] \<and> i \<noteq> [])"
| "event_ok (Ev_provisioning r n) = plain_run r"
| "event_ok (Ev_failed r n) = plain_run r"
| "event_ok (Ev_restored r n ty i) = plain_run r"
| "event_ok (Ev_excluded r n) = plain_run r"
| "event_ok (Ev_cleared r n) = plain_run r"
| "event_ok (Ev_target_gone i) = (i \<noteq> [])"
| "event_ok Ev_all_cleared = True"

section \<open>The refinement\<close>

definition node_view :: "tracker \<Rightarrow> string \<times> string \<Rightarrow> node_dispatch" where
  "node_view t k = (case k of (r, n) \<Rightarrow>
     \<lparr>nd_target = Option.bind (findDispatchTarget r n t) dispatched_to, nd_avoid = findDispatchExclusion r n t\<rparr>)"

text \<open>Entries without a target have no target identifier; keys do not repeat.\<close>

definition tracker_ok :: "tracker \<Rightarrow> bool" where
  "tracker_ok t \<longleftrightarrow> (\<forall>k d. map_of (tk_dispatches t) k = Some d \<longrightarrow> dispatched_to d = None \<longrightarrow> dt_id d = None)
     \<and> distinct (map fst (tk_dispatches t))"

lemma dispatch_key_eq:
  assumes "plain_run r" and "plain_run r'"
  shows "dispatch_key r n = dispatch_key r' n' \<longleftrightarrow> r = r' \<and> n = n'"
proof -
  have "takeWhile (\<lambda>c. c \<noteq> CHR 0x3A) (x @ '':'' @ y) = x" if "plain_run x" for x y
    using that by (induction x) (auto simp: plain_run_def)
  note split = this
  have "r = r'" if "dispatch_key r n = dispatch_key r' n'"
    using split [OF assms(1), of n] split [OF assms(2), of n'] that by (simp add: dispatch_key_def)
  then show ?thesis by (auto simp: dispatch_key_def)
qed

lemma fst_clear:
  "fst (fst (recordDispatch now r n ty i (t, db))) =
     t\<lparr>tk_dispatches := AList.update (dispatch_key r n) \<lparr>dt_state = Dispatched, dt_type = Some ty, dt_id = Some i, dt_at = now\<rparr> (tk_dispatches t),
       tk_exclusions := AList.delete (dispatch_key r n) (tk_exclusions t)\<rparr>"
  "fst (fst (clearDispatchTarget r n (t, db))) =
     t\<lparr>tk_dispatches := AList.delete (dispatch_key r n) (tk_dispatches t), tk_exclusions := AList.delete (dispatch_key r n) (tk_exclusions t)\<rparr>"
  by (cases "clearDagActorDispatchExclusion r n db"; auto simp: recordDispatch_def clearDispatchTarget_def Let_def)+

lemma map_of_delete [simp]: "map_of (AList.delete k m) j = (if j = k then None else map_of m j)"
  by (simp add: delete_conv)

lemma map_of_filter_value:
  "distinct (map fst m) \<Longrightarrow> map_of (filter (\<lambda>(_, d). P d) m) k = (case map_of m k of None \<Rightarrow> None | Some d \<Rightarrow> if P d then Some d else None)"
  by (induction m) (auto split: option.split simp: map_of_eq_None_iff intro: rev_image_eqI)

lemma dispatched_to_simps [simp]:
  "ty \<noteq> [] \<Longrightarrow> i \<noteq> [] \<Longrightarrow> dispatched_to \<lparr>dt_state = Dispatched, dt_type = Some ty, dt_id = Some i, dt_at = now\<rparr> = Some (ty, i)"
  "x \<noteq> Dispatched \<Longrightarrow> dispatched_to \<lparr>dt_state = x, dt_type = ty', dt_id = i', dt_at = now\<rparr> = None"
  by (simp_all add: dispatched_to_def)

lemma dispatched_to_id: "dispatched_to d = Some x \<Longrightarrow> dt_id d = Some (snd x)"
  by (auto simp: dispatched_to_def split: if_splits option.splits)

lemma exclude_fields:
  "tk_dispatches (fst (excludeCurrentDispatchTarget r n t)) = AList.delete (dispatch_key r n) (tk_dispatches t)"
  "map_of (tk_exclusions (fst (excludeCurrentDispatchTarget r n t))) j =
     (if j = dispatch_key r n \<and> Option.bind (map_of (tk_dispatches t) (dispatch_key r n)) dispatched_to \<noteq> None
      then Option.bind (map_of (tk_dispatches t) (dispatch_key r n)) dispatched_to else map_of (tk_exclusions t) j)"
  by (cases "Option.bind (map_of (tk_dispatches t) (dispatch_key r n)) dispatched_to"; simp add: excludeCurrentDispatchTarget_def Let_def)+

lemma tracker_ok_frame: "tk_dispatches t' = tk_dispatches t \<Longrightarrow> tracker_ok t' \<longleftrightarrow> tracker_ok t"
  by (simp add: tracker_ok_def)

lemma tracker_ok_update:
  "tracker_ok t \<Longrightarrow> (dispatched_to d = None \<Longrightarrow> dt_id d = None) \<Longrightarrow> tk_dispatches t' = AList.update k d (tk_dispatches t) \<Longrightarrow> tracker_ok t'"
  by (simp add: tracker_ok_def distinct_update)

lemma tracker_ok_delete: "tracker_ok t \<Longrightarrow> tk_dispatches t' = AList.delete k (tk_dispatches t) \<Longrightarrow> tracker_ok t'"
  by (simp add: tracker_ok_def distinct_delete)

lemma tracker_ok_filter: "tracker_ok t \<Longrightarrow> tk_dispatches t' = filter (\<lambda>(_, d). P d) (tk_dispatches t) \<Longrightarrow> tracker_ok t'"
  unfolding tracker_ok_def by (simp only: map_of_filter_value distinct_map_filter) (auto split: option.splits if_splits)

lemma track_ok: "event_ok e \<Longrightarrow> tracker_ok t \<Longrightarrow> tracker_ok (fst (track now e (t, db)))"
proof (cases e)
  case (Ev_dispatched r n ty i)
  assume ok: "event_ok e" "tracker_ok t"
  have "tk_dispatches (fst (track now e (t, db))) = AList.update (dispatch_key r n) \<lparr>dt_state = Dispatched, dt_type = Some ty, dt_id = Some i, dt_at = now\<rparr> (tk_dispatches t)"
    by (simp add: Ev_dispatched fst_clear(1))
  from tracker_ok_update [OF ok(2) _ this] ok(1) Ev_dispatched show ?thesis by simp
next
  case (Ev_target_gone i)
  assume "tracker_ok t"
  then show ?thesis by (rule tracker_ok_filter) (simp add: Ev_target_gone clearByTargetId_def)
next
  case (Ev_cleared r n)
  assume "tracker_ok t"
  then show ?thesis by (rule tracker_ok_delete) (simp add: Ev_cleared fst_clear(2))
next
  case (Ev_excluded r n)
  assume "tracker_ok t"
  then show ?thesis by (rule tracker_ok_delete) (simp add: Ev_excluded exclude_fields)
next
  case (Ev_provisioning r n)
  assume ok: "tracker_ok t"
  have "tk_dispatches (fst (track now e (t, db))) = AList.update (dispatch_key r n) \<lparr>dt_state = Provisioning, dt_type = None, dt_id = None, dt_at = now\<rparr> (tk_dispatches t)"
    by (simp add: Ev_provisioning recordProvisioning_def)
  from tracker_ok_update [OF ok _ this] show ?thesis by simp
next
  case (Ev_failed r n)
  assume ok: "tracker_ok t"
  have "tk_dispatches (fst (track now e (t, db))) = AList.update (dispatch_key r n) \<lparr>dt_state = Dispatch_failed, dt_type = None, dt_id = None, dt_at = now\<rparr> (tk_dispatches t)"
    by (simp add: Ev_failed recordDispatchFailed_def)
  from tracker_ok_update [OF ok _ this] show ?thesis by simp
qed (simp_all add: restoreDispatchExclusion_def clearAllDispatches_def tracker_ok_def)

lemmas view_defs = node_view_def findDispatchTarget_def findDispatchExclusion_def

lemma track_view:
  assumes "event_ok e" and "tracker_ok t" and "plain_run r"
  shows "node_view (fst (track now e (t, db))) (r, n) = node_step e (r, n) (node_view t (r, n))"
proof (cases e)
  case (Ev_target_gone i)
  let ?d = "map_of (tk_dispatches t) (dispatch_key r n)"
  have gone: "map_of (tk_dispatches (clearByTargetId i t)) (dispatch_key r n) =
      (case ?d of None \<Rightarrow> None | Some d \<Rightarrow> if dt_id d = Some i then None else Some d)"
    using assms(1,2) Ev_target_gone by (simp add: clearByTargetId_def map_of_filter_value tracker_ok_def split: option.split)
  show ?thesis
  proof (cases ?d)
    case None
    with gone Ev_target_gone show ?thesis by (simp add: view_defs clearByTargetId_def)
  next
    case (Some d)
    then have "dispatched_to d = None \<Longrightarrow> dt_id d = None" using assms(2) by (simp add: tracker_ok_def)
    with Some gone Ev_target_gone show ?thesis
      by (cases "dispatched_to d") (simp_all add: view_defs dispatched_to_id clearByTargetId_def)
  qed
next
  case (Ev_excluded r' n')
  then show ?thesis using assms dispatch_key_eq [of r r' n n'] by (auto simp: view_defs exclude_fields)
next
  case (Ev_dispatched r' n' ty i)
  then show ?thesis using assms dispatch_key_eq [of r r' n n'] by (auto simp: view_defs fst_clear(1))
next
  case (Ev_cleared r' n')
  then show ?thesis using assms dispatch_key_eq [of r r' n n'] by (auto simp: view_defs fst_clear(2))
next
  case (Ev_provisioning r' n')
  then show ?thesis using assms dispatch_key_eq [of r r' n n'] by (auto simp: view_defs recordProvisioning_def)
next
  case (Ev_failed r' n')
  then show ?thesis using assms dispatch_key_eq [of r r' n n'] by (auto simp: view_defs recordDispatchFailed_def)
next
  case (Ev_restored r' n' ty i)
  then show ?thesis using assms dispatch_key_eq [of r r' n n'] by (auto simp: view_defs restoreDispatchExclusion_def)
next
  case Ev_all_cleared
  then show ?thesis by (simp add: view_defs clearAllDispatches_def)
qed

section \<open>Property\<close>

definition no_dispatches :: tracker where
  "no_dispatches = \<lparr>tk_dispatches = [], tk_exclusions = []\<rparr>"

definition track_all :: "(int \<times> tracker_event) list \<Rightarrow> tracker \<times> ('m) intervention_db_scheme \<Rightarrow> tracker \<times> ('m) intervention_db_scheme" where
  "track_all es s = fold (\<lambda>(now, e). track now e) es s"

definition node_after :: "(int \<times> tracker_event) list \<Rightarrow> string \<times> string \<Rightarrow> node_dispatch" where
  "node_after es k = fold (\<lambda>(now, e). node_step e k) es \<lparr>nd_target = None, nd_avoid = None\<rparr>"

lemma track_all_view:
  assumes "\<forall>(now, e) \<in> set es. event_ok e" and "tracker_ok (fst s)" and "plain_run r"
  shows "tracker_ok (fst (track_all es s)) \<and>
    node_view (fst (track_all es s)) (r, n) = fold (\<lambda>(now, e). node_step e (r, n)) es (node_view (fst s) (r, n))"
  using assms
proof (induction es arbitrary: s)
  case (Cons x es)
  obtain now e where x: "x = (now, e)" by (cases x)
  obtain t db where s: "s = (t, db)" by (cases s)
  from Cons.prems x s have e: "event_ok e" "tracker_ok t" "\<forall>(now, e) \<in> set es. event_ok e" by auto
  from Cons.IH [OF e(3) track_ok [OF e(1,2), where now = now and db = db] assms(3)]
  show ?case using track_view [OF e(1,2) assms(3), of now db n] x s by (simp add: track_all_def)
qed (simp add: track_all_def)

lemma current_target_iff:
  assumes "tracker_ok t"
  shows "isCurrentDispatchTarget r n ty i t \<longleftrightarrow> nd_target (node_view t (r, n)) = Some (ty, i)"
proof (cases "findDispatchTarget r n t")
  case (Some d)
  with assms have "dispatched_to d = None \<longrightarrow> dt_id d = None" by (simp add: tracker_ok_def findDispatchTarget_def)
  with Some show ?thesis
    by (auto simp: isCurrentDispatchTarget_def node_view_def dispatched_to_def split: if_splits option.splits)
qed (simp add: isCurrentDispatchTarget_def node_view_def)

text \<open>C27. Whatever is recorded for runs without a colon in their identifier, which are all that \<open>persistence/store.ts\<close> accepts, and
  targets with a type and an identifier, a target is the current one of a node exactly if it was the last dispatch of that node of that run,
  with no provisioning, failure, exclusion or clearing of the node and no loss of that target since; and the excluded target of a node is
  exactly the one its last exclusion took from it or the one restored since, until the next dispatch.\<close>

theorem dispatch_tracking_exact:
  assumes "\<forall>(now, e) \<in> set es. event_ok e" and "plain_run r"
  shows "(isCurrentDispatchTarget r n ty i (fst (track_all es (no_dispatches, db))) \<longleftrightarrow> nd_target (node_after es (r, n)) = Some (ty, i))
    \<and> findDispatchExclusion r n (fst (track_all es (no_dispatches, db))) = nd_avoid (node_after es (r, n))"
proof -
  have start: "tracker_ok (fst (no_dispatches, db))" "node_view no_dispatches (r, n) = \<lparr>nd_target = None, nd_avoid = None\<rparr>"
    by (simp_all add: tracker_ok_def no_dispatches_def view_defs)
  note all = track_all_view [OF assms(1) start(1) assms(2), of n, unfolded fst_conv start(2), folded node_after_def]
  then have "nd_avoid (node_view (fst (track_all es (no_dispatches, db))) (r, n)) = nd_avoid (node_after es (r, n))" by simp
  then have "findDispatchExclusion r n (fst (track_all es (no_dispatches, db))) = nd_avoid (node_after es (r, n))"
    by (simp add: node_view_def)
  with all show ?thesis by (simp add: current_target_iff)
qed

definition tracker_demo :: "(int \<times> tracker_event) list" where
  "tracker_demo = [(1, Ev_dispatched ''r'' ''a'' ''worker'' ''w''), (2, Ev_dispatched ''r'' ''b'' ''worker'' ''v''),
     (3, Ev_excluded ''r'' ''b''), (4, Ev_target_gone ''x'')]"

theorem dispatch_tracking_exact_witness:
  "\<forall>db :: intervention_db. isCurrentDispatchTarget ''r'' ''a'' ''worker'' ''w'' (fst (track_all tracker_demo (no_dispatches, db))) \<and>
   findDispatchExclusion ''r'' ''b'' (fst (track_all tracker_demo (no_dispatches, db))) = Some (''worker'', ''v'')"
proof
  fix db :: intervention_db
  have "\<forall>(now, e) \<in> set tracker_demo. event_ok e" "plain_run ''r''" by (simp_all add: tracker_demo_def plain_run_def)
  note exact = dispatch_tracking_exact [OF this, where db = db]
  have "nd_target (node_after tracker_demo (''r'', ''a'')) = Some (''worker'', ''w'')"
    "nd_avoid (node_after tracker_demo (''r'', ''b'')) = Some (''worker'', ''v'')" by code_simp+
  then show "isCurrentDispatchTarget ''r'' ''a'' ''worker'' ''w'' (fst (track_all tracker_demo (no_dispatches, db))) \<and>
   findDispatchExclusion ''r'' ''b'' (fst (track_all tracker_demo (no_dispatches, db))) = Some (''worker'', ''v'')" by (simp add: exact)
qed

end
