(* ===== verification/Live_Delivery_Theorems.thy ===== *)
theory Live_Delivery_Theorems
  imports Live_Delivery Transport_Fence_Theorems Dispatch_Tracker_Theorems
begin

text \<open>
  Delivery composes the stores: whatever it does is a sequence of steps of the live-command store, so every
  property of that store holds for it. A command is only sent to the live worker that its node runs on, a
  report only moves the command it answers and only from that worker, and the report a worker gives to a
  message that has just been sent is accepted.
\<close>

section \<open>Delivery takes steps of the store\<close>

text \<open>Opening the session of a node binds it to the actor of the node, and touches no other modelled table.\<close>

definition sessions_ok :: "js_env \<Rightarrow> (string \<Rightarrow> string option) \<Rightarrow> ('v, ('m) live_db_scheme) world \<Rightarrow> bool" where
  "sessions_ok env penv w \<longleftrightarrow> (\<forall>r n. stays (lease_step env penv) (wd_session w r n))"

lemma session_stays [stays_intro]: "sessions_ok env penv w \<Longrightarrow> stays (live_step env penv) (wd_session w r n)"
  unfolding sessions_ok_def stays_def using lease_steps_live by blast

lemma session_steps: "sessions_ok env penv w \<Longrightarrow> wd_session w r n db = (db', res) \<Longrightarrow> (lease_step env penv)\<^sup>*\<^sup>* db db'"
  unfolding sessions_ok_def stays_def by (metis fst_conv)

lemma fallback_stays [stays_intro]: "stays (live_step env penv) (fallback env now k reason)"
  unfolding fallback_def by (intro stays_intro) (rule lv_fallback)

lemma live_move_stays [stays_intro]: "stays (live_step env penv) (live_move env now k s reason)"
  unfolding live_move_def by (intro stays_intro) (rule lv_transition)

lemma follow_stays [stays_intro]: "stays (live_step env penv) (followRoundCommand env now k c)"
  unfolding followRoundCommand_def by (cases "cm_status c"; simp; intro stays_intro)

lemma send_message_stays [stays_intro]: "stays (live_step env penv) (sendLiveMessage env clock w k s ro g i)"
  unfolding sendLiveMessage_def Let_def by (intro stays_intro) (rule lv_send)

lemma stays_prod [stays_intro]: "(\<And>a b. p = (a, b) \<Longrightarrow> stays R (f a b)) \<Longrightarrow> stays R (case p of (a, b) \<Rightarrow> f a b)"
  by (cases p) simp

lemma stays_sum: "(\<And>a. v = Inl a \<Longrightarrow> stays R (f a)) \<Longrightarrow> (\<And>b. v = Inr b \<Longrightarrow> stays R (g b)) \<Longrightarrow> stays R (case v of Inl a \<Rightarrow> f a | Inr b \<Rightarrow> g b)"
  by (cases v) simp_all

lemma stays_assessment:
  "(\<And>d. stays R (f d)) \<Longrightarrow> stays R u \<Longrightarrow> (\<And>x y. stays R (g x y)) \<Longrightarrow> (\<And>x. stays R (h x)) \<Longrightarrow>
   stays R (case v of Fence_current d \<Rightarrow> f d | Fence_unknown_run \<Rightarrow> u | Fence_ignored x y \<Rightarrow> g x y | Fence_malformed x \<Rightarrow> h x)"
  by (cases v) simp_all

lemma try_send_stays [stays_intro]: "sessions_ok env penv w \<Longrightarrow> stays (live_step env penv) (trySendDagActorLiveCommand env clock w k)"
  unfolding trySendDagActorLiveCommand_def Let_def by (intro stays_intro)

lemma send_stays: "sessions_ok env penv w \<Longrightarrow> stays (live_step env penv) (sendDagActorLiveCommands env created clock w run_id request)"
  unfolding sendDagActorLiveCommands_def Let_def by (intro stays_intro) (rule lv_batch, assumption+)

lemma fence_stays [stays_intro]:
  "stays (live_step env penv) (\<lambda>db. case assessDagTransportFence env penv clock runs payload source renew db of (db', r) \<Rightarrow> (db', f r))"
  unfolding stays_def
proof
  fix db
  obtain db' r where "assessDagTransportFence env penv clock runs payload source renew db = (db', r)"
    by (cases "assessDagTransportFence env penv clock runs payload source renew db")
  then show "(live_step env penv)\<^sup>*\<^sup>* db (fst (case assessDagTransportFence env penv clock runs payload source renew db of (db', r) \<Rightarrow> (db', f r)))"
    using lease_steps_live [OF fence_steps] by auto
qed

lemma apply_status_stays [stays_intro]: "stays (live_step env penv) (applyLiveStatus env now d r)"
  unfolding applyLiveStatus_def Let_def by (intro stays_intro) (rule lv_fallback)

lemma handle_stays: "sessions_ok env penv w \<Longrightarrow> stays (live_step env penv) (handleDagActorLiveCommandStatus env penv clock w source message)"
  unfolding handleDagActorLiveCommandStatus_def Let_def
  by (intro stays_intro stays_sum stays_assessment)

lemma recover_command_stays [stays_intro]: "sessions_ok env penv w \<Longrightarrow> stays (live_step env penv) (recoverCommand env clock w c)"
  unfolding recoverCommand_def Let_def by (intro stays_intro)

lemma recover_stays: "sessions_ok env penv w \<Longrightarrow> stays (live_step env penv) (recoverDagActorLiveCommands env clock w)"
  unfolding recoverDagActorLiveCommands_def by (intro stays_intro)

lemma reach_stays:
  assumes "reach init step s" and "stays step m"
  shows "reach init step (fst (m s))"
proof -
  from assms(2) have "step\<^sup>*\<^sup>* s (fst (m s))" by (simp add: stays_def)
  then show ?thesis by (induction rule: rtranclp_induct) (auto intro: assms(1) reach_step)
qed

section \<open>What an update does to the table\<close>

text \<open>One row has moved forward, or nothing has changed.\<close>

definition one_moved :: "('m) live_db_scheme \<Rightarrow> ('m) live_db_scheme \<Rightarrow> live_row \<Rightarrow> live_row \<Rightarrow> bool" where
  "one_moved db db' r x \<longleftrightarrow> live_evolves r x \<and> db' = db\<lparr>db_live := rewritten (\<lambda>y. y = r) (\<lambda>_. x) (db_live db)\<rparr>"

lemma rewritten_self [simp]: "rewritten (\<lambda>y. y = r) (\<lambda>_. r) rows = rows"
  by (induction rows) (auto simp: rewritten_def)

lemma one_moved_same [simp]: "one_moved db db r r"
  by (simp add: one_moved_def)

lemma find_rewritten_row:
  assumes "lv_command_id x = lv_command_id r"
  shows "find (\<lambda>y. lv_command_id y = k) (rewritten (\<lambda>y. y = r) (\<lambda>_. x) rows)
    = map_option (\<lambda>y. if y = r then x else y) (find (\<lambda>y. lv_command_id y = k) rows)"
  using assms by (intro find_update) auto

lemma one_moved_row:
  assumes "one_moved db db' r x" and "getLiveRow db k = Some r"
  shows "getLiveRow db' k = Some x" "\<And>j. j \<noteq> k \<Longrightarrow> getLiveRow db' j = getLiveRow db j"
proof -
  have id: "lv_command_id x = lv_command_id r" using assms(1) by (auto simp: one_moved_def live_evolves_def live_forward_def live_same_def)
  have found: "getLiveRow db' j = map_option (\<lambda>y. if y = r then x else y) (getLiveRow db j)" for j
    using assms(1) by (simp add: one_moved_def getLiveRow_def find_rewritten_row [OF id])
  from found assms(2) show "getLiveRow db' k = Some x" by simp
  show "getLiveRow db' j = getLiveRow db j" if "j \<noteq> k" for j
    using that found [of j] getLiveRow_key [OF assms(2)] by (cases "getLiveRow db j") (auto dest: getLiveRow_key)
qed

lemma live_updated_row:
  assumes ok: "live_ok (db_live db)" and cur: "getLiveRow db k = Some r" and k: "js_trim k = k"
    and upd: "live_updated env k P f db = Inr (db', m)" and id: "\<And>s. lv_command_id (f s) = lv_command_id s"
  shows "P r \<and> db' = db\<lparr>db_live := rewritten (\<lambda>y. y = r) (\<lambda>_. f r) (db_live db)\<rparr> \<and> lr_row (lm_command m) = f r
    \<and> requireLiveCommand env db' k = Inr (lm_command m)"
proof -
  let ?P = "\<lambda>r. lv_command_id r = k \<and> P r"
  from upd have db': "db' = db\<lparr>db_live := rewritten ?P f (db_live db)\<rparr>" and one: "length (filter ?P (db_live db)) = 1"
    and req: "requireLiveCommand env db' k = Inr (lm_command m)"
    by (auto simp: live_updated_def bind_inv Let_def live_done_def)
  from getLiveRow_key [OF cur] have r: "lv_command_id r = k" "r \<in> set (db_live db)" by simp_all
  have "unique_on (\<lambda>_. True) lv_command_id (db_live db)" using ok by (simp add: live_ok_def)
  from rewritten_unique [OF this r(2) _ one, of f] r(1)
  have w: "P r" "rewritten ?P f (db_live db) = rewritten (\<lambda>y. y = r) (\<lambda>_. f r) (db_live db)" by auto
  have "getLiveRow db' k = map_option (\<lambda>y. if y = r then f r else y) (getLiveRow db k)"
    unfolding getLiveRow_def db' w(2) by (simp add: find_rewritten_row [OF id])
  with requireLive_Inr [OF req] cur k have "lr_row (lm_command m) = f r" by simp
  with w db' req show ?thesis by simp
qed

lemma live_done_simps [simp]: "lm_command (live_done b c) = c" "lm_changed (live_done b c) = b"
  by (simp_all add: live_done_def)

lemma mark_fallback_row:
  assumes ok: "live_ok (db_live db)" and cur: "getLiveRow db (js_trim k) = Some r"
    and "markDagActorLiveCommandFallback env now k reason db = Inr (db', m)"
  shows "lv_status r = Lv_queued \<and> one_moved db db' r (lr_row (lm_command m)) \<and> lv_status (lr_row (lm_command m)) = Lv_queued"
proof -
  let ?f = "\<lambda>x. x\<lparr>lv_fallback_json := Some (encodeReason (Some reason) ''live delivery unavailable''), lv_updated_at := now\<rparr>"
  from assms(3) obtain c where c: "requireLiveCommand env db (js_trim k) = Inr c" "lv_status (lr_row c) = Lv_queued"
    and or: "(db' = db \<and> m = live_done False c) \<or> live_updated env (js_trim k) (\<lambda>r. lv_status r = Lv_queued) ?f db = Inr (db', m)"
    by (auto simp: markDagActorLiveCommandFallback_def Let_def bindE_Inr assertPrintable_Inr throwIf_Inr split: if_splits)
  from requireLive_Inr [OF c(1)] cur have row: "lr_row c = r" by simp
  from or show ?thesis
  proof
    assume "live_updated env (js_trim k) (\<lambda>r. lv_status r = Lv_queued) ?f db = Inr (db', m)"
    from live_updated_row [OF ok cur _ this] show ?thesis
      by (simp add: one_moved_def live_evolves_def live_forward_def live_same_def live_terminal_def)
  qed (use row c(2) in simp)
qed

lemma transition_row:
  assumes ok: "live_ok (db_live db)" and cur: "getLiveRow db (js_trim (tl_command_id t)) = Some r"
    and "transitionDagActorLiveCommand env now t db = Inr (db', m)"
  shows "one_moved db db' r (lr_row (lm_command m)) \<and> live_rank (tl_status t) \<le> live_rank (lv_status (lr_row (lm_command m)))"
proof -
  let ?doc = "if needs_reason (tl_status t) then Some (encodeReason (tl_reason t) (''live command '' @ status_text (tl_status t))) else None"
  from assms(3) obtain c ts where c: "requireLiveCommand env db (js_trim (tl_command_id t)) = Inr c"
    and or: "(db' = db \<and> m = live_done False c \<and> live_rank (tl_status t) \<le> live_rank (lv_status (lr_row c)))
      \<or> (\<not> live_terminal (lv_status (lr_row c)) \<and> lv_status (lr_row c) \<noteq> tl_status t
         \<and> \<not> ((tl_status t = Lv_delivered \<or> tl_status t = Lv_applied \<or> tl_status t = Lv_completed) \<and> live_rank (tl_status t) < live_rank (lv_status (lr_row c)))
         \<and> live_updated env (js_trim (tl_command_id t)) live_outstanding (transitioned (tl_status t) ?doc ts) db = Inr (db', m))"
    unfolding transitionDagActorLiveCommand_def Let_def
    by (simp only: bindE_Inr assertPrintable_Inr if_Inr throwIf_Inr sum.inject prod.inject) (elim exE disjE conjE; force)
  from requireLive_Inr [OF c] cur have row: "lr_row c = r" by simp
  from or show ?thesis
  proof (elim disjE conjE)
    assume r: "\<not> live_terminal (lv_status (lr_row c))" "lv_status (lr_row c) \<noteq> tl_status t"
      "\<not> ((tl_status t = Lv_delivered \<or> tl_status t = Lv_applied \<or> tl_status t = Lv_completed) \<and> live_rank (tl_status t) < live_rank (lv_status (lr_row c)))"
      and upd: "live_updated env (js_trim (tl_command_id t)) live_outstanding (transitioned (tl_status t) ?doc ts) db = Inr (db', m)"
    have w: "db' = db\<lparr>db_live := rewritten (\<lambda>y. y = r) (\<lambda>_. transitioned (tl_status t) ?doc ts r) (db_live db)\<rparr>"
      "lr_row (lm_command m) = transitioned (tl_status t) ?doc ts r"
      using live_updated_row [OF ok cur _ upd] by (simp_all add: transitioned_def)
    have ok': "live_ok (db_live db')" using upd by (auto simp: live_updated_def bind_inv Let_def)
    have mem: "r \<in> set (db_live db)" using getLiveRow_key [OF cur] by simp
    then have "transitioned (tl_status t) ?doc ts r \<in> set (db_live db')" unfolding w(1) by (auto simp: rewritten_def intro: rev_image_eqI)
    with live_check_row [OF ok'] live_check_row [OF ok mem] r row
    have "live_forward r (transitioned (tl_status t) ?doc ts r)" by (intro transitioned_forward) auto
    moreover have "lv_status (transitioned (tl_status t) ?doc ts r) = tl_status t" by (simp add: transitioned_def)
    ultimately show ?thesis using w by (simp add: one_moved_def live_evolves_def)
  qed (use row in simp)
qed

lemma send_row:
  assumes ok: "live_ok (db_live db)" and cur: "getLiveRow db (js_trim (sa_command_id t)) = Some r" and queued: "lv_status r = Lv_queued"
    and "recordDagActorLiveCommandSendAttempt env now t db = Inr (db', m)" and now: "sa_sent_at t = None"
  shows "one_moved db db' r (lr_row (lm_command m)) \<and> lr_row (lm_command m) = r\<lparr>lv_session_id := js_trim (sa_session_id t), lv_round_id := js_trim (sa_round_id t),
     lv_lease_generation := num_int (sa_lease_generation t), lv_attempts := lv_attempts r + 1, lv_last_sent_at := Some now,
     lv_fallback_json := None, lv_updated_at := now\<rparr> \<and> requireLiveCommand env db' (js_trim (sa_command_id t)) = Inr (lm_command m)"
proof -
  let ?f = "\<lambda>x. x\<lparr>lv_session_id := js_trim (sa_session_id t), lv_round_id := js_trim (sa_round_id t),
     lv_lease_generation := num_int (sa_lease_generation t), lv_attempts := lv_attempts x + 1, lv_last_sent_at := Some now,
     lv_fallback_json := None, lv_updated_at := now\<rparr>"
  from assms(4) obtain c where c: "requireLiveCommand env db (js_trim (sa_command_id t)) = Inr c"
    and or: "lv_status (lr_row c) \<noteq> Lv_queued \<or> live_updated env (js_trim (sa_command_id t)) (\<lambda>r. lv_status r = Lv_queued) ?f db = Inr (db', m)"
    unfolding recordDagActorLiveCommandSendAttempt_def
    by (auto simp: bindE_Inr assertPrintable_Inr throwIf_Inr positiveSafeInteger_def assertTimestamp_def or_clock_def now split: if_splits)
  from requireLive_Inr [OF c] cur have "lr_row c = r" by simp
  with or queued have "live_updated env (js_trim (sa_command_id t)) (\<lambda>r. lv_status r = Lv_queued) ?f db = Inr (db', m)" by simp
  from live_updated_row [OF ok cur _ this] queued show ?thesis
    by (auto simp: one_moved_def live_evolves_def live_forward_def live_same_def live_terminal_def)
qed

section \<open>What was sent\<close>

lemma plain_Inr [simp]: "plain r = Inr b \<longleftrightarrow> r = Inr b"
  by (simp add: plain_def split: sum.split)

lemma unsent_none: "thenS m (\<lambda>x. retS (unsent x)) s = (t, Inr a) \<Longrightarrow> at_message a = None"
  by (auto simp: eff_inv unsent_def)

lemma send_message_row:
  assumes ok: "live_ok (db_live db)" and cur: "getLiveRow db k = Some r" "js_trim k = k" "lv_status r = Lv_queued"
    and sent: "sendLiveMessage env clock w k sid ro g i db = (db', Inr a)" "at_message a = Some (j, message)"
  shows "j = i \<and> message = live_message (at_command a) \<and> validLiveCommand message \<and> wd_write w i message = None
    \<and> one_moved db db' r (lr_row (at_command a)) \<and> lr_row (at_command a) =
       r\<lparr>lv_session_id := js_trim sid, lv_round_id := js_trim ro, lv_lease_generation := g, lv_attempts := lv_attempts r + 1,
         lv_last_sent_at := Some (clock 0), lv_fallback_json := None, lv_updated_at := clock 0\<rparr>"
proof -
  let ?in = "\<lparr>sa_command_id = k, sa_session_id = sid, sa_round_id = ro, sa_lease_generation = num_of_int g, sa_sent_at = None\<rparr>"
  from sent(1) obtain db1 m where att: "recordDagActorLiveCommandSendAttempt env (clock 0) ?in db = Inr (db1, m)"
    and rest: "(if \<not> validLiveCommand (live_message (lm_command m))
        then thenS (fallback env (clock 1) k (''persisted live command failed protocol validation: '' @ wd_schema_error w (live_message (lm_command m))))
               (\<lambda>x. retS (unsent x))
        else case wd_write w i (live_message (lm_command m)) of
            None \<Rightarrow> thenS (readS (\<lambda>db. requireLiveCommand env db k)) (\<lambda>x. retS \<lparr>at_command = x, at_message = Some (i, live_message (lm_command m))\<rparr>)
          | Some e \<Rightarrow> thenS (fallback env (clock 1) k (''live command socket write failed: '' @ e)) (\<lambda>x. retS (unsent x))) db1 = (db', Inr a)"
    unfolding sendLiveMessage_def Let_def thenS_Inr transactS_Inr by blast
  have valid: "validLiveCommand (live_message (lm_command m))"
    using rest sent(2) unsent_none by (cases "validLiveCommand (live_message (lm_command m))") fastforce+
  have "wd_write w i (live_message (lm_command m)) = None"
    using rest sent(2) unsent_none valid by (cases "wd_write w i (live_message (lm_command m))") fastforce+
  with rest valid have a: "requireLiveCommand env db1 k = Inr (at_command a)" "db' = db1"
    "at_message a = Some (i, live_message (lm_command m))" by (auto simp: eff_inv)
  have "getLiveRow db (js_trim (sa_command_id ?in)) = Some r" using cur(1,2) by simp
  note row = send_row [OF ok this cur(3) att, simplified]
  have "requireLiveCommand env db1 k = Inr (lm_command m)" using row [THEN conjunct2, THEN conjunct2] cur(2) by simp
  with a have "at_command a = lm_command m" by simp
  with a row [THEN conjunct1] row [THEN conjunct2, THEN conjunct1] valid \<open>wd_write w i _ = None\<close> sent(2)
  show ?thesis by (intro conjI) auto
qed


lemma lease_steps_frame:
  assumes "(lease_step env penv)\<^sup>*\<^sup>* db db'" and "lease_store_inv env db"
  shows "db_live db' = db_live db \<and> lease_store_inv env db'"
  using assms
proof (induction rule: rtranclp_induct)
  case (step s t)
  then have s: "db_live s = db_live db" "lease_store_inv env s" by simp_all
  then have "lease_inv s" by (simp add: lease_store_inv_def)
  from lease_step_effect [OF step.hyps(2) this] lease_effect_live have "db_live t = db_live s" by metis
  with s lease_step_store_inv [OF step.hyps(2) s(2)] show ?case by simp
qed simp

lemma live_inv_lease: "live_inv env db \<Longrightarrow> lease_store_inv env db" "live_inv env db \<Longrightarrow> lease_inv db" "live_inv env db \<Longrightarrow> live_ok (db_live db)"
  by (simp_all add: live_inv_def lease_store_inv_def)

lemma command_id_trimmed: "live_inv env db \<Longrightarrow> getDagActorLiveCommand env k db = Inr (Some c) \<Longrightarrow>
    getLiveRow db (js_trim k) = Some (lr_row c) \<and> lv_command_id (lr_row c) = js_trim k"
  by (auto simp: getDagActorLiveCommand_def bindE_Inr optE_Inr assertPrintable_Inr dest!: commandFromLiveRow_row dest: getLiveRow_key)

definition sendable :: "('v, 'd) world \<Rightarrow> ('m) live_db_scheme \<Rightarrow> live_row \<Rightarrow> string \<Rightarrow> 'v active_run \<Rightarrow> lease_row \<Rightarrow> bool" where
  "sendable w db r i run l \<longleftrightarrow>
     map_of (wd_runs w) (lv_run_id r) = Some run \<and> ru_status run = Run_active
     \<and> map_of (nodeStates (ru_dag run)) (lv_node_id r) = Some RUNNING
     \<and> (\<exists>a. getActorRow db (lv_run_id r) (lv_actor_id r) = Some a \<and> ac_node_id a = lv_node_id r \<and> ac_generation a = lv_target_generation r)
     \<and> isCurrentDispatchTarget (lv_run_id r) (lv_node_id r) ''worker'' i (wd_tracker w)
     \<and> (\<exists>p. map_of (wd_workers w) i = Some p \<and> pe_open p \<and> LIVE_CAPABILITY \<in> set (pe_capabilities p))
     \<and> getLeaseRow db (js_trim (lv_run_id r)) (js_trim (lv_actor_id r)) = Some l \<and> lr_state l = Leased
     \<and> lease_target_type l = Some ''worker'' \<and> lr_target_id l = Some i"

lemma targetSocket_worker:
  "targetSocket w r = Some (''worker'', i, p) \<Longrightarrow>
    isCurrentDispatchTarget (lv_run_id r) (lv_node_id r) ''worker'' i (wd_tracker w) \<and> map_of (wd_workers w) i = Some p"
  by (auto simp: targetSocket_def isCurrentDispatchTarget_def dispatched_to_def bind_eq_Some_conv split: option.splits if_splits)

lemma lease_read:
  "lease_inv db \<Longrightarrow> getDagActorLease run actor db = Inr (Some l) \<Longrightarrow>
    getLeaseRow db (js_trim run) (js_trim actor) = Some l \<and> bounded_id 256 (js_trim run) \<and> bounded_id 256 (js_trim actor)"
  by (auto simp: getDagActorLease_inv bounded_id_def)

lemma try_send_sent:
  assumes inv: "live_inv env db" and sent: "trySendDagActorLiveCommand env clock w k db = (db', Inr a)" "at_message a \<noteq> None"
  shows "\<exists>r run l i s db1. getLiveRow db (js_trim k) = Some r \<and> lv_status r = Lv_queued \<and> sendable w db r i run l
    \<and> bounded_id 256 (js_trim (lv_run_id r)) \<and> bounded_id 256 (js_trim (lv_actor_id r))
    \<and> wd_session w (lv_run_id r) (lv_node_id r) db = (db1, Inr (Some s))
    \<and> sendLiveMessage env clock w (js_trim k) s (ru_round_id run) (lr_generation l) i db1 = (db', Inr a)"
proof -
  have no [simp]: "thenS m (\<lambda>x. retS (unsent x)) s \<noteq> (db', Inr a)" for m s using unsent_none [of m s db' a] sent(2) by auto
  have no' [simp]: "(if c then thenS m (\<lambda>x. retS (unsent x)) else e) s = (db', Inr a) \<longleftrightarrow> \<not> c \<and> e s = (db', Inr a)" for c m e s by simp
  have noq: "retS (unsent x) s \<noteq> (db', Inr a)" for x s using sent(2) by (auto simp: retS_def unsent_def)
  from sent(1) obtain found where f: "getDagActorLiveCommand env k db = Inr found"
    by (auto simp: trySendDagActorLiveCommand_def thenS_Inr readS_Inr)
  with sent(1) obtain c where c: "found = Some c" by (cases found) (auto simp: trySendDagActorLiveCommand_def eff_inv)
  define r where "r = lr_row c"
  from command_id_trimmed [OF inv f [unfolded c]] have r: "getLiveRow db (js_trim k) = Some r" "lv_command_id r = js_trim k" by (simp_all add: r_def)
  have s1: "(\<exists>round. getDagActorCommand env db (lv_command_id r) = (Inr round :: live_conflict err + _)) \<and> lv_status r = Lv_queued"
    using sent(1) f c noq by (auto simp: trySendDagActorLiveCommand_def thenS_Inr readS_Inr Let_def r_def [symmetric] split: if_split_asm)
  then obtain round where round: "getDagActorCommand env db (lv_command_id r) = (Inr round :: live_conflict err + _)" by blast
  have nolink: "\<not> linked r round"
    using sent f c s1 round by (cases "linked r round")
      (auto simp: trySendDagActorLiveCommand_def thenS_Inr readS_Inr Let_def r_def [symmetric] followRoundCommand_def unsent_def)
  have unsent [simp]: "at_message (unsent x) = None" for x by (simp add: unsent_def)
  have "\<exists>run l i s db1. sendable w db r i run l
      \<and> bounded_id 256 (js_trim (lv_run_id r)) \<and> bounded_id 256 (js_trim (lv_actor_id r))
      \<and> wd_session w (lv_run_id r) (lv_node_id r) db = (db1, Inr (Some s))
      \<and> sendLiveMessage env clock w (lv_command_id r) s (ru_round_id run) (lr_generation l) i db1 = (db', Inr a)"
    using sent f c s1 round nolink
    apply (simp add: trySendDagActorLiveCommand_def thenS_Inr readS_Inr Let_def r_def [symmetric])
    apply (auto split: option.split_asm if_split_asm prod.split_asm simp: thenS_Inr readS_Inr retS_iff)
    apply (drule targetSocket_worker)
    apply (drule lease_read [OF live_inv_lease(2) [OF inv]])
    apply (auto simp: sendable_def getDagActor_def optE_Inr actorFromRow_Inr)
    done
  with r s1 show ?thesis by metis
qed

section \<open>What a report changes\<close>

lemma thenS_iff: "thenS m f s = (u, res) \<longleftrightarrow>
    (\<exists>e. m s = (u, Inl e) \<and> res = Inl e) \<or> (\<exists>t a. m s = (t, Inr a) \<and> f a t = (u, res))"
  by (auto simp: thenS_def split: prod.split sum.split)

lemma apply_status_row:
  assumes ok: "live_ok (db_live db)" and cur: "getLiveRow db (lv_command_id r) = Some r" "js_trim (lv_command_id r) = lv_command_id r"
    and "applyLiveStatus env now d r db = (db', res)"
  shows "\<exists>x. one_moved db db' r x"
proof -
  have same: "\<exists>x. one_moved z z r x" for z :: "'a live_db_scheme" by (rule exI [of _ r]) simp
  have move: "\<exists>x. one_moved db t r x" if "live_move env now (lv_command_id r) st reason db = (t, q)" for st reason t q
    using that same transition_row [OF ok, of "\<lparr>tl_command_id = lv_command_id r, tl_status = st, tl_reason = reason, tl_transitioned_at = None\<rparr>" r env now] cur
    by (auto simp: live_move_def thenS_iff transactS_def retS_def split: sum.split_asm)
  have mark: "\<exists>x. one_moved db t r x" if "transactS (markDagActorLiveCommandFallback env now (lv_command_id r) reason) db = (t, q)" for reason t q
  proof (cases "markDagActorLiveCommandFallback env now (lv_command_id r) reason db")
    case (Inr z)
    obtain t' m where "z = (t', m)" by (cases z)
    with that Inr mark_fallback_row [OF ok, of "lv_command_id r" r env now reason t' m] cur show ?thesis by auto
  qed (use that same in auto)
  show ?thesis
  proof (cases "text_of d ''status'' = ''unsupported''")
    case True
    with assms(4) show ?thesis by (auto simp: applyLiveStatus_def Let_def thenS_iff retS_def intro: same dest: mark split: if_split_asm)
  next
    case False
    with assms(4) show ?thesis by (auto simp: applyLiveStatus_def Let_def thenS_iff catchS_def retS_def dest: move split: prod.split_asm sum.split_asm)
  qed
qed

section \<open>The answer to a message\<close>

text \<open>What a worker reports of a command it has received: the identity of the message, and a status.\<close>

definition report_fields :: "live_row \<Rightarrow> string \<Rightarrow> (string \<times> js) list" where
  "report_fields r s =
     [(''schema_version'', js_int 1), (''command_id'', JStr (lv_command_id r)), (''sequence'', js_int (lv_sequence r)), (''status'', JStr s),
      (''run_id'', JStr (lv_run_id r)), (''node_id'', JStr (lv_node_id r)), (''session_id'', JStr (lv_session_id r)),
      (''round_id'', JStr (lv_round_id r)), (''actor_id'', JStr (lv_actor_id r)), (''generation'', js_int (lv_target_generation r)),
      (''lease_generation'', js_int (lv_lease_generation r)), (''expected_state_token'', JStr (lv_state_token r))]"

definition status_report :: "live_row \<Rightarrow> string \<Rightarrow> js" where
  "status_report r s = JObj [(''type'', JStr ''dag_actor_command_status''), (''data'', JObj (report_fields r s))]"

lemma report_data: "message_data ''dag_actor_command_status'' (status_report r s) = Some (report_fields r s)"
  by (simp add: message_data_def status_report_def obj_get_def only_keys_def)

lemma report_text:
  "text_of (report_fields r s) ''command_id'' = lv_command_id r" "text_of (report_fields r s) ''run_id'' = lv_run_id r"
  "text_of (report_fields r s) ''node_id'' = lv_node_id r" "text_of (report_fields r s) ''session_id'' = lv_session_id r"
  "text_of (report_fields r s) ''round_id'' = lv_round_id r" "text_of (report_fields r s) ''actor_id'' = lv_actor_id r"
  "text_of (report_fields r s) ''expected_state_token'' = lv_state_token r" "text_of (report_fields r s) ''status'' = s"
  "int_of (report_fields r s) ''generation'' = lv_target_generation r" "int_of (report_fields r s) ''sequence'' = lv_sequence r"
  "int_of (report_fields r s) ''lease_generation'' = lv_lease_generation r" "obj_get (report_fields r s) ''reason'' = JUndef"
  by (simp_all add: text_of_def int_of_def report_fields_def obj_get_def)

lemma report_echoes [simp]: "status_echoes (report_fields r s) r"
  by (simp add: status_echoes_def report_text)

lemma report_valid:
  assumes "validLiveCommand (live_message c)" and "s \<in> set WORKER_STATUSES"
  shows "validLiveStatus (status_report (lr_row c) s)"
proof -
  let ?d = "[(''schema_version'', js_int 1), (''command_id'', JStr (lv_command_id (lr_row c))), (''idempotency_key'', JStr (lv_idempotency_key (lr_row c))),
      (''sequence'', js_int (lv_sequence (lr_row c))), (''run_id'', JStr (lv_run_id (lr_row c))), (''node_id'', JStr (lv_node_id (lr_row c))),
      (''session_id'', JStr (lv_session_id (lr_row c))), (''round_id'', JStr (lv_round_id (lr_row c))), (''actor_id'', JStr (lv_actor_id (lr_row c))),
      (''generation'', js_int (lv_target_generation (lr_row c))), (''lease_generation'', js_int (lv_lease_generation (lr_row c))),
      (''expected_state_token'', JStr (lv_state_token (lr_row c))), (''payload'', lr_payload c)]"
  have "message_data ''dag_actor_command'' (live_message c) = Some ?d"
    by (simp add: message_data_def live_message_def Let_def obj_get_def only_keys_def)
  with assms(1) have id: "identity_valid ?d" by (simp add: validLiveCommand_def)
  then have "identity_valid (report_fields (lr_row c) s)" by (simp add: identity_valid_def report_fields_def obj_get_def)
  moreover have "only_keys (identity_keys @ [''status'', ''reason'']) (report_fields (lr_row c) s)"
    by (simp add: only_keys_def identity_keys_def report_fields_def)
  moreover have "obj_get (report_fields (lr_row c) s) ''status'' = JStr s" by (simp add: report_fields_def obj_get_def)
  ultimately show ?thesis using assms(2) unfolding validLiveStatus_def report_data by (simp add: report_text)
qed

definition report_fence :: "live_row \<Rightarrow> fence_data" where
  "report_fence r = \<lparr>fd_run_id = lv_run_id r, fd_node_id = lv_node_id r, fd_round_id = lv_round_id r, fd_actor_id = lv_actor_id r,
     fd_generation = lv_target_generation r, fd_lease_generation = lv_lease_generation r, fd_command_id = Some (lv_command_id r)\<rparr>"

definition report_complete :: "live_row \<Rightarrow> bool" where
  "report_complete r \<longleftrightarrow> (\<forall>s \<in> {lv_round_id r, lv_actor_id r, lv_command_id r}. js_trim s \<noteq> [] \<and> length s \<le> 256)
     \<and> 1 \<le> lv_target_generation r \<and> lv_target_generation r \<le> max_safe_integer
     \<and> 1 \<le> lv_lease_generation r \<and> lv_lease_generation r \<le> max_safe_integer"

lemma report_fence_message:
  assumes "report_complete r"
  shows "fence_message (fence_payload (report_fields r s)) = Some (report_fence r)"
proof -
  have pos: "positive_safe (Some (num_of_int (lv_target_generation r)))" "positive_safe (Some (num_of_int (lv_lease_generation r)))"
    using assms by (simp_all add: positive_safe_def report_complete_def)
  show ?thesis using assms pos
    by (simp add: fence_message_def fence_payload_def report_fields_def obj_get_def str_field_def num_field_def transportMetadataError_def
        report_fence_def report_complete_def)
qed

lemma fence_unexpired:
  assumes "assessDagTransportFence env penv clock runs payload source False db = (db, Inr (Fence_current d))"
  shows "assessDagTransportFence env penv clock runs payload source True db = (db, Inr (Fence_current d))"
  using assms unfolding assess_fence_current fence_lease_still by (auto simp: fence_lease_def)

text \<open>A transition to delivered of a queued command succeeds.\<close>

lemma rewritten_row_ok:
  assumes ok: "live_ok rows" and r: "r \<in> set rows" and same: "live_same r x" and x: "live_check x"
  shows "live_ok (rewritten (\<lambda>y. y = r) (\<lambda>_. x) rows)"
proof -
  have "list_all live_check (rewritten (\<lambda>y. y = r) (\<lambda>_. x) rows)" using ok x by (auto simp: live_ok_def rewritten_def list_all_iff)
  then show ?thesis using ok same unfolding live_ok_def
    by (auto intro!: unique_on_update simp: live_same_def live_key_def)
qed

lemma delivered_check:
  assumes "live_check r" and "lv_status r = Lv_queued" and "lv_created_at r \<le> now"
  shows "live_check (transitioned Lv_delivered None now r)"
  using assms by (simp add: live_check_def transitioned_def live_terminal_def coalesce_def opt_ge_def sql_reason_def)

lemma deliver_transition:
  assumes inv: "live_inv env db" and parse: "\<And>r. env_json_parse env (reason_json r) \<noteq> None"
    and r: "getLiveRow db k = Some r" "js_trim k = k" "k \<noteq> []" "length k \<le> 256" "\<not> list_ex control_char k" "lv_status r = Lv_queued"
    and now: "0 \<le> now" "now \<le> max_safe_integer" "lv_created_at r \<le> now"
  shows "\<exists>db' c. live_move env now k Lv_delivered None db = (db', Inr c) \<and> lr_row c = transitioned Lv_delivered None now r
    \<and> getLiveRow db' k = Some (lr_row c)"
proof -
  let ?x = "transitioned Lv_delivered None now r" and ?P = "\<lambda>s. lv_command_id s = k \<and> live_outstanding s"
  let ?db = "db\<lparr>db_live := rewritten (\<lambda>y. y = r) (\<lambda>_. ?x) (db_live db)\<rparr>"
  note ok = live_inv_lease(3) [OF inv]
  from getLiveRow_key [OF r(1)] have key: "lv_command_id r = k" "r \<in> set (db_live db)" by simp_all
  have only: "s = r" if "s \<in> set (db_live db)" "lv_command_id s = k" for s
    using live_row_unique [OF ok that(1) key(2)] that(2) key(1) by simp
  have out: "live_outstanding r" using r(6) by (simp add: live_outstanding_def)
  have hit: "?P s \<longleftrightarrow> s = r" if "s \<in> set (db_live db)" for s
    using only [OF that] key(1) out by blast
  have eq: "rewritten ?P (transitioned Lv_delivered None now) (db_live db) = rewritten (\<lambda>y. y = r) (\<lambda>_. ?x) (db_live db)"
    unfolding rewritten_def using hit by (intro map_cong refl) (simp split: if_split)
  have one: "length (filter ?P (db_live db)) = 1"
  proof -
    have "filter ?P (db_live db) = filter (\<lambda>y. y = r) (db_live db)" using hit by (intro filter_cong refl)
    moreover have "distinct (db_live db)" using ok by (auto simp: live_ok_def unique_on_def distinct_map)
    ultimately show ?thesis using key(2) by (simp add: filter_single)
  qed
  have same: "live_same r ?x" by (simp add: live_same_def transitioned_def)
  have ok': "live_ok (db_live ?db)"
    using rewritten_row_ok [OF ok key(2) same] delivered_check live_check_row [OF ok key(2)] r(6) now(3) by simp
  have readable: "live_readable env r" "live_readable env ?x"
    using inv key(2) by (auto simp: live_inv_def live_readable_def transitioned_def)
  have id: "lv_command_id ?x = lv_command_id r" by (simp add: transitioned_def)
  have found: "getLiveRow ?db k = Some ?x" using r(1) by (simp add: getLiveRow_def find_rewritten_row [OF id])
  obtain c where c: "commandFromLiveRow env r = (Inr c :: live_conflict err + _)" "lr_row c = r"
    using readable_command [OF parse readable(1)] by blast
  obtain c' where c': "commandFromLiveRow env ?x = (Inr c' :: live_conflict err + _)" "lr_row c' = ?x"
    using readable_command [OF parse readable(2)] by blast
  have id_ok: "assertPrintable 256 k what = (Inr k :: live_conflict err + _)" for what using r(2-5) by (simp add: assertPrintable_Inr)
  have req: "requireLiveCommand env db k = Inr c" "requireLiveCommand env ?db k = Inr c'"
    using r(1) found c c' id_ok by (simp_all add: requireLiveCommand_def getDagActorLiveCommand_def optE_def)
  have "transitionDagActorLiveCommand env now \<lparr>tl_command_id = k, tl_status = Lv_delivered, tl_reason = None, tl_transitioned_at = None\<rparr> db
      = Inr (?db, live_done True c')"
    using req c(2) r(6) now ok' eq one id_ok
    by (simp add: transitionDagActorLiveCommand_def or_clock_def assertTimestamp_def live_terminal_def live_updated_def sql_update_def
        needs_reason_def Let_def)
  then have "live_move env now k Lv_delivered None db = (?db, Inr c')" by (simp add: live_move_def thenS_def transactS_def retS_def)
  with found c'(2) show ?thesis by auto
qed

lemma report_accepted:
  assumes inv: "live_inv env db" and parse: "\<And>r. env_json_parse env (reason_json r) \<noteq> None"
    and opened: "\<And>r n z. wd_session w r n z = (z, Inr (sess r n))"
    and sent: "trySendDagActorLiveCommand env clock w k db = (db1, Inr a)" "at_message a = Some (i, message)"
    and run: "map_of (wd_runs w) (lv_run_id (lr_row (at_command a))) = Some run" "js_trim (ru_round_id run) = ru_round_id run"
      "lv_node_id (lr_row (at_command a)) \<notin> set (handoffedNodes (ru_dag run))"
      "\<forall>r n s. sess r n = Some s \<longrightarrow> js_trim s = s"
    and free: "getCommandRow db (js_trim k) = None"
    and lease: "getLeaseRow db (js_trim (lv_run_id (lr_row (at_command a)))) (js_trim (lv_actor_id (lr_row (at_command a)))) = Some l"
      "lr_target_type l = Some ''worker''" "lr_pinned l \<or> now 0 < the (lr_idle_deadline l)"
    and now: "0 \<le> now 0" "now 0 \<le> max_safe_integer" "lv_created_at (lr_row (at_command a)) \<le> now 3" "0 \<le> now 3" "now 3 \<le> max_safe_integer"
  shows "\<exists>db2 c. handleDagActorLiveCommandStatus env penv now w \<lparr>ts_target_type = ''worker'', ts_target_id = i\<rparr>
      (status_report (lr_row (at_command a)) ''accepted'') db1 = (db2, Inr (Advanced c))
    \<and> lr_row c = transitioned Lv_delivered None (now 3) (lr_row (at_command a)) \<and> getLiveRow db2 (js_trim k) = Some (lr_row c)"
proof -
  define x where "x = lr_row (at_command a)"
  let ?src = "\<lparr>ts_target_type = ''worker'', ts_target_id = i\<rparr>" and ?d = "report_fields x ''accepted''"
  from try_send_sent [OF inv sent(1)] sent(2) obtain r run' l' j s where r: "getLiveRow db (js_trim k) = Some r" "lv_status r = Lv_queued"
    "sendable w db r j run' l'" and session: "sess (lv_run_id r) (lv_node_id r) = Some s"
    and send: "sendLiveMessage env clock w (js_trim k) s (ru_round_id run') (lr_generation l') j db = (db1, Inr a)"
    and bounds: "bounded_id 256 (js_trim (lv_run_id r))" "bounded_id 256 (js_trim (lv_actor_id r))"
    by (auto simp: opened)
  note sm = send_message_row [OF live_inv_lease(3) [OF inv] r(1) js_trim_idem r(2) send sent(2)]
  then have m: "j = i" "message = live_message (at_command a)" "validLiveCommand message" "one_moved db db1 r x"
    and x: "x = r\<lparr>lv_session_id := js_trim s, lv_round_id := js_trim (ru_round_id run'), lv_lease_generation := lr_generation l',
      lv_attempts := lv_attempts r + 1, lv_last_sent_at := Some (clock 0), lv_fallback_json := None, lv_updated_at := clock 0\<rparr>"
    unfolding x_def by blast+
  have same: "run' = run" "l' = l" using r(3) run(1) lease(1) x by (auto simp: sendable_def x_def)
  have db1: "db1 = db\<lparr>db_live := rewritten (\<lambda>y. y = r) (\<lambda>_. x) (db_live db)\<rparr>" using m(4) by (simp add: one_moved_def)
  have x1: "getLiveRow db1 (js_trim k) = Some x" by (rule one_moved_row [OF m(4) r(1)])
  have "sessions_ok env penv w" by (simp add: sessions_ok_def stays_def opened)
  from live_store.steps_inv [OF staysD [OF try_send_stays [OF this] sent(1)] inv] have inv1: "live_inv env db1" .
  from sent(1) obtain f where "getDagActorLiveCommand env k db = Inr f" by (auto simp: trySendDagActorLiveCommand_def thenS_Inr readS_Inr)
  then have k: "js_trim k \<noteq> []" "length (js_trim k) \<le> 256" "\<not> list_ex control_char (js_trim k)"
    by (auto simp: getDagActorLiveCommand_def bindE_Inr assertPrintable_Inr)
  have id: "lv_command_id x = js_trim k" using getLiveRow_key [OF x1] by simp
  have fields: "lv_run_id x = lv_run_id r" "lv_actor_id x = lv_actor_id r" "lv_node_id x = lv_node_id r" "lv_status x = Lv_queued"
    "lv_target_generation x = lv_target_generation r" "lv_round_id x = ru_round_id run" "lv_lease_generation x = lr_generation l"
    "lv_session_id x = s" using r(2) run(2,4) session same by (simp_all add: x)
  have "validLiveStatus (status_report x ''accepted'')" using report_valid [of "at_command a" "''accepted''"] m(2,3) by (simp add: x_def WORKER_STATUSES_def)
  note valid = this
  have iv: "identity_valid (report_fields x ''accepted'')" using valid by (simp add: validLiveStatus_def report_data)
  have "report_complete x"
    using iv k id fields bounds run(2) x by (auto simp: report_complete_def identity_valid_def report_fields_def obj_get_def schema_text_def schema_count_def bounded_id_def)
  note msg = report_fence_message [OF this]
  have "lease_inv db" by (rule live_inv_lease(2) [OF inv])
  from getLeaseRow_valid [OF this lease(1)] have tr: "js_trim i = i" using r(3) m(1) same by (auto simp: lease_valid_iff trimmed_def sendable_def)
  have ww: "js_trim ''worker'' = ''worker''" by code_simp
  have "command_open db1 (report_fence x) (lv_command_id x)"
    using k x1 id fields free db1 by (simp add: command_open_def report_fence_def getCommandRow_def)
  moreover have "lease_speaks db1 (now 0) ?src (report_fence x)"
    using r(3) lease m(1) same tr ww bounds fields db1 by (simp add: lease_speaks_def report_fence_def sendable_def getLeaseRow_def x_def [symmetric])
  moreover obtain b where b: "getActorRow db1 (lv_run_id x) (lv_actor_id x) = Some b" "ac_node_id b = lv_node_id x" "ac_generation b = lv_target_generation x"
    using r(3) fields db1 by (auto simp: sendable_def getActorRow_def)
  moreover have run1: "map_of (wd_runs w) (lv_run_id x) = Some run" "ru_status run = Run_active" using r(3) fields same by (simp_all add: sendable_def)
  ultimately have "speaks_for (wd_runs w) db1 (now 0) ?src (report_fence x)"
    using run(3) fields by (simp add: speaks_for_def report_fence_def x_def [symmetric])
  with msg fence_iff [OF inv1 parse, where clock = now, OF now(1,2)]
  have "assessDagTransportFence env penv now (wd_runs w) (fence_payload ?d) ?src False db1 = (db1, Inr (Fence_current (report_fence x)))" by blast
  note fence = fence_unexpired [OF this]
  have x_mem: "x \<in> set (db_live db1)" using getLiveRow_key [OF x1] by simp
  then have "live_readable env x" using inv1 by (simp add: live_inv_def)
  from readable_command [OF parse this] obtain c where c: "commandFromLiveRow env x = (Inr c :: live_conflict err + _)" "lr_row c = x" by blast
  then have read: "getDagActorLiveCommand env (lv_command_id x) db1 = Inr (Some c)"
    using x1 id k by (simp add: getDagActorLiveCommand_def assertPrintable_Inr bindE_Inr optE_Inr)
  have "actor_inv env db1" using inv1 by (simp add: live_inv_def lease_store_inv_def)
  from actor_by_node [OF this, of "lv_run_id x" "lv_node_id x" b] b getActorRow_key [OF b(1)]
  have "actor_parses env b" by (auto simp: getDagActorByNode_def optE_Inr actorFromRow_Inr)
  then have actor: "getDagActor env db1 (lv_run_id x) (lv_actor_id x) = (Inr (Some b) :: live_conflict err + _)"
    using b(1) by (simp add: getDagActor_def optE_Inr actorFromRow_Inr)
  have held: "getDagActorLease (lv_run_id x) (lv_actor_id x) db1 = Inr (Some l)"
    using getDagActorLease_inv [OF live_inv_lease(2) [OF inv1]] bounds fields lease(1) db1
    by (simp add: bounded_id_def getLeaseRow_def x_def [symmetric])
  have fenced: "status_fenced ?src ?d (Some run) (Some b) (Some l) (sess (lv_run_id x) (lv_node_id x))"
    using run1 b fields session lease(2) r(3) same m(1)
    by (simp add: status_fenced_def report_text sendable_def lease_target_type_def)
  have target: "isCurrentDispatchTarget (lv_run_id x) (lv_node_id x) ''worker'' i (wd_tracker w)"
    using r(3) fields m(1) by (simp add: sendable_def)
  obtain db2 c' where moved: "live_move env (now 3) (lv_command_id x) Lv_delivered None db1 = (db2, Inr c')"
    and final: "lr_row c' = transitioned Lv_delivered None (now 3) x" "getLiveRow db2 (js_trim k) = Some (lr_row c')"
    using deliver_transition [OF inv1 parse x1 js_trim_idem k(1-3) fields(4) now(4,5)] now(3) id by (auto simp: x_def [symmetric])
  have "handleDagActorLiveCommandStatus env penv now w ?src (status_report x ''accepted'') db1 = (db2, Inr (Advanced c'))"
    using valid read fence actor held fenced target moved run1
    by (simp add: handleDagActorLiveCommandStatus_def report_data report_text thenS_def catchS_def readS_def retS_def opened c(2)
        applyLiveStatus_def plain_def Let_def)
  with final show ?thesis by (auto simp: x_def [symmetric])
qed

section \<open>A demonstration\<close>

text \<open>One worker, which holds the lease of the one actor; its node is running, and one command is queued for it.\<close>

definition delivery_lease :: lease_row where
  "delivery_lease = leased_row\<lparr>lr_target_type := Some ''worker'', lr_target_id := Some ''w1''\<rparr>"

definition delivery_demo :: live_db where
  "delivery_demo = live_demo2\<lparr>db_leases := [delivery_lease]\<rparr>"

definition delivery_world :: "(string, live_db) world" where
  "delivery_world = \<lparr>wd_runs = [(''r'', \<lparr>ru_status = Run_active, ru_round_id = ''o'', ru_ordinal = 1,
       ru_dag = \<lparr>runId = ''r'', graph = \<lparr>nodes = [], edges = []\<rparr>, loopSources = [], nodeStates = [(''n'', RUNNING)], handoffedNodes = [],
         afterSatisfied = [], inputSatisfied = [], mailboxes = []\<rparr>\<rparr>)],
     wd_tracker = recordProvisioning 1 ''r'' ''m'' (fst (fst (recordDispatch 1 ''r'' ''n'' ''worker'' ''w1'' (no_dispatches,
        \<lparr>db_runs = [], db_actors = [], db_commands = [], db_interventions = [], db_exclusions = [], db_snapshots = []\<rparr>)))),
     wd_workers = [(''w1'', \<lparr>pe_open = True, pe_capabilities = [LIVE_CAPABILITY]\<rparr>)], wd_nodes = [],
     wd_session = \<lambda>_ _. retS (Some ''s''), wd_token = \<lambda>_ _ _. Inr [], wd_write = \<lambda>_ _. None, wd_schema_error = \<lambda>_. []\<rparr>"

definition delivery_row :: live_row where
  "delivery_row = live_demo_row\<lparr>lv_session_id := ''s'', lv_round_id := ''o'', lv_lease_generation := 1, lv_attempts := 1,
     lv_last_sent_at := Some 10, lv_updated_at := 10\<rparr>"

definition delivery_demo1 :: live_db where
  "delivery_demo1 = delivery_demo\<lparr>db_live := [delivery_row]\<rparr>"

lemma delivery_acquired: "acquireDagActorLease (\<lambda>_. None) 0 (lease_demo_in\<lparr>li_target_type := ''worker'', li_target_id := ''w1''\<rparr>) live_demo2 = Inr (delivery_demo, delivery_lease)"
  by code_simp

lemma delivery_id: "assertPrintable 256 live_demo_id what = (Inr live_demo_id :: live_conflict err + _)"
proof -
  have "assertPrintable 256 live_demo_id ''x'' = (Inr live_demo_id :: unit err + _)" by code_simp
  then show ?thesis by (simp add: assertPrintable_Inr)
qed

lemma delivery_fields: "lv_command_id live_demo_row = live_demo_id" "lv_status live_demo_row = Lv_queued" "lv_run_id live_demo_row = ''r''"
  "lv_actor_id live_demo_row = ''a''" "lv_node_id live_demo_row = ''n''" "lv_target_generation live_demo_row = 1" "lv_created_at live_demo_row = 6"
  by (simp_all add: live_demo_row_def newLiveRow_def live_demo_new_def)

lemma delivery_row_ok: "live_ok [delivery_row]"
  by (simp_all add: live_ok_def unique_on_def live_check_def live_demo_row_def delivery_row_def newLiveRow_def 
      live_demo_new_def live_demo_id_def sql_id_def sql_document_def sql_reason_def opt_ge_def coalesce_def live_terminal_def)

lemma delivery_row_read: "commandFromLiveRow demo_env delivery_row = Inr (live_demo_command delivery_row)"
  by (simp_all add: commandFromLiveRow_def live_demo_command_def live_demo_row_def delivery_row_def newLiveRow_def demo_env_def decodeReason_def)

lemma delivery_command: "getDagActorLiveCommand demo_env live_demo_id delivery_demo = Inr (Some (live_demo_command live_demo_row))"
  by (simp add: getDagActorLiveCommand_def delivery_id getLiveRow_def delivery_demo_def live_demo2_def delivery_fields live_demo_read optE_def)

lemma delivery_round: "getDagActorCommand demo_env delivery_demo live_demo_id = (Inr None :: live_conflict err + _)" 
  by (simp add: getDagActorCommand_def getCommandRow_def delivery_demo_def live_demo2_def live_demo1_def live_demo0_def optE_def)

lemma delivery_actor: "getDagActor demo_env delivery_demo ''r'' ''a'' = (Inr (Some demo_row) :: live_conflict err + _)" by code_simp

lemma delivery_held: "getDagActorLease ''r'' ''a'' delivery_demo = Inr (Some delivery_lease)" by code_simp

lemma delivery_socket: "targetSocket delivery_world live_demo_row = Some (''worker'', ''w1'', \<lparr>pe_open = True, pe_capabilities = [LIVE_CAPABILITY]\<rparr>)" by code_simp

lemma delivery_attempt: "recordDagActorLiveCommandSendAttempt demo_env 10 \<lparr>sa_command_id = live_demo_id, sa_session_id = ''s'', sa_round_id = ''o'',
   sa_lease_generation = num_of_int 1, sa_sent_at = None\<rparr> delivery_demo = Inr (delivery_demo1, live_done True (live_demo_command delivery_row))"
proof -
  have "assertPrintable 512 ''s'' ''session_id'' = (Inr ''s'' :: live_conflict err + _)" "assertPrintable 256 ''o'' ''round_id'' = (Inr ''o'' :: live_conflict err + _)"
    "positiveSafeInteger (num_of_int 1) ''lease_generation'' = (Inr 1 :: live_conflict err + _)"
    "assertTimestamp (or_clock None 10) ''sent_at'' = (Inr 10 :: live_conflict err + _)" by code_simp+
  moreover have "lv_command_id delivery_row = live_demo_id" by (simp add: delivery_row_def delivery_fields)
  moreover have "live_demo_row\<lparr>lv_session_id := ''s'', lv_round_id := ''o'', lv_lease_generation := 1, lv_attempts := lv_attempts live_demo_row + 1,
     lv_last_sent_at := Some 10, lv_fallback_json := None, lv_updated_at := 10\<rparr> = delivery_row"
    by (simp add: delivery_row_def live_demo_row_def newLiveRow_def)
  ultimately show ?thesis
    by (simp add: recordDagActorLiveCommandSendAttempt_def delivery_id requireLiveCommand_def getDagActorLiveCommand_def getLiveRow_def delivery_demo_def live_demo2_def optE_def
        live_demo_read live_demo_command_def delivery_fields live_updated_def sql_update_def rewritten_def delivery_row_ok delivery_row_read delivery_demo1_def Let_def)
qed

lemma delivery_valid: "validLiveCommand (live_message (live_demo_command delivery_row))" by code_simp

lemma thenS_weak_cong: "m = m' \<Longrightarrow> s = s' \<Longrightarrow> thenS m f s = thenS m' f s'"
  by simp

lemma delivery_sent: "trySendDagActorLiveCommand demo_env (\<lambda>_. 10) delivery_world live_demo_id delivery_demo = (delivery_demo1,
    Inr \<lparr>at_command = live_demo_command delivery_row, at_message = Some (''w1'', live_message (live_demo_command delivery_row))\<rparr>)"
proof -
  have "map_of (wd_runs delivery_world) ''r'' = Some (snd (hd (wd_runs delivery_world)))" "ru_status (snd (hd (wd_runs delivery_world))) = Run_active"
    "ru_round_id (snd (hd (wd_runs delivery_world))) = ''o''" "state_of (ru_dag (snd (hd (wd_runs delivery_world)))) ''n'' = Some RUNNING"
    "ac_node_id demo_row = ''n''" "ac_generation demo_row = 1" "lr_state delivery_lease = Leased"
    "lease_target_type delivery_lease = Some ''worker''" "lr_target_id delivery_lease = Some ''w1''" "lr_generation delivery_lease = 1"
    "wd_session delivery_world = (\<lambda>_ _. retS (Some ''s''))" "wd_write delivery_world = (\<lambda>_ _. None)"
    by (simp_all add: delivery_world_def demo_row_def delivery_lease_def leased_row_def lease_target_type_def)
  note world = this
  have cur: "getLiveRow delivery_demo live_demo_id = Some live_demo_row" "live_ok (db_live delivery_demo)"
    by (simp_all add: getLiveRow_def delivery_demo_def live_demo2_def delivery_fields live_demo_ok)
  have trim: "js_trim live_demo_id = live_demo_id" using delivery_id [of "[]"] by (simp add: assertPrintable_Inr)
  have reread: "requireLiveCommand demo_env delivery_demo1 live_demo_id = Inr (live_demo_command delivery_row)"
    using send_row [OF cur(2) _ delivery_fields(2) delivery_attempt] cur(1) trim by simp
  have row: "lr_row (live_demo_command q) = q" for q by (simp add: live_demo_command_def)
  have send: "sendLiveMessage demo_env (\<lambda>_. 10) delivery_world live_demo_id ''s'' ''o'' 1 ''w1'' delivery_demo = (delivery_demo1,
      Inr \<lparr>at_command = live_demo_command delivery_row, at_message = Some (''w1'', live_message (live_demo_command delivery_row))\<rparr>)"
    unfolding sendLiveMessage_def
    by (simp add: transactS_apply(1) delivery_attempt [simplified] delivery_valid world reread Let_def cong: thenS_weak_cong)
  show ?thesis
    unfolding trySendDagActorLiveCommand_def
    by (simp add: delivery_command delivery_round delivery_actor delivery_held delivery_socket delivery_fields row world send linked_def
        plain_def Let_def cong: thenS_weak_cong)
qed

lemma delivery_reach: "reach live_init (live_step demo_env (\<lambda>_. None)) delivery_demo"
  using live_demo_reach(2) lv_lease [OF ls_acquire [OF delivery_acquired]] by (blast intro: reach_step)


lemma delivery_opened: "wd_session delivery_world r n z = (z, Inr (Some ''s''))"
  by (simp add: delivery_world_def)

lemma delivery_sessions: "sessions_ok demo_env (\<lambda>_. None) delivery_world"
  by (simp add: sessions_ok_def stays_def delivery_opened)

lemma delivery_reach1: "reach live_init (live_step demo_env (\<lambda>_. None)) delivery_demo1"
  by (rule reach_step [OF delivery_reach lv_send [OF delivery_attempt]])

lemma delivery_row_simps: "lv_run_id delivery_row = ''r''" "lv_actor_id delivery_row = ''a''" "lv_node_id delivery_row = ''n''"
  "lv_created_at delivery_row = 6" "lv_command_id delivery_row = live_demo_id"
  by (simp_all add: delivery_row_def delivery_fields)

lemma delivery_lease_simps: "lr_target_type delivery_lease = Some ''worker''" "lr_idle_deadline delivery_lease = Some 19"
  by (simp_all add: delivery_lease_def leased_row_def)

lemma delivery_run: "map_of (wd_runs delivery_world) ''r'' = Some (snd (hd (wd_runs delivery_world)))"
  "ru_round_id (snd (hd (wd_runs delivery_world))) = ''o''" "handoffedNodes (ru_dag (snd (hd (wd_runs delivery_world)))) = []"
  by (simp_all add: delivery_world_def)

lemma delivery_ready: "getLeaseRow delivery_demo (js_trim ''r'') (js_trim ''a'') = Some delivery_lease" "js_trim ''o'' = ''o''" "js_trim ''s'' = ''s''"
  "getCommandRow delivery_demo (js_trim live_demo_id) = None" "env_json_parse demo_env (reason_json q) \<noteq> None"
proof -
  show "getLeaseRow delivery_demo (js_trim ''r'') (js_trim ''a'') = Some delivery_lease" "js_trim ''o'' = ''o''" "js_trim ''s'' = ''s''" by code_simp+
  show "getCommandRow delivery_demo (js_trim live_demo_id) = None"
    by (simp add: getCommandRow_def delivery_demo_def live_demo2_def live_demo1_def live_demo0_def)
  show "env_json_parse demo_env (reason_json q) \<noteq> None" by (simp add: demo_env_def)
qed

lemma delivery_accepted: "\<exists>db2 c. handleDagActorLiveCommandStatus demo_env (\<lambda>_. None) (\<lambda>_. 11) delivery_world
    \<lparr>ts_target_type = ''worker'', ts_target_id = ''w1''\<rparr> (status_report delivery_row ''accepted'') delivery_demo1 = (db2, Inr (Advanced c))
    \<and> db_live db2 \<noteq> db_live delivery_demo1"
proof -
  have trim: "js_trim live_demo_id = live_demo_id" using delivery_id [of "[]"] by (simp add: assertPrintable_Inr)
  have "\<exists>db2 c. handleDagActorLiveCommandStatus demo_env (\<lambda>_. None) (\<lambda>_. 11) delivery_world
      \<lparr>ts_target_type = ''worker'', ts_target_id = ''w1''\<rparr> (status_report delivery_row ''accepted'') delivery_demo1 = (db2, Inr (Advanced c))
    \<and> lr_row c = transitioned Lv_delivered None 11 delivery_row \<and> getLiveRow db2 (js_trim live_demo_id) = Some (lr_row c)"
    using report_accepted [OF live_store.reach_inv [OF delivery_reach] delivery_ready(5) delivery_opened delivery_sent, where now = "\<lambda>_. 11" and i = "''w1''"]
    by (simp add: live_demo_command_def delivery_row_simps delivery_run max_safe_integer_def delivery_lease_simps delivery_ready(1-4))
  then obtain db2 c where h: "handleDagActorLiveCommandStatus demo_env (\<lambda>_. None) (\<lambda>_. 11) delivery_world
      \<lparr>ts_target_type = ''worker'', ts_target_id = ''w1''\<rparr> (status_report delivery_row ''accepted'') delivery_demo1 = (db2, Inr (Advanced c))"
    "lr_row c = transitioned Lv_delivered None 11 delivery_row" "getLiveRow db2 live_demo_id = Some (lr_row c)" unfolding trim by blast
  have "getLiveRow delivery_demo1 live_demo_id = Some delivery_row" by (simp add: getLiveRow_def delivery_demo1_def delivery_row_simps)
  moreover have "lv_status (lr_row c) \<noteq> lv_status delivery_row" by (simp add: h(2) transitioned_def delivery_row_def delivery_fields)
  ultimately have "db_live db2 \<noteq> db_live delivery_demo1" using h(3) by (auto simp: getLiveRow_def)
  with h(1) show ?thesis by blast
qed

section \<open>Properties\<close>

text \<open>C28. A command is sent only if its run is active, its node running, its actor in the command's generation, and the node's current
  dispatch target a connected worker with the live-command capability that holds the actor's lease; the worker then gets a valid message of
  the command as it is stored, in the lease's generation, and the command stays queued: no other command changes.\<close>

theorem live_send_fenced:
  assumes "reach live_init (live_step env penv) db" and sessions: "sessions_ok env penv w"
    and sent: "trySendDagActorLiveCommand env clock w k db = (db', Inr a)" "at_message a = Some (i, message)"
  shows "\<exists>r run l. getLiveRow db (js_trim k) = Some r \<and> sendable w db r i run l
    \<and> wd_write w i message = None \<and> validLiveCommand message \<and> message = live_message (at_command a)
    \<and> db_live db' = rewritten (\<lambda>x. x = r) (\<lambda>_. lr_row (at_command a)) (db_live db)
    \<and> live_same r (lr_row (at_command a)) \<and> lv_status (lr_row (at_command a)) = Lv_queued
    \<and> lv_round_id (lr_row (at_command a)) = js_trim (ru_round_id run) \<and> lv_lease_generation (lr_row (at_command a)) = lr_generation l
    \<and> lv_attempts (lr_row (at_command a)) = lv_attempts r + 1"
proof -
  note inv = live_store.reach_inv [OF assms(1)]
  from try_send_sent [OF inv sent(1)] sent(2) obtain r run l j s db1 where r: "getLiveRow db (js_trim k) = Some r" "lv_status r = Lv_queued"
    "sendable w db r j run l" and session: "wd_session w (lv_run_id r) (lv_node_id r) db = (db1, Inr (Some s))"
    and send: "sendLiveMessage env clock w (js_trim k) s (ru_round_id run) (lr_generation l) j db1 = (db', Inr a)" by auto
  have "(lease_step env penv)\<^sup>*\<^sup>* db db1"
    by (rule session_steps [OF sessions session])
  with lease_steps_frame live_inv_lease(1) [OF inv] have same: "db_live db1 = db_live db" by blast
  then have "live_ok (db_live db1)" "getLiveRow db1 (js_trim k) = Some r" using live_inv_lease(3) [OF inv] r(1) by (simp_all add: getLiveRow_def)
  from send_message_row [OF this _ r(2) send sent(2)] r same show ?thesis
    by (auto simp: one_moved_def live_same_def)
qed

theorem live_send_fenced_witness:
  "\<exists>r run l. getLiveRow delivery_demo (js_trim live_demo_id) = Some r \<and> sendable delivery_world delivery_demo r ''w1'' run l
    \<and> lv_lease_generation delivery_row = lr_generation l \<and> lv_attempts delivery_row = lv_attempts r + 1"
proof -
  have "sessions_ok demo_env (\<lambda>_. None) delivery_world" by (simp add: sessions_ok_def stays_def delivery_world_def)
  from live_send_fenced [OF delivery_reach this delivery_sent, of "''w1''"] show ?thesis by (simp add: live_demo_command_def) blast
qed

text \<open>C29. A status report changes a command only if it echoes that command as it is stored, and its sender is the worker that the command's
  node is dispatched to and holds the lease of its actor, in the generations of the command, in the current round of an active run; then
  the command moves forward and no other changes.\<close>

theorem live_status_fenced:
  assumes "reach live_init (live_step env penv) db" and sessions: "sessions_ok env penv w"
    and handled: "handleDagActorLiveCommandStatus env penv clock w source message db = (db', res)" and changed: "db_live db' \<noteq> db_live db"
  shows "\<exists>d r x run db1. message_data ''dag_actor_command_status'' message = Some d
    \<and> getLiveRow db (js_trim (text_of d ''command_id'')) = Some r \<and> status_echoes d r
    \<and> map_of (wd_runs w) (lv_run_id r) = Some run \<and> ru_status run = Run_active \<and> ru_round_id run = lv_round_id r
    \<and> isCurrentDispatchTarget (lv_run_id r) (lv_node_id r) (ts_target_type source) (ts_target_id source) (wd_tracker w)
    \<and> (lease_step env penv)\<^sup>*\<^sup>* db db1
    \<and> (\<exists>a. getActorRow db1 (lv_run_id r) (lv_actor_id r) = Some a \<and> ac_node_id a = lv_node_id r \<and> ac_generation a = lv_target_generation r)
    \<and> (\<exists>l. getLeaseRow db1 (js_trim (lv_run_id r)) (js_trim (lv_actor_id r)) = Some l \<and> lr_state l = Leased
         \<and> lr_generation l = lv_lease_generation r \<and> lease_target_type l = Some (ts_target_type source) \<and> lr_target_id l = Some (ts_target_id source))
    \<and> live_forward r x \<and> db_live db' = rewritten (\<lambda>y. y = r) (\<lambda>_. x) (db_live db)"
proof -
  note inv = live_store.reach_inv [OF assms(1)]
  have keep: "db_live t = db_live s \<and> lease_store_inv env t" if "(lease_step env penv)\<^sup>*\<^sup>* s t" "lease_store_inv env s" for s t
    using lease_steps_frame [OF that] .
  define d where "d = the (message_data ''dag_actor_command_status'' message)"
  have valid: "validLiveStatus message"
    using handled changed by (auto simp: handleDagActorLiveCommandStatus_def retS_def split: if_split_asm)
  then have d: "message_data ''dag_actor_command_status'' message = Some d"
    by (cases "message_data ''dag_actor_command_status'' message") (simp_all add: validLiveStatus_def d_def)
  obtain c where c: "getDagActorLiveCommand env (text_of d ''command_id'') db = Inr (Some c)"
    using handled changed valid
    by (cases "getDagActorLiveCommand env (text_of d ''command_id'') db"; cases "projr (getDagActorLiveCommand env (text_of d ''command_id'') db)")
       (auto simp: handleDagActorLiveCommandStatus_def d_def [symmetric] thenS_def catchS_def readS_def retS_def Let_def)
  obtain db1 fr where fence: "assessDagTransportFence env penv clock (wd_runs w) (fence_payload d) source True db = (db1, fr)"
    by (cases "assessDagTransportFence env penv clock (wd_runs w) (fence_payload d) source True db")
  from keep [OF fence_steps [OF fence] live_inv_lease(1) [OF inv]] have k1: "db_live db1 = db_live db" "lease_store_inv env db1" by simp_all
  have k2: "db_live t = db_live db" if "wd_session w run n db1 = (t, q)" for run n t q
    using keep [OF session_steps [OF sessions that] k1(2)] k1(1) by simp
  let ?run = "text_of d ''run_id''" and ?node = "text_of d ''node_id''" and ?actor = "text_of d ''actor_id''"
  obtain x where x: "fr = Inr (Fence_current x)"
    using handled changed valid c fence k1(1)
    by (cases fr; cases "projr fr")
       (auto simp: handleDagActorLiveCommandStatus_def d_def [symmetric] thenS_def catchS_def readS_def retS_def plain_def Let_def)
  have "\<exists>actor lease session db2. isCurrentDispatchTarget ?run ?node (ts_target_type source) (ts_target_id source) (wd_tracker w)
      \<and> getDagActor env db1 ?run ?actor = (Inr actor :: live_conflict err + _) \<and> getDagActorLease ?run ?actor db1 = Inr lease
      \<and> wd_session w ?run ?node db1 = (db2, Inr session)
      \<and> status_fenced source d (map_of (wd_runs w) ?run) actor lease session \<and> status_echoes d (lr_row c)
      \<and> applyLiveStatus env (clock 3) d (lr_row c) db2 = (db', res)"
    using handled changed valid c fence k1(1) x
    by (auto simp: handleDagActorLiveCommandStatus_def d_def [symmetric] thenS_iff catchS_def readS_def retS_def Let_def
        dest: k2 split: if_split_asm)
  then obtain actor lease session db2 where f: "isCurrentDispatchTarget ?run ?node (ts_target_type source) (ts_target_id source) (wd_tracker w)"
      "getDagActor env db1 ?run ?actor = (Inr actor :: live_conflict err + _)" "getDagActorLease ?run ?actor db1 = Inr lease"
      "wd_session w ?run ?node db1 = (db2, Inr session)"
      "status_fenced source d (map_of (wd_runs w) ?run) actor lease session" "status_echoes d (lr_row c)"
      "applyLiveStatus env (clock 3) d (lr_row c) db2 = (db', res)" by blast
  from f(5) obtain run a l where g: "map_of (wd_runs w) ?run = Some run" "actor = Some a" "lease = Some l"
    by (auto simp: status_fenced_def split: option.splits)
  from f(2) g(2) have a: "getActorRow db1 ?run ?actor = Some a" by (auto simp: getDagActor_def optE_Inr actorFromRow_Inr)
  from f(3) g(3) k1(2) have l: "getLeaseRow db1 (js_trim ?run) (js_trim ?actor) = Some l" by (auto simp: lease_store_inv_def dest: lease_read)
  from command_id_trimmed [OF inv c] have row: "getLiveRow db (js_trim (text_of d ''command_id'')) = Some (lr_row c)"
    "lv_command_id (lr_row c) = js_trim (text_of d ''command_id'')" by simp_all
  from k2 [OF f(4)] row live_inv_lease(3) [OF inv] have "live_ok (db_live db2)" "getLiveRow db2 (lv_command_id (lr_row c)) = Some (lr_row c)"
    by (simp_all add: getLiveRow_def)
  from apply_status_row [OF this _ f(7)] row(2) obtain y where y: "one_moved db2 db' (lr_row c) y" by auto
  with k2 [OF f(4)] changed have moved: "live_forward (lr_row c) y" "db_live db' = rewritten (\<lambda>x. x = lr_row c) (\<lambda>_. y) (db_live db)"
    by (auto simp: one_moved_def live_evolves_def)
  show ?thesis
    using d row(1) f(1,5,6) g a l moved fence_steps [OF fence] by - (rule exI [of _ d], rule exI [of _ "lr_row c"], rule exI [of _ y], rule exI [of _ run], rule exI [of _ db1],
            auto simp: status_fenced_def status_echoes_def)
qed

theorem live_status_fenced_witness:
  "\<exists>r x. getLiveRow delivery_demo1 (js_trim live_demo_id) = Some r \<and> live_forward r x
    \<and> db_live (fst (handleDagActorLiveCommandStatus demo_env (\<lambda>_. None) (\<lambda>_. 11) delivery_world \<lparr>ts_target_type = ''worker'', ts_target_id = ''w1''\<rparr>
      (status_report delivery_row ''accepted'') delivery_demo1)) = rewritten (\<lambda>y. y = r) (\<lambda>_. x) (db_live delivery_demo1)"
proof -
  obtain db2 c where h: "handleDagActorLiveCommandStatus demo_env (\<lambda>_. None) (\<lambda>_. 11) delivery_world \<lparr>ts_target_type = ''worker'', ts_target_id = ''w1''\<rparr>
      (status_report delivery_row ''accepted'') delivery_demo1 = (db2, Inr (Advanced c))" "db_live db2 \<noteq> db_live delivery_demo1"
    using delivery_accepted by blast
  from live_status_fenced [OF delivery_reach1 delivery_sessions h] h(1) report_text(1) delivery_row_simps show ?thesis
    by (auto simp: report_data)
qed

text \<open>C30. A worker that has just been sent a command and reports it accepted, before its lease runs out, is believed: the command is then
  delivered, at the time of the report. The run must not have taken the node's handoff meanwhile, its round must have a trimmed
  identifier, the lease must be held as \<open>worker\<close>, and sessions must be open.\<close>

theorem live_report_accepted:
  assumes "reach live_init (live_step env penv) db" and parse: "\<And>r. env_json_parse env (reason_json r) \<noteq> None"
    and opened: "\<And>r n z. wd_session w r n z = (z, Inr (sess r n))"
    and sent: "trySendDagActorLiveCommand env clock w k db = (db1, Inr a)" "at_message a = Some (i, message)"
    and run: "map_of (wd_runs w) (lv_run_id (lr_row (at_command a))) = Some run" "js_trim (ru_round_id run) = ru_round_id run"
      "lv_node_id (lr_row (at_command a)) \<notin> set (handoffedNodes (ru_dag run))"
      "\<forall>r n s. sess r n = Some s \<longrightarrow> js_trim s = s"
    and free: "getCommandRow db (js_trim k) = None"
    and lease: "getLeaseRow db (js_trim (lv_run_id (lr_row (at_command a)))) (js_trim (lv_actor_id (lr_row (at_command a)))) = Some l"
      "lr_target_type l = Some ''worker''" "lr_pinned l \<or> now 0 < the (lr_idle_deadline l)"
    and now: "0 \<le> now 0" "now 0 \<le> max_safe_integer" "lv_created_at (lr_row (at_command a)) \<le> now 3" "0 \<le> now 3" "now 3 \<le> max_safe_integer"
  shows "\<exists>db2 c. handleDagActorLiveCommandStatus env penv now w \<lparr>ts_target_type = ''worker'', ts_target_id = i\<rparr>
      (status_report (lr_row (at_command a)) ''accepted'') db1 = (db2, Inr (Advanced c))
    \<and> lr_row c = transitioned Lv_delivered None (now 3) (lr_row (at_command a)) \<and> getLiveRow db2 (js_trim k) = Some (lr_row c)"
  by (rule report_accepted [OF live_store.reach_inv [OF assms(1)] parse opened sent run free lease now])

theorem live_report_accepted_witness:
  "\<exists>db2 c. handleDagActorLiveCommandStatus demo_env (\<lambda>_. None) (\<lambda>_. 11) delivery_world \<lparr>ts_target_type = ''worker'', ts_target_id = ''w1''\<rparr>
      (status_report delivery_row ''accepted'') delivery_demo1 = (db2, Inr (Advanced c))
    \<and> lr_row c = transitioned Lv_delivered None 11 delivery_row \<and> getLiveRow db2 (js_trim live_demo_id) = Some (lr_row c)"
  using live_report_accepted [OF delivery_reach delivery_ready(5) delivery_opened delivery_sent, where now = "\<lambda>_. 11" and i = "''w1''"]
  by (simp add: live_demo_command_def delivery_row_simps delivery_run max_safe_integer_def delivery_lease_simps delivery_ready(1-4))

text \<open>Whatever delivery does, and whether it throws or not, the stores stay reachable: sending one command or a batch, taking a report
  and recovering after a restart are sequences of steps of the live-command store, so all that holds of it holds of them.\<close>

theorem delivery_keeps_store:
  assumes "reach live_init (live_step env penv) db" and sessions: "sessions_ok env penv w"
  shows "reach live_init (live_step env penv) (fst (trySendDagActorLiveCommand env clock w k db))"
    and "reach live_init (live_step env penv) (fst (sendDagActorLiveCommands env created clocks w run_id request db))"
    and "reach live_init (live_step env penv) (fst (handleDagActorLiveCommandStatus env penv clock w source message db))"
    and "reach live_init (live_step env penv) (fst (recoverDagActorLiveCommands env clocks w db))"
  using reach_stays [OF assms(1)] try_send_stays [OF sessions] send_stays [OF sessions] handle_stays [OF sessions] recover_stays [OF sessions]
  by blast+

theorem delivery_keeps_store_witness:
  "reach live_init (live_step demo_env (\<lambda>_. None)) (fst (recoverDagActorLiveCommands demo_env (\<lambda>_ _. 10) delivery_world delivery_demo))"
  by (rule delivery_keeps_store(4) [OF delivery_reach delivery_sessions])

end
