(* ===== verification/Spec2Isabelle.thy ===== *)
theory Spec2Isabelle
  imports Broker_Calls_Theorems Run_Triggers_Theorems Engine_Termination Yaml_Theorems Actor_Runtime_Theorems Interventions_Theorems Runtime_Primitives_Theorems Live_Commands_Theorems Live_Delivery_Theorems Validator_Theorems
begin

text \<open>
  The workflow core of the agent task management system, modelled and verified. Paths are relative
  to \<open>src/atms_manager/src\<close>.

  \<^bold>\<open>The program.\<close> A workflow is a graph of agents, written in YAML and loaded by \<open>orchestration/yaml-loader.ts\<close>,
  which validates it with \<open>orchestration/graph-validator.ts\<close>. Runs of it are created by hand, by stored triggers
  (\<open>runtime/dag-triggers.ts\<close>) or resumed, under the concurrency policy of the workflow (\<open>persistence/dag-run-admission.ts\<close>).
  \<open>orchestration/dag-engine.ts\<close> executes a run: nodes hand their results off along the edges, failures are routed or
  skip what depends on them, and loops send nodes round again; a run that waits and is resumed counts rounds
  (\<open>persistence/dag-run-rounds.ts\<close>). \<open>orchestration/dispatch-tracker.ts\<close> remembers which worker a node was given to. Each node of
  a run is a persistent actor (\<open>persistence/dag-actors.ts\<close>) with a generation that fences commands sent to it. An actor is leased to a
  worker, stores checkpoints and is deleted once its retention has passed (\<open>persistence/dag-actor-leases.ts\<close>). Operators intervene on
  actors (\<open>persistence/dag-actor-interventions.ts\<close>) and send live commands to them (\<open>persistence/dag-actor-live-commands.ts\<close>,
  \<open>runtime/dag-actor-live-command-runtime.ts\<close>); what a worker sends passes a fence (the bridge \<open>orchestration/response-bridge.ts\<close>). Nodes share
  proposals, approvals, state and budgets (\<open>persistence/dag-runtime-primitives.ts\<close>), and change remote systems through the credential
  broker (\<open>runtime/credential-broker.ts\<close>, \<open>persistence/credential-broker-mutations.ts\<close>). What is stored is redacted first
  (\<open>atms_protocol/src/telemetry-redaction.ts\<close>).

  \<^bold>\<open>The theories.\<close> \<open>X_Props\<close> and \<open>X_Theorems\<close> hold the lemmas and the properties of the component \<open>X\<close>.
  \<^item> \<open>Prelude\<close>: results with errors, insertion-ordered maps and sets of JavaScript, shared lemmas.
    \<open>Js_Values\<close>: JavaScript values and numbers. \<open>Reachability\<close>: paths and the bound of a breadth-first
    search. \<open>Machines\<close>: the contracts, as locales (below). \<open>Json\<close>: JSON text and canonical documents. \<open>Sql_Store\<close>: tables
    as lists of rows with their constraints as predicates, statements that abort, and the checks of arguments.
    \<open>Effects\<close>: operations of several transactions, which return a state also when they throw.
  \<^item> \<open>Graph\<close>: \<open>orchestration/graph.ts\<close>. \<open>Dag_Engine\<close>: the engine, one definition per function of
    \<open>dag-engine.ts\<close>; its invariant, its transitions and liveness. \<open>Engine_Termination\<close>: without loops a run ends.
  \<^item> \<open>Graph_Validator\<close>: validation; cycle detection and reachability are
    equivalent to their mathematical definitions, and a validated graph cannot deadlock the engine.
  \<^item> \<open>Yaml_Loader\<close>: the loader after YAML parsing (which is a parameter). \<open>Telemetry_Redaction\<close>: redaction of secrets.
  \<^item> \<open>Run_Triggers\<close>: admission of runs, and triggers. Active runs stay within the policy under any interleaving of processes;
    a firing is dispatched once; a tick leaves no trigger due; synchronization stores exactly the definition.
  \<^item> \<open>Run_Rounds\<close>: rounds, refining a machine of a count and a status. \<open>Dispatch_Tracker\<close>: the maps keyed by text behave as one
    small machine per node, provided identifiers hold no separator.
  \<^item> \<open>Dag_Actors\<close>: actors and their commands. \<open>Actor_Leases\<close>: lease settings and leases. \<open>Actor_Runtime\<close>: checkpoints, deletion, workers.
  \<^item> \<open>Interventions\<close>: interventions and run snapshots. \<open>Runtime_Primitives\<close>: approvals, shared state, budgets.
  \<^item> \<open>Live_Commands\<close>: the store of live commands. \<open>Transport_Fence\<close>: what is accepted from a worker. \<open>Live_Delivery\<close>: sending a
    command to the worker that holds the lease and taking in its reports.
  \<^item> \<open>Broker_Mutations\<close>: the durable record of mutations with its event log, refining an automaton per request.
    \<open>Broker_Calls\<close>: calls, which ask a provider at most once per request, their cancellation and recovery.

  \<^bold>\<open>State.\<close> A run of the engine is the record \<open>dag_run\<close>, with the maps of the class as association
  lists in insertion order. A database is a record of tables; \<open>lease_db\<close> extends \<open>actor_db\<close>, and \<open>runtime_db\<close>, \<open>live_db\<close> and others
  extend \<open>lease_db\<close>, so that an operation on fewer tables is an operation on more. A transaction
  returns an error, which leaves the database as it was, or the new database with its result; the
  clock, SHA-256, \<open>JSON.parse\<close>, the printing of numbers and \<open>localeCompare\<close> are arguments. Strings are lists
  of characters up to code 255, so that a UTF-16 unit is one character.

  \<^bold>\<open>Parameters.\<close> \<open>world\<close> of \<open>Live_Delivery\<close> holds the live runs, the connected peers, the session of a node, the state token, the
  write to a socket and the text of a schema error. \<open>broker_world\<close> of \<open>Broker_Calls\<close> holds the registered providers, the secrets, the
  active runs, the collation and the record of a success; the check of authority is an argument. A property that needs more of a
  parameter than its type says so as a hypothesis, and its witness instantiates it. \<open>Object.prototype\<close> is taken as the platform provides it: a
  budget whose usage field names \<open>__proto__\<close> assigns on it instead of the document, which \<open>reserveDagBudget\<close> reports in \<open>br_prototype\<close>, and
  what such an assignment does to later reads is not modelled. \<open>trigger_world\<close> holds the
  orchestrator that creates runs.

  \<^bold>\<open>Interfaces.\<close> \<open>transition_system\<close> states an invariant of a step relation, \<open>row_system\<close> that rows are never
  removed and only change along a preorder, \<open>absorbing_system\<close> that a final status is never left,
  \<open>versioned_store\<close> that every write of a row raises its version, and \<open>refinement\<close> that a store is a family of abstract machines, of which
  every step moves one. They are interpreted on the engine and on every
  table, and the properties of reachable states and of sequences of operations rest on what the
  contracts give. A step relation has one rule per operation that writes. The deletion of an actor
  is the only operation that removes rows of actors; the orders hold between deletions (\<open>keep_step\<close>) and the
  invariants across them (\<open>runtime_step\<close>).

  \<^bold>\<open>Termination.\<close> Loops of the source are total functions: the skip cascade and reconciliation by
  the number of open nodes, searches by the number of unvisited nodes, the depth-first search by the
  number of white nodes, Kahn's algorithm by the number of positive degrees. One loop has fuel, \<open>prepareLoop\<close> of
  \<open>Broker_Calls\<close>, which asks the provider between its turns: its fuel is the number of reconciliations, and \<open>broker_call_finishes\<close> proves
  that one is enough when the provider does not write the record itself.

  \<^bold>\<open>Not modelled.\<close> The HTTP, WebSocket and voice servers, the drivers of agents, the web client, Docker, Git and
  GitHub access, plugins, and files of artifacts and workspaces are input and output. \<open>runtime/active-runs.ts\<close>, which connects the
  components modelled here with the transports, and the message router and adapters are wiring whose decisions are taken in the modelled modules.
  The second specification format (\<open>orchestration/workflow-spec-v1.ts\<close>) with its schemas and pattern library, the stores of credentials and
  settings, surfaces of the user interface, and the schema migrations are left out; of a migration the
  constraints of the tables used here are modelled. Events on the bus are not recorded. In the deletion of an actor, the tables that are not
  modelled are not mentioned. Interleavings of two processes on one database are covered in that every
  transaction is atomic and the step relations allow them in any order. Properties that follow a row through many operations hold while
  its actor, or the trigger of a delivery, is not deleted; the recovery of broker mutations is stated for the 64 attempts that one call of it lists.
\<close>

end
